(* ===== verification/Prelude.thy ===== *)
theory Prelude
  imports Main "HOL-Library.Word"
begin

text \<open>
  Shared vocabulary of the development: fallible computations as values of a sum type, tables as
  lists of rows with a key, and the generic lemmas on both. Every Go function that returns
  \<open>(T, error)\<close> is modelled by a function into \<open>'e + 'a\<close>; every SQL table by a list of rows in
  insertion order; every SQL statement by one of the list operations below.
\<close>

section \<open>Fallible computations\<close>

text \<open>Sequencing: Go's \<open>if err != nil { return ..., err }\<close> after each call.\<close>

definition rbind :: "'e + 'a \<Rightarrow> ('a \<Rightarrow> 'e + 'b) \<Rightarrow> 'e + 'b" where
  "rbind m f = (case m of Inl e \<Rightarrow> Inl e | Inr x \<Rightarrow> f x)"

text \<open>A guard: the early return of an error when a condition is not met.\<close>

definition require :: "bool \<Rightarrow> 'e \<Rightarrow> 'e + unit" where
  "require b e = (if b then Inr () else Inl e)"

named_theorems table_simps "rewriting rules for tables kept as lists of rows"

lemma rbind_simps [simp]:
  "rbind (Inl e) f = Inl e"
  "rbind (Inr x) f = f x"
  by (simp_all add: rbind_def)

lemma rbind_Inr_iff: "rbind m f = Inr y \<longleftrightarrow> (\<exists>x. m = Inr x \<and> f x = Inr y)"
  by (cases m) auto

lemma rbind_Inl_iff:
  "rbind m f = Inl e \<longleftrightarrow> m = Inl e \<or> (\<exists>x. m = Inr x \<and> f x = Inl e)"
  by (cases m) auto

lemma rbind_assoc: "rbind (rbind m f) g = rbind m (\<lambda>x. rbind (f x) g)"
  by (cases m) auto

lemma rbind_InrE [elim]:
  assumes "rbind m f = Inr y"
  obtains x where "m = Inr x" and "f x = Inr y"
  using assms by (auto simp: rbind_Inr_iff)

lemma require_simps [simp]:
  "require True e = Inr ()"
  "require False e = Inl e"
  by (simp_all add: require_def)

lemma require_Inr_iff [simp]: "require b e = Inr u \<longleftrightarrow> b"
  by (simp add: require_def)

lemma require_Inl_iff [simp]: "require b e = Inl e' \<longleftrightarrow> \<not> b \<and> e' = e"
  by (auto simp: require_def)

section \<open>Tables: lists of rows with a key\<close>

text \<open>\<open>SELECT ... WHERE key = k\<close> on a table whose key is unique.\<close>

definition row_at :: "('r \<Rightarrow> 'k) \<Rightarrow> 'r list \<Rightarrow> 'k \<Rightarrow> 'r option" where
  "row_at key t k = find (\<lambda>r. key r = k) t"

text \<open>\<open>UPDATE ... SET f WHERE P\<close>, and the number of rows it affects.\<close>

definition update_rows :: "('r \<Rightarrow> bool) \<Rightarrow> ('r \<Rightarrow> 'r) \<Rightarrow> 'r list \<Rightarrow> 'r list" where
  "update_rows P f t = map (\<lambda>r. if P r then f r else r) t"

definition rows_affected :: "('r \<Rightarrow> bool) \<Rightarrow> 'r list \<Rightarrow> nat" where
  "rows_affected P t = length (filter P t)"

lemma row_at_Nil [simp]: "row_at key [] k = None"
  by (simp add: row_at_def)

lemma row_at_Cons [simp]:
  "row_at key (r # t) k = (if key r = k then Some r else row_at key t k)"
  by (simp add: row_at_def)

lemma row_at_SomeD: "row_at key t k = Some r \<Longrightarrow> r \<in> set t \<and> key r = k"
  by (induction t) (auto split: if_splits)

lemma row_at_None_iff: "row_at key t k = None \<longleftrightarrow> k \<notin> key ` set t"
  by (induction t) auto

lemma row_at_append [table_simps]:
  "row_at key (t @ t') k =
     (case row_at key t k of None \<Rightarrow> row_at key t' k | Some r \<Rightarrow> Some r)"
  by (induction t) auto

lemma row_at_unique:
  "distinct (map key t) \<Longrightarrow> r \<in> set t \<Longrightarrow> row_at key t (key r) = Some r"
  by (induction t) (auto simp: rev_image_eqI)

lemma row_at_eq_iff:
  "distinct (map key t) \<Longrightarrow> row_at key t k = Some r \<longleftrightarrow> r \<in> set t \<and> key r = k"
  using row_at_SomeD row_at_unique by metis

lemma row_at_update [table_simps]:
  assumes "\<And>r. P r \<Longrightarrow> key (f r) = key r"
  shows "row_at key (update_rows P f t) k =
    map_option (\<lambda>r. if P r then f r else r) (row_at key t k)"
  by (induction t) (auto simp: update_rows_def assms)

lemma update_rows_simps [simp]:
  "update_rows P f [] = []"
  "update_rows P f (r # t) = (if P r then f r else r) # update_rows P f t"
  by (simp_all add: update_rows_def)

lemma length_update_rows [simp]: "length (update_rows P f t) = length t"
  by (simp add: update_rows_def)

lemma set_update_rows: "set (update_rows P f t) = (\<lambda>r. if P r then f r else r) ` set t"
  by (simp add: update_rows_def)

lemma map_update_rows:
  assumes "\<And>r. P r \<Longrightarrow> g (f r) = g r"
  shows "map g (update_rows P f t) = map g t"
  by (induction t) (auto simp: assms)

lemma update_rows_id: "(\<And>r. r \<in> set t \<Longrightarrow> \<not> P r) \<Longrightarrow> update_rows P f t = t"
  by (induction t) auto

lemma filter_update_rows_other:
  assumes "\<And>r. P r \<Longrightarrow> \<not> Q r" and "\<And>r. P r \<Longrightarrow> \<not> Q (f r)"
  shows "filter Q (update_rows P f t) = filter Q t"
  by (induction t) (use assms in auto)

lemma rows_affected_0_iff: "rows_affected P t = 0 \<longleftrightarrow> (\<forall>r\<in>set t. \<not> P r)"
  by (auto simp: rows_affected_def filter_empty_conv)

lemma filter_key_single:
  "distinct (map key t) \<Longrightarrow> r \<in> set t \<Longrightarrow> filter (\<lambda>r'. key r' = key r) t = [r]"
proof (induction t)
  case (Cons a t)
  show ?case
  proof (cases "a = r")
    case True
    with Cons.prems have "key r \<notin> key ` set t" by simp
    then have "filter (\<lambda>r'. key r' = key r) t = []" by (induction t) auto
    with True show ?thesis by simp
  next
    case False
    with Cons.prems have "r \<in> set t" "key a \<noteq> key r" by (auto simp: rev_image_eqI)
    with Cons show ?thesis by simp
  qed
qed simp

lemma rows_affected_unique:
  assumes "distinct (map key t)" and "r \<in> set t" and "P r"
    and "\<And>r'. P r' \<Longrightarrow> key r' = key r"
  shows "rows_affected P t = 1"
proof -
  have "P = (\<lambda>r'. key r' = key r \<and> P r')"
    using assms(4) by blast
  then have "filter P t = filter P (filter (\<lambda>r'. key r' = key r) t)"
    by (simp add: filter_filter)
  also have "\<dots> = [r]"
    using assms(1-3) by (simp add: filter_key_single)
  finally show ?thesis by (simp add: rows_affected_def)
qed

section \<open>Generic facts on lists\<close>

lemma distinct_filter_map_eq:
  assumes "distinct (map g (filter P xs))" "x \<in> set xs" "y \<in> set xs" "P x" "P y" "g x = g y"
  shows "x = y"
  using assms by (auto simp: distinct_map inj_on_def)

lemma filter_snoc: "filter P (xs @ [x]) = filter P xs @ (if P x then [x] else [])"
  by simp

end
