(* ===== verification/Go_Text.thy ===== *)
theory Go_Text
  imports Prelude
begin

text \<open>
  What the program uses of Go's standard library on text. A Go string and a Go byte slice are
  both byte sequences, modelled by HOL's \<open>string\<close> (a list of 8-bit characters), so that
  \<open>len\<close> is \<open>length\<close>. The theory holds the UTF-8 decoder of \<open>unicode/utf8\<close> (with Go's accept ranges
  and its \<open>RuneError\<close> of width one on a malformed byte), the \<open>strings\<close> functions on single-byte
  cut sets, \<open>strconv\<close>'s decimal format, \<open>encoding/hex\<close> and the string and number encoders of
  \<open>encoding/json\<close>. Unicode tables (normalisation, case folding, upper-casing beyond ASCII) are
  parameters, see theory \<open>External\<close>.
\<close>

section \<open>Bytes\<close>

definition code :: "char \<Rightarrow> nat" where
  "code c = of_char c"

lemma code_less [simp]: "code c < 256"
  by (simp add: code_def)

lemma code_inject [simp]: "code a = code b \<longleftrightarrow> a = b"
  by (simp add: code_def)

definition is_ascii :: "string \<Rightarrow> bool" where
  "is_ascii s \<longleftrightarrow> list_all (\<lambda>c. code c < 128) s"

section \<open>UTF-8\<close>

text \<open>\<open>utf8.RuneError\<close>.\<close>

definition rune_error :: nat where
  "rune_error = 65533"

definition in_range :: "nat \<Rightarrow> nat \<Rightarrow> char \<Rightarrow> bool" where
  "in_range lo hi c \<longleftrightarrow> lo \<le> code c \<and> code c \<le> hi"

abbreviation cont :: "char \<Rightarrow> bool" where
  "cont \<equiv> in_range 128 191"

text \<open>The accept range of the byte after the lead byte (\<open>utf8.acceptRanges\<close>).\<close>

definition second_ok :: "nat \<Rightarrow> char \<Rightarrow> bool" where
  "second_ok b0 c \<longleftrightarrow>
     (if b0 = 224 then in_range 160 191 c
      else if b0 = 237 then in_range 128 159 c
      else if b0 = 240 then in_range 144 191 c
      else if b0 = 244 then in_range 128 143 c
      else cont c)"

text \<open>\<open>utf8.DecodeRuneInString\<close>: the first rune of the string and its width in bytes.\<close>

fun decode_rune :: "string \<Rightarrow> nat \<times> nat" where
  "decode_rune [] = (rune_error, 0)"
| "decode_rune (c0 # rest) =
     (let b0 = code c0 in
      if b0 < 128 then (b0, 1)
      else if 194 \<le> b0 \<and> b0 \<le> 223 then
        (case rest of
           c1 # _ \<Rightarrow> if second_ok b0 c1 then ((b0 - 192) * 64 + (code c1 - 128), 2) else (rune_error, 1)
         | [] \<Rightarrow> (rune_error, 1))
      else if 224 \<le> b0 \<and> b0 \<le> 239 then
        (case rest of
           c1 # c2 # _ \<Rightarrow>
             if second_ok b0 c1 \<and> cont c2
             then ((b0 - 224) * 4096 + (code c1 - 128) * 64 + (code c2 - 128), 3)
             else (rune_error, 1)
         | _ \<Rightarrow> (rune_error, 1))
      else if 240 \<le> b0 \<and> b0 \<le> 244 then
        (case rest of
           c1 # c2 # c3 # _ \<Rightarrow>
             if second_ok b0 c1 \<and> cont c2 \<and> cont c3
             then ((b0 - 240) * 262144 + (code c1 - 128) * 4096 + (code c2 - 128) * 64 + (code c3 - 128), 4)
             else (rune_error, 1)
         | _ \<Rightarrow> (rune_error, 1))
      else (rune_error, 1))"

text \<open>\<open>for _, r := range s\<close>: the runes of a string, a malformed byte read as \<open>RuneError\<close>.\<close>

function runes :: "string \<Rightarrow> nat list" where
  "runes [] = []"
| "runes (c # cs) =
     (case decode_rune (c # cs) of (r, w) \<Rightarrow> r # runes (drop (w - 1) cs))"
  by pat_completeness auto
termination
  by (relation "measure length") auto

text \<open>\<open>utf8.ValidString\<close>.\<close>

function valid_utf8 :: "string \<Rightarrow> bool" where
  "valid_utf8 [] = True"
| "valid_utf8 (c # cs) =
     (case decode_rune (c # cs) of (r, w) \<Rightarrow>
        \<not> (r = rune_error \<and> w = 1) \<and> valid_utf8 (drop (w - 1) cs))"
  by pat_completeness auto
termination
  by (relation "measure length") auto

text \<open>\<open>utf8.RuneCountInString\<close>.\<close>

definition rune_count :: "string \<Rightarrow> nat" where
  "rune_count s = length (runes s)"

text \<open>
  \<open>utf8.DecodeLastRuneInString\<close>, its width: an ASCII byte is a rune; otherwise step back from the
  byte before the last, over at most three continuation bytes, and decode there; the rune counts
  when it ends with the string. \<open>k\<close> is the distance of the start from the end of the string.
\<close>

fun last_rune_back :: "nat \<Rightarrow> string \<Rightarrow> nat \<Rightarrow> nat" where
  "last_rune_back 0 s k = k"
| "last_rune_back (Suc n) s k =
     (if k \<le> length s \<and> cont (s ! (length s - k)) then last_rune_back n s (Suc k) else k)"

definition last_rune_width :: "string \<Rightarrow> nat" where
  "last_rune_width s =
     (if s = [] then 0
      else if code (last s) < 128 then 1
      else let k = min (last_rune_back 3 s 2) (length s);
               size = snd (decode_rune (drop (length s - k) s))
           in if size = k then size else 1)"

lemma decode_rune_width: "s \<noteq> [] \<Longrightarrow> 1 \<le> snd (decode_rune s) \<and> snd (decode_rune s) \<le> length s"
  by (cases s) (auto simp: Let_def split: list.split)

lemma last_rune_back_ge: "k \<le> last_rune_back n s k"
  by (induction n s k rule: last_rune_back.induct) auto

lemma last_rune_width_pos: "s \<noteq> [] \<Longrightarrow> 1 \<le> last_rune_width s \<and> last_rune_width s \<le> length s"
  using last_rune_back_ge [of 2 3 s]
  by (cases s) (auto simp: last_rune_width_def Let_def)

lemma decode_rune_ascii: "code c < 128 \<Longrightarrow> decode_rune (c # cs) = (code c, 1)"
  by simp

lemma runes_ascii: "is_ascii s \<Longrightarrow> runes s = map code s"
  by (induction s) (auto simp: is_ascii_def)

lemma valid_utf8_ascii: "is_ascii s \<Longrightarrow> valid_utf8 s"
  by (induction s) (auto simp: is_ascii_def rune_error_def)

text \<open>An ASCII byte of a string is one of its runes, wherever it stands.\<close>

lemma ascii_byte_is_rune: "c \<in> set s \<Longrightarrow> code c < 128 \<Longrightarrow> code c \<in> set (runes s)"
proof (induction s rule: runes.induct)
  case 1
  then show ?case by simp
next
  case (2 d cs)
  obtain r w where rw: "decode_rune (d # cs) = (r, w)" by (cases "decode_rune (d # cs)")
  show ?case
  proof (cases "c = d \<or> c \<in> set (drop (w - 1) cs)")
    case True
    then show ?thesis
    proof
      assume "c = d"
      with 2(3) rw show ?thesis by (auto simp: Let_def)
    next
      assume "c \<in> set (drop (w - 1) cs)"
      then have "code c \<in> set (runes (drop (w - 1) cs))"
        using "2.IH" [OF rw [symmetric]] 2(3) by blast
      with rw show ?thesis by simp
    qed
  next
    case False
    with 2(2) have "c \<in> set (take (w - 1) cs)"
      by (metis append_take_drop_id set_ConsD set_append UnE)
    with rw 2(3) show ?thesis
      by (auto simp: Let_def second_ok_def in_range_def numeral_2_eq_2 numeral_3_eq_3
          split: if_splits list.splits)
  qed
qed

section \<open>Strings\<close>

text \<open>\<open>strings.Cut(s, c)\<close>, the part before.\<close>

definition cut_before :: "char \<Rightarrow> string \<Rightarrow> string" where
  "cut_before c s = takeWhile (\<lambda>d. d \<noteq> c) s"

text \<open>\<open>strings.TrimRight\<close> and \<open>strings.Trim\<close> with an ASCII cut set.\<close>

definition trim_right :: "string \<Rightarrow> string \<Rightarrow> string" where
  "trim_right cutset s = rev (dropWhile (\<lambda>c. c \<in> set cutset) (rev s))"

definition trim_both :: "string \<Rightarrow> string \<Rightarrow> string" where
  "trim_both cutset s = trim_right cutset (dropWhile (\<lambda>c. c \<in> set cutset) s)"

text \<open>\<open>strings.HasSuffix\<close>, \<open>strings.HasPrefix\<close>.\<close>

definition has_suffix :: "string \<Rightarrow> string \<Rightarrow> bool" where
  "has_suffix s t \<longleftrightarrow> length t \<le> length s \<and> drop (length s - length t) s = t"

definition has_prefix :: "string \<Rightarrow> string \<Rightarrow> bool" where
  "has_prefix s t \<longleftrightarrow> take (length t) s = t"

text \<open>\<open>strings.Join(parts, "/")\<close> and \<open>strings.Split(s, c)\<close> on a single byte.\<close>

fun join_path :: "string list \<Rightarrow> string" where
  "join_path [] = []"
| "join_path [p] = p"
| "join_path (p # q # ps) = p @ ''/'' @ join_path (q # ps)"

fun split_on :: "char \<Rightarrow> string \<Rightarrow> string list" where
  "split_on c [] = [[]]"
| "split_on c (d # s) =
     (if d = c then [] # split_on c s
      else (case split_on c s of p # ps \<Rightarrow> (d # p) # ps | [] \<Rightarrow> [[d]]))"

lemma split_on_nonempty: "split_on c s \<noteq> []"
  by (induction s) (auto split: list.splits)

lemma split_on_no_sep: "c \<notin> set s \<Longrightarrow> split_on c s = [s]"
  by (induction s) auto

lemma split_on_append: "c \<notin> set s \<Longrightarrow> split_on c (s @ c # t) = s # split_on c t"
  by (induction s) auto

lemma split_join_path:
  "ps \<noteq> [] \<Longrightarrow> \<forall>p\<in>set ps. CHR ''/'' \<notin> set p \<Longrightarrow> split_on (CHR ''/'') (join_path ps) = ps"
  by (induction ps rule: join_path.induct) (simp_all add: split_on_no_sep split_on_append)

lemma cut_before_first:
  "ps \<noteq> [] \<Longrightarrow> \<forall>p\<in>set ps. CHR ''/'' \<notin> set p \<Longrightarrow> cut_before (CHR ''/'') (join_path ps) = hd ps"
  by (induction ps rule: join_path.induct)
    (auto simp: cut_before_def takeWhile_append takeWhile_eq_all_conv)

lemma join_path_Cons: "ps \<noteq> [] \<Longrightarrow> join_path (p # ps) = p @ ''/'' @ join_path ps"
  by (cases ps) auto

lemma join_path_append:
  "ps \<noteq> [] \<Longrightarrow> qs \<noteq> [] \<Longrightarrow> join_path (ps @ qs) = join_path ps @ ''/'' @ join_path qs"
  by (induction ps rule: join_path.induct) (auto simp: join_path_Cons)

section \<open>Numbers and hexadecimal digits\<close>

text \<open>\<open>strconv.FormatUint(n, 10)\<close>.\<close>

definition digit_char :: "nat \<Rightarrow> char" where
  "digit_char d = char_of (48 + d)"

fun decimal :: "nat \<Rightarrow> string" where
  "decimal n = (if n < 10 then [digit_char n] else decimal (n div 10) @ [digit_char (n mod 10)])"

declare decimal.simps [simp del]

text \<open>\<open>encoding/hex\<close>, lower case.\<close>

definition hex_char :: "nat \<Rightarrow> char" where
  "hex_char d = (if d < 10 then char_of (48 + d) else char_of (87 + d))"

definition hex_encode :: "string \<Rightarrow> string" where
  "hex_encode s = concat (map (\<lambda>c. [hex_char (code c div 16), hex_char (code c mod 16)]) s)"

text \<open>
  A JSON string of \<open>encoding/json\<close> (with HTML escaping, the default of \<open>json.Marshal\<close>): quotes and
  backslashes escaped, control characters and \<open><\<close>, \<open>>\<close>, \<open>&\<close> as \<open>\u00xx\<close>, a malformed byte as \<open>\ufffd\<close>,
  U+2028 and U+2029 as \<open>\u2028\<close> and \<open>\u2029\<close>, every other rune copied.
\<close>

definition json_byte :: "char \<Rightarrow> string" where
  "json_byte c =
     (let b = code c in
      if c = CHR 0x22 \<or> c = CHR 0x5C then [CHR 0x5C, c]
      else if b = 8 then [CHR 0x5C, CHR ''b'']
      else if b = 12 then [CHR 0x5C, CHR ''f'']
      else if b = 10 then [CHR 0x5C, CHR ''n'']
      else if b = 13 then [CHR 0x5C, CHR ''r'']
      else if b = 9 then [CHR 0x5C, CHR ''t'']
      else if b < 32 \<or> c = CHR ''<'' \<or> c = CHR ''>'' \<or> c = CHR ''&''
      then [CHR 0x5C, CHR ''u'', CHR ''0'', CHR ''0'', hex_char (b div 16), hex_char (b mod 16)]
      else [c])"

function json_chars :: "string \<Rightarrow> string" where
  "json_chars [] = []"
| "json_chars (c # cs) =
     (if code c < 128 then json_byte c @ json_chars cs
      else (case decode_rune (c # cs) of (r, w) \<Rightarrow>
        (if r = rune_error \<and> w = 1 then [CHR 0x5C] @ ''ufffd''
         else if r = 8232 \<or> r = 8233 then [CHR 0x5C] @ ''u202'' @ [hex_char (r mod 16)]
         else take w (c # cs))
        @ json_chars (drop (w - 1) cs)))"
  by pat_completeness auto
termination
  by (relation "measure length") auto

definition json_string :: "string \<Rightarrow> string" where
  "json_string s = [CHR 0x22] @ json_chars s @ [CHR 0x22]"

end
