(* ===== verification/External.thy ===== *)
theory External
  imports Go_Text
begin

text \<open>
  The code outside the repository that the modelled parts call, as one record of functions that
  every model function takes as an argument: Unicode normalisation and case folding
  (\<open>golang.org/x/text\<close>), the Unicode part of \<open>strings.ToUpper\<close> and \<open>strings.ToLower\<close>, SHA-256 and the
  UUID library (\<open>github.com/google/uuid\<close>). The predicates name the documented behaviour a theorem
  relies on; \<open>sample_ext\<close> is a concrete ASCII instance on which the closed examples evaluate.
\<close>

section \<open>Identifiers\<close>

text \<open>
  \<open>uuid.UUID\<close> is a 16-byte array. It is a 128-bit word here, the first byte most significant, so
  that the order of words is the order \<open>bytes.Compare\<close> and SQLite's \<open>ORDER BY\<close> give.
\<close>

type_synonym uuid = "128 word"

text \<open>\<open>uuid.Nil\<close>.\<close>

definition uuid_nil :: uuid where
  "uuid_nil = 0"

section \<open>The external functions\<close>

record ext =
  x_nfc :: "string \<Rightarrow> string"
  x_fold :: "string \<Rightarrow> string"
  x_upper :: "string \<Rightarrow> string"
  x_lower :: "string \<Rightarrow> string"
  x_sha256 :: "string \<Rightarrow> string"
  x_uuid_version :: "uuid \<Rightarrow> nat"
  x_uuid_rfc4122 :: "uuid \<Rightarrow> bool"
  x_uuid_string :: "uuid \<Rightarrow> string"

text \<open>\<open>strings.ToUpper\<close> and \<open>strings.ToLower\<close>: byte-wise on ASCII strings, Unicode tables otherwise.\<close>

definition ascii_upper :: "char \<Rightarrow> char" where
  "ascii_upper c = (if in_range 97 122 c then char_of (code c - 32) else c)"

definition ascii_lower :: "char \<Rightarrow> char" where
  "ascii_lower c = (if in_range 65 90 c then char_of (code c + 32) else c)"

definition to_upper :: "ext \<Rightarrow> string \<Rightarrow> string" where
  "to_upper x s = (if is_ascii s then map ascii_upper s else x_upper x s)"

definition to_lower :: "ext \<Rightarrow> string \<Rightarrow> string" where
  "to_lower x s = (if is_ascii s then map ascii_lower s else x_lower x s)"

section \<open>Documented behaviour\<close>

text \<open>Normalisation is idempotent and maps valid UTF-8 to valid UTF-8.\<close>

definition nfc_laws :: "ext \<Rightarrow> bool" where
  "nfc_laws x \<longleftrightarrow> (\<forall>s. x_nfc x (x_nfc x s) = x_nfc x s) \<and> (\<forall>s. valid_utf8 s \<longrightarrow> valid_utf8 (x_nfc x s))"

text \<open>A SHA-256 digest has 32 bytes.\<close>

definition digest_law :: "ext \<Rightarrow> bool" where
  "digest_law x \<longleftrightarrow> (\<forall>s. length (x_sha256 x s) = 32)"

text \<open>
  \<open>UUID.Version\<close> reads the upper half of byte 6, \<open>UUID.Variant\<close> answers \<open>RFC4122\<close> when the two top bits
  of byte 8 are \<open>10\<close>.
\<close>

definition uuid_layout :: "ext \<Rightarrow> bool" where
  "uuid_layout x \<longleftrightarrow>
     (\<forall>u. x_uuid_version x u = unat (drop_bit 76 u) mod 16) \<and>
     (\<forall>u. x_uuid_rfc4122 x u \<longleftrightarrow> unat (drop_bit 62 u) mod 4 = 2)"

text \<open>\<open>UUID.String\<close> is injective and prints 36 ASCII characters.\<close>

definition uuid_string_law :: "ext \<Rightarrow> bool" where
  "uuid_string_law x \<longleftrightarrow>
     (\<forall>u v. x_uuid_string x u = x_uuid_string x v \<longrightarrow> u = v) \<and>
     (\<forall>u. is_ascii (x_uuid_string x u) \<and> length (x_uuid_string x u) = 36)"

section \<open>A concrete instance\<close>

text \<open>
  An ASCII instance: identity as normalisation, ASCII case mapping, a 32-byte checksum in the place
  of the digest, and the canonical 8-4-4-4-12 form of an identifier.
\<close>

definition checksum :: "string \<Rightarrow> nat" where
  "checksum s = foldl (\<lambda>h c. (h * 257 + code c) mod 4294967291) 7 s"

definition sample_digest :: "string \<Rightarrow> string" where
  "sample_digest s =
     (let n = checksum s
      in replicate 28 (CHR 0x00) @
         map (\<lambda>k. char_of (n div 256 ^ k mod 256)) [3, 2, 1, 0])"

definition uuid_digit :: "uuid \<Rightarrow> nat \<Rightarrow> char" where
  "uuid_digit u k = hex_char (unat (drop_bit (124 - 4 * k) u) mod 16)"

definition sample_uuid_string :: "uuid \<Rightarrow> string" where
  "sample_uuid_string u =
     map (uuid_digit u) [0..<8] @ ''-'' @ map (uuid_digit u) [8..<12] @ ''-'' @
     map (uuid_digit u) [12..<16] @ ''-'' @ map (uuid_digit u) [16..<20] @ ''-'' @
     map (uuid_digit u) [20..<32]"

definition sample_ext :: ext where
  "sample_ext = \<lparr>
     x_nfc = (\<lambda>s. s),
     x_fold = map ascii_lower,
     x_upper = map ascii_upper,
     x_lower = map ascii_lower,
     x_sha256 = sample_digest,
     x_uuid_version = (\<lambda>u. unat (drop_bit 76 u) mod 16),
     x_uuid_rfc4122 = (\<lambda>u. unat (drop_bit 62 u) mod 4 = 2),
     x_uuid_string = sample_uuid_string \<rparr>"

lemma sample_ext_simps [simp]:
  "x_nfc sample_ext = (\<lambda>s. s)"
  "x_fold sample_ext = map ascii_lower"
  "x_sha256 sample_ext = sample_digest"
  "x_uuid_version sample_ext = (\<lambda>u. unat (drop_bit 76 u) mod 16)"
  "x_uuid_rfc4122 sample_ext = (\<lambda>u. unat (drop_bit 62 u) mod 4 = 2)"
  "x_uuid_string sample_ext = sample_uuid_string"
  by (simp_all add: sample_ext_def)

lemma sample_nfc_laws: "nfc_laws sample_ext"
  by (simp add: nfc_laws_def)

lemma sample_digest_law: "digest_law sample_ext"
  by (simp add: digest_law_def sample_digest_def Let_def)

lemma sample_uuid_layout: "uuid_layout sample_ext"
  by (simp add: uuid_layout_def)

end
