(* ===== verification/Sync_Types.thy ===== *)
theory Sync_Types
  imports External
begin

text \<open>
  The vocabulary of the server's synchronization core, \<open>server/internal/sync/types.go\<close> and
  \<open>reserved.go\<close>: object types, mutation kinds, conflict codes, errors, requests and results. Go's
  string-typed enumerations keep a constructor for every other string. \<open>uint64\<close> numbers are \<open>nat\<close>
  with the bound at the place where the code meets it, the binding of a value to a 64-bit signed
  SQL integer (theory \<open>Sync_Store\<close>).
\<close>

section \<open>Enumerations\<close>

datatype object_type = ObjectNote | ObjectFolder | OtherType string

datatype mutation_kind =
  MutationCreate | MutationUpdate | MutationMove | MutationDelete | OtherKind string

datatype conflict_code =
    ConflictObjectExists
  | ConflictObjectMissing
  | ConflictObjectDeleted
  | ConflictBaseRevisionMismatch
  | ConflictParentUnavailable
  | ConflictPathCollision
  | ConflictFolderNotEmpty
  | ConflictFolderCycle
  | ConflictTypeMismatch

text \<open>The sentinel errors, and what the code returns without a sentinel of its own.\<close>

datatype sync_error =
    ErrInvalidInput
  | ErrInactiveActor
  | ErrBlobUnavailable
  | ErrOperationReplayMismatch
  | ErrPreserveDeleteUnavailable
  | ErrNamespaceCorrupt
  | ErrNamespaceHistoryCorrupt
  | ErrDatabase
  | ErrRandom

fun type_text :: "object_type \<Rightarrow> string" where
  "type_text ObjectNote = ''note''"
| "type_text ObjectFolder = ''folder''"
| "type_text (OtherType s) = s"

fun kind_text :: "mutation_kind \<Rightarrow> string" where
  "kind_text MutationCreate = ''create''"
| "kind_text MutationUpdate = ''update''"
| "kind_text MutationMove = ''move''"
| "kind_text MutationDelete = ''delete''"
| "kind_text (OtherKind s) = s"

section \<open>Requests and results\<close>

record mutation =
  m_operation :: uuid
  m_kind :: mutation_kind
  m_object :: uuid
  m_type :: object_type
  m_base :: nat
  m_parent :: "uuid option"
  m_name :: string
  m_blob :: string

record canonical_state =
  c_type :: object_type
  c_revision :: nat
  c_parent :: "uuid option"
  c_name :: string
  c_blob :: string
  c_deleted :: bool

record submit_result =
  r_accepted :: bool
  r_conflict :: "conflict_code option"
  r_revision :: nat
  r_cursor :: nat
  r_canonical :: "canonical_state option"

record version_state =
  v_cursor :: nat
  v_mutation :: mutation_kind
  v_operation :: uuid
  v_object :: uuid
  v_type :: object_type
  v_revision :: nat
  v_parent :: "uuid option"
  v_name :: string
  v_blob :: string
  v_deleted :: bool

record pull_result =
  p_changes :: "version_state list"
  p_more :: bool
  p_next :: nat

record preserve_request =
  q_operation :: uuid
  q_conflict_operation :: uuid
  q_folder :: uuid
  q_expected_revision :: nat
  q_known_cursor :: nat
  q_version :: nat

record preserve_clone =
  k_original :: uuid
  k_recovered :: uuid
  k_source_parent :: uuid
  k_target_parent :: uuid
  k_create_cursor :: nat
  k_delete_cursor :: nat
  k_source_revision :: nat
  k_depth :: nat
  k_name :: string

record preserve_note_move =
  n_note :: uuid
  n_source_parent :: uuid
  n_target_parent :: uuid
  n_move_cursor :: nat
  n_source_revision :: nat
  n_target_revision :: nat
  n_name :: string
  n_blob :: string

record preserve_result =
  s_recovered :: uuid
  s_recovered_name :: string
  s_recovered_cursor :: nat
  s_deleted_cursor :: nat
  s_first_cursor :: nat
  s_last_cursor :: nat
  s_clones :: "preserve_clone list"
  s_note_moves :: "preserve_note_move list"

text \<open>The zero value of \<open>SubmitResult\<close>, and its three shapes.\<close>

definition accepted_result :: "nat \<Rightarrow> nat \<Rightarrow> submit_result" where
  "accepted_result revision cursor =
     \<lparr>r_accepted = True, r_conflict = None, r_revision = revision, r_cursor = cursor, r_canonical = None\<rparr>"

definition conflict_result :: "conflict_code \<Rightarrow> canonical_state option \<Rightarrow> submit_result" where
  "conflict_result conflict canonical =
     \<lparr>r_accepted = False, r_conflict = Some conflict, r_revision = 0, r_cursor = 0, r_canonical = canonical\<rparr>"

section \<open>The reserved conflict namespace\<close>

definition ConflictRootID :: uuid where
  "ConflictRootID = 0x7a3e2b0e6a3d4c5f8a619a0c8d47f001"

definition ConflictRecoveredID :: uuid where
  "ConflictRecoveredID = 0x7a3e2b0e6a3d4c5f8a619a0c8d47f002"

definition ConflictRootName :: string where
  "ConflictRootName = ''_Konflikte''"

definition ConflictRecoveredName :: string where
  "ConflictRecoveredName = ''Wiederhergestellt''"

definition isReservedConflictFolder :: "uuid \<Rightarrow> bool" where
  "isReservedConflictFolder u \<longleftrightarrow> u = ConflictRootID \<or> u = ConflictRecoveredID"

section \<open>Identifier checks\<close>

definition validObjectID :: "ext \<Rightarrow> uuid \<Rightarrow> bool" where
  "validObjectID x u \<longleftrightarrow> u \<noteq> uuid_nil \<and> x_uuid_rfc4122 x u"

definition validV7 :: "ext \<Rightarrow> uuid \<Rightarrow> bool" where
  "validV7 x u \<longleftrightarrow> validObjectID x u \<and> x_uuid_version x u = 7"

definition sameUUID :: "uuid option \<Rightarrow> uuid option \<Rightarrow> bool" where
  "sameUUID a b =
     (case (a, b) of (Some u, Some v) \<Rightarrow> u = v | (None, None) \<Rightarrow> True | _ \<Rightarrow> False)"

definition parentKey :: "uuid option \<Rightarrow> uuid" where
  "parentKey p = (case p of None \<Rightarrow> 0 | Some u \<Rightarrow> u)"

lemma sameUUID_iff [simp]: "sameUUID a b \<longleftrightarrow> a = b"
  by (simp add: sameUUID_def split: option.split)

lemma reserved_distinct [simp]: "ConflictRootID \<noteq> ConflictRecoveredID"
  by (simp add: ConflictRootID_def ConflictRecoveredID_def)

end
