(* ===== verification/Database.thy ===== *)
theory Database
  imports Sync_Types
begin

text \<open>
  The server's one SQLite database: a row type per table and a record with one list of rows per
  table. Columns keep the schema's names after a short prefix, a nullable column is an option, a
  \<open>BLOB\<close> column holding an identifier is a \<open>uuid\<close>, times are milliseconds. The constraints of the
  schema are checked by the statements of theories \<open>Sync_Store\<close>, \<open>Sync_Resolution\<close>, \<open>Session\<close> and \<open>Identity\<close>.
\<close>

section \<open>Accounts, devices and sessions\<close>

datatype user_status = PendingVerification | UserActive | DeletionPending

record user_row =
  usr_id :: uuid
  usr_delivery :: string
  usr_canonical :: string
  usr_password :: string
  usr_policy :: nat
  usr_status :: user_status
  usr_created :: int
  usr_verified :: "int option"

record verification_row =
  evr_user :: uuid
  evr_hash :: string
  evr_issued :: int
  evr_expires :: int

record outbox_row =
  eob_user :: uuid
  eob_recipient :: string
  eob_nonce :: string
  eob_ciphertext :: string
  eob_created :: int
  eob_next :: int
  eob_attempts :: nat

datatype lifecycle = Active | Revoked

record device_row =
  dev_user :: uuid
  dev_id :: uuid
  dev_name :: string
  dev_status :: lifecycle
  dev_created :: int
  dev_updated :: int
  dev_revoked :: "int option"

record session_row =
  ses_user :: uuid
  ses_id :: uuid
  ses_device :: uuid
  ses_status :: lifecycle
  ses_created :: int
  ses_expires :: int
  ses_revoked :: "int option"

record access_row =
  acc_hash :: string
  acc_user :: uuid
  acc_session :: uuid
  acc_device :: uuid
  acc_issued :: int
  acc_expires :: int
  acc_revoked :: "int option"

record refresh_row =
  ref_hash :: string
  ref_user :: uuid
  ref_session :: uuid
  ref_device :: uuid
  ref_replaced :: "string option"
  ref_issued :: int
  ref_expires :: int
  ref_consumed :: "int option"

section \<open>Blobs and synchronized objects\<close>

record blob_row =
  blb_hash :: string
  blb_size :: nat
  blb_available :: bool

record obj_row =
  o_user :: uuid
  o_id :: uuid
  o_type :: object_type
  o_rev :: nat
  o_parent :: "uuid option"
  o_name :: string
  o_key :: string
  o_blob :: "string option"
  o_deleted :: bool
  o_created :: int
  o_updated :: int

record op_row =
  op_user :: uuid
  op_device :: uuid
  op_id :: uuid
  op_hash :: string
  op_mutation :: mutation_kind
  op_object :: uuid
  op_type :: object_type
  op_base :: nat
  op_parent :: "uuid option"
  op_name :: "string option"
  op_key :: "string option"
  op_blob :: "string option"
  op_accepted :: bool
  op_conflict :: "conflict_code option"
  op_revision :: "nat option"
  op_cursor :: "nat option"
  op_created :: int
  op_c_type :: "object_type option"
  op_c_revision :: "nat option"
  op_c_parent :: "uuid option"
  op_c_name :: "string option"
  op_c_blob :: "string option"
  op_c_deleted :: "bool option"

record ver_row =
  ver_user :: uuid
  ver_object :: uuid
  ver_rev :: nat
  ver_op :: uuid
  ver_type :: object_type
  ver_parent :: "uuid option"
  ver_name :: string
  ver_key :: string
  ver_blob :: "string option"
  ver_deleted :: bool
  ver_created :: int

record chg_row =
  chg_user :: uuid
  chg_cursor :: nat
  chg_object :: uuid
  chg_rev :: nat
  chg_op :: uuid
  chg_mutation :: mutation_kind
  chg_created :: int

section \<open>Preserve-and-delete resolutions\<close>

record res_row =
  res_user :: uuid
  res_device :: uuid
  res_op :: uuid
  res_hash :: string
  res_conflict :: uuid
  res_folder :: uuid
  res_expected :: nat
  res_recovered :: uuid
  res_name :: "string option"
  res_recovered_cursor :: nat
  res_deleted_cursor :: nat
  res_completed :: bool
  res_version :: nat
  res_known :: "nat option"
  res_first :: nat
  res_last :: nat
  res_clones :: nat
  res_notes :: nat

record cln_row =
  cln_user :: uuid
  cln_op :: uuid
  cln_ordinal :: nat
  cln_clone :: preserve_clone

record mov_row =
  mov_user :: uuid
  mov_op :: uuid
  mov_ordinal :: nat
  mov_move :: preserve_note_move

section \<open>The database\<close>

record db =
  users :: "user_row list"
  verifications :: "verification_row list"
  outbox :: "outbox_row list"
  devices :: "device_row list"
  sessions :: "session_row list"
  access_tokens :: "access_row list"
  refresh_tokens :: "refresh_row list"
  blobs :: "blob_row list"
  entitlements :: "(uuid \<times> string) list"
  counters :: "(uuid \<times> nat) list"
  objects :: "obj_row list"
  operations :: "op_row list"
  versions :: "ver_row list"
  changes :: "chg_row list"
  resolutions :: "res_row list"
  res_clone_rows :: "cln_row list"
  res_move_rows :: "mov_row list"

definition empty_db :: db where
  "empty_db = \<lparr>users = [], verifications = [], outbox = [], devices = [], sessions = [],
     access_tokens = [], refresh_tokens = [], blobs = [], entitlements = [], counters = [],
     objects = [], operations = [], versions = [], changes = [], resolutions = [],
     res_clone_rows = [], res_move_rows = []\<rparr>"

section \<open>Lookups shared by the components\<close>

definition user_exists :: "db \<Rightarrow> uuid \<Rightarrow> bool" where
  "user_exists d u \<longleftrightarrow> list_ex (\<lambda>r. usr_id r = u) (users d)"

definition user_active :: "db \<Rightarrow> uuid \<Rightarrow> bool" where
  "user_active d u \<longleftrightarrow> list_ex (\<lambda>r. usr_id r = u \<and> usr_status r = UserActive) (users d)"

definition device_exists :: "db \<Rightarrow> uuid \<Rightarrow> uuid \<Rightarrow> bool" where
  "device_exists d u i \<longleftrightarrow> list_ex (\<lambda>r. dev_user r = u \<and> dev_id r = i) (devices d)"

definition device_active :: "db \<Rightarrow> uuid \<Rightarrow> uuid \<Rightarrow> bool" where
  "device_active d u i \<longleftrightarrow>
     list_ex (\<lambda>r. dev_user r = u \<and> dev_id r = i \<and> dev_status r = Active) (devices d)"

definition blob_at :: "db \<Rightarrow> string \<Rightarrow> blob_row option" where
  "blob_at d h = row_at blb_hash (blobs d) h"

definition entitled :: "db \<Rightarrow> uuid \<Rightarrow> string \<Rightarrow> bool" where
  "entitled d u h \<longleftrightarrow> (u, h) \<in> set (entitlements d)"

text \<open>Columns that bind a \<open>uint64\<close> hold a signed 64-bit integer: a larger value does not bind.\<close>

definition int64 :: "nat \<Rightarrow> bool" where
  "int64 n \<longleftrightarrow> n < 9223372036854775808"

lemma user_active_exists: "user_active d u \<Longrightarrow> user_exists d u"
  by (auto simp: user_active_def user_exists_def list_ex_iff)

lemma device_active_exists: "device_active d u i \<Longrightarrow> device_exists d u i"
  by (auto simp: device_active_def device_exists_def list_ex_iff)

end
