(* ===== verification/Sync_Naming.thy ===== *)
theory Sync_Naming
  imports Sync_Types
begin

text \<open>
  Portable names and logical paths of the server, \<open>server/internal/sync/naming.go\<close>:
  normalisation to NFC with the forbidden characters, trailing characters and device names of
  Windows, the case-folded comparison key, and the check of a full path.
\<close>

definition maxNameBytes :: nat where
  "maxNameBytes = 180"

definition maxPathBytes :: nat where
  "maxPathBytes = 768"

text \<open>\<open><>:"/\|?*\<close>, as runes.\<close>

definition forbidden_chars :: string where
  "forbidden_chars = ''<>:'' @ [CHR 0x22] @ ''/'' @ [CHR 0x5C] @ ''|?*''"

definition forbidden_rune :: "nat \<Rightarrow> bool" where
  "forbidden_rune r \<longleftrightarrow> r < 32 \<or> r \<in> set (map code forbidden_chars)"

text \<open>The superscript digits one, two and three in UTF-8.\<close>

definition superscript_digits :: "string list" where
  "superscript_digits = [[CHR 0xC2, CHR 0xB9], [CHR 0xC2, CHR 0xB2], [CHR 0xC2, CHR 0xB3]]"

definition reservedDevice :: "ext \<Rightarrow> string \<Rightarrow> bool" where
  "reservedDevice x name =
     (let stem = to_upper x (trim_right '' .'' (cut_before (CHR ''.'') name)) in
      if stem \<in> set [''CON'', ''PRN'', ''AUX'', ''NUL'', ''CONIN$'', ''CONOUT$''] then True
      else if length stem = 4 \<and> (has_prefix stem ''COM'' \<or> has_prefix stem ''LPT'')
      then in_range 49 57 (stem ! 3)
      else stem \<in> set (map (\<lambda>d. ''COM'' @ d) superscript_digits) \<or>
           stem \<in> set (map (\<lambda>d. ''LPT'' @ d) superscript_digits))"

text \<open>\<open>normalizeName\<close>: the NFC name and its comparison key.\<close>

definition normalizeName :: "ext \<Rightarrow> string \<Rightarrow> sync_error + (string \<times> string)" where
  "normalizeName x input =
     (if \<not> valid_utf8 input then Inl ErrInvalidInput
      else let name = x_nfc x input in
      if name = '''' \<or> length name > maxNameBytes then Inl ErrInvalidInput
      else if list_ex forbidden_rune (runes name) then Inl ErrInvalidInput
      else if has_suffix name '' '' \<or> has_suffix name ''.'' \<or> reservedDevice x name
      then Inl ErrInvalidInput
      else Inr (name, x_nfc x (x_fold x name)))"

text \<open>\<open>validateLogicalPath\<close>: the length of a path and its reserved roots.\<close>

definition path_key :: "ext \<Rightarrow> string \<Rightarrow> string" where
  "path_key x s = x_nfc x (x_fold x s)"

definition validateLogicalPath :: "ext \<Rightarrow> string \<Rightarrow> sync_error + unit" where
  "validateLogicalPath x relative =
     (if length relative = 0 \<or> length relative > maxPathBytes then Inl ErrInvalidInput
      else let rootKey = path_key x (cut_before (CHR ''/'') relative) in
      if rootKey = path_key x ''.remember'' \<or> rootKey = path_key x ''_Konflikte''
      then Inl ErrInvalidInput
      else Inr ())"

section \<open>What an accepted name and path look like\<close>

lemma normalizeName_InrD:
  assumes "normalizeName x input = Inr (name, key)"
  shows "name = x_nfc x input" "name \<noteq> ''''" "length name \<le> maxNameBytes"
    "\<not> list_ex forbidden_rune (runes name)" "\<not> has_suffix name '' ''" "\<not> has_suffix name ''.''"
    "\<not> reservedDevice x name" "key = x_nfc x (x_fold x name)" "valid_utf8 input"
  using assms by (auto simp: normalizeName_def Let_def split: if_splits)

lemma normalizeName_error: "normalizeName x input = Inl e \<Longrightarrow> e = ErrInvalidInput"
  by (auto simp: normalizeName_def Let_def split: if_splits)

text \<open>No byte below 32 and no forbidden character occurs in an accepted name.\<close>

lemma normalizeName_no_forbidden_byte:
  assumes "normalizeName x input = Inr (name, key)" and "c \<in> set name" and "code c < 128"
  shows "\<not> forbidden_rune (code c)"
  using ascii_byte_is_rune [OF assms(2,3)] normalizeName_InrD(4) [OF assms(1)]
  by (auto simp: list_ex_iff)

lemma normalizeName_no_slash:
  assumes "normalizeName x input = Inr (name, key)"
  shows "CHR ''/'' \<notin> set name"
proof
  assume "CHR ''/'' \<in> set name"
  with assms have "\<not> forbidden_rune (code (CHR ''/''))"
    by (rule normalizeName_no_forbidden_byte) (simp add: code_def)
  then show False by (simp add: forbidden_rune_def forbidden_chars_def)
qed

text \<open>Normalising an accepted name again changes nothing.\<close>

lemma normalizeName_idem:
  assumes "nfc_laws x" and "normalizeName x input = Inr (name, key)"
  shows "normalizeName x name = Inr (name, key)"
proof -
  have "x_nfc x name = name" and "valid_utf8 name"
    using assms normalizeName_InrD(1,9) [OF assms(2)] by (auto simp: nfc_laws_def)
  with normalizeName_InrD [OF assms(2)] show ?thesis
    by (simp add: normalizeName_def Let_def)
qed

lemma validateLogicalPath_InrD:
  "validateLogicalPath x p = Inr u \<Longrightarrow> p \<noteq> '''' \<and> length p \<le> maxPathBytes"
  by (auto simp: validateLogicalPath_def Let_def split: if_splits)

lemma validateLogicalPath_error: "validateLogicalPath x p = Inl e \<Longrightarrow> e = ErrInvalidInput"
  by (auto simp: validateLogicalPath_def Let_def split: if_splits)

end
