(* ===== verification/Sync_Store.thy ===== *)
theory Sync_Store
  imports Database Sync_Naming
begin

text \<open>
  The SQL statements of \<open>server/internal/sync/service.go\<close> on the tables of migrations 003 and 005.
  A statement that writes checks the constraints of its table (primary keys, unique indexes, foreign
  keys, \<open>CHECK\<close>s and the insert trigger of 005) and fails with \<open>ErrDatabase\<close> when one is violated.
\<close>

section \<open>Queries\<close>

definition okey :: "obj_row \<Rightarrow> uuid \<times> uuid" where
  "okey r = (o_user r, o_id r)"

definition opkey :: "op_row \<Rightarrow> uuid \<times> uuid" where
  "opkey r = (op_user r, op_id r)"

definition verkey :: "ver_row \<Rightarrow> uuid \<times> uuid \<times> nat" where
  "verkey r = (ver_user r, ver_object r, ver_rev r)"

definition chgkey :: "chg_row \<Rightarrow> uuid \<times> nat" where
  "chgkey r = (chg_user r, chg_cursor r)"

text \<open>\<open>loadObject\<close>: the row of an object, tombstones included.\<close>

definition loadObject :: "db \<Rightarrow> uuid \<Rightarrow> uuid \<Rightarrow> obj_row option" where
  "loadObject d u i = row_at okey (objects d) (u, i)"

definition operation_at :: "db \<Rightarrow> uuid \<Rightarrow> uuid \<Rightarrow> op_row option" where
  "operation_at d u i = row_at opkey (operations d) (u, i)"

definition version_at :: "db \<Rightarrow> uuid \<Rightarrow> uuid \<Rightarrow> nat \<Rightarrow> ver_row option" where
  "version_at d u i n = row_at verkey (versions d) (u, i, n)"

definition last_cursor :: "db \<Rightarrow> uuid \<Rightarrow> nat" where
  "last_cursor d u = (case map_of (counters d) u of None \<Rightarrow> 0 | Some n \<Rightarrow> n)"

text \<open>The index key of an active path, \<open>(user_id, parent_key, name_key)\<close>.\<close>

definition pathkey :: "obj_row \<Rightarrow> uuid \<times> uuid \<times> string" where
  "pathkey r = (o_user r, parentKey (o_parent r), o_key r)"

text \<open>An active object of the account other than \<open>i\<close> at the target path.\<close>

definition path_taken :: "db \<Rightarrow> uuid \<Rightarrow> uuid option \<Rightarrow> string \<Rightarrow> uuid \<Rightarrow> bool" where
  "path_taken d u p key i \<longleftrightarrow>
     list_ex (\<lambda>r. pathkey r = (u, parentKey p, key) \<and> \<not> o_deleted r \<and> o_id r \<noteq> i) (objects d)"

text \<open>An active object of the account below the folder.\<close>

definition has_active_child :: "db \<Rightarrow> uuid \<Rightarrow> uuid \<Rightarrow> bool" where
  "has_active_child d u i \<longleftrightarrow>
     list_ex (\<lambda>r. o_user r = u \<and> o_parent r = Some i \<and> \<not> o_deleted r) (objects d)"

section \<open>Nullable columns\<close>

definition nullableBytes :: "string \<Rightarrow> string option" where
  "nullableBytes b = (if b = [] then None else Some b)"

definition nullableString :: "string \<Rightarrow> string option" where
  "nullableString s = (if s = [] then None else Some s)"

text \<open>\<open>clone\<close> of a scanned nullable column.\<close>

definition clone_bytes :: "string option \<Rightarrow> string" where
  "clone_bytes b = (case b of None \<Rightarrow> [] | Some s \<Rightarrow> s)"

lemma clone_nullable [simp]: "clone_bytes (nullableBytes b) = b"
  by (simp add: clone_bytes_def nullableBytes_def)

section \<open>Constraints\<close>

definition known_type :: "object_type \<Rightarrow> bool" where
  "known_type t \<longleftrightarrow> t = ObjectNote \<or> t = ObjectFolder"

definition known_kind :: "mutation_kind \<Rightarrow> bool" where
  "known_kind k \<longleftrightarrow> k = MutationCreate \<or> k = MutationUpdate \<or> k = MutationMove \<or> k = MutationDelete"

text \<open>The shape of an object or version row: what a blob column may hold.\<close>

definition content_shape :: "object_type \<Rightarrow> string option \<Rightarrow> bool \<Rightarrow> bool" where
  "content_shape t b del \<longleftrightarrow>
     (t = ObjectFolder \<and> b = None) \<or> (t = ObjectNote \<and> (del \<or> b \<noteq> None))"

definition blob_column :: "string option \<Rightarrow> bool" where
  "blob_column b = (case b of None \<Rightarrow> True | Some h \<Rightarrow> length h = 32)"

definition blob_entitled :: "db \<Rightarrow> uuid \<Rightarrow> string option \<Rightarrow> bool" where
  "blob_entitled d u b = (case b of None \<Rightarrow> True | Some h \<Rightarrow> entitled d u h)"

definition object_row_ok :: "db \<Rightarrow> obj_row \<Rightarrow> bool" where
  "object_row_ok d r \<longleftrightarrow>
     0 < o_rev r \<and> int64 (o_rev r) \<and> user_exists d (o_user r) \<and>
     (case o_parent r of None \<Rightarrow> True | Some p \<Rightarrow> loadObject d (o_user r) p \<noteq> None) \<and>
     blob_column (o_blob r) \<and> blob_entitled d (o_user r) (o_blob r) \<and>
     content_shape (o_type r) (o_blob r) (o_deleted r)"

definition objects_ok :: "db \<Rightarrow> bool" where
  "objects_ok d \<longleftrightarrow>
     distinct (map okey (objects d)) \<and>
     distinct (map pathkey (filter (\<lambda>r. \<not> o_deleted r) (objects d))) \<and>
     list_all (object_row_ok d) (objects d)"

definition operation_row_ok :: "db \<Rightarrow> op_row \<Rightarrow> bool" where
  "operation_row_ok d r \<longleftrightarrow>
     operation_at d (op_user r) (op_id r) = None \<and>
     user_exists d (op_user r) \<and> device_exists d (op_user r) (op_device r) \<and>
     length (op_hash r) = 32 \<and> known_kind (op_mutation r) \<and> known_type (op_type r) \<and>
     int64 (op_base r) \<and> blob_column (op_blob r) \<and>
     (if op_accepted r
      then op_conflict r = None \<and> op_c_revision r = None \<and>
           (case (op_revision r, op_cursor r) of
              (Some n, Some c) \<Rightarrow> 0 < n \<and> int64 n \<and> 0 < c \<and> int64 c | _ \<Rightarrow> False)
      else op_conflict r \<noteq> None \<and> op_revision r = None \<and> op_cursor r = None) \<and>
     (case op_c_revision r of
        None \<Rightarrow> op_c_type r = None \<and> op_c_parent r = None \<and> op_c_name r = None \<and>
                op_c_blob r = None \<and> op_c_deleted r = None
      | Some n \<Rightarrow> 0 < n \<and> int64 n \<and> op_c_type r \<noteq> None \<and> op_c_name r \<noteq> None \<and> op_c_deleted r \<noteq> None) \<and>
     blob_column (op_c_blob r) \<and>
     (op_c_type r = Some ObjectNote \<longrightarrow> op_c_blob r \<noteq> None) \<and>
     (op_c_type r = Some ObjectFolder \<longrightarrow> op_c_blob r = None) \<and>
     (case op_c_type r of None \<Rightarrow> True | Some t \<Rightarrow> known_type t)"

definition version_row_ok :: "db \<Rightarrow> ver_row \<Rightarrow> bool" where
  "version_row_ok d r \<longleftrightarrow>
     version_at d (ver_user r) (ver_object r) (ver_rev r) = None \<and>
     0 < ver_rev r \<and> int64 (ver_rev r) \<and>
     loadObject d (ver_user r) (ver_object r) \<noteq> None \<and>
     operation_at d (ver_user r) (ver_op r) \<noteq> None \<and>
     blob_column (ver_blob r) \<and> blob_entitled d (ver_user r) (ver_blob r) \<and>
     content_shape (ver_type r) (ver_blob r) (ver_deleted r)"

definition change_row_ok :: "db \<Rightarrow> chg_row \<Rightarrow> bool" where
  "change_row_ok d r \<longleftrightarrow>
     row_at chgkey (changes d) (chgkey r) = None \<and>
     \<not> list_ex (\<lambda>s. chg_user s = chg_user r \<and> chg_op s = chg_op r) (changes d) \<and>
     0 < chg_cursor r \<and> int64 (chg_cursor r) \<and> 0 < chg_rev r \<and> known_kind (chg_mutation r) \<and>
     (case version_at d (chg_user r) (chg_object r) (chg_rev r) of
        None \<Rightarrow> False | Some v \<Rightarrow> ver_op v = chg_op r) \<and>
     (case operation_at d (chg_user r) (chg_op r) of
        None \<Rightarrow> False
      | Some p \<Rightarrow> op_object p = chg_object r \<and> op_revision p = Some (chg_rev r) \<and>
                  op_cursor p = Some (chg_cursor r))"

section \<open>Statements\<close>

definition insert_object :: "obj_row \<Rightarrow> db \<Rightarrow> sync_error + db" where
  "insert_object r d =
     (let d' = d\<lparr>objects := objects d @ [r]\<rparr>
      in if objects_ok d' then Inr d' else Inl ErrDatabase)"

text \<open>\<open>UPDATE sync_objects\<close>: the rows affected and the new database.\<close>

definition update_objects ::
  "(obj_row \<Rightarrow> bool) \<Rightarrow> (obj_row \<Rightarrow> obj_row) \<Rightarrow> db \<Rightarrow> sync_error + (nat \<times> db)" where
  "update_objects P f d =
     (let d' = d\<lparr>objects := update_rows P f (objects d)\<rparr>
      in if objects_ok d' then Inr (rows_affected P (objects d), d') else Inl ErrDatabase)"

text \<open>\<open>allocateCursor\<close>: the account's next cursor, in one upsert.\<close>

definition set_counter :: "uuid \<Rightarrow> nat \<Rightarrow> (uuid \<times> nat) list \<Rightarrow> (uuid \<times> nat) list" where
  "set_counter u n cs =
     (if map_of cs u = None then cs @ [(u, n)]
      else map (\<lambda>(v, k). if v = u then (v, n) else (v, k)) cs)"

definition allocateCursor :: "uuid \<Rightarrow> db \<Rightarrow> sync_error + (nat \<times> db)" where
  "allocateCursor u d =
     (let n = Suc (last_cursor d u)
      in if user_exists d u \<and> int64 n
         then Inr (n, d\<lparr>counters := set_counter u n (counters d)\<rparr>)
         else Inl ErrDatabase)"

definition insert_operation_row :: "op_row \<Rightarrow> db \<Rightarrow> sync_error + db" where
  "insert_operation_row r d =
     (if operation_row_ok d r then Inr (d\<lparr>operations := operations d @ [r]\<rparr>) else Inl ErrDatabase)"

definition insert_version :: "ver_row \<Rightarrow> db \<Rightarrow> sync_error + db" where
  "insert_version r d =
     (if version_row_ok d r then Inr (d\<lparr>versions := versions d @ [r]\<rparr>) else Inl ErrDatabase)"

definition insert_change :: "chg_row \<Rightarrow> db \<Rightarrow> sync_error + db" where
  "insert_change r d =
     (if change_row_ok d r then Inr (d\<lparr>changes := changes d @ [r]\<rparr>) else Inl ErrDatabase)"

section \<open>What the statements do\<close>

lemma insert_object_Inr_iff:
  "insert_object r d = Inr d' \<longleftrightarrow> d' = d\<lparr>objects := objects d @ [r]\<rparr> \<and> objects_ok d'"
  by (auto simp: insert_object_def Let_def)

lemma update_objects_Inr_iff:
  "update_objects P f d = Inr (n, d') \<longleftrightarrow>
     n = rows_affected P (objects d) \<and> d' = d\<lparr>objects := update_rows P f (objects d)\<rparr> \<and> objects_ok d'"
  by (auto simp: update_objects_def Let_def)

lemma allocateCursor_Inr_iff:
  "allocateCursor u d = Inr (n, d') \<longleftrightarrow>
     n = Suc (last_cursor d u) \<and> user_exists d u \<and> int64 n \<and>
     d' = d\<lparr>counters := set_counter u n (counters d)\<rparr>"
  by (auto simp: allocateCursor_def Let_def)

lemma insert_operation_row_Inr_iff:
  "insert_operation_row r d = Inr d' \<longleftrightarrow>
     operation_row_ok d r \<and> d' = d\<lparr>operations := operations d @ [r]\<rparr>"
  by (auto simp: insert_operation_row_def)

lemma insert_version_Inr_iff:
  "insert_version r d = Inr d' \<longleftrightarrow> version_row_ok d r \<and> d' = d\<lparr>versions := versions d @ [r]\<rparr>"
  by (auto simp: insert_version_def)

lemma insert_change_Inr_iff:
  "insert_change r d = Inr d' \<longleftrightarrow> change_row_ok d r \<and> d' = d\<lparr>changes := changes d @ [r]\<rparr>"
  by (auto simp: insert_change_def)

lemmas statement_iffs = insert_object_Inr_iff update_objects_Inr_iff allocateCursor_Inr_iff
  insert_operation_row_Inr_iff insert_version_Inr_iff insert_change_Inr_iff

lemma map_of_set_counter: "map_of (set_counter u n cs) = (map_of cs)(u \<mapsto> n)"
proof
  fix v
  show "map_of (set_counter u n cs) v = ((map_of cs)(u \<mapsto> n)) v"
  proof (cases "map_of cs u")
    case None
    then show ?thesis by (auto simp: set_counter_def map_add_def split: option.split)
  next
    case (Some k)
    have "map_of (map (\<lambda>(v, k). if v = u then (v, n) else (v, k)) cs) v =
      (if v = u then map_option (\<lambda>_. n) (map_of cs u) else map_of cs v)"
      by (induction cs) auto
    with Some show ?thesis by (simp add: set_counter_def)
  qed
qed

lemma last_cursor_set_counter [simp]:
  "last_cursor (d\<lparr>counters := set_counter u n (counters d)\<rparr>) v = (if v = u then n else last_cursor d v)"
  by (simp add: last_cursor_def map_of_set_counter)

lemma loadObject_SomeD: "loadObject d u i = Some r \<Longrightarrow> r \<in> set (objects d) \<and> o_user r = u \<and> o_id r = i"
  by (auto simp: loadObject_def okey_def dest: row_at_SomeD)

lemma loadObject_None_iff:
  "loadObject d u i = None \<longleftrightarrow> (\<forall>r\<in>set (objects d). \<not> (o_user r = u \<and> o_id r = i))"
  by (auto simp: loadObject_def row_at_None_iff okey_def image_iff)

lemma loadObject_eq_iff:
  "objects_ok d \<Longrightarrow> loadObject d u i = Some r \<longleftrightarrow> r \<in> set (objects d) \<and> o_user r = u \<and> o_id r = i"
  by (auto simp: loadObject_def objects_ok_def row_at_eq_iff okey_def)

lemma object_row_okD:
  "objects_ok d \<Longrightarrow> loadObject d u i = Some r \<Longrightarrow> object_row_ok d r"
  by (auto simp: objects_ok_def list_all_iff dest: loadObject_SomeD)

end
