(* ===== verification/Sync_Service.thy ===== *)
theory Sync_Service
  imports Sync_Store
begin

text \<open>
  The actor-bound synchronization service, \<open>server/internal/sync/service.go\<close>: the canonical form of
  a request, the conflict evaluation, the reserved conflict namespace, the idempotent replay, the
  submission of a mutation and the paged pull. A request that fails leaves the database as it was
  (the deferred rollback), which \<open>run_tx\<close> writes out. The identifiers that \<open>uuid.NewV7\<close> returns
  during a request are the list \<open>fresh\<close> (an empty list is a failing random source), the clock reads
  the one value \<open>now\<close>.
\<close>

section \<open>Actors\<close>

record actor =
  a_user :: uuid
  a_device :: uuid

definition ForActor :: "ext \<Rightarrow> uuid \<Rightarrow> uuid \<Rightarrow> sync_error + actor" where
  "ForActor x u i =
     (if \<not> validV7 x u \<or> \<not> validV7 x i then Inl ErrInvalidInput
      else Inr \<lparr>a_user = u, a_device = i\<rparr>)"

definition requireActiveActor :: "actor \<Rightarrow> db \<Rightarrow> sync_error + unit" where
  "requireActiveActor a d =
     (if user_active d (a_user a) \<and> device_active d (a_user a) (a_device a)
      then Inr () else Inl ErrInactiveActor)"

text \<open>A transaction: committed on success, rolled back on an error.\<close>

definition run_tx :: "('e + ('a \<times> 's)) \<Rightarrow> 's \<Rightarrow> ('e + 'a) \<times> 's" where
  "run_tx m s = (case m of Inl e \<Rightarrow> (Inl e, s) | Inr (r, s') \<Rightarrow> (Inr r, s'))"

section \<open>The canonical request\<close>

record intent = mutation +
  i_key :: string

definition as_intent :: "mutation \<Rightarrow> string \<Rightarrow> string \<Rightarrow> intent" where
  "as_intent m name key = mutation.extend (m\<lparr>m_name := name\<rparr>) (intent.fields key)"

definition json_field :: "string \<Rightarrow> string \<Rightarrow> string" where
  "json_field name value = json_string name @ '':'' @ value"

text \<open>\<open>json.Marshal(canonicalJSON{...})\<close>: the fields in declaration order.\<close>

definition canonical_json :: "ext \<Rightarrow> intent \<Rightarrow> string" where
  "canonical_json x m =
     ''{'' @ json_field ''Policy'' (json_string ''remember-sync-intent-v1'') @ '','' @
     json_field ''Operation'' (json_string (x_uuid_string x (m_operation m))) @ '','' @
     json_field ''Kind'' (json_string (kind_text (m_kind m))) @ '','' @
     json_field ''Object'' (json_string (x_uuid_string x (m_object m))) @ '','' @
     json_field ''Type'' (json_string (type_text (m_type m))) @ '','' @
     json_field ''Base'' (decimal (m_base m)) @ '','' @
     json_field ''Parent'' (json_string
       (case m_parent m of None \<Rightarrow> '''' | Some p \<Rightarrow> x_uuid_string x p)) @ '','' @
     json_field ''Name'' (json_string (m_name m)) @ '','' @
     json_field ''Blob'' (json_string (hex_encode (m_blob m))) @ ''}''"

text \<open>The \<open>switch\<close> on the mutation kind: which fields each kind may carry, and the name.\<close>

definition mutation_shape :: "ext \<Rightarrow> mutation \<Rightarrow> sync_error + intent" where
  "mutation_shape x m =
     (case m_kind m of
        MutationCreate \<Rightarrow>
          if m_base m \<noteq> 0 then Inl ErrInvalidInput
          else rbind (normalizeName x (m_name m)) (\<lambda>(name, key). Inr (as_intent m name key))
      | MutationUpdate \<Rightarrow>
          if m_base m = 0 \<or> m_type m \<noteq> ObjectNote \<or> m_parent m \<noteq> None \<or> m_name m \<noteq> ''''
          then Inl ErrInvalidInput else Inr (as_intent m (m_name m) '''')
      | MutationMove \<Rightarrow>
          if m_base m = 0 \<or> length (m_blob m) \<noteq> 0 then Inl ErrInvalidInput
          else rbind (normalizeName x (m_name m)) (\<lambda>(name, key). Inr (as_intent m name key))
      | MutationDelete \<Rightarrow>
          if m_base m = 0 \<or> m_parent m \<noteq> None \<or> m_name m \<noteq> '''' \<or> length (m_blob m) \<noteq> 0
          then Inl ErrInvalidInput else Inr (as_intent m (m_name m) '''')
      | OtherKind _ \<Rightarrow> Inl ErrInvalidInput)"

definition canonicalize :: "ext \<Rightarrow> mutation \<Rightarrow> sync_error + (intent \<times> string)" where
  "canonicalize x m =
     (if \<not> validV7 x (m_operation m) \<or> \<not> validObjectID x (m_object m) \<or>
         isReservedConflictFolder (m_object m) \<or>
         (m_type m \<noteq> ObjectNote \<and> m_type m \<noteq> ObjectFolder)
      then Inl ErrInvalidInput
      else if (case m_parent m of None \<Rightarrow> False | Some p \<Rightarrow> \<not> validObjectID x p)
      then Inl ErrInvalidInput
      else rbind (mutation_shape x m) (\<lambda>out.
        if (m_kind m = MutationCreate \<or> m_kind m = MutationUpdate) \<and>
           ((m_type m = ObjectNote \<and> length (m_blob m) \<noteq> 32) \<or>
            (m_type m = ObjectFolder \<and> length (m_blob m) \<noteq> 0))
        then Inl ErrInvalidInput
        else Inr (out, x_sha256 x (canonical_json x out))))"

section \<open>Stored operations and their replay\<close>

definition canonicalState :: "obj_row \<Rightarrow> canonical_state" where
  "canonicalState r =
     \<lparr>c_type = o_type r, c_revision = o_rev r, c_parent = o_parent r, c_name = o_name r,
      c_blob = clone_bytes (o_blob r), c_deleted = o_deleted r\<rparr>"

text \<open>\<open>insertOperation\<close>: the request, its digest and its result as one row.\<close>

definition operation_row :: "actor \<Rightarrow> intent \<Rightarrow> string \<Rightarrow> int \<Rightarrow> submit_result \<Rightarrow> op_row" where
  "operation_row a m hash now r =
     \<lparr>op_user = a_user a, op_device = a_device a, op_id = m_operation m, op_hash = hash,
      op_mutation = m_kind m, op_object = m_object m, op_type = m_type m, op_base = m_base m,
      op_parent = m_parent m, op_name = nullableString (m_name m), op_key = nullableString (i_key m),
      op_blob = nullableBytes (m_blob m),
      op_accepted = r_accepted r,
      op_conflict = (if r_accepted r then None else r_conflict r),
      op_revision = (if r_accepted r then Some (r_revision r) else None),
      op_cursor = (if r_accepted r then Some (r_cursor r) else None),
      op_created = now,
      op_c_type = map_option c_type (r_canonical r),
      op_c_revision = map_option c_revision (r_canonical r),
      op_c_parent = (case r_canonical r of None \<Rightarrow> None | Some c \<Rightarrow> c_parent c),
      op_c_name = map_option c_name (r_canonical r),
      op_c_blob = (case r_canonical r of None \<Rightarrow> None | Some c \<Rightarrow> nullableBytes (c_blob c)),
      op_c_deleted = map_option c_deleted (r_canonical r)\<rparr>"

definition insertOperation ::
  "actor \<Rightarrow> intent \<Rightarrow> string \<Rightarrow> int \<Rightarrow> submit_result \<Rightarrow> db \<Rightarrow> sync_error + db" where
  "insertOperation a m hash now r d = insert_operation_row (operation_row a m hash now r) d"

text \<open>The result a stored row stands for.\<close>

definition stored_result :: "op_row \<Rightarrow> submit_result" where
  "stored_result r =
     (if op_accepted r
      then accepted_result (case op_revision r of None \<Rightarrow> 0 | Some n \<Rightarrow> n)
                           (case op_cursor r of None \<Rightarrow> 0 | Some n \<Rightarrow> n)
      else \<lparr>r_accepted = False, r_conflict = op_conflict r, r_revision = 0, r_cursor = 0,
            r_canonical =
              (case op_c_revision r of
                 None \<Rightarrow> None
               | Some n \<Rightarrow> Some
                   \<lparr>c_type = (case op_c_type r of None \<Rightarrow> OtherType '''' | Some t \<Rightarrow> t),
                    c_revision = n, c_parent = op_c_parent r,
                    c_name = (case op_c_name r of None \<Rightarrow> '''' | Some s \<Rightarrow> s),
                    c_blob = clone_bytes (op_c_blob r),
                    c_deleted = (case op_c_deleted r of None \<Rightarrow> False | Some b \<Rightarrow> b)\<rparr>)\<rparr>)"

definition replay :: "actor \<Rightarrow> db \<Rightarrow> uuid \<Rightarrow> string \<Rightarrow> sync_error + submit_result option" where
  "replay a d operation hash =
     (case operation_at d (a_user a) operation of
        None \<Rightarrow> Inr None
      | Some r \<Rightarrow>
          if length (op_hash r) \<noteq> 32 \<or> op_hash r \<noteq> hash then Inl ErrOperationReplayMismatch
          else Inr (Some (stored_result r)))"

section \<open>Conflict evaluation\<close>

text \<open>\<open>folderCycle\<close>: does the chain of parents from \<open>current\<close> reach the object? At most \<open>n\<close> steps.\<close>

fun folder_cycle_steps :: "nat \<Rightarrow> db \<Rightarrow> uuid \<Rightarrow> uuid \<Rightarrow> uuid \<Rightarrow> sync_error + bool" where
  "folder_cycle_steps 0 d u object current = Inl ErrInvalidInput"
| "folder_cycle_steps (Suc n) d u object current =
     (if current = object then Inr True
      else case loadObject d u current of
        None \<Rightarrow> Inr False
      | Some r \<Rightarrow>
          (case o_parent r of
             None \<Rightarrow> Inr False
           | Some p \<Rightarrow> folder_cycle_steps n d u object p))"

definition maxAncestry :: nat where
  "maxAncestry = 10000"

definition folderCycle :: "db \<Rightarrow> uuid \<Rightarrow> uuid \<Rightarrow> uuid \<Rightarrow> sync_error + bool" where
  "folderCycle d u object parent = folder_cycle_steps maxAncestry d u object parent"

text \<open>The first loop of \<open>validateTargetPath\<close>: the names of the ancestors, outermost first.\<close>

fun ancestor_parts ::
  "nat \<Rightarrow> db \<Rightarrow> uuid \<Rightarrow> uuid option \<Rightarrow> string list \<Rightarrow> sync_error + string list" where
  "ancestor_parts n d u None parts = Inr parts"
| "ancestor_parts 0 d u (Some p) parts = Inl ErrInvalidInput"
| "ancestor_parts (Suc n) d u (Some p) parts =
     (case loadObject d u p of
        None \<Rightarrow> Inl ErrInvalidInput
      | Some r \<Rightarrow>
          if o_deleted r \<or> o_type r \<noteq> ObjectFolder then Inl ErrInvalidInput
          else ancestor_parts n d u (o_parent r) (o_name r # parts))"

text \<open>
  Its second loop: every active descendant of a moved folder, depth first from a stack (its top is
  the head of the list), each with its path below the folder; at most \<open>n\<close> of them.
\<close>

definition active_children :: "db \<Rightarrow> uuid \<Rightarrow> uuid \<Rightarrow> (uuid \<times> string) list" where
  "active_children d u i =
     map (\<lambda>r. (o_id r, o_name r))
       (filter (\<lambda>r. o_user r = u \<and> \<not> o_deleted r \<and> o_parent r = Some i) (objects d))"

definition maxSubtree :: nat where
  "maxSubtree = 100000"

fun check_subtree ::
  "ext \<Rightarrow> nat \<Rightarrow> db \<Rightarrow> uuid \<Rightarrow> string \<Rightarrow> (uuid \<times> string) list \<Rightarrow> sync_error + unit" where
  "check_subtree x n d u target [] = Inr ()"
| "check_subtree x 0 d u target (item # pending) = Inl ErrInvalidInput"
| "check_subtree x (Suc n) d u target ((i, path) # pending) =
     rbind (validateLogicalPath x (target @ ''/'' @ path)) (\<lambda>_.
       check_subtree x n d u target
         (rev (map (\<lambda>(j, name). (j, path @ ''/'' @ name)) (active_children d u i)) @ pending))"

definition reserved_conflict_path :: "string list \<Rightarrow> bool" where
  "reserved_conflict_path parts \<longleftrightarrow>
     length parts \<ge> 3 \<and> parts ! 0 = ConflictRootName \<and> parts ! 1 = ConflictRecoveredName"

definition validate_target :: "ext \<Rightarrow> string list \<Rightarrow> sync_error + unit" where
  "validate_target x parts =
     (let target = join_path parts in
      if reserved_conflict_path parts
      then (if length target > maxPathBytes then Inl ErrInvalidInput else Inr ())
      else validateLogicalPath x target)"

definition validateTargetPath ::
  "ext \<Rightarrow> db \<Rightarrow> uuid \<Rightarrow> intent \<Rightarrow> obj_row option \<Rightarrow> sync_error + unit" where
  "validateTargetPath x d u m current =
     rbind (ancestor_parts maxAncestry d u (m_parent m) [m_name m]) (\<lambda>parts.
     rbind (validate_target x parts) (\<lambda>_.
       case current of
         Some r \<Rightarrow>
           if m_kind m = MutationMove \<and> o_type r = ObjectFolder
           then check_subtree x maxSubtree d u (join_path parts) (rev (active_children d u (o_id r)))
           else Inr ()
       | None \<Rightarrow> Inr ()))"

text \<open>The checks of \<open>evaluate\<close> on the object itself.\<close>

definition object_conflict :: "intent \<Rightarrow> obj_row option \<Rightarrow> conflict_code option" where
  "object_conflict m current =
     (if m_kind m = MutationCreate
      then (if current \<noteq> None then Some ConflictObjectExists else None)
      else case current of
        None \<Rightarrow> Some ConflictObjectMissing
      | Some r \<Rightarrow>
          if o_deleted r then Some ConflictObjectDeleted
          else if o_type r \<noteq> m_type m then Some ConflictTypeMismatch
          else if o_rev r \<noteq> m_base m then Some ConflictBaseRevisionMismatch
          else None)"

definition parent_available :: "db \<Rightarrow> uuid \<Rightarrow> uuid option \<Rightarrow> bool" where
  "parent_available d u p =
     (case p of
        None \<Rightarrow> True
      | Some i \<Rightarrow>
          (case loadObject d u i of
             None \<Rightarrow> False
           | Some r \<Rightarrow> \<not> o_deleted r \<and> o_type r = ObjectFolder))"

text \<open>The checks on the place a create or a move aims at.\<close>

definition moves_folder :: "intent \<Rightarrow> obj_row option \<Rightarrow> bool" where
  "moves_folder m current \<longleftrightarrow>
     m_kind m = MutationMove \<and> (case current of None \<Rightarrow> False | Some r \<Rightarrow> o_type r = ObjectFolder)"

definition place_conflict ::
  "ext \<Rightarrow> db \<Rightarrow> uuid \<Rightarrow> intent \<Rightarrow> obj_row option \<Rightarrow> sync_error + conflict_code option" where
  "place_conflict x d u m current =
     (if \<not> parent_available d u (m_parent m) then Inr (Some ConflictParentUnavailable)
      else rbind
        (case (m_parent m, current) of
           (Some p, Some r) \<Rightarrow> if moves_folder m current then folderCycle d u (o_id r) p else Inr False
         | _ \<Rightarrow> Inr False)
        (\<lambda>cycle.
          if cycle then Inr (Some ConflictFolderCycle)
          else rbind (validateTargetPath x d u m current) (\<lambda>_.
            if path_taken d u (m_parent m) (i_key m) (m_object m)
            then Inr (Some ConflictPathCollision) else Inr None)))"

definition evaluate ::
  "ext \<Rightarrow> db \<Rightarrow> uuid \<Rightarrow> intent \<Rightarrow> obj_row option \<Rightarrow> sync_error + conflict_code option" where
  "evaluate x d u m current =
     (case object_conflict m current of
        Some c \<Rightarrow> Inr (Some c)
      | None \<Rightarrow>
          rbind
            (if m_kind m = MutationCreate \<or> m_kind m = MutationMove
             then place_conflict x d u m current else Inr None)
            (\<lambda>c. case c of
               Some c \<Rightarrow> Inr (Some c)
             | None \<Rightarrow>
                 (case current of
                    Some r \<Rightarrow>
                      if m_kind m = MutationDelete \<and> o_type r = ObjectFolder \<and> has_active_child d u (o_id r)
                      then Inr (Some ConflictFolderNotEmpty) else Inr None
                  | None \<Rightarrow> Inr None)))"

section \<open>Writing an accepted change\<close>

text \<open>The version row and the change-log row of an object state.\<close>

definition version_of :: "obj_row \<Rightarrow> uuid \<Rightarrow> int \<Rightarrow> ver_row" where
  "version_of r operation now =
     \<lparr>ver_user = o_user r, ver_object = o_id r, ver_rev = o_rev r, ver_op = operation,
      ver_type = o_type r, ver_parent = o_parent r, ver_name = o_name r, ver_key = o_key r,
      ver_blob = o_blob r, ver_deleted = o_deleted r, ver_created = now\<rparr>"

definition change_of :: "obj_row \<Rightarrow> nat \<Rightarrow> uuid \<Rightarrow> mutation_kind \<Rightarrow> int \<Rightarrow> chg_row" where
  "change_of r cursor operation kind now =
     \<lparr>chg_user = o_user r, chg_cursor = cursor, chg_object = o_id r, chg_rev = o_rev r,
      chg_op = operation, chg_mutation = kind, chg_created = now\<rparr>"

text \<open>The operation, version and change-log rows of an accepted mutation, in the code's order.\<close>

definition write_history ::
  "actor \<Rightarrow> intent \<Rightarrow> string \<Rightarrow> int \<Rightarrow> obj_row \<Rightarrow> nat \<Rightarrow> db \<Rightarrow> sync_error + db" where
  "write_history a m hash now r cursor d =
     rbind (insertOperation a m hash now (accepted_result (o_rev r) cursor) d) (\<lambda>d.
     rbind (insert_version (version_of r (m_operation m) now) d) (\<lambda>d.
       insert_change (change_of r cursor (m_operation m) (m_kind m) now) d))"

text \<open>The row a create inserts and the row an update, move or delete leaves.\<close>

definition created_row :: "uuid \<Rightarrow> intent \<Rightarrow> int \<Rightarrow> obj_row" where
  "created_row u m now =
     \<lparr>o_user = u, o_id = m_object m, o_type = m_type m, o_rev = 1, o_parent = m_parent m,
      o_name = m_name m, o_key = i_key m, o_blob = nullableBytes (m_blob m), o_deleted = False,
      o_created = now, o_updated = now\<rparr>"

definition next_row :: "intent \<Rightarrow> int \<Rightarrow> obj_row \<Rightarrow> obj_row" where
  "next_row m now r =
     (let next = r\<lparr>o_rev := Suc (o_rev r), o_updated := now\<rparr> in
      case m_kind m of
        MutationUpdate \<Rightarrow> next\<lparr>o_blob := nullableBytes (m_blob m)\<rparr>
      | MutationMove \<Rightarrow> next\<lparr>o_parent := m_parent m, o_name := m_name m, o_key := i_key m\<rparr>
      | MutationDelete \<Rightarrow> next\<lparr>o_deleted := True\<rparr>
      | _ \<Rightarrow> next)"

text \<open>\<open>WHERE user_id=? AND object_id=? AND revision=? AND deleted=0\<close>.\<close>

definition is_current :: "obj_row \<Rightarrow> obj_row \<Rightarrow> bool" where
  "is_current cur r \<longleftrightarrow>
     o_user r = o_user cur \<and> o_id r = o_id cur \<and> o_rev r = o_rev cur \<and> \<not> o_deleted r"

text \<open>The conditional update of one object to its next state.\<close>

definition replace_object :: "obj_row \<Rightarrow> obj_row \<Rightarrow> db \<Rightarrow> sync_error + (nat \<times> db)" where
  "replace_object cur next d =
     update_objects (is_current cur)
       (\<lambda>r. r\<lparr>o_rev := o_rev next, o_parent := o_parent next, o_name := o_name next,
              o_key := o_key next, o_blob := o_blob next, o_deleted := o_deleted next,
              o_updated := o_updated next\<rparr>) d"

definition mutate_object :: "actor \<Rightarrow> intent \<Rightarrow> int \<Rightarrow> obj_row option \<Rightarrow> db \<Rightarrow> sync_error + (obj_row \<times> db)" where
  "mutate_object a m now current d =
     (if m_kind m = MutationCreate
      then let next = created_row (a_user a) m now
           in rbind (insert_object next d) (\<lambda>d. Inr (next, d))
      else case current of
        None \<Rightarrow> Inl ErrOperationReplayMismatch
      | Some cur \<Rightarrow>
          let next = next_row m now cur
          in rbind (replace_object cur next d) (\<lambda>(n, d).
               if n \<noteq> 1 then Inl ErrOperationReplayMismatch else Inr (next, d)))"

section \<open>The reserved conflict namespace\<close>

record reserved_folder =
  f_id :: uuid
  f_parent :: "uuid option"
  f_name :: string
  f_seed :: string

definition reserved_folders :: "reserved_folder list" where
  "reserved_folders =
     [\<lparr>f_id = ConflictRootID, f_parent = None, f_name = ConflictRootName,
       f_seed = ''remember-conflict-root-v1''\<rparr>,
      \<lparr>f_id = ConflictRecoveredID, f_parent = Some ConflictRootID, f_name = ConflictRecoveredName,
       f_seed = ''remember-conflict-recovered-v1''\<rparr>]"

text \<open>\<open>verifyReservedFolderHistory\<close>: the join of version, change and operation has one row.\<close>

definition history_row_matches ::
  "ext \<Rightarrow> uuid \<Rightarrow> reserved_folder \<Rightarrow> string \<Rightarrow> ver_row \<Rightarrow> chg_row \<Rightarrow> op_row \<Rightarrow> bool" where
  "history_row_matches x u f key v c r \<longleftrightarrow>
     chg_user c = ver_user v \<and> chg_object c = ver_object v \<and> chg_rev c = ver_rev v \<and> chg_op c = ver_op v \<and>
     op_user r = ver_user v \<and> op_id r = ver_op v \<and> op_object r = ver_object v \<and>
     op_revision r = Some (ver_rev v) \<and> op_cursor r = Some (chg_cursor c) \<and>
     ver_user v = u \<and> ver_object v = f_id f \<and> ver_rev v = 1 \<and> ver_type v = ObjectFolder \<and>
     ver_name v = f_name f \<and> ver_key v = key \<and> ver_blob v = None \<and> \<not> ver_deleted v \<and>
     ver_parent v = f_parent f \<and>
     chg_mutation c = MutationCreate \<and> op_hash r = x_sha256 x (f_seed f) \<and>
     op_mutation r = MutationCreate \<and> op_type r = ObjectFolder \<and> op_base r = 0 \<and>
     op_parent r = f_parent f \<and> op_name r = Some (f_name f) \<and> op_key r = Some key \<and>
     op_blob r = None \<and> op_accepted r \<and> op_conflict r = None"

definition verifyReservedFolderHistory :: "ext \<Rightarrow> uuid \<Rightarrow> reserved_folder \<Rightarrow> db \<Rightarrow> sync_error + unit" where
  "verifyReservedFolderHistory x u f d =
     rbind (normalizeName x (f_name f)) (\<lambda>(_, key).
       let matching = concat (map (\<lambda>v. concat (map (\<lambda>c.
             filter (history_row_matches x u f key v c) (operations d)) (changes d))) (versions d))
       in if length matching \<noteq> 1 then Inl ErrNamespaceHistoryCorrupt else Inr ())"

definition reserved_intent :: "reserved_folder \<Rightarrow> uuid \<Rightarrow> string \<Rightarrow> string \<Rightarrow> intent" where
  "reserved_intent f operation name key =
     \<lparr>m_operation = operation, m_kind = MutationCreate, m_object = f_id f, m_type = ObjectFolder,
      m_base = 0, m_parent = f_parent f, m_name = name, m_blob = [], i_key = key\<rparr>"

definition ensure_reserved_folder ::
  "ext \<Rightarrow> actor \<Rightarrow> int \<Rightarrow> reserved_folder \<Rightarrow> db \<times> uuid list \<Rightarrow> sync_error + (db \<times> uuid list)" where
  "ensure_reserved_folder x a now f s =
     (case s of (d, fresh) \<Rightarrow>
      case loadObject d (a_user a) (f_id f) of
        Some r \<Rightarrow>
          if o_type r \<noteq> ObjectFolder \<or> o_rev r \<noteq> 1 \<or> o_deleted r \<or> o_name r \<noteq> f_name f \<or>
             \<not> sameUUID (o_parent r) (f_parent f)
          then Inl ErrNamespaceCorrupt
          else rbind (verifyReservedFolderHistory x (a_user a) f d) (\<lambda>_. Inr (d, fresh))
      | None \<Rightarrow>
          rbind (normalizeName x (f_name f)) (\<lambda>(name, key).
            case fresh of
              [] \<Rightarrow> Inl ErrRandom
            | operation # fresh' \<Rightarrow>
                rbind (allocateCursor (a_user a) d) (\<lambda>(cursor, d).
                  let m = reserved_intent f operation name key;
                      next = created_row (a_user a) m now
                  in rbind (insert_object next d) (\<lambda>d.
                     rbind (write_history a m (x_sha256 x (f_seed f)) now next cursor d) (\<lambda>d.
                       Inr (d, fresh'))))))"

fun ensure_folders ::
  "ext \<Rightarrow> actor \<Rightarrow> int \<Rightarrow> reserved_folder list \<Rightarrow> db \<times> uuid list \<Rightarrow> sync_error + (db \<times> uuid list)" where
  "ensure_folders x a now [] s = Inr s"
| "ensure_folders x a now (f # fs) s =
     rbind (ensure_reserved_folder x a now f s) (ensure_folders x a now fs)"

definition ensureConflictNamespace ::
  "ext \<Rightarrow> actor \<Rightarrow> int \<Rightarrow> db \<times> uuid list \<Rightarrow> sync_error + (db \<times> uuid list)" where
  "ensureConflictNamespace x a now s = ensure_folders x a now reserved_folders s"

section \<open>Submit\<close>

definition blob_available :: "db \<Rightarrow> uuid \<Rightarrow> string \<Rightarrow> bool" where
  "blob_available d u h =
     (case blob_at d h of None \<Rightarrow> False | Some b \<Rightarrow> entitled d u h \<and> blb_available b)"

definition needs_blob :: "intent \<Rightarrow> bool" where
  "needs_blob m \<longleftrightarrow>
     (m_kind m = MutationCreate \<or> m_kind m = MutationUpdate) \<and> m_type m = ObjectNote"

text \<open>The branch of a conflict: the namespace, then the stored conflict.\<close>

definition submit_conflict ::
  "ext \<Rightarrow> actor \<Rightarrow> int \<Rightarrow> uuid list \<Rightarrow> intent \<Rightarrow> string \<Rightarrow> conflict_code \<Rightarrow> obj_row option \<Rightarrow> db \<Rightarrow>
     sync_error + (submit_result \<times> db)" where
  "submit_conflict x a now fresh m hash c current d =
     rbind (ensureConflictNamespace x a now (d, fresh)) (\<lambda>(d, _).
       let result = conflict_result c (map_option canonicalState current)
       in rbind (insertOperation a m hash now result d) (\<lambda>d. Inr (result, d)))"

text \<open>The branch of an accepted mutation.\<close>

definition submit_accepted ::
  "actor \<Rightarrow> int \<Rightarrow> intent \<Rightarrow> string \<Rightarrow> obj_row option \<Rightarrow> db \<Rightarrow> sync_error + (submit_result \<times> db)" where
  "submit_accepted a now m hash current d =
     rbind (mutate_object a m now current d) (\<lambda>(next, d).
     rbind (allocateCursor (a_user a) d) (\<lambda>(cursor, d).
     rbind (write_history a m hash now next cursor d) (\<lambda>d.
       Inr (accepted_result (o_rev next) cursor, d))))"

definition submit_tx ::
  "ext \<Rightarrow> actor \<Rightarrow> int \<Rightarrow> uuid list \<Rightarrow> mutation \<Rightarrow> db \<Rightarrow> sync_error + (submit_result \<times> db)" where
  "submit_tx x a now fresh request d =
     rbind (canonicalize x request) (\<lambda>(m, hash).
     rbind (requireActiveActor a d) (\<lambda>_.
     rbind (replay a d (m_operation m) hash) (\<lambda>found.
       case found of
         Some result \<Rightarrow> Inr (result, d)
       | None \<Rightarrow>
           if needs_blob m \<and> \<not> blob_available d (a_user a) (m_blob m) then Inl ErrBlobUnavailable
           else let current = loadObject d (a_user a) (m_object m) in
             rbind (evaluate x d (a_user a) m current) (\<lambda>code.
               case code of
                 Some c \<Rightarrow> submit_conflict x a now fresh m hash c current d
               | None \<Rightarrow> submit_accepted a now m hash current d))))"

definition Submit ::
  "ext \<Rightarrow> actor \<Rightarrow> int \<Rightarrow> uuid list \<Rightarrow> mutation \<Rightarrow> db \<Rightarrow> (sync_error + submit_result) \<times> db" where
  "Submit x a now fresh request d = run_tx (submit_tx x a now fresh request d) d"

section \<open>Pull\<close>

definition defaultPullLimit :: nat where
  "defaultPullLimit = 100"

definition maxPullLimit :: nat where
  "maxPullLimit = 500"

definition version_state_of :: "chg_row \<Rightarrow> ver_row \<Rightarrow> version_state" where
  "version_state_of c v =
     \<lparr>v_cursor = chg_cursor c, v_mutation = chg_mutation c, v_operation = chg_op c,
      v_object = ver_object v, v_type = ver_type v, v_revision = ver_rev v, v_parent = ver_parent v,
      v_name = ver_name v, v_blob = clone_bytes (ver_blob v), v_deleted = ver_deleted v\<rparr>"

text \<open>The join of the change log with the versions, ordered by cursor.\<close>

definition change_feed :: "db \<Rightarrow> uuid \<Rightarrow> version_state list" where
  "change_feed d u =
     concat (map (\<lambda>c. case version_at d u (chg_object c) (chg_rev c) of
                        None \<Rightarrow> [] | Some v \<Rightarrow> [version_state_of c v])
       (sort_key chg_cursor (filter (\<lambda>c. chg_user c = u) (changes d))))"

definition pull_page :: "db \<Rightarrow> uuid \<Rightarrow> nat \<Rightarrow> nat \<Rightarrow> pull_result" where
  "pull_page d u after limit =
     (let rows = take (Suc limit) (filter (\<lambda>v. after < v_cursor v) (change_feed d u));
          more = limit < length rows;
          page = (if more then take limit rows else rows)
      in \<lparr>p_changes = page, p_more = more,
          p_next = (if page = [] then after else v_cursor (last page))\<rparr>)"

definition Pull :: "actor \<Rightarrow> nat \<Rightarrow> int \<Rightarrow> db \<Rightarrow> sync_error + pull_result" where
  "Pull a after limit d =
     (let limit = (if limit = 0 then int defaultPullLimit else limit) in
      if limit < 0 \<or> limit > int maxPullLimit then Inl ErrInvalidInput
      else rbind (requireActiveActor a d) (\<lambda>_.
        if \<not> int64 after then Inl ErrDatabase
        else Inr (pull_page d (a_user a) after (nat limit))))"

end
