(* ===== verification/Sync_Resolution.thy ===== *)
theory Sync_Resolution
  imports Sync_Service
begin

text \<open>
  The tables of the preserve-and-delete resolutions (migration 010): a resolution, its folder clones
  and its note moves, with the constraints and triggers that bind them to the operations, versions
  and changes they stand for, and the statements of \<open>preserve_delete.go\<close> that write them. A clone
  row whose three columns \<open>source_parent_id\<close>, \<open>target_parent_id\<close> and \<open>depth\<close> are \<open>NULL\<close> has depth 0
  and nil parents; a \<open>NULL\<close> source revision or name is 0 or empty, which the columns exclude.
\<close>

section \<open>What a cursor stands for\<close>

text \<open>
  The join the triggers make: the change at a cursor, the accepted operation of the device behind it
  and the version it wrote, with what both must contain.
\<close>

definition op_binding :: "uuid \<Rightarrow> mutation_kind \<Rightarrow> object_type \<Rightarrow> nat \<Rightarrow> uuid option \<Rightarrow> string option \<Rightarrow>
    chg_row \<Rightarrow> op_row \<Rightarrow> bool" where
  "op_binding dev kind typ base parent name c p \<longleftrightarrow>
     op_user p = chg_user c \<and> op_id p = chg_op c \<and> op_device p = dev \<and> op_mutation p = kind \<and>
     op_object p = chg_object c \<and> op_type p = typ \<and> op_base p = base \<and> op_parent p = parent \<and>
     op_name p = name \<and> op_blob p = None \<and> op_accepted p \<and> op_revision p = Some (chg_rev c) \<and>
     op_cursor p = Some (chg_cursor c)"

definition bound_change :: "db \<Rightarrow> uuid \<Rightarrow> nat \<Rightarrow> uuid \<Rightarrow> nat \<Rightarrow> mutation_kind \<Rightarrow>
    (chg_row \<Rightarrow> op_row \<Rightarrow> bool) \<Rightarrow> (ver_row \<Rightarrow> bool) \<Rightarrow> bool" where
  "bound_change d u cursor object revision kind op ver \<longleftrightarrow>
     list_ex (\<lambda>c. chg_user c = u \<and> chg_cursor c = cursor \<and> chg_object c = object \<and>
         chg_rev c = revision \<and> chg_mutation c = kind \<and>
         list_ex (op c) (operations d) \<and>
         list_ex (\<lambda>v. ver_user v = u \<and> ver_object v = object \<and> ver_rev v = revision \<and>
             ver_op v = chg_op c \<and> ver v) (versions d))
       (changes d)"

definition cursor_logged :: "db \<Rightarrow> uuid \<Rightarrow> nat \<Rightarrow> bool" where
  "cursor_logged d u n \<longleftrightarrow> list_ex (\<lambda>c. chg_user c = u \<and> chg_cursor c = n) (changes d)"

definition version_with :: "db \<Rightarrow> uuid \<Rightarrow> uuid \<Rightarrow> nat \<Rightarrow> (ver_row \<Rightarrow> bool) \<Rightarrow> bool" where
  "version_with d u i n P \<longleftrightarrow>
     list_ex (\<lambda>v. ver_user v = u \<and> ver_object v = i \<and> ver_rev v = n \<and> P v) (versions d)"

section \<open>Resolutions\<close>

definition reskey :: "res_row \<Rightarrow> uuid \<times> uuid" where
  "reskey r = (res_user r, res_op r)"

definition resolution_at :: "db \<Rightarrow> uuid \<Rightarrow> uuid \<Rightarrow> res_row option" where
  "resolution_at d u i = row_at reskey (resolutions d) (u, i)"

definition clones_of :: "db \<Rightarrow> uuid \<Rightarrow> uuid \<Rightarrow> cln_row list" where
  "clones_of d u i =
     sort_key cln_ordinal (filter (\<lambda>r. cln_user r = u \<and> cln_op r = i) (res_clone_rows d))"

definition moves_of :: "db \<Rightarrow> uuid \<Rightarrow> uuid \<Rightarrow> mov_row list" where
  "moves_of d u i =
     sort_key mov_ordinal (filter (\<lambda>r. mov_user r = u \<and> mov_op r = i) (res_move_rows d))"

definition resolution_row_ok :: "db \<Rightarrow> res_row \<Rightarrow> bool" where
  "resolution_row_ok d r \<longleftrightarrow>
     resolution_at d (res_user r) (res_op r) = None \<and> length (res_hash r) = 32 \<and>
     0 < res_expected r \<and> int64 (res_expected r) \<and>
     0 < res_recovered_cursor r \<and> res_recovered_cursor r < res_deleted_cursor r \<and>
     res_version r \<in> {1, 2, 3, 4} \<and> (res_version r \<in> {1, 2} \<longrightarrow> res_completed r) \<and>
     (if res_version r = 1 then res_known r = None
      else case res_known r of None \<Rightarrow> False | Some n \<Rightarrow> 0 < n \<and> int64 n) \<and>
     0 < res_first r \<and> res_first r \<le> res_last r \<and>
     res_name r \<noteq> Some '''' \<and> (res_version r \<in> {1, 2} \<or> res_name r \<noteq> None) \<and>
     (res_version r = 4 \<longrightarrow> res_clones r + res_notes r + 1 \<le> 10000 \<and>
        res_last r = res_first r + 2 * res_clones r + res_notes r + 1) \<and>
     device_exists d (res_user r) (res_device r) \<and>
     operation_at d (res_user r) (res_conflict r) \<noteq> None \<and>
     loadObject d (res_user r) (res_recovered r) \<noteq> None \<and>
     cursor_logged d (res_user r) (res_recovered_cursor r) \<and>
     cursor_logged d (res_user r) (res_deleted_cursor r)"

definition insert_resolution :: "res_row \<Rightarrow> db \<Rightarrow> sync_error + db" where
  "insert_resolution r d =
     (if resolution_row_ok d r then Inr (d\<lparr>resolutions := resolutions d @ [r]\<rparr>) else Inl ErrDatabase)"

section \<open>Clones\<close>

text \<open>The guard of an inserted clone.\<close>

definition clone_source :: "res_row \<Rightarrow> preserve_clone \<Rightarrow> uuid" where
  "clone_source r k = (if res_version r = 4 then k_source_parent k else res_folder r)"

definition clone_target :: "res_row \<Rightarrow> preserve_clone \<Rightarrow> uuid" where
  "clone_target r k = (if res_version r = 4 then k_target_parent k else res_recovered r)"

definition clone_history :: "db \<Rightarrow> res_row \<Rightarrow> preserve_clone \<Rightarrow> bool" where
  "clone_history d r k \<longleftrightarrow>
     list_ex (\<lambda>sv. ver_user sv = res_user r \<and> ver_object sv = k_original k \<and>
         ver_rev sv = k_source_revision k \<and> ver_type sv = ObjectFolder \<and>
         ver_parent sv = Some (clone_source r k) \<and> ver_name sv = k_name k \<and> \<not> ver_deleted sv \<and>
         bound_change d (res_user r) (k_create_cursor k) (k_recovered k) 1 MutationCreate
           (op_binding (res_device r) MutationCreate ObjectFolder 0 (Some (clone_target r k)) (Some (k_name k)))
           (\<lambda>v. ver_type v = ObjectFolder \<and> ver_parent v = Some (clone_target r k) \<and>
              ver_name v = k_name k \<and> ver_key v = ver_key sv \<and> \<not> ver_deleted v))
       (versions d) \<and>
     bound_change d (res_user r) (k_delete_cursor k) (k_original k) (Suc (k_source_revision k)) MutationDelete
       (op_binding (res_device r) MutationDelete ObjectFolder (k_source_revision k) None None)
       (\<lambda>v. ver_type v = ObjectFolder \<and> ver_parent v = Some (clone_source r k) \<and>
          ver_name v = k_name k \<and> ver_deleted v)"

definition clone_place :: "db \<Rightarrow> res_row \<Rightarrow> nat \<Rightarrow> preserve_clone \<Rightarrow> bool" where
  "clone_place d r n k \<longleftrightarrow>
     n < res_clones r \<and> 0 < k_source_revision k \<and> k_name k \<noteq> '''' \<and>
     k_create_cursor k = res_first r + 1 + n \<and>
     (if res_version r = 4
      then \<not> res_completed r \<and> 1 \<le> k_depth k \<and> k_depth k \<le> 256 \<and>
           res_first r + res_clones r + res_notes r < k_delete_cursor k \<and> k_delete_cursor k < res_last r \<and>
           (if k_depth k = 1 then k_source_parent k = res_folder r \<and> k_target_parent k = res_recovered r
            else list_ex (\<lambda>p. cln_ordinal p < n \<and> k_original (cln_clone p) = k_source_parent k \<and>
                   k_recovered (cln_clone p) = k_target_parent k \<and> k_depth (cln_clone p) = k_depth k - 1)
                 (clones_of d (res_user r) (res_op r)))
      else k_depth k = 0 \<and>
           (if res_version r = 2 then res_completed r \<and> res_notes r = 0
            else res_version r = 3 \<and> \<not> res_completed r) \<and>
           k_delete_cursor k = res_first r + 1 + res_clones r + res_notes r + n)"

definition clone_row_ok :: "db \<Rightarrow> cln_row \<Rightarrow> bool" where
  "clone_row_ok d c \<longleftrightarrow>
     (let k = cln_clone c; others = map cln_clone (clones_of d (cln_user c) (cln_op c)) in
      \<not> list_ex (\<lambda>p. cln_ordinal p = cln_ordinal c) (clones_of d (cln_user c) (cln_op c)) \<and>
      \<not> list_ex (\<lambda>k'. k_original k' = k_original k \<or> k_recovered k' = k_recovered k \<or>
          k_create_cursor k' = k_create_cursor k \<or> k_delete_cursor k' = k_delete_cursor k) others \<and>
      0 < k_create_cursor k \<and> k_create_cursor k < k_delete_cursor k \<and>
      loadObject d (cln_user c) (k_recovered k) \<noteq> None \<and>
      (case resolution_at d (cln_user c) (cln_op c) of
         None \<Rightarrow> False
       | Some r \<Rightarrow> clone_place d r (cln_ordinal c) k \<and> clone_history d r k))"

definition insert_clone :: "cln_row \<Rightarrow> db \<Rightarrow> sync_error + db" where
  "insert_clone c d =
     (if clone_row_ok d c then Inr (d\<lparr>res_clone_rows := res_clone_rows d @ [c]\<rparr>) else Inl ErrDatabase)"

section \<open>Note moves\<close>

definition move_history :: "db \<Rightarrow> res_row \<Rightarrow> preserve_note_move \<Rightarrow> bool" where
  "move_history d r n \<longleftrightarrow>
     list_ex (\<lambda>sv. ver_user sv = res_user r \<and> ver_object sv = n_note n \<and>
         ver_rev sv = n_source_revision n \<and> ver_type sv = ObjectNote \<and>
         ver_parent sv = Some (n_source_parent n) \<and> ver_name sv = n_name n \<and>
         ver_blob sv = Some (n_blob n) \<and> \<not> ver_deleted sv \<and>
         bound_change d (res_user r) (n_move_cursor n) (n_note n) (n_target_revision n) MutationMove
           (op_binding (res_device r) MutationMove ObjectNote (n_source_revision n)
              (Some (n_target_parent n)) (Some (n_name n)))
           (\<lambda>v. ver_type v = ObjectNote \<and> ver_parent v = Some (n_target_parent n) \<and>
              ver_name v = n_name n \<and> ver_key v = ver_key sv \<and> ver_blob v = Some (n_blob n) \<and>
              \<not> ver_deleted v))
       (versions d)"

definition move_place :: "db \<Rightarrow> res_row \<Rightarrow> nat \<Rightarrow> preserve_note_move \<Rightarrow> bool" where
  "move_place d r i n \<longleftrightarrow>
     \<not> res_completed r \<and> i < res_notes r \<and> n_move_cursor n = res_first r + 1 + res_clones r + i \<and>
     (res_version r = 3 \<or> res_version r = 4) \<and>
     (n_source_parent n = res_folder r \<and> n_target_parent n = res_recovered r \<or>
      res_version r = 4 \<and>
      list_ex (\<lambda>p. k_original (cln_clone p) = n_source_parent n \<and>
          k_recovered (cln_clone p) = n_target_parent n) (clones_of d (res_user r) (res_op r)))"

definition move_row_ok :: "db \<Rightarrow> mov_row \<Rightarrow> bool" where
  "move_row_ok d c \<longleftrightarrow>
     (let n = mov_move c; others = map mov_move (moves_of d (mov_user c) (mov_op c)) in
      \<not> list_ex (\<lambda>p. mov_ordinal p = mov_ordinal c) (moves_of d (mov_user c) (mov_op c)) \<and>
      \<not> list_ex (\<lambda>n'. n_note n' = n_note n \<or> n_move_cursor n' = n_move_cursor n) others \<and>
      0 < n_move_cursor n \<and> 0 < n_source_revision n \<and> n_target_revision n = n_source_revision n + 1 \<and>
      length (n_blob n) = 32 \<and> loadObject d (mov_user c) (n_note n) \<noteq> None \<and>
      entitled d (mov_user c) (n_blob n) \<and>
      (case resolution_at d (mov_user c) (mov_op c) of
         None \<Rightarrow> False
       | Some r \<Rightarrow> move_place d r (mov_ordinal c) n \<and> move_history d r n))"

definition insert_move :: "mov_row \<Rightarrow> db \<Rightarrow> sync_error + db" where
  "insert_move c d =
     (if move_row_ok d c then Inr (d\<lparr>res_move_rows := res_move_rows d @ [c]\<rparr>) else Inl ErrDatabase)"

section \<open>Completion\<close>

text \<open>The guard of the update from \<open>preparing\<close> to \<open>completed\<close>.\<close>

definition conflict_bound :: "db \<Rightarrow> uuid \<Rightarrow> uuid \<Rightarrow> uuid \<Rightarrow> uuid \<Rightarrow> nat \<Rightarrow> bool" where
  "conflict_bound d u dev operation folder expected \<longleftrightarrow>
     (case operation_at d u operation of
        None \<Rightarrow> False
      | Some p \<Rightarrow>
          op_device p = dev \<and> op_mutation p = MutationDelete \<and> op_object p = folder \<and>
          op_type p = ObjectFolder \<and> \<not> op_accepted p \<and>
          op_conflict p = Some ConflictBaseRevisionMismatch \<and> op_c_revision p = Some expected)"

definition root_history :: "db \<Rightarrow> res_row \<Rightarrow> bool" where
  "root_history d r \<longleftrightarrow>
     bound_change d (res_user r) (res_first r) (res_recovered r) 1 MutationCreate
       (op_binding (res_device r) MutationCreate ObjectFolder 0 (Some ConflictRecoveredID) (res_name r))
       (\<lambda>v. ver_type v = ObjectFolder \<and> ver_parent v = Some ConflictRecoveredID \<and>
          Some (ver_name v) = res_name r \<and> \<not> ver_deleted v) \<and>
     bound_change d (res_user r) (res_last r) (res_folder r) (Suc (res_expected r)) MutationDelete
       (op_binding (res_device r) MutationDelete ObjectFolder (res_expected r) None None)
       (\<lambda>v. ver_type v = ObjectFolder \<and> ver_deleted v \<and>
          version_with d (res_user r) (res_folder r) (res_expected r)
            (\<lambda>s. ver_type s = ObjectFolder \<and> ver_parent s = ver_parent v \<and> ver_name s = ver_name v \<and>
               ver_key s = ver_key v \<and> \<not> ver_deleted s))"

definition mapping_complete :: "db \<Rightarrow> res_row \<Rightarrow> bool" where
  "mapping_complete d r \<longleftrightarrow>
     (let ks = map cln_clone (clones_of d (res_user r) (res_op r));
          ns = map mov_move (moves_of d (res_user r) (res_op r))
      in list_all (\<lambda>k. 0 < k_depth k \<and> k_delete_cursor k < res_last r) ks \<and>
         list_all (\<lambda>k. list_all (\<lambda>p. k_original p = k_source_parent k \<longrightarrow>
             k_delete_cursor k < k_delete_cursor p) ks) ks \<and>
         list_all (\<lambda>n. n_source_parent n = res_folder r \<and> n_target_parent n = res_recovered r \<or>
             list_ex (\<lambda>p. k_original p = n_source_parent n \<and> k_recovered p = n_target_parent n) ks) ns)"

definition complete_ok :: "db \<Rightarrow> res_row \<Rightarrow> bool" where
  "complete_ok d r \<longleftrightarrow>
     (res_version r = 3 \<or> res_version r = 4) \<and> res_name r \<noteq> None \<and>
     res_recovered_cursor r = res_first r \<and> res_deleted_cursor r = res_last r \<and>
     res_last r = res_first r + 2 * res_clones r + res_notes r + 1 \<and>
     conflict_bound d (res_user r) (res_device r) (res_conflict r) (res_folder r) (res_expected r) \<and>
     root_history d r \<and>
     length (clones_of d (res_user r) (res_op r)) = res_clones r \<and>
     length (moves_of d (res_user r) (res_op r)) = res_notes r \<and>
     (res_version r = 4 \<longrightarrow> mapping_complete d r)"

text \<open>\<open>UPDATE ... SET status='completed' WHERE ... AND status='preparing'\<close>: the rows affected.\<close>

definition complete_resolution :: "uuid \<Rightarrow> uuid \<Rightarrow> db \<Rightarrow> sync_error + (nat \<times> db)" where
  "complete_resolution u i d =
     (let P = (\<lambda>r. res_user r = u \<and> res_op r = i \<and> \<not> res_completed r) in
      if list_all (\<lambda>r. P r \<longrightarrow> complete_ok d r) (resolutions d)
      then Inr (rows_affected P (resolutions d),
                d\<lparr>resolutions := update_rows P (\<lambda>r. r\<lparr>res_completed := True\<rparr>) (resolutions d)\<rparr>)
      else Inl ErrDatabase)"

lemma insert_resolution_Inr_iff:
  "insert_resolution r d = Inr d' \<longleftrightarrow>
     resolution_row_ok d r \<and> d' = d\<lparr>resolutions := resolutions d @ [r]\<rparr>"
  by (auto simp: insert_resolution_def)

lemma insert_clone_Inr_iff:
  "insert_clone c d = Inr d' \<longleftrightarrow> clone_row_ok d c \<and> d' = d\<lparr>res_clone_rows := res_clone_rows d @ [c]\<rparr>"
  by (auto simp: insert_clone_def)

lemma insert_move_Inr_iff:
  "insert_move c d = Inr d' \<longleftrightarrow> move_row_ok d c \<and> d' = d\<lparr>res_move_rows := res_move_rows d @ [c]\<rparr>"
  by (auto simp: insert_move_def)

lemmas resolution_iffs = insert_resolution_Inr_iff insert_clone_Inr_iff insert_move_Inr_iff

end
