(* ===== verification/Sync_Preserve.thy ===== *)
theory Sync_Preserve
  imports Sync_Resolution
begin

text \<open>
  Preserve-and-delete, \<open>server/internal/sync/preserve_delete.go\<close>: a folder whose deletion met a
  revision conflict is recreated under the reserved recovery folder, its subfolders are cloned there,
  its notes moved, and the originals deleted, all in one transaction. Version 1 takes a folder that
  never had children, versions 2 and 3 its direct children, version 4 the whole subtree.
\<close>

section \<open>The request digest\<close>

text \<open>\<open>binary.BigEndian.PutUint64\<close> and the bytes of an identifier.\<close>

definition be64 :: "nat \<Rightarrow> string" where
  "be64 n = map (\<lambda>k. char_of (n div 256 ^ k mod 256)) (rev [0..<8])"

definition uuid_bytes :: "uuid \<Rightarrow> string" where
  "uuid_bytes u = map (\<lambda>k. char_of (unat (drop_bit (8 * k) u) mod 256)) (rev [0..<16])"

definition effective_version :: "preserve_request \<Rightarrow> nat" where
  "effective_version r = (if q_version r = 0 then 1 else q_version r)"

definition preserve_bytes :: "preserve_request \<Rightarrow> string" where
  "preserve_bytes r =
     (let version = effective_version r;
          ids = uuid_bytes (q_operation r) @ uuid_bytes (q_conflict_operation r) @ uuid_bytes (q_folder r)
      in if version = 1
         then ids @ be64 (q_expected_revision r) @ ''presdel1''
         else ids @ be64 (q_expected_revision r) @ be64 version @ be64 (q_known_cursor r) @
              (if version = 3 then ''presdel3'' else if version = 4 then ''presdel4'' else ''presdel2''))"

definition preserveRequestHash :: "ext \<Rightarrow> preserve_request \<Rightarrow> string" where
  "preserveRequestHash x r = x_sha256 x (preserve_bytes r)"

section \<open>The name of the recovered folder\<close>

text \<open>The inner loop: runes are cut off the stem until the name fits.\<close>

function trim_stem :: "nat \<Rightarrow> string \<Rightarrow> sync_error + string" where
  "trim_stem n stem =
     (if length stem + n \<le> maxNameBytes then Inr stem
      else if last_rune_width stem = 0 then Inl ErrInvalidInput
      else trim_stem n (take (length stem - last_rune_width stem) stem))"
  by pat_completeness auto
termination
proof (relation "measure (\<lambda>(n, stem). length stem)")
  fix n stem
  assume "last_rune_width stem \<noteq> 0"
  then have "stem \<noteq> []" by (auto simp: last_rune_width_def)
  with last_rune_width_pos [of stem]
  show "((n, take (length stem - last_rune_width stem) stem), n, stem) \<in> measure (\<lambda>(n, stem). length stem)"
    by auto
qed simp

declare trim_stem.simps [simp del]

definition recovery_suffix :: "ext \<Rightarrow> uuid \<Rightarrow> string" where
  "recovery_suffix x operation = '' (Wiederhergestellt - '' @ x_uuid_string x operation @ '')''"

definition attempt_suffix :: "nat \<Rightarrow> string" where
  "attempt_suffix attempt = (if attempt > 0 then ''-'' @ decimal attempt else '''')"

definition recovery_occupied :: "db \<Rightarrow> uuid \<Rightarrow> string \<Rightarrow> bool" where
  "recovery_occupied d u key \<longleftrightarrow>
     list_ex (\<lambda>r. pathkey r = (u, ConflictRecoveredID, key) \<and> \<not> o_deleted r) (objects d)"

text \<open>The attempts \<open>attempt\<close>, \<open>attempt + 1\<close> and so on, \<open>n\<close> of them.\<close>

fun recovery_attempts ::
  "ext \<Rightarrow> nat \<Rightarrow> nat \<Rightarrow> db \<Rightarrow> uuid \<Rightarrow> string \<Rightarrow> string \<Rightarrow> sync_error + (string \<times> string)" where
  "recovery_attempts x 0 attempt d u stem suffix = Inl ErrPreserveDeleteUnavailable"
| "recovery_attempts x (Suc n) attempt d u stem suffix =
     (let tail = suffix @ attempt_suffix attempt in
      rbind (trim_stem (length tail) stem) (\<lambda>cut.
        case normalizeName x (cut @ tail) of
          Inl _ \<Rightarrow> recovery_attempts x n (Suc attempt) d u stem suffix
        | Inr (name, key) \<Rightarrow>
            if recovery_occupied d u key
            then recovery_attempts x n (Suc attempt) d u stem suffix
            else Inr (name, key)))"

definition maxRecoveryAttempts :: nat where
  "maxRecoveryAttempts = 1000"

definition recoveryName :: "ext \<Rightarrow> db \<Rightarrow> uuid \<Rightarrow> string \<Rightarrow> uuid \<Rightarrow> sync_error + (string \<times> string)" where
  "recoveryName x d u stem operation =
     recovery_attempts x maxRecoveryAttempts 0 d u stem (recovery_suffix x operation)"

section \<open>The three writers\<close>

text \<open>\<open>createPreservedFolder\<close>, \<open>deletePreservedFolder\<close> and \<open>movePreservedNote\<close>, each with the identifier of its operation.\<close>

definition create_request :: "uuid \<Rightarrow> uuid \<Rightarrow> uuid \<Rightarrow> string \<Rightarrow> mutation" where
  "create_request operation i parent name =
     \<lparr>m_operation = operation, m_kind = MutationCreate, m_object = i, m_type = ObjectFolder,
      m_base = 0, m_parent = Some parent, m_name = name, m_blob = []\<rparr>"

definition delete_request :: "uuid \<Rightarrow> obj_row \<Rightarrow> mutation" where
  "delete_request operation cur =
     \<lparr>m_operation = operation, m_kind = MutationDelete, m_object = o_id cur, m_type = ObjectFolder,
      m_base = o_rev cur, m_parent = None, m_name = [], m_blob = []\<rparr>"

definition move_request :: "uuid \<Rightarrow> obj_row \<Rightarrow> uuid \<Rightarrow> mutation" where
  "move_request operation cur parent =
     \<lparr>m_operation = operation, m_kind = MutationMove, m_object = o_id cur, m_type = ObjectNote,
      m_base = o_rev cur, m_parent = Some parent, m_name = o_name cur, m_blob = []\<rparr>"

definition preserved_row :: "uuid \<Rightarrow> uuid \<Rightarrow> uuid \<Rightarrow> string \<Rightarrow> string \<Rightarrow> int \<Rightarrow> obj_row" where
  "preserved_row u i parent name key now =
     \<lparr>o_user = u, o_id = i, o_type = ObjectFolder, o_rev = 1, o_parent = Some parent, o_name = name,
      o_key = key, o_blob = None, o_deleted = False, o_created = now, o_updated = now\<rparr>"

text \<open>The cursor, the operation, the version and the change of a written row.\<close>

definition log_preserved ::
  "ext \<Rightarrow> actor \<Rightarrow> int \<Rightarrow> mutation \<Rightarrow> obj_row \<Rightarrow> db \<Rightarrow> sync_error + (nat \<times> db)" where
  "log_preserved x a now request version d =
     rbind (allocateCursor (a_user a) d) (\<lambda>(cursor, d).
     rbind (canonicalize x request) (\<lambda>(m, hash).
     rbind (write_history a m hash now version cursor d) (\<lambda>d. Inr (cursor, d))))"

definition create_folder_with ::
  "ext \<Rightarrow> actor \<Rightarrow> int \<Rightarrow> uuid \<Rightarrow> uuid \<Rightarrow> uuid \<Rightarrow> string \<Rightarrow> string \<Rightarrow> db \<Rightarrow> sync_error + (nat \<times> db)" where
  "create_folder_with x a now operation i parent name key d =
     (let row = preserved_row (a_user a) i parent name key now in
      rbind (insert_object row d)
        (log_preserved x a now (create_request operation i parent name) row))"

definition deleted_now :: "obj_row \<Rightarrow> int \<Rightarrow> obj_row \<Rightarrow> obj_row" where
  "deleted_now cur now r = r\<lparr>o_rev := Suc (o_rev cur), o_deleted := True, o_updated := now\<rparr>"

definition delete_folder_with ::
  "ext \<Rightarrow> actor \<Rightarrow> int \<Rightarrow> uuid \<Rightarrow> obj_row \<Rightarrow> db \<Rightarrow> sync_error + (nat \<times> db)" where
  "delete_folder_with x a now operation cur d =
     rbind (update_objects (is_current cur) (deleted_now cur now) d) (\<lambda>(n, d).
       if n \<noteq> 1 then Inl ErrPreserveDeleteUnavailable
       else log_preserved x a now (delete_request operation cur)
              ((deleted_now cur now cur)\<lparr>o_type := ObjectFolder, o_blob := None\<rparr>) d)"

definition moved_now :: "obj_row \<Rightarrow> uuid \<Rightarrow> int \<Rightarrow> obj_row \<Rightarrow> obj_row" where
  "moved_now cur parent now r = r\<lparr>o_rev := Suc (o_rev cur), o_parent := Some parent, o_updated := now\<rparr>"

definition move_note_with ::
  "ext \<Rightarrow> actor \<Rightarrow> int \<Rightarrow> uuid \<Rightarrow> obj_row \<Rightarrow> uuid \<Rightarrow> db \<Rightarrow> sync_error + (nat \<times> db)" where
  "move_note_with x a now operation cur parent d =
     rbind (update_objects (\<lambda>r. is_current cur r \<and> o_type r = ObjectNote) (moved_now cur parent now) d) (\<lambda>(n, d).
       if n \<noteq> 1 then Inl ErrPreserveDeleteUnavailable
       else log_preserved x a now (move_request operation cur parent)
              ((moved_now cur parent now cur)\<lparr>o_type := ObjectNote, o_deleted := False\<rparr>) d)"

text \<open>A state threaded through a plan: the database and the identifiers still to come.\<close>

type_synonym plan_state = "db \<times> uuid list"

definition next_uuid :: "plan_state \<Rightarrow> sync_error + (uuid \<times> plan_state)" where
  "next_uuid s = (case s of (d, []) \<Rightarrow> Inl ErrRandom | (d, i # fresh) \<Rightarrow> Inr (i, d, fresh))"

definition createPreservedFolder ::
  "ext \<Rightarrow> actor \<Rightarrow> int \<Rightarrow> uuid \<Rightarrow> uuid \<Rightarrow> string \<Rightarrow> string \<Rightarrow> plan_state \<Rightarrow> sync_error + (nat \<times> plan_state)" where
  "createPreservedFolder x a now i parent name key s =
     rbind (next_uuid s) (\<lambda>(operation, d, fresh).
     rbind (create_folder_with x a now operation i parent name key d) (\<lambda>(cursor, d).
       Inr (cursor, d, fresh)))"

definition deletePreservedFolder ::
  "ext \<Rightarrow> actor \<Rightarrow> int \<Rightarrow> obj_row \<Rightarrow> plan_state \<Rightarrow> sync_error + (nat \<times> plan_state)" where
  "deletePreservedFolder x a now cur s =
     rbind (next_uuid s) (\<lambda>(operation, d, fresh).
     rbind (delete_folder_with x a now operation cur d) (\<lambda>(cursor, d).
       Inr (cursor, d, fresh)))"

definition movePreservedNote ::
  "ext \<Rightarrow> actor \<Rightarrow> int \<Rightarrow> obj_row \<Rightarrow> uuid \<Rightarrow> plan_state \<Rightarrow> sync_error + (nat \<times> plan_state)" where
  "movePreservedNote x a now cur parent s =
     rbind (next_uuid s) (\<lambda>(operation, d, fresh).
     rbind (move_note_with x a now operation cur parent d) (\<lambda>(cursor, d).
       Inr (cursor, d, fresh)))"

section \<open>Checks shared by the versions\<close>

definition conflict_binding :: "actor \<Rightarrow> preserve_request \<Rightarrow> db \<Rightarrow> bool" where
  "conflict_binding a r d =
     conflict_bound d (a_user a) (a_device a) (q_conflict_operation r) (q_folder r) (q_expected_revision r)"

definition deletable_root :: "actor \<Rightarrow> preserve_request \<Rightarrow> db \<Rightarrow> obj_row option" where
  "deletable_root a r d =
     (case loadObject d (a_user a) (q_folder r) of
        None \<Rightarrow> None
      | Some cur \<Rightarrow>
          if o_deleted cur \<or> o_type cur \<noteq> ObjectFolder \<or> o_rev cur \<noteq> q_expected_revision r
          then None else Some cur)"

definition resolution_row ::
  "actor \<Rightarrow> preserve_request \<Rightarrow> string \<Rightarrow> preserve_result \<Rightarrow> res_row" where
  "resolution_row a r hash s =
     \<lparr>res_user = a_user a, res_device = a_device a, res_op = q_operation r, res_hash = hash,
      res_conflict = q_conflict_operation r, res_folder = q_folder r,
      res_expected = q_expected_revision r, res_recovered = s_recovered s,
      res_name = (if q_version r = 1 then None else Some (s_recovered_name s)),
      res_recovered_cursor = s_recovered_cursor s, res_deleted_cursor = s_deleted_cursor s,
      res_completed = (q_version r < 3), res_version = q_version r,
      res_known = (if q_version r = 1 then None else Some (q_known_cursor r)),
      res_first = s_first_cursor s, res_last = s_last_cursor s,
      res_clones = length (s_clones s), res_notes = length (s_note_moves s)\<rparr>"

text \<open>The inserts of clones and note moves with their ordinals.\<close>

fun insert_clones :: "actor \<Rightarrow> uuid \<Rightarrow> nat \<Rightarrow> preserve_clone list \<Rightarrow> db \<Rightarrow> sync_error + db" where
  "insert_clones a i n [] d = Inr d"
| "insert_clones a i n (k # ks) d =
     rbind (insert_clone \<lparr>cln_user = a_user a, cln_op = i, cln_ordinal = n, cln_clone = k\<rparr> d)
       (insert_clones a i (Suc n) ks)"

fun insert_moves :: "actor \<Rightarrow> uuid \<Rightarrow> nat \<Rightarrow> preserve_note_move list \<Rightarrow> db \<Rightarrow> sync_error + db" where
  "insert_moves a i n [] d = Inr d"
| "insert_moves a i n (k # ks) d =
     rbind (insert_move \<lparr>mov_user = a_user a, mov_op = i, mov_ordinal = n, mov_move = k\<rparr> d)
       (insert_moves a i (Suc n) ks)"

text \<open>The resolution with its clones and moves, completed at the end where it starts as \<open>preparing\<close>.\<close>

definition store_resolution ::
  "actor \<Rightarrow> preserve_request \<Rightarrow> string \<Rightarrow> preserve_result \<Rightarrow> db \<Rightarrow> sync_error + db" where
  "store_resolution a r hash s d =
     rbind (insert_resolution (resolution_row a r hash s) d) (\<lambda>d.
     rbind (insert_clones a (q_operation r) 0 (s_clones s) d) (\<lambda>d.
     rbind (insert_moves a (q_operation r) 0 (s_note_moves s) d) (\<lambda>d.
       if q_version r < 3 then Inr d
       else rbind (complete_resolution (a_user a) (q_operation r) d) (\<lambda>(n, d).
         if n \<noteq> 1 then Inl ErrPreserveDeleteUnavailable else Inr d))))"

end
