(* ===== verification/Sync_Preserve_Run.thy ===== *)
theory Sync_Preserve_Run
  imports Sync_Preserve
begin

text \<open>
  The three transactions of preserve-and-delete and their dispatcher: the replay of a stored
  resolution, the checks on the conflict and the subtree, and the plan that clones, moves and
  deletes. Queries over the version history are closures of a relation given by lists.
\<close>

section \<open>Version 1: a folder that never had children\<close>

definition preserve_input_ok :: "ext \<Rightarrow> preserve_request \<Rightarrow> bool" where
  "preserve_input_ok x r \<longleftrightarrow>
     validV7 x (q_operation r) \<and> validV7 x (q_conflict_operation r) \<and> validObjectID x (q_folder r) \<and>
     q_expected_revision r \<noteq> 0"

definition same_request :: "actor \<Rightarrow> string \<Rightarrow> res_row \<Rightarrow> bool" where
  "same_request a hash row \<longleftrightarrow>
     length (res_hash row) = 32 \<and> res_device row = a_device a \<and> res_hash row = hash"

definition empty_result :: "uuid \<Rightarrow> string \<Rightarrow> nat \<Rightarrow> nat \<Rightarrow> preserve_result" where
  "empty_result root name first final =
     \<lparr>s_recovered = root, s_recovered_name = name, s_recovered_cursor = first, s_deleted_cursor = final,
      s_first_cursor = first, s_last_cursor = final, s_clones = [], s_note_moves = []\<rparr>"

definition replay_v1 :: "actor \<Rightarrow> string \<Rightarrow> res_row \<Rightarrow> sync_error + preserve_result" where
  "replay_v1 a hash row =
     (if \<not> same_request a hash row then Inl ErrOperationReplayMismatch
      else Inr (empty_result (res_recovered row) '''' (res_recovered_cursor row) (res_deleted_cursor row)))"

definition ever_had_child :: "db \<Rightarrow> uuid \<Rightarrow> uuid \<Rightarrow> bool" where
  "ever_had_child d u i \<longleftrightarrow> list_ex (\<lambda>v. ver_user v = u \<and> ver_parent v = Some i) (versions d)"

definition run_v1 ::
  "ext \<Rightarrow> actor \<Rightarrow> int \<Rightarrow> preserve_request \<Rightarrow> string \<Rightarrow> obj_row \<Rightarrow> plan_state \<Rightarrow>
     sync_error + (preserve_result \<times> db)" where
  "run_v1 x a now r hash cur s =
     rbind (ensureConflictNamespace x a now s) (\<lambda>s.
     rbind (next_uuid s) (\<lambda>(recovered, s).
     rbind (next_uuid s) (\<lambda>(create_op, s).
     rbind (next_uuid s) (\<lambda>(delete_op, d, _).
     rbind (recoveryName x d (a_user a) (o_name cur) (q_operation r)) (\<lambda>(name, key).
     rbind (create_folder_with x a now create_op recovered ConflictRecoveredID name key d) (\<lambda>(first, d).
     rbind (delete_folder_with x a now delete_op cur d) (\<lambda>(final, d).
       let result = empty_result recovered '''' first final in
       rbind (store_resolution a r hash result d) (\<lambda>d. Inr (result, d)))))))))"

definition preserve_v1 ::
  "ext \<Rightarrow> actor \<Rightarrow> int \<Rightarrow> uuid list \<Rightarrow> preserve_request \<Rightarrow> db \<Rightarrow> sync_error + (preserve_result \<times> db)" where
  "preserve_v1 x a now fresh r d =
     (if \<not> preserve_input_ok x r then Inl ErrInvalidInput
      else rbind (requireActiveActor a d) (\<lambda>_.
        let hash = preserveRequestHash x r in
        case resolution_at d (a_user a) (q_operation r) of
          Some row \<Rightarrow> rbind (replay_v1 a hash row) (\<lambda>s. Inr (s, d))
        | None \<Rightarrow>
            if \<not> conflict_binding a r d then Inl ErrPreserveDeleteUnavailable
            else (case deletable_root a r d of
              None \<Rightarrow> Inl ErrPreserveDeleteUnavailable
            | Some cur \<Rightarrow>
                if ever_had_child d (a_user a) (q_folder r) then Inl ErrPreserveDeleteUnavailable
                else run_v1 x a now r hash cur (d, fresh))))"

section \<open>Closures over the history\<close>

text \<open>\<open>WITH RECURSIVE ... UNION\<close>: everything reachable, in at most \<open>n\<close> rounds.\<close>

fun closure :: "nat \<Rightarrow> ('a \<Rightarrow> 'a list) \<Rightarrow> 'a list \<Rightarrow> 'a list" where
  "closure 0 f xs = xs"
| "closure (Suc n) f xs = closure n f (remdups (xs @ concat (map f xs)))"

text \<open>The join of versions and change log of an account: a version with its cursor.\<close>

definition logged_versions :: "db \<Rightarrow> uuid \<Rightarrow> (ver_row \<times> nat) list" where
  "logged_versions d u =
     concat (map (\<lambda>v. map (\<lambda>l. (v, chg_cursor l))
         (filter (\<lambda>l. chg_user l = ver_user v \<and> chg_op l = ver_op v) (changes d)))
       (filter (\<lambda>v. ver_user v = u) (versions d)))"

definition version_children :: "ver_row list \<Rightarrow> uuid \<Rightarrow> uuid list" where
  "version_children vs p = map ver_object (filter (\<lambda>v. ver_parent v = Some p) vs)"

text \<open>Versions 2 and 3: everything that ever was below the folder, and a change to it after the cursor.\<close>

definition direct_late :: "db \<Rightarrow> uuid \<Rightarrow> uuid \<Rightarrow> nat \<Rightarrow> bool" where
  "direct_late d u i known \<longleftrightarrow>
     (let mine = filter (\<lambda>v. ver_user v = u) (versions d);
          subtree = closure (length mine) (version_children mine) [i]
      in list_ex (\<lambda>(v, n). ver_object v \<in> set subtree \<and> known < n) (logged_versions d u))"

text \<open>Version 4: the state at the known cursor, the subtree there, the subtree now, and what was attached since.\<close>

definition frontier :: "db \<Rightarrow> uuid \<Rightarrow> nat \<Rightarrow> ver_row list" where
  "frontier d u known =
     (let seen = filter (\<lambda>(v, n). n \<le> known) (logged_versions d u)
      in map fst (filter (\<lambda>(v, n). \<not> list_ex (\<lambda>(w, k). ver_object w = ver_object v \<and> n < k) seen) seen))"

definition active_object_children :: "db \<Rightarrow> uuid \<Rightarrow> uuid \<Rightarrow> uuid list" where
  "active_object_children d u p =
     map o_id (filter (\<lambda>r. o_user r = u \<and> \<not> o_deleted r \<and> o_parent r = Some p) (objects d))"

definition late_candidates :: "db \<Rightarrow> uuid \<Rightarrow> uuid \<Rightarrow> nat \<Rightarrow> uuid list" where
  "late_candidates d u i known =
     (let live = filter (\<lambda>v. \<not> ver_deleted v) (frontier d u known);
          frontier_subtree = closure (length live) (version_children live)
            (map ver_object (filter (\<lambda>v. ver_object v = i) live));
          current_subtree = closure (length (objects d)) (active_object_children d u)
            (map o_id (filter (\<lambda>r. o_user r = u \<and> o_id r = i \<and> \<not> o_deleted r) (objects d)));
          newer = map fst (filter (\<lambda>(v, n). known < n) (logged_versions d u));
          post_attached = closure (length newer) (version_children newer)
            (concat (map (version_children newer) frontier_subtree))
      in frontier_subtree @ current_subtree @ post_attached)"

definition recursive_late :: "db \<Rightarrow> uuid \<Rightarrow> uuid \<Rightarrow> nat \<Rightarrow> bool" where
  "recursive_late d u i known \<longleftrightarrow>
     list_ex (\<lambda>l. chg_user l = u \<and> chg_object l \<in> set (late_candidates d u i known) \<and> known < chg_cursor l)
       (changes d)"

section \<open>Versions 2 and 3: direct children\<close>

definition direct_clone :: "preserve_clone \<Rightarrow> preserve_clone" where
  "direct_clone k = k\<lparr>k_source_parent := 0, k_target_parent := 0, k_depth := 0\<rparr>"

definition replay_direct ::
  "actor \<Rightarrow> preserve_request \<Rightarrow> string \<Rightarrow> db \<Rightarrow> res_row \<Rightarrow> sync_error + preserve_result" where
  "replay_direct a r hash d row =
     (case res_known row of
        None \<Rightarrow> Inl ErrDatabase
      | Some known \<Rightarrow>
          if \<not> same_request a hash row \<or> res_version row \<noteq> q_version r \<or> known \<noteq> q_known_cursor r \<or>
             \<not> res_completed row \<or>
             (res_version row = 3 \<and> (res_name row = None \<or> res_name row = Some ''''))
          then Inl ErrOperationReplayMismatch
          else let ks = map (direct_clone \<circ> cln_clone) (clones_of d (a_user a) (q_operation r));
                   ns = map mov_move (moves_of d (a_user a) (q_operation r)) in
            if (res_version row = 3 \<and> list_ex (\<lambda>k. k_source_revision k = 0 \<or> k_name k = '''') ks) \<or>
               length ks \<noteq> res_clones row \<or> length ns \<noteq> res_notes row
            then Inl ErrOperationReplayMismatch
            else Inr ((empty_result (res_recovered row) (case res_name row of None \<Rightarrow> '''' | Some s \<Rightarrow> s)
                         (res_first row) (res_last row))\<lparr>s_clones := ks, s_note_moves := ns\<rparr>))"

text \<open>The two cursor checks: the known cursor is one the server has reached, the last change of the folder was a move before it.\<close>

definition known_cursor_reached :: "db \<Rightarrow> uuid \<Rightarrow> nat \<Rightarrow> bool" where
  "known_cursor_reached d u known \<longleftrightarrow>
     (case map_of (counters d) u of None \<Rightarrow> False | Some n \<Rightarrow> known \<le> n)"

definition moved_before :: "db \<Rightarrow> uuid \<Rightarrow> preserve_request \<Rightarrow> bool" where
  "moved_before d u r \<longleftrightarrow>
     (case find (\<lambda>l. chg_user l = u \<and> chg_mutation l = MutationMove \<and>
         version_with d u (q_folder r) (q_expected_revision r) (\<lambda>v. ver_op v = chg_op l)) (changes d) of
        None \<Rightarrow> False | Some l \<Rightarrow> chg_cursor l \<le> q_known_cursor r)"

definition maxPreserved :: nat where
  "maxPreserved = 10000"

text \<open>The loop over the direct children, in the order of their identifiers.\<close>

fun scan_children ::
  "db \<Rightarrow> uuid \<Rightarrow> nat \<Rightarrow> obj_row list \<Rightarrow> obj_row list \<times> obj_row list \<Rightarrow>
     sync_error + (obj_row list \<times> obj_row list)" where
  "scan_children d u version [] acc = Inr acc"
| "scan_children d u version (c # cs) (folders, notes) =
     rbind
       (case o_type c of
          ObjectFolder \<Rightarrow>
            if has_active_child d u (o_id c) then Inl ErrPreserveDeleteUnavailable
            else Inr (folders @ [c], notes)
        | ObjectNote \<Rightarrow>
            if version \<noteq> 3 \<or> length (clone_bytes (o_blob c)) \<noteq> 32 \<or>
               \<not> blob_available d u (clone_bytes (o_blob c))
            then Inl ErrPreserveDeleteUnavailable
            else Inr (folders, notes @ [c])
        | OtherType _ \<Rightarrow> Inl ErrPreserveDeleteUnavailable)
       (\<lambda>(folders, notes).
         if length folders + length notes > maxPreserved then Inl ErrPreserveDeleteUnavailable
         else scan_children d u version cs (folders, notes))"

definition direct_children :: "db \<Rightarrow> uuid \<Rightarrow> uuid \<Rightarrow> obj_row list" where
  "direct_children d u i =
     sort_key o_id (filter (\<lambda>r. o_user r = u \<and> o_parent r = Some i \<and> \<not> o_deleted r) (objects d))"

section \<open>The plan: clones, moves, deletions\<close>

text \<open>The folders to clone, each with its depth, its parent already mapped to a clone.\<close>

record preserve_node =
  nd_state :: obj_row
  nd_depth :: nat

fun clone_folders ::
  "ext \<Rightarrow> actor \<Rightarrow> int \<Rightarrow> preserve_node list \<Rightarrow> (uuid \<times> uuid) list \<Rightarrow> plan_state \<Rightarrow>
     sync_error + (preserve_clone list \<times> (uuid \<times> uuid) list \<times> plan_state)" where
  "clone_folders x a now [] mapped s = Inr ([], mapped, s)"
| "clone_folders x a now (f # fs) mapped s =
     rbind (next_uuid s) (\<lambda>(i, s).
       case o_parent (nd_state f) of
         None \<Rightarrow> Inl ErrPreserveDeleteUnavailable
       | Some source \<Rightarrow>
       (case map_of mapped source of
         None \<Rightarrow> Inl ErrPreserveDeleteUnavailable
       | Some target \<Rightarrow>
           rbind (createPreservedFolder x a now i target (o_name (nd_state f)) (o_key (nd_state f)) s) (\<lambda>(n, s).
           rbind (clone_folders x a now fs ((o_id (nd_state f), i) # mapped) s) (\<lambda>(ks, mapped, s).
             Inr (\<lparr>k_original = o_id (nd_state f), k_recovered = i, k_source_parent = source,
                   k_target_parent = target, k_create_cursor = n, k_delete_cursor = 0,
                   k_source_revision = o_rev (nd_state f), k_depth = nd_depth f,
                   k_name = o_name (nd_state f)\<rparr> # ks, mapped, s)))))"

fun move_notes ::
  "ext \<Rightarrow> actor \<Rightarrow> int \<Rightarrow> preserve_node list \<Rightarrow> (uuid \<times> uuid) list \<Rightarrow> plan_state \<Rightarrow>
     sync_error + (preserve_note_move list \<times> plan_state)" where
  "move_notes x a now [] mapped s = Inr ([], s)"
| "move_notes x a now (f # fs) mapped s =
     (case o_parent (nd_state f) of
        None \<Rightarrow> Inl ErrPreserveDeleteUnavailable
      | Some source \<Rightarrow>
      (case map_of mapped source of
        None \<Rightarrow> Inl ErrPreserveDeleteUnavailable
      | Some target \<Rightarrow>
          rbind (movePreservedNote x a now (nd_state f) target s) (\<lambda>(n, s).
          rbind (move_notes x a now fs mapped s) (\<lambda>(ns, s).
            Inr (\<lparr>n_note = o_id (nd_state f), n_source_parent = source, n_target_parent = target,
                  n_move_cursor = n, n_source_revision = o_rev (nd_state f),
                  n_target_revision = o_rev (nd_state f) + 1, n_name = o_name (nd_state f),
                  n_blob = clone_bytes (o_blob (nd_state f))\<rparr> # ns, s)))))"

text \<open>The deletions return the cursor of each folder.\<close>

fun delete_folders ::
  "ext \<Rightarrow> actor \<Rightarrow> int \<Rightarrow> preserve_node list \<Rightarrow> plan_state \<Rightarrow>
     sync_error + ((uuid \<times> nat) list \<times> plan_state)" where
  "delete_folders x a now [] s = Inr ([], s)"
| "delete_folders x a now (f # fs) s =
     rbind (deletePreservedFolder x a now (nd_state f) s) (\<lambda>(n, s).
     rbind (delete_folders x a now fs s) (\<lambda>(ds, s). Inr ((o_id (nd_state f), n) # ds, s)))"

definition with_delete_cursor :: "(uuid \<times> nat) list \<Rightarrow> preserve_clone \<Rightarrow> preserve_clone" where
  "with_delete_cursor ds k =
     k\<lparr>k_delete_cursor := (case map_of ds (k_original k) of None \<Rightarrow> 0 | Some n \<Rightarrow> n)\<rparr>"

text \<open>
  The common plan of versions 2 to 4: the recovered root, the clones, the note moves, the deletions
  in the order \<open>deletions\<close> and the deletion of the root.
\<close>

definition run_plan ::
  "ext \<Rightarrow> actor \<Rightarrow> int \<Rightarrow> preserve_request \<Rightarrow> obj_row \<Rightarrow> preserve_node list \<Rightarrow> preserve_node list \<Rightarrow>
     preserve_node list \<Rightarrow> plan_state \<Rightarrow> sync_error + (preserve_result \<times> plan_state)" where
  "run_plan x a now r root folders notes deletions s =
     rbind (ensureConflictNamespace x a now s) (\<lambda>s.
     rbind (next_uuid s) (\<lambda>(root_clone, s).
     rbind (recoveryName x (fst s) (a_user a) (o_name root) (q_operation r)) (\<lambda>(name, key).
     rbind (createPreservedFolder x a now root_clone ConflictRecoveredID name key s) (\<lambda>(first, s).
     rbind (clone_folders x a now folders [(q_folder r, root_clone)] s) (\<lambda>(ks, mapped, s).
     rbind (move_notes x a now notes mapped s) (\<lambda>(ns, s).
     rbind (delete_folders x a now deletions s) (\<lambda>(ds, s).
     rbind (deletePreservedFolder x a now root s) (\<lambda>(final, s).
       Inr ((empty_result root_clone name first final)
              \<lparr>s_clones := map (with_delete_cursor ds) ks, s_note_moves := ns\<rparr>, s)))))))))"

definition preserve_direct ::
  "ext \<Rightarrow> actor \<Rightarrow> int \<Rightarrow> uuid list \<Rightarrow> preserve_request \<Rightarrow> db \<Rightarrow> sync_error + (preserve_result \<times> db)" where
  "preserve_direct x a now fresh r d =
     (if \<not> preserve_input_ok x r \<or> q_known_cursor r = 0 then Inl ErrInvalidInput
      else rbind (requireActiveActor a d) (\<lambda>_.
        let hash = preserveRequestHash x r; u = a_user a in
        case resolution_at d u (q_operation r) of
          Some row \<Rightarrow> rbind (replay_direct a r hash d row) (\<lambda>s. Inr (s, d))
        | None \<Rightarrow>
            if \<not> conflict_binding a r d then Inl ErrPreserveDeleteUnavailable
            else (case deletable_root a r d of
              None \<Rightarrow> Inl ErrPreserveDeleteUnavailable
            | Some root \<Rightarrow>
                if \<not> known_cursor_reached d u (q_known_cursor r) \<or> \<not> moved_before d u r \<or>
                   direct_late d u (q_folder r) (q_known_cursor r)
                then Inl ErrPreserveDeleteUnavailable
                else rbind (scan_children d u (q_version r) (direct_children d u (q_folder r)) ([], []))
                  (\<lambda>(folders, notes).
                    let node = (\<lambda>c. \<lparr>nd_state = c, nd_depth = 1\<rparr>) in
                    rbind (run_plan x a now r root (map node folders) (map node notes) (map node folders) (d, fresh))
                      (\<lambda>(result, d, _).
                        let result = result\<lparr>s_clones := map direct_clone (s_clones result)\<rparr> in
                        rbind (store_resolution a r hash result d) (\<lambda>d. Inr (result, d)))))))"

section \<open>Version 4: the whole subtree\<close>

text \<open>The replay: the stored clones and moves must still describe a tree.\<close>

definition clone_replay_ok :: "nat \<Rightarrow> nat \<Rightarrow> nat \<Rightarrow> nat \<Rightarrow> nat \<Rightarrow> preserve_clone \<Rightarrow> bool" where
  "clone_replay_ok first final clone_count note_count n k \<longleftrightarrow>
     k_source_revision k \<noteq> 0 \<and> k_name k \<noteq> [] \<and> k_depth k \<noteq> 0 \<and> k_depth k \<le> 256 \<and>
     k_create_cursor k = first + 1 + n \<and> first + clone_count + note_count < k_delete_cursor k \<and>
     k_delete_cursor k < final"

text \<open>Its maps: the clone, the depth and the delete cursor of each original folder.\<close>

fun replay_tree ::
  "preserve_clone list \<Rightarrow> (uuid \<times> uuid \<times> nat \<times> nat) list \<Rightarrow> (uuid \<times> uuid \<times> nat \<times> nat) list option" where
  "replay_tree [] maps = Some maps"
| "replay_tree (k # ks) maps =
     (case map_of maps (k_source_parent k) of
        None \<Rightarrow> None
      | Some (parent_clone, depth, _) \<Rightarrow>
          if parent_clone \<noteq> k_target_parent k \<or> depth + 1 \<noteq> k_depth k then None
          else replay_tree ks ((k_original k, k_recovered k, k_depth k, k_delete_cursor k) # maps))"

definition delete_before_parent :: "(uuid \<times> uuid \<times> nat \<times> nat) list \<Rightarrow> preserve_clone \<Rightarrow> bool" where
  "delete_before_parent maps k \<longleftrightarrow>
     (case map_of maps (k_source_parent k) of
        None \<Rightarrow> False | Some (_, _, n) \<Rightarrow> k_delete_cursor k < n)"

definition move_replay_ok ::
  "nat \<Rightarrow> nat \<Rightarrow> (uuid \<times> uuid \<times> nat \<times> nat) list \<Rightarrow> nat \<Rightarrow> preserve_note_move \<Rightarrow> bool" where
  "move_replay_ok first clone_count maps i n \<longleftrightarrow>
     n_move_cursor n = first + 1 + clone_count + i \<and> n_target_revision n = n_source_revision n + 1 \<and>
     n_source_revision n \<noteq> 0 \<and> n_name n \<noteq> [] \<and> length (n_blob n) = 32 \<and>
     (case map_of maps (n_source_parent n) of
        None \<Rightarrow> n_target_parent n = uuid_nil | Some (target, _) \<Rightarrow> target = n_target_parent n)"

definition replay_recursive ::
  "actor \<Rightarrow> preserve_request \<Rightarrow> string \<Rightarrow> db \<Rightarrow> res_row \<Rightarrow> sync_error + preserve_result" where
  "replay_recursive a r hash d row =
     (case res_known row of
        None \<Rightarrow> Inl ErrDatabase
      | Some known \<Rightarrow>
          let first = res_first row; final = res_last row; cs = res_clones row; ms = res_notes row;
              ks = map cln_clone (clones_of d (a_user a) (q_operation r));
              ns = map mov_move (moves_of d (a_user a) (q_operation r)) in
          if \<not> same_request a hash row \<or> res_version row \<noteq> 4 \<or> known \<noteq> q_known_cursor r \<or>
             \<not> res_completed row \<or> res_name row = None \<or> res_name row = Some [] \<or>
             final \<noteq> first + 2 * cs + ms + 1
          then Inl ErrOperationReplayMismatch
          else if \<not> list_all (\<lambda>(n, k). clone_replay_ok first final cs ms n k) (enumerate 0 ks) \<or> length ks \<noteq> cs
          then Inl ErrOperationReplayMismatch
          else (case replay_tree ks [(q_folder r, res_recovered row, 0, final)] of
             None \<Rightarrow> Inl ErrOperationReplayMismatch
           | Some maps \<Rightarrow>
               if \<not> list_all (delete_before_parent maps) ks \<or>
                  \<not> list_all (\<lambda>(i, n). move_replay_ok first cs maps i n) (enumerate 0 ns) \<or> length ns \<noteq> ms
               then Inl ErrOperationReplayMismatch
               else Inr ((empty_result (res_recovered row) (the (res_name row)) first final)
                           \<lparr>s_clones := ks, s_note_moves := ns\<rparr>)))"

text \<open>
  The recursive query \<open>tree\<close>: a row for every active object below the folder with its depth and the
  path of identifiers; a row whose object is already on its path closes a cycle and is not expanded,
  nor is a row at depth 257. \<open>n\<close> levels are expanded.
\<close>

record tree_row =
  t_row :: obj_row
  t_depth :: nat
  t_path :: "uuid list"
  t_cycle :: bool

definition tree_children :: "db \<Rightarrow> uuid \<Rightarrow> tree_row \<Rightarrow> tree_row list" where
  "tree_children d u t =
     (if t_cycle t then []
      else map (\<lambda>o'. \<lparr>t_row = o', t_depth = Suc (t_depth t), t_path = o_id o' # t_path t,
                     t_cycle = (o_id o' \<in> set (t_path t))\<rparr>)
             (filter (\<lambda>o'. o_user o' = u \<and> \<not> o_deleted o' \<and> o_parent o' = Some (o_id (t_row t))) (objects d)))"

fun tree_levels :: "nat \<Rightarrow> db \<Rightarrow> uuid \<Rightarrow> tree_row list \<Rightarrow> tree_row list" where
  "tree_levels 0 d u level = level"
| "tree_levels (Suc n) d u level = level @ tree_levels n d u (concat (map (tree_children d u) level))"

definition maxTreeDepth :: nat where
  "maxTreeDepth = 257"

definition tree_scan :: "db \<Rightarrow> uuid \<Rightarrow> uuid \<Rightarrow> tree_row list" where
  "tree_scan d u i =
     take 10001 (sort_key t_depth (sort_key (\<lambda>t. o_id (t_row t))
       (tree_levels maxTreeDepth d u
         (map (\<lambda>o'. \<lparr>t_row = o', t_depth = 0, t_path = [o_id o'], t_cycle = False\<rparr>)
           (filter (\<lambda>o'. o_user o' = u \<and> o_id o' = i \<and> \<not> o_deleted o') (objects d))))))"

text \<open>The loop over the rows.\<close>

fun scan_tree ::
  "db \<Rightarrow> uuid \<Rightarrow> tree_row list \<Rightarrow> preserve_node list \<times> preserve_node list \<Rightarrow>
     sync_error + (preserve_node list \<times> preserve_node list)" where
  "scan_tree d u [] acc = Inr acc"
| "scan_tree d u (t # ts) (folders, notes) =
     (let r = t_row t; node = \<lparr>nd_state = r, nd_depth = t_depth t\<rparr> in
      if t_cycle t \<or> t_depth t > 256 \<or> o_rev r = 0 \<or> o_name r = [] \<or> o_key r = []
      then Inl ErrPreserveDeleteUnavailable
      else rbind
        (case o_type r of
           ObjectFolder \<Rightarrow>
             if clone_bytes (o_blob r) \<noteq> [] then Inl ErrPreserveDeleteUnavailable
             else Inr (folders @ [node], notes)
         | ObjectNote \<Rightarrow>
             if length (clone_bytes (o_blob r)) \<noteq> 32 \<or> \<not> blob_available d u (clone_bytes (o_blob r))
             then Inl ErrPreserveDeleteUnavailable
             else Inr (folders, notes @ [node])
         | OtherType _ \<Rightarrow> Inl ErrPreserveDeleteUnavailable)
        (\<lambda>(folders, notes).
          if length folders + length notes > maxPreserved then Inl ErrPreserveDeleteUnavailable
          else scan_tree d u ts (folders, notes)))"

definition node_of :: "preserve_node list \<Rightarrow> uuid \<Rightarrow> preserve_node option" where
  "node_of folders i = row_at (o_id \<circ> nd_state) (rev folders) i"

definition below_folder :: "preserve_node list \<Rightarrow> preserve_node \<Rightarrow> bool" where
  "below_folder folders n \<longleftrightarrow>
     (case o_parent (nd_state n) of
        None \<Rightarrow> False
      | Some p \<Rightarrow>
          (case node_of folders p of None \<Rightarrow> False | Some f \<Rightarrow> nd_depth f + 1 = nd_depth n))"

definition tree_shape_ok :: "preserve_request \<Rightarrow> preserve_node list \<Rightarrow> preserve_node list \<Rightarrow> bool" where
  "tree_shape_ok r folders notes \<longleftrightarrow>
     folders \<noteq> [] \<and> o_id (nd_state (hd folders)) = q_folder r \<and> nd_depth (hd folders) = 0 \<and>
     o_rev (nd_state (hd folders)) = q_expected_revision r \<and>
     list_all (below_folder folders) (tl folders) \<and> list_all (below_folder folders) notes"

text \<open>The three orders: folders by depth and identifier, notes by their folder, deletions deepest first.\<close>

definition folder_order :: "preserve_node list \<Rightarrow> preserve_node list" where
  "folder_order fs = sort_key nd_depth (sort_key (o_id \<circ> nd_state) fs)"

definition folder_position :: "preserve_node list \<Rightarrow> preserve_node \<Rightarrow> nat" where
  "folder_position folders n =
     length (takeWhile (\<lambda>f. Some (o_id (nd_state f)) \<noteq> o_parent (nd_state n)) folders)"

definition note_order :: "preserve_node list \<Rightarrow> preserve_node list \<Rightarrow> preserve_node list" where
  "note_order folders notes = sort_key (folder_position folders) (sort_key (o_id \<circ> nd_state) notes)"

definition delete_order :: "preserve_node list \<Rightarrow> preserve_node list" where
  "delete_order fs = sort_key (\<lambda>f. - int (nd_depth f)) (sort_key (o_id \<circ> nd_state) fs)"

definition last_cursor_exact :: "preserve_result \<Rightarrow> bool" where
  "last_cursor_exact s \<longleftrightarrow>
     s_last_cursor s = s_first_cursor s + 2 * length (s_clones s) + length (s_note_moves s) + 1"

definition preserve_recursive ::
  "ext \<Rightarrow> actor \<Rightarrow> int \<Rightarrow> uuid list \<Rightarrow> preserve_request \<Rightarrow> db \<Rightarrow> sync_error + (preserve_result \<times> db)" where
  "preserve_recursive x a now fresh r d =
     (if \<not> preserve_input_ok x r \<or> q_known_cursor r = 0 then Inl ErrInvalidInput
      else rbind (requireActiveActor a d) (\<lambda>_.
        let hash = preserveRequestHash x r; u = a_user a in
        case resolution_at d u (q_operation r) of
          Some row \<Rightarrow> rbind (replay_recursive a r hash d row) (\<lambda>s. Inr (s, d))
        | None \<Rightarrow>
            if \<not> conflict_binding a r d \<or> \<not> known_cursor_reached d u (q_known_cursor r)
            then Inl ErrPreserveDeleteUnavailable
            else rbind (scan_tree d u (tree_scan d u (q_folder r)) ([], [])) (\<lambda>(folders, notes).
              if \<not> tree_shape_ok r folders notes \<or> recursive_late d u (q_folder r) (q_known_cursor r)
              then Inl ErrPreserveDeleteUnavailable
              else let subfolders = folder_order (tl folders);
                       ordered = note_order (hd folders # subfolders) notes in
                rbind (run_plan x a now r (nd_state (hd folders)) subfolders ordered
                        (delete_order subfolders) (d, fresh))
                  (\<lambda>(result, d, _).
                    if \<not> last_cursor_exact result then Inl ErrPreserveDeleteUnavailable
                    else rbind (store_resolution a r hash result d) (\<lambda>d. Inr (result, d))))))"

section \<open>The dispatcher\<close>

definition preserve_tx ::
  "ext \<Rightarrow> actor \<Rightarrow> int \<Rightarrow> uuid list \<Rightarrow> preserve_request \<Rightarrow> db \<Rightarrow> sync_error + (preserve_result \<times> db)" where
  "preserve_tx x a now fresh request d =
     (let version = effective_version request; r = request\<lparr>q_version := version\<rparr> in
      if version = 2 \<or> version = 3 then preserve_direct x a now fresh r d
      else if version = 4 then preserve_recursive x a now fresh r d
      else if version \<noteq> 1 \<or> q_known_cursor r \<noteq> 0 then Inl ErrInvalidInput
      else preserve_v1 x a now fresh r d)"

definition PreserveAndDeleteEmptyFolder ::
  "ext \<Rightarrow> actor \<Rightarrow> int \<Rightarrow> uuid list \<Rightarrow> preserve_request \<Rightarrow> db \<Rightarrow> (sync_error + preserve_result) \<times> db" where
  "PreserveAndDeleteEmptyFolder x a now fresh request d =
     run_tx (preserve_tx x a now fresh request d) d"

end
