(* ===== verification/Sync_Tree.thy ===== *)
theory Sync_Tree
  imports Sync_Service
begin

text \<open>
  The folder hierarchy of an account: every parent is a folder, the parent of an active object is
  active, and following parents never returns to the start. The theory shows what the checks of
  \<open>service.go\<close> guarantee (the bounded walk of \<open>folderCycle\<close>, \<open>parent_available\<close>, the test for active
  children) and that inserting or replacing one object row under these checks keeps the hierarchy.
\<close>

section \<open>Statements that do not touch the objects\<close>

lemma loadObject_frame [simp]:
  "loadObject (d\<lparr>counters := cs\<rparr>) = loadObject d"
  "loadObject (d\<lparr>operations := os\<rparr>) = loadObject d"
  "loadObject (d\<lparr>versions := vs\<rparr>) = loadObject d"
  "loadObject (d\<lparr>changes := ls\<rparr>) = loadObject d"
  by (simp_all add: loadObject_def fun_eq_iff)

lemma exists_frame [simp]:
  "user_exists (d\<lparr>counters := cs\<rparr>) = user_exists d"
  "user_exists (d\<lparr>operations := os\<rparr>) = user_exists d"
  "user_exists (d\<lparr>versions := vs\<rparr>) = user_exists d"
  "user_exists (d\<lparr>changes := ls\<rparr>) = user_exists d"
  "user_exists (d\<lparr>objects := objs\<rparr>) = user_exists d"
  "device_exists (d\<lparr>counters := cs\<rparr>) = device_exists d"
  "device_exists (d\<lparr>operations := os\<rparr>) = device_exists d"
  "device_exists (d\<lparr>versions := vs\<rparr>) = device_exists d"
  "device_exists (d\<lparr>changes := ls\<rparr>) = device_exists d"
  "device_exists (d\<lparr>objects := objs\<rparr>) = device_exists d"
  by (simp_all add: user_exists_def device_exists_def fun_eq_iff)

lemma entitled_frame [simp]:
  "blob_entitled (d\<lparr>counters := cs\<rparr>) = blob_entitled d"
  "blob_entitled (d\<lparr>operations := os\<rparr>) = blob_entitled d"
  "blob_entitled (d\<lparr>versions := vs\<rparr>) = blob_entitled d"
  "blob_entitled (d\<lparr>changes := ls\<rparr>) = blob_entitled d"
  "blob_entitled (d\<lparr>objects := objs\<rparr>) = blob_entitled d"
  by (simp_all add: blob_entitled_def entitled_def fun_eq_iff cong: option.case_cong)

lemma objects_ok_frame [simp]:
  "objects_ok (d\<lparr>counters := cs\<rparr>) = objects_ok d"
  "objects_ok (d\<lparr>operations := os\<rparr>) = objects_ok d"
  "objects_ok (d\<lparr>versions := vs\<rparr>) = objects_ok d"
  "objects_ok (d\<lparr>changes := ls\<rparr>) = objects_ok d"
  by (simp_all add: objects_ok_def object_row_ok_def[abs_def] cong: option.case_cong)

lemma operation_at_frame [simp]:
  "operation_at (d\<lparr>counters := cs\<rparr>) = operation_at d"
  "operation_at (d\<lparr>objects := objs\<rparr>) = operation_at d"
  "operation_at (d\<lparr>versions := vs\<rparr>) = operation_at d"
  "operation_at (d\<lparr>changes := ls\<rparr>) = operation_at d"
  by (simp_all add: operation_at_def fun_eq_iff)

lemma version_at_frame [simp]:
  "version_at (d\<lparr>counters := cs\<rparr>) = version_at d"
  "version_at (d\<lparr>objects := objs\<rparr>) = version_at d"
  "version_at (d\<lparr>operations := os\<rparr>) = version_at d"
  "version_at (d\<lparr>changes := ls\<rparr>) = version_at d"
  by (simp_all add: version_at_def fun_eq_iff)

lemma last_cursor_frame [simp]:
  "last_cursor (d\<lparr>objects := objs\<rparr>) = last_cursor d"
  "last_cursor (d\<lparr>operations := os\<rparr>) = last_cursor d"
  "last_cursor (d\<lparr>versions := vs\<rparr>) = last_cursor d"
  "last_cursor (d\<lparr>changes := ls\<rparr>) = last_cursor d"
  by (simp_all add: last_cursor_def fun_eq_iff)

section \<open>The parent relation\<close>

definition parent_rel :: "db \<Rightarrow> uuid \<Rightarrow> (uuid \<times> uuid) set" where
  "parent_rel d u = {(i, p). \<exists>r. loadObject d u i = Some r \<and> o_parent r = Some p}"

definition tree_ok :: "db \<Rightarrow> uuid \<Rightarrow> bool" where
  "tree_ok d u \<longleftrightarrow>
     (\<forall>i r p. loadObject d u i = Some r \<longrightarrow> o_parent r = Some p \<longrightarrow>
        (\<exists>q. loadObject d u p = Some q \<and> o_type q = ObjectFolder \<and> (\<not> o_deleted r \<longrightarrow> \<not> o_deleted q))) \<and>
     acyclic (parent_rel d u)"

lemma tree_ok_frame [simp]:
  "tree_ok (d\<lparr>counters := cs\<rparr>) = tree_ok d"
  "tree_ok (d\<lparr>operations := os\<rparr>) = tree_ok d"
  "tree_ok (d\<lparr>versions := vs\<rparr>) = tree_ok d"
  "tree_ok (d\<lparr>changes := ls\<rparr>) = tree_ok d"
  by (simp_all add: tree_ok_def parent_rel_def fun_eq_iff)

lemma tree_ok_parentD:
  assumes "tree_ok d u" "loadObject d u i = Some r" "o_parent r = Some p"
  obtains q where "loadObject d u p = Some q" "o_type q = ObjectFolder"
    "\<not> o_deleted r \<Longrightarrow> \<not> o_deleted q"
  using assms unfolding tree_ok_def by blast

text \<open>The walk of \<open>folderCycle\<close> that answers no has seen the whole chain of parents.\<close>

lemma folder_cycle_steps_sound:
  "folder_cycle_steps n d u obj cur = Inr False \<Longrightarrow> (cur, obj) \<notin> (parent_rel d u)\<^sup>*"
proof (induction n d u obj cur rule: folder_cycle_steps.induct)
  case (1 d u obj cur)
  then show ?case by simp
next
  case (2 n d u obj cur)
  show ?case
  proof
    assume "(cur, obj) \<in> (parent_rel d u)\<^sup>*"
    with "2.prems" obtain p where p: "(cur, p) \<in> parent_rel d u" "(p, obj) \<in> (parent_rel d u)\<^sup>*"
      by (auto split: if_splits elim: converse_rtranclE)
    then obtain r where r: "loadObject d u cur = Some r" "o_parent r = Some p"
      by (auto simp: parent_rel_def)
    with "2.prems" have "cur \<noteq> obj" "folder_cycle_steps n d u obj p = Inr False"
      by (auto split: if_splits)
    with "2.IH" r p(2) show False by auto
  qed
qed

text \<open>Conversely a walk that answers yes has found the object among the ancestors.\<close>

lemma folder_cycle_steps_complete:
  "folder_cycle_steps n d u obj cur = Inr True \<Longrightarrow> (cur, obj) \<in> (parent_rel d u)\<^sup>*"
proof (induction n d u obj cur rule: folder_cycle_steps.induct)
  case (1 d u obj cur)
  then show ?case by simp
next
  case (2 n d u obj cur)
  show ?case
  proof (cases "cur = obj")
    case False
    with "2.prems" obtain r p where r: "loadObject d u cur = Some r" "o_parent r = Some p"
      and step: "folder_cycle_steps n d u obj p = Inr True"
      by (auto split: if_splits option.splits)
    from r have "(cur, p) \<in> parent_rel d u" by (auto simp: parent_rel_def)
    moreover have "(p, obj) \<in> (parent_rel d u)\<^sup>*"
      using "2.IH" False r step by blast
    ultimately show ?thesis by (rule converse_rtrancl_into_rtrancl)
  qed simp
qed

text \<open>What \<open>parent_available\<close> says.\<close>

lemma parent_availableD:
  assumes "parent_available d u (Some p)"
  obtains q where "loadObject d u p = Some q" "\<not> o_deleted q" "o_type q = ObjectFolder"
  using assms by (auto simp: parent_available_def split: option.splits)

section \<open>Inserting an object\<close>

lemma loadObject_append:
  "loadObject (d\<lparr>objects := objects d @ [r]\<rparr>) u i =
     (case loadObject d u i of
        None \<Rightarrow> if okey r = (u, i) then Some r else None
      | Some q \<Rightarrow> Some q)"
  by (simp add: loadObject_def table_simps split: option.split)

lemma tree_ok_insert:
  assumes tree: "tree_ok d u"
    and fresh: "loadObject d (o_user r) (o_id r) = None"
    and parent: "parent_available d (o_user r) (o_parent r)"
  shows "tree_ok (d\<lparr>objects := objects d @ [r]\<rparr>) u"
proof (cases "o_user r = u")
  case False
  then have "loadObject (d\<lparr>objects := objects d @ [r]\<rparr>) u = loadObject d u"
    by (auto simp: loadObject_append okey_def fun_eq_iff split: option.split)
  with tree show ?thesis by (simp add: tree_ok_def parent_rel_def)
next
  case True
  let ?d = "d\<lparr>objects := objects d @ [r]\<rparr>"
  have load: "loadObject ?d u i = (if i = o_id r then Some r else loadObject d u i)" for i
    using fresh True by (auto simp: loadObject_append okey_def split: option.split)
  have not_parent: "loadObject d u i = Some q \<Longrightarrow> o_parent q \<noteq> Some (o_id r)" for i q
    using tree fresh True by (metis tree_ok_parentD option.distinct(1))
  have none: "i \<noteq> o_id r" if "loadObject d u i = Some q" for i q
    using that fresh True by auto
  have rel: "parent_rel ?d u =
      (case o_parent r of None \<Rightarrow> parent_rel d u | Some p \<Rightarrow> insert (o_id r, p) (parent_rel d u))"
    using none by (auto simp: parent_rel_def load split: option.split if_split_asm)
  have "(p, o_id r) \<notin> (parent_rel d u)\<^sup>*" if "o_parent r = Some p" for p
  proof
    assume "(p, o_id r) \<in> (parent_rel d u)\<^sup>*"
    then consider "p = o_id r" | i where "(i, o_id r) \<in> parent_rel d u"
      by (metis rtranclE)
    then show False
    proof cases
      case 1
      with that parent fresh True show False by (auto simp: parent_available_def)
    next
      case 2
      with not_parent show False by (auto simp: parent_rel_def)
    qed
  qed
  with tree rel have "acyclic (parent_rel ?d u)"
    by (auto simp: tree_ok_def acyclic_insert split: option.split)
  moreover have "\<exists>q. loadObject ?d u p = Some q \<and> o_type q = ObjectFolder \<and> (\<not> o_deleted s \<longrightarrow> \<not> o_deleted q)"
    if s: "loadObject ?d u i = Some s" "o_parent s = Some p" for i s p
  proof (cases "i = o_id r")
    case True
    with that load have "o_parent r = Some p" by simp
    with parent \<open>o_user r = u\<close> have "parent_available d u (Some p)" by simp
    then obtain q where "loadObject d u p = Some q" "\<not> o_deleted q" "o_type q = ObjectFolder"
      by (rule parent_availableD)
    then show ?thesis using none by (auto simp: load)
  next
    case False
    with that load have "loadObject d u i = Some s" by simp
    then obtain q where "loadObject d u p = Some q" "o_type q = ObjectFolder"
      "\<not> o_deleted s \<Longrightarrow> \<not> o_deleted q"
      using tree s(2) by (metis tree_ok_parentD)
    then show ?thesis using none by (auto simp: load)
  qed
  ultimately show ?thesis by (auto simp: tree_ok_def)
qed

section \<open>Replacing an object\<close>

lemma loadObject_update:
  assumes "\<And>r. P r \<Longrightarrow> okey (f r) = okey r"
  shows "loadObject (d\<lparr>objects := update_rows P f (objects d)\<rparr>) u i =
    map_option (\<lambda>r. if P r then f r else r) (loadObject d u i)"
  by (simp add: loadObject_def row_at_update assms)

text \<open>One row of the account replaced: what the new row must satisfy for the hierarchy to hold.\<close>

definition replacement_ok :: "db \<Rightarrow> uuid \<Rightarrow> uuid \<Rightarrow> obj_row \<Rightarrow> obj_row \<Rightarrow> bool" where
  "replacement_ok d u i r r' \<longleftrightarrow>
     o_type r' = o_type r \<and> (o_deleted r \<longrightarrow> o_deleted r') \<and>
     (o_parent r' = o_parent r \<or>
        parent_available d u (o_parent r') \<and>
        (o_type r = ObjectFolder \<longrightarrow> (\<forall>p. o_parent r' = Some p \<longrightarrow> (p, i) \<notin> (parent_rel d u)\<^sup>*))) \<and>
     (o_deleted r' \<longrightarrow> o_deleted r \<or>
        (\<forall>j q. loadObject d u j = Some q \<longrightarrow> o_parent q = Some i \<longrightarrow> o_deleted q))"

lemma note_not_parent:
  assumes "tree_ok d u" "loadObject d u i = Some r" "o_type r \<noteq> ObjectFolder"
  shows "(p, i) \<notin> parent_rel d u"
  using assms by (auto simp: parent_rel_def elim: tree_ok_parentD)

lemma replacement_no_cycle:
  assumes "tree_ok d u" "loadObject d u i = Some r" "replacement_ok d u i r r'"
    "o_parent r' \<noteq> o_parent r" "o_parent r' = Some p"
  shows "(p, i) \<notin> (parent_rel d u)\<^sup>*"
proof (cases "o_type r = ObjectFolder")
  case True
  with assms(3-5) show ?thesis by (auto simp: replacement_ok_def)
next
  case False
  from assms(3-5) have "parent_available d u (Some p)" by (auto simp: replacement_ok_def)
  then have "p \<noteq> i" using assms(2) False by (auto elim: parent_availableD)
  with note_not_parent [OF assms(1,2) False] show ?thesis by (metis rtranclE)
qed

lemma tree_ok_replace:
  assumes tree: "tree_ok d u" and old: "loadObject d u i = Some r"
    and load: "loadObject d' u = (loadObject d u)(i \<mapsto> r')"
    and ok: "replacement_ok d u i r r'"
  shows "tree_ok d' u"
proof -
  have subset: "parent_rel d' u \<subseteq>
      (case o_parent r' of None \<Rightarrow> parent_rel d u
       | Some p \<Rightarrow> if o_parent r' = o_parent r then parent_rel d u else insert (i, p) (parent_rel d u))"
    using old by (auto simp: parent_rel_def load split: option.split if_splits)
  have "acyclic (parent_rel d u)" using tree by (simp add: tree_ok_def)
  then have "acyclic (parent_rel d' u)"
    using subset replacement_no_cycle [OF tree old ok]
    by (auto simp: acyclic_insert split: option.splits if_splits
        dest: acyclic_subset intro: acyclic_subset [of "insert (i, p) (parent_rel d u)" for p])
  moreover have "\<exists>q. loadObject d' u p = Some q \<and> o_type q = ObjectFolder \<and> (\<not> o_deleted s \<longrightarrow> \<not> o_deleted q)"
    if s: "loadObject d' u j = Some s" "o_parent s = Some p" for j s p
  proof -
    have base: "\<exists>q. loadObject d u p = Some q \<and> o_type q = ObjectFolder \<and> (\<not> o_deleted s \<longrightarrow> \<not> o_deleted q)"
    proof (cases "j = i")
      case True
      with s load have [simp]: "s = r'" by simp
      show ?thesis
      proof (cases "o_parent r' = o_parent r")
        case True
        with s old tree obtain q where "loadObject d u p = Some q" "o_type q = ObjectFolder"
          "\<not> o_deleted r \<Longrightarrow> \<not> o_deleted q" by (metis \<open>s = r'\<close> tree_ok_parentD)
        with ok show ?thesis by (auto simp: replacement_ok_def)
      next
        case False
        with ok s have "parent_available d u (Some p)" by (auto simp: replacement_ok_def)
        then show ?thesis by (auto elim: parent_availableD)
      qed
    next
      case False
      with s load have "loadObject d u j = Some s" by simp
      with tree s(2) show ?thesis by (metis tree_ok_parentD)
    qed
    show ?thesis
    proof (cases "p = i")
      case False
      with base load show ?thesis by simp
    next
      case True
      with base old have r: "o_type r = ObjectFolder" "\<not> o_deleted s \<longrightarrow> \<not> o_deleted r" by auto
      have "o_deleted s" if "o_deleted r'" "\<not> o_deleted r"
      proof (cases "j = i")
        case True
        with s load that show ?thesis by simp
      next
        case False
        with s load have "loadObject d u j = Some s" by simp
        with that ok s(2) \<open>p = i\<close> show ?thesis by (auto simp: replacement_ok_def)
      qed
      with r ok show ?thesis by (auto simp: True load replacement_ok_def)
    qed
  qed
  ultimately show ?thesis by (auto simp: tree_ok_def)
qed

lemma tree_ok_other:
  "loadObject d' u = loadObject d u \<Longrightarrow> tree_ok d u \<Longrightarrow> tree_ok d' u"
  by (simp add: tree_ok_def parent_rel_def)

end
