(* ===== verification/Sync_Invariant.thy ===== *)
theory Sync_Invariant
  imports Sync_Tree
begin

text \<open>
  The invariant of the synchronization tables and its preservation. Besides the schema's own
  constraints and the folder hierarchy it says how objects, versions, operations and change log
  agree: the current state of an object is its highest version, the changes of an object carry its
  revisions 1, 2, 3 and so on in this order, and the cursors of an account's changes are exactly
  1 up to its counter. One lemma (\<open>write_history_keeps\<close>) covers every place of the code that writes
  an accepted change.
\<close>

section \<open>The invariant\<close>

definition version_matches :: "ver_row \<Rightarrow> obj_row \<Rightarrow> bool" where
  "version_matches v r \<longleftrightarrow>
     verkey v = (o_user r, o_id r, o_rev r) \<and> ver_type v = o_type r \<and> ver_parent v = o_parent r \<and>
     ver_name v = o_name r \<and> ver_key v = o_key r \<and> ver_blob v = o_blob r \<and> ver_deleted v = o_deleted r"

definition changes_of_user :: "db \<Rightarrow> uuid \<Rightarrow> chg_row list" where
  "changes_of_user d u = filter (\<lambda>c. chg_user c = u) (changes d)"

definition changes_of_object :: "db \<Rightarrow> uuid \<Rightarrow> uuid \<Rightarrow> chg_row list" where
  "changes_of_object d u i = filter (\<lambda>c. chg_user c = u \<and> chg_object c = i) (changes d)"

definition change_recorded :: "db \<Rightarrow> chg_row \<Rightarrow> bool" where
  "change_recorded d c \<longleftrightarrow>
     (\<exists>p\<in>set (operations d). opkey p = (chg_user c, chg_op c)) \<and>
     (\<exists>v\<in>set (versions d). verkey v = (chg_user c, chg_object c, chg_rev c) \<and> ver_op v = chg_op c)"

definition version_owned :: "db \<Rightarrow> ver_row \<Rightarrow> bool" where
  "version_owned d v \<longleftrightarrow>
     (\<exists>r\<in>set (objects d). okey r = (ver_user v, ver_object v) \<and> ver_rev v \<le> o_rev r)"

definition object_recorded :: "db \<Rightarrow> obj_row \<Rightarrow> bool" where
  "object_recorded d r \<longleftrightarrow>
     (\<exists>v\<in>set (versions d). version_matches v r) \<and>
     map chg_rev (changes_of_object d (o_user r) (o_id r)) = [1..<Suc (o_rev r)]"

definition history_ok :: "db \<Rightarrow> bool" where
  "history_ok d \<longleftrightarrow>
     distinct (map opkey (operations d)) \<and> distinct (map verkey (versions d)) \<and>
     (\<forall>r\<in>set (objects d). object_recorded d r) \<and>
     (\<forall>v\<in>set (versions d). version_owned d v) \<and>
     (\<forall>c\<in>set (changes d). change_recorded d c) \<and>
     (\<forall>u. map chg_cursor (changes_of_user d u) = [1..<Suc (last_cursor d u)])"

definition notes_have_blobs :: "obj_row list \<Rightarrow> bool" where
  "notes_have_blobs objs \<longleftrightarrow> (\<forall>r\<in>set objs. o_type r = ObjectNote \<longrightarrow> o_blob r \<noteq> None)"

definition sync_inv :: "db \<Rightarrow> bool" where
  "sync_inv d \<longleftrightarrow>
     objects_ok d \<and> notes_have_blobs (objects d) \<and> (\<forall>u. tree_ok d u) \<and> history_ok d"

lemma sync_inv_empty: "sync_inv empty_db"
  by (simp add: sync_inv_def empty_db_def objects_ok_def notes_have_blobs_def tree_ok_def
      history_ok_def parent_rel_def loadObject_def changes_of_user_def last_cursor_def acyclic_def)

section \<open>One object changes and its history is written\<close>

text \<open>
  The object table with the row \<open>r\<close> put in the place of the row with its key, or added when there
  was none; its revision follows on the old one.
\<close>

definition object_step :: "db \<Rightarrow> obj_row \<Rightarrow> obj_row list \<Rightarrow> bool" where
  "object_step d r objs \<longleftrightarrow>
     r \<in> set objs \<and>
     (\<forall>q\<in>set objs. q = r \<or> (q \<in> set (objects d) \<and> okey q \<noteq> okey r)) \<and>
     (\<forall>q\<in>set (objects d). okey q \<noteq> okey r \<longrightarrow> q \<in> set objs) \<and>
     o_rev r = (case loadObject d (o_user r) (o_id r) of None \<Rightarrow> 1 | Some q \<Rightarrow> Suc (o_rev q))"

definition with_object :: "db \<Rightarrow> obj_row \<Rightarrow> obj_row list \<Rightarrow> db" where
  "with_object d r objs =
     d\<lparr>objects := objs,
       counters := set_counter (o_user r) (Suc (last_cursor d (o_user r))) (counters d)\<rparr>"

lemma object_step_old:
  assumes "sync_inv d" "object_step d r objs" "q \<in> set (objects d)" "okey q = okey r"
  shows "o_rev r = Suc (o_rev q)"
proof -
  from assms(1,3) have "loadObject d (o_user q) (o_id q) = Some q"
    by (simp add: sync_inv_def loadObject_eq_iff)
  with assms(2,4) show ?thesis by (simp add: object_step_def okey_def)
qed

lemma object_step_changes:
  assumes "sync_inv d" "object_step d r objs"
  shows "map chg_rev (changes_of_object d (o_user r) (o_id r)) = [1..<o_rev r]"
proof (cases "loadObject d (o_user r) (o_id r)")
  case None
  have "changes_of_object d (o_user r) (o_id r) = []"
  proof (rule ccontr)
    assume "\<not> ?thesis"
    then obtain c where c: "c \<in> set (changes d)" "chg_user c = o_user r" "chg_object c = o_id r"
      by (auto simp: changes_of_object_def filter_empty_conv)
    with assms(1) obtain v where "v \<in> set (versions d)" "ver_user v = o_user r" "ver_object v = o_id r"
      by (auto simp: sync_inv_def history_ok_def change_recorded_def verkey_def)
    with assms(1) None show False
      unfolding sync_inv_def history_ok_def version_owned_def okey_def
      by (auto simp: loadObject_None_iff)
  qed
  with None assms(2) show ?thesis by (simp add: object_step_def)
next
  case (Some q)
  then have q: "q \<in> set (objects d)" "o_user q = o_user r" "o_id q = o_id r"
    by (auto dest: loadObject_SomeD)
  with assms(1) have "map chg_rev (changes_of_object d (o_user r) (o_id r)) = [1..<Suc (o_rev q)]"
    by (auto simp: sync_inv_def history_ok_def object_recorded_def)
  moreover have "o_rev r = Suc (o_rev q)"
    using Some assms(2) by (simp add: object_step_def)
  ultimately show ?thesis by simp
qed

lemma version_owned_step:
  assumes "sync_inv d" "object_step d r objs" "v \<in> set (versions d)"
  shows "\<exists>q\<in>set objs. okey q = (ver_user v, ver_object v) \<and> ver_rev v \<le> o_rev q"
proof -
  from assms(1,3) obtain q where q: "q \<in> set (objects d)" "okey q = (ver_user v, ver_object v)"
    "ver_rev v \<le> o_rev q" by (auto simp: sync_inv_def history_ok_def version_owned_def)
  show ?thesis
  proof (cases "okey q = okey r")
    case True
    with object_step_old [OF assms(1,2) q(1)] q assms(2) show ?thesis
      by (intro bexI [of _ r]) (auto simp: object_step_def)
  next
    case False
    with q assms(2) show ?thesis by (intro bexI [of _ q]) (auto simp: object_step_def)
  qed
qed

text \<open>The database after \<open>write_history\<close>, row by row.\<close>

lemma write_history_Inr_iff:
  "write_history a m hash now r cursor d = Inr d' \<longleftrightarrow>
     (let p = operation_row a m hash now (accepted_result (o_rev r) cursor);
          v = version_of r (m_operation m) now;
          c = change_of r cursor (m_operation m) (m_kind m) now;
          d1 = d\<lparr>operations := operations d @ [p]\<rparr>;
          d2 = d1\<lparr>versions := versions d1 @ [v]\<rparr>
      in operation_row_ok d p \<and> version_row_ok d1 v \<and> change_row_ok d2 c \<and>
         d' = d2\<lparr>changes := changes d2 @ [c]\<rparr>)"
  by (auto simp: write_history_def insertOperation_def rbind_Inr_iff Let_def statement_iffs)

lemma row_at_None_distinct:
  "distinct (map key t) \<Longrightarrow> row_at key t (key r) = None \<Longrightarrow> distinct (map key (t @ [r]))"
  by (auto simp: row_at_None_iff)

text \<open>Every accepted change keeps the invariant, once the object table is right.\<close>

lemma write_history_keeps:
  assumes inv: "sync_inv d" and step: "object_step d r objs"
    and ok: "objects_ok (d\<lparr>objects := objs\<rparr>)" "notes_have_blobs objs" "\<forall>u. tree_ok (d\<lparr>objects := objs\<rparr>) u"
    and actor: "a_user a = o_user r"
    and run: "write_history a m hash now r (Suc (last_cursor d (o_user r))) (with_object d r objs) = Inr d'"
  shows "sync_inv d'"
proof -
  let ?n = "Suc (last_cursor d (o_user r))"
  let ?p = "operation_row a m hash now (accepted_result (o_rev r) ?n)"
  let ?v = "version_of r (m_operation m) now"
  let ?c = "change_of r ?n (m_operation m) (m_kind m) now"
  let ?d0 = "with_object d r objs"
  have d': "d' = ?d0\<lparr>operations := operations d @ [?p], versions := versions d @ [?v],
      changes := changes d @ [?c]\<rparr>"
    and p: "operation_row_ok ?d0 ?p"
    and v: "version_row_ok (?d0\<lparr>operations := operations d @ [?p]\<rparr>) ?v"
    using run by (auto simp: write_history_Inr_iff Let_def with_object_def)
  have hist: "history_ok d" using inv by (simp add: sync_inv_def)
  have "distinct (map opkey (operations d'))"
    using hist p row_at_None_distinct [of opkey "operations d" ?p]
    by (simp add: d' history_ok_def operation_row_ok_def operation_at_def with_object_def opkey_def
        operation_row_def)
  moreover have "distinct (map verkey (versions d'))"
    using hist v row_at_None_distinct [of verkey "versions d" ?v]
    by (simp add: d' history_ok_def version_row_ok_def version_at_def with_object_def verkey_def)
  moreover have "object_recorded d' q" if "q \<in> set (objects d')" for q
  proof (cases "q = r")
    case True
    have "changes_of_object d' (o_user r) (o_id r) = changes_of_object d (o_user r) (o_id r) @ [?c]"
      by (simp add: d' changes_of_object_def change_of_def)
    then have "map chg_rev (changes_of_object d' (o_user r) (o_id r)) = [1..<o_rev r] @ [o_rev r]"
      using object_step_changes [OF inv step] by (simp add: change_of_def)
    moreover have "1 \<le> o_rev r" using step by (auto simp: object_step_def split: option.splits)
    moreover have "version_matches ?v r" by (simp add: version_matches_def version_of_def verkey_def)
    ultimately show ?thesis by (auto simp: object_recorded_def True d')
  next
    case False
    with that step have q: "q \<in> set (objects d)" "okey q \<noteq> okey r"
      by (auto simp: d' with_object_def object_step_def)
    then have "changes_of_object d' (o_user q) (o_id q) = changes_of_object d (o_user q) (o_id q)"
      by (auto simp: d' changes_of_object_def change_of_def okey_def)
    moreover have "object_recorded d q" using hist q(1) by (simp add: history_ok_def)
    ultimately show ?thesis by (auto simp: object_recorded_def d')
  qed
  moreover have "version_owned d' w" if "w \<in> set (versions d')" for w
  proof (cases "w = ?v")
    case True
    then show ?thesis using step
      by (auto simp: version_owned_def d' with_object_def object_step_def version_of_def okey_def)
  next
    case False
    with that have "w \<in> set (versions d)" by (simp add: d')
    from version_owned_step [OF inv step this] show ?thesis
      by (simp add: version_owned_def d' with_object_def)
  qed
  moreover have "change_recorded d' e" if "e \<in> set (changes d')" for e
  proof (cases "e = ?c")
    case True
    then show ?thesis using actor
      by (simp add: change_recorded_def d' change_of_def version_of_def verkey_def opkey_def operation_row_def)
  next
    case False
    with that have "e \<in> set (changes d)" by (simp add: d')
    with hist show ?thesis by (auto simp: history_ok_def change_recorded_def d')
  qed
  moreover have "map chg_cursor (changes_of_user d' u) = [1..<Suc (last_cursor d' u)]" for u
  proof -
    have "last_cursor d' u = (if u = o_user r then ?n else last_cursor d u)"
      by (simp add: d' with_object_def last_cursor_def map_of_set_counter)
    with hist show ?thesis
      by (simp add: history_ok_def changes_of_user_def d' with_object_def change_of_def)
  qed
  ultimately have "history_ok d'" by (simp add: history_ok_def)
  with ok show ?thesis by (simp add: sync_inv_def d' with_object_def)
qed

section \<open>The two object steps\<close>

lemma create_object_step:
  assumes "loadObject d (o_user r) (o_id r) = None" "o_rev r = 1"
  shows "object_step d r (objects d @ [r])"
proof -
  have "\<forall>q\<in>set (objects d). okey q \<noteq> okey r"
    using assms(1) by (auto simp: loadObject_None_iff okey_def)
  with assms show ?thesis by (auto simp: object_step_def)
qed

lemma update_object_step:
  assumes ok: "objects_ok d" and cur: "loadObject d u i = Some cur"
    and hits: "\<And>q. P q \<Longrightarrow> okey q = (u, i)" "P cur"
    and next_def: "next = f cur" and key: "okey next = (u, i)" and rev: "o_rev next = Suc (o_rev cur)"
  shows "object_step d next (update_rows P f (objects d))"
proof -
  have cur': "cur \<in> set (objects d)" "okey cur = (u, i)"
    using cur by (auto dest: loadObject_SomeD simp: okey_def)
  have unique: "q = cur" if "q \<in> set (objects d)" "okey q = (u, i)" for q
    using that ok cur by (auto simp: okey_def dest: loadObject_eq_iff [of d u i q])
  have "o_user next = u" "o_id next = i" using key by (auto simp: okey_def)
  with cur have "loadObject d (o_user next) (o_id next) = Some cur" by simp
  moreover have "next \<in> set (update_rows P f (objects d))"
    using cur'(1) hits(2) by (force simp: set_update_rows next_def)
  moreover have "q = next \<or> (q \<in> set (objects d) \<and> okey q \<noteq> okey next)"
    if q: "q \<in> set (update_rows P f (objects d))" for q
  proof -
    from q obtain s where s: "s \<in> set (objects d)" "q = (if P s then f s else s)"
      by (auto simp: set_update_rows)
    show ?thesis
    proof (cases "okey s = (u, i)")
      case True
      with unique s(1) have "s = cur" by simp
      with s hits(2) next_def show ?thesis by simp
    next
      case False
      with hits s have "q = s" by auto
      with False s key show ?thesis by simp
    qed
  qed
  moreover have "q \<in> set (update_rows P f (objects d))"
    if "q \<in> set (objects d)" "okey q \<noteq> okey next" for q
  proof -
    have "\<not> P q" using hits key that by auto
    then show ?thesis using that(1) by (force simp: set_update_rows)
  qed
  ultimately show ?thesis using rev by (auto simp: object_step_def)
qed

lemma notes_have_blobs_append:
  "notes_have_blobs objs \<Longrightarrow> (o_type r = ObjectNote \<Longrightarrow> o_blob r \<noteq> None) \<Longrightarrow>
     notes_have_blobs (objs @ [r])"
  by (auto simp: notes_have_blobs_def)

lemma notes_have_blobs_update:
  "notes_have_blobs objs \<Longrightarrow>
     (\<And>q. q \<in> set objs \<Longrightarrow> P q \<Longrightarrow> o_type (f q) = ObjectNote \<Longrightarrow> o_blob (f q) \<noteq> None) \<Longrightarrow>
     notes_have_blobs (update_rows P f objs)"
  by (auto simp: notes_have_blobs_def set_update_rows)

text \<open>A row that only adds to the operations keeps the invariant: a stored conflict.\<close>

lemma insertOperation_keeps:
  assumes "sync_inv d" and "insertOperation a m hash now result d = Inr d'"
  shows "sync_inv d'"
proof -
  let ?p = "operation_row a m hash now result"
  from assms(2) have d': "d' = d\<lparr>operations := operations d @ [?p]\<rparr>" and p: "operation_row_ok d ?p"
    by (auto simp: insertOperation_def statement_iffs)
  have "distinct (map opkey (operations d'))"
    using assms(1) p row_at_None_distinct [of opkey "operations d" ?p]
    by (simp add: d' sync_inv_def history_ok_def operation_row_ok_def operation_at_def opkey_def
        operation_row_def)
  with assms(1) show ?thesis
    by (auto simp: sync_inv_def history_ok_def d' object_recorded_def changes_of_object_def
        version_owned_def change_recorded_def changes_of_user_def)
qed

section \<open>Creating an object\<close>

text \<open>An inserted row, its cursor and its history, in any order of insertion and allocation.\<close>

lemma create_keeps:
  assumes inv: "sync_inv d" and r: "r = created_row (a_user a) m now"
    and fresh: "loadObject d (a_user a) (m_object m) = None"
    and parent: "parent_available d (a_user a) (m_parent m)"
    and blob: "m_type m = ObjectNote \<Longrightarrow> m_blob m \<noteq> []"
    and ok: "objects_ok (d\<lparr>objects := objects d @ [r]\<rparr>)"
    and run: "write_history a m hash now r (Suc (last_cursor d (a_user a)))
      (with_object d r (objects d @ [r])) = Inr d'"
  shows "sync_inv d'"
proof (rule write_history_keeps [OF inv _ ok])
  have [simp]: "o_user r = a_user a" "o_id r = m_object m" "o_rev r = 1" "o_parent r = m_parent m"
    "o_type r = m_type m" "o_blob r = nullableBytes (m_blob m)" "o_deleted r = False"
    by (simp_all add: r created_row_def)
  show "object_step d r (objects d @ [r])"
    by (rule create_object_step) (simp_all add: fresh)
  show "notes_have_blobs (objects d @ [r])"
    using inv blob by (auto simp: sync_inv_def nullableBytes_def intro: notes_have_blobs_append)
  show "\<forall>u. tree_ok (d\<lparr>objects := objects d @ [r]\<rparr>) u"
    using inv fresh parent by (auto simp: sync_inv_def intro: tree_ok_insert)
  show "a_user a = o_user r" by simp
  show "write_history a m hash now r (Suc (last_cursor d (o_user r)))
      (with_object d r (objects d @ [r])) = Inr d'"
    using run by simp
qed

section \<open>The reserved folders\<close>

lemma ensure_reserved_folder_keeps:
  assumes inv: "sync_inv d"
    and parent: "parent_available d (a_user a) (f_parent f)"
    and run: "ensure_reserved_folder x a now f (d, fresh) = Inr (d', fresh')"
  shows "sync_inv d' \<and> parent_available d' (a_user a) (Some (f_id f))"
proof (cases "loadObject d (a_user a) (f_id f)")
  case (Some r)
  with run inv show ?thesis
    by (auto simp: ensure_reserved_folder_def parent_available_def split: if_splits)
next
  case None
  from run None obtain name key operation cursor d1 d2 where
    name: "normalizeName x (f_name f) = Inr (name, key)" and
    fresh: "fresh = operation # fresh'" and
    alloc: "allocateCursor (a_user a) d = Inr (cursor, d1)" and
    ins: "insert_object (created_row (a_user a) (reserved_intent f operation name key) now) d1 = Inr d2" and
    hist: "write_history a (reserved_intent f operation name key) (x_sha256 x (f_seed f)) now
      (created_row (a_user a) (reserved_intent f operation name key) now) cursor d2 = Inr d'"
    by (cases fresh) (auto simp: ensure_reserved_folder_def rbind_Inr_iff Let_def)
  let ?m = "reserved_intent f operation name key"
  let ?r = "created_row (a_user a) ?m now"
  from alloc have cursor: "cursor = Suc (last_cursor d (a_user a))"
    and d1: "d1 = d\<lparr>counters := set_counter (a_user a) cursor (counters d)\<rparr>"
    by (auto simp: statement_iffs)
  have u: "o_user ?r = a_user a" by (simp add: created_row_def)
  from ins have d2: "d2 = with_object d ?r (objects d @ [?r])" and ok: "objects_ok d2"
    by (auto simp: statement_iffs d1 with_object_def u cursor)
  from ok have ok': "objects_ok (d\<lparr>objects := objects d @ [?r]\<rparr>)"
    by (simp add: d2 with_object_def)
  have "sync_inv d'"
  proof (rule create_keeps [OF inv refl _ _ _ ok'])
    show "loadObject d (a_user a) (m_object ?m) = None" using None by (simp add: reserved_intent_def)
    show "parent_available d (a_user a) (m_parent ?m)" using parent by (simp add: reserved_intent_def)
    show "m_type ?m = ObjectNote \<Longrightarrow> m_blob ?m \<noteq> []" by (simp add: reserved_intent_def)
    show "write_history a ?m (x_sha256 x (f_seed f)) now ?r (Suc (last_cursor d (a_user a)))
      (with_object d ?r (objects d @ [?r])) = Inr d'"
      using hist by (simp add: cursor d2)
  qed
  moreover have "loadObject d' (a_user a) (f_id f) = Some ?r"
  proof -
    have "loadObject d' = loadObject d2"
      using hist by (auto simp: write_history_Inr_iff Let_def)
    then show ?thesis
      using None by (simp add: d2 with_object_def loadObject_append created_row_def okey_def
          reserved_intent_def)
  qed
  then have "parent_available d' (a_user a) (Some (f_id f))"
    by (simp add: parent_available_def created_row_def reserved_intent_def)
  ultimately show ?thesis ..
qed

lemma ensureConflictNamespace_keeps:
  assumes "sync_inv d" and "ensureConflictNamespace x a now (d, fresh) = Inr (d', fresh')"
  shows "sync_inv d' \<and> parent_available d' (a_user a) (Some ConflictRecoveredID)"
proof -
  let ?root = "reserved_folders ! 0" and ?rec = "reserved_folders ! Suc 0"
  from assms(2) obtain d1 fr1 where
    1: "ensure_reserved_folder x a now ?root (d, fresh) = Inr (d1, fr1)" and
    2: "ensure_reserved_folder x a now ?rec (d1, fr1) = Inr (d', fresh')"
    by (auto simp: ensureConflictNamespace_def reserved_folders_def rbind_Inr_iff)
  have ids: "f_parent ?root = None" "f_id ?root = ConflictRootID"
    "f_parent ?rec = Some ConflictRootID" "f_id ?rec = ConflictRecoveredID"
    by (simp_all add: reserved_folders_def)
  from ensure_reserved_folder_keeps [OF assms(1) _ 1]
  have "sync_inv d1" "parent_available d1 (a_user a) (Some ConflictRootID)"
    by (simp_all add: ids parent_available_def [of d])
  with ensure_reserved_folder_keeps [OF _ _ 2] show ?thesis by (simp add: ids)
qed

end
