(* ===== verification/Sync_Submit.thy ===== *)
theory Sync_Submit
  imports Sync_Invariant
begin

text \<open>
  What a submission does: the canonical form keeps the request's fields, the evaluation without a
  conflict guarantees what the object tables need, and every outcome of \<open>Submit\<close> (accepted, stored
  conflict, replay, error) keeps the invariant of \<open>Sync_Invariant\<close>.
\<close>

section \<open>The canonical form\<close>

lemma as_intent_simps [simp]:
  "m_operation (as_intent m name key) = m_operation m"
  "m_kind (as_intent m name key) = m_kind m"
  "m_object (as_intent m name key) = m_object m"
  "m_type (as_intent m name key) = m_type m"
  "m_base (as_intent m name key) = m_base m"
  "m_parent (as_intent m name key) = m_parent m"
  "m_name (as_intent m name key) = name"
  "m_blob (as_intent m name key) = m_blob m"
  "i_key (as_intent m name key) = key"
  by (simp_all add: as_intent_def mutation.extend_def intent.fields_def)

lemma mutation_shape_InrD:
  assumes "mutation_shape x q = Inr m"
  shows "m_operation m = m_operation q \<and> m_kind m = m_kind q \<and> m_object m = m_object q \<and>
    m_type m = m_type q \<and> m_base m = m_base q \<and> m_parent m = m_parent q \<and> m_blob m = m_blob q \<and>
    known_kind (m_kind q) \<and>
    (m_kind q = MutationCreate \<longleftrightarrow> m_base q = 0) \<and> (m_kind q = MutationUpdate \<longrightarrow> m_type q = ObjectNote) \<and>
    (if m_kind q = MutationCreate \<or> m_kind q = MutationMove
     then normalizeName x (m_name q) = Inr (m_name m, i_key m)
     else m_name q = '''' \<and> m_name m = '''' \<and> i_key m = '''' \<and> m_parent q = None) \<and>
    (m_kind q = MutationMove \<or> m_kind q = MutationDelete \<longrightarrow> m_blob q = [])"
  using assms
  by (cases "m_kind q")
    (auto simp: mutation_shape_def known_kind_def rbind_Inr_iff split: if_splits)

lemma canonicalize_InrD:
  assumes "canonicalize x q = Inr (m, h)"
  shows "mutation_shape x q = Inr m" "h = x_sha256 x (canonical_json x m)"
    "validV7 x (m_operation q)" "validObjectID x (m_object q)"
    "\<not> isReservedConflictFolder (m_object q)" "known_type (m_type q)"
    "\<And>p. m_parent q = Some p \<Longrightarrow> validObjectID x p"
    "m_kind q = MutationCreate \<or> m_kind q = MutationUpdate \<Longrightarrow>
       length (m_blob q) = (if m_type q = ObjectNote then 32 else 0)"
  using assms
  by (auto simp: canonicalize_def rbind_Inr_iff known_type_def split: if_splits option.splits)

text \<open>The fields of an accepted request, as the later steps read them.\<close>

definition intent_ok :: "intent \<Rightarrow> bool" where
  "intent_ok m \<longleftrightarrow>
     known_kind (m_kind m) \<and> known_type (m_type m) \<and>
     (m_kind m = MutationUpdate \<longrightarrow> m_type m = ObjectNote) \<and>
     (m_kind m = MutationCreate \<or> m_kind m = MutationUpdate \<longrightarrow>
        length (m_blob m) = (if m_type m = ObjectNote then 32 else 0))"

lemma canonicalize_intent_ok: "canonicalize x q = Inr (m, h) \<Longrightarrow> intent_ok m"
  using mutation_shape_InrD [of x q m] canonicalize_InrD [of x q m h]
  by (auto simp: intent_ok_def)

section \<open>What an evaluation without conflict guarantees\<close>

lemma evaluate_None_iff:
  "evaluate x d u m cur = Inr None \<longleftrightarrow>
     object_conflict m cur = None \<and>
     (m_kind m = MutationCreate \<or> m_kind m = MutationMove \<longrightarrow> place_conflict x d u m cur = Inr None) \<and>
     \<not> (m_kind m = MutationDelete \<and>
        (\<exists>r. cur = Some r \<and> o_type r = ObjectFolder \<and> has_active_child d u (o_id r)))"
  by (auto simp: evaluate_def rbind_Inr_iff split: option.split)

lemma object_conflict_None_create:
  "m_kind m = MutationCreate \<Longrightarrow> object_conflict m cur = None \<longleftrightarrow> cur = None"
  by (simp add: object_conflict_def)

lemma object_conflict_None_other:
  "m_kind m \<noteq> MutationCreate \<Longrightarrow> object_conflict m cur = None \<longleftrightarrow>
     (\<exists>r. cur = Some r \<and> \<not> o_deleted r \<and> o_type r = m_type m \<and> o_rev r = m_base m)"
  by (auto simp: object_conflict_def split: option.split)

lemma place_conflict_NoneD:
  assumes "place_conflict x d u m cur = Inr None"
  shows "parent_available d u (m_parent m)" "\<not> path_taken d u (m_parent m) (i_key m) (m_object m)"
    "validateTargetPath x d u m cur = Inr ()"
    "\<And>p r. m_parent m = Some p \<Longrightarrow> cur = Some r \<Longrightarrow> m_kind m = MutationMove \<Longrightarrow> o_type r = ObjectFolder \<Longrightarrow>
      (p, o_id r) \<notin> (parent_rel d u)\<^sup>*"
  using assms
  by (auto simp: place_conflict_def rbind_Inr_iff moves_folder_def folderCycle_def
      dest: folder_cycle_steps_sound split: if_splits option.splits)

section \<open>An accepted mutation\<close>

lemma loadObject_update_single:
  assumes ok: "objects_ok d" and cur: "loadObject d u i = Some cur"
    and hits: "\<And>q. P q \<Longrightarrow> okey q = (u, i)" "P cur" and key: "\<And>q. okey (f q) = okey q"
  shows "loadObject (d\<lparr>objects := update_rows P f (objects d)\<rparr>) u = (loadObject d u)(i \<mapsto> f cur)"
proof
  fix j
  show "loadObject (d\<lparr>objects := update_rows P f (objects d)\<rparr>) u j = ((loadObject d u)(i \<mapsto> f cur)) j"
  proof (cases "j = i")
    case True
    then show ?thesis using cur hits(2) by (simp add: loadObject_update key)
  next
    case False
    have "\<not> P q" if "loadObject d u j = Some q" for q
      using that False hits(1) [of q] by (auto dest: loadObject_SomeD simp: okey_def)
    then show ?thesis
      using False by (cases "loadObject d u j") (auto simp: loadObject_update key)
  qed
qed

lemma loadObject_update_other:
  assumes hits: "\<And>q. P q \<Longrightarrow> o_user q = u" and key: "\<And>q. okey (f q) = okey q" and "v \<noteq> u"
  shows "loadObject (d\<lparr>objects := update_rows P f (objects d)\<rparr>) v = loadObject d v"
proof
  fix j
  have "\<not> P q" if "loadObject d v j = Some q" for q
    using that assms(3) by (auto dest: loadObject_SomeD hits)
  then show "loadObject (d\<lparr>objects := update_rows P f (objects d)\<rparr>) v j = loadObject d v j"
    by (cases "loadObject d v j") (auto simp: loadObject_update key)
qed

text \<open>
  An update of the current row of an object, in the form every writer of the code has it: the new
  row keeps the key, its revision follows on, and it satisfies \<open>replacement_ok\<close>.
\<close>

lemma update_keeps:
  assumes inv: "sync_inv d" and cur: "loadObject d (a_user a) i = Some cur"
    and hits: "\<And>q. P q \<Longrightarrow> okey q = (a_user a, i)" "P cur" and key: "\<And>q. okey (f q) = okey q"
    and rev: "o_rev (f cur) = Suc (o_rev cur)"
    and repl: "replacement_ok d (a_user a) i cur (f cur)"
    and blob: "o_type (f cur) = ObjectNote \<Longrightarrow> o_blob (f cur) \<noteq> None"
    and ok: "objects_ok (d\<lparr>objects := update_rows P f (objects d)\<rparr>)"
    and run: "write_history a m hash now (f cur) (Suc (last_cursor d (a_user a)))
      (with_object d (f cur) (update_rows P f (objects d))) = Inr d'"
  shows "sync_inv d'"
proof (rule write_history_keeps [OF inv _ ok])
  have objs: "objects_ok d" using inv by (simp add: sync_inv_def)
  have cur': "okey cur = (a_user a, i)" using cur by (auto dest: loadObject_SomeD simp: okey_def)
  then have key': "okey (f cur) = (a_user a, i)" by (simp add: key)
  then have user [simp]: "o_user (f cur) = a_user a" by (simp add: okey_def)
  have unique: "q = cur" if "q \<in> set (objects d)" "P q" for q
  proof -
    from hits(1) [OF that(2)] that(1) objs have "loadObject d (a_user a) i = Some q"
      by (simp add: okey_def loadObject_eq_iff)
    with cur show ?thesis by simp
  qed
  show "object_step d (f cur) (update_rows P f (objects d))"
    by (rule update_object_step [where P = P and f = f and cur = cur, OF objs cur hits refl key' rev])
  show "notes_have_blobs (update_rows P f (objects d))"
    using inv blob unique by (auto simp: sync_inv_def intro!: notes_have_blobs_update)
  show "\<forall>u. tree_ok (d\<lparr>objects := update_rows P f (objects d)\<rparr>) u"
  proof
    fix u
    show "tree_ok (d\<lparr>objects := update_rows P f (objects d)\<rparr>) u"
    proof (cases "u = a_user a")
      case True
      with inv show ?thesis
        using tree_ok_replace [OF _ cur loadObject_update_single [where P = P and f = f, OF objs cur hits key] repl]
        by (simp add: sync_inv_def)
    next
      case False
      have "\<And>q. P q \<Longrightarrow> o_user q = a_user a" using hits(1) by (simp add: okey_def)
      from loadObject_update_other [OF this key False] inv show ?thesis
        by (auto simp: sync_inv_def intro: tree_ok_other)
    qed
  qed
  show "a_user a = o_user (f cur)" by simp
  show "write_history a m hash now (f cur) (Suc (last_cursor d (o_user (f cur))))
      (with_object d (f cur) (update_rows P f (objects d))) = Inr d'"
    using run by simp
qed

text \<open>The row \<open>replace_object\<close> leaves is the next row itself.\<close>

definition replaced :: "obj_row \<Rightarrow> obj_row \<Rightarrow> obj_row" where
  "replaced next r = r\<lparr>o_rev := o_rev next, o_parent := o_parent next, o_name := o_name next,
     o_key := o_key next, o_blob := o_blob next, o_deleted := o_deleted next,
     o_updated := o_updated next\<rparr>"

lemma okey_replaced [simp]: "okey (replaced next r) = okey r"
  by (simp add: replaced_def okey_def)

lemma replaced_next_row [simp]: "replaced (next_row m now cur) cur = next_row m now cur"
  by (cases cur) (simp add: replaced_def next_row_def Let_def split: mutation_kind.split)

lemma replace_object_eq:
  "replace_object cur next d = update_objects (is_current cur) (replaced next) d"
  by (simp add: replace_object_def replaced_def [abs_def])

lemma next_row_simps [simp]:
  "o_user (next_row m now r) = o_user r" "o_id (next_row m now r) = o_id r"
  "o_type (next_row m now r) = o_type r" "o_rev (next_row m now r) = Suc (o_rev r)"
  "okey (next_row m now r) = okey r"
  by (simp_all add: next_row_def Let_def okey_def split: mutation_kind.split)

lemma next_row_deleted: "o_deleted (next_row m now r) \<longleftrightarrow> o_deleted r \<or> m_kind m = MutationDelete"
  by (simp add: next_row_def Let_def split: mutation_kind.split)

lemma next_row_parent:
  "o_parent (next_row m now r) = (if m_kind m = MutationMove then m_parent m else o_parent r)"
  by (simp add: next_row_def Let_def split: mutation_kind.split)

lemma next_row_blob:
  "o_blob (next_row m now r) = (if m_kind m = MutationUpdate then nullableBytes (m_blob m) else o_blob r)"
  by (simp add: next_row_def Let_def split: mutation_kind.split)

lemma next_row_replacement_ok:
  assumes cur: "loadObject d u (m_object m) = Some r" "\<not> o_deleted r"
    and eval: "evaluate x d u m (Some r) = Inr None"
    and kind: "intent_ok m" "m_kind m \<noteq> MutationCreate" and tree: "tree_ok d u"
  shows "replacement_ok d u (m_object m) r (next_row m now r)"
proof -
  have id: "o_id r = m_object m" using cur(1) by (auto dest: loadObject_SomeD)
  have no_child: "o_deleted q" if "loadObject d u j = Some q" "o_parent q = Some (m_object m)"
    "m_kind m = MutationDelete" for j q
  proof (rule ccontr)
    assume q: "\<not> o_deleted q"
    with that have "has_active_child d u (m_object m)"
      by (auto simp: has_active_child_def list_ex_iff dest: loadObject_SomeD)
    moreover have "o_type r = ObjectFolder"
      using tree that(1,2) cur(1) by (metis option.inject tree_ok_parentD)
    ultimately show False using eval that(3) id by (auto simp: evaluate_None_iff)
  qed
  have move: "place_conflict x d u m (Some r) = Inr None" if "m_kind m = MutationMove"
    using eval that by (simp add: evaluate_None_iff)
  have no_cycle: "(p, m_object m) \<notin> (parent_rel d u)\<^sup>*"
    if "m_kind m = MutationMove" "o_type r = ObjectFolder" "m_parent m = Some p" for p
    using place_conflict_NoneD(4) [OF move [OF that(1)] that(3) refl that(1,2)] id by simp
  show ?thesis
    using no_child no_cycle cur(2) place_conflict_NoneD(1) [OF move]
    by (auto simp: replacement_ok_def next_row_deleted next_row_parent)
qed

lemma submit_accepted_keeps:
  assumes inv: "sync_inv d" and ok: "intent_ok m"
    and eval: "evaluate x d (a_user a) m current = Inr None"
    and current: "current = loadObject d (a_user a) (m_object m)"
    and run: "submit_accepted a now m hash current d = Inr (res, d')"
  shows "sync_inv d'"
proof (cases "m_kind m = MutationCreate")
  case True
  with eval have none: "current = None" and place: "place_conflict x d (a_user a) m None = Inr None"
    by (auto simp: evaluate_None_iff object_conflict_None_create)
  let ?r = "created_row (a_user a) m now"
  from run True have hist: "write_history a m hash now ?r (Suc (last_cursor d (a_user a)))
      (with_object d ?r (objects d @ [?r])) = Inr d'"
    and objs: "objects_ok (d\<lparr>objects := objects d @ [?r]\<rparr>)"
    by (auto simp: submit_accepted_def mutate_object_def rbind_Inr_iff Let_def statement_iffs
        with_object_def created_row_def)
  have "m_type m = ObjectNote \<Longrightarrow> m_blob m \<noteq> []" using ok True by (auto simp: intent_ok_def)
  from create_keeps [OF inv refl _ _ this objs hist] show ?thesis
    using none current place_conflict_NoneD(1) [OF place] by simp
next
  case False
  with eval obtain cur where cur: "current = Some cur" "\<not> o_deleted cur" "o_type cur = m_type m"
    by (auto simp: evaluate_None_iff object_conflict_None_other)
  let ?next = "next_row m now cur" and ?P = "is_current cur"
  have id: "o_user cur = a_user a" "o_id cur = m_object m"
    using cur(1) current loadObject_SomeD [of d "a_user a" "m_object m" cur] by simp_all
  from run False cur(1) have
    hist: "write_history a m hash now ?next (Suc (last_cursor d (a_user a)))
      (with_object d ?next (update_rows ?P (replaced ?next) (objects d))) = Inr d'"
    and objs: "objects_ok (d\<lparr>objects := update_rows ?P (replaced ?next) (objects d)\<rparr>)"
    by (auto simp: submit_accepted_def mutate_object_def rbind_Inr_iff Let_def statement_iffs
        with_object_def replace_object_eq id split: if_splits)
  show ?thesis
  proof (rule update_keeps [where P = ?P and f = "replaced ?next" and cur = cur, OF inv])
    show load: "loadObject d (a_user a) (m_object m) = Some cur" using cur(1) current by simp
    show "okey q = (a_user a, m_object m)" if "is_current cur q" for q
      using that id by (simp add: is_current_def okey_def)
    show "is_current cur cur" using cur(2) by (simp add: is_current_def)
    show "replacement_ok d (a_user a) (m_object m) cur (replaced ?next cur)"
      using next_row_replacement_ok [OF load cur(2) _ ok False] eval cur(1) inv
      by (auto simp: sync_inv_def)
    show "o_blob (replaced ?next cur) \<noteq> None" if "o_type (replaced ?next cur) = ObjectNote"
    proof -
      from that have nt: "o_type cur = ObjectNote" by simp
      with inv load have "o_blob cur \<noteq> None"
        using loadObject_SomeD [OF load] by (simp add: sync_inv_def notes_have_blobs_def)
      with nt ok cur(3) show ?thesis
        by (auto simp: next_row_blob intent_ok_def nullableBytes_def)
    qed
    show "write_history a m hash now (replaced ?next cur) (Suc (last_cursor d (a_user a)))
      (with_object d (replaced ?next cur) (update_rows ?P (replaced ?next) (objects d))) = Inr d'"
      using hist by simp
  qed (use objs in simp_all)
qed

section \<open>A conflict, and the whole submission\<close>

lemma submit_conflict_Inr_iff:
  "submit_conflict x a now fresh m hash c current d = Inr (res, d') \<longleftrightarrow>
     res = conflict_result c (map_option canonicalState current) \<and>
     (\<exists>d1 fresh1. ensureConflictNamespace x a now (d, fresh) = Inr (d1, fresh1) \<and>
        insertOperation a m hash now res d1 = Inr d')"
  by (auto simp: submit_conflict_def rbind_Inr_iff Let_def)

lemma submit_conflict_keeps:
  assumes "sync_inv d" "submit_conflict x a now fresh m hash c current d = Inr (res, d')"
  shows "sync_inv d'"
proof -
  from assms(2) obtain d1 fresh1 where
    "ensureConflictNamespace x a now (d, fresh) = Inr (d1, fresh1)"
    "insertOperation a m hash now res d1 = Inr d'"
    by (auto simp: submit_conflict_Inr_iff)
  with assms(1) show ?thesis
    by (blast dest: ensureConflictNamespace_keeps insertOperation_keeps)
qed

text \<open>The three ways a submission succeeds.\<close>

lemma submit_tx_cases [consumes 1, case_names replayed conflict accepted]:
  assumes run: "submit_tx x a now fresh q d = Inr (res, d')"
  obtains
    m hash where "canonicalize x q = Inr (m, hash)" "requireActiveActor a d = Inr ()"
      "replay a d (m_operation m) hash = Inr (Some res)" "d' = d"
  | m hash c where "canonicalize x q = Inr (m, hash)" "requireActiveActor a d = Inr ()"
      "replay a d (m_operation m) hash = Inr None"
      "evaluate x d (a_user a) m (loadObject d (a_user a) (m_object m)) = Inr (Some c)"
      "submit_conflict x a now fresh m hash c (loadObject d (a_user a) (m_object m)) d = Inr (res, d')"
  | m hash where "canonicalize x q = Inr (m, hash)" "requireActiveActor a d = Inr ()"
      "replay a d (m_operation m) hash = Inr None"
      "evaluate x d (a_user a) m (loadObject d (a_user a) (m_object m)) = Inr None"
      "submit_accepted a now m hash (loadObject d (a_user a) (m_object m)) d = Inr (res, d')"
proof -
  from run obtain m hash found where can: "canonicalize x q = Inr (m, hash)"
    and act: "requireActiveActor a d = Inr ()" and rep: "replay a d (m_operation m) hash = Inr found"
    by (auto simp: submit_tx_def rbind_Inr_iff)
  let ?cur = "loadObject d (a_user a) (m_object m)"
  show thesis
  proof (cases found)
    case (Some r)
    with run can act rep have "r = res \<and> d' = d" by (simp add: submit_tx_def)
    with Some can act rep show thesis using that(1) by blast
  next
    case None
    with run can act rep obtain code where eval: "evaluate x d (a_user a) m ?cur = Inr code"
      by (auto simp: submit_tx_def rbind_Inr_iff Let_def split: if_splits)
    from run can act rep None eval
    have "(case code of Some c \<Rightarrow> submit_conflict x a now fresh m hash c ?cur d
        | None \<Rightarrow> submit_accepted a now m hash ?cur d) = Inr (res, d')"
      by (simp add: submit_tx_def Let_def split: if_splits)
    with can act rep None eval that(2,3) show thesis by (cases code) auto
  qed
qed

lemma submit_tx_keeps:
  assumes "sync_inv d" "submit_tx x a now fresh q d = Inr (res, d')"
  shows "sync_inv d'"
  using assms(2)
proof (cases rule: submit_tx_cases)
  case (conflict m hash c)
  with assms(1) show ?thesis by (auto intro: submit_conflict_keeps)
next
  case (accepted m hash)
  with assms(1) show ?thesis by (auto intro: submit_accepted_keeps dest: canonicalize_intent_ok)
qed (use assms(1) in simp)

lemma Submit_keeps: "sync_inv d \<Longrightarrow> sync_inv (snd (Submit x a now fresh q d))"
  using submit_tx_keeps by (fastforce simp: Submit_def run_tx_def split: sum.split prod.split)

end
