(* ===== verification/Sync_Outcome.thy ===== *)
theory Sync_Outcome
  imports Sync_Submit "HOL-Library.Sublist"
begin

text \<open>
  The result of a submission: what an accepted mutation returns and writes, that a stored operation
  reads back as the result it was stored for, which rows a submission may touch (only those of the
  actor's account, and the history only at its end), and when an accepted submission cannot fail.
\<close>

section \<open>Reading a stored result back\<close>

lemma stored_accepted [simp]:
  "stored_result (operation_row a m hash now (accepted_result n c)) = accepted_result n c"
  by (simp add: stored_result_def operation_row_def accepted_result_def)

lemma stored_conflict [simp]:
  "stored_result (operation_row a m hash now (conflict_result c (map_option canonicalState r))) =
     conflict_result c (map_option canonicalState r)"
  by (cases r) (simp_all add: stored_result_def operation_row_def conflict_result_def canonicalState_def)

lemma operation_at_append:
  "operation_at (d\<lparr>operations := operations d @ [p]\<rparr>) u i =
     (case operation_at d u i of None \<Rightarrow> if opkey p = (u, i) then Some p else None | Some q \<Rightarrow> Some q)"
  by (simp add: operation_at_def table_simps split: option.split)

text \<open>A successful submission leaves the row of its operation behind, which reads back as its result.\<close>

definition stores_result :: "actor \<Rightarrow> intent \<Rightarrow> string \<Rightarrow> submit_result \<Rightarrow> db \<Rightarrow> bool" where
  "stores_result a m hash res d \<longleftrightarrow>
     (\<exists>p. operation_at d (a_user a) (m_operation m) = Some p \<and> length (op_hash p) = 32 \<and>
        op_hash p = hash \<and> stored_result p = res)"

lemma replay_stored:
  "stores_result a m hash res d \<longleftrightarrow> replay a d (m_operation m) hash = Inr (Some res)"
  by (auto simp: stores_result_def replay_def split: option.split if_splits)

lemma insertOperation_stores:
  assumes "insertOperation a m hash now res d = Inr d'"
    and "stored_result (operation_row a m hash now res) = res"
  shows "stores_result a m hash res d'"
  using assms
  by (auto simp: insertOperation_def statement_iffs stores_result_def operation_at_append
      operation_row_ok_def operation_row_def opkey_def)

lemma write_history_stores:
  assumes "write_history a m hash now r cursor d = Inr d'"
  shows "stores_result a m hash (accepted_result (o_rev r) cursor) d'"
proof -
  from assms obtain d1 where 1: "insertOperation a m hash now (accepted_result (o_rev r) cursor) d = Inr d1"
    and 2: "operations d' = operations d1"
    by (auto simp: write_history_def rbind_Inr_iff statement_iffs)
  from insertOperation_stores [OF 1] 2 show ?thesis
    by (simp add: stores_result_def operation_at_def)
qed

text \<open>The result of an accepted mutation, written out.\<close>

lemma submit_accepted_Inr_iff:
  "submit_accepted a now m hash current d = Inr (res, d') \<longleftrightarrow>
     (\<exists>next d1. mutate_object a m now current d = Inr (next, d1) \<and>
        res = accepted_result (o_rev next) (Suc (last_cursor d1 (a_user a))) \<and>
        user_exists d1 (a_user a) \<and> int64 (Suc (last_cursor d1 (a_user a))) \<and>
        write_history a m hash now next (Suc (last_cursor d1 (a_user a)))
          (d1\<lparr>counters := set_counter (a_user a) (Suc (last_cursor d1 (a_user a))) (counters d1)\<rparr>) = Inr d')"
  by (auto simp: submit_accepted_def rbind_Inr_iff statement_iffs split: prod.splits)

lemma mutate_object_rev:
  "mutate_object a m now current d = Inr (next, d1) \<Longrightarrow>
     o_rev next = (if m_kind m = MutationCreate then 1 else case current of None \<Rightarrow> 0 | Some r \<Rightarrow> Suc (o_rev r)) \<and>
     last_cursor d1 = last_cursor d"
  by (auto simp: mutate_object_def rbind_Inr_iff Let_def statement_iffs created_row_def replace_object_eq
      split: if_splits option.splits)

lemma submit_accepted_result:
  assumes "submit_accepted a now m hash current d = Inr (res, d')"
  shows "res = accepted_result
    (if m_kind m = MutationCreate then 1 else case current of None \<Rightarrow> 0 | Some r \<Rightarrow> Suc (o_rev r))
    (Suc (last_cursor d (a_user a)))"
  using assms by (auto simp: submit_accepted_Inr_iff dest: mutate_object_rev)

lemma submit_tx_stores:
  assumes "submit_tx x a now fresh q d = Inr (res, d')" "canonicalize x q = Inr (m, hash)"
  shows "stores_result a m hash res d'"
  using assms(1)
proof (cases rule: submit_tx_cases)
  case (replayed m' hash')
  with assms(2) show ?thesis by (simp add: replay_stored)
next
  case (conflict m' hash' c)
  with assms(2) show ?thesis
    by (auto simp: submit_conflict_Inr_iff intro: insertOperation_stores)
next
  case (accepted m' hash')
  with assms(2) show ?thesis
    by (auto simp: submit_accepted_Inr_iff intro: write_history_stores)
qed

lemma submit_tx_actor: "submit_tx x a now fresh q d = Inr (res, d') \<Longrightarrow> requireActiveActor a d = Inr ()"
  by (cases rule: submit_tx_cases) auto

text \<open>A stored operation answers every later submission of the same request.\<close>

lemma submit_tx_replays:
  assumes "canonicalize x q = Inr (m, hash)" "stores_result a m hash res d"
    and "requireActiveActor a' d = Inr ()" "a_user a' = a_user a"
  shows "submit_tx x a' now fresh q d = Inr (res, d)"
proof -
  have "replay a' d (m_operation m) hash = Inr (Some res)"
    using assms(2,4) by (simp add: replay_stored [symmetric] stores_result_def)
  with assms show ?thesis by (simp add: submit_tx_def)
qed

section \<open>Histories only grow, and only for the actor\<close>

definition grows :: "db \<Rightarrow> db \<Rightarrow> bool" where
  "grows d d' \<longleftrightarrow> prefix (operations d) (operations d') \<and> prefix (versions d) (versions d') \<and>
     prefix (changes d) (changes d')"

lemma grows_refl [simp]: "grows d d"
  by (simp add: grows_def)

lemma grows_trans: "grows d d' \<Longrightarrow> grows d' d'' \<Longrightarrow> grows d d''"
  by (auto simp: grows_def)

text \<open>What one account sees of the synchronization tables.\<close>

definition user_view ::
  "db \<Rightarrow> uuid \<Rightarrow> obj_row list \<times> op_row list \<times> ver_row list \<times> chg_row list \<times> nat" where
  "user_view d v =
     (filter (\<lambda>r. o_user r = v) (objects d), filter (\<lambda>r. op_user r = v) (operations d),
      filter (\<lambda>r. ver_user r = v) (versions d), filter (\<lambda>r. chg_user r = v) (changes d), last_cursor d v)"

text \<open>The tables of accounts, devices, sessions, blobs and resolutions.\<close>

definition same_accounts :: "db \<Rightarrow> db \<Rightarrow> bool" where
  "same_accounts d d' \<longleftrightarrow>
     d' = d\<lparr>counters := counters d', objects := objects d', operations := operations d',
            versions := versions d', changes := changes d'\<rparr>"

text \<open>An accepted operation answers with the cursor and the revision of the change it made.\<close>

definition answered :: "db \<Rightarrow> op_row \<Rightarrow> bool" where
  "answered d p \<longleftrightarrow>
     (\<exists>c\<in>set (changes d). chg_user c = op_user p \<and> chg_op c = op_id p \<and> chg_object c = op_object p \<and>
        op_cursor p = Some (chg_cursor c) \<and> op_revision p = Some (chg_rev c))"

definition answers_recorded :: "db \<Rightarrow> bool" where
  "answers_recorded d \<longleftrightarrow> (\<forall>p\<in>set (operations d). op_accepted p \<longrightarrow> answered d p)"

lemma answers_recorded_same:
  assumes "operations d' = operations d" "changes d' = changes d"
  shows "answers_recorded d' = answers_recorded d"
  using assms by (simp add: answers_recorded_def answered_def)

lemma answers_append:
  assumes "answers_recorded d" and "operations d' = operations d @ ps" and "set (changes d) \<subseteq> set (changes d')"
    and "\<forall>p\<in>set ps. op_accepted p \<longrightarrow> answered d' p"
  shows "answers_recorded d'"
proof -
  have "answered d' p" if "answered d p" for p using that assms(3) unfolding answered_def by blast
  then show ?thesis using assms(1,2,4) unfolding answers_recorded_def by auto
qed

text \<open>One step of an actor on the synchronization tables.\<close>

definition acts_for :: "uuid \<Rightarrow> db \<Rightarrow> db \<Rightarrow> bool" where
  "acts_for u d d' \<longleftrightarrow>
     grows d d' \<and> same_accounts d d' \<and> (\<forall>v. v \<noteq> u \<longrightarrow> user_view d' v = user_view d v) \<and>
     (answers_recorded d \<longrightarrow> answers_recorded d')"

lemma acts_unlogged:
  assumes "operations d' = operations d" "versions d' = versions d" "changes d' = changes d" "same_accounts d d'"
    and "\<forall>v. v \<noteq> u \<longrightarrow> user_view d' v = user_view d v"
  shows "acts_for u d d'"
  using assms answers_recorded_same [OF assms(1,3)] by (simp add: acts_for_def grows_def)

lemma acts_for_refl [simp]: "acts_for u d d"
  by (simp add: acts_for_def same_accounts_def)

lemma same_accounts_trans: "same_accounts d d' \<Longrightarrow> same_accounts d' d'' \<Longrightarrow> same_accounts d d''"
  by (cases d, cases d', cases d'') (simp add: same_accounts_def)

lemma acts_for_trans: "acts_for u d d' \<Longrightarrow> acts_for u d' d'' \<Longrightarrow> acts_for u d d''"
  by (auto simp: acts_for_def intro: grows_trans same_accounts_trans)

lemma insert_object_acts: "insert_object r d = Inr d' \<Longrightarrow> acts_for (o_user r) d d'"
  by (rule acts_unlogged) (auto simp: statement_iffs same_accounts_def user_view_def)

lemma allocateCursor_acts: "allocateCursor u d = Inr (n, d') \<Longrightarrow> acts_for u d d'"
  by (rule acts_unlogged) (auto simp: statement_iffs same_accounts_def user_view_def)

lemma insertOperation_acts:
  assumes "insertOperation a m hash now res d = Inr d'" and "\<not> r_accepted res"
  shows "acts_for (a_user a) d d'"
proof -
  let ?p = "operation_row a m hash now res"
  have d': "d' = d\<lparr>operations := operations d @ [?p]\<rparr>"
    using assms(1) by (simp add: insertOperation_def statement_iffs)
  have p: "op_user ?p = a_user a" "\<not> op_accepted ?p" using assms(2) by (simp_all add: operation_row_def)
  have "answers_recorded d'" if "answers_recorded d"
    by (rule answers_append [OF that, of d' "[?p]"]) (use p in \<open>simp_all add: d'\<close>)
  with p(1) show ?thesis
    by (simp add: acts_for_def) (simp add: d' grows_def same_accounts_def user_view_def last_cursor_def)
qed

lemma write_history_acts:
  assumes "write_history a m hash now r cursor d = Inr d'" and "o_user r = a_user a" and "o_id r = m_object m"
  shows "acts_for (a_user a) d d'"
proof -
  let ?p = "operation_row a m hash now (accepted_result (o_rev r) cursor)"
  let ?c = "change_of r cursor (m_operation m) (m_kind m) now"
  have d': "d' = d\<lparr>operations := operations d @ [?p], versions := versions d @ [version_of r (m_operation m) now],
      changes := changes d @ [?c]\<rparr>"
    using assms(1) by (simp add: write_history_Inr_iff Let_def)
  have p: "op_user ?p = a_user a" "op_id ?p = m_operation m" "op_object ?p = m_object m" "op_cursor ?p = Some cursor"
      "op_revision ?p = Some (o_rev r)"
    by (simp_all add: operation_row_def accepted_result_def)
  have c: "chg_user ?c = a_user a" "chg_op ?c = m_operation m" "chg_object ?c = m_object m" "chg_cursor ?c = cursor" "chg_rev ?c = o_rev r"
    using assms(2,3) by (simp_all add: change_of_def)
  have v: "ver_user (version_of r (m_operation m) now) = a_user a" using assms(2) by (simp add: version_of_def)
  have "answered d' ?p" unfolding answered_def p using c by (intro bexI [of _ ?c]) (simp_all add: d')
  then have "answers_recorded d'" if "answers_recorded d"
    by (intro answers_append [OF that, of d' "[?p]"]) (auto simp: d')
  with p(1) c(1) v show ?thesis
    by (simp add: acts_for_def) (simp add: d' grows_def same_accounts_def user_view_def last_cursor_def)
qed

lemma update_objects_acts:
  assumes "update_objects P f d = Inr (n, d')" "\<And>r. P r \<Longrightarrow> o_user r = u" "\<And>r. o_user (f r) = o_user r"
  shows "acts_for u d d'"
proof -
  have view: "filter (\<lambda>r. o_user r = v) (update_rows P f (objects d)) = filter (\<lambda>r. o_user r = v) (objects d)"
    if "v \<noteq> u" for v
    by (rule filter_update_rows_other) (use that assms(2,3) in auto)
  show ?thesis
    by (rule acts_unlogged) (use assms(1) view in \<open>auto simp: statement_iffs same_accounts_def user_view_def\<close>)
qed

lemma mutate_object_acts:
  assumes "mutate_object a m now current d = Inr (next, d')"
    and "\<And>r. current = Some r \<Longrightarrow> o_user r = a_user a \<and> o_id r = m_object m"
  shows "acts_for (a_user a) d d' \<and> o_user next = a_user a \<and> o_id next = m_object m"
proof (cases "m_kind m = MutationCreate")
  case True
  with assms(1) show ?thesis
    using insert_object_acts by (fastforce simp: mutate_object_def rbind_Inr_iff Let_def created_row_def)
next
  case False
  with assms(1) obtain cur where cur: "current = Some cur" "next = next_row m now cur"
    and upd: "update_objects (is_current cur) (replaced next) d = Inr (1, d')"
    by (auto simp: mutate_object_def rbind_Inr_iff Let_def replace_object_eq split: option.splits if_splits)
  have "acts_for (a_user a) d d'"
    by (rule update_objects_acts [OF upd])
      (use cur assms(2) in \<open>auto simp: is_current_def replaced_def\<close>)
  with cur assms(2) show ?thesis by simp
qed

lemma submit_accepted_acts:
  assumes "submit_accepted a now m hash (loadObject d (a_user a) (m_object m)) d = Inr (res, d')"
  shows "acts_for (a_user a) d d'"
proof -
  from assms obtain nx d1 n d2 where
    m: "mutate_object a m now (loadObject d (a_user a) (m_object m)) d = Inr (nx, d1)" and
    c: "allocateCursor (a_user a) d1 = Inr (n, d2)" and
    h: "write_history a m hash now nx n d2 = Inr d'"
    by (auto simp: submit_accepted_def rbind_Inr_iff)
  from mutate_object_acts [OF m] have "acts_for (a_user a) d d1" "o_user nx = a_user a" "o_id nx = m_object m"
    by (auto dest: loadObject_SomeD)
  with allocateCursor_acts [OF c] write_history_acts [OF h] show ?thesis
    by (blast intro: acts_for_trans)
qed

lemma ensure_reserved_folder_acts:
  assumes "ensure_reserved_folder x a now f (d, fresh) = Inr (d', fresh')"
  shows "acts_for (a_user a) d d'"
proof (cases "loadObject d (a_user a) (f_id f)")
  case (Some r)
  with assms have "d' = d" by (auto simp: ensure_reserved_folder_def split: if_splits)
  then show ?thesis by simp
next
  case None
  with assms obtain m hash r n d1 d2 where
    c: "allocateCursor (a_user a) d = Inr (n, d1)" and
    i: "insert_object r d1 = Inr d2" and u: "o_user r = a_user a" "o_id r = m_object m" and
    h: "write_history a m hash now r n d2 = Inr d'"
    by (cases fresh)
      (auto simp: ensure_reserved_folder_def rbind_Inr_iff Let_def created_row_def)
  from allocateCursor_acts [OF c] insert_object_acts [OF i] write_history_acts [OF h] u show ?thesis
    by (metis acts_for_trans)
qed

lemma ensureConflictNamespace_acts:
  assumes "ensureConflictNamespace x a now (d, fresh) = Inr (d', fresh')"
  shows "acts_for (a_user a) d d'"
  using assms ensure_reserved_folder_acts acts_for_trans
  by (fastforce simp: ensureConflictNamespace_def reserved_folders_def rbind_Inr_iff)

lemma submit_conflict_acts:
  "submit_conflict x a now fresh m hash c current d = Inr (res, d') \<Longrightarrow> acts_for (a_user a) d d'"
  using ensureConflictNamespace_acts insertOperation_acts acts_for_trans
  unfolding submit_conflict_Inr_iff by (fastforce simp: conflict_result_def)

lemma submit_tx_acts:
  "submit_tx x a now fresh q d = Inr (res, d') \<Longrightarrow> acts_for (a_user a) d d'"
  by (cases rule: submit_tx_cases) (auto intro: submit_conflict_acts submit_accepted_acts)

end
