(* ===== verification/Sync_Preserve_Keeps.thy ===== *)
theory Sync_Preserve_Keeps
  imports Sync_Preserve_Run Sync_Outcome
begin

text \<open>
  The three writers of preserve-and-delete keep the invariant: creating a folder below an available
  parent, deleting a folder without active children, moving a note to an available parent. Each
  takes the next cursor and changes one object.
\<close>

section \<open>The resolution tables are independent\<close>

lemma resolution_frame [simp]:
  "sync_inv (d\<lparr>resolutions := rs\<rparr>) = sync_inv d"
  "sync_inv (d\<lparr>res_clone_rows := cs\<rparr>) = sync_inv d"
  "sync_inv (d\<lparr>res_move_rows := ms\<rparr>) = sync_inv d"
  by (simp_all add: sync_inv_def objects_ok_def object_row_ok_def [abs_def] loadObject_def
      user_exists_def blob_entitled_def [abs_def] entitled_def tree_ok_def parent_rel_def history_ok_def
      object_recorded_def changes_of_object_def version_owned_def change_recorded_def
      changes_of_user_def last_cursor_def cong: option.case_cong)

text \<open>What a stored resolution changes: its own three tables.\<close>

definition same_sync :: "db \<Rightarrow> db \<Rightarrow> bool" where
  "same_sync d d' \<longleftrightarrow>
     d' = d\<lparr>resolutions := resolutions d', res_clone_rows := res_clone_rows d',
            res_move_rows := res_move_rows d'\<rparr>"

lemma same_sync_refl [simp]: "same_sync d d"
  by (simp add: same_sync_def)

lemma same_sync_trans: "same_sync d d' \<Longrightarrow> same_sync d' d'' \<Longrightarrow> same_sync d d''"
  by (cases d, cases d', cases d'') (simp add: same_sync_def)

lemma same_sync_inv: "same_sync d d' \<Longrightarrow> sync_inv d \<Longrightarrow> sync_inv d'"
  unfolding same_sync_def by (erule ssubst) simp

lemma insert_clones_same: "insert_clones a i n ks d = Inr d' \<Longrightarrow> same_sync d d'"
proof (induction ks arbitrary: n d)
  case (Cons k ks)
  then obtain d1 where 1: "insert_clone \<lparr>cln_user = a_user a, cln_op = i, cln_ordinal = n, cln_clone = k\<rparr> d = Inr d1"
    and 2: "insert_clones a i (Suc n) ks d1 = Inr d'" by auto
  from 1 have "same_sync d d1" by (simp add: resolution_iffs same_sync_def)
  with Cons.IH [OF 2] show ?case by (metis same_sync_trans)
qed simp

lemma insert_moves_same: "insert_moves a i n ks d = Inr d' \<Longrightarrow> same_sync d d'"
proof (induction ks arbitrary: n d)
  case (Cons k ks)
  then obtain d1 where 1: "insert_move \<lparr>mov_user = a_user a, mov_op = i, mov_ordinal = n, mov_move = k\<rparr> d = Inr d1"
    and 2: "insert_moves a i (Suc n) ks d1 = Inr d'" by auto
  from 1 have "same_sync d d1" by (simp add: resolution_iffs same_sync_def)
  with Cons.IH [OF 2] show ?case by (metis same_sync_trans)
qed simp

lemma complete_resolution_same: "complete_resolution u i d = Inr (n, d') \<Longrightarrow> same_sync d d'"
  by (auto simp: complete_resolution_def Let_def same_sync_def split: if_splits)

lemma insert_resolution_same: "insert_resolution r d = Inr d' \<Longrightarrow> same_sync d d'"
  by (auto simp: resolution_iffs same_sync_def)

lemma store_resolution_same:
  assumes "store_resolution a r hash s d = Inr d'"
  shows "same_sync d d'"
proof -
  from assms obtain d1 d2 d3 where
    1: "insert_resolution (resolution_row a r hash s) d = Inr d1" and
    2: "insert_clones a (q_operation r) 0 (s_clones s) d1 = Inr d2" and
    3: "insert_moves a (q_operation r) 0 (s_note_moves s) d2 = Inr d3" and
    4: "(if q_version r < 3 then Inr d3
         else rbind (complete_resolution (a_user a) (q_operation r) d3) (\<lambda>(n, d).
           if n \<noteq> 1 then Inl ErrPreserveDeleteUnavailable else Inr d)) = Inr d'"
    unfolding store_resolution_def by (elim rbind_InrE) (rule that; assumption)
  from 4 have "same_sync d3 d'"
    by (auto simp: rbind_Inr_iff dest: complete_resolution_same split: if_splits)
  with insert_resolution_same [OF 1] insert_clones_same [OF 2] insert_moves_same [OF 3]
  show ?thesis by (metis same_sync_trans)
qed

section \<open>One object written\<close>

lemma log_preserved_Inr_iff:
  "log_preserved x a now q row d = Inr (n, d') \<longleftrightarrow>
     (\<exists>m hash. n = Suc (last_cursor d (a_user a)) \<and> user_exists d (a_user a) \<and> int64 n \<and>
        canonicalize x q = Inr (m, hash) \<and>
        write_history a m hash now row n
          (d\<lparr>counters := set_counter (a_user a) n (counters d)\<rparr>) = Inr d')"
  by (auto simp: log_preserved_def rbind_Inr_iff statement_iffs)

lemma write_history_load:
  "write_history a m hash now row n d = Inr d' \<Longrightarrow>
     loadObject d' = loadObject d \<and> last_cursor d' = last_cursor d"
  by (auto simp: write_history_Inr_iff Let_def last_cursor_def fun_eq_iff)

text \<open>What a writer leaves: the next cursor, and one object in a new state.\<close>

definition wrote :: "uuid \<Rightarrow> nat \<Rightarrow> uuid \<Rightarrow> obj_row \<Rightarrow> db \<Rightarrow> db \<Rightarrow> bool" where
  "wrote u n i row d d' \<longleftrightarrow>
     sync_inv d' \<and> acts_for u d d' \<and> loadObject d' u = (loadObject d u)(i \<mapsto> row) \<and>
     n = Suc (last_cursor d u) \<and> last_cursor d' u = n"

lemma objects_ok_fresh:
  "objects_ok (d\<lparr>objects := objects d @ [r]\<rparr>) \<Longrightarrow> loadObject d (o_user r) (o_id r) = None"
  by (auto simp: objects_ok_def loadObject_None_iff okey_def image_iff)

lemma last_cursor_counted [simp]:
  "last_cursor (d\<lparr>objects := objs, counters := set_counter u n cs\<rparr>) u = n"
  by (simp add: last_cursor_def map_of_set_counter)

lemma canonicalized_object: "canonicalize x q = Inr (m, hash) \<Longrightarrow> m_object m = m_object q"
  using canonicalize_InrD(1) mutation_shape_InrD by blast

lemma create_folder_wrote:
  assumes inv: "sync_inv d" and parent: "parent_available d (a_user a) (Some p)"
    and run: "create_folder_with x a now operation i p name key d = Inr (n, d')"
  shows "wrote (a_user a) n i (preserved_row (a_user a) i p name key now) d d' \<and>
    loadObject d (a_user a) i = None"
proof -
  let ?r = "preserved_row (a_user a) i p name key now" and ?u = "a_user a"
  have [simp]: "o_user ?r = ?u" "o_id ?r = i" "o_rev ?r = 1" "o_parent ?r = Some p"
    "o_type ?r = ObjectFolder" "okey ?r = (?u, i)"
    by (simp_all add: preserved_row_def okey_def)
  from run obtain d1 m hash where
    ins: "insert_object ?r d = Inr d1" and n: "n = Suc (last_cursor d1 ?u)" and
    c: "canonicalize x (create_request operation i p name) = Inr (m, hash)" and
    h: "write_history a m hash now ?r n (d1\<lparr>counters := set_counter ?u n (counters d1)\<rparr>) = Inr d'"
    by (auto simp: create_folder_with_def Let_def rbind_Inr_iff log_preserved_Inr_iff)
  from ins have d1: "d1 = d\<lparr>objects := objects d @ [?r]\<rparr>" and ok: "objects_ok d1"
    by (auto simp: statement_iffs)
  have fresh: "loadObject d ?u i = None" using objects_ok_fresh [of d ?r] ok d1 by simp
  have "sync_inv d'"
  proof (rule write_history_keeps [OF inv])
    show "object_step d ?r (objects d @ [?r])"
      by (rule create_object_step) (simp_all add: fresh)
    show "objects_ok (d\<lparr>objects := objects d @ [?r]\<rparr>)" using ok d1 by simp
    show "notes_have_blobs (objects d @ [?r])"
      using inv by (auto simp: sync_inv_def intro: notes_have_blobs_append)
    show "\<forall>u. tree_ok (d\<lparr>objects := objects d @ [?r]\<rparr>) u"
      using inv fresh parent by (auto simp: sync_inv_def intro: tree_ok_insert)
    show "write_history a m hash now ?r (Suc (last_cursor d (o_user ?r)))
        (with_object d ?r (objects d @ [?r])) = Inr d'"
      using h n by (simp add: d1 with_object_def)
  qed simp
  moreover have object: "m_object m = i" using canonicalized_object [OF c] by (simp add: create_request_def)
  moreover have "acts_for ?u d d'"
  proof -
    have "acts_for ?u d d1" using insert_object_acts [OF ins] by simp
    moreover have "acts_for ?u d1 (d1\<lparr>counters := set_counter ?u n (counters d1)\<rparr>)"
      by (rule acts_unlogged) (auto simp: same_accounts_def user_view_def)
    ultimately show ?thesis using write_history_acts [OF h] object by (auto intro: acts_for_trans)
  qed
  moreover have "loadObject d' ?u = (loadObject d ?u)(i \<mapsto> ?r)"
    using write_history_load [OF h] fresh
    by (auto simp: d1 loadObject_append fun_eq_iff split: option.split)
  moreover have "n = Suc (last_cursor d ?u)" "last_cursor d' ?u = n"
    using write_history_load [OF h] n by (simp_all add: d1)
  ultimately show ?thesis using fresh by (simp add: wrote_def)
qed

lemma update_objects_hit:
  assumes "update_objects P f d = Inr (1, d1)"
  shows "\<exists>q\<in>set (objects d). P q"
proof (rule ccontr)
  assume "\<not> ?thesis"
  then have "rows_affected P (objects d) = 0" by (simp add: rows_affected_0_iff)
  with assms show False by (simp add: statement_iffs)
qed

lemma update_wrote:
  assumes inv: "sync_inv d" and cur: "loadObject d (a_user a) i = Some cur"
    and hits: "\<And>q. P q \<Longrightarrow> okey q = (a_user a, i)" "P cur" and key: "\<And>q. okey (f q) = okey q"
    and rev: "o_rev (f cur) = Suc (o_rev cur)"
    and repl: "replacement_ok d (a_user a) i cur (f cur)"
    and blob: "o_type (f cur) = ObjectNote \<Longrightarrow> o_blob (f cur) \<noteq> None"
    and upd: "update_objects P f d = Inr (k, d1)"
    and log: "log_preserved x a now q (f cur) d1 = Inr (n, d')" and object: "m_object q = i"
  shows "wrote (a_user a) n i (f cur) d d'"
proof -
  let ?u = "a_user a" and ?objs = "update_rows P f (objects d)"
  from upd have d1: "d1 = d\<lparr>objects := ?objs\<rparr>" and ok: "objects_ok (d\<lparr>objects := ?objs\<rparr>)"
    by (auto simp: statement_iffs)
  from log obtain m hash where n: "n = Suc (last_cursor d ?u)" and c: "canonicalize x q = Inr (m, hash)" and
    h: "write_history a m hash now (f cur) n (d1\<lparr>counters := set_counter ?u n (counters d1)\<rparr>) = Inr d'"
    by (auto simp: log_preserved_Inr_iff d1)
  have "m_object m = i" using canonicalized_object [OF c] object by simp
  have "okey cur = (?u, i)" using hits by blast
  then have user: "o_user (f cur) = ?u" "o_id (f cur) = m_object m"
    using key [of cur] \<open>m_object m = i\<close> by (simp_all add: okey_def)
  have objs: "objects_ok d" using inv by (simp add: sync_inv_def)
  have "sync_inv d'"
  proof (rule update_keeps [where P = P and f = f and cur = cur and a = a, OF inv cur hits key rev repl blob ok])
    show "write_history a m hash now (f cur) (Suc (last_cursor d ?u)) (with_object d (f cur) ?objs) = Inr d'"
      using h n by (simp add: d1 with_object_def user)
  qed
  moreover have "acts_for ?u d d'"
  proof -
    have "acts_for ?u d d1"
      by (rule update_objects_acts [OF upd]) (use hits(1) key in \<open>auto simp: okey_def\<close>)
    moreover have "acts_for ?u d1 (d1\<lparr>counters := set_counter ?u n (counters d1)\<rparr>)"
      by (rule acts_unlogged) (auto simp: same_accounts_def user_view_def)
    ultimately show ?thesis using write_history_acts [OF h user] by (auto intro: acts_for_trans)
  qed
  moreover have "loadObject d' ?u = (loadObject d ?u)(i \<mapsto> f cur)"
    using write_history_load [OF h] loadObject_update_single [where P = P and f = f, OF objs cur hits key]
    by (simp add: d1)
  moreover have "last_cursor d' ?u = n"
    using write_history_load [OF h] n by (simp add: d1)
  ultimately show ?thesis using n by (simp add: wrote_def)
qed

lemma delete_folder_wrote:
  assumes inv: "sync_inv d" and cur: "loadObject d (a_user a) i = Some cur" "o_type cur = ObjectFolder"
    and leaf: "\<And>j q. loadObject d (a_user a) j = Some q \<Longrightarrow> o_parent q = Some i \<Longrightarrow> o_deleted q"
    and run: "delete_folder_with x a now operation cur d = Inr (n, d')"
  shows "wrote (a_user a) n i (deleted_now cur now cur) d d' \<and> \<not> isReservedConflictFolder i \<and> \<not> o_deleted cur"
proof -
  have ids: "o_user cur = a_user a" "o_id cur = i" "cur \<in> set (objects d)"
    using cur by (auto dest: loadObject_SomeD)
  have "object_row_ok d cur" using inv cur(1) by (auto simp: sync_inv_def dest: object_row_okD)
  then have "o_blob cur = None" using cur(2) by (simp add: object_row_ok_def content_shape_def)
  then have same: "(deleted_now cur now cur)\<lparr>o_type := ObjectFolder, o_blob := None\<rparr> = deleted_now cur now cur"
    using cur(2) by (cases cur) (simp add: deleted_now_def)
  from run obtain d1 where
    upd: "update_objects (is_current cur) (deleted_now cur now) d = Inr (1, d1)" and
    log: "log_preserved x a now (delete_request operation cur) (deleted_now cur now cur) d1 = Inr (n, d')"
    by (auto simp: delete_folder_with_def rbind_Inr_iff same split: if_splits)
  from update_objects_hit [OF upd] obtain q where q: "q \<in> set (objects d)" "is_current cur q" by blast
  with inv have "loadObject d (a_user a) i = Some q"
    by (auto simp: is_current_def ids sync_inv_def loadObject_eq_iff)
  with cur(1) q(2) have act: "\<not> o_deleted cur" by (simp add: is_current_def)
  have "wrote (a_user a) n i (deleted_now cur now cur) d d'"
  proof (rule update_wrote [where P = "is_current cur" and f = "deleted_now cur now", OF inv cur(1) _ _ _ _ _ _ upd log])
    show "replacement_ok d (a_user a) i cur (deleted_now cur now cur)"
      using leaf by (auto simp: replacement_ok_def deleted_now_def)
  qed (use ids act cur(2) in \<open>auto simp: is_current_def okey_def deleted_now_def delete_request_def\<close>)
  moreover have "\<not> isReservedConflictFolder i"
    using log ids(2) by (auto simp: log_preserved_Inr_iff delete_request_def dest!: canonicalize_InrD(5))
  ultimately show ?thesis using act by blast
qed

lemma move_note_wrote:
  assumes inv: "sync_inv d" and cur: "loadObject d (a_user a) i = Some cur"
    and parent: "parent_available d (a_user a) (Some p)"
    and run: "move_note_with x a now operation cur p d = Inr (n, d')"
  shows "wrote (a_user a) n i (moved_now cur p now cur) d d' \<and> \<not> o_deleted cur \<and> o_type cur = ObjectNote"
proof -
  let ?P = "\<lambda>r. is_current cur r \<and> o_type r = ObjectNote"
  have ids: "o_user cur = a_user a" "o_id cur = i" "cur \<in> set (objects d)"
    using cur by (auto dest: loadObject_SomeD)
  from run obtain d1 where
    upd: "update_objects ?P (moved_now cur p now) d = Inr (1, d1)" and
    log': "log_preserved x a now (move_request operation cur p)
      ((moved_now cur p now cur)\<lparr>o_type := ObjectNote, o_deleted := False\<rparr>) d1 = Inr (n, d')"
    by (auto simp: move_note_with_def rbind_Inr_iff split: if_splits)
  from update_objects_hit [OF upd] obtain q where q: "q \<in> set (objects d)" "?P q" by blast
  with inv have "loadObject d (a_user a) i = Some q"
    by (auto simp: is_current_def ids sync_inv_def loadObject_eq_iff)
  with cur q(2) have hit: "?P cur" by simp
  then have note': "o_type cur = ObjectNote" "\<not> o_deleted cur" by (auto simp: is_current_def)
  then have "(moved_now cur p now cur)\<lparr>o_type := ObjectNote, o_deleted := False\<rparr> = moved_now cur p now cur"
    by (cases cur) (simp add: moved_now_def)
  with log' have log: "log_preserved x a now (move_request operation cur p) (moved_now cur p now cur) d1 = Inr (n, d')"
    by simp
  have "o_blob cur \<noteq> None" using inv ids note' by (auto simp: sync_inv_def notes_have_blobs_def)
  have "wrote (a_user a) n i (moved_now cur p now cur) d d'"
  proof (rule update_wrote [where P = ?P and f = "moved_now cur p now", OF inv cur _ _ _ _ _ _ upd log])
    show "replacement_ok d (a_user a) i cur (moved_now cur p now cur)"
      using parent note' by (auto simp: replacement_ok_def moved_now_def)
    show "?P cur" by (rule hit)
  qed (use ids \<open>o_blob cur \<noteq> None\<close> in \<open>auto simp: is_current_def okey_def moved_now_def move_request_def\<close>)
  with note' show ?thesis by simp
qed

end
