(* ===== verification/Sync_Preserve_Plan.thy ===== *)
theory Sync_Preserve_Plan
  imports Sync_Preserve_Keeps
begin

text \<open>
  The plan of preserve-and-delete, loop by loop: at every moment each active child of a folder to be
  deleted is still to be moved or deleted itself, so that no deletion leaves an active orphan; every
  note survives with its name and content; the cursors follow each other without a gap.
\<close>

section \<open>What the plan maintains\<close>

definition children_pending :: "db \<Rightarrow> uuid \<Rightarrow> uuid set \<Rightarrow> uuid set \<Rightarrow> bool" where
  "children_pending d u F P \<longleftrightarrow>
     (\<forall>j q p. loadObject d u j = Some q \<longrightarrow> \<not> o_deleted q \<longrightarrow> o_parent q = Some p \<longrightarrow> p \<in> F \<longrightarrow> j \<in> P)"

definition plan_inv :: "db \<Rightarrow> uuid \<Rightarrow> uuid set \<Rightarrow> uuid set \<Rightarrow> uuid set \<Rightarrow> bool" where
  "plan_inv d u F P T \<longleftrightarrow>
     sync_inv d \<and> (\<forall>i\<in>F. loadObject d u i \<noteq> None) \<and> children_pending d u F P \<and>
     (\<forall>t\<in>T. parent_available d u (Some t) \<and> t \<notin> F)"

text \<open>A row read before the plan: still current, or overwritten by a later revision.\<close>

definition snapshot :: "db \<Rightarrow> uuid \<Rightarrow> obj_row \<Rightarrow> bool" where
  "snapshot d u r \<longleftrightarrow>
     (\<exists>q. loadObject d u (o_id r) = Some q \<and> (q = r \<or> o_rev r < o_rev q))"

text \<open>A note stays a note with its name, its content and its place in the living or the dead.\<close>

definition same_note :: "obj_row \<Rightarrow> obj_row \<Rightarrow> bool" where
  "same_note q q' \<longleftrightarrow>
     o_type q' = ObjectNote \<and> o_deleted q' = o_deleted q \<and> o_name q' = o_name q \<and> o_key q' = o_key q \<and>
     o_blob q' = o_blob q \<and> o_rev q \<le> o_rev q'"

definition keeps_notes :: "uuid \<Rightarrow> db \<Rightarrow> db \<Rightarrow> bool" where
  "keeps_notes u d d' \<longleftrightarrow>
     (\<forall>j q. loadObject d u j = Some q \<longrightarrow> o_type q = ObjectNote \<longrightarrow>
        (\<exists>q'. loadObject d' u j = Some q' \<and> same_note q q'))"

text \<open>A folder stays as it is or ends as a later tombstone.\<close>

definition same_folder :: "obj_row \<Rightarrow> obj_row \<Rightarrow> bool" where
  "same_folder q q' \<longleftrightarrow>
     o_type q' = ObjectFolder \<and> (q' = q \<or> o_rev q < o_rev q' \<and> o_deleted q')"

definition keeps_folders :: "uuid \<Rightarrow> db \<Rightarrow> db \<Rightarrow> bool" where
  "keeps_folders u d d' \<longleftrightarrow>
     (\<forall>j q. loadObject d u j = Some q \<longrightarrow> o_type q = ObjectFolder \<longrightarrow>
        (\<exists>q'. loadObject d' u j = Some q' \<and> same_folder q q'))"

definition plan_step :: "uuid \<Rightarrow> db \<Rightarrow> db \<Rightarrow> bool" where
  "plan_step u d d' \<longleftrightarrow>
     acts_for u d d' \<and> keeps_notes u d d' \<and> keeps_folders u d d' \<and> (\<forall>r. snapshot d u r \<longrightarrow> snapshot d' u r)"

lemma same_note_refl [simp]: "o_type q = ObjectNote \<Longrightarrow> same_note q q"
  by (simp add: same_note_def)

lemma same_note_trans: "same_note q q' \<Longrightarrow> same_note q' q'' \<Longrightarrow> same_note q q''"
  by (simp add: same_note_def)

lemma same_folder_refl [simp]: "o_type q = ObjectFolder \<Longrightarrow> same_folder q q"
  by (simp add: same_folder_def)

lemma same_folder_trans: "same_folder q q' \<Longrightarrow> same_folder q' q'' \<Longrightarrow> same_folder q q''"
  by (auto simp: same_folder_def)

lemma plan_step_refl [simp]: "plan_step u d d"
  by (auto simp: plan_step_def keeps_notes_def keeps_folders_def)

lemma keeps_folders_trans:
  assumes "keeps_folders u d d'" "keeps_folders u d' d''"
  shows "keeps_folders u d d''"
  unfolding keeps_folders_def
proof (intro allI impI)
  fix j q
  assume "loadObject d u j = Some q" "o_type q = ObjectFolder"
  with assms(1) obtain q' where q': "loadObject d' u j = Some q'" "same_folder q q'"
    by (auto simp: keeps_folders_def)
  then have "o_type q' = ObjectFolder" by (simp add: same_folder_def)
  with assms(2) q'(1) obtain q'' where "loadObject d'' u j = Some q''" "same_folder q' q''"
    by (auto simp: keeps_folders_def)
  with q'(2) show "\<exists>q''. loadObject d'' u j = Some q'' \<and> same_folder q q''"
    by (blast intro: same_folder_trans)
qed

lemma keeps_notes_trans:
  assumes "keeps_notes u d d'" "keeps_notes u d' d''"
  shows "keeps_notes u d d''"
  unfolding keeps_notes_def
proof (intro allI impI)
  fix j q
  assume "loadObject d u j = Some q" "o_type q = ObjectNote"
  with assms(1) obtain q' where q': "loadObject d' u j = Some q'" "same_note q q'"
    by (auto simp: keeps_notes_def)
  then have "o_type q' = ObjectNote" by (simp add: same_note_def)
  with assms(2) q'(1) obtain q'' where "loadObject d'' u j = Some q''" "same_note q' q''"
    by (auto simp: keeps_notes_def)
  with q'(2) show "\<exists>q''. loadObject d'' u j = Some q'' \<and> same_note q q''"
    by (blast intro: same_note_trans)
qed

lemma plan_step_trans: "plan_step u d d' \<Longrightarrow> plan_step u d' d'' \<Longrightarrow> plan_step u d d''"
  by (auto simp: plan_step_def intro: acts_for_trans keeps_notes_trans keeps_folders_trans)

lemma wrote_plan_step:
  assumes w: "wrote u n i row d d'"
    and rev: "\<And>q. loadObject d u i = Some q \<Longrightarrow> o_rev q < o_rev row"
    and nt: "\<And>q. loadObject d u i = Some q \<Longrightarrow> o_type q = ObjectNote \<Longrightarrow> same_note q row"
    and fd: "\<And>q. loadObject d u i = Some q \<Longrightarrow> o_type q = ObjectFolder \<Longrightarrow> same_folder q row"
  shows "plan_step u d d'"
proof -
  have load: "loadObject d' u = (loadObject d u)(i \<mapsto> row)" and "acts_for u d d'"
    using w by (simp_all add: wrote_def)
  moreover have "keeps_notes u d d'"
    using nt by (auto simp: keeps_notes_def load)
  moreover have "keeps_folders u d d'"
    using fd by (auto simp: keeps_folders_def load)
  moreover have "snapshot d' u r" if "snapshot d u r" for r
    using that rev by (fastforce simp: snapshot_def load)
  ultimately show ?thesis by (simp add: plan_step_def)
qed

section \<open>One writer\<close>

lemma parent_available_upd:
  assumes "loadObject d' u = (loadObject d u)(i \<mapsto> row)" "parent_available d u (Some t)"
    and "t = i \<Longrightarrow> o_type row = ObjectFolder \<and> \<not> o_deleted row"
  shows "parent_available d' u (Some t)"
  using assms by (auto simp: parent_available_def split: option.splits)

lemma create_plan_inv:
  assumes inv: "plan_inv d u F P T" and p: "p \<in> T"
    and w: "wrote u n i (preserved_row u i p name key now) d d'" and fresh: "loadObject d u i = None"
  shows "plan_inv d' u F P (insert i T) \<and> plan_step u d d'"
proof -
  let ?r = "preserved_row u i p name key now"
  have load: "loadObject d' u = (loadObject d u)(i \<mapsto> ?r)" and inv': "sync_inv d'"
    using w by (simp_all add: wrote_def)
  have "p \<notin> F" using inv p by (auto simp: plan_inv_def)
  moreover have "i \<notin> F" using inv fresh by (auto simp: plan_inv_def)
  moreover have "parent_available d' u (Some i)"
    by (simp add: parent_available_def load preserved_row_def)
  moreover have "parent_available d' u (Some t)" if "t \<in> T" for t
    using inv that by (intro parent_available_upd [OF load]) (auto simp: plan_inv_def preserved_row_def)
  ultimately have "plan_inv d' u F P (insert i T)"
    using inv inv' by (auto simp: plan_inv_def children_pending_def load preserved_row_def)
  with wrote_plan_step [OF w] fresh show ?thesis by simp
qed

lemma move_plan_inv:
  assumes inv: "plan_inv d u F P T" and p: "p \<in> T" and cur: "loadObject d u i = Some cur"
    and nt: "o_type cur = ObjectNote" and w: "wrote u n i (moved_now cur p now cur) d d'"
  shows "plan_inv d' u F (P - {i}) T \<and> plan_step u d d'"
proof -
  let ?r = "moved_now cur p now cur"
  have load: "loadObject d' u = (loadObject d u)(i \<mapsto> ?r)" and inv': "sync_inv d'"
    using w by (simp_all add: wrote_def)
  have "p \<notin> F" using inv p by (auto simp: plan_inv_def)
  moreover have "parent_available d' u (Some t)" if "t \<in> T" for t
  proof (rule parent_available_upd [OF load])
    show avail: "parent_available d u (Some t)" using inv that by (simp add: plan_inv_def)
    show "o_type ?r = ObjectFolder \<and> \<not> o_deleted ?r" if "t = i"
      using avail that cur nt by (simp add: parent_available_def)
  qed
  ultimately have "plan_inv d' u F (P - {i}) T"
    using inv inv' by (auto simp: plan_inv_def children_pending_def load moved_now_def)
  moreover have "plan_step u d d'"
    by (rule wrote_plan_step [OF w]) (use cur nt in \<open>auto simp: moved_now_def same_note_def\<close>)
  ultimately show ?thesis ..
qed

lemma delete_plan_inv:
  assumes inv: "plan_inv d u F P T" and i: "i \<in> F" and cur: "loadObject d u i = Some cur"
    and fold: "o_type cur = ObjectFolder" and w: "wrote u n i (deleted_now cur now cur) d d'"
  shows "plan_inv d' u F (P - {i}) T \<and> plan_step u d d'"
proof -
  let ?r = "deleted_now cur now cur"
  have load: "loadObject d' u = (loadObject d u)(i \<mapsto> ?r)" and inv': "sync_inv d'"
    using w by (simp_all add: wrote_def)
  have "parent_available d' u (Some t)" if "t \<in> T" for t
    using inv that i by (intro parent_available_upd [OF load]) (auto simp: plan_inv_def)
  then have "plan_inv d' u F (P - {i}) T"
    using inv inv' by (auto simp: plan_inv_def children_pending_def load deleted_now_def)
  moreover have "plan_step u d d'"
    by (rule wrote_plan_step [OF w]) (use cur fold in \<open>auto simp: deleted_now_def same_folder_def\<close>)
  ultimately show ?thesis ..
qed

text \<open>A successful conditional write has found its snapshot current.\<close>

lemma is_current_snapshot:
  assumes inv: "sync_inv d" and snap: "snapshot d u r" and u: "o_user r = u"
    and hit: "q \<in> set (objects d)" "is_current r q"
  shows "loadObject d u (o_id r) = Some r"
proof -
  from hit inv u have "loadObject d u (o_id r) = Some q"
    by (auto simp: is_current_def sync_inv_def loadObject_eq_iff)
  with snap hit(2) show ?thesis by (auto simp: snapshot_def is_current_def)
qed

lemma delete_folder_current:
  assumes "sync_inv d" "snapshot d u r" "o_user r = u" "delete_folder_with x a now operation r d = Inr (n, d')"
  shows "loadObject d u (o_id r) = Some r"
proof -
  from assms(4) obtain d1 where "update_objects (is_current r) (deleted_now r now) d = Inr (1, d1)"
    by (auto simp: delete_folder_with_def rbind_Inr_iff split: if_splits)
  from update_objects_hit [OF this] is_current_snapshot [OF assms(1-3)] show ?thesis by blast
qed

lemma move_note_current:
  assumes "sync_inv d" "snapshot d u r" "o_user r = u" "move_note_with x a now operation r p d = Inr (n, d')"
  shows "loadObject d u (o_id r) = Some r"
proof -
  from assms(4) obtain d1 where
    "update_objects (\<lambda>q. is_current r q \<and> o_type q = ObjectNote) (moved_now r p now) d = Inr (1, d1)"
    by (auto simp: move_note_with_def rbind_Inr_iff split: if_splits)
  from update_objects_hit [OF this] is_current_snapshot [OF assms(1-3)] show ?thesis by blast
qed

section \<open>The loops\<close>

lemma next_uuid_Inr_iff: "next_uuid (d, fresh) = Inr (i, d', fresh') \<longleftrightarrow> fresh = i # fresh' \<and> d' = d"
  by (cases fresh) (auto simp: next_uuid_def)

lemma createPreservedFolder_Inr_iff:
  "createPreservedFolder x a now i p name key (d, fresh) = Inr (n, d', fresh') \<longleftrightarrow>
     (\<exists>operation. fresh = operation # fresh' \<and>
        create_folder_with x a now operation i p name key d = Inr (n, d'))"
  by (cases fresh) (auto simp: createPreservedFolder_def next_uuid_def rbind_Inr_iff)

lemma deletePreservedFolder_Inr_iff:
  "deletePreservedFolder x a now r (d, fresh) = Inr (n, d', fresh') \<longleftrightarrow>
     (\<exists>operation. fresh = operation # fresh' \<and> delete_folder_with x a now operation r d = Inr (n, d'))"
  by (cases fresh) (auto simp: deletePreservedFolder_def next_uuid_def rbind_Inr_iff)

lemma movePreservedNote_Inr_iff:
  "movePreservedNote x a now r p (d, fresh) = Inr (n, d', fresh') \<longleftrightarrow>
     (\<exists>operation. fresh = operation # fresh' \<and> move_note_with x a now operation r p d = Inr (n, d'))"
  by (cases fresh) (auto simp: movePreservedNote_def next_uuid_def rbind_Inr_iff)

lemma wrote_last: "wrote u n i row d d' \<Longrightarrow> n = Suc (last_cursor d u) \<and> last_cursor d' u = Suc (last_cursor d u)"
  by (simp add: wrote_def)

lemma clone_folders_keeps:
  assumes "plan_inv d (a_user a) F P T" "snd ` set mapped \<subseteq> T"
    and "clone_folders x a now fs mapped (d, fresh) = Inr (ks, mapped', d', fresh')"
  shows "(\<exists>T'. plan_inv d' (a_user a) F P T' \<and> snd ` set mapped' \<subseteq> T') \<and> plan_step (a_user a) d d' \<and>
    map k_create_cursor ks = [Suc (last_cursor d (a_user a))..<Suc (last_cursor d (a_user a) + length fs)] \<and>
    last_cursor d' (a_user a) = last_cursor d (a_user a) + length fs"
  using assms
proof (induction fs arbitrary: d fresh mapped T ks)
  case Nil
  then show ?case by auto
next
  case (Cons f fs)
  let ?u = "a_user a" and ?r = "nd_state f"
  from Cons.prems(3) obtain i fr1 p t n d1 fr2 ks' where
    src: "o_parent ?r = Some p" and tgt: "map_of mapped p = Some t" and
    run: "createPreservedFolder x a now i t (o_name ?r) (o_key ?r) (d, fr1) = Inr (n, d1, fr2)" and
    rest: "clone_folders x a now fs ((o_id ?r, i) # mapped) (d1, fr2) = Inr (ks', mapped', d', fresh')" and
    ks: "map k_create_cursor ks = n # map k_create_cursor ks'"
    by (cases fresh) (auto simp: next_uuid_def rbind_Inr_iff split: option.splits)
  from run obtain operation where run':
    "create_folder_with x a now operation i t (o_name ?r) (o_key ?r) d = Inr (n, d1)"
    by (auto simp: createPreservedFolder_Inr_iff)
  from tgt Cons.prems(2) have t: "t \<in> T" by (force dest: map_of_SomeD)
  with Cons.prems(1) have "sync_inv d" "parent_available d ?u (Some t)" by (auto simp: plan_inv_def)
  from create_folder_wrote [OF this run'] have
    w: "wrote ?u n i (preserved_row ?u i t (o_name ?r) (o_key ?r) now) d d1" and
    fresh': "loadObject d ?u i = None" by auto
  from create_plan_inv [OF Cons.prems(1) t w fresh'] have
    inv1: "plan_inv d1 ?u F P (insert i T)" and step1: "plan_step ?u d d1" by auto
  have "snd ` set ((o_id ?r, i) # mapped) \<subseteq> insert i T" using Cons.prems(2) by auto
  from Cons.IH [OF inv1 this rest] wrote_last [OF w] step1 show ?case
    by (auto simp: ks upt_conv_Cons simp del: upt_Suc intro: plan_step_trans)
qed

lemma move_notes_keeps:
  assumes "plan_inv d (a_user a) F P T" "snd ` set mapped \<subseteq> T"
    and "\<forall>f\<in>set fs. snapshot d (a_user a) (nd_state f) \<and> o_user (nd_state f) = a_user a"
    and "move_notes x a now fs mapped (d, fresh) = Inr (ns, d', fresh')"
  shows "plan_inv d' (a_user a) F (P - o_id ` nd_state ` set fs) T \<and> plan_step (a_user a) d d' \<and>
    map n_move_cursor ns = [Suc (last_cursor d (a_user a))..<Suc (last_cursor d (a_user a) + length fs)] \<and>
    last_cursor d' (a_user a) = last_cursor d (a_user a) + length fs"
  using assms
proof (induction fs arbitrary: d fresh P ns)
  case Nil
  then show ?case by auto
next
  case (Cons f fs)
  let ?u = "a_user a" and ?r = "nd_state f"
  from Cons.prems(4) obtain p t n d1 fr1 ns' where
    tgt: "map_of mapped p = Some t" and
    run: "movePreservedNote x a now ?r t (d, fresh) = Inr (n, d1, fr1)" and
    rest: "move_notes x a now fs mapped (d1, fr1) = Inr (ns', d', fresh')" and
    ns: "map n_move_cursor ns = n # map n_move_cursor ns'"
    by (auto simp: rbind_Inr_iff split: option.splits)
  from run obtain operation where run': "move_note_with x a now operation ?r t d = Inr (n, d1)"
    by (auto simp: movePreservedNote_Inr_iff)
  from tgt Cons.prems(2) have t: "t \<in> T" by (force dest: map_of_SomeD)
  with Cons.prems(1) have inv: "sync_inv d" "parent_available d ?u (Some t)" by (auto simp: plan_inv_def)
  from Cons.prems(3) have snap: "snapshot d ?u ?r" "o_user ?r = ?u" by auto
  from move_note_current [OF inv(1) snap run'] have cur: "loadObject d ?u (o_id ?r) = Some ?r" .
  from move_note_wrote [OF inv(1) cur inv(2) run'] have
    w: "wrote ?u n (o_id ?r) (moved_now ?r t now ?r) d d1" and nt: "o_type ?r = ObjectNote" by auto
  from move_plan_inv [OF Cons.prems(1) t cur nt w] have
    inv1: "plan_inv d1 ?u F (P - {o_id ?r}) T" and step1: "plan_step ?u d d1" by auto
  have "\<forall>f\<in>set fs. snapshot d1 ?u (nd_state f) \<and> o_user (nd_state f) = ?u"
    using Cons.prems(3) step1 by (auto simp: plan_step_def)
  from Cons.IH [OF inv1 Cons.prems(2) this rest] wrote_last [OF w] step1 show ?case
    by (auto simp: ns upt_conv_Cons Diff_insert2 [symmetric] simp del: upt_Suc intro: plan_step_trans)
qed

text \<open>No folder is deleted before a folder inside it.\<close>

definition children_first :: "preserve_node list \<Rightarrow> bool" where
  "children_first fs \<longleftrightarrow>
     sorted_wrt (\<lambda>f g. o_parent (nd_state g) \<noteq> Some (o_id (nd_state f))) fs \<and>
     (\<forall>f\<in>set fs. o_parent (nd_state f) \<noteq> Some (o_id (nd_state f)))"

lemma children_first_Cons:
  "children_first (f # fs) \<longleftrightarrow>
     children_first fs \<and> (\<forall>g\<in>set (f # fs). o_parent (nd_state g) \<noteq> Some (o_id (nd_state f)))"
  by (auto simp: children_first_def)

text \<open>A deletion with its snapshot, when every pending object's own snapshot says it lies elsewhere.\<close>

definition pending_elsewhere :: "db \<Rightarrow> uuid \<Rightarrow> uuid set \<Rightarrow> uuid \<Rightarrow> bool" where
  "pending_elsewhere d u P i \<longleftrightarrow>
     (\<forall>j q. j \<in> P \<longrightarrow> loadObject d u j = Some q \<longrightarrow> \<not> o_deleted q \<longrightarrow> o_parent q \<noteq> Some i)"

lemma delete_step_keeps:
  assumes inv: "plan_inv d (a_user a) F P T" and i: "o_id r \<in> F"
    and snap: "snapshot d (a_user a) r" "o_user r = a_user a" "o_type r = ObjectFolder"
    and away: "pending_elsewhere d (a_user a) P (o_id r)"
    and run: "delete_folder_with x a now operation r d = Inr (n, d')"
  shows "plan_inv d' (a_user a) F (P - {o_id r}) T \<and> plan_step (a_user a) d d' \<and>
    wrote (a_user a) n (o_id r) (deleted_now r now r) d d'"
proof -
  let ?u = "a_user a"
  have inv': "sync_inv d" using inv by (simp add: plan_inv_def)
  from delete_folder_current [OF inv' snap(1,2) run] have cur: "loadObject d ?u (o_id r) = Some r" .
  have "o_deleted q" if "loadObject d ?u j = Some q" "o_parent q = Some (o_id r)" for j q
    using that inv i away
    unfolding plan_inv_def children_pending_def pending_elsewhere_def by blast
  from delete_folder_wrote [OF inv' cur snap(3) this run] have
    w: "wrote ?u n (o_id r) (deleted_now r now r) d d'" by auto
  with delete_plan_inv [OF inv i cur snap(3) w] show ?thesis by simp
qed

text \<open>A snapshot that is still alive is the current row.\<close>

definition settled :: "db \<Rightarrow> uuid \<Rightarrow> obj_row \<Rightarrow> bool" where
  "settled d u r \<longleftrightarrow> (\<exists>q. loadObject d u (o_id r) = Some q \<and> (q = r \<or> o_rev r < o_rev q \<and> o_deleted q))"

lemma delete_folders_keeps:
  assumes "plan_inv d (a_user a) F (o_id ` nd_state ` set fs) T" "o_id ` nd_state ` set fs \<subseteq> F"
    and "\<forall>f\<in>set fs. settled d (a_user a) (nd_state f) \<and> o_user (nd_state f) = a_user a \<and>
      o_type (nd_state f) = ObjectFolder"
    and "children_first fs"
    and "delete_folders x a now fs (d, fresh) = Inr (ds, d', fresh')"
  shows "plan_inv d' (a_user a) F {} T \<and> plan_step (a_user a) d d' \<and>
    map snd ds = [Suc (last_cursor d (a_user a))..<Suc (last_cursor d (a_user a) + length fs)] \<and>
    map fst ds = map (o_id \<circ> nd_state) fs \<and>
    last_cursor d' (a_user a) = last_cursor d (a_user a) + length fs \<and>
    (\<forall>f\<in>set fs. \<exists>q. loadObject d' (a_user a) (o_id (nd_state f)) = Some q \<and> o_deleted q) \<and>
    (\<forall>j q. loadObject d (a_user a) j = Some q \<longrightarrow> o_deleted q \<longrightarrow>
       (\<exists>q'. loadObject d' (a_user a) j = Some q' \<and> o_deleted q'))"
  using assms
proof (induction fs arbitrary: d fresh ds)
  case Nil
  then show ?case by auto
next
  case (Cons f fs)
  let ?u = "a_user a" and ?r = "nd_state f" and ?rest = "o_id ` nd_state ` set fs"
  from Cons.prems(5) obtain n d1 fr1 ds' where
    run: "deletePreservedFolder x a now ?r (d, fresh) = Inr (n, d1, fr1)" and
    rest: "delete_folders x a now fs (d1, fr1) = Inr (ds', d', fresh')" and
    ds: "ds = (o_id ?r, n) # ds'"
    by (auto simp: rbind_Inr_iff)
  from run obtain operation where run': "delete_folder_with x a now operation ?r d = Inr (n, d1)"
    by (auto simp: deletePreservedFolder_Inr_iff)
  have snap: "snapshot d ?u ?r" "o_user ?r = ?u" "o_type ?r = ObjectFolder"
    using Cons.prems(3) by (auto simp: settled_def snapshot_def)
  have "pending_elsewhere d ?u (o_id ` nd_state ` set (f # fs)) (o_id ?r)"
    unfolding pending_elsewhere_def
  proof (intro allI impI)
    fix j q
    assume j: "j \<in> o_id ` nd_state ` set (f # fs)" "loadObject d ?u j = Some q" "\<not> o_deleted q"
    then obtain g where g: "g \<in> set (f # fs)" "j = o_id (nd_state g)" by blast
    from Cons.prems(3) g(1) have "settled d ?u (nd_state g)" by blast
    with j(2,3) g(2) have "q = nd_state g" by (auto simp: settled_def)
    with g Cons.prems(4) show "o_parent q \<noteq> Some (o_id ?r)" by (simp only: children_first_Cons) blast
  qed
  from delete_step_keeps [OF Cons.prems(1) _ snap this run'] Cons.prems(2) have
    inv1: "plan_inv d1 ?u F (o_id ` nd_state ` set (f # fs) - {o_id ?r}) T" and
    step1: "plan_step ?u d d1" and w: "wrote ?u n (o_id ?r) (deleted_now ?r now ?r) d d1" by auto
  have load: "loadObject d1 ?u = (loadObject d ?u)(o_id ?r \<mapsto> deleted_now ?r now ?r)"
    using w by (simp add: wrote_def)
  have inv2: "plan_inv d1 ?u F ?rest T"
    using inv1 by (auto simp: plan_inv_def children_pending_def)
  have cur: "loadObject d ?u (o_id ?r) = Some ?r"
    using delete_folder_current [OF _ snap(1,2) run'] Cons.prems(1) by (simp add: plan_inv_def)
  have "settled d1 ?u (nd_state g)" if g: "g \<in> set fs" for g
  proof -
    from g Cons.prems(3) have st: "settled d ?u (nd_state g)" by simp
    show ?thesis
    proof (cases "o_id (nd_state g) = o_id ?r")
      case True
      from st obtain q where "loadObject d ?u (o_id (nd_state g)) = Some q"
        "q = nd_state g \<or> o_rev (nd_state g) < o_rev q" unfolding settled_def by blast
      with cur have "o_rev (nd_state g) \<le> o_rev ?r" unfolding True by (metis less_imp_le option.inject order_refl)
      then show ?thesis unfolding settled_def load True by (simp add: deleted_now_def)
    next
      case False
      with st show ?thesis by (simp add: settled_def load)
    qed
  qed
  then have "\<forall>g\<in>set fs. settled d1 ?u (nd_state g) \<and> o_user (nd_state g) = ?u \<and> o_type (nd_state g) = ObjectFolder"
    using Cons.prems(3) by simp
  from Cons.IH [OF inv2 _ this _ rest] Cons.prems(2,4) have
    IH: "plan_inv d' ?u F {} T" "plan_step ?u d1 d'"
      "map snd ds' = [Suc (last_cursor d1 ?u)..<Suc (last_cursor d1 ?u + length fs)]"
      "map fst ds' = map (o_id \<circ> nd_state) fs"
      "last_cursor d' ?u = last_cursor d1 ?u + length fs"
      "\<forall>f\<in>set fs. \<exists>q. loadObject d' ?u (o_id (nd_state f)) = Some q \<and> o_deleted q"
      "\<forall>j q. loadObject d1 ?u j = Some q \<longrightarrow> o_deleted q \<longrightarrow> (\<exists>q'. loadObject d' ?u j = Some q' \<and> o_deleted q')"
    by (auto simp: children_first_Cons)
  have dead: "\<exists>q'. loadObject d' ?u j = Some q' \<and> o_deleted q'"
    if "loadObject d ?u j = Some q" "o_deleted q" for j q
  proof (rule IH(7) [rule_format])
    show "loadObject d1 ?u j = Some (if j = o_id ?r then deleted_now ?r now ?r else q)"
      using that by (simp add: load)
    show "o_deleted (if j = o_id ?r then deleted_now ?r now ?r else q)"
      using that by (simp add: deleted_now_def)
  qed
  have "\<exists>q. loadObject d' ?u (o_id ?r) = Some q \<and> o_deleted q"
    by (rule IH(7) [rule_format, of _ "deleted_now ?r now ?r"]) (simp_all add: load deleted_now_def)
  with IH dead wrote_last [OF w] step1 show ?case
    by (auto simp: ds upt_conv_Cons simp del: upt_Suc intro: plan_step_trans)
qed

end
