(* ===== verification/Sync_Preserve_Safe.thy ===== *)
theory Sync_Preserve_Safe
  imports Sync_Preserve_Plan
begin

text \<open>
  The whole of preserve-and-delete: the plan run from a subtree that was read completely deletes
  every original folder, keeps every note and the invariant; each version reads its subtree
  completely; so the transaction as a whole keeps the invariant.
\<close>

section \<open>The namespace does not disturb the subtree\<close>

lemma ensure_reserved_folder_load:
  assumes "ensure_reserved_folder x a now f (d, fresh) = Inr (d', fresh')"
  shows "loadObject d' (a_user a) j = loadObject d (a_user a) j \<or>
    (j = f_id f \<and> loadObject d (a_user a) j = None \<and>
     (\<exists>r. loadObject d' (a_user a) j = Some r \<and> o_parent r = f_parent f))"
proof (cases "loadObject d (a_user a) (f_id f)")
  case (Some r)
  with assms have "d' = d" by (auto simp: ensure_reserved_folder_def split: if_splits)
  then show ?thesis by simp
next
  case None
  with assms obtain m hash r n d1 d2 where
    c: "allocateCursor (a_user a) d = Inr (n, d1)" and i: "insert_object r d1 = Inr d2" and
    r: "okey r = (a_user a, f_id f)" "o_parent r = f_parent f" and
    h: "write_history a m hash now r n d2 = Inr d'"
    by (cases fresh)
      (auto simp: ensure_reserved_folder_def rbind_Inr_iff Let_def created_row_def okey_def reserved_intent_def)
  have "loadObject d' = loadObject d2" using write_history_load [OF h] by simp
  moreover have "loadObject d1 = loadObject d" using c by (auto simp: statement_iffs)
  ultimately show ?thesis using i r None
    by (auto simp: statement_iffs loadObject_append split: option.splits)
qed

lemma ensureConflictNamespace_load:
  assumes "ensureConflictNamespace x a now (d, fresh) = Inr (d', fresh')"
  shows "loadObject d' (a_user a) j = loadObject d (a_user a) j \<or>
    (isReservedConflictFolder j \<and> loadObject d (a_user a) j = None \<and>
     (\<exists>r. loadObject d' (a_user a) j = Some r \<and> (o_parent r = None \<or> o_parent r = Some ConflictRootID)))"
proof -
  let ?root = "reserved_folders ! 0" and ?rec = "reserved_folders ! Suc 0" and ?u = "a_user a"
  from assms obtain d1 fr1 where
    1: "ensure_reserved_folder x a now ?root (d, fresh) = Inr (d1, fr1)" and
    2: "ensure_reserved_folder x a now ?rec (d1, fr1) = Inr (d', fresh')"
    by (auto simp: ensureConflictNamespace_def reserved_folders_def rbind_Inr_iff)
  have ids: "f_parent ?root = None" "f_id ?root = ConflictRootID"
    "f_parent ?rec = Some ConflictRootID" "f_id ?rec = ConflictRecoveredID"
    by (simp_all add: reserved_folders_def)
  from ensure_reserved_folder_load [OF 1, of j] ensure_reserved_folder_load [OF 2, of j]
  show ?thesis unfolding ids isReservedConflictFolder_def by metis
qed

lemma ensureConflictNamespace_plan:
  assumes "sync_inv d" "ensureConflictNamespace x a now (d, fresh) = Inr (d', fresh')"
    and F: "\<forall>i\<in>F. \<not> isReservedConflictFolder i" "\<forall>i\<in>F. loadObject d (a_user a) i \<noteq> None"
    and P: "children_pending d (a_user a) F P"
  shows "plan_inv d' (a_user a) F P {ConflictRecoveredID} \<and> plan_step (a_user a) d d'"
proof -
  let ?u = "a_user a"
  note load = ensureConflictNamespace_load [OF assms(2)]
  from ensureConflictNamespace_keeps [OF assms(1,2)] have
    inv: "sync_inv d'" "parent_available d' ?u (Some ConflictRecoveredID)" by auto
  have same: "loadObject d' ?u j = Some q" if "loadObject d ?u j = Some q" for j q
    using load [of j] that by auto
  have "children_pending d' ?u F P"
    unfolding children_pending_def
  proof (intro allI impI)
    fix j q p
    assume j: "loadObject d' ?u j = Some q" "\<not> o_deleted q" "o_parent q = Some p" "p \<in> F"
    have "p \<noteq> ConflictRootID" using F(1) j(4) by (auto simp: isReservedConflictFolder_def)
    with load [of j] j have "loadObject d ?u j = Some q" by auto
    with P j show "j \<in> P" by (auto simp: children_pending_def)
  qed
  with inv F same have "plan_inv d' ?u F P {ConflictRecoveredID}"
    by (fastforce simp: plan_inv_def isReservedConflictFolder_def)
  moreover have "plan_step ?u d d'"
    using ensureConflictNamespace_acts [OF assms(2)] same
    by (auto simp: plan_step_def keeps_notes_def keeps_folders_def snapshot_def dest!: same)
  ultimately show ?thesis ..
qed

section \<open>The plan as a whole\<close>

lemma delete_folder_not_reserved:
  "deletePreservedFolder x a now r s = Inr (n, s') \<Longrightarrow> \<not> isReservedConflictFolder (o_id r)"
  by (cases s) (auto simp: deletePreservedFolder_def delete_folder_with_def rbind_Inr_iff log_preserved_Inr_iff
      delete_request_def dest!: canonicalize_InrD(5) split: if_splits)

lemma delete_folders_not_reserved:
  "delete_folders x a now fs s = Inr (ds, s') \<Longrightarrow>
     \<forall>f\<in>set fs. \<not> isReservedConflictFolder (o_id (nd_state f))"
  by (induction fs arbitrary: s ds)
    (auto simp: rbind_Inr_iff dest: delete_folder_not_reserved)

lemma plan_inv_mono: "plan_inv d u F P T \<Longrightarrow> P \<subseteq> Q \<Longrightarrow> plan_inv d u F Q T"
  unfolding plan_inv_def children_pending_def by blast

text \<open>A completely read subtree: what is about to be moved and deleted is all there is.\<close>

definition subtree_read ::
  "db \<Rightarrow> uuid \<Rightarrow> obj_row \<Rightarrow> preserve_node list \<Rightarrow> preserve_node list \<Rightarrow> bool" where
  "subtree_read d u root notes deletions \<longleftrightarrow>
     loadObject d u (o_id root) = Some root \<and> o_type root = ObjectFolder \<and>
     (\<forall>n\<in>set deletions. loadObject d u (o_id (nd_state n)) = Some (nd_state n) \<and> o_type (nd_state n) = ObjectFolder) \<and>
     (\<forall>n\<in>set notes. loadObject d u (o_id (nd_state n)) = Some (nd_state n) \<and> o_type (nd_state n) = ObjectNote) \<and>
     children_first deletions \<and>
     children_pending d u (insert (o_id root) (o_id ` nd_state ` set deletions))
       (o_id ` nd_state ` set deletions \<union> o_id ` nd_state ` set notes)"

definition plan_result :: "preserve_result \<Rightarrow> nat \<Rightarrow> nat \<Rightarrow> nat \<Rightarrow> nat \<Rightarrow> bool" where
  "plan_result s first nf nn nd \<longleftrightarrow>
     s_first_cursor s = first \<and> s_recovered_cursor s = first \<and> s_deleted_cursor s = s_last_cursor s \<and>
     s_last_cursor s = first + nf + nn + nd + 1 \<and>
     map k_create_cursor (s_clones s) = [Suc first..<Suc (first + nf)] \<and>
     map n_move_cursor (s_note_moves s) = [Suc (first + nf)..<Suc (first + nf + nn)]"

lemma run_plan_safe:
  assumes inv: "sync_inv d" and tree: "subtree_read d (a_user a) root notes del"
    and run: "run_plan x a now r root folders notes del (d, fresh) = Inr (s, d', fresh')"
  shows "sync_inv d' \<and> plan_step (a_user a) d d' \<and>
    (\<forall>i\<in>insert (o_id root) (o_id ` nd_state ` set del). \<exists>q. loadObject d' (a_user a) i = Some q \<and> o_deleted q) \<and>
    plan_result s (s_first_cursor s) (length folders) (length notes) (length del) \<and>
    s_last_cursor s = last_cursor d' (a_user a)"
proof -
  let ?u = "a_user a" and ?del = "o_id ` nd_state ` set del" and ?notes = "o_id ` nd_state ` set notes"
  let ?F = "insert (o_id root) ?del"
  from run obtain d1 fr1 i fr2 name key first d2 fr3 ks mapped d3 fr4 ns d4 fr5 ds d5 fr6 final where
    ns: "ensureConflictNamespace x a now (d, fresh) = Inr (d1, i # fr2)" and
    cr: "createPreservedFolder x a now i ConflictRecoveredID name key (d1, fr2) = Inr (first, d2, fr3)" and
    cl: "clone_folders x a now folders [(q_folder r, i)] (d2, fr3) = Inr (ks, mapped, d3, fr4)" and
    mv: "move_notes x a now notes mapped (d3, fr4) = Inr (ns, d4, fr5)" and
    dl: "delete_folders x a now del (d4, fr5) = Inr (ds, d5, fr6)" and
    rt: "deletePreservedFolder x a now root (d5, fr6) = Inr (final, d', fresh')" and
    s: "s = (empty_result i name first final)\<lparr>s_clones := map (with_delete_cursor ds) ks, s_note_moves := ns\<rparr>"
    by (auto simp: run_plan_def rbind_Inr_iff next_uuid_Inr_iff)
  have users: "o_user q = ?u" if "loadObject d ?u j = Some q" for j q
    using that by (auto dest: loadObject_SomeD)
  have reserved: "\<forall>i\<in>?F. \<not> isReservedConflictFolder i"
    using delete_folder_not_reserved [OF rt] delete_folders_not_reserved [OF dl] by auto
  have exist: "\<forall>i\<in>?F. loadObject d ?u i \<noteq> None" using tree by (auto simp: subtree_read_def)
  have "children_pending d ?u ?F (?del \<union> ?notes)" using tree by (simp add: subtree_read_def)
  from ensureConflictNamespace_plan [OF inv ns reserved exist this] have
    1: "plan_inv d1 ?u ?F (?del \<union> ?notes) {ConflictRecoveredID}" "plan_step ?u d d1" by auto
  from cr obtain op1 where cr': "create_folder_with x a now op1 i ConflictRecoveredID name key d1 = Inr (first, d2)"
    by (auto simp: createPreservedFolder_Inr_iff)
  from 1 have "sync_inv d1" "parent_available d1 ?u (Some ConflictRecoveredID)" by (auto simp: plan_inv_def)
  from create_folder_wrote [OF this cr'] create_plan_inv [OF 1(1)] have
    2: "plan_inv d2 ?u ?F (?del \<union> ?notes) {i, ConflictRecoveredID}" "plan_step ?u d1 d2" and
    w2: "last_cursor d2 ?u = first" by (auto simp: wrote_def)
  have "snd ` set [(q_folder r, i)] \<subseteq> {i, ConflictRecoveredID}" by simp
  from clone_folders_keeps [OF 2(1) this cl] obtain T where
    3: "plan_inv d3 ?u ?F (?del \<union> ?notes) T" "snd ` set mapped \<subseteq> T" "plan_step ?u d2 d3"
      "map k_create_cursor ks = [Suc first..<Suc (first + length folders)]"
      "last_cursor d3 ?u = first + length folders" unfolding w2 by auto
  have step3: "plan_step ?u d d3" using 1(2) 2(2) 3(3) by (blast intro: plan_step_trans)
  have "\<forall>f\<in>set notes. snapshot d3 ?u (nd_state f) \<and> o_user (nd_state f) = ?u"
    using tree step3 by (auto simp: subtree_read_def plan_step_def snapshot_def intro: users)
  from move_notes_keeps [OF 3(1,2) this mv] have
    4: "plan_inv d4 ?u ?F (?del \<union> ?notes - ?notes) T" "plan_step ?u d3 d4"
      "map n_move_cursor ns = [Suc (first + length folders)..<Suc (first + length folders + length notes)]"
      "last_cursor d4 ?u = first + length folders + length notes" unfolding 3(5) by auto
  have step4: "plan_step ?u d d4" using step3 4(2) by (rule plan_step_trans)
  have pend: "plan_inv d4 ?u ?F ?del T"
    using 4(1) by (rule plan_inv_mono) auto
  have "settled d4 ?u (nd_state f)" if "f \<in> set del" for f
    using that tree step4 by (fastforce simp: subtree_read_def plan_step_def keeps_folders_def same_folder_def settled_def)
  then have "\<forall>f\<in>set del. settled d4 ?u (nd_state f) \<and> o_user (nd_state f) = ?u \<and> o_type (nd_state f) = ObjectFolder"
    using tree users by (auto simp: subtree_read_def)
  from delete_folders_keeps [OF pend _ this _ dl] tree have
    5: "plan_inv d5 ?u ?F {} T" "plan_step ?u d4 d5"
      "last_cursor d5 ?u = first + length folders + length notes + length del"
      "\<forall>f\<in>set del. \<exists>q. loadObject d5 ?u (o_id (nd_state f)) = Some q \<and> o_deleted q"
    unfolding 4(4) by (auto simp: subtree_read_def)
  have step5: "plan_step ?u d d5" using step4 5(2) by (rule plan_step_trans)
  from rt obtain op2 where rt': "delete_folder_with x a now op2 root d5 = Inr (final, d')"
    by (auto simp: deletePreservedFolder_Inr_iff)
  have "snapshot d5 ?u root" "o_user root = ?u" "o_type root = ObjectFolder"
    using tree step5 users by (auto simp: subtree_read_def plan_step_def snapshot_def)
  from delete_step_keeps [OF 5(1) _ this _ rt'] have
    6: "plan_inv d' ?u ?F {} T" "plan_step ?u d5 d'" "wrote ?u final (o_id root) (deleted_now root now root) d5 d'"
    by (auto simp: pending_elsewhere_def)
  have "\<exists>q. loadObject d' ?u i = Some q \<and> o_deleted q" if "i \<in> ?F" for i
    using that 5(4) 6(3) by (cases "i = o_id root") (auto simp: wrote_def deleted_now_def)
  moreover have "map k_create_cursor (map (with_delete_cursor ds) ks) = map k_create_cursor ks"
    by (simp add: with_delete_cursor_def comp_def)
  ultimately show ?thesis
    using 6 step5 3(4) 4(3) 5(3)
    by (auto simp: s plan_inv_def wrote_def plan_result_def empty_result_def intro: plan_step_trans)
qed

end
