(* ===== verification/Sync_Preserve_Scan.thy ===== *)
theory Sync_Preserve_Scan
  imports Sync_Preserve_Safe
begin

text \<open>
  Each version of preserve-and-delete reads the subtree completely before it changes anything, so
  the plan of \<open>Sync_Preserve_Safe\<close> applies: version 1 has no children ever, versions 2 and 3 refuse
  nested folders, version 4 walks the tree with a bound on depth and number that it checks.
\<close>

section \<open>Direct children\<close>

lemma scan_children_Inr:
  assumes "scan_children d u v cs (F0, N0) = Inr (F, N)"
  shows "\<exists>fs ns. F = F0 @ fs \<and> N = N0 @ ns \<and> set fs \<union> set ns = set cs \<and>
    (\<forall>f\<in>set fs. o_type f = ObjectFolder \<and> \<not> has_active_child d u (o_id f)) \<and>
    (\<forall>n\<in>set ns. o_type n = ObjectNote)"
  using assms
proof (induction cs arbitrary: F0 N0)
  case (Cons c cs)
  from Cons.prems consider
      "o_type c = ObjectFolder" "\<not> has_active_child d u (o_id c)"
        "scan_children d u v cs (F0 @ [c], N0) = Inr (F, N)"
    | "o_type c = ObjectNote" "scan_children d u v cs (F0, N0 @ [c]) = Inr (F, N)"
    by (auto simp: rbind_Inr_iff split: object_type.splits if_splits)
  then show ?case
  proof cases
    case 1
    from Cons.IH [OF 1(3)] obtain fs ns where "F = (F0 @ [c]) @ fs" "N = N0 @ ns"
      "set fs \<union> set ns = set cs" "\<forall>f\<in>set fs. o_type f = ObjectFolder \<and> \<not> has_active_child d u (o_id f)"
      "\<forall>n\<in>set ns. o_type n = ObjectNote" by blast
    with 1(1,2) show ?thesis by (intro exI [of _ "c # fs"] exI [of _ ns]) auto
  next
    case 2
    from Cons.IH [OF 2(2)] obtain fs ns where "F = F0 @ fs" "N = (N0 @ [c]) @ ns"
      "set fs \<union> set ns = set cs" "\<forall>f\<in>set fs. o_type f = ObjectFolder \<and> \<not> has_active_child d u (o_id f)"
      "\<forall>n\<in>set ns. o_type n = ObjectNote" by blast
    with 2(1) show ?thesis by (intro exI [of _ fs] exI [of _ "c # ns"]) auto
  qed
qed simp

lemma active_child_iff:
  "has_active_child d u i \<longleftrightarrow> (\<exists>r\<in>set (objects d). o_user r = u \<and> o_parent r = Some i \<and> \<not> o_deleted r)"
  by (auto simp: has_active_child_def list_ex_iff)

lemma not_own_parent:
  "tree_ok d u \<Longrightarrow> loadObject d u i = Some r \<Longrightarrow> o_parent r \<noteq> Some i"
  unfolding tree_ok_def acyclic_def
  by (metis (mono_tags, lifting) case_prodI mem_Collect_eq parent_rel_def r_into_trancl)

lemma direct_subtree_read:
  assumes inv: "sync_inv d" and root: "loadObject d u (o_id root) = Some root" "o_type root = ObjectFolder"
    and scan: "scan_children d u v (direct_children d u (o_id root)) ([], []) = Inr (folders, notes)"
  shows "subtree_read d u root (map (\<lambda>c. \<lparr>nd_state = c, nd_depth = 1\<rparr>) notes)
    (map (\<lambda>c. \<lparr>nd_state = c, nd_depth = 1\<rparr>) folders)"
proof -
  from scan_children_Inr [OF scan] have
    all: "set folders \<union> set notes = set (direct_children d u (o_id root))" and
    fs: "\<And>f. f \<in> set folders \<Longrightarrow> o_type f = ObjectFolder \<and> \<not> has_active_child d u (o_id f)" and
    ns: "\<And>n. n \<in> set notes \<Longrightarrow> o_type n = ObjectNote" by auto
  have objs: "objects_ok d" and tree: "tree_ok d u" using inv by (auto simp: sync_inv_def)
  have child: "loadObject d u (o_id c) = Some c \<and> o_parent c = Some (o_id root)"
    if "c \<in> set folders \<union> set notes" for c
    using that objs by (auto simp: all direct_children_def loadObject_eq_iff)
  have "children_first (map (\<lambda>c. \<lparr>nd_state = c, nd_depth = 1\<rparr>) folders)"
  proof -
    have "o_parent g \<noteq> Some (o_id f)" if fg: "f \<in> set folders" "g \<in> set folders" for f g
    proof
      assume "o_parent g = Some (o_id f)"
      with child [of g] fg have "o_id f = o_id root" by simp
      with child [of f] fg have "loadObject d u (o_id root) = Some f" "o_parent f = Some (o_id root)"
        by (metis UnI1)+
      with not_own_parent [OF tree] show False by blast
    qed
    then show ?thesis
      by (auto simp: children_first_def sorted_wrt_map intro: sorted_wrt_mono_rel [of _ "\<lambda>_ _. True"])
  qed
  moreover have "children_pending d u (insert (o_id root) (o_id ` set folders)) (o_id ` set folders \<union> o_id ` set notes)"
    unfolding children_pending_def
  proof (intro allI impI)
    fix j q p
    assume q: "loadObject d u j = Some q" "\<not> o_deleted q" "o_parent q = Some p"
      "p \<in> insert (o_id root) (o_id ` set folders)"
    from q(1) have q': "q \<in> set (objects d)" "o_user q = u" "o_id q = j" by (auto dest: loadObject_SomeD)
    from q(4) show "j \<in> o_id ` set folders \<union> o_id ` set notes"
    proof
      assume "p = o_id root"
      with q q' have "q \<in> set folders \<union> set notes" by (simp add: all direct_children_def)
      with q'(3) show ?thesis by blast
    next
      assume "p \<in> o_id ` set folders"
      with q q' fs show ?thesis by (auto simp: active_child_iff)
    qed
  qed
  ultimately show ?thesis
    using root child fs ns by (auto simp: subtree_read_def image_image)
qed

section \<open>The recursive walk\<close>

definition tree_row_ok :: "db \<Rightarrow> uuid \<Rightarrow> uuid \<Rightarrow> tree_row \<Rightarrow> bool" where
  "tree_row_ok d u i t \<longleftrightarrow>
     t_row t \<in> set (objects d) \<and> o_user (t_row t) = u \<and> \<not> o_deleted (t_row t) \<and>
     (o_id (t_row t), i) \<in> (parent_rel d u) ^^ t_depth t"

lemma tree_children_ok:
  assumes "objects_ok d" "tree_row_ok d u i t" "s \<in> set (tree_children d u t)"
  shows "tree_row_ok d u i s \<and> t_depth s = Suc (t_depth t)"
proof -
  from assms(3) have s: "t_row s \<in> set (objects d)" "o_user (t_row s) = u" "\<not> o_deleted (t_row s)"
    "o_parent (t_row s) = Some (o_id (t_row t))" "t_depth s = Suc (t_depth t)"
    by (auto simp: tree_children_def split: if_splits)
  with assms(1) have "(o_id (t_row s), o_id (t_row t)) \<in> parent_rel d u"
    by (auto simp: parent_rel_def loadObject_eq_iff)
  moreover have "(o_id (t_row t), i) \<in> parent_rel d u ^^ t_depth t"
    using assms(2) by (simp add: tree_row_ok_def)
  ultimately have "(o_id (t_row s), i) \<in> parent_rel d u ^^ Suc (t_depth t)"
    by (rule relpow_Suc_I2)
  with s show ?thesis by (simp add: tree_row_ok_def del: relpow.simps)
qed

lemma tree_levels_ok:
  assumes "objects_ok d" "\<forall>t\<in>set level. tree_row_ok d u i t"
  shows "\<forall>t\<in>set (tree_levels n d u level). tree_row_ok d u i t"
  using assms
proof (induction n arbitrary: level)
  case (Suc n)
  have "\<forall>t\<in>set (concat (map (tree_children d u) level)). tree_row_ok d u i t"
    using Suc.prems tree_children_ok by auto
  from Suc.IH [OF Suc.prems(1) this] Suc.prems(2) show ?case by auto
qed simp

lemma level_in_levels: "set level \<subseteq> set (tree_levels n d u level)"
  by (cases n) auto

lemma tree_levels_closed:
  assumes "\<forall>t\<in>set level. t_depth t = k" "t \<in> set (tree_levels n d u level)" "t_depth t < k + n"
  shows "set (tree_children d u t) \<subseteq> set (tree_levels n d u level)"
  using assms
proof (induction n arbitrary: level k)
  case (Suc n)
  let ?below = "concat (map (tree_children d u) level)"
  have depth: "\<forall>t\<in>set ?below. t_depth t = Suc k"
    using Suc.prems(1) by (auto simp: tree_children_def split: if_splits)
  from Suc.prems(2) consider "t \<in> set level" | "t \<in> set (tree_levels n d u ?below)" by auto
  then show ?case
  proof cases
    case 1
    then have "set (tree_children d u t) \<subseteq> set ?below" by auto
    also have "\<dots> \<subseteq> set (tree_levels n d u ?below)" by (rule level_in_levels)
    finally show ?thesis by auto
  next
    case 2
    from Suc.IH [OF depth 2] Suc.prems(3) show ?thesis by auto
  qed
qed simp

definition node_of_row :: "tree_row \<Rightarrow> preserve_node" where
  "node_of_row t = \<lparr>nd_state = t_row t, nd_depth = t_depth t\<rparr>"

lemma scan_tree_Inr:
  assumes "scan_tree d u ts (F0, N0) = Inr (F, N)"
  shows "F = F0 @ map node_of_row (filter (\<lambda>t. o_type (t_row t) = ObjectFolder) ts) \<and>
    N = N0 @ map node_of_row (filter (\<lambda>t. o_type (t_row t) = ObjectNote) ts) \<and>
    (\<forall>t\<in>set ts. \<not> t_cycle t \<and> t_depth t \<le> 256 \<and> (o_type (t_row t) = ObjectFolder \<or> o_type (t_row t) = ObjectNote)) \<and>
    length F + length N = length F0 + length N0 + length ts \<and>
    (length F0 + length N0 \<le> maxPreserved \<longrightarrow> length F + length N \<le> maxPreserved)"
  using assms
proof (induction ts arbitrary: F0 N0)
  case (Cons t ts)
  have node: "\<lparr>nd_state = t_row t, nd_depth = t_depth t\<rparr> = node_of_row t" by (simp add: node_of_row_def)
  from Cons.prems have ok: "\<not> t_cycle t" "t_depth t \<le> 256"
    by (auto simp: Let_def split: if_splits)
  from Cons.prems consider
      "o_type (t_row t) = ObjectFolder" "scan_tree d u ts (F0 @ [node_of_row t], N0) = Inr (F, N)"
        "length F0 + length N0 < maxPreserved"
    | "o_type (t_row t) = ObjectNote" "scan_tree d u ts (F0, N0 @ [node_of_row t]) = Inr (F, N)"
        "length F0 + length N0 < maxPreserved"
    by (auto simp: Let_def rbind_Inr_iff node split: object_type.splits if_splits)
  then show ?case
  proof cases
    case 1
    from Cons.IH [OF 1(2)] 1(1,3) ok show ?thesis by auto
  next
    case 2
    from Cons.IH [OF 2(2)] 2(1,3) ok show ?thesis by auto
  qed
qed simp

text \<open>In a tree the depth of a descendant is determined.\<close>

lemma parent_rel_step: "(i, p) \<in> parent_rel d u \<Longrightarrow> (i, q) \<in> parent_rel d u \<Longrightarrow> p = q"
  by (auto simp: parent_rel_def)

lemma relpow_extend:
  "(j, i) \<in> parent_rel d u ^^ k \<Longrightarrow> (j, l) \<in> parent_rel d u ^^ (k + m) \<Longrightarrow> (i, l) \<in> parent_rel d u ^^ m"
proof (induction k arbitrary: j)
  case (Suc k)
  from Suc.prems(1) obtain p where p: "(j, p) \<in> parent_rel d u" "(p, i) \<in> parent_rel d u ^^ k"
    by (metis relpow_Suc_D2)
  from Suc.prems(2) obtain p' where "(j, p') \<in> parent_rel d u" "(p', l) \<in> parent_rel d u ^^ (k + m)"
    by (metis add_Suc relpow_Suc_D2)
  with p Suc.IH show ?case by (metis parent_rel_step)
qed simp

lemma depth_unique:
  assumes "tree_ok d u" "(j, i) \<in> parent_rel d u ^^ k" "(j, i) \<in> parent_rel d u ^^ l"
  shows "k = l"
proof -
  have no_more: False if "(j, i) \<in> parent_rel d u ^^ k'" "(j, i) \<in> parent_rel d u ^^ (k' + Suc m)" for k' m
  proof -
    have "(i, i) \<in> parent_rel d u ^^ Suc m" using relpow_extend [OF that] .
    then have "(i, i) \<in> (parent_rel d u)\<^sup>+" by (metis trancl_power zero_less_Suc)
    with assms(1) show False by (simp add: tree_ok_def acyclic_def)
  qed
  show ?thesis
  proof (rule ccontr)
    assume "k \<noteq> l"
    then consider m where "l = k + Suc m" | m where "k = l + Suc m"
      by (metis add_Suc_right less_imp_Suc_add linorder_neqE_nat)
    then show False using no_more assms(2,3) by cases blast+
  qed
qed

lemma depth_of_parent:
  assumes "objects_ok d" "tree_ok d u" "tree_row_ok d u i s" "tree_row_ok d u i t"
    and "o_parent (t_row s) = Some (o_id (t_row t))"
  shows "t_depth s = Suc (t_depth t)"
proof -
  have "(o_id (t_row s), o_id (t_row t)) \<in> parent_rel d u"
    using assms(1,3,5) by (auto simp: parent_rel_def tree_row_ok_def loadObject_eq_iff)
  moreover have "(o_id (t_row t), i) \<in> parent_rel d u ^^ t_depth t"
    using assms(4) by (simp add: tree_row_ok_def)
  ultimately have "(o_id (t_row s), i) \<in> parent_rel d u ^^ Suc (t_depth t)"
    by (rule relpow_Suc_I2)
  with depth_unique [OF assms(2)] assms(3) show ?thesis unfolding tree_row_ok_def by blast
qed

text \<open>A walk that no check stopped has returned every row.\<close>

lemma tree_scan_complete:
  assumes "scan_tree d u (tree_scan d u i) ([], []) = Inr (folders, notes)"
  defines "start \<equiv> map (\<lambda>r. \<lparr>t_row = r, t_depth = 0, t_path = [o_id r], t_cycle = False\<rparr>)
    (filter (\<lambda>r. o_user r = u \<and> o_id r = i \<and> \<not> o_deleted r) (objects d))"
  shows "set (tree_scan d u i) = set (tree_levels maxTreeDepth d u start)"
proof -
  let ?all = "sort_key t_depth (sort_key (\<lambda>t. o_id (t_row t)) (tree_levels maxTreeDepth d u start))"
  have scan: "tree_scan d u i = take 10001 ?all" by (simp add: tree_scan_def start_def)
  from scan_tree_Inr [OF assms(1)] have "length (tree_scan d u i) \<le> 10000"
    by (simp add: maxPreserved_def)
  with scan have "tree_scan d u i = ?all" by simp
  then show ?thesis by simp
qed

lemma recursive_rows:
  assumes objs: "objects_ok d" and scan: "scan_tree d u (tree_scan d u i) ([], []) = Inr (folders, notes)"
    and t: "t \<in> set (tree_scan d u i)"
  shows "tree_row_ok d u i t" "set (tree_children d u t) \<subseteq> set (tree_scan d u i)"
proof -
  let ?start = "map (\<lambda>r. \<lparr>t_row = r, t_depth = 0, t_path = [o_id r], t_cycle = False\<rparr>)
    (filter (\<lambda>r. o_user r = u \<and> o_id r = i \<and> \<not> o_deleted r) (objects d))"
  note all = tree_scan_complete [OF scan]
  have "\<forall>t\<in>set ?start. tree_row_ok d u i t" by (auto simp: tree_row_ok_def)
  from tree_levels_ok [OF objs this] t all show "tree_row_ok d u i t" by blast
  have "t_depth t < 0 + maxTreeDepth"
    using scan_tree_Inr [OF scan] t by (auto simp: maxTreeDepth_def)
  moreover have "\<forall>t\<in>set ?start. t_depth t = 0" by auto
  ultimately show "set (tree_children d u t) \<subseteq> set (tree_scan d u i)"
    using tree_levels_closed [of ?start 0 t maxTreeDepth d u] t all by simp
qed

lemma delete_order_sorted:
  "sorted_wrt (\<lambda>f g. nd_depth g \<le> nd_depth f) (delete_order fs)"
proof -
  have "sorted (map (\<lambda>f. - int (nd_depth f)) (delete_order fs))"
    by (simp add: delete_order_def)
  then show ?thesis by (simp add: sorted_map)
qed

lemma recursive_subtree_read:
  assumes inv: "sync_inv d" and scan: "scan_tree d u (tree_scan d u (q_folder r)) ([], []) = Inr (folders, notes)"
    and shape: "tree_shape_ok r folders notes"
  shows "subtree_read d u (nd_state (hd folders)) (note_order fo notes) (delete_order (folder_order (tl folders)))"
proof -
  let ?i = "q_folder r" and ?rows = "set (tree_scan d u (q_folder r))"
  let ?del = "delete_order (folder_order (tl folders))"
  have objs: "objects_ok d" and tree: "tree_ok d u" using inv by (auto simp: sync_inv_def)
  note rows = recursive_rows [OF objs scan]
  from scan_tree_Inr [OF scan] have
    F: "set folders = node_of_row ` {t \<in> ?rows. o_type (t_row t) = ObjectFolder}" and
    N: "set notes = node_of_row ` {t \<in> ?rows. o_type (t_row t) = ObjectNote}" and
    types: "\<And>t. t \<in> ?rows \<Longrightarrow> \<not> t_cycle t \<and> (o_type (t_row t) = ObjectFolder \<or> o_type (t_row t) = ObjectNote)"
    by auto
  have del: "set ?del = set (tl folders)" by (simp add: delete_order_def folder_order_def)
  have ordered: "set (note_order fo notes) = set notes" by (simp add: note_order_def)
  from shape have ne: "folders \<noteq> []" and root: "o_id (nd_state (hd folders)) = ?i" "nd_depth (hd folders) = 0"
    by (auto simp: tree_shape_ok_def)
  have split: "set folders = insert (hd folders) (set (tl folders))" using ne by (cases folders) auto
  have load: "loadObject d u (o_id (nd_state n)) = Some (nd_state n)" if "n \<in> set folders \<union> set notes" for n
    using that rows(1) objs by (auto simp: F N node_of_row_def tree_row_ok_def loadObject_eq_iff)
  have depth: "nd_depth g = Suc (nd_depth f)"
    if "f \<in> set folders" "g \<in> set folders" "o_parent (nd_state g) = Some (o_id (nd_state f))" for f g
  proof -
    from that(1,2) obtain s t where "f = node_of_row s" "s \<in> ?rows" "g = node_of_row t" "t \<in> ?rows"
      by (auto simp: F)
    with that(3) depth_of_parent [OF objs tree rows(1) [of t] rows(1) [of s]] show ?thesis
      by (simp add: node_of_row_def)
  qed
  have away: "o_parent (nd_state g) \<noteq> Some (o_id (nd_state f))"
    if "f \<in> set ?del" "g \<in> set ?del" "nd_depth g \<le> nd_depth f" for f g
  proof -
    from that(1,2) have "f \<in> set folders" "g \<in> set folders" unfolding split del by auto
    from depth [OF this] that(3) show ?thesis by auto
  qed
  have "children_first ?del"
    unfolding children_first_def
  proof
    from away show "sorted_wrt (\<lambda>f g. o_parent (nd_state g) \<noteq> Some (o_id (nd_state f))) ?del"
      by (rule sorted_wrt_mono_rel [OF _ delete_order_sorted])
    show "\<forall>f\<in>set ?del. o_parent (nd_state f) \<noteq> Some (o_id (nd_state f))"
      using away by blast
  qed
  moreover have "children_pending d u (insert (o_id (nd_state (hd folders))) (o_id ` nd_state ` set ?del))
      (o_id ` nd_state ` set ?del \<union> o_id ` nd_state ` set (note_order fo notes))"
    unfolding children_pending_def
  proof (intro allI impI)
    fix j q p
    assume q: "loadObject d u j = Some q" "\<not> o_deleted q" "o_parent q = Some p"
      "p \<in> insert (o_id (nd_state (hd folders))) (o_id ` nd_state ` set ?del)"
    then have "p \<in> o_id ` nd_state ` set folders" by (auto simp: split del)
    then obtain t where t: "t \<in> ?rows" "o_type (t_row t) = ObjectFolder" "o_id (t_row t) = p"
      by (auto simp: F node_of_row_def)
    from q(1) have q': "q \<in> set (objects d)" "o_user q = u" "o_id q = j" by (auto dest: loadObject_SomeD)
    then obtain s where s: "s \<in> set (tree_children d u t)" "t_row s = q"
      using q(2,3) t types by (fastforce simp: tree_children_def)
    then have s': "s \<in> ?rows" using rows(2) t(1) by blast
    have pos: "t_depth s = Suc (t_depth t)"
      using tree_children_ok [OF objs rows(1) [OF t(1)] s(1)] by simp
    from types [OF s'] show "j \<in> o_id ` nd_state ` set ?del \<union> o_id ` nd_state ` set (note_order fo notes)"
    proof (elim conjE disjE)
      assume "o_type (t_row s) = ObjectNote"
      with s' have "node_of_row s \<in> set notes" by (simp add: N)
      with s(2) q'(3) show ?thesis by (force simp: ordered node_of_row_def)
    next
      assume "o_type (t_row s) = ObjectFolder"
      with s' have "node_of_row s \<in> set folders" by (simp add: F)
      moreover have "node_of_row s \<noteq> hd folders" using pos root(2) by (metis node_of_row_def old.nat.distinct(2) preserve_node.select_convs(2))
      ultimately have "node_of_row s \<in> set (tl folders)" using split by simp
      with s(2) q'(3) show ?thesis by (force simp: del node_of_row_def)
    qed
  qed
  moreover have "hd folders \<in> set folders" using ne by simp
  moreover have "o_type (nd_state n) = ObjectFolder" if "n \<in> set folders" for n
    using that by (auto simp: F node_of_row_def)
  moreover have "o_type (nd_state n) = ObjectNote" if "n \<in> set notes" for n
    using that by (auto simp: N node_of_row_def)
  ultimately show ?thesis
    using load by (simp add: subtree_read_def del ordered split)
qed

end
