(* ===== verification/Sync_Preserve_Result.thy ===== *)
theory Sync_Preserve_Result
  imports Sync_Preserve_Scan
begin

text \<open>
  The outcome of preserve-and-delete over all versions: a request answered from a stored resolution
  changes nothing; any other success runs the plan on a completely read subtree.
\<close>

section \<open>Outcome of the plan\<close>

definition plan_done :: "uuid \<Rightarrow> preserve_request \<Rightarrow> db \<Rightarrow> preserve_result \<Rightarrow> db \<Rightarrow> bool" where
  "plan_done u r d s d' \<longleftrightarrow>
     (\<exists>d1. sync_inv d1 \<and> plan_step u d d1 \<and> same_sync d1 d' \<and>
        (\<exists>q. loadObject d1 u (q_folder r) = Some q \<and> o_deleted q) \<and>
        s_last_cursor s = last_cursor d1 u \<and> last_cursor_exact s \<and>
        map k_create_cursor (s_clones s) =
          [Suc (s_first_cursor s)..<Suc (s_first_cursor s + length (s_clones s))] \<and>
        map n_move_cursor (s_note_moves s) =
          [Suc (s_first_cursor s + length (s_clones s))..<
           Suc (s_first_cursor s + length (s_clones s) + length (s_note_moves s))])"

lemma deletable_rootD:
  "deletable_root a r d = Some cur \<Longrightarrow>
     loadObject d (a_user a) (q_folder r) = Some cur \<and> o_id cur = q_folder r \<and> o_user cur = a_user a \<and>
     o_type cur = ObjectFolder \<and> \<not> o_deleted cur \<and> o_rev cur = q_expected_revision r"
  by (auto simp: deletable_root_def dest: loadObject_SomeD split: option.splits if_splits)

lemma plan_result_exact:
  assumes "plan_result s (s_first_cursor s) nf nn nd" "nd = nf"
  shows "last_cursor_exact s \<and>
    map k_create_cursor (s_clones s) =
      [Suc (s_first_cursor s)..<Suc (s_first_cursor s + length (s_clones s))] \<and>
    map n_move_cursor (s_note_moves s) =
      [Suc (s_first_cursor s + length (s_clones s))..<
       Suc (s_first_cursor s + length (s_clones s) + length (s_note_moves s))]"
proof -
  from assms have
    ks: "map k_create_cursor (s_clones s) = [Suc (s_first_cursor s)..<Suc (s_first_cursor s + nf)]" and
    ns: "map n_move_cursor (s_note_moves s) =
      [Suc (s_first_cursor s + nf)..<Suc (s_first_cursor s + nf + nn)]" and
    final: "s_last_cursor s = s_first_cursor s + nf + nn + nf + 1"
    by (simp_all add: plan_result_def del: upt_Suc)
  from arg_cong [OF ks, of length] have "length (s_clones s) = nf" by (simp del: upt_Suc)
  moreover from arg_cong [OF ns, of length] have "length (s_note_moves s) = nn" by (simp del: upt_Suc)
  ultimately show ?thesis using ks ns final by (simp add: last_cursor_exact_def del: upt_Suc)
qed

lemma run_plan_done:
  assumes inv: "sync_inv d" and tree: "subtree_read d (a_user a) root notes del"
    and root: "o_id root = q_folder r"
    and len: "length del = length folders"
    and run: "run_plan x a now r root folders notes del (d, fresh) = Inr (s, d1, fresh')"
    and same: "same_sync d1 d'"
  shows "plan_done (a_user a) r d s d'"
proof -
  from run_plan_safe [OF inv tree run] have
    1: "sync_inv d1" "plan_step (a_user a) d d1" "s_last_cursor s = last_cursor d1 (a_user a)"
      "\<exists>q. loadObject d1 (a_user a) (o_id root) = Some q \<and> o_deleted q" and
    2: "plan_result s (s_first_cursor s) (length folders) (length notes) (length del)" by auto
  show ?thesis
    unfolding plan_done_def
    by (rule exI [of _ d1]) (use 1 same root plan_result_exact [OF 2 len] in simp)
qed

section \<open>Version 1\<close>

lemma no_version_no_child:
  assumes "sync_inv d" "\<not> ever_had_child d u i" "loadObject d u j = Some q"
  shows "o_parent q \<noteq> Some i"
proof
  assume parent: "o_parent q = Some i"
  from assms(3) have q: "q \<in> set (objects d)" "o_user q = u" by (auto dest: loadObject_SomeD)
  with assms(1) obtain v where "v \<in> set (versions d)" "version_matches v q"
    by (auto simp: sync_inv_def history_ok_def object_recorded_def)
  with q(2) parent assms(2) show False
    by (auto simp: ever_had_child_def list_ex_iff version_matches_def verkey_def)
qed

lemma run_v1_done:
  assumes inv: "sync_inv d" and cur: "deletable_root a r d = Some cur"
    and none: "\<not> ever_had_child d (a_user a) (q_folder r)"
    and run: "run_v1 x a now r hash cur (d, fresh) = Inr (s, d')"
  shows "plan_done (a_user a) r d s d'"
proof -
  let ?u = "a_user a" and ?i = "q_folder r"
  from deletable_rootD [OF cur] have
    cur': "loadObject d ?u ?i = Some cur" "o_id cur = ?i" "o_user cur = ?u" "o_type cur = ObjectFolder"
    by auto
  from run obtain d1 i op1 op2 fr1 name key first d2 final d3 where
    ns: "ensureConflictNamespace x a now (d, fresh) = Inr (d1, i # op1 # op2 # fr1)" and
    cr: "create_folder_with x a now op1 i ConflictRecoveredID name key d1 = Inr (first, d2)" and
    dl: "delete_folder_with x a now op2 cur d2 = Inr (final, d3)" and
    st: "store_resolution a r hash (empty_result i '''' first final) d3 = Inr d'" and
    s: "s = empty_result i '''' first final"
    by (auto simp: run_v1_def rbind_Inr_iff next_uuid_Inr_iff Let_def)
  have "deletePreservedFolder x a now cur (d2, [op2]) = Inr (final, d3, [])"
    using dl by (simp add: deletePreservedFolder_Inr_iff)
  from delete_folder_not_reserved [OF this] have reserved: "\<forall>j\<in>{?i}. \<not> isReservedConflictFolder j"
    by (simp add: cur')
  have "children_pending d ?u {?i} {}"
    using no_version_no_child [OF inv none] by (auto simp: children_pending_def)
  from ensureConflictNamespace_plan [OF inv ns reserved _ this] cur' have
    1: "plan_inv d1 ?u {?i} {} {ConflictRecoveredID}" "plan_step ?u d d1" by auto
  then have "sync_inv d1" "parent_available d1 ?u (Some ConflictRecoveredID)" by (auto simp: plan_inv_def)
  from create_folder_wrote [OF this cr] create_plan_inv [OF 1(1)] have
    2: "plan_inv d2 ?u {?i} {} {i, ConflictRecoveredID}" "plan_step ?u d1 d2" "last_cursor d2 ?u = first"
    by (auto simp: wrote_def)
  have step2: "plan_step ?u d d2" using 1(2) 2(2) by (rule plan_step_trans)
  have "snapshot d ?u cur" using cur' by (simp add: snapshot_def)
  with step2 have "snapshot d2 ?u cur" by (simp add: plan_step_def)
  from delete_step_keeps [OF 2(1) _ this cur'(3,4) _ dl] have
    3: "plan_inv d3 ?u {?i} {} {i, ConflictRecoveredID}" "plan_step ?u d2 d3"
      "wrote ?u final ?i (deleted_now cur now cur) d2 d3"
    by (auto simp: pending_elsewhere_def cur')
  show ?thesis
    unfolding plan_done_def
  proof (rule exI [of _ d3], intro conjI)
    show "sync_inv d3" using 3(1) by (simp add: plan_inv_def)
    show "plan_step ?u d d3" using step2 3(2) by (rule plan_step_trans)
    show "same_sync d3 d'" by (rule store_resolution_same [OF st])
    show "\<exists>q. loadObject d3 ?u ?i = Some q \<and> o_deleted q"
      using 3(3) by (simp add: wrote_def deleted_now_def)
  qed (use 3(3) 2(3) in \<open>simp_all add: s empty_result_def last_cursor_exact_def wrote_def\<close>)
qed

section \<open>All versions\<close>

lemma preserve_v1_cases:
  assumes "sync_inv d" "preserve_v1 x a now fresh r d = Inr (s, d')"
  shows "d' = d \<or> plan_done (a_user a) r d s d'"
proof -
  have run: "run_v1 x a now r h cur (d, fresh) = Inr (s, d') \<Longrightarrow> deletable_root a r d = Some cur \<Longrightarrow>
      \<not> ever_had_child d (a_user a) (q_folder r) \<Longrightarrow> plan_done (a_user a) r d s d'" for h cur
    using run_v1_done [OF assms(1)] by blast
  from assms(2) show ?thesis
    by (auto simp: preserve_v1_def rbind_Inr_iff Let_def intro: run split: option.splits if_splits)
qed

lemma preserve_direct_cases:
  assumes inv: "sync_inv d" and run: "preserve_direct x a now fresh r d = Inr (s, d')"
  shows "d' = d \<or> plan_done (a_user a) r d s d'"
proof -
  let ?u = "a_user a" and ?node = "\<lambda>c. \<lparr>nd_state = c, nd_depth = 1\<rparr>"
  from run consider "d' = d"
    | root folders nts s0 d1 fr where
      "deletable_root a r d = Some root"
      "scan_children d ?u (q_version r) (direct_children d ?u (q_folder r)) ([], []) = Inr (folders, nts)"
      "run_plan x a now r root (map ?node folders) (map ?node nts) (map ?node folders) (d, fresh) = Inr (s0, d1, fr)"
      "store_resolution a r (preserveRequestHash x r) (s0\<lparr>s_clones := map direct_clone (s_clones s0)\<rparr>) d1 = Inr d'"
      "s = s0\<lparr>s_clones := map direct_clone (s_clones s0)\<rparr>"
    by (auto simp: preserve_direct_def rbind_Inr_iff Let_def split: option.splits if_splits)
  then show ?thesis
  proof cases
    case (2 root folders nts s0 d1 fr)
    from deletable_rootD [OF 2(1)] have root: "loadObject d ?u (o_id root) = Some root"
      "o_type root = ObjectFolder" "o_id root = q_folder r" by auto
    from direct_subtree_read [OF inv root(1,2)] 2(2) root(3) have
      "subtree_read d ?u root (map ?node nts) (map ?node folders)" by simp
    from run_plan_done [OF inv this root(3) _ 2(3) store_resolution_same [OF 2(4)]]
    have "plan_done ?u r d s0 d'" by simp
    then have "plan_done ?u r d s d'"
      by (simp add: plan_done_def 2(5) last_cursor_exact_def direct_clone_def comp_def)
    then show ?thesis ..
  qed simp
qed

lemma preserve_recursive_cases:
  assumes inv: "sync_inv d" and run: "preserve_recursive x a now fresh r d = Inr (s, d')"
  shows "d' = d \<or> plan_done (a_user a) r d s d'"
proof -
  let ?u = "a_user a"
  from run consider "d' = d"
    | folders nts d1 fr where
      "scan_tree d ?u (tree_scan d ?u (q_folder r)) ([], []) = Inr (folders, nts)"
      "tree_shape_ok r folders nts"
      "run_plan x a now r (nd_state (hd folders)) (folder_order (tl folders))
         (note_order (hd folders # folder_order (tl folders)) nts)
         (delete_order (folder_order (tl folders))) (d, fresh) = Inr (s, d1, fr)"
      "store_resolution a r (preserveRequestHash x r) s d1 = Inr d'"
    by (auto simp: preserve_recursive_def rbind_Inr_iff Let_def split: option.splits if_splits)
  then show ?thesis
  proof cases
    case (2 folders nts d1 fr)
    have "o_id (nd_state (hd folders)) = q_folder r" using 2(2) by (simp add: tree_shape_ok_def)
    from run_plan_done [OF inv recursive_subtree_read [OF inv 2(1,2)] this _ 2(3) store_resolution_same [OF 2(4)]]
    show ?thesis by (simp add: delete_order_def folder_order_def)
  qed simp
qed

lemma plan_done_version [simp]: "plan_done u (r\<lparr>q_version := v\<rparr>) = plan_done u r"
  by (simp add: plan_done_def fun_eq_iff)

lemma preserve_tx_cases:
  assumes "sync_inv d" "preserve_tx x a now fresh r d = Inr (s, d')"
  shows "d' = d \<or> plan_done (a_user a) r d s d'"
proof -
  let ?r = "r\<lparr>q_version := effective_version r\<rparr>"
  from assms(2) have "preserve_v1 x a now fresh ?r d = Inr (s, d') \<or>
      preserve_direct x a now fresh ?r d = Inr (s, d') \<or> preserve_recursive x a now fresh ?r d = Inr (s, d')"
    by (auto simp: preserve_tx_def Let_def split: if_splits)
  then have "d' = d \<or> plan_done (a_user a) ?r d s d'"
    by (elim disjE preserve_v1_cases [OF assms(1)] preserve_direct_cases [OF assms(1)]
        preserve_recursive_cases [OF assms(1)])
  then show ?thesis by simp
qed

lemma plan_done_inv: "plan_done u r d s d' \<Longrightarrow> sync_inv d'"
  by (auto simp: plan_done_def dest: same_sync_inv)

lemma preserve_tx_keeps: "sync_inv d \<Longrightarrow> preserve_tx x a now fresh r d = Inr (s, d') \<Longrightarrow> sync_inv d'"
  using preserve_tx_cases plan_done_inv by blast

lemma preserve_keeps: "sync_inv d \<Longrightarrow> sync_inv (snd (PreserveAndDeleteEmptyFolder x a now fresh r d))"
  using preserve_tx_keeps
  by (fastforce simp: PreserveAndDeleteEmptyFolder_def run_tx_def split: sum.split prod.split)

end
