(* ===== verification/Sync_Preserve_Outcome.thy ===== *)
theory Sync_Preserve_Outcome
  imports Sync_Preserve_Result
begin

text \<open>
  What a preserve-and-delete leaves, over all versions and branches, for the actor and for every
  other account.
\<close>

lemma run_tx_outcome:
  obtains (failed) e where "run_tx m d = (Inl e, d)" | (planned) s d' where "m = Inr (s, d')" and "run_tx m d = (Inr s, d')"
  by (cases m) (auto simp: run_tx_def split: prod.splits)

lemma row_at_view: "row_at okey t (u, i) = row_at okey (filter (\<lambda>r. o_user r = u) t) (u, i)"
  by (induction t) (auto simp: okey_def)

lemma user_view_load: "user_view d' u = user_view d u \<Longrightarrow> loadObject d' u i = loadObject d u i"
  using row_at_view [of "objects d'" u i] row_at_view [of "objects d" u i]
  by (simp add: user_view_def loadObject_def)

lemma same_sync_load: "same_sync d d' \<Longrightarrow> loadObject d' = loadObject d \<and> last_cursor d' = last_cursor d \<and>
    active_children d' = active_children d \<and> user_view d' = user_view d"
  unfolding same_sync_def
  by (cases d, cases d') (simp add: fun_eq_iff loadObject_def last_cursor_def active_children_def user_view_def)

lemma keeps_refl [simp]: "keeps_notes u d d" "keeps_folders u d d"
  by (simp_all add: keeps_notes_def keeps_folders_def)

lemma keeps_load:
  assumes "\<And>i. loadObject d' u i = loadObject d1 u i"
  shows "keeps_notes u d d' = keeps_notes u d d1" "keeps_folders u d d' = keeps_folders u d d1"
  using assms by (simp_all add: keeps_notes_def keeps_folders_def)

lemma plan_done_keeps:
  assumes "plan_done v r d s d'"
  shows "keeps_notes u d d' \<and> keeps_folders u d d' \<and> (u \<noteq> v \<longrightarrow> user_view d' u = user_view d u)"
proof -
  from assms obtain d1 where 1: "plan_step v d d1" "same_sync d1 d'" by (auto simp: plan_done_def)
  note same = same_sync_load [OF 1(2)]
  show ?thesis
  proof (cases "u = v")
    case True
    have "keeps_notes u d d1" "keeps_folders u d d1" using 1(1) True by (simp_all add: plan_step_def)
    moreover have "loadObject d' u i = loadObject d1 u i" for i using same by simp
    ultimately show ?thesis using True keeps_load [of d' u d1 d] by simp
  next
    case False
    with 1(1) have "user_view d1 u = user_view d u" by (simp add: plan_step_def acts_for_def)
    with same have view: "user_view d' u = user_view d u" by simp
    from user_view_load [OF this] keeps_load [of d' u d d] view show ?thesis by simp
  qed
qed

lemma preserve_outcome_cases:
  assumes inv: "sync_inv d"
  obtains (failed) e where "PreserveAndDeleteEmptyFolder x a now fresh r d = (Inl e, d)"
  | (replayed) s where "PreserveAndDeleteEmptyFolder x a now fresh r d = (Inr s, d)"
  | (planned) s d' where "PreserveAndDeleteEmptyFolder x a now fresh r d = (Inr s, d')"
      and "plan_done (a_user a) r d s d'"
proof (rule run_tx_outcome [of "preserve_tx x a now fresh r d" d])
  fix e
  assume "run_tx (preserve_tx x a now fresh r d) d = (Inl e, d)"
  then show thesis by (intro failed) (simp add: PreserveAndDeleteEmptyFolder_def)
next
  fix s d'
  assume *: "preserve_tx x a now fresh r d = Inr (s, d')" "run_tx (preserve_tx x a now fresh r d) d = (Inr s, d')"
  from preserve_tx_cases [OF inv *(1)] * show thesis
    by (auto simp: PreserveAndDeleteEmptyFolder_def intro: replayed planned)
qed

lemma preserve_notes:
  assumes "sync_inv d"
  shows "keeps_notes u d (snd (PreserveAndDeleteEmptyFolder x a now fresh r d)) \<and>
    keeps_folders u d (snd (PreserveAndDeleteEmptyFolder x a now fresh r d))"
  by (rule preserve_outcome_cases [OF assms, of x a now fresh r]) (auto dest: plan_done_keeps)

lemma preserve_view:
  assumes "sync_inv d" "u \<noteq> a_user a"
  shows "user_view (snd (PreserveAndDeleteEmptyFolder x a now fresh r d)) u = user_view d u"
  using assms(2)
  by (rule_tac preserve_outcome_cases [OF assms(1), of x a now fresh r]) (auto dest: plan_done_keeps)

lemma deleted_no_children:
  assumes inv: "sync_inv d" and q: "loadObject d u i = Some q" "o_deleted q"
  shows "active_children d u i = []"
proof -
  have "\<not> (o_user r = u \<and> \<not> o_deleted r \<and> o_parent r = Some i)" if "r \<in> set (objects d)" for r
  proof
    assume r: "o_user r = u \<and> \<not> o_deleted r \<and> o_parent r = Some i"
    with that inv have "loadObject d u (o_id r) = Some r" by (simp add: sync_inv_def loadObject_eq_iff)
    moreover have "tree_ok d u" using inv by (simp add: sync_inv_def)
    ultimately obtain p where "loadObject d u i = Some p" "\<not> o_deleted p"
      using r unfolding tree_ok_def by blast
    with q show False by simp
  qed
  then show ?thesis by (auto simp: active_children_def filter_empty_conv)
qed

lemma preserve_result:
  assumes inv: "sync_inv d"
  shows "case PreserveAndDeleteEmptyFolder x a now fresh r d of
      (Inl e, d') \<Rightarrow> d' = d
    | (Inr s, d') \<Rightarrow> d' = d \<or>
        (\<exists>q. loadObject d' (a_user a) (q_folder r) = Some q \<and> o_deleted q) \<and>
        active_children d' (a_user a) (q_folder r) = [] \<and>
        s_last_cursor s = last_cursor d' (a_user a) \<and> last_cursor_exact s \<and>
        map k_create_cursor (s_clones s) =
          [Suc (s_first_cursor s)..<Suc (s_first_cursor s + length (s_clones s))] \<and>
        map n_move_cursor (s_note_moves s) =
          [Suc (s_first_cursor s + length (s_clones s))..<
           Suc (s_first_cursor s + length (s_clones s) + length (s_note_moves s))]"
proof (rule preserve_outcome_cases [OF inv, of x a now fresh r])
  fix s d'
  assume run: "PreserveAndDeleteEmptyFolder x a now fresh r d = (Inr s, d')" and plan: "plan_done (a_user a) r d s d'"
  from plan obtain d1 where d1: "same_sync d1 d'"
      "\<exists>q. loadObject d1 (a_user a) (q_folder r) = Some q \<and> o_deleted q"
      "s_last_cursor s = last_cursor d1 (a_user a)" "last_cursor_exact s"
      "map k_create_cursor (s_clones s) = [Suc (s_first_cursor s)..<Suc (s_first_cursor s + length (s_clones s))]"
      "map n_move_cursor (s_note_moves s) = [Suc (s_first_cursor s + length (s_clones s))..<
         Suc (s_first_cursor s + length (s_clones s) + length (s_note_moves s))]"
    unfolding plan_done_def by blast
  from same_sync_load [OF d1(1)] d1(2)
  obtain q where q: "loadObject d' (a_user a) (q_folder r) = Some q" "o_deleted q" by auto
  have "active_children d' (a_user a) (q_folder r) = []"
    by (rule deleted_no_children [OF plan_done_inv [OF plan] q])
  with q d1 same_sync_load [OF d1(1)] show ?thesis
    unfolding run by (simp del: upt_Suc)
qed simp_all

end
