(* ===== verification/Go_Codec.thy ===== *)
theory Go_Codec
  imports Go_Text
begin

text \<open>
  Two further pieces of Go's standard library: \<open>strings.TrimSpace\<close> on UTF-8 strings, and the
  URL-safe unpadded Base64 encoding with its strict decoder.
\<close>

section \<open>White space\<close>

text \<open>\<open>unicode.IsSpace\<close> and \<open>strings.TrimSpace\<close>.\<close>

definition space_rune :: "nat \<Rightarrow> bool" where
  "space_rune r \<longleftrightarrow>
     (9 \<le> r \<and> r \<le> 13) \<or> r = 32 \<or> r = 133 \<or> r = 160 \<or> r = 5760 \<or> (8192 \<le> r \<and> r \<le> 8202) \<or>
     r = 8232 \<or> r = 8233 \<or> r = 8239 \<or> r = 8287 \<or> r = 12288"

function trim_space_left :: "string \<Rightarrow> string" where
  "trim_space_left [] = []"
| "trim_space_left (c # cs) =
     (if space_rune (fst (decode_rune (c # cs)))
      then trim_space_left (drop (snd (decode_rune (c # cs)) - 1) cs) else c # cs)"
  by pat_completeness auto
termination
  by (relation "measure length") auto

text \<open>The rune that ends a string: a full sequence when there is one, a malformed byte otherwise.\<close>

definition last_rune :: "string \<Rightarrow> nat" where
  "last_rune s = fst (decode_rune (drop (length s - last_rune_width s) s))"

function trim_space_right :: "string \<Rightarrow> string" where
  "trim_space_right s =
     (if s \<noteq> [] \<and> space_rune (last_rune s)
      then trim_space_right (take (length s - last_rune_width s) s) else s)"
  by pat_completeness auto
termination
proof (relation "measure length")
  fix s :: string
  assume "s \<noteq> [] \<and> space_rune (last_rune s)"
  with last_rune_width_pos [of s]
  show "(take (length s - last_rune_width s) s, s) \<in> measure length" by auto
qed simp

declare trim_space_right.simps [simp del]

definition trim_space :: "string \<Rightarrow> string" where
  "trim_space s = trim_space_right (trim_space_left s)"

lemma length_trim_space_left: "length (trim_space_left s) \<le> length s"
proof (induction s rule: trim_space_left.induct)
  case (2 c cs)
  then show ?case by (auto intro: order_trans)
qed simp

lemma length_trim_space_right: "length (trim_space_right s) \<le> length s"
proof (induction s rule: trim_space_right.induct)
  case (1 s)
  then show ?case by (subst trim_space_right.simps) (auto intro: order_trans)
qed

lemma trim_space_right_stop: "s = [] \<or> \<not> space_rune (last_rune s) \<Longrightarrow> trim_space_right s = s"
  by (subst trim_space_right.simps) auto

lemma trim_space_right_end: "trim_space_right s = [] \<or> \<not> space_rune (last_rune (trim_space_right s))"
proof (induction s rule: trim_space_right.induct)
  case (1 s)
  then show ?case by (subst (1 2) trim_space_right.simps) auto
qed

section \<open>Base64\<close>

text \<open>\<open>base64.RawURLEncoding\<close>: the alphabet, the encoder, and the strict decoder, which skips line ends.\<close>

definition b64_char :: "nat \<Rightarrow> char" where
  "b64_char n =
     (if n < 26 then char_of (65 + n) else if n < 52 then char_of (71 + n)
      else if n < 62 then char_of (n - 4) else if n = 62 then CHR ''-'' else CHR ''_'')"

definition b64_value :: "char \<Rightarrow> nat option" where
  "b64_value c =
     (let b = code c in
      if in_range 65 90 c then Some (b - 65)
      else if in_range 97 122 c then Some (b - 71)
      else if in_range 48 57 c then Some (b + 4)
      else if c = CHR ''-'' then Some 62
      else if c = CHR ''_'' then Some 63 else None)"

fun b64_encode :: "string \<Rightarrow> string" where
  "b64_encode [] = []"
| "b64_encode [a] = [b64_char (code a div 4), b64_char (code a mod 4 * 16)]"
| "b64_encode [a, b] =
     [b64_char (code a div 4), b64_char (code a mod 4 * 16 + code b div 16), b64_char (code b mod 16 * 4)]"
| "b64_encode (a # b # c # s) =
     b64_char (code a div 4) # b64_char (code a mod 4 * 16 + code b div 16) #
     b64_char (code b mod 16 * 4 + code c div 64) # b64_char (code c mod 64) # b64_encode s"

fun b64_bytes :: "nat list \<Rightarrow> string option" where
  "b64_bytes [] = Some []"
| "b64_bytes [v] = None"
| "b64_bytes [v, w] = (if w mod 16 = 0 then Some [char_of (v * 4 + w div 16)] else None)"
| "b64_bytes [v, w, y] =
     (if y mod 4 = 0 then Some [char_of (v * 4 + w div 16), char_of (w mod 16 * 16 + y div 4)] else None)"
| "b64_bytes (v # w # y # z # s) =
     map_option (\<lambda>t. char_of (v * 4 + w div 16) # char_of (w mod 16 * 16 + y div 4) #
       char_of (y mod 4 * 64 + z) # t) (b64_bytes s)"

fun b64_values :: "string \<Rightarrow> nat list option" where
  "b64_values [] = Some []"
| "b64_values (c # s) =
     (if c = CHR 0x0A \<or> c = CHR 0x0D then b64_values s
      else case b64_value c of
        None \<Rightarrow> None
      | Some v \<Rightarrow> map_option ((#) v) (b64_values s))"

definition b64_decode :: "string \<Rightarrow> string option" where
  "b64_decode s = Option.bind (b64_values s) b64_bytes"

lemma code_char_of: "n < 256 \<Longrightarrow> code (char_of n) = n"
  by (simp add: code_def)

lemma b64_value_char:
  assumes "n < 64"
  shows "b64_value (b64_char n) = Some n"
proof -
  from assms consider "n < 26" | "26 \<le> n" "n < 52" | "52 \<le> n" "n < 62" | "n = 62" | "n = 63" by linarith
  then show ?thesis
    by cases (simp_all add: b64_value_def b64_char_def in_range_def code_char_of Let_def,
      auto simp: code_def in_range_def)
qed

lemma b64_char_no_newline: "n < 64 \<Longrightarrow> b64_char n \<noteq> CHR 0x0A \<and> b64_char n \<noteq> CHR 0x0D"
proof -
  have "b64_value (CHR 0x0A) = None" "b64_value (CHR 0x0D) = None"
    by (simp_all add: b64_value_def in_range_def code_def)
  with b64_value_char [of n] show "n < 64 \<Longrightarrow> ?thesis" by (metis option.distinct(1))
qed

lemma b64_values_char: "n < 64 \<Longrightarrow> b64_values (b64_char n # s) = map_option ((#) n) (b64_values s)"
  using b64_char_no_newline [of n] by (simp add: b64_value_char)

text \<open>What the encoder writes the decoder reads back, and there is no other text for it without line ends.\<close>

lemma code_parts:
  "code a div 4 < 64" "code a div 16 < 16" "code a div 64 < 4" "code a mod 64 < 64"
  using code_less [of a] by (simp_all add: less_mult_imp_div_less)

lemma b64_parts:
  "code a div 4 < 64" "code a mod 4 * 16 + code b div 16 < 64" "code a mod 4 * 16 < 64"
  "code b mod 16 * 4 + code c div 64 < 64" "code b mod 16 * 4 < 64" "code c mod 64 < 64"
proof -
  have "code a mod 4 < 4" "code b mod 16 < 16" by simp_all
  with code_parts(1,2,3) [of a] code_parts(2) [of b] code_parts(3,4) [of c]
  show "code a div 4 < 64" "code a mod 4 * 16 + code b div 16 < 64" "code a mod 4 * 16 < 64"
    "code b mod 16 * 4 + code c div 64 < 64" "code b mod 16 * 4 < 64" "code c mod 64 < 64"
    by linarith+
qed

lemma b64_join:
  "code b div 16 div 16 = 0" "code b div 16 mod 16 = code b div 16"
  "code c div 64 div 4 = 0" "code c div 64 mod 4 = code c div 64"
  using code_parts(2) [of b] code_parts(3) [of c] by simp_all

lemma char_of_code [simp]: "char_of (code c) = c"
  by (simp add: code_def)

lemma b64_decode_encode: "b64_decode (b64_encode s) = Some s"
  by (induction s rule: b64_encode.induct)
    (auto simp: b64_decode_def b64_values_char b64_parts b64_join Option.bind_eq_Some_conv
      simp del: b64_values.simps(2))

lemma length_b64_encode: "length (b64_encode s) = (length s * 4 + 2) div 3"
  by (induction s rule: b64_encode.induct) auto

lemma b64_encode_inj: "b64_encode s = b64_encode t \<Longrightarrow> s = t"
  by (metis b64_decode_encode option.inject)

end
