(* ===== verification/Session.thy ===== *)
theory Session
  imports Database Go_Codec
begin

unbundle bit_operations_syntax

text \<open>
  Devices, sessions and their tokens, \<open>server/internal/session/service.go\<close>. Times are milliseconds;
  the clock reads of one request are the one value \<open>now\<close>; the random source is the string of bytes
  still to be read, and a read beyond its end is the failing source. The credential check of the
  \<open>Authenticator\<close> interface is a parameter, its errors passed on as \<open>ErrCredential\<close>. Tables are those of migrations 003 and 004.
\<close>

section \<open>Tokens and identifiers\<close>

datatype session_error =
    ErrUnauthenticated
  | SessionInvalidInput
  | ErrNotFound
  | ErrCredential
  | SessionRandom
  | SessionDatabase

definition AccessTTL :: int where
  "AccessTTL = 900000"

definition RefreshTTL :: int where
  "RefreshTTL = 2592000000"

definition tokenBytes :: nat where
  "tokenBytes = 32"

definition accessDomain :: string where
  "accessDomain = ''remember:access-token:v1'' @ [CHR 0x00]"

definition refreshDomain :: string where
  "refreshDomain = ''remember:refresh-token:v1'' @ [CHR 0x00]"

record principal =
  pr_user :: uuid
  pr_device :: uuid
  pr_session :: uuid

record tokens =
  tk_access :: string
  tk_refresh :: string
  tk_access_expires :: int
  tk_refresh_expires :: int

record session_info =
  si_session :: uuid
  si_device :: uuid
  si_name :: string
  si_status :: lifecycle
  si_created :: int
  si_expires :: int
  si_revoked :: "int option"
  si_current :: bool

text \<open>\<open>io.ReadFull\<close>.\<close>

definition read_full :: "nat \<Rightarrow> string \<Rightarrow> session_error + (string \<times> string)" where
  "read_full n random =
     (if n \<le> length random then Inr (take n random, drop n random) else Inl SessionRandom)"

definition uuid_of_bytes :: "string \<Rightarrow> uuid" where
  "uuid_of_bytes bs = word_of_nat (foldl (\<lambda>n c. n * 256 + code c) 0 bs)"

text \<open>
  \<open>newUUIDv7\<close>: the low 48 bits of the time in bytes 0 to 5, version 7 in the upper half of byte 6, the
  RFC 4122 variant in the two top bits of byte 8, random bits elsewhere.
\<close>

definition newUUIDv7 :: "int \<Rightarrow> string \<Rightarrow> session_error + (uuid \<times> string)" where
  "newUUIDv7 now random =
     rbind (read_full 16 random) (\<lambda>(bs, random).
       Inr (push_bit 80 (word_of_int now) OR push_bit 76 7 OR push_bit 63 1 OR
            (uuid_of_bytes bs AND (mask 76 AND NOT (push_bit 62 3))), random))"

definition hashToken :: "ext \<Rightarrow> string \<Rightarrow> string \<Rightarrow> string" where
  "hashToken x domain raw = x_sha256 x (domain @ raw)"

definition parseAndHash :: "ext \<Rightarrow> string \<Rightarrow> string \<Rightarrow> session_error + string" where
  "parseAndHash x encoded domain =
     (if length encoded \<noteq> 43 then Inl ErrUnauthenticated
      else case b64_decode encoded of
        None \<Rightarrow> Inl ErrUnauthenticated
      | Some raw \<Rightarrow>
          if length raw \<noteq> tokenBytes \<or> b64_encode raw \<noteq> encoded then Inl ErrUnauthenticated
          else Inr (hashToken x domain raw))"

record issued =
  is_tokens :: tokens
  is_access_hash :: string
  is_refresh_hash :: string

text \<open>\<open>issueTokenPair\<close>; a zero time for \<open>absolute\<close> is \<open>None\<close>.\<close>

definition issueTokenPair ::
  "ext \<Rightarrow> int \<Rightarrow> int option \<Rightarrow> string \<Rightarrow> session_error + (issued \<times> string)" where
  "issueTokenPair x now absolute random =
     rbind (read_full tokenBytes random) (\<lambda>(access, random).
     rbind (read_full tokenBytes random) (\<lambda>(refresh, random).
       let final = (case absolute of None \<Rightarrow> now + RefreshTTL | Some t \<Rightarrow> t) in
       Inr (\<lparr>is_tokens =
               \<lparr>tk_access = b64_encode access, tk_refresh = b64_encode refresh,
                tk_access_expires = min (now + AccessTTL) final, tk_refresh_expires = final\<rparr>,
             is_access_hash = hashToken x accessDomain access,
             is_refresh_hash = hashToken x refreshDomain refresh\<rparr>, random)))"

definition validateDeviceName :: "string \<Rightarrow> session_error + string" where
  "validateDeviceName input =
     (let name = trim_space input in
      if name = [] \<or> \<not> valid_utf8 name \<or> length name > 256 \<or> rune_count name > 100
      then Inl SessionInvalidInput else Inr name)"

definition session_validV7 :: "ext \<Rightarrow> uuid \<Rightarrow> bool" where
  "session_validV7 x u \<longleftrightarrow> u \<noteq> uuid_nil \<and> x_uuid_version x u = 7 \<and> x_uuid_rfc4122 x u"

section \<open>Rows and their constraints\<close>

definition devkey :: "device_row \<Rightarrow> uuid \<times> uuid" where
  "devkey r = (dev_user r, dev_id r)"

definition seskey :: "session_row \<Rightarrow> uuid \<times> uuid" where
  "seskey r = (ses_user r, ses_id r)"

definition device_at :: "db \<Rightarrow> uuid \<Rightarrow> uuid \<Rightarrow> device_row option" where
  "device_at d u i = row_at devkey (devices d) (u, i)"

definition session_at :: "db \<Rightarrow> uuid \<Rightarrow> uuid \<Rightarrow> session_row option" where
  "session_at d u i = row_at seskey (sessions d) (u, i)"

definition access_at :: "db \<Rightarrow> string \<Rightarrow> access_row option" where
  "access_at d h = row_at acc_hash (access_tokens d) h"

definition refresh_at :: "db \<Rightarrow> string \<Rightarrow> refresh_row option" where
  "refresh_at d h = row_at ref_hash (refresh_tokens d) h"

text \<open>The session a token row refers to, \<open>(user_id, id, device_id)\<close>.\<close>

definition session_of :: "db \<Rightarrow> uuid \<Rightarrow> uuid \<Rightarrow> uuid \<Rightarrow> session_row option" where
  "session_of d u s i =
     (case session_at d u s of None \<Rightarrow> None | Some r \<Rightarrow> if ses_device r = i then Some r else None)"

definition insert_device :: "device_row \<Rightarrow> db \<Rightarrow> session_error + db" where
  "insert_device r d =
     (if device_at d (dev_user r) (dev_id r) = None \<and> user_exists d (dev_user r) \<and>
         dev_created r \<le> dev_updated r
      then Inr (d\<lparr>devices := devices d @ [r]\<rparr>) else Inl SessionDatabase)"

definition insert_session :: "session_row \<Rightarrow> db \<Rightarrow> session_error + db" where
  "insert_session r d =
     (if session_at d (ses_user r) (ses_id r) = None \<and> device_at d (ses_user r) (ses_device r) \<noteq> None \<and>
         ses_expires r = ses_created r + RefreshTTL
      then Inr (d\<lparr>sessions := sessions d @ [r]\<rparr>) else Inl SessionDatabase)"

definition insert_access :: "access_row \<Rightarrow> db \<Rightarrow> session_error + db" where
  "insert_access r d =
     (if access_at d (acc_hash r) = None \<and> length (acc_hash r) = 32 \<and>
         acc_issued r < acc_expires r \<and> acc_expires r \<le> acc_issued r + AccessTTL \<and>
         session_of d (acc_user r) (acc_session r) (acc_device r) \<noteq> None
      then Inr (d\<lparr>access_tokens := access_tokens d @ [r]\<rparr>) else Inl SessionDatabase)"

definition insert_refresh :: "refresh_row \<Rightarrow> db \<Rightarrow> session_error + db" where
  "insert_refresh r d =
     (if refresh_at d (ref_hash r) = None \<and> length (ref_hash r) = 32 \<and>
         ref_issued r < ref_expires r \<and> ref_expires r \<le> ref_issued r + RefreshTTL \<and>
         session_of d (ref_user r) (ref_session r) (ref_device r) \<noteq> None
      then Inr (d\<lparr>refresh_tokens := refresh_tokens d @ [r]\<rparr>) else Inl SessionDatabase)"

definition insertAccess ::
  "uuid \<Rightarrow> uuid \<Rightarrow> uuid \<Rightarrow> issued \<Rightarrow> int \<Rightarrow> db \<Rightarrow> session_error + db" where
  "insertAccess u i s issued now d =
     insert_access
       \<lparr>acc_hash = is_access_hash issued, acc_user = u, acc_session = s, acc_device = i,
        acc_issued = now, acc_expires = tk_access_expires (is_tokens issued), acc_revoked = None\<rparr> d"

definition fresh_refresh :: "string \<Rightarrow> uuid \<Rightarrow> uuid \<Rightarrow> uuid \<Rightarrow> int \<Rightarrow> int \<Rightarrow> refresh_row" where
  "fresh_refresh h u s i now expires =
     \<lparr>ref_hash = h, ref_user = u, ref_session = s, ref_device = i, ref_replaced = None,
      ref_issued = now, ref_expires = expires, ref_consumed = None\<rparr>"

section \<open>Login\<close>

definition login_tx ::
  "ext \<Rightarrow> int \<Rightarrow> string \<Rightarrow> uuid \<Rightarrow> uuid \<Rightarrow> uuid \<Rightarrow> issued \<Rightarrow> db \<Rightarrow> session_error + ((principal \<times> tokens) \<times> db)" where
  "login_tx x now name u i s issued d =
     (if \<not> user_active d u then Inl ErrUnauthenticated
      else
        rbind (insert_device \<lparr>dev_user = u, dev_id = i, dev_name = name, dev_status = Active,
                 dev_created = now, dev_updated = now, dev_revoked = None\<rparr> d) (\<lambda>d.
        rbind (insert_session \<lparr>ses_user = u, ses_id = s, ses_device = i, ses_status = Active,
                 ses_created = now, ses_expires = now + RefreshTTL, ses_revoked = None\<rparr> d) (\<lambda>d.
        rbind (insertAccess u i s issued now d) (\<lambda>d.
        rbind (insert_refresh (fresh_refresh (is_refresh_hash issued) u s i now (now + RefreshTTL)) d) (\<lambda>d.
          Inr ((\<lparr>pr_user = u, pr_device = i, pr_session = s\<rparr>, is_tokens issued), d))))))"

definition Login ::
  "ext \<Rightarrow> (string \<Rightarrow> string \<Rightarrow> session_error + uuid) \<Rightarrow> int \<Rightarrow> string \<Rightarrow> string \<Rightarrow> string \<Rightarrow> string \<Rightarrow> db \<Rightarrow>
     (session_error + (principal \<times> tokens)) \<times> db" where
  "Login x auth now random email password deviceName d =
     (case
        rbind (validateDeviceName deviceName) (\<lambda>name.
        rbind (auth email password) (\<lambda>u.
        rbind (newUUIDv7 now random) (\<lambda>(i, random).
        rbind (newUUIDv7 now random) (\<lambda>(s, random).
        rbind (issueTokenPair x now (Some (now + RefreshTTL)) random) (\<lambda>(issued, _).
          login_tx x now name u i s issued d)))))
      of Inl e \<Rightarrow> (Inl e, d) | Inr (result, d') \<Rightarrow> (Inr result, d'))"

section \<open>Access\<close>

text \<open>The joined row of \<open>AuthenticateAccess\<close>, and the checks on it.\<close>

definition AuthenticateAccess :: "ext \<Rightarrow> int \<Rightarrow> string \<Rightarrow> db \<Rightarrow> session_error + principal" where
  "AuthenticateAccess x now encoded d =
     rbind (parseAndHash x encoded accessDomain) (\<lambda>hash.
       case access_at d hash of
         None \<Rightarrow> Inl ErrUnauthenticated
       | Some a \<Rightarrow>
         (case session_of d (acc_user a) (acc_session a) (acc_device a) of
            None \<Rightarrow> Inl ErrUnauthenticated
          | Some s \<Rightarrow>
              if ses_status s \<noteq> Active \<or> \<not> device_active d (acc_user a) (acc_device a) \<or>
                 \<not> user_active d (acc_user a)
              then Inl ErrUnauthenticated
              else if acc_revoked a \<noteq> None \<or> now < acc_issued a \<or> now < ses_created s \<or>
                      acc_expires a \<le> now \<or> ses_expires s \<le> now
              then Inl ErrUnauthenticated
              else Inr \<lparr>pr_user = acc_user a, pr_device = acc_device a, pr_session = acc_session a\<rparr>))"

section \<open>Revocation\<close>

text \<open>\<open>COALESCE(revoked_at_ms, CASE WHEN now < start THEN start ELSE now END)\<close>.\<close>

definition stamp :: "int option \<Rightarrow> int \<Rightarrow> int \<Rightarrow> int option" where
  "stamp old start now = (case old of Some t \<Rightarrow> Some t | None \<Rightarrow> Some (max start now))"

definition revoke_sessions :: "(session_row \<Rightarrow> bool) \<Rightarrow> int \<Rightarrow> db \<Rightarrow> db" where
  "revoke_sessions P now d =
     d\<lparr>sessions := update_rows P
         (\<lambda>r. r\<lparr>ses_status := Revoked, ses_revoked := stamp (ses_revoked r) (ses_created r) now\<rparr>)
         (sessions d)\<rparr>"

definition revoke_access :: "(access_row \<Rightarrow> bool) \<Rightarrow> int \<Rightarrow> db \<Rightarrow> db" where
  "revoke_access P now d =
     d\<lparr>access_tokens := update_rows P
         (\<lambda>r. r\<lparr>acc_revoked := stamp (acc_revoked r) (acc_issued r) now\<rparr>) (access_tokens d)\<rparr>"

definition revokeSessionTx :: "uuid \<Rightarrow> uuid \<Rightarrow> int \<Rightarrow> db \<Rightarrow> db" where
  "revokeSessionTx u s now d =
     revoke_access (\<lambda>r. acc_user r = u \<and> acc_session r = s) now
       (revoke_sessions (\<lambda>r. ses_user r = u \<and> ses_id r = s) now d)"

section \<open>Refresh\<close>

text \<open>The rotation: the successor is stored, the predecessor linked to it, the access token issued.\<close>

definition capped :: "int \<Rightarrow> int \<Rightarrow> issued \<Rightarrow> issued" where
  "capped now final issued =
     issued\<lparr>is_tokens := (is_tokens issued)
       \<lparr>tk_refresh_expires := final, tk_access_expires := min (now + AccessTTL) final\<rparr>\<rparr>"

definition consumable :: "string \<Rightarrow> int \<Rightarrow> refresh_row \<Rightarrow> bool" where
  "consumable h now r \<longleftrightarrow>
     ref_hash r = h \<and> ref_consumed r = None \<and> ref_issued r \<le> now \<and> now < ref_expires r"

definition rotate :: "int \<Rightarrow> issued \<Rightarrow> string \<Rightarrow> refresh_row \<Rightarrow> session_row \<Rightarrow> db \<Rightarrow> session_error + (tokens \<times> db)" where
  "rotate now issued0 hash r s d =
     (let issued = capped now (ses_expires s) issued0;
          u = ref_user r; sid = ref_session r; dev = ref_device r
      in rbind (insert_refresh (fresh_refresh (is_refresh_hash issued) u sid dev now (ses_expires s)) d) (\<lambda>d.
         let consume = (\<lambda>q. q\<lparr>ref_consumed := Some now, ref_replaced := Some (is_refresh_hash issued)\<rparr>)
         in if list_ex (\<lambda>q. ref_replaced q = Some (is_refresh_hash issued)) (refresh_tokens d)
            then Inl SessionDatabase
            else if rows_affected (consumable hash now) (refresh_tokens d) \<noteq> 1 then Inl ErrUnauthenticated
            else rbind (insertAccess u dev sid issued now
                   (d\<lparr>refresh_tokens := update_rows (consumable hash now) consume (refresh_tokens d)\<rparr>)) (\<lambda>d.
              Inr (is_tokens issued, d))))"

definition Refresh :: "ext \<Rightarrow> int \<Rightarrow> string \<Rightarrow> string \<Rightarrow> db \<Rightarrow> (session_error + tokens) \<times> db" where
  "Refresh x now random encoded d =
     (case parseAndHash x encoded refreshDomain of
        Inl e \<Rightarrow> (Inl ErrUnauthenticated, d)
      | Inr hash \<Rightarrow>
     (case issueTokenPair x now None random of
        Inl e \<Rightarrow> (Inl e, d)
      | Inr (issued, _) \<Rightarrow>
     (case refresh_at d hash of
        None \<Rightarrow> (Inl ErrUnauthenticated, d)
      | Some r \<Rightarrow>
     (case session_of d (ref_user r) (ref_session r) (ref_device r) of
        None \<Rightarrow> (Inl ErrUnauthenticated, d)
      | Some s \<Rightarrow>
          if \<not> user_exists d (ref_user r) \<or> \<not> device_exists d (ref_user r) (ref_device r)
          then (Inl ErrUnauthenticated, d)
          else if ref_consumed r \<noteq> None
          then (Inl ErrUnauthenticated, revokeSessionTx (ref_user r) (ref_session r) now d)
          else if now < ref_issued r \<or> now < ses_created s \<or> \<not> user_active d (ref_user r) \<or>
                  ses_status s \<noteq> Active \<or> \<not> device_active d (ref_user r) (ref_device r) \<or>
                  ref_expires r \<le> now \<or> ses_expires s \<le> now
          then (Inl ErrUnauthenticated, d)
          else (case rotate now issued hash r s d of
                  Inl e \<Rightarrow> (Inl e, d) | Inr (t, d') \<Rightarrow> (Inr t, d'))))))"

section \<open>Listing and managing\<close>

definition session_info_of :: "principal \<Rightarrow> session_row \<Rightarrow> device_row \<Rightarrow> session_info" where
  "session_info_of p s r =
     \<lparr>si_session = ses_id s, si_device = ses_device s, si_name = dev_name r, si_status = ses_status s,
      si_created = ses_created s, si_expires = ses_expires s, si_revoked = ses_revoked s,
      si_current = (ses_id s = pr_session p)\<rparr>"

definition ListForUser :: "ext \<Rightarrow> int \<Rightarrow> string \<Rightarrow> db \<Rightarrow> session_error + session_info list" where
  "ListForUser x now token d =
     rbind (AuthenticateAccess x now token d) (\<lambda>p.
       Inr (concat (map (\<lambda>s. case device_at d (ses_user s) (ses_device s) of
                None \<Rightarrow> [] | Some r \<Rightarrow> [session_info_of p s r])
              (sort_key (\<lambda>s. - ses_created s) (sort_key ses_id
                (filter (\<lambda>s. ses_user s = pr_user p) (sessions d)))))))"

definition RenameDevice :: "ext \<Rightarrow> int \<Rightarrow> string \<Rightarrow> uuid \<Rightarrow> string \<Rightarrow> db \<Rightarrow> (session_error + unit) \<times> db" where
  "RenameDevice x now token i displayName d =
     (case validateDeviceName displayName of
        Inl e \<Rightarrow> (Inl SessionInvalidInput, d)
      | Inr name \<Rightarrow>
          if \<not> session_validV7 x i then (Inl SessionInvalidInput, d)
          else (case AuthenticateAccess x now token d of
            Inl e \<Rightarrow> (Inl e, d)
          | Inr p \<Rightarrow>
              let P = (\<lambda>r. dev_user r = pr_user p \<and> dev_id r = i \<and> dev_status r = Active) in
              (if rows_affected P (devices d) = 1 then Inr () else Inl ErrNotFound,
               d\<lparr>devices := update_rows P
                   (\<lambda>r. r\<lparr>dev_name := name, dev_updated := max (dev_created r) now\<rparr>) (devices d)\<rparr>)))"

definition RevokeSession :: "ext \<Rightarrow> int \<Rightarrow> string \<Rightarrow> uuid \<Rightarrow> db \<Rightarrow> (session_error + unit) \<times> db" where
  "RevokeSession x now token s d =
     (if \<not> session_validV7 x s then (Inl SessionInvalidInput, d)
      else case AuthenticateAccess x now token d of
        Inl e \<Rightarrow> (Inl e, d)
      | Inr p \<Rightarrow>
          if session_at d (pr_user p) s = None then (Inl ErrNotFound, d)
          else (Inr (), revokeSessionTx (pr_user p) s now d))"

definition RevokeDevice :: "ext \<Rightarrow> int \<Rightarrow> string \<Rightarrow> uuid \<Rightarrow> db \<Rightarrow> (session_error + unit) \<times> db" where
  "RevokeDevice x now token i d =
     (if \<not> session_validV7 x i then (Inl SessionInvalidInput, d)
      else case AuthenticateAccess x now token d of
        Inl e \<Rightarrow> (Inl e, d)
      | Inr p \<Rightarrow>
          let P = (\<lambda>r. dev_user r = pr_user p \<and> dev_id r = i) in
          if rows_affected P (devices d) \<noteq> 1 then (Inl ErrNotFound, d)
          else (Inr (),
            revoke_access (\<lambda>r. acc_user r = pr_user p \<and> acc_device r = i) now
            (revoke_sessions (\<lambda>r. ses_user r = pr_user p \<and> ses_device r = i) now
            (d\<lparr>devices := update_rows P
                (\<lambda>r. r\<lparr>dev_status := Revoked, dev_revoked := stamp (dev_revoked r) (dev_created r) now,
                       dev_updated := max (dev_created r) now\<rparr>) (devices d)\<rparr>))))"

end
