(* ===== verification/Session_Invariant.thy ===== *)
theory Session_Invariant
  imports Session
begin

text \<open>
  The invariant of devices, sessions and tokens, and its preservation by every operation: tokens
  belong to a session of their device and end with it, a revoked device has only revoked sessions, a
  revoked session only revoked access tokens, and a session has at most one refresh token that is
  not yet consumed.
\<close>

section \<open>The invariant\<close>

definition access_ok :: "db \<Rightarrow> access_row \<Rightarrow> bool" where
  "access_ok d a \<longleftrightarrow>
     (\<exists>s. session_of d (acc_user a) (acc_session a) (acc_device a) = Some s \<and> acc_expires a \<le> ses_expires s \<and>
        (ses_status s = Revoked \<longrightarrow> acc_revoked a \<noteq> None)) \<and>
     acc_issued a < acc_expires a \<and> acc_expires a \<le> acc_issued a + AccessTTL"

definition refresh_ok :: "db \<Rightarrow> refresh_row \<Rightarrow> bool" where
  "refresh_ok d r \<longleftrightarrow>
     (\<exists>s. session_of d (ref_user r) (ref_session r) (ref_device r) = Some s \<and> ref_expires r = ses_expires s)"

definition session_ok :: "db \<Rightarrow> session_row \<Rightarrow> bool" where
  "session_ok d s \<longleftrightarrow>
     (\<exists>v. device_at d (ses_user s) (ses_device s) = Some v \<and>
        (dev_status v = Revoked \<longrightarrow> ses_status s = Revoked))"

definition refkey :: "refresh_row \<Rightarrow> uuid \<times> uuid" where
  "refkey r = (ref_user r, ref_session r)"

definition one_live :: "refresh_row list \<Rightarrow> bool" where
  "one_live t \<longleftrightarrow> distinct (map refkey (filter (\<lambda>r. ref_consumed r = None) t))"

definition session_inv :: "db \<Rightarrow> bool" where
  "session_inv d \<longleftrightarrow>
     distinct (map devkey (devices d)) \<and> distinct (map seskey (sessions d)) \<and>
     distinct (map acc_hash (access_tokens d)) \<and> distinct (map ref_hash (refresh_tokens d)) \<and>
     (\<forall>s\<in>set (sessions d). session_ok d s) \<and> (\<forall>a\<in>set (access_tokens d). access_ok d a) \<and>
     (\<forall>r\<in>set (refresh_tokens d). refresh_ok d r) \<and> one_live (refresh_tokens d)"

lemma session_inv_empty: "session_inv empty_db"
  by (simp add: session_inv_def empty_db_def one_live_def)

section \<open>Lookups under the statements\<close>

lemma token_frame [simp]:
  "session_at (d\<lparr>devices := vs\<rparr>) = session_at d" "session_at (d\<lparr>access_tokens := as\<rparr>) = session_at d"
  "session_at (d\<lparr>refresh_tokens := rs\<rparr>) = session_at d"
  "session_of (d\<lparr>devices := vs\<rparr>) = session_of d" "session_of (d\<lparr>access_tokens := as\<rparr>) = session_of d"
  "session_of (d\<lparr>refresh_tokens := rs\<rparr>) = session_of d"
  "device_at (d\<lparr>sessions := ss\<rparr>) = device_at d" "device_at (d\<lparr>access_tokens := as\<rparr>) = device_at d"
  "device_at (d\<lparr>refresh_tokens := rs\<rparr>) = device_at d"
  "access_at (d\<lparr>devices := vs\<rparr>) = access_at d" "access_at (d\<lparr>sessions := ss\<rparr>) = access_at d"
  "access_at (d\<lparr>refresh_tokens := rs\<rparr>) = access_at d"
  "refresh_at (d\<lparr>devices := vs\<rparr>) = refresh_at d" "refresh_at (d\<lparr>sessions := ss\<rparr>) = refresh_at d"
  "refresh_at (d\<lparr>access_tokens := as\<rparr>) = refresh_at d"
  by (simp_all add: fun_eq_iff session_at_def session_of_def device_at_def access_at_def refresh_at_def)

lemma access_ok_frame [simp]:
  "access_ok (d\<lparr>devices := vs\<rparr>) = access_ok d" "access_ok (d\<lparr>access_tokens := as\<rparr>) = access_ok d"
  "access_ok (d\<lparr>refresh_tokens := rs\<rparr>) = access_ok d"
  "refresh_ok (d\<lparr>devices := vs\<rparr>) = refresh_ok d" "refresh_ok (d\<lparr>access_tokens := as\<rparr>) = refresh_ok d"
  "refresh_ok (d\<lparr>refresh_tokens := rs\<rparr>) = refresh_ok d"
  "session_ok (d\<lparr>sessions := ss\<rparr>) = session_ok d" "session_ok (d\<lparr>access_tokens := as\<rparr>) = session_ok d"
  "session_ok (d\<lparr>refresh_tokens := rs\<rparr>) = session_ok d"
  by (simp_all add: fun_eq_iff access_ok_def refresh_ok_def session_ok_def)

lemma session_of_SomeD:
  "session_of d u s i = Some r \<Longrightarrow> session_at d u s = Some r \<and> r \<in> set (sessions d) \<and> ses_user r = u \<and>
     ses_id r = s \<and> ses_device r = i"
  by (auto simp: session_of_def session_at_def seskey_def dest!: row_at_SomeD split: option.splits if_splits)

lemma session_at_append:
  "session_at d u s = Some r \<Longrightarrow> session_at (d\<lparr>sessions := sessions d @ rs\<rparr>) u s = Some r"
  by (simp add: session_at_def table_simps)

lemma session_of_append:
  "session_of d u s i = Some r \<Longrightarrow> session_of (d\<lparr>sessions := sessions d @ rs\<rparr>) u s i = Some r"
  using session_at_append [of d u s r rs]
  by (auto simp: session_of_def split: option.splits if_splits)

lemma device_at_append:
  "device_at d u i = Some r \<Longrightarrow> device_at (d\<lparr>devices := devices d @ rs\<rparr>) u i = Some r"
  by (simp add: device_at_def table_simps)

section \<open>Inserting\<close>

lemma insert_device_inv:
  assumes "session_inv d" "insert_device r d = Inr d'"
  shows "session_inv d'"
proof -
  from assms(2) have d': "d' = d\<lparr>devices := devices d @ [r]\<rparr>" and "device_at d (dev_user r) (dev_id r) = None"
    by (auto simp: insert_device_def split: if_splits)
  then have "devkey r \<notin> devkey ` set (devices d)" by (simp add: device_at_def devkey_def row_at_None_iff)
  moreover have "session_ok d' s" if "session_ok d s" for s
    using that by (auto simp: session_ok_def d' dest: device_at_append)
  ultimately show ?thesis using assms(1) by (auto simp: session_inv_def d')
qed

lemma insert_session_inv:
  assumes "session_inv d" "insert_session r d = Inr d'"
    and "device_at d (ses_user r) (ses_device r) = Some v" "dev_status v = Active"
  shows "session_inv d'"
proof -
  from assms(2) have d': "d' = d\<lparr>sessions := sessions d @ [r]\<rparr>" and "session_at d (ses_user r) (ses_id r) = None"
    by (auto simp: insert_session_def split: if_splits)
  then have "seskey r \<notin> seskey ` set (sessions d)" by (simp add: session_at_def seskey_def row_at_None_iff)
  moreover have "access_ok d' a" if "access_ok d a" for a
    using that by (auto simp: access_ok_def d' dest: session_of_append)
  moreover have "refresh_ok d' a" if "refresh_ok d a" for a
    using that by (auto simp: refresh_ok_def d' dest: session_of_append)
  moreover have "session_ok d r" using assms(3,4) by (simp add: session_ok_def)
  ultimately show ?thesis using assms(1) by (auto simp: session_inv_def d')
qed

lemma insert_access_inv:
  assumes "session_inv d" "insert_access r d = Inr d'"
    and "session_of d (acc_user r) (acc_session r) (acc_device r) = Some s" "ses_status s = Active"
      "acc_expires r \<le> ses_expires s"
  shows "session_inv d'"
proof -
  from assms(2) have d': "d' = d\<lparr>access_tokens := access_tokens d @ [r]\<rparr>" and "access_at d (acc_hash r) = None"
    and t: "acc_issued r < acc_expires r" "acc_expires r \<le> acc_issued r + AccessTTL"
    by (auto simp: insert_access_def split: if_splits)
  then have "acc_hash r \<notin> acc_hash ` set (access_tokens d)" by (simp add: access_at_def row_at_None_iff)
  moreover have "access_ok d r" using assms(3-5) t by (simp add: access_ok_def)
  ultimately show ?thesis using assms(1) by (auto simp: session_inv_def d')
qed

lemma one_live_append:
  assumes "one_live t" "\<forall>q\<in>set t. refkey q = refkey r \<longrightarrow> ref_consumed q \<noteq> None"
  shows "one_live (t @ [r])"
  using assms by (auto simp: one_live_def)

lemma insert_refresh_inv:
  assumes "session_inv d" "insert_refresh r d = Inr d'"
    and "session_of d (ref_user r) (ref_session r) (ref_device r) = Some s" "ref_expires r = ses_expires s"
    and "\<forall>q\<in>set (refresh_tokens d). refkey q = refkey r \<longrightarrow> ref_consumed q \<noteq> None"
  shows "session_inv d'"
proof -
  from assms(2) have d': "d' = d\<lparr>refresh_tokens := refresh_tokens d @ [r]\<rparr>" and "refresh_at d (ref_hash r) = None"
    by (auto simp: insert_refresh_def split: if_splits)
  then have "ref_hash r \<notin> ref_hash ` set (refresh_tokens d)" by (simp add: refresh_at_def row_at_None_iff)
  moreover have "refresh_ok d r" using assms(3,4) by (simp add: refresh_ok_def)
  moreover have "one_live (refresh_tokens d @ [r])"
    using assms(1,5) by (intro one_live_append) (auto simp: session_inv_def)
  ultimately show ?thesis using assms(1) by (auto simp: session_inv_def d')
qed

section \<open>Login\<close>

lemma login_tx_inv:
  assumes inv: "session_inv d" and expires: "tk_access_expires (is_tokens issued) \<le> now + RefreshTTL"
    and run: "login_tx x now name u i s issued d = Inr (res, d')"
  shows "session_inv d'"
proof -
  let ?dev = "\<lparr>dev_user = u, dev_id = i, dev_name = name, dev_status = Active,
    dev_created = now, dev_updated = now, dev_revoked = None\<rparr>"
  let ?ses = "\<lparr>ses_user = u, ses_id = s, ses_device = i, ses_status = Active,
    ses_created = now, ses_expires = now + RefreshTTL, ses_revoked = None\<rparr>"
  from run obtain d1 d2 d3 where
    1: "insert_device ?dev d = Inr d1" and 2: "insert_session ?ses d1 = Inr d2" and
    3: "insertAccess u i s issued now d2 = Inr d3" and
    4: "insert_refresh (fresh_refresh (is_refresh_hash issued) u s i now (now + RefreshTTL)) d3 = Inr d'"
    by (auto simp: login_tx_def rbind_Inr_iff split: if_splits)
  have inv1: "session_inv d1" by (rule insert_device_inv [OF inv 1])
  from 1 have dev: "device_at d1 u i = Some ?dev"
    by (auto simp: insert_device_def device_at_def table_simps devkey_def split: if_splits)
  have inv2: "session_inv d2" by (rule insert_session_inv [OF inv1 2, of ?dev]) (simp_all add: dev)
  from 2 have new: "session_at d1 u s = None" and d2: "d2 = d1\<lparr>sessions := sessions d1 @ [?ses]\<rparr>"
    by (auto simp: insert_session_def split: if_splits)
  then have ses: "session_of d2 u s i = Some ?ses"
    by (simp add: session_of_def session_at_def table_simps seskey_def)
  from 3 have d3: "refresh_tokens d3 = refresh_tokens d1" "session_of d3 = session_of d2"
    by (auto simp: insertAccess_def insert_access_def d2 split: if_splits)
  have inv3: "session_inv d3"
    by (rule insert_access_inv [OF inv2 3 [unfolded insertAccess_def], of ?ses]) (use ses expires in simp_all)
  have "\<forall>q\<in>set (refresh_tokens d1). refkey q \<noteq> (u, s)"
    using inv1 new by (fastforce simp: session_inv_def refresh_ok_def refkey_def dest: session_of_SomeD)
  then show ?thesis
    by (intro insert_refresh_inv [OF inv3 4, of ?ses])
      (use ses in \<open>auto simp: fresh_refresh_def d3 refkey_def\<close>)
qed

lemma issueTokenPair_expires:
  "issueTokenPair x now (Some final) random = Inr (issued, rest) \<Longrightarrow> tk_access_expires (is_tokens issued) \<le> final"
  by (auto simp: issueTokenPair_def rbind_Inr_iff Let_def)

lemma Login_inv: "session_inv d \<Longrightarrow> session_inv (snd (Login x auth now random email pw name d))"
  by (auto simp: Login_def split: sum.split dest!: issueTokenPair_expires intro: login_tx_inv
      simp: rbind_Inr_iff)

section \<open>Revocation\<close>

definition revoked_session :: "int \<Rightarrow> session_row \<Rightarrow> session_row" where
  "revoked_session now r = r\<lparr>ses_status := Revoked, ses_revoked := stamp (ses_revoked r) (ses_created r) now\<rparr>"

lemma revoked_session_simps [simp]:
  "seskey (revoked_session now r) = seskey r" "ses_user (revoked_session now r) = ses_user r"
  "ses_device (revoked_session now r) = ses_device r" "ses_expires (revoked_session now r) = ses_expires r"
  "ses_status (revoked_session now r) = Revoked" "ses_id (revoked_session now r) = ses_id r"
  "ses_created (revoked_session now r) = ses_created r"
  by (simp_all add: revoked_session_def seskey_def)

lemma revoke_sessions_eq:
  "revoke_sessions P now d = d\<lparr>sessions := update_rows P (revoked_session now) (sessions d)\<rparr>"
  by (simp add: revoke_sessions_def revoked_session_def [abs_def])

lemma session_of_revoked:
  "session_of (revoke_sessions P now d) u s i =
     map_option (\<lambda>r. if P r then revoked_session now r else r) (session_of d u s i)"
  by (cases "session_at d u s")
    (simp_all add: session_of_def revoke_sessions_eq session_at_def row_at_update)

lemma stamp_Some [simp]: "\<exists>y. stamp t start now = Some y"
  by (simp add: stamp_def split: option.split)

text \<open>
  Revoking sessions together with every access token of theirs.
\<close>

lemma revoke_inv:
  assumes inv: "session_inv d"
    and covers: "\<And>s a. s \<in> set (sessions d) \<Longrightarrow> P s \<Longrightarrow> a \<in> set (access_tokens d) \<Longrightarrow>
      session_of d (acc_user a) (acc_session a) (acc_device a) = Some s \<Longrightarrow> Q a"
  shows "session_inv (revoke_access Q now (revoke_sessions P now d))"
proof -
  let ?d = "revoke_access Q now (revoke_sessions P now d)"
  let ?f = "\<lambda>r. r\<lparr>acc_revoked := stamp (acc_revoked r) (acc_issued r) now\<rparr>"
  have tabs: "sessions ?d = update_rows P (revoked_session now) (sessions d)"
    "access_tokens ?d = update_rows Q ?f (access_tokens d)" "devices ?d = devices d"
    "refresh_tokens ?d = refresh_tokens d" "device_at ?d = device_at d"
    by (simp_all add: revoke_access_def revoke_sessions_eq)
  have ses: "session_of ?d u s i = map_option (\<lambda>r. if P r then revoked_session now r else r) (session_of d u s i)"
    for u s i using session_of_revoked [of P now d] by (simp add: revoke_access_def)
  have "session_ok ?d s" if "s \<in> set (sessions ?d)" for s
    using that inv by (auto simp: tabs set_update_rows session_inv_def session_ok_def)
  moreover have "access_ok ?d a" if "a \<in> set (access_tokens ?d)" for a
  proof -
    from that obtain b where b: "b \<in> set (access_tokens d)" "a = (if Q b then ?f b else b)"
      by (auto simp: tabs set_update_rows)
    with inv obtain s where s: "session_of d (acc_user b) (acc_session b) (acc_device b) = Some s"
      "acc_expires b \<le> ses_expires s" "ses_status s = Revoked \<longrightarrow> acc_revoked b \<noteq> None"
      "acc_issued b < acc_expires b" "acc_expires b \<le> acc_issued b + AccessTTL"
      by (auto simp: session_inv_def access_ok_def)
    from s(1) have "s \<in> set (sessions d)" by (auto dest: session_of_SomeD)
    with s b covers show ?thesis by (auto simp: access_ok_def ses)
  qed
  moreover have "refresh_ok ?d r" if "r \<in> set (refresh_tokens ?d)" for r
  proof -
    from that inv obtain s where "session_of d (ref_user r) (ref_session r) (ref_device r) = Some s"
      "ref_expires r = ses_expires s" by (auto simp: tabs session_inv_def refresh_ok_def)
    then show ?thesis by (simp add: refresh_ok_def ses)
  qed
  moreover have "distinct (map seskey (sessions ?d))" "distinct (map acc_hash (access_tokens ?d))"
    using inv by (simp_all add: tabs map_update_rows session_inv_def)
  ultimately show ?thesis using inv by (simp add: session_inv_def tabs)
qed

lemma revokeSessionTx_inv: "session_inv d \<Longrightarrow> session_inv (revokeSessionTx u s now d)"
  unfolding revokeSessionTx_def by (rule revoke_inv) (auto dest: session_of_SomeD)

lemma RevokeSession_inv: "session_inv d \<Longrightarrow> session_inv (snd (RevokeSession x now token s d))"
  by (auto simp: RevokeSession_def revokeSessionTx_inv split: sum.split)

section \<open>Devices\<close>

lemma device_at_update:
  assumes "\<And>r. devkey (f r) = devkey r"
  shows "device_at (d\<lparr>devices := update_rows P f (devices d)\<rparr>) u i =
    map_option (\<lambda>r. if P r then f r else r) (device_at d u i)"
  using assms by (simp add: device_at_def row_at_update)

lemma device_update_inv:
  assumes inv: "session_inv d" and key: "\<And>r. devkey (f r) = devkey r"
    and dead: "\<And>s v. s \<in> set (sessions d) \<Longrightarrow> device_at d (ses_user s) (ses_device s) = Some v \<Longrightarrow> P v \<Longrightarrow>
      dev_status (f v) = Revoked \<Longrightarrow> ses_status s = Revoked"
  shows "session_inv (d\<lparr>devices := update_rows P f (devices d)\<rparr>)"
proof -
  let ?d = "d\<lparr>devices := update_rows P f (devices d)\<rparr>"
  have "session_ok ?d s" if "s \<in> set (sessions d)" for s
  proof -
    from that inv obtain v where "device_at d (ses_user s) (ses_device s) = Some v"
      "dev_status v = Revoked \<longrightarrow> ses_status s = Revoked" by (auto simp: session_inv_def session_ok_def)
    with dead [OF that] show ?thesis by (auto simp: session_ok_def device_at_update key)
  qed
  with inv show ?thesis by (simp add: session_inv_def map_update_rows key)
qed

lemma device_rename_inv:
  assumes "session_inv d"
  shows "session_inv (d\<lparr>devices := update_rows P (\<lambda>r. r\<lparr>dev_name := n, dev_updated := max (dev_created r) now\<rparr>) (devices d)\<rparr>)"
  by (rule device_update_inv [OF assms]) (use assms in \<open>auto simp: devkey_def session_inv_def session_ok_def\<close>)

lemma RenameDevice_inv: "session_inv d \<Longrightarrow> session_inv (snd (RenameDevice x now token i name d))"
  by (auto simp: RenameDevice_def Let_def device_rename_inv split: sum.split)

lemma RevokeDevice_inv:
  assumes inv: "session_inv d"
  shows "session_inv (snd (RevokeDevice x now token i d))"
proof (cases "\<exists>p. AuthenticateAccess x now token d = Inr p \<and> session_validV7 x i \<and>
    rows_affected (\<lambda>r. dev_user r = pr_user p \<and> dev_id r = i) (devices d) = 1")
  case False
  then have "snd (RevokeDevice x now token i d) = d"
    by (auto simp: RevokeDevice_def Let_def split: sum.split)
  with inv show ?thesis by simp
next
  case True
  then obtain p where p: "AuthenticateAccess x now token d = Inr p" "session_validV7 x i"
    "rows_affected (\<lambda>r. dev_user r = pr_user p \<and> dev_id r = i) (devices d) = 1" by blast
  let ?u = "pr_user p"
  let ?Q = "\<lambda>r. acc_user r = ?u \<and> acc_device r = i" and ?P = "\<lambda>r. ses_user r = ?u \<and> ses_device r = i"
  let ?D = "\<lambda>r. dev_user r = ?u \<and> dev_id r = i"
  let ?f = "\<lambda>r. r\<lparr>dev_status := Revoked, dev_revoked := stamp (dev_revoked r) (dev_created r) now,
    dev_updated := max (dev_created r) now\<rparr>"
  let ?d = "revoke_access ?Q now (revoke_sessions ?P now d)"
  have dev: "devices ?d = devices d" by (simp add: revoke_access_def revoke_sessions_eq)
  have "snd (RevokeDevice x now token i d) = ?d\<lparr>devices := update_rows ?D ?f (devices ?d)\<rparr>"
    using p by (simp add: RevokeDevice_def Let_def revoke_access_def revoke_sessions_eq)
  moreover have "session_inv (?d\<lparr>devices := update_rows ?D ?f (devices ?d)\<rparr>)"
  proof (rule device_update_inv)
    show "session_inv ?d"
      by (rule revoke_inv [OF inv]) (auto dest: session_of_SomeD)
    fix s v
    assume "s \<in> set (sessions ?d)" and v: "device_at ?d (ses_user s) (ses_device s) = Some v" "?D v"
    then have "s \<in> (\<lambda>r. if ?P r then revoked_session now r else r) ` set (sessions d)"
      by (simp add: revoke_access_def revoke_sessions_eq set_update_rows)
    then obtain r where r: "s = (if ?P r then revoked_session now r else r)" by (rule imageE)
    from v(1) have "dev_user v = ses_user s" "dev_id v = ses_device s"
      by (auto simp: device_at_def devkey_def dest: row_at_SomeD)
    with v(2) r show "ses_status s = Revoked" by (cases "?P r") auto
  qed (simp add: devkey_def)
  ultimately show ?thesis by simp
qed

section \<open>Refresh\<close>

text \<open>The rotation written out: which rows it leaves.\<close>

lemma rotate_InrD:
  assumes "rotate now issued0 hash r s d = Inr (t, d')"
  defines "issued \<equiv> capped now (ses_expires s) issued0"
  defines "new \<equiv> fresh_refresh (is_refresh_hash issued) (ref_user r) (ref_session r) (ref_device r) now (ses_expires s)"
  defines "acc \<equiv> \<lparr>acc_hash = is_access_hash issued, acc_user = ref_user r, acc_session = ref_session r,
    acc_device = ref_device r, acc_issued = now, acc_expires = tk_access_expires (is_tokens issued), acc_revoked = None\<rparr>"
  defines "consume \<equiv> \<lambda>q. q\<lparr>ref_consumed := Some now, ref_replaced := Some (is_refresh_hash issued)\<rparr>"
  shows "t = is_tokens issued" "refresh_at d (is_refresh_hash issued) = None"
    "access_at d (is_access_hash issued) = None" "now < acc_expires acc"
    "length (is_access_hash issued) = 32"
    "d' = d\<lparr>refresh_tokens := update_rows (consumable hash now) consume (refresh_tokens d @ [new]),
            access_tokens := access_tokens d @ [acc]\<rparr>"
    "rows_affected (consumable hash now) (refresh_tokens d @ [new]) = 1"
  using assms(1)
  by (auto simp: rotate_def Let_def rbind_Inr_iff insert_refresh_def insertAccess_def insert_access_def
      issued_def new_def acc_def consume_def fresh_refresh_def split: if_splits)

lemma filter_live_consumed:
  assumes "\<And>q. ref_consumed (f q) \<noteq> None"
  shows "filter (\<lambda>q. ref_consumed q = None) (update_rows C f t) =
    filter (\<lambda>q. \<not> C q) (filter (\<lambda>q. ref_consumed q = None) t)"
  by (induction t) (use assms in auto)

lemma rotate_inv:
  assumes inv: "session_inv d" and r: "refresh_at d hash = Some r" "ref_consumed r = None"
    "ref_issued r \<le> now" "now < ref_expires r"
    and s: "session_of d (ref_user r) (ref_session r) (ref_device r) = Some s" "ses_status s = Active"
    and run: "rotate now issued0 hash r s d = Inr (t, d')"
  shows "session_inv d'"
proof -
  let ?is = "capped now (ses_expires s) issued0" and ?C = "consumable hash now"
  let ?new = "fresh_refresh (is_refresh_hash ?is) (ref_user r) (ref_session r) (ref_device r) now (ses_expires s)"
  let ?acc = "\<lparr>acc_hash = is_access_hash ?is, acc_user = ref_user r, acc_session = ref_session r,
    acc_device = ref_device r, acc_issued = now, acc_expires = tk_access_expires (is_tokens ?is), acc_revoked = None\<rparr>"
  let ?f = "\<lambda>q. q\<lparr>ref_consumed := Some now, ref_replaced := Some (is_refresh_hash ?is)\<rparr>"
  let ?t = "update_rows ?C ?f (refresh_tokens d @ [?new])"
  note out = rotate_InrD [OF run]
  have r': "r \<in> set (refresh_tokens d)" "ref_hash r = hash"
    using r(1) by (auto simp: refresh_at_def dest: row_at_SomeD)
  have fresh: "is_refresh_hash ?is \<notin> ref_hash ` set (refresh_tokens d)"
    using out(2) by (simp add: refresh_at_def row_at_None_iff)
  with r' have new: "\<not> ?C ?new" by (auto simp: consumable_def fresh_refresh_def)
  have "one_live ?t"
  proof -
    let ?live = "filter (\<lambda>q. ref_consumed q = None) (refresh_tokens d)"
    have old: "distinct (map refkey ?live)" using inv by (simp add: session_inv_def one_live_def)
    have other: "refkey q \<noteq> refkey r" if q: "q \<in> set ?live" "\<not> ?C q" for q
    proof
      assume "refkey q = refkey r"
      with old q(1) r(2) r'(1) have "q = r"
        by (intro distinct_filter_map_eq [of refkey "\<lambda>q. ref_consumed q = None" "refresh_tokens d"]) auto
      with q(2) r r' show False by (simp add: consumable_def)
    qed
    have "refkey r \<notin> refkey ` set (filter (\<lambda>q. \<not> ?C q) ?live)"
    proof
      assume "refkey r \<in> refkey ` set (filter (\<lambda>q. \<not> ?C q) ?live)"
      then obtain q where q: "refkey r = refkey q" "q \<in> set (filter (\<lambda>q. \<not> ?C q) ?live)" by (rule imageE)
      then have "q \<in> set ?live" "\<not> ?C q" by simp_all
      from other [OF this] q(1) show False by simp
    qed
    moreover have "refkey ?new = refkey r" by (simp add: refkey_def fresh_refresh_def)
    moreover have "distinct (map refkey (filter (\<lambda>q. \<not> ?C q) ?live))"
      using old by (rule distinct_map_filter)
    moreover have "filter (\<lambda>q. ref_consumed q = None) ?t = filter (\<lambda>q. \<not> ?C q) ?live @ [?new]"
      using new by (simp add: filter_live_consumed) (simp add: fresh_refresh_def)
    ultimately show ?thesis by (simp add: one_live_def)
  qed
  moreover have "distinct (map ref_hash ?t)"
    using inv fresh by (simp add: map_update_rows session_inv_def fresh_refresh_def)
  moreover have "refresh_ok d q" if "q \<in> set ?t" for q
    using that inv s(1) by (auto simp: set_update_rows session_inv_def refresh_ok_def fresh_refresh_def)
  moreover have "access_ok d ?acc"
    using s out(4) by (auto simp: access_ok_def capped_def)
  moreover have "is_access_hash ?is \<notin> acc_hash ` set (access_tokens d)"
    using out(3) by (simp add: access_at_def row_at_None_iff)
  ultimately show ?thesis
    using inv by (auto simp: out(6) session_inv_def)
qed

text \<open>The three ways \<open>Refresh\<close> ends: nothing happens, a replay revokes the session, a rotation.\<close>

lemma Refresh_cases [case_names unchanged replayed rotated]:
  obtains
    e where "Refresh x now random token d = (Inl e, d)"
  | hash r s where "parseAndHash x token refreshDomain = Inr hash" "refresh_at d hash = Some r"
      "ref_consumed r \<noteq> None" "session_of d (ref_user r) (ref_session r) (ref_device r) = Some s"
      "Refresh x now random token d =
         (Inl ErrUnauthenticated, revokeSessionTx (ref_user r) (ref_session r) now d)"
  | hash issued rest r s t d' where "parseAndHash x token refreshDomain = Inr hash"
      "issueTokenPair x now None random = Inr (issued, rest)"
      "refresh_at d hash = Some r" "ref_consumed r = None" "ref_issued r \<le> now" "now < ref_expires r"
      "session_of d (ref_user r) (ref_session r) (ref_device r) = Some s" "ses_status s = Active"
      "ses_created s \<le> now" "now < ses_expires s" "user_active d (ref_user r)"
      "device_active d (ref_user r) (ref_device r)"
      "rotate now issued hash r s d = Inr (t, d')" "Refresh x now random token d = (Inr t, d')"
proof (cases "Refresh x now random token d")
  case (Pair res d')
  then consider e where "res = Inl e" "d' = d"
    | "\<exists>hash r s. parseAndHash x token refreshDomain = Inr hash \<and> refresh_at d hash = Some r \<and>
        ref_consumed r \<noteq> None \<and> session_of d (ref_user r) (ref_session r) (ref_device r) = Some s \<and>
        res = Inl ErrUnauthenticated \<and> d' = revokeSessionTx (ref_user r) (ref_session r) now d"
    | "\<exists>hash issued rest r s t. parseAndHash x token refreshDomain = Inr hash \<and>
        issueTokenPair x now None random = Inr (issued, rest) \<and>
        refresh_at d hash = Some r \<and> ref_consumed r = None \<and> ref_issued r \<le> now \<and> now < ref_expires r \<and>
        session_of d (ref_user r) (ref_session r) (ref_device r) = Some s \<and> ses_status s = Active \<and>
        ses_created s \<le> now \<and> now < ses_expires s \<and> user_active d (ref_user r) \<and>
        device_active d (ref_user r) (ref_device r) \<and>
        rotate now issued hash r s d = Inr (t, d') \<and> res = Inr t"
    unfolding Refresh_def
    by (auto split: sum.splits option.splits if_splits simp: not_less not_le)
  then show thesis using Pair that by cases blast+
qed

lemma Refresh_inv: "session_inv d \<Longrightarrow> session_inv (snd (Refresh x now random token d))"
  by (cases rule: Refresh_cases [of x now random token d])
    (auto intro: revokeSessionTx_inv rotate_inv)

end
