(* ===== verification/Session_Safety.thy ===== *)
theory Session_Safety
  imports Session_Invariant
begin

text \<open>
  What the session operations guarantee to a client and against an attacker: a fresh identifier has
  version 7, a login's access token authenticates for its lifetime, a refresh token works once and
  its second use ends the session, a revoked device stays out.
\<close>

section \<open>Identifiers and token texts\<close>

lemma newUUIDv7_bits:
  fixes t r :: uuid
  defines "u \<equiv> push_bit 80 t OR push_bit 76 7 OR push_bit 63 1 OR (r AND (mask 76 AND NOT (push_bit 62 3)))"
  shows "take_bit 4 (drop_bit 76 u) = 7" "take_bit 2 (drop_bit 62 u) = 2"
proof -
  have nums: "(7 :: uuid) = mask 3" "(2 :: uuid) = push_bit 1 1" "(3 :: uuid) = mask 2"
    by (simp_all add: mask_eq_exp_minus_1 push_bit_eq_mult)
  show "take_bit 4 (drop_bit 76 u) = 7"
    unfolding u_def nums by (rule bit_word_eqI) (auto simp: bit_simps)
  show "take_bit 2 (drop_bit 62 u) = 2"
    unfolding u_def nums by (rule bit_word_eqI) (auto simp: bit_simps)
qed

lemma unat_mod_take_bit: "unat (w :: uuid) mod 2 ^ n = unat (take_bit n w)"
  unfolding unsigned_take_bit_eq by (simp add: take_bit_eq_mod)

lemma newUUIDv7_valid:
  assumes "uuid_layout x" "newUUIDv7 now random = Inr (u, rest)"
  shows "session_validV7 x u"
proof -
  from assms(2) obtain r where u: "u = push_bit 80 (word_of_int now) OR push_bit 76 7 OR push_bit 63 1 OR
      (r AND (mask 76 AND NOT (push_bit 62 3)))"
    by (auto simp: newUUIDv7_def rbind_Inr_iff)
  note bits = newUUIDv7_bits [of "word_of_int now" r, folded u]
  have "unat (drop_bit 76 u) mod 16 = 7"
    using unat_mod_take_bit [of "drop_bit 76 u" 4] by (simp add: bits)
  moreover have "unat (drop_bit 62 u) mod 4 = 2"
    using unat_mod_take_bit [of "drop_bit 62 u" 2] by (simp add: bits)
  moreover have "u \<noteq> 0" using bits(1) by auto
  ultimately show ?thesis
    using assms(1) by (simp add: bits session_validV7_def uuid_layout_def uuid_nil_def)
qed

lemma parse_issued:
  assumes "length raw = 32"
  shows "parseAndHash x (b64_encode raw) domain = Inr (hashToken x domain raw)"
  using assms by (simp add: parseAndHash_def b64_decode_encode length_b64_encode tokenBytes_def)

text \<open>A token has one text: what parses is the encoding of the bytes it was issued with.\<close>

lemma parse_unique:
  assumes "parseAndHash x token domain = Inr hash"
  shows "\<exists>raw. length raw = 32 \<and> token = b64_encode raw \<and> hash = hashToken x domain raw"
  using assms by (auto simp: parseAndHash_def tokenBytes_def split: option.splits if_splits)

lemma issueTokenPair_InrD:
  assumes "issueTokenPair x now final random = Inr (issued, rest)"
  shows "parseAndHash x (tk_access (is_tokens issued)) accessDomain = Inr (is_access_hash issued)"
    "parseAndHash x (tk_refresh (is_tokens issued)) refreshDomain = Inr (is_refresh_hash issued)"
  using assms by (auto simp: issueTokenPair_def rbind_Inr_iff read_full_def Let_def tokenBytes_def
      intro!: parse_issued split: if_splits)

lemma issueTokenPair_total: "64 \<le> length random \<Longrightarrow> \<exists>r. issueTokenPair x now final random = Inr r"
  by (simp add: issueTokenPair_def read_full_def tokenBytes_def Let_def)

section \<open>Login\<close>

lemma access_at_append:
  "access_at (d\<lparr>access_tokens := access_tokens d @ [r]\<rparr>) h =
     (case access_at d h of None \<Rightarrow> if acc_hash r = h then Some r else None | Some q \<Rightarrow> Some q)"
  by (simp add: access_at_def table_simps split: option.split)

lemma Login_access:
  assumes run: "Login x auth now random email pw name d = (Inr (p, t), d')"
    and time: "now \<le> now'" "now' < now + AccessTTL"
  shows "AuthenticateAccess x now' (tk_access t) d' = Inr p"
proof -
  from run obtain nm u i rnd1 s rnd2 issued rnd3 where
    iss: "issueTokenPair x now (Some (now + RefreshTTL)) rnd2 = Inr (issued, rnd3)" and
    tx: "login_tx x now nm u i s issued d = Inr ((p, t), d')"
    by (auto simp: Login_def rbind_Inr_iff split: sum.splits)
  let ?acc = "\<lparr>acc_hash = is_access_hash issued, acc_user = u, acc_session = s, acc_device = i,
    acc_issued = now, acc_expires = tk_access_expires (is_tokens issued), acc_revoked = None\<rparr>"
  let ?ses = "\<lparr>ses_user = u, ses_id = s, ses_device = i, ses_status = Active,
    ses_created = now, ses_expires = now + RefreshTTL, ses_revoked = None\<rparr>"
  from iss have expires: "tk_access_expires (is_tokens issued) = now + AccessTTL"
    by (auto simp: issueTokenPair_def rbind_Inr_iff Let_def AccessTTL_def RefreshTTL_def)
  from tx have p: "p = \<lparr>pr_user = u, pr_device = i, pr_session = s\<rparr>" and t: "t = is_tokens issued"
    and user: "user_active d u"
    by (auto simp: login_tx_def rbind_Inr_iff split: if_splits)
  from tx have acc: "access_at d' (is_access_hash issued) = Some ?acc"
    and ses: "session_of d' u s i = Some ?ses" and dev: "device_active d' u i" and user': "user_active d' u"
    using user
    by (auto simp: login_tx_def rbind_Inr_iff insert_device_def insert_session_def insertAccess_def
        insert_access_def insert_refresh_def access_at_append session_of_def session_at_def table_simps seskey_def
        device_active_def user_active_def access_at_def split: if_splits)
  show ?thesis
    using time by (simp add: AuthenticateAccess_def t issueTokenPair_InrD(1) [OF iss] acc ses dev user' p expires
      AccessTTL_def RefreshTTL_def)
qed

text \<open>What an authenticated principal stands for.\<close>

lemma AuthenticateAccess_Inr_iff:
  "AuthenticateAccess x now token d = Inr p \<longleftrightarrow>
     (\<exists>hash a s. parseAndHash x token accessDomain = Inr hash \<and> access_at d hash = Some a \<and>
        session_of d (acc_user a) (acc_session a) (acc_device a) = Some s \<and> ses_status s = Active \<and>
        device_active d (acc_user a) (acc_device a) \<and> user_active d (acc_user a) \<and>
        acc_revoked a = None \<and> acc_issued a \<le> now \<and> ses_created s \<le> now \<and>
        now < acc_expires a \<and> now < ses_expires s \<and>
        p = \<lparr>pr_user = acc_user a, pr_device = acc_device a, pr_session = acc_session a\<rparr>)"
  unfolding AuthenticateAccess_def rbind_Inr_iff
  by (intro iffI; elim exE conjE)
    (auto split: option.splits if_splits simp: not_less not_le)

section \<open>A refresh token works once\<close>

lemma revoked_session_access:
  assumes inv: "session_inv d"
  shows "AuthenticateAccess x now token (revokeSessionTx u s t d) = Inr p \<Longrightarrow> \<not> (pr_user p = u \<and> pr_session p = s)"
proof
  let ?d = "revokeSessionTx u s t d"
  assume ok: "AuthenticateAccess x now token ?d = Inr p" and p: "pr_user p = u \<and> pr_session p = s"
  then obtain r where r: "session_of ?d u s (pr_device p) = Some r" "ses_status r = Active"
    by (auto simp: AuthenticateAccess_Inr_iff)
  have "session_of ?d = session_of (revoke_sessions (\<lambda>r. ses_user r = u \<and> ses_id r = s) t d)"
    by (simp add: revokeSessionTx_def revoke_access_def)
  with r show False
    by (auto simp: session_of_revoked dest: session_of_SomeD)
qed

text \<open>After a rotation the predecessor is stored as consumed.\<close>

lemma rotate_consumes:
  assumes r: "refresh_at d hash = Some r" "ref_consumed r = None" "ref_issued r \<le> now" "now < ref_expires r"
    and run: "rotate now issued0 hash r s d = Inr (t, d')"
  shows "\<exists>q. refresh_at d' hash = Some q \<and> ref_consumed q \<noteq> None \<and> refkey q = refkey r \<and> ref_device q = ref_device r"
proof -
  note out = rotate_InrD [OF run]
  let ?is = "capped now (ses_expires s) issued0"
  let ?f = "\<lambda>q. q\<lparr>ref_consumed := Some now, ref_replaced := Some (is_refresh_hash ?is)\<rparr>"
  have "ref_hash r = hash" using r(1) by (auto simp: refresh_at_def dest: row_at_SomeD)
  then have C: "consumable hash now r" using r by (simp add: consumable_def)
  have "refresh_at d' hash = map_option (\<lambda>q. if consumable hash now q then ?f q else q) (Some r)"
    using r(1) by (simp add: out(6) refresh_at_def row_at_update row_at_append)
  with C show ?thesis by (simp add: refkey_def)
qed

text \<open>The tokens of a rotation authenticate as the device of the session they continue.\<close>

lemma rotate_access_row:
  assumes "rotate now issued0 hash r s d = Inr (t, d')"
  shows "t = is_tokens (capped now (ses_expires s) issued0) \<and>
    (\<exists>a. access_at d' (is_access_hash issued0) = Some a \<and> acc_user a = ref_user r \<and> acc_session a = ref_session r)"
  using rotate_InrD [OF assms]
  by (auto simp: capped_def access_at_def table_simps)

lemma session_of_frame_rotate:
  "rotate now issued0 hash r s d = Inr (t, d') \<Longrightarrow> session_of d' = session_of d"
  using rotate_InrD(6) [of now issued0 hash r s d t d'] by simp

lemma refresh_once:
  assumes inv: "session_inv d" and first: "Refresh x now random token d = (Inr t, d1)"
    and random: "64 \<le> length random2"
  shows "fst (Refresh x now2 random2 token d1) = Inl ErrUnauthenticated \<and>
    (\<forall>now3. AuthenticateAccess x now3 (tk_access t) (snd (Refresh x now2 random2 token d1)) =
       Inl ErrUnauthenticated)"
  using Refresh_cases [of x now random token d]
proof cases
  case (rotated hash issued rest r s t' d')
  with first have rot: "rotate now issued hash r s d = Inr (t, d1)" by simp
  have inv1: "session_inv d1" using Refresh_inv [OF inv, of x now random token] first by simp
  from rotate_consumes [OF rotated(3-6) rot] obtain q where
    q: "refresh_at d1 hash = Some q" "ref_consumed q \<noteq> None" "refkey q = refkey r" "ref_device q = ref_device r" by blast
  have tabs: "users d1 = users d" "devices d1 = devices d" using rotate_InrD(6) [OF rot] by simp_all
  have exist: "user_exists d1 (ref_user q)" "device_exists d1 (ref_user q) (ref_device q)"
    using rotated(11,12) q(3,4) user_active_exists device_active_exists
    by (auto simp: refkey_def user_exists_def device_exists_def tabs)
  have ses: "session_of d1 (ref_user q) (ref_session q) (ref_device q) = Some s"
    using rotated(7) q(3,4) session_of_frame_rotate [OF rot] by (simp add: refkey_def)
  obtain is2 rest2 where "issueTokenPair x now2 None random2 = Inr (is2, rest2)"
    using issueTokenPair_total [OF random] by fastforce
  then have second: "Refresh x now2 random2 token d1 =
      (Inl ErrUnauthenticated, revokeSessionTx (ref_user q) (ref_session q) now2 d1)"
    using rotated(1) q ses exist by (simp add: Refresh_def)
  let ?d2 = "revokeSessionTx (ref_user q) (ref_session q) now2 d1"
  from rotate_access_row [OF rot] obtain a where
    t: "tk_access t = tk_access (is_tokens issued)" and
    a: "access_at d1 (is_access_hash issued) = Some a" "acc_user a = ref_user r" "acc_session a = ref_session r"
    by (auto simp: capped_def)
  have parse: "parseAndHash x (tk_access t) accessDomain = Inr (is_access_hash issued)"
    using issueTokenPair_InrD(1) [OF rotated(2)] t by simp
  have "AuthenticateAccess x now3 (tk_access t) ?d2 = Inl ErrUnauthenticated" for now3
  proof (cases "AuthenticateAccess x now3 (tk_access t) ?d2")
    case (Inr p)
    have "access_at ?d2 (is_access_hash issued) = map_option
        (\<lambda>b. if acc_user b = ref_user q \<and> acc_session b = ref_session q
         then b\<lparr>acc_revoked := stamp (acc_revoked b) (acc_issued b) now2\<rparr> else b) (Some a)"
      using a(1) by (simp add: revokeSessionTx_def revoke_access_def revoke_sessions_eq access_at_def row_at_update)
    with Inr parse a have "pr_user p = ref_user q \<and> pr_session p = ref_session q"
      using q(3) by (auto simp: AuthenticateAccess_Inr_iff refkey_def split: if_splits)
    with revoked_session_access [OF inv1 Inr] show ?thesis by blast
  next
    case (Inl e)
    then show ?thesis by (auto simp: AuthenticateAccess_def parse rbind_Inl_iff split: option.splits if_splits)
  qed
  with second show ?thesis by simp
qed (use first in auto)

section \<open>A revoked device\<close>

definition device_revoked :: "db \<Rightarrow> uuid \<Rightarrow> uuid \<Rightarrow> bool" where
  "device_revoked d u i \<longleftrightarrow>
     (\<exists>r. device_at d u i = Some r \<and> dev_status r = Revoked)"

lemma device_revoked_inactive:
  assumes "distinct (map devkey (devices d))" "device_revoked d u i"
  shows "\<not> device_active d u i"
proof
  assume "device_active d u i"
  then obtain q where "q \<in> set (devices d)" "devkey q = (u, i)" "dev_status q = Active"
    by (auto simp: device_active_def list_ex_iff devkey_def)
  with assms(1) have "device_at d u i = Some q" by (simp add: device_at_def row_at_eq_iff)
  with assms(2) \<open>dev_status q = Active\<close> show False by (simp add: device_revoked_def)
qed

lemma AuthenticateAccess_device:
  "AuthenticateAccess x now token d = Inr p \<Longrightarrow> device_active d (pr_user p) (pr_device p)"
  by (auto simp: AuthenticateAccess_Inr_iff)

lemma RevokeDevice_revokes:
  assumes "RevokeDevice x now token i d = (Inr (), d')"
  shows "\<exists>p. AuthenticateAccess x now token d = Inr p \<and> device_revoked d' (pr_user p) i"
proof -
  from assms obtain p where p: "AuthenticateAccess x now token d = Inr p"
    "rows_affected (\<lambda>r. dev_user r = pr_user p \<and> dev_id r = i) (devices d) = 1"
    by (auto simp: RevokeDevice_def Let_def split: sum.splits if_splits)
  let ?P = "\<lambda>r. dev_user r = pr_user p \<and> dev_id r = i"
  let ?f = "\<lambda>r. r\<lparr>dev_status := Revoked, dev_revoked := stamp (dev_revoked r) (dev_created r) now,
    dev_updated := max (dev_created r) now\<rparr>"
  from assms p have "device_at d' = device_at (d\<lparr>devices := update_rows ?P ?f (devices d)\<rparr>)"
    by (auto simp: RevokeDevice_def Let_def revoke_access_def revoke_sessions_eq split: if_splits)
  then have dev: "device_at d' (pr_user p) i = map_option (\<lambda>r. if ?P r then ?f r else r) (device_at d (pr_user p) i)"
    by (simp add: device_at_update devkey_def)
  have "device_at d (pr_user p) i \<noteq> None"
  proof
    assume "device_at d (pr_user p) i = None"
    then have "\<forall>r\<in>set (devices d). \<not> ?P r" by (auto simp: device_at_def row_at_None_iff devkey_def image_iff)
    then have "rows_affected ?P (devices d) = 0" by (simp add: rows_affected_0_iff)
    with p(2) show False by simp
  qed
  then obtain r where r: "device_at d (pr_user p) i = Some r" by blast
  then have "?P r" by (auto simp: device_at_def devkey_def dest: row_at_SomeD)
  with p(1) r dev show ?thesis by (auto simp: device_revoked_def)
qed

end
