(* ===== verification/Email.thy ===== *)
theory Email
  imports External Go_Codec
begin

text \<open>
  Identity Policy v1 for addresses, \<open>server/internal/identity/email.go\<close>. The domain part goes through
  \<open>idna.Lookup.ToASCII\<close>, which is a parameter; \<open>idna_law\<close> states what the package documents of it. The
  errors of the whole identity package are declared here.
\<close>

section \<open>The address form\<close>

datatype identity_error =
    ErrInvalidEmail
  | ErrInvalidPassword
  | ErrInvalidPasswordHash
  | InvalidArgonConfiguration
  | ErrInvalidVerificationToken
  | ErrInvalidCredentials
  | ErrRegistrationUnavailable
  | IdentityRandom
  | IdentitySeal
  | IdentityDatabase

record email =
  em_delivery :: string
  em_canonical :: string

definition at_sign :: char where
  "at_sign = CHR 0x40"

definition dot :: char where
  "dot = CHR 0x2E"

definition hyphen :: char where
  "hyphen = CHR 0x2D"

text \<open>\<open>unicode.IsControl\<close>: category Cc.\<close>

definition control_rune :: "nat \<Rightarrow> bool" where
  "control_rune r \<longleftrightarrow> r < 32 \<or> (127 \<le> r \<and> r \<le> 159)"

definition isAText :: "char \<Rightarrow> bool" where
  "isAText c \<longleftrightarrow>
     in_range 97 122 c \<or> in_range 65 90 c \<or> in_range 48 57 c \<or>
     c \<in> set (''!#$%&*+-/=?^_{|}~.'' @ [CHR 0x27, CHR 0x60])"

fun contains_dots :: "string \<Rightarrow> bool" where
  "contains_dots (a # b # s) = (a = dot \<and> b = dot \<or> contains_dots (b # s))"
| "contains_dots _ = False"

definition validDotAtom :: "string \<Rightarrow> bool" where
  "validDotAtom local \<longleftrightarrow>
     \<not> has_prefix local [dot] \<and> \<not> has_suffix local [dot] \<and> \<not> contains_dots local \<and>
     list_all (\<lambda>c. code c < 128 \<and> isAText c) local"

text \<open>The loop over the labels of the domain.\<close>

definition valid_label :: "string \<Rightarrow> bool" where
  "valid_label l \<longleftrightarrow> l \<noteq> [] \<and> length l \<le> 63 \<and> hd l \<noteq> hyphen \<and> last l \<noteq> hyphen"

definition CanonicalizeEmail ::
  "ext \<Rightarrow> (string \<Rightarrow> string option) \<Rightarrow> string \<Rightarrow> identity_error + email" where
  "CanonicalizeEmail x idna input =
     (if \<not> valid_utf8 input then Inl ErrInvalidEmail
      else
        let trimmed = trim_both [CHR 0x20, CHR 0x09] input in
        if trimmed = [] \<or> count_list trimmed at_sign \<noteq> 1 then Inl ErrInvalidEmail
        else if list_ex control_rune (runes trimmed) then Inl ErrInvalidEmail
        else
          let local = cut_before at_sign trimmed; domain = drop (Suc (length local)) trimmed in
          if local = [] \<or> length local > 64 \<or> \<not> validDotAtom local then Inl ErrInvalidEmail
          else if domain = [] \<or> has_prefix domain [CHR 0x5B] \<or> has_suffix domain [dot] then Inl ErrInvalidEmail
          else case idna domain of
            None \<Rightarrow> Inl ErrInvalidEmail
          | Some ascii \<Rightarrow>
              let asciiDomain = to_lower x ascii in
              if asciiDomain = [] \<or> length asciiDomain > 253 then Inl ErrInvalidEmail
              else if \<not> list_all valid_label (split_on dot asciiDomain) then Inl ErrInvalidEmail
              else
                let delivery = local @ [at_sign] @ asciiDomain;
                    canonical = to_lower x local @ [at_sign] @ asciiDomain in
                if length delivery > 254 \<or> length canonical > 254 then Inl ErrInvalidEmail
                else Inr \<lparr>em_delivery = delivery, em_canonical = canonical\<rparr>)"

section \<open>The external conversion\<close>

text \<open>
  The \<open>Lookup\<close> profile applies the strict domain name rules, so its result has letters, digits, hyphens
  and dots only, and the lower-case form of a result is its own conversion.
\<close>

definition ldh :: "char \<Rightarrow> bool" where
  "ldh c \<longleftrightarrow> in_range 97 122 c \<or> in_range 65 90 c \<or> in_range 48 57 c \<or> c = hyphen \<or> c = dot"

definition idna_law :: "(string \<Rightarrow> string option) \<Rightarrow> bool" where
  "idna_law idna \<longleftrightarrow>
     (\<forall>s a. idna s = Some a \<longrightarrow> list_all ldh a \<and> idna (map ascii_lower a) = Some (map ascii_lower a))"

definition sample_idna :: "string \<Rightarrow> string option" where
  "sample_idna s = (if list_all ldh s then Some s else None)"

section \<open>Characters\<close>

lemma code_punctuation [simp]:
  "code at_sign = 64" "code dot = 46" "code hyphen = 45"
  by (simp_all add: at_sign_def dot_def hyphen_def code_def)

lemma code_ascii_lower: "code (ascii_lower c) = (if in_range 65 90 c then code c + 32 else code c)"
  by (simp add: ascii_lower_def in_range_def code_char_of)

lemma ascii_lower_other: "\<not> in_range 65 90 c \<Longrightarrow> ascii_lower c = c"
  by (simp add: ascii_lower_def)

lemma ascii_lower_upper: "in_range 65 90 c \<Longrightarrow> in_range 97 122 (ascii_lower c)"
  by (simp add: in_range_def code_ascii_lower)

lemma ascii_lower_idem [simp]: "ascii_lower (ascii_lower c) = ascii_lower c"
proof (cases "in_range 65 90 c")
  case True
  then have "\<not> in_range 65 90 (ascii_lower c)" by (simp add: in_range_def code_ascii_lower)
  then show ?thesis by (rule ascii_lower_other)
qed (simp add: ascii_lower_other)

lemma ascii_lower_comp [simp]: "ascii_lower \<circ> ascii_lower = ascii_lower"
  by (simp add: fun_eq_iff)

lemma isAText_code: "isAText c \<Longrightarrow> 33 \<le> code c \<and> code c \<le> 126 \<and> c \<noteq> at_sign"
proof -
  assume "isAText c"
  then consider "in_range 97 122 c \<or> in_range 65 90 c \<or> in_range 48 57 c"
    | "c \<in> set (''!#$%&*+-/=?^_{|}~.'' @ [CHR 0x27, CHR 0x60])"
    unfolding isAText_def by blast
  then have "33 \<le> code c \<and> code c \<le> 126 \<and> code c \<noteq> 64"
    by cases (auto simp: in_range_def code_def)
  then show ?thesis by auto
qed

lemma isAText_lower: "isAText c \<Longrightarrow> isAText (ascii_lower c)"
  using ascii_lower_upper [of c] ascii_lower_other [of c] by (cases "in_range 65 90 c") (auto simp: isAText_def)

lemma ldh_code: "ldh c \<Longrightarrow> 45 \<le> code c \<and> code c \<le> 122 \<and> c \<noteq> at_sign \<and> c \<noteq> CHR 0x5B"
proof -
  have "code (CHR 0x5B) = 91" by (simp add: code_def)
  then show "ldh c \<Longrightarrow> ?thesis"
    by (auto simp: ldh_def in_range_def) (simp_all add: hyphen_def dot_def at_sign_def)
qed

lemma ldh_lower: "ldh c \<Longrightarrow> ldh (ascii_lower c)"
  using ascii_lower_upper [of c] ascii_lower_other [of c] by (cases "in_range 65 90 c") (auto simp: ldh_def)

lemma sample_idna_law: "idna_law sample_idna"
  by (auto simp: idna_law_def sample_idna_def list_all_iff ldh_lower split: if_splits)

section \<open>Accepted addresses\<close>

definition address_parts :: "string \<Rightarrow> string \<Rightarrow> bool" where
  "address_parts local domain \<longleftrightarrow>
     local \<noteq> [] \<and> length local \<le> 64 \<and> validDotAtom local \<and>
     domain \<noteq> [] \<and> length domain \<le> 253 \<and> list_all ldh domain \<and> map ascii_lower domain = domain \<and>
     list_all valid_label (split_on dot domain) \<and> length local + length domain < 254"

definition address :: "string \<Rightarrow> string \<Rightarrow> string" where
  "address local domain = local @ [at_sign] @ domain"

lemma ascii_lower_dot [simp]: "ascii_lower c = dot \<longleftrightarrow> c = dot"
proof
  assume "ascii_lower c = dot"
  then have "code (ascii_lower c) = 46" by simp
  then have "code c = code dot" by (auto simp: code_ascii_lower in_range_def split: if_splits)
  then show "c = dot" by (simp only: code_inject)
qed (simp add: ascii_lower_other in_range_def)

lemma contains_dots_lower [simp]: "contains_dots (map ascii_lower s) = contains_dots s"
  by (induction s rule: contains_dots.induct) simp_all

lemma has_prefix_single [simp]: "has_prefix s [c] \<longleftrightarrow> s \<noteq> [] \<and> hd s = c"
  by (cases s) (auto simp: has_prefix_def)

lemma has_suffix_single [simp]: "has_suffix s [c] \<longleftrightarrow> s \<noteq> [] \<and> last s = c"
  by (cases s rule: rev_cases) (auto simp: has_suffix_def)

lemma validDotAtom_code:
  "validDotAtom s \<Longrightarrow> c \<in> set s \<Longrightarrow> 33 \<le> code c \<and> code c \<le> 126 \<and> c \<noteq> at_sign"
  using isAText_code [of c] by (auto simp: validDotAtom_def list_all_iff)

lemma validDotAtom_ascii: "validDotAtom s \<Longrightarrow> is_ascii s"
  by (auto simp: validDotAtom_def is_ascii_def list_all_iff)

lemma validDotAtom_lower: "validDotAtom s \<Longrightarrow> validDotAtom (map ascii_lower s)"
  by (auto simp: validDotAtom_def list_all_iff isAText_lower hd_map last_map code_ascii_lower in_range_def)

lemma address_parts_lower: "address_parts local domain \<Longrightarrow> address_parts (map ascii_lower local) domain"
  by (simp add: address_parts_def validDotAtom_lower)

lemma ldh_ascii: "list_all ldh s \<Longrightarrow> is_ascii s"
  using ldh_code by (fastforce simp: is_ascii_def list_all_iff)

lemma to_lower_ascii: "is_ascii s \<Longrightarrow> to_lower x s = map ascii_lower s"
  by (simp add: to_lower_def)

lemma trim_both_id: "s \<noteq> [] \<Longrightarrow> hd s \<notin> set cs \<Longrightarrow> last s \<notin> set cs \<Longrightarrow> trim_both cs s = s"
proof -
  assume "s \<noteq> []" "hd s \<notin> set cs" "last s \<notin> set cs"
  then have "dropWhile (\<lambda>c. c \<in> set cs) s = s" "dropWhile (\<lambda>c. c \<in> set cs) (rev s) = rev s"
    by (simp_all add: dropWhile_eq_self_iff hd_rev)
  then show ?thesis by (simp add: trim_both_def trim_right_def)
qed

lemma split_on_end: "split_on c (s @ [c]) = split_on c s @ [[]]"
  using split_on_nonempty [of c] by (induction s) (auto split: list.splits)

lemma address_codes:
  assumes "address_parts local domain" "c \<in> set (address local domain)"
  shows "33 \<le> code c \<and> code c \<le> 126"
  using assms validDotAtom_code [of local c] ldh_code [of c]
  by (auto simp: address_parts_def address_def list_all_iff)

lemma at_sign_once:
  assumes "address_parts local domain"
  shows "count_list (address local domain) at_sign = 1" "at_sign \<notin> set local"
proof -
  from assms show "at_sign \<notin> set local"
    using validDotAtom_code [of local at_sign] by (auto simp: address_parts_def)
  moreover from assms have "at_sign \<notin> set domain"
    using ldh_code [of at_sign] by (auto simp: address_parts_def list_all_iff)
  ultimately show "count_list (address local domain) at_sign = 1"
    by (simp add: address_def)
qed

text \<open>An address already in the accepted form is accepted as it is.\<close>

lemma CanonicalizeEmail_parts:
  assumes parts: "address_parts local domain" and idna: "idna domain = Some domain"
  shows "CanonicalizeEmail x idna (address local domain) =
    Inr \<lparr>em_delivery = address local domain, em_canonical = address (map ascii_lower local) domain\<rparr>"
proof -
  let ?s = "address local domain"
  have ascii: "is_ascii ?s"
    using address_codes [OF parts] by (fastforce simp: is_ascii_def list_all_iff)
  have ends: "hd ?s \<in> set ?s" "last ?s \<in> set ?s" by (rule hd_in_set last_in_set; simp add: address_def)+
  have "code (CHR 0x20) = 32" "code (CHR 0x09) = 9" by (simp_all add: code_def)
  then have trim: "trim_both [CHR 0x20, CHR 0x09] ?s = ?s"
    using address_codes [OF parts ends(1)] address_codes [OF parts ends(2)]
    by (intro trim_both_id) (auto simp: address_def)
  have control: "\<not> list_ex control_rune (runes ?s)"
    using address_codes [OF parts] by (fastforce simp: runes_ascii [OF ascii] list_ex_iff control_rune_def)
  have cut: "cut_before at_sign ?s = local"
    using at_sign_once(2) [OF parts]
    by (auto simp: cut_before_def address_def takeWhile_append takeWhile_eq_all_conv)
  have domain: "drop (Suc (length local)) ?s = domain" by (simp add: address_def)
  have "last domain \<noteq> dot"
  proof
    assume "last domain = dot"
    with parts have "domain = butlast domain @ [dot]"
      by (metis address_parts_def append_butlast_last_id)
    then have "[] \<in> set (split_on dot domain)" by (metis split_on_end in_set_conv_decomp)
    with parts show False by (auto simp: address_parts_def list_all_iff valid_label_def)
  qed
  moreover have "hd domain \<noteq> CHR 0x5B"
    using parts ldh_code [of "hd domain"] by (auto simp: address_parts_def list_all_iff)
  ultimately show ?thesis
    using parts at_sign_once(1) [OF parts]
    by (simp add: CanonicalizeEmail_def Let_def trim control cut domain idna valid_utf8_ascii [OF ascii]
        to_lower_ascii ldh_ascii validDotAtom_ascii address_parts_def) (simp add: address_def)
qed

text \<open>Every accepted address has the form.\<close>

lemma CanonicalizeEmail_InrD:
  assumes law: "idna_law idna" and ok: "CanonicalizeEmail x idna s = Inr e"
  obtains local domain where "address_parts local domain" and "idna domain = Some domain"
    and "e = \<lparr>em_delivery = address local domain, em_canonical = address (map ascii_lower local) domain\<rparr>"
proof -
  define trimmed where "trimmed = trim_both [CHR 0x20, CHR 0x09] s"
  define local where "local = cut_before at_sign trimmed"
  define raw where "raw = drop (Suc (length local)) trimmed"
  note defs = trimmed_def [symmetric] local_def [symmetric] raw_def [symmetric]
  obtain a where a: "idna raw = Some a"
    using ok by (auto simp: CanonicalizeEmail_def Let_def defs split: if_splits option.splits)
  with law have ldh: "list_all ldh a" and self: "idna (map ascii_lower a) = Some (map ascii_lower a)"
    by (auto simp: idna_law_def)
  have dom: "to_lower x a = map ascii_lower a" by (simp add: to_lower_ascii ldh_ascii ldh)
  have atom: "validDotAtom local" using ok
    by (auto simp: CanonicalizeEmail_def Let_def defs split: if_splits)
  have low: "to_lower x local = map ascii_lower local" by (simp add: to_lower_ascii validDotAtom_ascii atom)
  have "address_parts local (map ascii_lower a)"
    and "e = \<lparr>em_delivery = address local (map ascii_lower a),
        em_canonical = address (map ascii_lower local) (map ascii_lower a)\<rparr>"
    using ok ldh a
    by (auto simp: CanonicalizeEmail_def Let_def defs dom low address_parts_def address_def ldh_lower
        list_all_iff split: if_splits)
  then show thesis using self that by blast
qed

lemma CanonicalizeEmail_fixed:
  assumes law: "idna_law idna" and ok: "CanonicalizeEmail x idna s = Inr e"
  shows "CanonicalizeEmail x idna (em_delivery e) = Inr e"
    and "CanonicalizeEmail x idna (em_canonical e) =
      Inr \<lparr>em_delivery = em_canonical e, em_canonical = em_canonical e\<rparr>"
proof -
  from law ok obtain local domain where *: "address_parts local domain" "idna domain = Some domain"
      "e = \<lparr>em_delivery = address local domain, em_canonical = address (map ascii_lower local) domain\<rparr>"
    by (rule CanonicalizeEmail_InrD)
  from *(1,2) show "CanonicalizeEmail x idna (em_delivery e) = Inr e"
    by (simp add: *(3) CanonicalizeEmail_parts)
  from CanonicalizeEmail_parts [of "map ascii_lower local" domain idna x] address_parts_lower [OF *(1)] *(2)
  show "CanonicalizeEmail x idna (em_canonical e) =
      Inr \<lparr>em_delivery = em_canonical e, em_canonical = em_canonical e\<rparr>"
    by (simp add: *(3))
qed

lemma CanonicalizeEmail_bounds:
  assumes "idna_law idna" and "CanonicalizeEmail x idna s = Inr e"
  shows "3 \<le> length (em_delivery e) \<and> length (em_delivery e) \<le> 254 \<and> is_ascii (em_delivery e) \<and>
    length (em_canonical e) = length (em_delivery e)"
proof -
  from assms obtain local domain where *: "address_parts local domain"
      "e = \<lparr>em_delivery = address local domain, em_canonical = address (map ascii_lower local) domain\<rparr>"
    by (rule CanonicalizeEmail_InrD)
  moreover have "is_ascii (address local domain)"
    using address_codes [OF *(1)] by (fastforce simp: is_ascii_def list_all_iff)
  moreover have "0 < length local" "0 < length domain" using *(1) by (simp_all add: address_parts_def)
  then have "2 \<le> length local + length domain" by linarith
  ultimately show ?thesis by (simp add: address_def address_parts_def)
qed

end
