(* ===== verification/Password.thy ===== *)
theory Password
  imports Email
begin

text \<open>
  Password hashes, \<open>server/internal/identity/password.go\<close>: the bounded PHC strings, their parser and the
  hasher. \<open>argon2.IDKey\<close> is the parameter \<open>argon\<close> (password, salt, time, memory, threads, key length); the
  random source is a string of bytes. Parameters are \<open>uint32\<close> and \<open>uint8\<close> fields in the code; the checks
  keep every product far below their width, so that they are natural numbers here.
\<close>

section \<open>The standard Base64 alphabet\<close>

text \<open>\<open>base64.RawStdEncoding\<close> differs from the URL-safe encoding in the two last characters only.\<close>

definition std_char :: "char \<Rightarrow> char" where
  "std_char c = (if c = CHR ''-'' then CHR ''+'' else if c = CHR ''_'' then CHR ''/'' else c)"

definition url_char :: "char \<Rightarrow> char" where
  "url_char c = (if c = CHR ''+'' then CHR ''-'' else if c = CHR ''/'' then CHR ''_'' else c)"

definition std_encode :: "string \<Rightarrow> string" where
  "std_encode s = map std_char (b64_encode s)"

definition std_decode :: "string \<Rightarrow> string option" where
  "std_decode s = (if CHR ''-'' \<in> set s \<or> CHR ''_'' \<in> set s then None else b64_decode (map url_char s))"

section \<open>Numbers\<close>

text \<open>\<open>strconv.ParseUint(s, 10, 32)\<close>.\<close>

definition digits_value :: "string \<Rightarrow> nat" where
  "digits_value s = foldl (\<lambda>n c. n * 10 + (code c - 48)) 0 s"

definition ParseUint32 :: "string \<Rightarrow> nat option" where
  "ParseUint32 s =
     (if s = [] \<or> \<not> list_all (in_range 48 57) s \<or> digits_value s \<ge> 4294967296 then None
      else Some (digits_value s))"

definition parseParam :: "string \<Rightarrow> string \<Rightarrow> identity_error + nat" where
  "parseParam text prefix =
     (if \<not> has_prefix text prefix then Inl ErrInvalidPasswordHash
      else let raw = drop (length prefix) text in
        case ParseUint32 raw of
          None \<Rightarrow> Inl ErrInvalidPasswordHash
        | Some n \<Rightarrow> if decimal n \<noteq> raw then Inl ErrInvalidPasswordHash else Inr n)"

section \<open>Parameters\<close>

record argon_params =
  ap_memory :: nat
  ap_iterations :: nat
  ap_parallelism :: nat
  ap_salt :: nat
  ap_hash :: nat

definition PasswordPolicyVersion :: nat where
  "PasswordPolicyVersion = 1"

definition ProductionArgon2Params :: argon_params where
  "ProductionArgon2Params =
     \<lparr>ap_memory = 65536, ap_iterations = 3, ap_parallelism = 1, ap_salt = 16, ap_hash = 32\<rparr>"

definition cost_ok :: "nat \<Rightarrow> nat \<Rightarrow> nat \<Rightarrow> bool" where
  "cost_ok memory iterations parallelism \<longleftrightarrow>
     64 \<le> memory \<and> memory \<le> 262144 \<and> iterations \<noteq> 0 \<and> iterations \<le> 10 \<and>
     parallelism \<noteq> 0 \<and> parallelism \<le> 4 \<and> 8 * parallelism \<le> memory"

definition newPasswordHasher :: "argon_params \<Rightarrow> identity_error + argon_params" where
  "newPasswordHasher p =
     (if \<not> cost_ok (ap_memory p) (ap_iterations p) (ap_parallelism p) \<or>
         ap_salt p < 8 \<or> ap_salt p > 64 \<or> ap_hash p < 16 \<or> ap_hash p > 64
      then Inl InvalidArgonConfiguration else Inr p)"

section \<open>PHC strings\<close>

definition dollar :: char where
  "dollar = CHR ''$''"

definition comma :: char where
  "comma = CHR 0x2C"

definition phc :: "argon_params \<Rightarrow> string \<Rightarrow> string \<Rightarrow> string" where
  "phc p salt hash =
     [dollar] @ ''argon2id'' @ [dollar] @ ''v='' @ decimal 19 @ [dollar] @
     ''m='' @ decimal (ap_memory p) @ [comma] @ ''t='' @ decimal (ap_iterations p) @ [comma] @
     ''p='' @ decimal (ap_parallelism p) @ [dollar] @ std_encode salt @ [dollar] @ std_encode hash"

definition parse_field :: "string \<Rightarrow> nat \<Rightarrow> identity_error + string" where
  "parse_field s least =
     (case std_decode s of
        None \<Rightarrow> Inl ErrInvalidPasswordHash
      | Some raw \<Rightarrow>
          if length raw < least \<or> length raw > 64 \<or> std_encode raw \<noteq> s then Inl ErrInvalidPasswordHash
          else Inr raw)"

definition parse_cost :: "string \<Rightarrow> identity_error + (nat \<times> nat \<times> nat)" where
  "parse_cost s =
     (case split_on comma s of
        [a, b, c] \<Rightarrow>
          rbind (parseParam a ''m='') (\<lambda>memory.
          rbind (parseParam b ''t='') (\<lambda>iterations.
          rbind (parseParam c ''p='') (\<lambda>parallelism.
            if cost_ok memory iterations parallelism then Inr (memory, iterations, parallelism)
            else Inl ErrInvalidPasswordHash)))
      | _ \<Rightarrow> Inl ErrInvalidPasswordHash)"

definition parsePHC :: "string \<Rightarrow> identity_error + (argon_params \<times> string \<times> string)" where
  "parsePHC encoded =
     (if encoded = [] \<or> length encoded > 512 \<or> CHR 0x0D \<in> set encoded \<or> CHR 0x0A \<in> set encoded
      then Inl ErrInvalidPasswordHash
      else case split_on dollar encoded of
        [a, b, c, cost, s, h] \<Rightarrow>
          if a \<noteq> [] \<or> b \<noteq> ''argon2id'' \<or> c \<noteq> ''v=19'' \<or> length cost > 64 \<or> length s > 86 \<or> length h > 86
          then Inl ErrInvalidPasswordHash
          else
            rbind (parse_cost cost) (\<lambda>(memory, iterations, parallelism).
            rbind (parse_field s 8) (\<lambda>salt.
            rbind (parse_field h 16) (\<lambda>hash.
              Inr (\<lparr>ap_memory = memory, ap_iterations = iterations, ap_parallelism = parallelism,
                     ap_salt = length salt, ap_hash = length hash\<rparr>, salt, hash))))
      | _ \<Rightarrow> Inl ErrInvalidPasswordHash)"

section \<open>Hashing and verification\<close>

type_synonym argon = "string \<Rightarrow> string \<Rightarrow> nat \<Rightarrow> nat \<Rightarrow> nat \<Rightarrow> nat \<Rightarrow> string"

text \<open>\<open>argon2.IDKey\<close> returns a key of the length asked for.\<close>

definition argon_law :: "argon \<Rightarrow> bool" where
  "argon_law argon \<longleftrightarrow> (\<forall>pw salt t m p n. length (argon pw salt t m p n) = n)"

definition validateNewPassword :: "string \<Rightarrow> bool" where
  "validateNewPassword pw \<longleftrightarrow> valid_utf8 pw \<and> length pw \<le> 1024 \<and> 15 \<le> rune_count pw"

definition Hash :: "argon \<Rightarrow> argon_params \<Rightarrow> string \<Rightarrow> string \<Rightarrow> identity_error + (string \<times> string)" where
  "Hash argon p pw random =
     (if \<not> validateNewPassword pw then Inl ErrInvalidPassword
      else if length random < ap_salt p then Inl IdentityRandom
      else let salt = take (ap_salt p) random;
               hash = argon pw salt (ap_iterations p) (ap_memory p) (ap_parallelism p) (ap_hash p)
           in Inr (phc p salt hash, drop (ap_salt p) random))"

definition dummyEncoded :: "argon_params \<Rightarrow> string" where
  "dummyEncoded p = phc p (replicate (ap_salt p) (CHR 0x00)) (replicate (ap_hash p) (CHR 0x00))"

definition Verify ::
  "argon \<Rightarrow> argon_params \<Rightarrow> string \<Rightarrow> string \<Rightarrow> nat \<Rightarrow> identity_error + (bool \<times> bool)" where
  "Verify argon h pw encoded storedPolicy =
     (if \<not> valid_utf8 pw \<or> length pw > 1024 then Inl ErrInvalidPassword
      else
        rbind (parsePHC encoded) (\<lambda>(p, salt, expected).
          let actual = argon pw salt (ap_iterations p) (ap_memory p) (ap_parallelism p) (length expected);
              matches = (actual = expected)
          in Inr (matches, matches \<and> (storedPolicy \<noteq> PasswordPolicyVersion \<or> p \<noteq> h))))"

section \<open>Decimal numbers read back\<close>

lemma code_digit: "n < 10 \<Longrightarrow> code (digit_char n) = 48 + n"
  by (simp add: digit_char_def code_char_of)

lemma decimal_digits: "list_all (in_range 48 57) (decimal n)"
proof (induction n rule: decimal.induct)
  case (1 n)
  then show ?case
    by (subst decimal.simps) (auto simp: in_range_def code_digit list_all_iff)
qed

lemma decimal_not_Nil: "decimal n \<noteq> []"
  by (subst decimal.simps) auto

lemma digits_value_decimal: "digits_value (decimal n) = n"
proof (induction n rule: decimal.induct)
  case (1 n)
  show ?case
  proof (cases "n < 10")
    case True
    then show ?thesis by (subst decimal.simps) (simp add: digits_value_def code_digit)
  next
    case False
    then have "decimal n = decimal (n div 10) @ [digit_char (n mod 10)]" by (simp add: decimal.simps [of n])
    with 1 [OF False] show ?thesis by (simp add: digits_value_def code_digit)
  qed
qed

lemma ParseUint32_decimal: "n < 4294967296 \<Longrightarrow> ParseUint32 (decimal n) = Some n"
  by (simp add: ParseUint32_def decimal_not_Nil decimal_digits digits_value_decimal)

lemma parseParam_decimal: "n < 4294967296 \<Longrightarrow> parseParam (prefix @ decimal n) prefix = Inr n"
  by (simp add: parseParam_def has_prefix_def ParseUint32_decimal)

lemma length_decimal: "n < 10 ^ Suc k \<Longrightarrow> length (decimal n) \<le> Suc k"
proof (induction k arbitrary: n)
  case 0
  then show ?case by (subst decimal.simps) simp
next
  case (Suc k)
  then have "n div 10 < 10 ^ Suc k" by (simp add: less_mult_imp_div_less mult.commute)
  from Suc.IH [OF this] show ?case by (subst decimal.simps) simp
qed

lemma decimal_code: "c \<in> set (decimal n) \<Longrightarrow> 48 \<le> code c \<and> code c \<le> 57"
  using decimal_digits [of n] by (auto simp: list_all_iff in_range_def)

lemma decimal_19: "decimal 19 = ''19''"
  by code_simp

section \<open>Base64 fields read back\<close>

lemma b64_encode_chars: "c \<in> set (b64_encode s) \<Longrightarrow> \<exists>n<64. c = b64_char n"
  by (induction s rule: b64_encode.induct) (auto intro: b64_parts)

lemma b64_encode_no:
  assumes "b64_value c = None"
  shows "c \<notin> set (b64_encode s)"
  using assms b64_encode_chars [of c s] b64_value_char by fastforce

lemma b64_value_None [simp]:
  "b64_value (CHR ''+'') = None" "b64_value (CHR ''/'') = None" "b64_value (CHR ''$'') = None"
  "b64_value (CHR 0x2C) = None" "b64_value (CHR 0x0A) = None" "b64_value (CHR 0x0D) = None"
  by (simp_all add: b64_value_def in_range_def code_def)

lemma std_decode_encode: "std_decode (std_encode s) = Some s"
proof -
  have "map url_char (std_encode s) = b64_encode s"
    using b64_encode_no [of "CHR ''+''" s] b64_encode_no [of "CHR ''/''" s]
    by (auto simp: std_encode_def std_char_def url_char_def intro!: map_idI)
  moreover have "CHR ''-'' \<notin> set (std_encode s)" "CHR ''_'' \<notin> set (std_encode s)"
    by (auto simp: std_encode_def std_char_def split: if_splits)
  ultimately show ?thesis by (simp add: std_decode_def b64_decode_encode)
qed

lemma std_encode_no: "c \<in> {CHR ''$'', CHR 0x2C, CHR 0x0A, CHR 0x0D} \<Longrightarrow> c \<notin> set (std_encode s)"
  using b64_encode_no [of c s] by (auto simp: std_encode_def std_char_def split: if_splits)

lemma length_std_encode: "length (std_encode s) = (length s * 4 + 2) div 3"
  by (simp add: std_encode_def length_b64_encode)

lemma parse_field_encode:
  "least \<le> length raw \<Longrightarrow> length raw \<le> 64 \<Longrightarrow> parse_field (std_encode raw) least = Inr raw"
  by (simp add: parse_field_def std_decode_encode)

section \<open>The round trip of a PHC string\<close>

definition cost_text :: "argon_params \<Rightarrow> string" where
  "cost_text p =
     ''m='' @ decimal (ap_memory p) @ [comma] @ ''t='' @ decimal (ap_iterations p) @ [comma] @
     ''p='' @ decimal (ap_parallelism p)"

lemma decimal_no: "comma \<notin> set (decimal n)" "dollar \<notin> set (decimal n)" "CHR 0x0A \<notin> set (decimal n)"
    "CHR 0x0D \<notin> set (decimal n)"
proof -
  have "code comma = 44" "code dollar = 36" "code (CHR 0x0A) = 10" "code (CHR 0x0D) = 13"
    by (simp_all add: comma_def dollar_def code_def)
  then show "comma \<notin> set (decimal n)" "dollar \<notin> set (decimal n)" "CHR 0x0A \<notin> set (decimal n)"
    "CHR 0x0D \<notin> set (decimal n)"
    using decimal_code [of comma n] decimal_code [of dollar n] decimal_code [of "CHR 0x0A" n]
      decimal_code [of "CHR 0x0D" n]
    by auto
qed

lemma parse_cost_text:
  assumes "cost_ok (ap_memory p) (ap_iterations p) (ap_parallelism p)"
  shows "parse_cost (cost_text p) = Inr (ap_memory p, ap_iterations p, ap_parallelism p)"
proof -
  have "split_on comma (''m='' @ decimal (ap_memory p) @ comma # ''t='' @ decimal (ap_iterations p) @ comma #
      ''p='' @ decimal (ap_parallelism p)) =
      [''m='' @ decimal (ap_memory p), ''t='' @ decimal (ap_iterations p), ''p='' @ decimal (ap_parallelism p)]"
    using split_on_append [of comma "''m='' @ decimal (ap_memory p)"]
      split_on_append [of comma "''t='' @ decimal (ap_iterations p)"]
      split_on_no_sep [of comma "''p='' @ decimal (ap_parallelism p)"]
    by (simp add: decimal_no) (simp add: comma_def)
  moreover from assms have "ap_memory p < 4294967296" "ap_iterations p < 4294967296"
      "ap_parallelism p < 4294967296"
    by (simp_all add: cost_ok_def)
  then have "parseParam (''m='' @ decimal (ap_memory p)) ''m='' = Inr (ap_memory p)"
      "parseParam (''t='' @ decimal (ap_iterations p)) ''t='' = Inr (ap_iterations p)"
      "parseParam (''p='' @ decimal (ap_parallelism p)) ''p='' = Inr (ap_parallelism p)"
    by (simp_all add: parseParam_decimal del: append_Cons)
  ultimately show ?thesis using assms by (simp add: parse_cost_def cost_text_def)
qed

lemma cost_text_length:
  assumes "cost_ok (ap_memory p) (ap_iterations p) (ap_parallelism p)"
  shows "length (cost_text p) \<le> 19"
proof -
  from assms have "length (decimal (ap_memory p)) \<le> Suc 5" "length (decimal (ap_iterations p)) \<le> Suc 1"
    "length (decimal (ap_parallelism p)) \<le> Suc 0"
    by (intro length_decimal; simp add: cost_ok_def)+
  then show ?thesis by (simp add: cost_text_def)
qed

lemma parsePHC_phc:
  assumes cost: "cost_ok (ap_memory p) (ap_iterations p) (ap_parallelism p)"
    and salt: "length salt = ap_salt p" "8 \<le> ap_salt p" "ap_salt p \<le> 64"
    and hash: "length hash = ap_hash p" "16 \<le> ap_hash p" "ap_hash p \<le> 64"
  shows "parsePHC (phc p salt hash) = Inr (p, salt, hash)"
proof -
  have phc: "phc p salt hash = dollar # ''argon2id'' @ dollar # ''v=19'' @ dollar # cost_text p @
      dollar # std_encode salt @ dollar # std_encode hash"
    by (simp add: phc_def cost_text_def decimal_19)
  have no: "dollar \<notin> set (cost_text p)" "dollar \<notin> set (std_encode s)" for s
    using std_encode_no [of dollar s] by (auto simp: cost_text_def decimal_no) (simp_all add: dollar_def comma_def)
  have parts: "split_on dollar (dollar # t) = [] # split_on dollar t"
      "split_on dollar (''argon2id'' @ dollar # t) = ''argon2id'' # split_on dollar t"
      "split_on dollar (''v=19'' @ dollar # t) = ''v=19'' # split_on dollar t" for t
    using split_on_append [of dollar "[]" t] split_on_append [of dollar "''argon2id''" t]
      split_on_append [of dollar "''v=19''" t]
    by (simp_all only: append_Nil) (simp_all add: dollar_def del: split_on.simps append_Cons)
  then have split: "split_on dollar (phc p salt hash) =
      [[], ''argon2id'', ''v=19'', cost_text p, std_encode salt, std_encode hash]"
    unfolding phc by (simp only: parts split_on_append no split_on_no_sep not_False_eq_True)
  have len: "length (std_encode salt) \<le> 86" "length (std_encode hash) \<le> 86"
    using salt hash by (simp_all add: length_std_encode)
  moreover note cost_text_length [OF cost]
  ultimately have "length (phc p salt hash) \<le> 512" by (simp add: phc)
  moreover have "CHR 0x0D \<notin> set (phc p salt hash)" "CHR 0x0A \<notin> set (phc p salt hash)"
    unfolding phc by (auto simp: cost_text_def decimal_no std_encode_no) (simp_all add: dollar_def comma_def)
  moreover have "phc p salt hash \<noteq> []" by (simp add: phc)
  ultimately show ?thesis
    using cost_text_length [OF cost] len salt hash parse_cost_text [OF cost]
    by (simp add: parsePHC_def split parse_field_encode)
qed

section \<open>What is hashed is verified\<close>

lemma newPasswordHasher_InrD:
  "newPasswordHasher p = Inr q \<Longrightarrow> q = p \<and> cost_ok (ap_memory p) (ap_iterations p) (ap_parallelism p) \<and>
     8 \<le> ap_salt p \<and> ap_salt p \<le> 64 \<and> 16 \<le> ap_hash p \<and> ap_hash p \<le> 64"
  by (auto simp: newPasswordHasher_def split: if_splits)

lemma Verify_Hash:
  assumes new: "newPasswordHasher p = Inr h" and law: "argon_law argon"
    and hash: "Hash argon h pw random = Inr (encoded, rest)"
  shows "Verify argon h pw' encoded PasswordPolicyVersion =
    (if \<not> valid_utf8 pw' \<or> length pw' > 1024 then Inl ErrInvalidPassword
     else Inr (argon pw' (take (ap_salt h) random) (ap_iterations h) (ap_memory h) (ap_parallelism h) (ap_hash h) =
       argon pw (take (ap_salt h) random) (ap_iterations h) (ap_memory h) (ap_parallelism h) (ap_hash h), False))"
proof -
  let ?salt = "take (ap_salt h) random"
  let ?key = "argon pw ?salt (ap_iterations h) (ap_memory h) (ap_parallelism h) (ap_hash h)"
  from hash have *: "encoded = phc h ?salt ?key" "length ?salt = ap_salt h"
    by (auto simp: Hash_def Let_def split: if_splits)
  have "length ?key = ap_hash h" using law by (simp add: argon_law_def)
  with * newPasswordHasher_InrD [OF new] have "parsePHC encoded = Inr (h, ?salt, ?key)"
    by (simp add: parsePHC_phc)
  with law show ?thesis by (simp add: Verify_def Let_def argon_law_def)
qed

lemma Hash_ok:
  "Hash argon h pw random = Inr r \<Longrightarrow> valid_utf8 pw \<and> length pw \<le> 1024"
  by (auto simp: Hash_def validateNewPassword_def split: if_splits)

lemma Verify_dummy:
  assumes "newPasswordHasher p = Inr h" "valid_utf8 pw" "length pw \<le> 1024"
  shows "\<exists>b. Verify argon h pw (dummyEncoded h) PasswordPolicyVersion = Inr (b, False)"
  using newPasswordHasher_InrD [OF assms(1)] assms(2,3)
  by (simp add: Verify_def dummyEncoded_def parsePHC_phc Let_def)

end
