(* ===== verification/Verification_Token.thy ===== *)
theory Verification_Token
  imports Sync_Preserve
begin

text \<open>
  The sealed verification secrets of the outbox, \<open>server/internal/verificationtoken/codec.go\<close>. The AEAD
  (AES-GCM of the standard library) is a record of the two functions and two sizes that the code
  calls; \<open>gcm\<close>, from a key to such a record, is a parameter of \<open>NewCodec\<close>.
\<close>

record aead =
  ae_nonce_size :: nat
  ae_overhead :: nat
  ae_seal :: "string \<Rightarrow> string \<Rightarrow> string \<Rightarrow> string"
  ae_open :: "string \<Rightarrow> string \<Rightarrow> string \<Rightarrow> string option"

datatype codec_error = InvalidKey | InvalidSealInput | NonceFailed | InvalidSealed | OpenFailed

definition NewCodec :: "(string \<Rightarrow> aead) \<Rightarrow> string \<Rightarrow> codec_error + aead" where
  "NewCodec gcm key = (if length key \<noteq> 32 then Inl InvalidKey else Inr (gcm key))"

definition associatedData :: "uuid \<Rightarrow> string" where
  "associatedData u = ''remember:email-verification-outbox:v1'' @ [CHR 0x00] @ uuid_bytes u"

definition Seal :: "aead \<Rightarrow> string \<Rightarrow> uuid \<Rightarrow> string \<Rightarrow> codec_error + ((string \<times> string) \<times> string)" where
  "Seal c random u plaintext =
     (if u = uuid_nil \<or> plaintext = [] then Inl InvalidSealInput
      else if length random < ae_nonce_size c then Inl NonceFailed
      else let nonce = take (ae_nonce_size c) random
           in Inr ((nonce, ae_seal c nonce plaintext (associatedData u)), drop (ae_nonce_size c) random))"

definition Open :: "aead \<Rightarrow> uuid \<Rightarrow> string \<Rightarrow> string \<Rightarrow> codec_error + string" where
  "Open c u nonce ciphertext =
     (if u = uuid_nil \<or> length nonce \<noteq> ae_nonce_size c \<or> length ciphertext \<le> ae_overhead c
      then Inl InvalidSealed
      else case ae_open c nonce ciphertext (associatedData u) of
        None \<Rightarrow> Inl OpenFailed
      | Some plaintext \<Rightarrow> Inr plaintext)"

text \<open>
  What \<open>cipher.AEAD\<close> documents: a ciphertext is longer than its plaintext by the overhead, and opening
  with the nonce and the associated data of the sealing gives the plaintext back.
\<close>

definition aead_law :: "aead \<Rightarrow> bool" where
  "aead_law c \<longleftrightarrow>
     (\<forall>nonce p a. length (ae_seal c nonce p a) = length p + ae_overhead c) \<and>
     (\<forall>nonce p a. length nonce = ae_nonce_size c \<longrightarrow> ae_open c nonce (ae_seal c nonce p a) a = Some p)"

text \<open>AES-GCM as the standard library configures it: 12-byte nonces, 16-byte tags.\<close>

definition gcm_sizes :: "aead \<Rightarrow> bool" where
  "gcm_sizes c \<longleftrightarrow> ae_nonce_size c = 12 \<and> ae_overhead c = 16"

text \<open>An instance for the closed examples: the plaintext followed by a mark of 16 bytes.\<close>

definition sample_tag :: "string \<Rightarrow> string \<Rightarrow> string" where
  "sample_tag nonce a = take 16 (rev a @ nonce @ replicate 16 (CHR 0x00))"

definition sample_aead :: aead where
  "sample_aead = \<lparr>ae_nonce_size = 12, ae_overhead = 16,
     ae_seal = (\<lambda>nonce p a. p @ sample_tag nonce a),
     ae_open = (\<lambda>nonce s a. if drop (length s - 16) s = sample_tag nonce a
                 then Some (take (length s - 16) s) else None)\<rparr>"

lemma length_sample_tag: "length (sample_tag nonce a) = 16"
  by (simp add: sample_tag_def)

lemma sample_aead_law: "aead_law sample_aead" "gcm_sizes sample_aead"
  by (simp_all add: aead_law_def gcm_sizes_def sample_aead_def length_sample_tag)

lemma Open_Seal:
  assumes "aead_law c" and "Seal c random u plaintext = Inr ((nonce, sealed), rest)"
  shows "Open c u nonce sealed = Inr plaintext"
  using assms by (auto simp: Seal_def Open_def aead_law_def Let_def split: if_splits)

lemma Seal_InrD:
  assumes "aead_law c" "Seal c random u plaintext = Inr ((nonce, sealed), rest)"
  shows "length nonce = ae_nonce_size c" "length sealed = length plaintext + ae_overhead c" "u \<noteq> uuid_nil"
  using assms by (auto simp: Seal_def aead_law_def Let_def split: if_splits)

end
