(* ===== verification/Identity.thy ===== *)
theory Identity
  imports Session Password Verification_Token
begin

text \<open>
  Accounts, \<open>server/internal/identity/service.go\<close>: registration of a pending account with its sealed
  verification token, the credential check of a login, and the verification of an address. The tables
  are those of migrations 002 and 009. As in theory \<open>Session\<close> the clock reads of one request are \<open>now\<close>,
  and salt, identifier, token and nonce are read in this order from one random source, the one the
  production service is built with.
\<close>

section \<open>Tokens\<close>

definition VerificationTTL :: int where
  "VerificationTTL = 86400000"

definition verificationDomain :: string where
  "verificationDomain = ''remember:email-verification:v1'' @ [CHR 0x00]"

definition hashVerificationToken :: "ext \<Rightarrow> string \<Rightarrow> string" where
  "hashVerificationToken x raw = x_sha256 x (verificationDomain @ raw)"

text \<open>The identifier generator of this package is the one of the session package, line by line.\<close>

definition identity_newUUIDv7 :: "int \<Rightarrow> string \<Rightarrow> identity_error + (uuid \<times> string)" where
  "identity_newUUIDv7 now random =
     (case newUUIDv7 now random of Inl _ \<Rightarrow> Inl IdentityRandom | Inr r \<Rightarrow> Inr r)"

section \<open>Rows and their constraints\<close>

definition user_at :: "db \<Rightarrow> uuid \<Rightarrow> user_row option" where
  "user_at d u = row_at usr_id (users d) u"

definition user_by_email :: "db \<Rightarrow> string \<Rightarrow> user_row option" where
  "user_by_email d e = row_at usr_canonical (users d) e"

definition insert_user :: "user_row \<Rightarrow> db \<Rightarrow> identity_error + db" where
  "insert_user r d =
     (if user_at d (usr_id r) = None \<and> user_by_email d (usr_canonical r) = None \<and> 0 < usr_policy r
      then Inr (d\<lparr>users := users d @ [r]\<rparr>) else Inl IdentityDatabase)"

definition insert_verification :: "verification_row \<Rightarrow> db \<Rightarrow> identity_error + db" where
  "insert_verification r d =
     (if row_at evr_user (verifications d) (evr_user r) = None \<and>
         row_at evr_hash (verifications d) (evr_hash r) = None \<and>
         length (evr_hash r) = 32 \<and> evr_issued r < evr_expires r \<and> user_exists d (evr_user r)
      then Inr (d\<lparr>verifications := verifications d @ [r]\<rparr>) else Inl IdentityDatabase)"

definition insert_outbox :: "outbox_row \<Rightarrow> db \<Rightarrow> identity_error + db" where
  "insert_outbox r d =
     (if row_at eob_user (outbox d) (eob_user r) = None \<and>
         3 \<le> rune_count (eob_recipient r) \<and> rune_count (eob_recipient r) \<le> 254 \<and>
         length (eob_nonce r) = 12 \<and> length (eob_ciphertext r) = 48 \<and> eob_created r \<le> eob_next r \<and>
         row_at evr_user (verifications d) (eob_user r) \<noteq> None
      then Inr (d\<lparr>outbox := outbox d @ [r]\<rparr>) else Inl IdentityDatabase)"

section \<open>Registration\<close>

record registration =
  reg_created :: bool
  reg_user :: uuid
  reg_token :: string

definition no_registration :: registration where
  "no_registration = \<lparr>reg_created = False, reg_user = uuid_nil, reg_token = []\<rparr>"

definition registration_rows ::
  "ext \<Rightarrow> int \<Rightarrow> uuid \<Rightarrow> email \<Rightarrow> string \<Rightarrow> string \<Rightarrow> string \<Rightarrow> string \<Rightarrow> user_row \<times> verification_row \<times> outbox_row" where
  "registration_rows x now u e passwordHash raw nonce sealed =
     (\<lparr>usr_id = u, usr_delivery = em_delivery e, usr_canonical = em_canonical e, usr_password = passwordHash,
       usr_policy = PasswordPolicyVersion, usr_status = PendingVerification, usr_created = now,
       usr_verified = None\<rparr>,
      \<lparr>evr_user = u, evr_hash = hashVerificationToken x raw, evr_issued = now,
       evr_expires = now + VerificationTTL\<rparr>,
      \<lparr>eob_user = u, eob_recipient = em_delivery e, eob_nonce = nonce, eob_ciphertext = sealed,
       eob_created = now, eob_next = now, eob_attempts = 0\<rparr>)"

text \<open>The transaction; a taken address ends it with the empty registration.\<close>

definition register_tx ::
  "ext \<Rightarrow> int \<Rightarrow> uuid \<Rightarrow> email \<Rightarrow> string \<Rightarrow> string \<Rightarrow> string \<Rightarrow> string \<Rightarrow> db \<Rightarrow> (identity_error + registration) \<times> db" where
  "register_tx x now u e passwordHash raw nonce sealed d =
     (case registration_rows x now u e passwordHash raw nonce sealed of (user, verification, mail) \<Rightarrow>
      case insert_user user d of
        Inl err \<Rightarrow> (if user_by_email d (em_canonical e) \<noteq> None then Inr no_registration else Inl err, d)
      | Inr d1 \<Rightarrow>
        (case rbind (insert_verification verification d1) (insert_outbox mail) of
           Inl err \<Rightarrow> (Inl err, d)
         | Inr d' \<Rightarrow> (Inr \<lparr>reg_created = True, reg_user = u, reg_token = b64_encode raw\<rparr>, d')))"

definition Register ::
  "ext \<Rightarrow> (string \<Rightarrow> string option) \<Rightarrow> argon \<Rightarrow> argon_params \<Rightarrow> aead option \<Rightarrow> int \<Rightarrow> string \<Rightarrow>
     string \<Rightarrow> string \<Rightarrow> db \<Rightarrow> (identity_error + registration) \<times> db" where
  "Register x idna argon h codec now random emailInput passwordInput d =
     (case codec of None \<Rightarrow> (Inl ErrRegistrationUnavailable, d) | Some c \<Rightarrow>
      case CanonicalizeEmail x idna emailInput of Inl err \<Rightarrow> (Inl err, d) | Inr e \<Rightarrow>
      case Hash argon h passwordInput random of Inl err \<Rightarrow> (Inl err, d) | Inr (passwordHash, random) \<Rightarrow>
      case identity_newUUIDv7 now random of Inl err \<Rightarrow> (Inl err, d) | Inr (u, random) \<Rightarrow>
      if length random < tokenBytes then (Inl IdentityRandom, d) else
      let raw = take tokenBytes random in
      case Seal c (drop tokenBytes random) u raw of Inl _ \<Rightarrow> (Inl IdentitySeal, d) | Inr ((nonce, sealed), _) \<Rightarrow>
      register_tx x now u e passwordHash raw nonce sealed d)"

section \<open>Credentials\<close>

definition candidate_password :: "string \<Rightarrow> string" where
  "candidate_password pw =
     (if \<not> valid_utf8 pw \<or> length pw > 1024 then ''remember invalid credential'' else pw)"

text \<open>
  \<open>AuthenticateCredential\<close>; the second component is the record that is verified, the stored one or the
  dummy, so that the work spent on an unknown address shows in the model.
\<close>

definition credential_record ::
  "ext \<Rightarrow> (string \<Rightarrow> string option) \<Rightarrow> string \<Rightarrow> db \<Rightarrow> user_row option" where
  "credential_record x idna emailInput d =
     (case CanonicalizeEmail x idna emailInput of
        Inl _ \<Rightarrow> None | Inr e \<Rightarrow> user_by_email d (em_canonical e))"

definition AuthenticateCredential ::
  "ext \<Rightarrow> (string \<Rightarrow> string option) \<Rightarrow> argon \<Rightarrow> argon_params \<Rightarrow> string \<Rightarrow> string \<Rightarrow> db \<Rightarrow>
     (identity_error + uuid) \<times> (identity_error + (bool \<times> bool))" where
  "AuthenticateCredential x idna argon h emailInput passwordInput d =
     (let candidate = candidate_password passwordInput in
      case credential_record x idna emailInput d of
        None \<Rightarrow>
          (Inl ErrInvalidCredentials, Verify argon h candidate (dummyEncoded h) PasswordPolicyVersion)
      | Some r \<Rightarrow>
          let verdict = Verify argon h candidate (usr_password r) (usr_policy r) in
          (case verdict of
             Inl ErrInvalidPassword \<Rightarrow> Inl ErrInvalidCredentials
           | Inl err \<Rightarrow> Inl err
           | Inr (matches, _) \<Rightarrow>
               if \<not> matches \<or> usr_status r \<noteq> UserActive then Inl ErrInvalidCredentials
               else Inr (usr_id r), verdict))"

section \<open>Verification\<close>

text \<open>\<open>DELETE FROM email_verifications\<close>, which cascades to the outbox.\<close>

definition delete_verification :: "uuid \<Rightarrow> db \<Rightarrow> db" where
  "delete_verification u d =
     d\<lparr>verifications := filter (\<lambda>v. evr_user v \<noteq> u) (verifications d),
       outbox := filter (\<lambda>o1. eob_user o1 \<noteq> u) (outbox d)\<rparr>"

definition activate_user :: "uuid \<Rightarrow> int \<Rightarrow> db \<Rightarrow> db" where
  "activate_user u now d =
     d\<lparr>users := update_rows (\<lambda>r. usr_id r = u \<and> usr_status r = PendingVerification)
         (\<lambda>r. r\<lparr>usr_status := UserActive, usr_verified := Some now\<rparr>) (users d)\<rparr>"

definition VerifyEmail :: "ext \<Rightarrow> int \<Rightarrow> string \<Rightarrow> db \<Rightarrow> (identity_error + unit) \<times> db" where
  "VerifyEmail x now encodedToken d =
     (case b64_decode encodedToken of
        None \<Rightarrow> (Inl ErrInvalidVerificationToken, d)
      | Some raw \<Rightarrow>
          if length raw \<noteq> tokenBytes \<or> length encodedToken \<noteq> 43 then (Inl ErrInvalidVerificationToken, d)
          else case row_at evr_hash (verifications d) (hashVerificationToken x raw) of
            None \<Rightarrow> (Inl ErrInvalidVerificationToken, d)
          | Some v \<Rightarrow>
            (case user_at d (evr_user v) of
               None \<Rightarrow> (Inl ErrInvalidVerificationToken, d)
             | Some r \<Rightarrow>
                 if usr_status r \<noteq> PendingVerification \<or> now < evr_issued v \<or> evr_expires v \<le> now
                 then (Inl ErrInvalidVerificationToken, d)
                 else if rows_affected (\<lambda>r. usr_id r = evr_user v \<and> usr_status r = PendingVerification)
                     (users d) \<noteq> 1
                 then (Inl ErrInvalidVerificationToken, d)
                 else (Inr (), delete_verification (evr_user v) (activate_user (evr_user v) now d))))"

section \<open>The credential check as the session service calls it\<close>

definition authenticator ::
  "ext \<Rightarrow> (string \<Rightarrow> string option) \<Rightarrow> argon \<Rightarrow> argon_params \<Rightarrow> db \<Rightarrow> string \<Rightarrow> string \<Rightarrow> session_error + uuid" where
  "authenticator x idna argon h d emailInput passwordInput =
     (case fst (AuthenticateCredential x idna argon h emailInput passwordInput d) of
        Inl _ \<Rightarrow> Inl ErrCredential | Inr u \<Rightarrow> Inr u)"

end
