(* ===== verification/Delivery.thy ===== *)
theory Delivery
  imports Identity
begin

text \<open>
  The dispatcher of verification mail, \<open>server/internal/emaildelivery/dispatcher.go\<close>: expiry of pending
  registrations and at-least-once delivery from the outbox. The \<open>Sender\<close> interface is a parameter: a
  recipient and a token to whether the delivery succeeded.
\<close>

datatype delivery_error = ExpireFailed | InvalidSealedVerification | DeliveryFailed | CompletionMismatch

text \<open>
  \<open>retryDelay\<close>, in milliseconds: the attempt is clamped to 1 to 8, the delay doubles with it from 15
  seconds.
\<close>

definition retryDelay :: "int \<Rightarrow> int" where
  "retryDelay attempt =
     (let attempt = (if attempt < 1 then 1 else attempt);
          attempt = (if attempt > 8 then 8 else attempt)
      in 15000 * 2 ^ nat (attempt - 1))"

text \<open>
  \<open>DELETE FROM users\<close>: the rows of the deleted accounts go with them. The clone and move rows of a
  resolution refer to it without a cascade, so that the statement fails for an account that has some.
\<close>

definition purge_users :: "(uuid \<Rightarrow> bool) \<Rightarrow> db \<Rightarrow> db" where
  "purge_users P d =
     \<lparr>users = filter (\<lambda>r. \<not> P (usr_id r)) (users d),
      verifications = filter (\<lambda>r. \<not> P (evr_user r)) (verifications d),
      outbox = filter (\<lambda>r. \<not> P (eob_user r)) (outbox d),
      devices = filter (\<lambda>r. \<not> P (dev_user r)) (devices d),
      sessions = filter (\<lambda>r. \<not> P (ses_user r)) (sessions d),
      access_tokens = filter (\<lambda>r. \<not> P (acc_user r)) (access_tokens d),
      refresh_tokens = filter (\<lambda>r. \<not> P (ref_user r)) (refresh_tokens d),
      blobs = blobs d,
      entitlements = filter (\<lambda>r. \<not> P (fst r)) (entitlements d),
      counters = filter (\<lambda>r. \<not> P (fst r)) (counters d),
      objects = filter (\<lambda>r. \<not> P (o_user r)) (objects d),
      operations = filter (\<lambda>r. \<not> P (op_user r)) (operations d),
      versions = filter (\<lambda>r. \<not> P (ver_user r)) (versions d),
      changes = filter (\<lambda>r. \<not> P (chg_user r)) (changes d),
      resolutions = filter (\<lambda>r. \<not> P (res_user r)) (resolutions d),
      res_clone_rows = res_clone_rows d,
      res_move_rows = res_move_rows d\<rparr>"

definition delete_users :: "(uuid \<Rightarrow> bool) \<Rightarrow> db \<Rightarrow> delivery_error + db" where
  "delete_users P d =
     (if list_ex (\<lambda>r. P (cln_user r)) (res_clone_rows d) \<or> list_ex (\<lambda>r. P (mov_user r)) (res_move_rows d)
      then Inl ExpireFailed else Inr (purge_users P d))"

definition expired_pending :: "int \<Rightarrow> db \<Rightarrow> uuid \<Rightarrow> bool" where
  "expired_pending now d u \<longleftrightarrow>
     list_ex (\<lambda>r. usr_id r = u \<and> usr_status r = PendingVerification) (users d) \<and>
     list_ex (\<lambda>v. evr_user v = u \<and> evr_expires v \<le> now) (verifications d)"

text \<open>The joined query: the due message of an unexpired verification that comes first.\<close>

definition due :: "int \<Rightarrow> db \<Rightarrow> outbox_row list" where
  "due now d =
     sort_key eob_next (sort_key eob_created
       (filter (\<lambda>m. eob_next m \<le> now \<and>
          list_ex (\<lambda>v. evr_user v = eob_user m \<and> now < evr_expires v) (verifications d)) (outbox d)))"

definition same_message :: "outbox_row \<Rightarrow> outbox_row \<Rightarrow> bool" where
  "same_message m r \<longleftrightarrow>
     eob_user r = eob_user m \<and> eob_nonce r = eob_nonce m \<and> eob_ciphertext r = eob_ciphertext m"

definition reschedule :: "int \<Rightarrow> outbox_row \<Rightarrow> db \<Rightarrow> db" where
  "reschedule now m d =
     d\<lparr>outbox := update_rows (same_message m)
         (\<lambda>r. r\<lparr>eob_attempts := eob_attempts r + 1,
                eob_next := now + retryDelay (int (eob_attempts m) + 1)\<rparr>) (outbox d)\<rparr>"

definition complete_delivery :: "outbox_row \<Rightarrow> db \<Rightarrow> db" where
  "complete_delivery m d = d\<lparr>outbox := filter (\<lambda>r. \<not> same_message m r) (outbox d)\<rparr>"

text \<open>\<open>DispatchOne\<close>: whether a delivery was attempted, the error, the message sent, and the new state.\<close>

record dispatch =
  dp_attempted :: bool
  dp_error :: "delivery_error option"
  dp_sent :: "(string \<times> string) option"

definition DispatchOne :: "aead \<Rightarrow> (string \<Rightarrow> string \<Rightarrow> bool) \<Rightarrow> int \<Rightarrow> db \<Rightarrow> dispatch \<times> db" where
  "DispatchOne c send now d0 =
     (case delete_users (expired_pending now d0) d0 of
        Inl e \<Rightarrow> (\<lparr>dp_attempted = False, dp_error = Some e, dp_sent = None\<rparr>, d0)
      | Inr d \<Rightarrow>
     (case due now d of
        [] \<Rightarrow> (\<lparr>dp_attempted = False, dp_error = None, dp_sent = None\<rparr>, d)
      | m # _ \<Rightarrow>
     (case Open c (eob_user m) (eob_nonce m) (eob_ciphertext m) of
        Inl _ \<Rightarrow> (\<lparr>dp_attempted = False, dp_error = Some InvalidSealedVerification, dp_sent = None\<rparr>, d)
      | Inr raw \<Rightarrow>
          if length raw \<noteq> 32
          then (\<lparr>dp_attempted = False, dp_error = Some InvalidSealedVerification, dp_sent = None\<rparr>, d)
          else if \<not> send (eob_recipient m) (b64_encode raw)
          then (\<lparr>dp_attempted = True, dp_error = Some DeliveryFailed, dp_sent = None\<rparr>, reschedule now m d)
          else (\<lparr>dp_attempted = True,
                  dp_error = (if rows_affected (same_message m) (outbox d) \<noteq> 1 then Some CompletionMismatch else None),
                  dp_sent = Some (eob_recipient m, b64_encode raw)\<rparr>,
                complete_delivery m d))))"

text \<open>
  The inner loop of \<open>Run\<close> at one tick: dispatch until nothing is due or a delivery fails. Every round that
  goes on removes a message, so the number of messages bounds the rounds.
\<close>

fun drain :: "nat \<Rightarrow> aead \<Rightarrow> (string \<Rightarrow> string \<Rightarrow> bool) \<Rightarrow> int \<Rightarrow> db \<Rightarrow> db option" where
  "drain 0 c send now d = None"
| "drain (Suc n) c send now d =
     (case DispatchOne c send now d of (r, d') \<Rightarrow>
        if \<not> dp_attempted r \<or> dp_error r \<noteq> None then Some d' else drain n c send now d')"

end
