(* ===== verification/Identity_Invariant.thy ===== *)
theory Identity_Invariant
  imports Delivery
begin

text \<open>
  The invariant of the account tables and its preservation. Keys are unique, a verification belongs to a
  pending account, a stored password hash is a well-formed PHC string, and a queued message opens to
  the very token whose hash is stored for its account.
\<close>

section \<open>The invariant\<close>

definition user_ok :: "user_row \<Rightarrow> bool" where
  "user_ok r \<longleftrightarrow>
     (\<exists>p. parsePHC (usr_password r) = Inr p) \<and> (usr_status r = PendingVerification \<longrightarrow> usr_verified r = None)"

definition verification_ok :: "db \<Rightarrow> verification_row \<Rightarrow> bool" where
  "verification_ok d v \<longleftrightarrow>
     (\<exists>r. user_at d (evr_user v) = Some r \<and> usr_status r = PendingVerification) \<and>
     evr_expires v = evr_issued v + VerificationTTL"

definition message_ok :: "ext \<Rightarrow> aead \<Rightarrow> db \<Rightarrow> outbox_row \<Rightarrow> bool" where
  "message_ok x c d m \<longleftrightarrow>
     (\<exists>raw v. Open c (eob_user m) (eob_nonce m) (eob_ciphertext m) = Inr raw \<and> length raw = 32 \<and>
        v \<in> set (verifications d) \<and> evr_user v = eob_user m \<and> evr_hash v = hashVerificationToken x raw) \<and>
     (\<exists>r. user_at d (eob_user m) = Some r \<and> usr_delivery r = eob_recipient m)"

definition identity_inv :: "ext \<Rightarrow> aead \<Rightarrow> db \<Rightarrow> bool" where
  "identity_inv x c d \<longleftrightarrow>
     distinct (map usr_id (users d)) \<and> distinct (map usr_canonical (users d)) \<and>
     distinct (map evr_user (verifications d)) \<and> distinct (map evr_hash (verifications d)) \<and>
     distinct (map eob_user (outbox d)) \<and>
     (\<forall>r\<in>set (users d). user_ok r) \<and> (\<forall>v\<in>set (verifications d). verification_ok d v) \<and>
     (\<forall>m\<in>set (outbox d). message_ok x c d m)"

lemma identity_inv_empty: "identity_inv x c empty_db"
  by (simp add: identity_inv_def empty_db_def)

lemma identity_invD:
  assumes "identity_inv x c d"
  shows "distinct (map usr_id (users d))" "distinct (map usr_canonical (users d))"
    "distinct (map evr_user (verifications d))" "distinct (map evr_hash (verifications d))"
    "distinct (map eob_user (outbox d))"
    "r \<in> set (users d) \<Longrightarrow> user_ok r" "v \<in> set (verifications d) \<Longrightarrow> verification_ok d v"
    "m \<in> set (outbox d) \<Longrightarrow> message_ok x c d m"
  using assms by (auto simp: identity_inv_def)

section \<open>Registration\<close>

definition registered ::
  "ext \<Rightarrow> aead \<Rightarrow> int \<Rightarrow> email \<Rightarrow> string \<Rightarrow> uuid \<Rightarrow> string \<Rightarrow> string \<Rightarrow> string \<Rightarrow> db \<Rightarrow> db \<Rightarrow> bool" where
  "registered x c now e ph u raw nonce sealed d d' \<longleftrightarrow>
     user_at d u = None \<and> user_by_email d (em_canonical e) = None \<and>
     row_at evr_user (verifications d) u = None \<and>
     row_at evr_hash (verifications d) (hashVerificationToken x raw) = None \<and>
     row_at eob_user (outbox d) u = None \<and> length raw = 32 \<and>
     Open c u nonce sealed = Inr raw \<and>
     (case registration_rows x now u e ph raw nonce sealed of (user, verification, mail) \<Rightarrow>
        d' = d\<lparr>users := users d @ [user], verifications := verifications d @ [verification],
               outbox := outbox d @ [mail]\<rparr>)"

lemma register_tx_cases:
  assumes "register_tx x now u e ph raw nonce sealed d = (res, d')"
    and "Open c u nonce sealed = Inr raw" "length raw = 32"
  obtains (same) "d' = d" and "\<And>r. res = Inr r \<Longrightarrow> r = no_registration \<and> user_by_email d (em_canonical e) \<noteq> None"
  | (created) "registered x c now e ph u raw nonce sealed d d'"
      and "res = Inr \<lparr>reg_created = True, reg_user = u, reg_token = b64_encode raw\<rparr>"
proof -
  have split: "rbind (insert_verification v d1) (insert_outbox m) = Inr d2 \<Longrightarrow>
      d1 = d\<lparr>users := users d @ [r]\<rparr> \<Longrightarrow>
      row_at evr_user (verifications d) (evr_user v) = None \<and>
      row_at evr_hash (verifications d) (evr_hash v) = None \<and> row_at eob_user (outbox d) (eob_user m) = None \<and>
      d2 = d\<lparr>users := users d @ [r], verifications := verifications d @ [v], outbox := outbox d @ [m]\<rparr>"
    for v d1 m d2 r
    by (auto simp: insert_verification_def insert_outbox_def split: if_splits)
  show thesis
  proof (cases "user_at d u = None \<and> user_by_email d (em_canonical e) = None")
    case True
    obtain user v m where rows: "registration_rows x now u e ph raw nonce sealed = (user, v, m)"
      by (cases "registration_rows x now u e ph raw nonce sealed") auto
    then have keys: "usr_id user = u" "usr_canonical user = em_canonical e" "usr_policy user = 1"
        "evr_user v = u" "evr_hash v = hashVerificationToken x raw" "eob_user m = u"
      by (auto simp: registration_rows_def PasswordPolicyVersion_def)
    with True have ins: "insert_user user d = Inr (d\<lparr>users := users d @ [user]\<rparr>)"
      by (simp add: insert_user_def)
    show thesis
    proof (cases "rbind (insert_verification v (d\<lparr>users := users d @ [user]\<rparr>)) (insert_outbox m)")
      case (Inl err)
      with assms(1) rows ins show thesis by (auto simp: register_tx_def intro: same)
    next
      case (Inr d2)
      from split [OF Inr refl] True keys rows assms(2,3) have "registered x c now e ph u raw nonce sealed d d2"
        by (simp add: registered_def)
      with assms(1) rows ins Inr show thesis by (auto simp: register_tx_def intro: created)
    qed
  next
    case False
    then have "\<exists>err. insert_user (fst (registration_rows x now u e ph raw nonce sealed)) d = Inl err"
      by (auto simp: insert_user_def registration_rows_def)
    with assms(1) show thesis
      by (auto simp: register_tx_def split: if_splits prod.splits intro: same)
  qed
qed

lemma Register_cases:
  assumes run: "Register x idna argon h (Some c) now random emailInput pw d = (res, d')"
    and law: "aead_law c"
  obtains (same) "d' = d"
      and "\<And>r. res = Inr r \<Longrightarrow> r = no_registration \<and>
        (\<exists>e. CanonicalizeEmail x idna emailInput = Inr e \<and> user_by_email d (em_canonical e) \<noteq> None)"
  | (created) e ph rest u raw nonce sealed where "CanonicalizeEmail x idna emailInput = Inr e"
      and "Hash argon h pw random = Inr (ph, rest)" and "registered x c now e ph u raw nonce sealed d d'"
      and "res = Inr \<lparr>reg_created = True, reg_user = u, reg_token = b64_encode raw\<rparr>"
proof -
  show thesis
  proof (cases "CanonicalizeEmail x idna emailInput")
    case (Inl err)
    with run show thesis by (auto simp: Register_def intro: same)
  next
    case email: (Inr e)
    show thesis
    proof (cases "Hash argon h pw random")
      case (Inl err)
      with run email show thesis by (auto simp: Register_def intro: same)
    next
      case (Inr hr)
      obtain ph rest where hr: "hr = (ph, rest)" by (cases hr)
      show thesis
      proof (cases "identity_newUUIDv7 now rest")
        case (Inl err)
        with run email Inr hr show thesis by (auto simp: Register_def intro: same)
      next
        case uuid: (Inr ur)
        obtain u rest' where ur: "ur = (u, rest')" by (cases ur)
        let ?raw = "take tokenBytes rest'"
        show thesis
        proof (cases "length rest' < tokenBytes \<or> (\<exists>err. Seal c (drop tokenBytes rest') u ?raw = Inl err)")
          case True
          then have "(case Seal c (drop tokenBytes rest') u ?raw of Inl _ \<Rightarrow> (Inl IdentitySeal, d)
                | Inr ((nonce, sealed), _) \<Rightarrow> register_tx x now u e ph ?raw nonce sealed d) = (Inl IdentitySeal, d) \<or>
              length rest' < tokenBytes" by auto
          with run email Inr hr uuid ur have "d' = d" "\<exists>err. res = Inl err"
            by (auto simp: Register_def Let_def split: if_splits)
          then show thesis by (auto intro: same)
        next
          case False
          then obtain nonce sealed rest'' where seal:
              "Seal c (drop tokenBytes rest') u ?raw = Inr ((nonce, sealed), rest'')"
            by (cases "Seal c (drop tokenBytes rest') u ?raw") auto
          have opens: "Open c u nonce sealed = Inr ?raw" by (rule Open_Seal [OF law seal])
          have raw: "length ?raw = 32" using False by (simp add: tokenBytes_def)
          have tx: "register_tx x now u e ph ?raw nonce sealed d = (res, d')"
            using run email Inr hr uuid ur False seal by (simp add: Register_def Let_def)
          from tx opens raw show thesis
          proof (cases rule: register_tx_cases)
            case same
            then show thesis using that(1) email by blast
          next
            case created
            then show thesis using that(2) email Inr hr by blast
          qed
        qed
      qed
    qed
  qed
qed

lemma Register_no_codec: "Register x idna argon h None now random emailInput pw d = (Inl ErrRegistrationUnavailable, d)"
  by (simp add: Register_def)

text \<open>Lookups of accounts after an append.\<close>

lemma user_at_append:
  "user_at d u = Some r \<Longrightarrow> user_at (d\<lparr>users := users d @ rs, verifications := vs, outbox := ms\<rparr>) u = Some r"
  by (simp add: user_at_def row_at_append)

lemma verification_ok_append:
  "verification_ok d v \<Longrightarrow> verification_ok (d\<lparr>users := users d @ rs, verifications := vs, outbox := ms\<rparr>) v"
  using user_at_append unfolding verification_ok_def by blast

lemma message_ok_append:
  "message_ok x c d m \<Longrightarrow>
     message_ok x c (d\<lparr>users := users d @ rs, verifications := verifications d @ vs, outbox := ms\<rparr>) m"
  using user_at_append [where d = d and u = "eob_user m" and rs = rs] unfolding message_ok_def
  by (simp add: Un_iff) blast

lemma registered_inv:
  assumes inv: "identity_inv x c d" and reg: "registered x c now e ph u raw nonce sealed d d'"
    and ph: "parsePHC ph = Inr p"
  shows "identity_inv x c d'"
proof -
  obtain user v m where rows: "registration_rows x now u e ph raw nonce sealed = (user, v, m)"
    by (cases "registration_rows x now u e ph raw nonce sealed") auto
  then have row: "usr_id user = u" "usr_canonical user = em_canonical e" "usr_status user = PendingVerification"
      "usr_password user = ph" "usr_verified user = None" "usr_delivery user = em_delivery e"
      "evr_user v = u" "evr_hash v = hashVerificationToken x raw"
      "evr_expires v = evr_issued v + VerificationTTL" "eob_user m = u" "eob_recipient m = em_delivery e"
      "eob_nonce m = nonce" "eob_ciphertext m = sealed"
    by (auto simp: registration_rows_def)
  from reg rows have d': "d' = d\<lparr>users := users d @ [user], verifications := verifications d @ [v],
      outbox := outbox d @ [m]\<rparr>"
    and free: "u \<notin> usr_id ` set (users d)" "em_canonical e \<notin> usr_canonical ` set (users d)"
      "u \<notin> evr_user ` set (verifications d)" "hashVerificationToken x raw \<notin> evr_hash ` set (verifications d)"
      "u \<notin> eob_user ` set (outbox d)"
    and msg: "Open c u nonce sealed = Inr raw" "length raw = 32" and none: "user_at d u = None"
    by (auto simp: registered_def user_at_def user_by_email_def row_at_None_iff)
  have self: "user_at d' u = Some user"
    using none row(1) by (simp add: d' user_at_def row_at_append)
  have "user_ok user" unfolding user_ok_def using ph row by blast
  moreover have "verification_ok d' v" using self row by (simp add: verification_ok_def)
  moreover have "message_ok x c d' m" using self row msg by (simp add: message_ok_def d') blast
  ultimately show ?thesis
    using inv free row unfolding identity_inv_def d'
    by (auto simp: verification_ok_append message_ok_append)
qed

lemma Hash_parses:
  assumes "newPasswordHasher p = Inr h" "argon_law argon" "Hash argon h pw random = Inr (ph, rest)"
  shows "\<exists>q. parsePHC ph = Inr q"
proof (rule ccontr)
  assume "\<not> ?thesis"
  then obtain err where "parsePHC ph = Inl err" by (cases "parsePHC ph") auto
  then have "Verify argon h [] ph PasswordPolicyVersion = Inl err" by (simp add: Verify_def)
  with Verify_Hash [OF assms, of "[]"] show False by simp
qed

lemma Register_inv:
  assumes inv: "identity_inv x c d" and new: "newPasswordHasher p = Inr h"
    and argon: "argon_law argon" and aead: "aead_law c"
    and run: "Register x idna argon h (Some c) now random emailInput pw d = (res, d')"
  shows "identity_inv x c d'"
  using run aead
proof (cases rule: Register_cases)
  case same
  with inv show ?thesis by simp
next
  case (created e ph rest u raw nonce sealed)
  from Hash_parses [OF new argon created(2)] obtain q where "parsePHC ph = Inr q" by blast
  with registered_inv [OF inv created(3)] show ?thesis by blast
qed

section \<open>Verification\<close>

lemma VerifyEmail_cases:
  assumes "VerifyEmail x now token d = (res, d')"
  obtains (rejected) "d' = d" and "res = Inl ErrInvalidVerificationToken"
  | (verified) raw v r where "b64_decode token = Some raw" and "length raw = 32" and "length token = 43"
      and "v \<in> set (verifications d)" and "evr_hash v = hashVerificationToken x raw"
      and "user_at d (evr_user v) = Some r" and "usr_status r = PendingVerification"
      and "evr_issued v \<le> now" and "now < evr_expires v"
      and "d' = delete_verification (evr_user v) (activate_user (evr_user v) now d)" and "res = Inr ()"
proof (cases "b64_decode token")
  case None
  with assms show thesis by (simp add: VerifyEmail_def rejected)
next
  case raw: (Some raw)
  show thesis
  proof (cases "row_at evr_hash (verifications d) (hashVerificationToken x raw)")
    case None
    with assms raw show thesis by (auto simp: VerifyEmail_def rejected split: if_splits)
  next
    case v: (Some v)
    from row_at_SomeD [OF v] have "v \<in> set (verifications d)" "evr_hash v = hashVerificationToken x raw"
      by simp_all
    with assms raw v show thesis
      by (cases "user_at d (evr_user v)")
        (auto simp: VerifyEmail_def tokenBytes_def rejected split: if_splits intro: verified)
  qed
qed

lemma user_at_activate:
  "user_at (activate_user u now d) w =
     map_option (\<lambda>r. if usr_id r = u \<and> usr_status r = PendingVerification
       then r\<lparr>usr_status := UserActive, usr_verified := Some now\<rparr> else r) (user_at d w)"
  by (simp add: user_at_def activate_user_def row_at_update)

lemma user_at_SomeD: "user_at d u = Some r \<Longrightarrow> r \<in> set (users d) \<and> usr_id r = u"
  unfolding user_at_def by (rule row_at_SomeD)

lemma delete_verification_simps [simp]:
  "users (delete_verification u d) = users d" "user_at (delete_verification u d) = user_at d"
  "verifications (activate_user u now d) = verifications d" "outbox (activate_user u now d) = outbox d"
  by (simp_all add: delete_verification_def activate_user_def user_at_def fun_eq_iff)

lemma distinct_map_filter_rows: "distinct (map f xs) \<Longrightarrow> distinct (map f (filter P xs))"
  by (rule distinct_map_filter)

lemma message_ok_transfer:
  assumes "message_ok x c d m" and "user_at d' (eob_user m) = user_at d (eob_user m)"
    and "\<And>v. v \<in> set (verifications d) \<Longrightarrow> evr_user v = eob_user m \<Longrightarrow> v \<in> set (verifications d')"
  shows "message_ok x c d' m"
  using assms unfolding message_ok_def by metis

lemma verified_inv:
  assumes inv: "identity_inv x c d"
  shows "identity_inv x c (delete_verification u (activate_user u now d))" (is "identity_inv x c ?d")
proof -
  have other: "user_at ?d w = user_at d w" if "w \<noteq> u" for w
    using that by (cases "user_at d w") (auto simp: user_at_activate dest: user_at_SomeD)
  have keys: "map usr_id (users ?d) = map usr_id (users d)"
      "map usr_canonical (users ?d) = map usr_canonical (users d)"
    by (simp_all add: activate_user_def map_update_rows)
  have "user_ok r" if "r \<in> set (users ?d)" for r
    using that identity_invD(6) [OF inv]
    by (auto simp: activate_user_def set_update_rows user_ok_def split: if_splits)
  moreover have "verification_ok ?d v" if "v \<in> set (verifications ?d)" for v
    using that identity_invD(7) [OF inv] other [of "evr_user v"]
    by (auto simp: verification_ok_def delete_verification_def)
  moreover have "message_ok x c ?d m" if m: "m \<in> set (outbox ?d)" for m
  proof -
    from m have "m \<in> set (outbox d)" "eob_user m \<noteq> u" by (simp_all add: delete_verification_def)
    with other show ?thesis
      by (intro message_ok_transfer [OF identity_invD(8) [OF inv]]) (simp_all add: delete_verification_def)
  qed
  ultimately show ?thesis
    using identity_invD(1-5) [OF inv] unfolding identity_inv_def keys
    by (simp add: delete_verification_def distinct_map_filter_rows)
qed

lemma VerifyEmail_inv:
  assumes "identity_inv x c d" and "VerifyEmail x now token d = (res, d')"
  shows "identity_inv x c d'"
  using assms(2)
  by (cases rule: VerifyEmail_cases) (use assms(1) verified_inv in auto)

section \<open>Delivery\<close>

lemma purge_simps [simp]:
  "users (purge_users P d) = filter (\<lambda>r. \<not> P (usr_id r)) (users d)"
  "verifications (purge_users P d) = filter (\<lambda>r. \<not> P (evr_user r)) (verifications d)"
  "outbox (purge_users P d) = filter (\<lambda>r. \<not> P (eob_user r)) (outbox d)"
  by (simp_all add: purge_users_def)

lemma row_at_filter_key:
  "row_at key (filter (\<lambda>r. \<not> P (key r)) t) w = (if P w then None else row_at key t w)"
  by (induction t) auto

lemma user_at_purge: "user_at (purge_users P d) w = (if P w then None else user_at d w)"
  by (simp add: user_at_def row_at_filter_key)

lemma purge_inv:
  assumes inv: "identity_inv x c d"
  shows "identity_inv x c (purge_users P d)" (is "identity_inv x c ?d")
proof -
  have "verification_ok ?d v" if "v \<in> set (verifications ?d)" for v
    using that identity_invD(7) [OF inv, of v] by (auto simp: verification_ok_def user_at_purge)
  moreover have "message_ok x c ?d m" if m: "m \<in> set (outbox ?d)" for m
  proof -
    from m have "m \<in> set (outbox d)" "\<not> P (eob_user m)" by simp_all
    then show ?thesis
      by (intro message_ok_transfer [OF identity_invD(8) [OF inv]]) (simp_all add: user_at_purge)
  qed
  moreover have "user_ok r" if "r \<in> set (users ?d)" for r
    using that identity_invD(6) [OF inv] by simp
  ultimately show ?thesis
    using identity_invD(1-5) [OF inv] unfolding identity_inv_def
    by (simp add: distinct_map_filter_rows)
qed

lemma same_message_self [simp]: "same_message m m"
  by (simp add: same_message_def)

lemma reschedule_simps [simp]:
  "users (reschedule now m d) = users d" "verifications (reschedule now m d) = verifications d"
  "user_at (reschedule now m d) = user_at d"
  "users (complete_delivery m d) = users d" "verifications (complete_delivery m d) = verifications d"
  "user_at (complete_delivery m d) = user_at d"
  by (simp_all add: reschedule_def complete_delivery_def user_at_def fun_eq_iff)

lemma reschedule_inv:
  assumes inv: "identity_inv x c d"
  shows "identity_inv x c (reschedule now m d)" (is "identity_inv x c ?d")
proof -
  have "message_ok x c ?d r" if "r \<in> set (outbox ?d)" for r
  proof -
    from that obtain q where "q \<in> set (outbox d)" "eob_user r = eob_user q" "eob_nonce r = eob_nonce q"
        "eob_ciphertext r = eob_ciphertext q" "eob_recipient r = eob_recipient q"
      by (auto simp: reschedule_def set_update_rows split: if_splits)
    with identity_invD(8) [OF inv this(1)] show ?thesis by (simp add: message_ok_def)
  qed
  moreover have "verification_ok ?d = verification_ok d" by (simp add: verification_ok_def fun_eq_iff)
  moreover have "map eob_user (outbox ?d) = map eob_user (outbox d)"
    by (simp add: reschedule_def map_update_rows)
  ultimately show ?thesis using inv unfolding identity_inv_def by simp
qed

lemma complete_delivery_inv:
  assumes inv: "identity_inv x c d"
  shows "identity_inv x c (complete_delivery m d)" (is "identity_inv x c ?d")
proof -
  have "message_ok x c ?d r" if "r \<in> set (outbox ?d)" for r
    using that identity_invD(8) [OF inv, of r] by (simp add: message_ok_def complete_delivery_def user_at_def)
  moreover have "verification_ok ?d = verification_ok d" by (simp add: verification_ok_def fun_eq_iff)
  moreover have "distinct (map eob_user (outbox ?d))"
    using identity_invD(5) [OF inv] by (simp add: complete_delivery_def distinct_map_filter_rows)
  ultimately show ?thesis using inv unfolding identity_inv_def by simp
qed

lemma delete_users_InrD: "delete_users P d = Inr d' \<Longrightarrow> d' = purge_users P d"
  by (simp add: delete_users_def split: if_splits)

lemma due_SomeD:
  assumes "due now d = m # ms"
  shows "m \<in> set (outbox d) \<and> eob_next m \<le> now \<and>
    (\<exists>v\<in>set (verifications d). evr_user v = eob_user m \<and> now < evr_expires v)"
proof -
  have "m \<in> set (due now d)" by (simp add: assms)
  then show ?thesis by (auto simp: due_def list_ex_iff)
qed

lemma DispatchOne_inv:
  assumes inv: "identity_inv x c d" and run: "DispatchOne c send now d = (r, d')"
  shows "identity_inv x c d'"
proof (cases "delete_users (expired_pending now d) d")
  case (Inl e)
  with run inv show ?thesis by (simp add: DispatchOne_def)
next
  case (Inr d1)
  then have "identity_inv x c d1" using purge_inv [OF inv] delete_users_InrD by metis
  with run Inr reschedule_inv complete_delivery_inv show ?thesis
    by (auto simp: DispatchOne_def split: list.splits sum.splits if_splits)
qed

end
