(* ===== verification/Identity_Safety.thy ===== *)
theory Identity_Safety
  imports Identity_Invariant
begin

text \<open>
  What the account operations promise: an existing address is never modified, the token of a
  registration activates its account and lets it log in, a token is used once, the dispatcher sends a
  token that verifies to the address of its account, and its loop ends.
\<close>

section \<open>Registration and verification\<close>

lemma Register_existing:
  assumes law: "aead_law c" and e: "CanonicalizeEmail x idna emailInput = Inr e"
    and taken: "user_by_email d (em_canonical e) \<noteq> None"
  shows "snd (Register x idna argon h (Some c) now random emailInput pw d) = d \<and>
    (\<forall>r. fst (Register x idna argon h (Some c) now random emailInput pw d) = Inr r \<longrightarrow> r = no_registration)"
proof -
  obtain res d' where run: "Register x idna argon h (Some c) now random emailInput pw d = (res, d')"
    by (cases "Register x idna argon h (Some c) now random emailInput pw d")
  from run law show ?thesis
  proof (cases rule: Register_cases)
    case same
    with run show ?thesis by auto
  next
    case created
    with e taken show ?thesis by (simp add: registered_def)
  qed
qed

lemma b64_token_length: "length raw = 32 \<Longrightarrow> length (b64_encode raw) = 43"
  by (simp add: length_b64_encode)

text \<open>A token verifies exactly when the row of its hash is in force and its account is pending.\<close>

lemma VerifyEmail_token:
  assumes inv: "identity_inv x c d" and raw: "length raw = 32"
    and v: "v \<in> set (verifications d)" "evr_hash v = hashVerificationToken x raw"
    and time: "evr_issued v \<le> t" "t < evr_expires v"
  shows "VerifyEmail x t (b64_encode raw) d =
    (Inr (), delete_verification (evr_user v) (activate_user (evr_user v) t d))"
proof -
  from v identity_invD(4) [OF inv]
  have row: "row_at evr_hash (verifications d) (hashVerificationToken x raw) = Some v"
    by (metis row_at_unique)
  from identity_invD(7) [OF inv v(1)] obtain r where r: "user_at d (evr_user v) = Some r"
      "usr_status r = PendingVerification"
    by (auto simp: verification_ok_def)
  then have "r \<in> set (users d)" "usr_id r = evr_user v" by (auto dest: user_at_SomeD)
  with r(2) have "rows_affected (\<lambda>r. usr_id r = evr_user v \<and> usr_status r = PendingVerification) (users d) = 1"
    by (intro rows_affected_unique [OF identity_invD(1) [OF inv]]) auto
  with row r time show ?thesis
    by (simp add: VerifyEmail_def b64_decode_encode raw tokenBytes_def b64_token_length)
qed

lemma VerifyEmail_once:
  assumes inv: "identity_inv x c d" and run: "VerifyEmail x now token d = (Inr (), d')"
  shows "VerifyEmail x t token d' = (Inl ErrInvalidVerificationToken, d')"
  using run
proof (cases rule: VerifyEmail_cases)
  case (verified raw v r)
  have "w \<notin> set (verifications d')" if "evr_hash w = hashVerificationToken x raw" for w
  proof
    assume "w \<in> set (verifications d')"
    then have w: "w \<in> set (verifications d)" "evr_user w \<noteq> evr_user v"
      using verified by (simp_all add: delete_verification_def)
    with that verified(4,5) identity_invD(4) [OF inv] show False
      by (metis inj_onD distinct_map)
  qed
  then have "row_at evr_hash (verifications d') (hashVerificationToken x raw) = None"
    by (auto simp: row_at_None_iff)
  with verified(1-3) show ?thesis by (simp add: VerifyEmail_def tokenBytes_def)
qed simp

lemma VerifyEmail_activates:
  assumes run: "VerifyEmail x now token d = (Inr (), d')"
  obtains v r where "v \<in> set (verifications d)" and "user_at d (evr_user v) = Some r"
    and "usr_status r = PendingVerification" and "evr_issued v \<le> now" and "now < evr_expires v"
    and "user_at d' (evr_user v) = Some (r\<lparr>usr_status := UserActive, usr_verified := Some now\<rparr>)"
    and "\<And>w. w \<noteq> evr_user v \<Longrightarrow> user_at d' w = user_at d w"
  using run
proof (cases rule: VerifyEmail_cases)
  case (verified raw v r)
  have "usr_id r = evr_user v" using verified(6) by (auto dest: user_at_SomeD)
  then have "user_at d' (evr_user v) = Some (r\<lparr>usr_status := UserActive, usr_verified := Some now\<rparr>)"
    using verified by (simp add: user_at_activate)
  moreover have "user_at d' w = user_at d w" if "w \<noteq> evr_user v" for w
    using that verified(10) by (cases "user_at d w") (auto simp: user_at_activate dest: user_at_SomeD)
  ultimately show ?thesis using that verified by blast
qed simp

text \<open>The account a registration leaves: pending, with its token in force for a day.\<close>

lemma Register_verifies:
  assumes inv: "identity_inv x c d" and new: "newPasswordHasher p = Inr h"
    and laws: "argon_law argon" "aead_law c"
    and run: "Register x idna argon h (Some c) now random emailInput pw d = (Inr reg, d')"
    and reg: "reg_created reg" and time: "now \<le> t" "t < now + VerificationTTL"
  shows "\<exists>d'' e r rest. VerifyEmail x t (reg_token reg) d' = (Inr (), d'') \<and>
    CanonicalizeEmail x idna emailInput = Inr e \<and> user_by_email d'' (em_canonical e) = Some r \<and>
    usr_id r = reg_user reg \<and> usr_status r = UserActive \<and> usr_policy r = PasswordPolicyVersion \<and>
    Hash argon h pw random = Inr (usr_password r, rest)"
  using run laws(2)
proof (cases rule: Register_cases)
  case same
  with reg show ?thesis by (auto simp: no_registration_def)
next
  case (created e ph rest u raw nonce sealed)
  have inv': "identity_inv x c d'" by (rule Register_inv [OF inv new laws run])
  obtain user v m where rows: "registration_rows x now u e ph raw nonce sealed = (user, v, m)"
    by (cases "registration_rows x now u e ph raw nonce sealed") auto
  then have row: "usr_id user = u" "usr_canonical user = em_canonical e" "usr_status user = PendingVerification"
      "usr_password user = ph" "usr_policy user = PasswordPolicyVersion" "evr_user v = u"
      "evr_hash v = hashVerificationToken x raw" "evr_issued v = now" "evr_expires v = now + VerificationTTL"
    by (auto simp: registration_rows_def)
  from created(3) rows have d': "users d' = users d @ [user]" "verifications d' = verifications d @ [v]"
      and raw: "length raw = 32" and free: "user_by_email d (em_canonical e) = None"
    by (auto simp: registered_def)
  let ?d = "delete_verification u (activate_user u t d')"
  have verify: "VerifyEmail x t (b64_encode raw) d' = (Inr (), ?d)"
    using VerifyEmail_token [OF inv' raw, of v t] d' row time by simp
  have "user_by_email d' (em_canonical e) = Some user"
    using free d' row by (simp add: user_by_email_def row_at_append)
  then have "user_by_email ?d (em_canonical e) = Some (user\<lparr>usr_status := UserActive, usr_verified := Some t\<rparr>)"
    using row by (simp add: user_by_email_def delete_verification_def activate_user_def row_at_update)
  with verify created(1,2,4) row show ?thesis by auto
qed

section \<open>Credentials\<close>

lemma candidate_ok: "valid_utf8 (candidate_password pw)" "length (candidate_password pw) \<le> 1024"
proof -
  have "is_ascii ''remember invalid credential''" by (simp add: is_ascii_def code_def)
  then have "valid_utf8 ''remember invalid credential''" by (rule valid_utf8_ascii)
  then show "valid_utf8 (candidate_password pw)" "length (candidate_password pw) \<le> 1024"
    by (auto simp: candidate_password_def)
qed

lemma Verify_parses: "parsePHC s = Inr p \<Longrightarrow> \<exists>b. Verify argon h (candidate_password pw) s policy = Inr b"
  using candidate_ok [of pw] by (cases p) (simp add: Verify_def Let_def)

lemma credential_record_SomeD:
  "credential_record x idna emailInput d = Some r \<Longrightarrow> r \<in> set (users d)"
  by (auto simp: credential_record_def user_by_email_def dest!: row_at_SomeD split: sum.splits)

text \<open>Every refusal is the same error, and every attempt pays one verification.\<close>

lemma AuthenticateCredential_uniform:
  assumes inv: "identity_inv x c d" and new: "newPasswordHasher p = Inr h"
  shows "(\<forall>err. fst (AuthenticateCredential x idna argon h emailInput pw d) = Inl err \<longrightarrow> err = ErrInvalidCredentials) \<and>
    (\<exists>b. snd (AuthenticateCredential x idna argon h emailInput pw d) = Inr b)"
proof (cases "credential_record x idna emailInput d")
  case None
  from Verify_dummy [OF new candidate_ok] obtain b where
    "Verify argon h (candidate_password pw) (dummyEncoded h) PasswordPolicyVersion = Inr (b, False)" by blast
  with None show ?thesis by (auto simp: AuthenticateCredential_def Let_def)
next
  case (Some r)
  then have "user_ok r" using credential_record_SomeD identity_invD(6) [OF inv] by metis
  then obtain q where "parsePHC (usr_password r) = Inr q" unfolding user_ok_def by blast
  from Verify_parses [OF this] obtain b where
    "Verify argon h (candidate_password pw) (usr_password r) (usr_policy r) = Inr b" by blast
  with Some show ?thesis by (cases b) (simp add: AuthenticateCredential_def Let_def)
qed

lemma AuthenticateCredential_InrD:
  assumes "fst (AuthenticateCredential x idna argon h emailInput pw d) = Inr u"
  obtains r b where "credential_record x idna emailInput d = Some r" and "usr_id r = u"
    and "usr_status r = UserActive"
    and "Verify argon h (candidate_password pw) (usr_password r) (usr_policy r) = Inr (True, b)"
proof (cases "credential_record x idna emailInput d")
  case None
  with assms show thesis by (simp add: AuthenticateCredential_def Let_def)
next
  case (Some r)
  with assms that show thesis
    by (auto simp: AuthenticateCredential_def Let_def split: sum.splits identity_error.splits prod.splits if_splits)
qed

lemma AuthenticateCredential_active:
  assumes "fst (AuthenticateCredential x idna argon h emailInput pw d) = Inr u"
  shows "user_active d u"
  using assms
proof (rule AuthenticateCredential_InrD)
  fix r
  assume "credential_record x idna emailInput d = Some r" "usr_id r = u" "usr_status r = UserActive"
  then show ?thesis using credential_record_SomeD by (auto simp: user_active_def list_ex_iff)
qed

text \<open>Registration, verification, log in.\<close>

lemma AuthenticateCredential_verified:
  assumes new: "newPasswordHasher p = Inr h" and law: "argon_law argon"
    and e: "CanonicalizeEmail x idna emailInput = Inr e" and r: "user_by_email d (em_canonical e) = Some r"
    and row: "usr_status r = UserActive" "usr_policy r = PasswordPolicyVersion"
    and hash: "Hash argon h pw random = Inr (usr_password r, rest)"
  shows "fst (AuthenticateCredential x idna argon h emailInput pw d) = Inr (usr_id r)"
proof -
  from Hash_ok [OF hash] have "candidate_password pw = pw" "valid_utf8 pw" "length pw \<le> 1024"
    by (simp_all add: candidate_password_def)
  with Verify_Hash [OF new law hash, of pw] e r row show ?thesis
    by (simp add: AuthenticateCredential_def credential_record_def Let_def)
qed

section \<open>Delivery\<close>

lemma retryDelay_bounds: "15000 \<le> retryDelay n \<and> retryDelay n \<le> 1920000"
proof -
  have "nat (k - 1) \<le> 7" if "k \<le> 8" for k :: int using that by simp
  then have "(2::int) ^ nat (k - 1) \<le> 2 ^ 7" if "k \<le> 8" for k :: int
    using that power_increasing [of "nat (k - 1)" 7 "2::int"] by simp
  from this [of "if n < 1 then 1 else n"] show ?thesis by (simp add: retryDelay_def Let_def)
qed

lemma DispatchOne_sent:
  assumes inv: "identity_inv x c d" and run: "DispatchOne c send now d = (r, d')"
    and sent: "dp_sent r = Some (recipient, token)"
  shows "\<exists>v u. v \<in> set (verifications d') \<and> user_at d' (evr_user v) = Some u \<and> usr_delivery u = recipient \<and>
    now < evr_expires v \<and> dp_error r = None \<and>
    (\<forall>t. evr_issued v \<le> t \<longrightarrow> t < evr_expires v \<longrightarrow> fst (VerifyEmail x t token d') = Inr ())"
proof -
  obtain d1 where d1: "delete_users (expired_pending now d) d = Inr d1"
    using run sent by (cases "delete_users (expired_pending now d) d") (auto simp: DispatchOne_def)
  then have inv1: "identity_inv x c d1" using purge_inv [OF inv] delete_users_InrD by metis
  obtain m ms where due: "due now d1 = m # ms"
    using run sent d1 by (cases "due now d1") (auto simp: DispatchOne_def)
  obtain raw where raw: "Open c (eob_user m) (eob_nonce m) (eob_ciphertext m) = Inr raw" "length raw = 32"
      "recipient = eob_recipient m" "token = b64_encode raw" "d' = complete_delivery m d1"
      "dp_error r = (if rows_affected (same_message m) (outbox d1) \<noteq> 1 then Some CompletionMismatch else None)"
    using run sent d1 due by (auto simp: DispatchOne_def split: sum.splits if_splits)
  have m: "m \<in> set (outbox d1)" using due_SomeD [OF due] by simp
  from identity_invD(8) [OF inv1 m] obtain v u where v: "v \<in> set (verifications d1)" "evr_user v = eob_user m"
      "evr_hash v = hashVerificationToken x raw" "user_at d1 (eob_user m) = Some u" "usr_delivery u = eob_recipient m"
    using raw(1) by (auto simp: message_ok_def)
  have live: "now < evr_expires v"
    using due_SomeD [OF due] v(1,2) identity_invD(3) [OF inv1] by (metis distinct_map inj_onD)
  have "identity_inv x c d'" using complete_delivery_inv [OF inv1] raw(5) by simp
  from VerifyEmail_token [OF this raw(2), of v] v(1,3) raw(4,5)
  have "\<forall>t. evr_issued v \<le> t \<longrightarrow> t < evr_expires v \<longrightarrow> fst (VerifyEmail x t token d') = Inr ()" by simp
  moreover have "rows_affected (same_message m) (outbox d1) = 1"
    using m by (intro rows_affected_unique [OF identity_invD(5) [OF inv1]]) (auto simp: same_message_def)
  ultimately show ?thesis using v raw live by auto
qed

text \<open>A round that goes on takes a message out of the outbox.\<close>

lemma DispatchOne_shrinks:
  assumes run: "DispatchOne c send now d = (r, d')" and on: "dp_attempted r" "dp_error r = None"
  shows "length (outbox d') < length (outbox d)"
proof -
  obtain d1 where d1: "delete_users (expired_pending now d) d = Inr d1"
    using run on by (cases "delete_users (expired_pending now d) d") (auto simp: DispatchOne_def)
  then have le: "length (outbox d1) \<le> length (outbox d)"
    using delete_users_InrD [OF d1] by simp
  obtain m ms where due: "due now d1 = m # ms"
    using run on d1 by (cases "due now d1") (auto simp: DispatchOne_def)
  then have "m \<in> set (outbox d1)" using due_SomeD by blast
  then have "length (outbox (complete_delivery m d1)) < length (outbox d1)"
    by (auto simp: complete_delivery_def intro!: length_filter_less)
  moreover have "d' = complete_delivery m d1"
    using run on d1 due by (auto simp: DispatchOne_def split: sum.splits if_splits)
  ultimately show ?thesis using le by simp
qed

lemma drain_ends: "length (outbox d) < n \<Longrightarrow> \<exists>d'. drain n c send now d = Some d'"
proof (induction n arbitrary: d)
  case (Suc n)
  obtain r d1 where run: "DispatchOne c send now d = (r, d1)" by (cases "DispatchOne c send now d")
  show ?case
  proof (cases "dp_attempted r \<and> dp_error r = None")
    case True
    with DispatchOne_shrinks [OF run] Suc.prems have "length (outbox d1) < n" by auto
    from Suc.IH [OF this] True run show ?thesis by auto
  qed (use run in auto)
qed simp

lemma drain_inv:
  "identity_inv x c d \<Longrightarrow> drain n c send now d = Some d' \<Longrightarrow> identity_inv x c d'"
proof (induction n arbitrary: d)
  case (Suc n)
  obtain r d1 where run: "DispatchOne c send now d = (r, d1)" by (cases "DispatchOne c send now d")
  have "identity_inv x c d1" by (rule DispatchOne_inv [OF Suc.prems(1) run])
  with Suc run show ?case by (auto split: if_splits)
qed simp

end
