(* ===== verification/System_Frame.thy ===== *)
theory System_Frame
  imports Sync_Preserve_Outcome Session_Safety Identity_Safety
begin

text \<open>
  Which tables an operation of one component leaves alone, and what this means for the invariants of
  the others: synchronization does not touch accounts or sessions, sessions do not touch accounts or
  synchronized objects, and deleting an account takes all of its rows and nothing else.
\<close>

section \<open>Frames\<close>

definition only_sessions :: "db \<Rightarrow> db \<Rightarrow> bool" where
  "only_sessions d d' \<longleftrightarrow>
     d' = d\<lparr>devices := devices d', sessions := sessions d', access_tokens := access_tokens d',
            refresh_tokens := refresh_tokens d'\<rparr>"

definition only_accounts :: "db \<Rightarrow> db \<Rightarrow> bool" where
  "only_accounts d d' \<longleftrightarrow>
     d' = d\<lparr>users := users d', verifications := verifications d', outbox := outbox d'\<rparr>"

definition same_registry :: "db \<Rightarrow> db \<Rightarrow> bool" where
  "same_registry d d' \<longleftrightarrow>
     users d' = users d \<and> verifications d' = verifications d \<and> outbox d' = outbox d"

definition same_sessions :: "db \<Rightarrow> db \<Rightarrow> bool" where
  "same_sessions d d' \<longleftrightarrow>
     devices d' = devices d \<and> sessions d' = sessions d \<and> access_tokens d' = access_tokens d \<and>
     refresh_tokens d' = refresh_tokens d"

definition same_history :: "db \<Rightarrow> db \<Rightarrow> bool" where
  "same_history d d' \<longleftrightarrow>
     counters d' = counters d \<and> objects d' = objects d \<and> operations d' = operations d \<and>
     versions d' = versions d \<and> changes d' = changes d"

lemmas frame_defs = same_registry_def same_sessions_def same_history_def

lemma only_sessions_refl [simp]: "only_sessions d d"
  by (simp add: only_sessions_def)

lemma only_accounts_refl [simp]: "only_accounts d d"
  by (simp add: only_accounts_def)

lemma only_sessions_trans: "only_sessions d d' \<Longrightarrow> only_sessions d' d'' \<Longrightarrow> only_sessions d d''"
  by (cases d, cases d', cases d'') (simp add: only_sessions_def)

lemma only_sessions_same: "only_sessions d d' \<Longrightarrow> same_registry d d' \<and> same_history d d' \<and>
    entitlements d' = entitlements d"
  unfolding only_sessions_def frame_defs by (cases d, cases d') simp

lemma only_accounts_same: "only_accounts d d' \<Longrightarrow> same_sessions d d' \<and> same_history d d' \<and>
    entitlements d' = entitlements d"
  unfolding only_accounts_def frame_defs by (cases d, cases d') simp

lemma same_accounts_same: "same_accounts d d' \<Longrightarrow> same_registry d d' \<and> same_sessions d d' \<and>
    entitlements d' = entitlements d"
  unfolding same_accounts_def frame_defs by (cases d, cases d') simp

lemma same_sync_same: "same_sync d d' \<Longrightarrow> same_registry d d' \<and> same_sessions d d' \<and> same_history d d' \<and>
    entitlements d' = entitlements d"
  unfolding same_sync_def frame_defs by (cases d, cases d') simp

section \<open>The invariants read their own tables\<close>

lemma session_inv_cong: "same_sessions d d' \<Longrightarrow> session_inv d' = session_inv d"
  by (simp add: same_sessions_def session_inv_def session_ok_def access_ok_def refresh_ok_def session_of_def
      session_at_def device_at_def cong: option.case_cong)

lemma identity_inv_cong: "same_registry d d' \<Longrightarrow> identity_inv x c d' = identity_inv x c d"
  by (simp add: same_registry_def identity_inv_def verification_ok_def message_ok_def user_at_def)

lemma sync_inv_cong:
  assumes same: "same_history d d'" and ent: "set (entitlements d) \<subseteq> set (entitlements d')"
    and users: "\<And>u. user_exists d u \<Longrightarrow> user_exists d' u" and inv: "sync_inv d"
  shows "sync_inv d'"
proof -
  have [simp]: "counters d' = counters d" "objects d' = objects d" "operations d' = operations d"
      "versions d' = versions d" "changes d' = changes d"
    using same by (simp_all add: same_history_def)
  have load: "loadObject d' = loadObject d" by (simp add: loadObject_def fun_eq_iff)
  have "object_row_ok d' r" if "object_row_ok d r" for r
    using that users ent by (auto simp: object_row_ok_def load blob_entitled_def entitled_def split: option.splits)
  then have "list_all (object_row_ok d') (objects d)"
    using inv by (auto simp: sync_inv_def objects_ok_def list_all_iff)
  then show ?thesis
    using inv by (simp add: sync_inv_def objects_ok_def tree_ok_def parent_rel_def load history_ok_def
        object_recorded_def changes_of_object_def version_owned_def change_recorded_def changes_of_user_def
        last_cursor_def)
qed

section \<open>The operations\<close>

lemma Login_only: "only_sessions d (snd (Login x auth now random email pw name d))"
  by (auto simp: Login_def login_tx_def insertAccess_def insert_device_def insert_session_def insert_access_def
      insert_refresh_def rbind_Inr_iff only_sessions_def split: sum.splits prod.splits if_splits)

lemma revoke_only [simp]:
  "only_sessions d (revoke_access P now d)" "only_sessions d (revoke_sessions Q now d)"
  "only_sessions d (d\<lparr>devices := vs\<rparr>)"
  by (simp_all add: revoke_access_def revoke_sessions_def only_sessions_def)

lemma revokeSessionTx_only: "only_sessions d (revokeSessionTx u s now d)"
  unfolding revokeSessionTx_def by (rule only_sessions_trans [OF revoke_only(2) revoke_only(1)])

lemma Refresh_only: "only_sessions d (snd (Refresh x now random token d))"
proof -
  have "only_sessions d d'" if "rotate now issued hash r s d = Inr (t, d')" for issued hash r s t d'
    using that
    by (auto simp: rotate_def Let_def insertAccess_def insert_access_def insert_refresh_def rbind_Inr_iff
        only_sessions_def split: if_splits)
  then show ?thesis
    using revokeSessionTx_only
    by (auto simp: Refresh_def split: sum.splits option.splits prod.splits)
qed

lemma RenameDevice_only: "only_sessions d (snd (RenameDevice x now token i name d))"
  by (auto simp: RenameDevice_def Let_def split: sum.splits)

lemma RevokeSession_only: "only_sessions d (snd (RevokeSession x now token s d))"
  using revokeSessionTx_only by (auto simp: RevokeSession_def split: sum.splits)

lemma RevokeDevice_only: "only_sessions d (snd (RevokeDevice x now token i d))"
  by (auto simp: RevokeDevice_def Let_def split: sum.splits
      intro: only_sessions_trans [OF only_sessions_trans [OF revoke_only(3) revoke_only(2)] revoke_only(1)])

lemma Register_only:
  "aead_law c \<Longrightarrow> only_accounts d (snd (Register x idna argon h (Some c) now random emailInput pw d))"
proof -
  assume law: "aead_law c"
  obtain res d' where run: "Register x idna argon h (Some c) now random emailInput pw d = (res, d')"
    by (cases "Register x idna argon h (Some c) now random emailInput pw d")
  from run law show ?thesis
    by (cases rule: Register_cases) (auto simp: run registered_def registration_rows_def only_accounts_def)
qed

lemma VerifyEmail_only: "only_accounts d (snd (VerifyEmail x now token d))"
proof -
  obtain res d' where run: "VerifyEmail x now token d = (res, d')" by (cases "VerifyEmail x now token d")
  then show ?thesis
    by (cases rule: VerifyEmail_cases)
      (auto simp: run only_accounts_def delete_verification_def activate_user_def)
qed

lemma run_tx_cases: "snd (run_tx m d) = d \<or> (\<exists>r. m = Inr (r, snd (run_tx m d)))"
  by (auto simp: run_tx_def split: sum.splits prod.splits)

lemma Submit_acts: "acts_for (a_user a) d (snd (Submit x a now fresh q d))"
  using run_tx_cases [of "submit_tx x a now fresh q d" d] submit_tx_acts
  unfolding Submit_def by (metis acts_for_refl)

text \<open>Preserve-and-delete: the synchronization tables for the actor, then the resolution tables.\<close>

lemma preserve_acts:
  assumes inv: "sync_inv d"
  shows "\<exists>d1. acts_for (a_user a) d d1 \<and> same_sync d1 (snd (PreserveAndDeleteEmptyFolder x a now fresh r d))"
proof -
  let ?m = "preserve_tx x a now fresh r d"
  have "snd (run_tx ?m d) = d \<or> (\<exists>s. ?m = Inr (s, snd (run_tx ?m d)))" by (rule run_tx_cases)
  then consider "snd (run_tx ?m d) = d" | s where "plan_done (a_user a) r d s (snd (run_tx ?m d))"
    using preserve_tx_cases [OF inv] by metis
  then show ?thesis
  proof cases
    case 1
    then have "acts_for (a_user a) d d \<and> same_sync d (snd (run_tx ?m d))" by simp
    then show ?thesis unfolding PreserveAndDeleteEmptyFolder_def by blast
  next
    case 2
    then show ?thesis by (auto simp: plan_done_def plan_step_def PreserveAndDeleteEmptyFolder_def)
  qed
qed

end
