(* ===== verification/System_Purge.thy ===== *)
theory System_Purge
  imports System_Frame
begin

text \<open>
  Deleting accounts keeps every invariant: the tables are filtered by account, and no row of one
  account refers to a row of another.
\<close>

section \<open>Lookups after the deletion\<close>

lemma row_at_filter_user:
  assumes "\<And>r. f r = fst (key r)"
  shows "row_at key (filter (\<lambda>r. \<not> P (f r)) t) k = (if P (fst k) then None else row_at key t k)"
  using row_at_filter_key [of key "\<lambda>k. P (fst k)" t k] by (simp add: assms)

lemma purge_device_at: "device_at (purge_users P d) u i = (if P u then None else device_at d u i)"
  by (simp add: device_at_def purge_users_def row_at_filter_user [of dev_user devkey] devkey_def)

lemma purge_session_at: "session_at (purge_users P d) u i = (if P u then None else session_at d u i)"
  by (simp add: session_at_def purge_users_def row_at_filter_user [of ses_user seskey] seskey_def)

lemma purge_session_of: "session_of (purge_users P d) u s i = (if P u then None else session_of d u s i)"
  by (simp add: session_of_def purge_session_at)

lemma purge_loadObject: "loadObject (purge_users P d) u i = (if P u then None else loadObject d u i)"
  by (simp add: loadObject_def purge_users_def row_at_filter_user [of o_user okey] okey_def)

lemma purge_operation_at: "operation_at (purge_users P d) u i = (if P u then None else operation_at d u i)"
  by (simp add: operation_at_def purge_users_def row_at_filter_user [of op_user opkey] opkey_def)

lemma purge_last_cursor: "last_cursor (purge_users P d) u = (if P u then 0 else last_cursor d u)"
proof -
  have "map_of (filter (\<lambda>r. \<not> P (fst r)) t) u = (if P u then None else map_of t u)" for t :: "(uuid \<times> nat) list"
    by (induction t) auto
  then show ?thesis by (simp add: last_cursor_def purge_users_def)
qed

lemma purge_user_exists: "user_exists (purge_users P d) u \<longleftrightarrow> \<not> P u \<and> user_exists d u"
  by (auto simp: user_exists_def purge_users_def list_ex_iff)

lemma purge_entitled: "entitled (purge_users P d) u h \<longleftrightarrow> \<not> P u \<and> entitled d u h"
  by (auto simp: entitled_def purge_users_def)

lemma purge_device_active: "device_active (purge_users P d) u i \<longleftrightarrow> \<not> P u \<and> device_active d u i"
  by (auto simp: device_active_def purge_users_def list_ex_iff)

section \<open>Sessions\<close>

lemma purge_session_inv:
  assumes inv: "session_inv d"
  shows "session_inv (purge_users P d)" (is "session_inv ?d")
proof -
  have "session_ok ?d s" if "s \<in> set (sessions ?d)" for s
  proof -
    from that have "s \<in> set (sessions d)" "\<not> P (ses_user s)" by (simp_all add: purge_users_def)
    with inv show ?thesis by (simp add: session_inv_def session_ok_def purge_device_at)
  qed
  moreover have "access_ok ?d a" if "a \<in> set (access_tokens ?d)" for a
  proof -
    from that have "a \<in> set (access_tokens d)" "\<not> P (acc_user a)" by (simp_all add: purge_users_def)
    with inv show ?thesis by (simp add: session_inv_def access_ok_def purge_session_of)
  qed
  moreover have "refresh_ok ?d r" if "r \<in> set (refresh_tokens ?d)" for r
  proof -
    from that have "r \<in> set (refresh_tokens d)" "\<not> P (ref_user r)" by (simp_all add: purge_users_def)
    with inv show ?thesis by (simp add: session_inv_def refresh_ok_def purge_session_of)
  qed
  moreover have "one_live (filter (\<lambda>r. \<not> P (ref_user r)) t)" if "one_live t" for t
  proof -
    have "filter (\<lambda>r. ref_consumed r = None) (filter (\<lambda>r. \<not> P (ref_user r)) t) =
        filter (\<lambda>r. \<not> P (ref_user r)) (filter (\<lambda>r. ref_consumed r = None) t)"
      by (simp add: conj_commute)
    with that show ?thesis unfolding one_live_def by (simp only: distinct_map_filter_rows)
  qed
  ultimately show ?thesis
    using inv unfolding session_inv_def by (simp add: purge_users_def distinct_map_filter_rows)
qed

section \<open>Synchronization\<close>

lemma purge_objects_ok:
  assumes "objects_ok d"
  shows "objects_ok (purge_users P d)"
proof -
  have "object_row_ok (purge_users P d) r" if "r \<in> set (objects d)" "\<not> P (o_user r)" for r
  proof -
    from assms that(1) have "object_row_ok d r" by (simp add: objects_ok_def list_all_iff)
    with that(2) show ?thesis
      by (auto simp: object_row_ok_def purge_user_exists purge_loadObject blob_entitled_def
          purge_entitled split: option.splits)
  qed
  moreover have objs: "objects (purge_users P d) = filter (\<lambda>r. \<not> P (o_user r)) (objects d)"
    by (simp add: purge_users_def)
  moreover have "distinct (map pathkey (filter (\<lambda>r. \<not> o_deleted r) (objects (purge_users P d))))"
  proof -
    have "filter (\<lambda>r. \<not> o_deleted r) (objects (purge_users P d)) =
        filter (\<lambda>r. \<not> P (o_user r)) (filter (\<lambda>r. \<not> o_deleted r) (objects d))"
      by (simp add: objs conj_commute)
    with assms show ?thesis unfolding objects_ok_def by (simp only: distinct_map_filter_rows)
  qed
  moreover have "distinct (map okey (objects (purge_users P d)))"
    using assms by (simp add: objs objects_ok_def distinct_map_filter_rows)
  ultimately show ?thesis by (simp add: objects_ok_def list_all_iff)
qed

lemma purge_tree_ok: "tree_ok d u \<Longrightarrow> tree_ok (purge_users P d) u"
proof (cases "P u")
  case True
  then show ?thesis by (simp add: tree_ok_def parent_rel_def purge_loadObject acyclic_def)
next
  case False
  then have "loadObject (purge_users P d) u = loadObject d u" by (simp add: purge_loadObject fun_eq_iff)
  then show "tree_ok d u \<Longrightarrow> ?thesis" by (simp add: tree_ok_def parent_rel_def)
qed

lemma purge_changes:
  "changes_of_user (purge_users P d) u = (if P u then [] else changes_of_user d u)"
  "changes_of_object (purge_users P d) u i = (if P u then [] else changes_of_object d u i)"
proof -
  have "filter (\<lambda>c. chg_user c = u \<and> Q c) (filter (\<lambda>r. \<not> P (chg_user r)) t) =
      (if P u then [] else filter (\<lambda>c. chg_user c = u \<and> Q c) t)" for Q and t :: "chg_row list"
    by (induction t) auto
  from this [of "\<lambda>_. True"] this [of "\<lambda>c. chg_object c = i"]
  show "changes_of_user (purge_users P d) u = (if P u then [] else changes_of_user d u)"
    "changes_of_object (purge_users P d) u i = (if P u then [] else changes_of_object d u i)"
    by (simp_all add: changes_of_user_def changes_of_object_def purge_users_def del: filter_filter)
qed

lemma purge_tables:
  "set (operations (purge_users P d)) = {p \<in> set (operations d). \<not> P (op_user p)}"
  "set (versions (purge_users P d)) = {v \<in> set (versions d). \<not> P (ver_user v)}"
  "set (changes (purge_users P d)) = {c \<in> set (changes d). \<not> P (chg_user c)}"
  "set (objects (purge_users P d)) = {r \<in> set (objects d). \<not> P (o_user r)}"
  by (auto simp: purge_users_def)

lemma purge_history_ok:
  assumes inv: "history_ok d"
  shows "history_ok (purge_users P d)" (is "history_ok ?d")
proof -
  have "object_recorded ?d r" if "r \<in> set (objects ?d)" for r
  proof -
    from that inv have r: "\<not> P (o_user r)" "object_recorded d r" by (auto simp: history_ok_def purge_tables)
    then obtain v where v: "v \<in> set (versions d)" "version_matches v r" by (auto simp: object_recorded_def)
    then have "ver_user v = o_user r" by (simp add: version_matches_def verkey_def)
    with v r have "v \<in> set (versions ?d)" by (simp add: purge_tables)
    with v r show ?thesis by (auto simp: object_recorded_def purge_changes)
  qed
  moreover have "version_owned ?d v" if "v \<in> set (versions ?d)" for v
  proof -
    from that inv have v: "\<not> P (ver_user v)" "version_owned d v" by (auto simp: history_ok_def purge_tables)
    then obtain r where "r \<in> set (objects d)" "okey r = (ver_user v, ver_object v)" "ver_rev v \<le> o_rev r"
      by (auto simp: version_owned_def)
    with v(1) show ?thesis unfolding version_owned_def by (intro bexI [of _ r]) (auto simp: purge_tables okey_def)
  qed
  moreover have "change_recorded ?d c" if "c \<in> set (changes ?d)" for c
  proof -
    from that inv have c: "\<not> P (chg_user c)" "change_recorded d c" by (auto simp: history_ok_def purge_tables)
    then obtain p v where "p \<in> set (operations d)" "opkey p = (chg_user c, chg_op c)"
        "v \<in> set (versions d)" "verkey v = (chg_user c, chg_object c, chg_rev c)" "ver_op v = chg_op c"
      by (auto simp: change_recorded_def)
    with c(1) have "p \<in> set (operations ?d)" "v \<in> set (versions ?d)"
      by (auto simp: purge_tables opkey_def verkey_def)
    with \<open>opkey p = _\<close> \<open>verkey v = _\<close> \<open>ver_op v = _\<close> show ?thesis by (auto simp: change_recorded_def)
  qed
  moreover have "map chg_cursor (changes_of_user ?d u) = [1..<Suc (last_cursor ?d u)]" for u
    using inv by (simp add: history_ok_def purge_changes purge_last_cursor del: upt_Suc)
  moreover have "distinct (map opkey (operations ?d))" "distinct (map verkey (versions ?d))"
    using inv by (simp_all add: history_ok_def purge_users_def distinct_map_filter_rows)
  ultimately show ?thesis unfolding history_ok_def by blast
qed

lemma purge_sync_inv: "sync_inv d \<Longrightarrow> sync_inv (purge_users P d)"
  using purge_objects_ok purge_tree_ok purge_history_ok
  by (simp add: sync_inv_def notes_have_blobs_def purge_tables)

end
