(* ===== verification/Sync_Feed.thy ===== *)
theory Sync_Feed
  imports Sync_Submit
begin

text \<open>
  The change feed that \<open>Pull\<close> serves. Under the invariant the feed of an account has exactly the
  cursors 1 up to the account's counter, a page is a slice of it, pulling page after page yields the
  whole feed, and whoever replays the feed holds the current state of every object. The contract of
  a paged feed is a locale that \<open>Pull\<close> implements.
\<close>

section \<open>The contract of a paged feed\<close>

text \<open>A reader that asks for page after page until the server says there is no more.\<close>

fun collect_pages :: "nat \<Rightarrow> (nat \<Rightarrow> 'v list \<times> bool \<times> nat) \<Rightarrow> nat \<Rightarrow> 'v list option" where
  "collect_pages 0 page n = None"
| "collect_pages (Suc k) page n =
     (case page n of (vs, again, n) \<Rightarrow>
        if again then map_option ((@) vs) (collect_pages k page n) else Some vs)"

locale paged_feed =
  fixes ok :: "'d \<Rightarrow> bool" and feed :: "'d \<Rightarrow> 'v list"
    and page :: "'d \<Rightarrow> nat \<Rightarrow> nat \<Rightarrow> 'v list \<times> bool \<times> nat"
  assumes page_eq: "ok d \<Longrightarrow> 0 < l \<Longrightarrow>
    page d l n = (take l (drop n (feed d)), n + l < length (feed d),
      if n < length (feed d) then min (n + l) (length (feed d)) else n)"
begin

lemma page_length: "ok d \<Longrightarrow> 0 < l \<Longrightarrow> length (fst (page d l n)) \<le> l"
  by (simp add: page_eq)

lemma page_progress:
  "ok d \<Longrightarrow> 0 < l \<Longrightarrow> page d l n = (vs, True, n') \<Longrightarrow> n < n' \<and> n' < length (feed d)"
  by (auto simp: page_eq split: if_splits)

lemma collect_all:
  assumes "ok d" "0 < l" "length (feed d) - n < k"
  shows "collect_pages k (page d l) n = Some (drop n (feed d))"
  using assms(3)
proof (induction k arbitrary: n)
  case (Suc k)
  show ?case
  proof (cases "n + l < length (feed d)")
    case True
    with Suc.prems assms(2) have "length (feed d) - (n + l) < k" by simp
    from Suc.IH [OF this] True show ?thesis
      by (simp add: page_eq assms(1,2) add.commute flip: drop_drop)
  qed (simp add: page_eq assms(1,2))
qed simp

end

section \<open>The feed of an account\<close>

lemma concat_case_option:
  "(\<And>c. c \<in> set xs \<Longrightarrow> f c \<noteq> None) \<Longrightarrow>
     concat (map (\<lambda>c. case f c of None \<Rightarrow> [] | Some v \<Rightarrow> [g c v]) xs) = map (\<lambda>c. g c (the (f c))) xs"
  by (induction xs) (auto split: option.split)

lemma version_at_eq_iff:
  "sync_inv d \<Longrightarrow> version_at d u i n = Some v \<longleftrightarrow> v \<in> set (versions d) \<and> verkey v = (u, i, n)"
  by (simp add: version_at_def sync_inv_def history_ok_def row_at_eq_iff)

lemma change_version:
  assumes "sync_inv d" "c \<in> set (changes d)"
  obtains v where "version_at d (chg_user c) (chg_object c) (chg_rev c) = Some v"
    "v \<in> set (versions d)" "verkey v = (chg_user c, chg_object c, chg_rev c)" "ver_op v = chg_op c"
proof -
  from assms obtain v where v: "v \<in> set (versions d)"
    "verkey v = (chg_user c, chg_object c, chg_rev c)" "ver_op v = chg_op c"
    by (auto simp: sync_inv_def history_ok_def change_recorded_def)
  with assms(1) have "version_at d (chg_user c) (chg_object c) (chg_rev c) = Some v"
    by (simp add: version_at_eq_iff)
  with v that show thesis by blast
qed

definition change_version_of :: "db \<Rightarrow> chg_row \<Rightarrow> ver_row" where
  "change_version_of d c = the (version_at d (chg_user c) (chg_object c) (chg_rev c))"

lemma change_feed_eq:
  assumes "sync_inv d"
  shows "change_feed d u = map (\<lambda>c. version_state_of c (change_version_of d c)) (changes_of_user d u)"
proof -
  have "map chg_cursor (changes_of_user d u) = [1..<Suc (last_cursor d u)]"
    using assms by (auto simp: sync_inv_def history_ok_def)
  then have "sort_key chg_cursor (changes_of_user d u) = changes_of_user d u"
    by (intro sort_key_id_if_sorted) (simp del: upt_Suc)
  moreover have "version_at d u (chg_object c) (chg_rev c) \<noteq> None" if "c \<in> set (changes_of_user d u)" for c
    using that change_version [OF assms, of c] by (auto simp: changes_of_user_def)
  moreover have "chg_user c = u" if "c \<in> set (changes_of_user d u)" for c
    using that by (simp add: changes_of_user_def)
  ultimately show ?thesis
    by (simp add: change_feed_def concat_case_option change_version_of_def
        flip: changes_of_user_def)
qed

lemma change_feed_cursors:
  "sync_inv d \<Longrightarrow> map v_cursor (change_feed d u) = [1..<Suc (last_cursor d u)]"
  by (simp add: change_feed_eq version_state_of_def comp_def sync_inv_def history_ok_def)

lemma length_change_feed: "sync_inv d \<Longrightarrow> length (change_feed d u) = last_cursor d u"
  using change_feed_cursors [of d u] by (metis diff_Suc_1 length_map length_upt)

section \<open>Pages\<close>

lemma filter_after_cursor:
  "map f xs = [1..<Suc n] \<Longrightarrow> filter (\<lambda>v. k < f v) xs = drop k xs"
proof (induction xs arbitrary: n rule: rev_induct)
  case (snoc x xs)
  from snoc.prems have "length (xs @ [x]) = n" by (metis diff_Suc_1 length_map length_upt)
  then have n: "n = Suc (length xs)" by simp
  with snoc.prems have x: "f x = n" and xs: "map f xs = [1..<Suc (length xs)]" by simp_all
  from snoc.IH [OF xs] x n show ?case by simp
qed simp

lemma pull_page_slice:
  assumes inv: "sync_inv d" and limit: "0 < l"
  shows "pull_page d u n l =
    \<lparr>p_changes = take l (drop n (change_feed d u)), p_more = n + l < last_cursor d u,
     p_next = (if n < last_cursor d u then min (n + l) (last_cursor d u) else n)\<rparr>"
proof -
  let ?feed = "change_feed d u" and ?last = "last_cursor d u"
  have cursors: "map v_cursor ?feed = [1..<Suc ?last]" by (rule change_feed_cursors [OF inv])
  have len: "length ?feed = ?last" by (rule length_change_feed [OF inv])
  have nth: "v_cursor (?feed ! i) = Suc i" if "i < ?last" for i
  proof -
    have "map v_cursor ?feed ! i = Suc i" using that by (simp add: cursors del: upt_Suc)
    with that len show ?thesis by simp
  qed
  let ?page = "take l (drop n ?feed)"
  let ?rows = "take (Suc l) (drop n ?feed)"
  have again: "l < length ?rows \<longleftrightarrow> n + l < ?last"
    using len by auto
  have page: "(if n + l < ?last then take l ?rows else ?rows) = ?page"
    using len by (auto simp: min_def)
  have "?page = [] \<longleftrightarrow> \<not> n < ?last" using len limit by auto
  moreover have "v_cursor (last ?page) = min (n + l) ?last" if "n < ?last"
  proof -
    from that limit len have "last ?page = ?feed ! (min (n + l) ?last - 1)"
      by (simp add: last_conv_nth min_def Suc_leI) (auto intro: arg_cong [where f = "(!) ?feed"])
    moreover have "min (n + l) ?last - 1 < ?last" using that by auto
    ultimately show ?thesis using nth limit that by simp
  qed
  ultimately have "(if ?page = [] then n else v_cursor (last ?page)) =
      (if n < ?last then min (n + l) ?last else n)" by simp
  then show ?thesis
    unfolding pull_page_def Let_def filter_after_cursor [OF cursors] again page by simp
qed

section \<open>Pull implements the contract\<close>

definition pull_triple :: "db \<times> uuid \<Rightarrow> nat \<Rightarrow> nat \<Rightarrow> version_state list \<times> bool \<times> nat" where
  "pull_triple s l n =
     (case s of (d, u) \<Rightarrow> let p = pull_page d u n l in (p_changes p, p_more p, p_next p))"

interpretation pull: paged_feed "\<lambda>(d, u). sync_inv d" "\<lambda>(d, u). change_feed d u" pull_triple
  by unfold_locales (auto simp: pull_triple_def pull_page_slice length_change_feed)

section \<open>Replaying the feed\<close>

text \<open>What a reader of the feed holds: the last state it saw of each object.\<close>

definition replica :: "version_state list \<Rightarrow> uuid \<Rightarrow> version_state option" where
  "replica vs = fold (\<lambda>v m. m(v_object v \<mapsto> v)) vs Map.empty"

lemma replica_snoc: "replica (vs @ [v]) = (replica vs)(v_object v \<mapsto> v)"
  by (simp add: replica_def)

lemma replica_eq:
  "replica vs i = (let hits = filter (\<lambda>v. v_object v = i) vs in if hits = [] then None else Some (last hits))"
  by (induction vs rule: rev_induct) (auto simp: replica_snoc Let_def, simp add: replica_def)

text \<open>The state of an object as the feed shows it.\<close>

definition shows_object :: "version_state \<Rightarrow> obj_row \<Rightarrow> bool" where
  "shows_object v r \<longleftrightarrow>
     v_object v = o_id r \<and> v_type v = o_type r \<and> v_revision v = o_rev r \<and> v_parent v = o_parent r \<and>
     v_name v = o_name r \<and> v_blob v = clone_bytes (o_blob r) \<and> v_deleted v = o_deleted r"

lemma feed_of_object:
  assumes "sync_inv d"
  shows "filter (\<lambda>v. v_object v = i) (change_feed d u) =
    map (\<lambda>c. version_state_of c (change_version_of d c)) (changes_of_object d u i)"
proof -
  have "v_object (version_state_of c (change_version_of d c)) = chg_object c"
    if "c \<in> set (changes d)" for c
  proof -
    from change_version [OF assms that] obtain v where
      "version_at d (chg_user c) (chg_object c) (chg_rev c) = Some v"
      "verkey v = (chg_user c, chg_object c, chg_rev c)" by blast
    then show ?thesis by (simp add: change_version_of_def version_state_of_def verkey_def)
  qed
  then have "filter ((\<lambda>v. v_object v = i) \<circ> (\<lambda>c. version_state_of c (change_version_of d c))) (changes_of_user d u) =
      filter (\<lambda>c. chg_object c = i) (changes_of_user d u)"
    by (intro filter_cong) (auto simp: changes_of_user_def)
  then show ?thesis
    by (simp add: change_feed_eq [OF assms] filter_map changes_of_user_def changes_of_object_def
        conj_commute)
qed

lemma replica_feed_object:
  assumes inv: "sync_inv d" and r: "loadObject d u i = Some r"
  shows "\<exists>v. replica (change_feed d u) i = Some v \<and> shows_object v r"
proof -
  from r have r': "r \<in> set (objects d)" "o_user r = u" "o_id r = i" by (auto dest: loadObject_SomeD)
  with inv have rec: "object_recorded d r" by (simp add: sync_inv_def history_ok_def)
  then obtain w where w: "w \<in> set (versions d)" "version_matches w r"
    by (auto simp: object_recorded_def)
  from rec r' have revs: "map chg_rev (changes_of_object d u i) = [1..<Suc (o_rev r)]"
    by (simp add: object_recorded_def)
  from inv r'(1) have "0 < o_rev r"
    by (simp add: sync_inv_def objects_ok_def list_all_iff object_row_ok_def)
  with revs have ne: "changes_of_object d u i \<noteq> []" by auto
  let ?c = "last (changes_of_object d u i)"
  have "chg_rev ?c = last (map chg_rev (changes_of_object d u i))" using ne by (simp add: last_map)
  with revs \<open>0 < o_rev r\<close> have c: "chg_rev ?c = o_rev r" by simp
  from ne have c': "chg_user ?c = u" "chg_object ?c = i" "?c \<in> set (changes d)"
    using last_in_set [OF ne] by (auto simp: changes_of_object_def)
  from w(2) have "verkey w = (u, i, o_rev r)" by (simp add: version_matches_def r')
  with inv w(1) c c' have "change_version_of d ?c = w"
    by (simp add: change_version_of_def version_at_eq_iff [THEN iffD2])
  then have "shows_object (version_state_of ?c (change_version_of d ?c)) r"
    using w(2) r' by (simp add: shows_object_def version_state_of_def version_matches_def verkey_def)
  with ne show ?thesis by (simp add: replica_eq feed_of_object [OF inv] last_map)
qed

lemma replica_feed_None:
  assumes inv: "sync_inv d" and none: "loadObject d u i = None"
  shows "replica (change_feed d u) i = None"
proof -
  have "changes_of_object d u i = []"
  proof (rule ccontr)
    assume "\<not> ?thesis"
    then obtain c where c: "c \<in> set (changes d)" "chg_user c = u" "chg_object c = i"
      by (auto simp: changes_of_object_def filter_empty_conv)
    from change_version [OF inv c(1)] obtain v where "v \<in> set (versions d)" "ver_user v = u" "ver_object v = i"
      using c by (auto simp: verkey_def)
    with inv none show False
      by (auto simp: sync_inv_def history_ok_def version_owned_def okey_def loadObject_None_iff)
  qed
  then show ?thesis by (simp add: replica_eq feed_of_object [OF inv])
qed

text \<open>The replica of the whole feed is the account's object table.\<close>

lemma replica_feed:
  assumes "sync_inv d"
  shows "rel_option (\<lambda>v r. shows_object v r) (replica (change_feed d u) i) (loadObject d u i)"
  using replica_feed_object [OF assms] replica_feed_None [OF assms]
  by (cases "loadObject d u i") fastforce+

end
