(* ===== verification/System.thy ===== *)
theory System
  imports System_Purge Sync_Feed
begin

text \<open>
  The server as a transition system: one step is one request handled by one of the components, on the
  one database they share. Requests are serialised by SQLite's single writer, so that concurrent
  clients are sequences of steps in any order. Uploads, whose component is not modelled, are steps that
  add blobs and entitlements. The invariants of all components hold in every reachable state.
\<close>

section \<open>Facts that steps keep\<close>

text \<open>
  The contract of a step relation with a fact about states that no step destroys, and what follows for
  whole runs.
\<close>

locale stable_fact =
  fixes step :: "'s \<Rightarrow> 's \<Rightarrow> bool" and fact :: "'s \<Rightarrow> bool"
  assumes kept: "step s s' \<Longrightarrow> fact s \<Longrightarrow> fact s'"
begin

lemma kept_run: "step\<^sup>*\<^sup>* s s' \<Longrightarrow> fact s \<Longrightarrow> fact s'"
  by (induction rule: rtranclp_induct) (auto intro: kept)

end

locale system_invariant = stable_fact +
  fixes start :: 's
  assumes holds_first: "fact start"
begin

lemma reachable: "step\<^sup>*\<^sup>* start s \<Longrightarrow> fact s"
  by (rule kept_run [OF _ holds_first])

end

section \<open>The steps\<close>

text \<open>What the server is configured with: the external functions and the secrets.\<close>

record world =
  w_ext :: ext
  w_idna :: "string \<Rightarrow> string option"
  w_argon :: argon
  w_params :: argon_params
  w_codec :: aead

inductive server_step :: "world \<Rightarrow> db \<Rightarrow> db \<Rightarrow> bool" for w where
  submits: "server_step w d (snd (Submit (w_ext w) a now fresh q d))"
| preserves: "server_step w d (snd (PreserveAndDeleteEmptyFolder (w_ext w) a now fresh r d))"
| logs_in: "server_step w d (snd (Login (w_ext w)
    (authenticator (w_ext w) (w_idna w) (w_argon w) (w_params w) d) now random email pw name d))"
| refreshes: "server_step w d (snd (Refresh (w_ext w) now random token d))"
| renames: "server_step w d (snd (RenameDevice (w_ext w) now token i name d))"
| revokes_session: "server_step w d (snd (RevokeSession (w_ext w) now token s d))"
| revokes_device: "server_step w d (snd (RevokeDevice (w_ext w) now token i d))"
| registers: "server_step w d (snd (Register (w_ext w) (w_idna w) (w_argon w) (w_params w)
    (Some (w_codec w)) now random email pw d))"
| verifies: "server_step w d (snd (VerifyEmail (w_ext w) now token d))"
| dispatches: "server_step w d (snd (DispatchOne (w_codec w) send now d))"
| uploads: "server_step w d (d\<lparr>blobs := bs, entitlements := entitlements d @ es\<rparr>)"

inductive_cases server_stepE [elim]: "server_step w d d'"

text \<open>The configuration is one the constructors accept, and the external code is as documented.\<close>

definition world_ok :: "world \<Rightarrow> bool" where
  "world_ok w \<longleftrightarrow>
     newPasswordHasher (w_params w) = Inr (w_params w) \<and> argon_law (w_argon w) \<and> aead_law (w_codec w)"

definition system_inv :: "world \<Rightarrow> db \<Rightarrow> bool" where
  "system_inv w d \<longleftrightarrow> sync_inv d \<and> session_inv d \<and> identity_inv (w_ext w) (w_codec w) d"

section \<open>Every step keeps the invariants\<close>

lemma system_inv_accounts:
  assumes "only_accounts d d'" and "\<And>u. user_exists d u \<Longrightarrow> user_exists d' u"
    and "identity_inv (w_ext w) (w_codec w) d'" and "system_inv w d"
  shows "system_inv w d'"
  using assms only_accounts_same [OF assms(1)] session_inv_cong sync_inv_cong [of d d']
  by (auto simp: system_inv_def)

lemma system_inv_sessions:
  assumes "only_sessions d d'" and "session_inv d'" and "system_inv w d"
  shows "system_inv w d'"
proof -
  from only_sessions_same [OF assms(1)] have *: "same_registry d d'" "same_history d d'" "entitlements d' = entitlements d"
    by auto
  have "user_exists d' = user_exists d" using *(1) by (simp add: same_registry_def user_exists_def fun_eq_iff)
  with * assms(2,3) identity_inv_cong [OF *(1)] sync_inv_cong [of d d'] show ?thesis
    by (simp add: system_inv_def)
qed

lemma system_inv_sync:
  assumes "same_registry d d'" "same_sessions d d'" and "sync_inv d'" and "system_inv w d"
  shows "system_inv w d'"
  using assms session_inv_cong identity_inv_cong by (simp add: system_inv_def)

lemma system_inv_purge: "system_inv w d \<Longrightarrow> system_inv w (purge_users P d)"
  by (simp add: system_inv_def purge_sync_inv purge_session_inv purge_inv)

lemma user_exists_keys: "user_exists d u \<longleftrightarrow> u \<in> set (map usr_id (users d))"
  by (auto simp: user_exists_def list_ex_iff)

lemma VerifyEmail_users:
  assumes "VerifyEmail x now token d = (res, d')"
  shows "map usr_id (users d') = map usr_id (users d)"
  using assms by (cases rule: VerifyEmail_cases) (simp_all add: activate_user_def map_update_rows)

lemma Register_users:
  assumes "aead_law c" "Register x idna argon h (Some c) now random emailInput pw d = (res, d')"
  shows "\<exists>rs. users d' = users d @ rs"
  using assms(2,1) by (cases rule: Register_cases) (auto simp: registered_def registration_rows_def)

lemma dispatch_cases:
  assumes "DispatchOne c send now d = (r, d')"
  obtains "d' = d" | "d' = purge_users (expired_pending now d) d"
  | m where "d' = reschedule now m (purge_users (expired_pending now d) d)"
  | m where "d' = complete_delivery m (purge_users (expired_pending now d) d)"
  using assms delete_users_InrD [of "expired_pending now d" d]
  by (auto simp: DispatchOne_def split: sum.splits list.splits if_splits)

lemma outbox_frame [simp]:
  "same_sessions d (reschedule now m d)" "same_history d (reschedule now m d)"
  "same_sessions d (complete_delivery m d)" "same_history d (complete_delivery m d)"
  "entitlements (reschedule now m d) = entitlements d" "entitlements (complete_delivery m d) = entitlements d"
  by (simp_all add: reschedule_def complete_delivery_def frame_defs)

lemma system_inv_outbox:
  assumes "system_inv w d"
  shows "system_inv w (reschedule now m d)" "system_inv w (complete_delivery m d)"
proof -
  have "user_exists (reschedule now m d) = user_exists d" "user_exists (complete_delivery m d) = user_exists d"
    by (simp_all add: user_exists_def fun_eq_iff)
  then have "sync_inv (reschedule now m d)" "sync_inv (complete_delivery m d)"
    using assms sync_inv_cong [of d] by (simp_all add: system_inv_def)
  then show "system_inv w (reschedule now m d)" "system_inv w (complete_delivery m d)"
    using assms reschedule_inv complete_delivery_inv session_inv_cong [OF outbox_frame(1)]
      session_inv_cong [OF outbox_frame(3)]
    by (simp_all add: system_inv_def)
qed

lemma system_inv_step:
  assumes world: "world_ok w" and step: "server_step w d d'" and inv: "system_inv w d"
  shows "system_inv w d'"
proof -
  have parts: "sync_inv d" "session_inv d" "identity_inv (w_ext w) (w_codec w) d"
    using inv by (simp_all add: system_inv_def)
  from step show ?thesis
  proof cases
    case (submits a now fresh q)
    with same_accounts_same [of d d'] Submit_acts [of a d "w_ext w" now fresh q] Submit_keeps [OF parts(1)]
    show ?thesis using inv by (intro system_inv_sync [of d d']) (auto simp: acts_for_def)
  next
    case (preserves a now fresh r)
    from preserve_acts [OF parts(1), of a "w_ext w" now fresh r] preserves obtain d1
      where "same_accounts d d1" "same_sync d1 d'" by (auto simp: acts_for_def)
    from same_accounts_same [OF this(1)] same_sync_same [OF this(2)]
    have "same_registry d d'" "same_sessions d d'" by (simp_all add: frame_defs)
    with preserve_keeps [OF parts(1)] preserves inv show ?thesis by (intro system_inv_sync [of d d']) auto
  next
    case (logs_in now random email pw name)
    then show ?thesis using inv Login_only Login_inv [OF parts(2)] by (intro system_inv_sessions [of d d']) auto
  next
    case (refreshes now random token)
    then show ?thesis using inv Refresh_only Refresh_inv [OF parts(2)] by (intro system_inv_sessions [of d d']) auto
  next
    case (renames now token i name)
    then show ?thesis using inv RenameDevice_only RenameDevice_inv [OF parts(2)]
      by (intro system_inv_sessions [of d d']) auto
  next
    case (revokes_session now token s)
    then show ?thesis using inv RevokeSession_only RevokeSession_inv [OF parts(2)]
      by (intro system_inv_sessions [of d d']) auto
  next
    case (revokes_device now token i)
    then show ?thesis using inv RevokeDevice_only RevokeDevice_inv [OF parts(2)]
      by (intro system_inv_sessions [of d d']) auto
  next
    case (registers now random email pw)
    obtain res where run: "Register (w_ext w) (w_idna w) (w_argon w) (w_params w) (Some (w_codec w)) now random email pw d = (res, d')"
      using registers by (metis prod.exhaust_sel)
    obtain rs where "users d' = users d @ rs" using Register_users [OF _ run] world by (auto simp: world_ok_def)
    then have "user_exists d u \<Longrightarrow> user_exists d' u" for u by (auto simp: user_exists_def)
    then show ?thesis
      using registers Register_only Register_inv [OF parts(3) _ _ _ run] world inv
      by (intro system_inv_accounts [of d d']) (auto simp: world_ok_def)
  next
    case (verifies now token)
    obtain res where run: "VerifyEmail (w_ext w) now token d = (res, d')" using verifies by (metis prod.exhaust_sel)
    then have "user_exists d u \<Longrightarrow> user_exists d' u" for u by (simp add: user_exists_keys VerifyEmail_users)
    then show ?thesis
      using verifies VerifyEmail_only VerifyEmail_inv [OF parts(3) run] inv
      by (intro system_inv_accounts [of d d']) auto
  next
    case (dispatches send now)
    then obtain r where "DispatchOne (w_codec w) send now d = (r, d')" by (metis prod.exhaust_sel)
    then show ?thesis
      by (cases rule: dispatch_cases) (auto simp: inv system_inv_purge system_inv_outbox)
  next
    case (uploads bs es)
    then have "same_registry d d'" "same_sessions d d'" "same_history d d'" by (simp_all add: frame_defs)
    moreover have "user_exists d' = user_exists d" using uploads by (simp add: user_exists_def fun_eq_iff)
    ultimately show ?thesis using uploads inv parts sync_inv_cong [of d d']
      by (intro system_inv_sync [of d d']) auto
  qed
qed

lemma system_inv_empty: "system_inv w empty_db"
  by (simp add: system_inv_def sync_inv_empty session_inv_empty identity_inv_empty)

end
