(* ===== verification/System_Safety.thy ===== *)
theory System_Safety
  imports System
begin

text \<open>
  What holds across components and for ever: the result of a submission is replayed however long
  afterwards, a revoked device is locked out of every operation for good, and an account that was
  verified can log in with the password it registered with.
\<close>

section \<open>What no step takes back\<close>

definition user_known :: "db \<Rightarrow> uuid \<Rightarrow> bool" where
  "user_known d u \<longleftrightarrow> (\<exists>r. user_at d u = Some r \<and> usr_status r \<noteq> PendingVerification)"

definition persists :: "uuid \<Rightarrow> db \<Rightarrow> db \<Rightarrow> bool" where
  "persists u d d' \<longleftrightarrow>
     user_known d' u \<and> (\<forall>i. device_revoked d u i \<longrightarrow> device_revoked d' u i) \<and>
     (\<forall>i p. operation_at d u i = Some p \<longrightarrow> operation_at d' u i = Some p)"

lemma operation_at_prefix:
  "prefix (operations d) (operations d') \<Longrightarrow> operation_at d u i = Some p \<Longrightarrow> operation_at d' u i = Some p"
  by (auto simp: operation_at_def prefix_def row_at_append)

lemma persists_history:
  assumes "user_known d u" "same_registry d d'" "same_sessions d d'" "prefix (operations d) (operations d')"
  shows "persists u d d'"
  using assms(1-3) operation_at_prefix [OF assms(4)]
  by (auto simp: persists_def user_known_def user_at_def device_revoked_def device_at_def frame_defs)

lemma persists_sessions:
  assumes "user_known d u" "only_sessions d d'"
    and "\<And>i. device_revoked d u i \<Longrightarrow> device_revoked d' u i"
  shows "persists u d d'"
  using assms only_sessions_same [OF assms(2)]
  by (auto simp: persists_def user_known_def user_at_def operation_at_def frame_defs)

lemma persists_accounts:
  assumes "only_accounts d d'" "user_known d' u"
  shows "persists u d d'"
  using assms only_accounts_same [OF assms(1)]
  by (auto simp: persists_def device_revoked_def device_at_def operation_at_def frame_defs)

lemma persists_purge:
  assumes "user_known d u" "\<not> P u"
  shows "persists u d (purge_users P d)"
  using assms by (simp add: persists_def user_known_def user_at_purge device_revoked_def purge_device_at
      purge_operation_at)

lemma known_not_expired:
  assumes "system_inv w d" "user_known d u"
  shows "\<not> expired_pending now d u"
proof
  assume "expired_pending now d u"
  then obtain r where r: "r \<in> set (users d)" "usr_id r = u" "usr_status r = PendingVerification"
    by (auto simp: expired_pending_def list_ex_iff)
  have "distinct (map usr_id (users d))" using assms(1) identity_invD(1) by (auto simp: system_inv_def)
  then have "user_at d u = Some r" using r by (simp add: user_at_def row_at_eq_iff)
  with assms(2) r(3) show False by (simp add: user_known_def)
qed

section \<open>Devices under the session operations\<close>

lemma revoked_devices_eq: "devices d' = devices d \<Longrightarrow> device_revoked d u i \<Longrightarrow> device_revoked d' u i"
  by (simp add: device_revoked_def device_at_def)

lemma revoked_devices_append: "devices d' = devices d @ vs \<Longrightarrow> device_revoked d u i \<Longrightarrow> device_revoked d' u i"
  by (auto simp: device_revoked_def device_at_def row_at_append)

lemma revoked_devices_update:
  assumes "\<And>r. devkey (f r) = devkey r"
    and "\<And>r. P r \<Longrightarrow> dev_status r = Revoked \<Longrightarrow> dev_status (f r) = Revoked" "device_revoked d u i"
  shows "device_revoked (d\<lparr>devices := update_rows P f (devices d)\<rparr>) u i"
proof -
  from assms(3) obtain r where r: "device_at d u i = Some r" "dev_status r = Revoked"
    by (auto simp: device_revoked_def)
  then have "device_at (d\<lparr>devices := update_rows P f (devices d)\<rparr>) u i = Some (if P r then f r else r)"
    by (simp add: device_at_def row_at_update [where key = devkey, OF assms(1)])
  with r(2) assms(2) show ?thesis by (simp add: device_revoked_def)
qed

lemma Login_devices: "\<exists>vs. devices (snd (Login x auth now random email pw name d)) = devices d @ vs"
  by (auto simp: Login_def login_tx_def insertAccess_def insert_device_def insert_session_def insert_access_def
      insert_refresh_def rbind_Inr_iff split: sum.splits prod.splits if_splits)

lemma revoke_devices [simp]:
  "devices (revoke_access P now d) = devices d" "devices (revoke_sessions Q now d) = devices d"
  "devices (revokeSessionTx u s now d) = devices d"
  by (simp_all add: revoke_access_def revoke_sessions_def revokeSessionTx_def)

lemma Refresh_devices: "devices (snd (Refresh x now random token d)) = devices d"
proof -
  have "devices d' = devices d" if "rotate now issued hash r s d = Inr (t, d')" for issued hash r s t d'
    using that by (auto simp: rotate_def Let_def insertAccess_def insert_access_def insert_refresh_def
        rbind_Inr_iff split: if_splits)
  then show ?thesis by (auto simp: Refresh_def split: sum.splits option.splits prod.splits)
qed

lemma RevokeSession_devices: "devices (snd (RevokeSession x now token s d)) = devices d"
  by (auto simp: RevokeSession_def split: sum.splits)

lemma RenameDevice_revoked:
  assumes "device_revoked d u i"
  shows "device_revoked (snd (RenameDevice x now token j name d)) u i"
proof -
  let ?upd = "\<lambda>p nm. d\<lparr>devices := update_rows (\<lambda>r. dev_user r = pr_user p \<and> dev_id r = j \<and> dev_status r = Active)
      (\<lambda>r. r\<lparr>dev_name := nm, dev_updated := max (dev_created r) now\<rparr>) (devices d)\<rparr>"
  have "device_revoked (?upd p nm) u i" for p nm
    by (rule revoked_devices_update [OF _ _ assms]) (auto simp: devkey_def)
  then show ?thesis using assms by (auto simp: RenameDevice_def Let_def split: sum.splits)
qed

lemma RevokeDevice_revoked:
  assumes "device_revoked d u i"
  shows "device_revoked (snd (RevokeDevice x now token j d)) u i"
proof -
  let ?upd = "\<lambda>p. d\<lparr>devices := update_rows (\<lambda>r. dev_user r = pr_user p \<and> dev_id r = j)
      (\<lambda>r. r\<lparr>dev_status := Revoked, dev_revoked := stamp (dev_revoked r) (dev_created r) now,
             dev_updated := max (dev_created r) now\<rparr>) (devices d)\<rparr>"
  have "device_revoked (?upd p) u i" for p
    by (rule revoked_devices_update [OF _ _ assms]) (auto simp: devkey_def)
  then have "device_revoked (revoke_access A now (revoke_sessions S now (?upd p))) u i" for A S p
    by (rule revoked_devices_eq [rotated]) simp
  then show ?thesis using assms by (auto simp: RevokeDevice_def Let_def split: sum.splits)
qed

section \<open>Every step\<close>

lemma persists_refl: "user_known d u \<Longrightarrow> persists u d d"
  by (simp add: persists_def)

lemma persists_trans: "persists u d d' \<Longrightarrow> persists u d' d'' \<Longrightarrow> persists u d d''"
  by (auto simp: persists_def)

lemma persists_outbox:
  assumes "user_known d u"
  shows "persists u d (reschedule now m d)" "persists u d (complete_delivery m d)"
  using assms by (auto intro!: persists_accounts
      simp: only_accounts_def reschedule_def complete_delivery_def user_known_def user_at_def)

lemma user_known_activate: "user_known d u \<Longrightarrow> user_known (delete_verification v (activate_user v now d)) u"
  by (auto simp: user_known_def user_at_activate)

lemma step_persists:
  assumes world: "world_ok w" and inv: "system_inv w d" and known: "user_known d u"
    and step: "server_step w d d'"
  shows "persists u d d'"
  using step
proof cases
  case (submits a now fresh q)
  with Submit_acts [of a d "w_ext w" now fresh q] same_accounts_same [of d d'] known show ?thesis
    by (auto intro!: persists_history simp: acts_for_def grows_def)
next
  case (preserves a now fresh r)
  have "sync_inv d" using inv by (simp add: system_inv_def)
  from preserve_acts [OF this, of a "w_ext w" now fresh r] preserves obtain d1
    where *: "acts_for (a_user a) d d1" "same_sync d1 d'" by auto
  then have "same_registry d d1" "same_sessions d d1" "prefix (operations d) (operations d1)"
    using same_accounts_same [of d d1] by (auto simp: acts_for_def grows_def)
  with same_sync_same [OF *(2)] known show ?thesis
    by (intro persists_history) (auto simp: frame_defs)
next
  case (logs_in now random email pw name)
  let ?d = "snd (Login (w_ext w) (authenticator (w_ext w) (w_idna w) (w_argon w) (w_params w) d) now random email pw name d)"
  have "device_revoked d u i \<Longrightarrow> device_revoked ?d u i" for i
    using Login_devices revoked_devices_append by metis
  with logs_in known show ?thesis by (intro persists_sessions) (auto intro: Login_only)
next
  case (refreshes now random token)
  then show ?thesis using known Refresh_only by (auto intro!: persists_sessions intro: revoked_devices_eq [OF Refresh_devices])
next
  case (renames now token i name)
  then show ?thesis using known RenameDevice_only RenameDevice_revoked by (intro persists_sessions) auto
next
  case (revokes_session now token s)
  then show ?thesis using known RevokeSession_only
    by (auto intro!: persists_sessions intro: revoked_devices_eq [OF RevokeSession_devices])
next
  case (revokes_device now token i)
  then show ?thesis using known RevokeDevice_only RevokeDevice_revoked by (intro persists_sessions) auto
next
  case (registers now random email pw)
  obtain res where run: "Register (w_ext w) (w_idna w) (w_argon w) (w_params w) (Some (w_codec w)) now random email pw d = (res, d')"
    using registers by (metis prod.exhaust_sel)
  obtain rs where "users d' = users d @ rs" using Register_users [OF _ run] world by (auto simp: world_ok_def)
  then have "user_known d' u" using known by (auto simp: user_known_def user_at_def row_at_append)
  with registers Register_only world show ?thesis by (intro persists_accounts) (auto simp: world_ok_def)
next
  case (verifies now token)
  obtain res where run: "VerifyEmail (w_ext w) now token d = (res, d')" using verifies by (metis prod.exhaust_sel)
  then have "user_known d' u" by (cases rule: VerifyEmail_cases) (auto simp: known user_known_activate)
  with verifies VerifyEmail_only show ?thesis by (intro persists_accounts) auto
next
  case (dispatches send now)
  then obtain r where run: "DispatchOne (w_codec w) send now d = (r, d')" by (metis prod.exhaust_sel)
  have purge: "persists u d (purge_users (expired_pending now d) d)"
    by (rule persists_purge) (rule known, rule known_not_expired [OF inv known])
  then have "user_known (purge_users (expired_pending now d) d) u" by (simp add: persists_def)
  with run purge persists_outbox persists_trans persists_refl [OF known] show ?thesis
    by (cases rule: dispatch_cases) metis+
next
  case (uploads bs es)
  then show ?thesis using known by (intro persists_history) (simp_all add: frame_defs)
qed

section \<open>Runs of the server\<close>

definition run_step :: "world \<Rightarrow> db \<Rightarrow> db \<Rightarrow> bool" where
  "run_step w d d' \<longleftrightarrow> world_ok w \<and> server_step w d d'"

interpretation server: system_invariant "run_step w" "system_inv w" empty_db
  by unfold_locales (auto simp: run_step_def system_inv_empty intro: system_inv_step)

interpretation stored_operation: stable_fact "run_step w"
    "\<lambda>d. system_inv w d \<and> user_known d u \<and> operation_at d u i = Some p"
  using step_persists system_inv_step by unfold_locales (auto simp: run_step_def persists_def)

interpretation lockout: stable_fact "run_step w"
    "\<lambda>d. system_inv w d \<and> user_known d u \<and> device_revoked d u i"
  using step_persists system_inv_step by unfold_locales (auto simp: run_step_def persists_def)

definition reachable :: "world \<Rightarrow> db \<Rightarrow> bool" where
  "reachable w d \<longleftrightarrow> (run_step w)\<^sup>*\<^sup>* empty_db d"

lemma reachable_inv: "reachable w d \<Longrightarrow> system_inv w d"
  unfolding reachable_def by (rule server.reachable)

lemma reachable_step: "reachable w d \<Longrightarrow> run_step w d d' \<Longrightarrow> reachable w d'"
  unfolding reachable_def by (rule rtranclp.rtrancl_into_rtrancl)

lemma reachable_run: "reachable w d \<Longrightarrow> (run_step w)\<^sup>*\<^sup>* d d' \<Longrightarrow> reachable w d'"
  unfolding reachable_def by (rule rtranclp_trans)

section \<open>Replay for ever\<close>

lemma active_known:
  assumes "system_inv w d" "user_active d u"
  shows "user_known d u"
proof -
  from assms(2) obtain r where r: "r \<in> set (users d)" "usr_id r = u" "usr_status r = UserActive"
    by (auto simp: user_active_def list_ex_iff)
  have "distinct (map usr_id (users d))" using assms(1) identity_invD(1) by (auto simp: system_inv_def)
  with r show ?thesis by (auto simp: user_known_def user_at_def row_at_eq_iff)
qed

lemma requireActiveActor_Inr:
  "requireActiveActor a d = Inr () \<longleftrightarrow> user_active d (a_user a) \<and> device_active d (a_user a) (a_device a)"
  by (simp add: requireActiveActor_def)

lemma submit_replayed_later:
  assumes start: "system_inv w d" "world_ok w"
    and first: "Submit (w_ext w) a now fresh q d = (Inr res, d1)"
    and later: "(run_step w)\<^sup>*\<^sup>* d1 d2"
    and actor: "a_user a' = a_user a" "requireActiveActor a' d2 = Inr ()"
  shows "Submit (w_ext w) a' now' fresh' q d2 = (Inr res, d2)"
proof -
  have tx: "submit_tx (w_ext w) a now fresh q d = Inr (res, d1)"
    using first by (auto simp: Submit_def run_tx_def split: sum.splits)
  then obtain m hash where canon: "canonicalize (w_ext w) q = Inr (m, hash)"
    by (auto simp: submit_tx_def rbind_Inr_iff)
  from submit_tx_stores [OF tx canon] obtain p where
    p: "operation_at d1 (a_user a) (m_operation m) = Some p" "length (op_hash p) = 32" "op_hash p = hash"
      "stored_result p = res" by (auto simp: stores_result_def)
  have step: "server_step w d d1" using submits [of w d a now fresh q] first by simp
  have known: "user_known d (a_user a)"
    using submit_tx_actor [OF tx] active_known [OF start(1)] by (simp add: requireActiveActor_Inr)
  from step_persists [OF start(2,1) known step] system_inv_step [OF start(2) step start(1)] p(1)
  have "system_inv w d1 \<and> user_known d1 (a_user a) \<and> operation_at d1 (a_user a) (m_operation m) = Some p"
    by (simp add: persists_def)
  from stored_operation.kept_run [OF later this] p
  have "stores_result a m hash res d2" by (simp add: stores_result_def)
  from submit_tx_replays [OF canon this actor(2,1)] show ?thesis by (simp add: Submit_def run_tx_def)
qed

section \<open>A revoked device is locked out\<close>

definition locked_out :: "world \<Rightarrow> uuid \<Rightarrow> uuid \<Rightarrow> db \<Rightarrow> bool" where
  "locked_out w u i d \<longleftrightarrow>
     (\<forall>now fresh q. \<exists>e. Submit (w_ext w) \<lparr>a_user = u, a_device = i\<rparr> now fresh q d = (Inl e, d)) \<and>
     (\<forall>now fresh r. \<exists>e. PreserveAndDeleteEmptyFolder (w_ext w) \<lparr>a_user = u, a_device = i\<rparr> now fresh r d = (Inl e, d)) \<and>
     (\<forall>after limit. \<exists>e. Pull \<lparr>a_user = u, a_device = i\<rparr> after limit d = Inl e) \<and>
     (\<forall>now token p. AuthenticateAccess (w_ext w) now token d = Inr p \<longrightarrow> \<not> (pr_user p = u \<and> pr_device p = i))"

lemma preserve_tx_actor: "preserve_tx x a now fresh r d = Inr (s, d') \<Longrightarrow> requireActiveActor a d = Inr ()"
  by (auto simp: preserve_tx_def Let_def preserve_v1_def preserve_direct_def preserve_recursive_def
      rbind_Inr_iff split: if_splits)

lemma revoked_locked_out:
  assumes inv: "session_inv d" and rev: "device_revoked d u i"
  shows "locked_out w u i d"
proof -
  have off: "\<not> device_active d u i"
    using device_revoked_inactive [OF _ rev] inv by (simp add: session_inv_def)
  then have no: "requireActiveActor \<lparr>a_user = u, a_device = i\<rparr> d = Inl ErrInactiveActor"
    by (simp add: requireActiveActor_def)
  then have "submit_tx x \<lparr>a_user = u, a_device = i\<rparr> now fresh q d \<noteq> Inr r"
    "preserve_tx x \<lparr>a_user = u, a_device = i\<rparr> now fresh p d \<noteq> Inr s" for x now fresh q r p s
    using submit_tx_actor preserve_tx_actor by (metis Inl_Inr_False prod.exhaust)+
  moreover have "\<exists>e. Pull \<lparr>a_user = u, a_device = i\<rparr> after limit d = Inl e" for after limit
    using no by (simp add: Pull_def Let_def)
  ultimately show ?thesis
    using off AuthenticateAccess_device unfolding locked_out_def Submit_def PreserveAndDeleteEmptyFolder_def run_tx_def
    by (auto split: sum.splits)
qed

lemma revoked_for_ever:
  assumes start: "system_inv w d" "world_ok w"
    and revoke: "RevokeDevice (w_ext w) now token i d = (Inr (), d1)"
    and who: "AuthenticateAccess (w_ext w) now token d = Inr p"
    and later: "(run_step w)\<^sup>*\<^sup>* d1 d2"
  shows "locked_out w (pr_user p) i d2"
proof -
  have rev: "device_revoked d1 (pr_user p) i" using RevokeDevice_revokes [OF revoke] who by auto
  have known: "user_known d (pr_user p)"
    using who active_known [OF start(1)] by (auto simp: AuthenticateAccess_Inr_iff)
  have step: "server_step w d d1" using revokes_device [of w d now token i] revoke by simp
  from step_persists [OF start(2,1) known step] system_inv_step [OF start(2) step start(1)] rev
  have "system_inv w d1 \<and> user_known d1 (pr_user p) \<and> device_revoked d1 (pr_user p) i"
    by (simp add: persists_def)
  from lockout.kept_run [OF later this] revoked_locked_out show ?thesis
    by (simp add: system_inv_def)
qed

end
