(* ===== verification/Limiter.thy ===== *)
theory Limiter
  imports Email "HOL-Library.AList"
begin

text \<open>
  The abuse limiters of the HTTP interface, \<open>server/internal/httpapi/limiter.go\<close>: fixed windows per key
  in a table of bounded size, and the pairs of a global and a keyed limiter per endpoint. The map from
  keys to entries is an association list with distinct keys; times and durations are nanoseconds, the
  reading of the clock is an argument. The mutex makes every call of \<open>allow\<close> one step.
\<close>

section \<open>The fixed window\<close>

record limit_entry =
  le_started :: int
  le_count :: int

record limiter =
  lm_limit :: int
  lm_window :: int
  lm_max :: nat
  lm_entries :: "(string \<times> limit_entry) list"

definition newFixedWindowLimiter :: "int \<Rightarrow> int \<Rightarrow> nat \<Rightarrow> limiter" where
  "newFixedWindowLimiter limit window maxKeys =
     \<lparr>lm_limit = limit, lm_window = window, lm_max = maxKeys, lm_entries = []\<rparr>"

definition positiveDuration :: "int \<Rightarrow> int" where
  "positiveDuration t = (if t \<le> 0 then 1000000000 else t)"

text \<open>The window of an entry is over, or the clock went back before its start.\<close>

definition stale :: "int \<Rightarrow> int \<Rightarrow> limit_entry \<Rightarrow> bool" where
  "stale window now e \<longleftrightarrow> now - le_started e \<ge> window \<or> now < le_started e"

definition fresh_entry :: "int \<Rightarrow> limit_entry" where
  "fresh_entry now = \<lparr>le_started = now, le_count = 1\<rparr>"

definition set_entry :: "string \<Rightarrow> limit_entry \<Rightarrow> limiter \<Rightarrow> limiter" where
  "set_entry key e l = l\<lparr>lm_entries := AList.update key e (lm_entries l)\<rparr>"

text \<open>The eviction loop: the entries that stay, and the earliest end of a window among them.\<close>

definition live_entries :: "int \<Rightarrow> limiter \<Rightarrow> (string \<times> limit_entry) list" where
  "live_entries now l = filter (\<lambda>(_, e). \<not> stale (lm_window l) now e) (lm_entries l)"

definition earliest_expiry :: "int \<Rightarrow> limiter \<Rightarrow> int" where
  "earliest_expiry now l =
     foldl (\<lambda>t (_, e). min t (le_started e + lm_window l)) (now + lm_window l) (live_entries now l)"

definition allow :: "limiter \<Rightarrow> int \<Rightarrow> string \<Rightarrow> (bool \<times> int) \<times> limiter" where
  "allow l now key =
     (case map_of (lm_entries l) key of
        Some e \<Rightarrow>
          if stale (lm_window l) now e then ((True, 0), set_entry key (fresh_entry now) l)
          else if le_count e \<ge> lm_limit l
          then ((False, positiveDuration (le_started e + lm_window l - now)), l)
          else ((True, 0), set_entry key (e\<lparr>le_count := le_count e + 1\<rparr>) l)
      | None \<Rightarrow>
          if length (lm_entries l) \<ge> lm_max l then
            let l' = l\<lparr>lm_entries := live_entries now l\<rparr> in
            if length (lm_entries l') \<ge> lm_max l
            then ((False, positiveDuration (earliest_expiry now l - now)), l')
            else ((True, 0), set_entry key (fresh_entry now) l')
          else ((True, 0), set_entry key (fresh_entry now) l))"

section \<open>The limiters of the endpoints\<close>

definition limitKey :: "ext \<Rightarrow> string \<Rightarrow> string \<Rightarrow> string" where
  "limitKey x domain text = x_sha256 x (domain @ text)"

definition globalLimitKey :: string where
  "globalLimitKey = replicate 7 (CHR 0x00) @ [CHR 0x01] @ replicate 24 (CHR 0x00)"

definition key_domain :: "string \<Rightarrow> string" where
  "key_domain name = ''remember:http-'' @ name @ ''-limit:v1'' @ [CHR 0x00]"

record abuse_limiters =
  al_loginKey :: limiter
  al_loginGlobal :: limiter
  al_refreshKey :: limiter
  al_refreshGlobal :: limiter
  al_registrationKey :: limiter
  al_registrationGlobal :: limiter
  al_verificationKey :: limiter
  al_verificationGlobal :: limiter

definition newAbuseLimiters :: abuse_limiters where
  "newAbuseLimiters = (let second = 1000000000; minute = 60 * second in
     \<lparr>al_loginKey = newFixedWindowLimiter 10 (15 * minute) 4096,
      al_loginGlobal = newFixedWindowLimiter 100 (15 * minute) 1,
      al_refreshKey = newFixedWindowLimiter 30 minute 4096,
      al_refreshGlobal = newFixedWindowLimiter 300 minute 1,
      al_registrationKey = newFixedWindowLimiter 5 (60 * minute) 4096,
      al_registrationGlobal = newFixedWindowLimiter 100 (60 * minute) 1,
      al_verificationKey = newFixedWindowLimiter 10 minute 4096,
      al_verificationGlobal = newFixedWindowLimiter 300 minute 1\<rparr>)"

text \<open>The global limiter first; the keyed one is asked, and counts, only when the global one allows.\<close>

definition allow_both :: "limiter \<Rightarrow> limiter \<Rightarrow> int \<Rightarrow> string \<Rightarrow> (bool \<times> int) \<times> limiter \<times> limiter" where
  "allow_both global keyed now key =
     (case allow global now globalLimitKey of
        ((False, retry), g) \<Rightarrow> ((False, retry), g, keyed)
      | ((True, _), g) \<Rightarrow> (case allow keyed now key of (r, k) \<Rightarrow> (r, g, k)))"

definition normalized_email :: "ext \<Rightarrow> (string \<Rightarrow> string option) \<Rightarrow> string \<Rightarrow> string" where
  "normalized_email x idna email =
     (case CanonicalizeEmail x idna email of
        Inr e \<Rightarrow> em_canonical e | Inl _ \<Rightarrow> to_lower x (trim_space email))"

definition allowLogin ::
  "ext \<Rightarrow> (string \<Rightarrow> string option) \<Rightarrow> int \<Rightarrow> string \<Rightarrow> abuse_limiters \<Rightarrow> (bool \<times> int) \<times> abuse_limiters" where
  "allowLogin x idna now email l =
     (case allow_both (al_loginGlobal l) (al_loginKey l) now
         (limitKey x (key_domain ''login'') (normalized_email x idna email)) of
        (r, g, k) \<Rightarrow> (r, l\<lparr>al_loginGlobal := g, al_loginKey := k\<rparr>))"

definition allowRefresh :: "ext \<Rightarrow> int \<Rightarrow> string \<Rightarrow> abuse_limiters \<Rightarrow> (bool \<times> int) \<times> abuse_limiters" where
  "allowRefresh x now token l =
     (case allow_both (al_refreshGlobal l) (al_refreshKey l) now (limitKey x (key_domain ''refresh'') token) of
        (r, g, k) \<Rightarrow> (r, l\<lparr>al_refreshGlobal := g, al_refreshKey := k\<rparr>))"

definition allowRegistration ::
  "ext \<Rightarrow> (string \<Rightarrow> string option) \<Rightarrow> int \<Rightarrow> string \<Rightarrow> abuse_limiters \<Rightarrow> (bool \<times> int) \<times> abuse_limiters" where
  "allowRegistration x idna now email l =
     (case allow_both (al_registrationGlobal l) (al_registrationKey l) now
         (limitKey x (key_domain ''registration'') (normalized_email x idna email)) of
        (r, g, k) \<Rightarrow> (r, l\<lparr>al_registrationGlobal := g, al_registrationKey := k\<rparr>))"

definition allowVerification :: "ext \<Rightarrow> int \<Rightarrow> string \<Rightarrow> abuse_limiters \<Rightarrow> (bool \<times> int) \<times> abuse_limiters" where
  "allowVerification x now token l =
     (case allow_both (al_verificationGlobal l) (al_verificationKey l) now
         (limitKey x (key_domain ''verification'') token) of
        (r, g, k) \<Rightarrow> (r, l\<lparr>al_verificationGlobal := g, al_verificationKey := k\<rparr>))"

section \<open>The table stays bounded\<close>

definition limiter_ok :: "limiter \<Rightarrow> bool" where
  "limiter_ok l \<longleftrightarrow>
     distinct (map fst (lm_entries l)) \<and> length (lm_entries l) \<le> lm_max l \<and> 0 < lm_max l \<and> 1 \<le> lm_limit l \<and>
     (\<forall>(k, e)\<in>set (lm_entries l). 1 \<le> le_count e \<and> le_count e \<le> lm_limit l)"

definition same_bounds :: "limiter \<Rightarrow> limiter \<Rightarrow> bool" where
  "same_bounds l l' \<longleftrightarrow> lm_limit l' = lm_limit l \<and> lm_window l' = lm_window l \<and> lm_max l' = lm_max l"

lemma set_entry_simps [simp]:
  "lm_limit (set_entry k e l) = lm_limit l" "lm_window (set_entry k e l) = lm_window l"
  "lm_max (set_entry k e l) = lm_max l"
  "map_of (lm_entries (set_entry k e l)) k' = (if k' = k then Some e else map_of (lm_entries l) k')"
  by (simp_all add: set_entry_def update_conv')

lemma length_update: "length (AList.update k e xs) = (if k \<in> fst ` set xs then length xs else Suc (length xs))"
  by (induction xs) auto

lemma set_update: "(k', e') \<in> set (AList.update k e xs) \<Longrightarrow> (k', e') = (k, e) \<or> (k', e') \<in> set xs"
  by (induction xs) (auto split: if_splits)

lemma set_entry_ok:
  assumes "limiter_ok l" and "1 \<le> le_count e" "le_count e \<le> lm_limit l"
    and "map_of (lm_entries l) k \<noteq> None \<or> length (lm_entries l) < lm_max l"
  shows "limiter_ok (set_entry k e l)"
proof -
  have "length (AList.update k e (lm_entries l)) \<le> lm_max l"
    using assms(1,4) by (auto simp: length_update limiter_ok_def map_of_eq_None_iff)
  moreover have "1 \<le> le_count e' \<and> le_count e' \<le> lm_limit l" if "(k', e') \<in> set (AList.update k e (lm_entries l))" for k' e'
    using set_update [OF that] assms(1-3) by (auto simp: limiter_ok_def)
  ultimately show ?thesis
    using assms(1) by (auto simp: limiter_ok_def set_entry_def distinct_update)
qed

lemma live_entries_ok: "limiter_ok l \<Longrightarrow> limiter_ok (l\<lparr>lm_entries := live_entries now l\<rparr>)"
  by (auto simp: limiter_ok_def live_entries_def distinct_map_filter intro: le_trans [OF length_filter_le])

lemma map_of_filter_value:
  "distinct (map fst xs) \<Longrightarrow> map_of (filter (\<lambda>(_, e). P e) xs) k =
     (case map_of xs k of Some e \<Rightarrow> if P e then Some e else None | None \<Rightarrow> None)"
proof (induction xs)
  case (Cons a xs)
  obtain k' e where a: "a = (k', e)" by (cases a)
  show ?case
  proof (cases "k = k'")
    case True
    with Cons.prems a have "map_of xs k = None" by (simp add: map_of_eq_None_iff)
    with Cons a True show ?thesis by simp
  qed (use Cons a in auto)
qed simp

lemma map_of_live:
  "limiter_ok l \<Longrightarrow> map_of (live_entries now l) k =
     (case map_of (lm_entries l) k of
        Some e \<Rightarrow> if stale (lm_window l) now e then None else Some e | None \<Rightarrow> None)"
  by (auto simp: live_entries_def limiter_ok_def map_of_filter_value split: option.split)

lemma allow_cases:
  assumes ok: "limiter_ok l" and run: "allow l now key = ((b, retry), l')"
  obtains (opened) "b" and "\<And>e. map_of (lm_entries l) key = Some e \<Longrightarrow> stale (lm_window l) now e"
      and "\<And>k. map_of (lm_entries l') k = (if k = key then Some (fresh_entry now) else map_of (lm_entries l) k) \<or>
        k \<noteq> key \<and> map_of (lm_entries l') k = None \<and> (\<exists>e. map_of (lm_entries l) k = Some e \<and> stale (lm_window l) now e)"
  | (counted) e where "b" and "map_of (lm_entries l) key = Some e" and "\<not> stale (lm_window l) now e"
      and "le_count e < lm_limit l" and "l' = set_entry key (e\<lparr>le_count := le_count e + 1\<rparr>) l"
  | (refused) "\<not> b" and "0 < retry" and
      "\<And>k. map_of (lm_entries l') k = map_of (lm_entries l) k \<or>
        map_of (lm_entries l') k = None \<and> (\<exists>e. map_of (lm_entries l) k = Some e \<and> stale (lm_window l) now e)"
proof (cases "map_of (lm_entries l) key")
  case (Some e)
  with run show thesis
    by (auto simp: allow_def positiveDuration_def split: if_splits intro: opened counted refused)
next
  case None
  have live: "map_of (live_entries now l) k = map_of (lm_entries l) k \<or>
      map_of (live_entries now l) k = None \<and> (\<exists>e. map_of (lm_entries l) k = Some e \<and> stale (lm_window l) now e)" for k
    by (auto simp: map_of_live [OF ok] split: option.split)
  consider "\<not> b" "l' = l\<lparr>lm_entries := live_entries now l\<rparr>" "0 < retry"
    | "b" "l' = set_entry key (fresh_entry now) (l\<lparr>lm_entries := live_entries now l\<rparr>)"
    | "b" "l' = set_entry key (fresh_entry now) l"
    using run None by (auto simp: allow_def Let_def positiveDuration_def split: if_splits)
  then show thesis
  proof cases
    case 1
    with live show thesis by (intro refused) auto
  next
    case 2
    with None live show thesis by (intro opened) auto
  next
    case 3
    with None show thesis by (intro opened) auto
  qed
qed

lemma allow_ok:
  assumes ok: "limiter_ok l" and run: "allow l now key = (r, l')"
  shows "limiter_ok l' \<and> same_bounds l l'"
proof (cases "map_of (lm_entries l) key")
  case (Some e)
  then have "(key, e) \<in> set (lm_entries l)" by (rule map_of_SomeD)
  with ok have "1 \<le> le_count e" "1 \<le> lm_limit l" by (auto simp: limiter_ok_def)
  with run Some ok show ?thesis
    by (auto simp: allow_def same_bounds_def fresh_entry_def intro!: set_entry_ok split: if_splits)
next
  case None
  let ?l = "l\<lparr>lm_entries := live_entries now l\<rparr>"
  have 1: "1 \<le> lm_limit l" using ok by (simp add: limiter_ok_def)
  consider "l' = ?l" | "l' = set_entry key (fresh_entry now) ?l" "length (live_entries now l) < lm_max l"
    | "l' = set_entry key (fresh_entry now) l" "length (lm_entries l) < lm_max l"
    using run None by (auto simp: allow_def Let_def split: if_splits)
  then show ?thesis
    by cases (use ok live_entries_ok [OF ok] 1 in \<open>auto simp: same_bounds_def fresh_entry_def intro!: set_entry_ok\<close>)
qed

section \<open>At most twice the limit in any window\<close>

text \<open>
  The requests of a log are answered in order. A fixed window lets at most its limit pass, so that an
  interval of one window's length, which meets two windows at most, lets at most twice the limit pass.
\<close>

fun serve :: "limiter \<Rightarrow> (int \<times> string) list \<Rightarrow> bool list \<times> limiter" where
  "serve l [] = ([], l)"
| "serve l ((now, key) # reqs) =
     (case allow l now key of ((b, _), l') \<Rightarrow> (case serve l' reqs of (bs, l'') \<Rightarrow> (b # bs, l'')))"

definition admitted :: "string \<Rightarrow> (int \<times> string) list \<Rightarrow> bool list \<Rightarrow> int list" where
  "admitted k reqs bs = map (fst \<circ> fst) (filter (\<lambda>((_, key), b). b \<and> key = k) (zip reqs bs))"

definition window_ok :: "int \<Rightarrow> int \<Rightarrow> int \<Rightarrow> int \<Rightarrow> int list \<Rightarrow> bool" where
  "window_ok w limit s c A \<longleftrightarrow>
     0 \<le> c \<and> c \<le> limit \<and> (\<forall>a\<in>set A. a < s + w) \<and> int (length (filter (\<lambda>a. s \<le> a) A)) \<le> c \<and>
     (\<forall>t. s - w < t \<longrightarrow> int (length (filter (\<lambda>a. t \<le> a) A)) \<le> limit + c) \<and>
     (\<forall>t. int (length (filter (\<lambda>a. t \<le> a \<and> a < t + w) A)) \<le> 2 * limit)"

lemma window_ok_Nil: "0 \<le> limit \<Longrightarrow> window_ok w limit s 0 []"
  by (simp add: window_ok_def)

lemma count_mono: "(\<And>a. P a \<Longrightarrow> Q a) \<Longrightarrow> length (filter P A) \<le> length (filter Q A)"
  by (induction A) auto

lemma window_ok_open:
  assumes ok: "window_ok w limit s c A" and over: "s + w \<le> now" and "1 \<le> limit" "0 < w"
  shows "window_ok w limit now 1 (A @ [now])"
proof -
  have after: "int (length (filter (\<lambda>a. t \<le> a) A)) \<le> limit" if "now - w < t" for t
    using ok count_mono [of "\<lambda>a. t \<le> a" "\<lambda>a. s \<le> a" A] that over by (force simp: window_ok_def)
  have none: "filter (\<lambda>a. now \<le> a) A = []"
    using ok over by (fastforce simp: window_ok_def filter_empty_conv)
  have inside: "int (length (filter (\<lambda>a. t \<le> a \<and> a < t + w) A)) \<le> limit" if "now < t + w" for t
    using after [of t] count_mono [of "\<lambda>a. t \<le> a \<and> a < t + w" "\<lambda>a. t \<le> a" A] that by simp
  have "int (length (filter (\<lambda>a. t \<le> a) (A @ [now]))) \<le> limit + 1" if "now - w < t" for t
    using after [OF that] by simp
  moreover have "int (length (filter (\<lambda>a. t \<le> a \<and> a < t + w) (A @ [now]))) \<le> 2 * limit" for t
  proof (cases "now < t + w")
    case True
    with inside [OF True] assms(3) show ?thesis by simp
  next
    case False
    with ok show ?thesis by (simp add: window_ok_def)
  qed
  moreover have "\<forall>a\<in>set (A @ [now]). a < now + w"
    using ok over assms(4) by (fastforce simp: window_ok_def)
  ultimately show ?thesis
    using none assms(3) unfolding window_ok_def by simp
qed

lemma window_ok_count:
  assumes ok: "window_ok w limit s c A" and "s \<le> now" "now < s + w" "c < limit"
  shows "window_ok w limit s (c + 1) (A @ [now])"
proof -
  have inside: "int (length (filter (\<lambda>a. t \<le> a \<and> a < t + w) A)) \<le> limit + c" if "now < t + w" for t
  proof -
    have "s - w < t" using that assms(2) by simp
    with ok have "int (length (filter (\<lambda>a. t \<le> a) A)) \<le> limit + c" by (simp add: window_ok_def)
    with count_mono [of "\<lambda>a. t \<le> a \<and> a < t + w" "\<lambda>a. t \<le> a" A] show ?thesis by simp
  qed
  have "int (length (filter (\<lambda>a. t \<le> a \<and> a < t + w) (A @ [now]))) \<le> 2 * limit" for t
    using ok inside [of t] assms(4) by (cases "now < t + w") (auto simp: window_ok_def)
  moreover have "int (length (filter (\<lambda>a. t \<le> a) (A @ [now]))) \<le> limit + (c + 1)" if "s - w < t" for t
    using ok that by (auto simp: window_ok_def)
  ultimately show ?thesis using ok assms(2-4) unfolding window_ok_def by auto
qed

definition tracked :: "limiter \<Rightarrow> string \<Rightarrow> int \<Rightarrow> int list \<Rightarrow> bool" where
  "tracked l k T A \<longleftrightarrow>
     (\<exists>s c. window_ok (lm_window l) (lm_limit l) s c A \<and> s \<le> T \<and>
        (case map_of (lm_entries l) k of
           Some e \<Rightarrow> s = le_started e \<and> c = le_count e | None \<Rightarrow> s + lm_window l \<le> T))"

lemma tracked_kept:
  assumes "tracked l k T A" and "T \<le> now" and "same_bounds l l'"
    and "map_of (lm_entries l') k = map_of (lm_entries l) k \<or>
      map_of (lm_entries l') k = None \<and> (\<exists>e. map_of (lm_entries l) k = Some e \<and> stale (lm_window l) now e)"
  shows "tracked l' k now A"
proof -
  from assms(1) obtain s c where *: "window_ok (lm_window l) (lm_limit l) s c A" "s \<le> T"
      "case map_of (lm_entries l) k of Some e \<Rightarrow> s = le_started e \<and> c = le_count e | None \<Rightarrow> s + lm_window l \<le> T"
    by (auto simp: tracked_def)
  then have "case map_of (lm_entries l') k of Some e \<Rightarrow> s = le_started e \<and> c = le_count e
      | None \<Rightarrow> s + lm_window l \<le> now"
    using assms(2,4) by (auto simp: stale_def split: option.splits)
  then have "case map_of (lm_entries l') k of Some e \<Rightarrow> s = le_started e \<and> c = le_count e
      | None \<Rightarrow> s + lm_window l' \<le> now"
    using assms(3) by (simp add: same_bounds_def cong: option.case_cong)
  moreover have "window_ok (lm_window l') (lm_limit l') s c A" "s \<le> now"
    using * assms(2,3) by (simp_all add: same_bounds_def)
  ultimately show ?thesis unfolding tracked_def by blast
qed

lemma tracked_step:
  assumes ok: "limiter_ok l" and pos: "0 < lm_window l" and tr: "tracked l k T A" and now: "T \<le> now"
    and run: "allow l now key = ((b, retry), l')"
  shows "tracked l' k now (A @ (if b \<and> key = k then [now] else []))"
proof -
  have bounds: "same_bounds l l'" using allow_ok [OF ok run] by simp
  have limit: "1 \<le> lm_limit l" using ok by (simp add: limiter_ok_def)
  from tr obtain s c where *: "window_ok (lm_window l) (lm_limit l) s c A" "s \<le> T"
      "case map_of (lm_entries l) k of Some e \<Rightarrow> s = le_started e \<and> c = le_count e | None \<Rightarrow> s + lm_window l \<le> T"
    by (auto simp: tracked_def)
  from ok run show ?thesis
  proof (cases rule: allow_cases)
    case opened
    show ?thesis
    proof (cases "key = k")
      case True
      have "s + lm_window l \<le> now"
        using * now opened(2) True by (cases "map_of (lm_entries l) k") (auto simp: stale_def)
      moreover have "map_of (lm_entries l') k = Some (fresh_entry now)" using opened(3) [of k] True by auto
      ultimately show ?thesis
        using window_ok_open [OF *(1) _ limit pos, of now] bounds opened(1) True
        by (auto simp: tracked_def same_bounds_def fresh_entry_def)
    next
      case False
      with tracked_kept [OF tr now bounds] opened(3) [of k] show ?thesis by simp
    qed
  next
    case (counted e)
    show ?thesis
    proof (cases "key = k")
      case True
      then have "s \<le> now" "now < s + lm_window l" "c < lm_limit l" "s = le_started e" "c = le_count e"
        using * now counted by (auto simp: stale_def)
      with window_ok_count [OF *(1)] counted bounds True show ?thesis
        by (auto simp: tracked_def same_bounds_def)
    next
      case False
      with tracked_kept [OF tr now bounds] counted(5) show ?thesis by simp
    qed
  next
    case refused
    with tracked_kept [OF tr now bounds] show ?thesis by simp
  qed
qed

lemma tracked_serve:
  assumes "limiter_ok l" "0 < lm_window l" "tracked l k T A" "sorted (T # map fst reqs)"
    and "serve l reqs = (bs, l')"
  shows "length bs = length reqs \<and> limiter_ok l' \<and> same_bounds l l' \<and>
    (\<exists>T'. tracked l' k T' (A @ admitted k reqs bs))"
  using assms
proof (induction reqs arbitrary: l T A bs l')
  case Nil
  then show ?case by (auto simp: admitted_def same_bounds_def)
next
  case (Cons r reqs)
  obtain now key where r: "r = (now, key)" by (cases r)
  obtain b retry l1 where a: "allow l now key = ((b, retry), l1)" by (metis prod.exhaust)
  obtain bs1 l2 where s: "serve l1 reqs = (bs1, l2)" by (cases "serve l1 reqs")
  have bs: "bs = b # bs1" "l' = l2" using Cons.prems(5) a s r by auto
  have now: "T \<le> now" "sorted (now # map fst reqs)" using Cons.prems(4) r by auto
  note ok = allow_ok [OF Cons.prems(1) a]
  have "0 < lm_window l1" using ok Cons.prems(2) by (simp add: same_bounds_def)
  from Cons.IH [OF conjunct1 [OF ok] this tracked_step [OF Cons.prems(1,2,3) now(1) a] now(2) s] ok
  show ?case
    by (auto simp: bs r admitted_def same_bounds_def)
qed

lemma serve_bound:
  assumes ok: "1 \<le> limit" "0 < window" "0 < maxKeys" and times: "sorted (map fst reqs)"
    and run: "serve (newFixedWindowLimiter limit window maxKeys) reqs = (bs, l')"
  shows "int (length (filter (\<lambda>a. t \<le> a \<and> a < t + window) (admitted k reqs bs))) \<le> 2 * limit"
proof -
  let ?l = "newFixedWindowLimiter limit window maxKeys"
  define T where "T = (case reqs of [] \<Rightarrow> 0 | r # _ \<Rightarrow> fst r)"
  have "limiter_ok ?l" using ok by (simp add: limiter_ok_def newFixedWindowLimiter_def)
  moreover have "tracked ?l k T []"
    unfolding tracked_def using ok
    by (intro exI [of _ "T - window"] exI [of _ 0]) (simp add: newFixedWindowLimiter_def window_ok_Nil)
  moreover have "sorted (T # map fst reqs)" using times by (cases reqs) (auto simp: T_def)
  moreover have "0 < lm_window ?l" using ok by (simp add: newFixedWindowLimiter_def)
  ultimately obtain T' where "tracked l' k T' ([] @ admitted k reqs bs)" "same_bounds ?l l'"
    using tracked_serve run by blast
  then show ?thesis
    by (auto simp: tracked_def window_ok_def same_bounds_def newFixedWindowLimiter_def)
qed

text \<open>A refusal names a wait after which the key is let through, when the clock does not go back.\<close>

lemma allow_full:
  assumes "map_of (lm_entries l) key = Some e" and "\<not> stale (lm_window l) now e" and "lm_limit l \<le> le_count e"
  shows "allow l now key = ((False, le_started e + lm_window l - now), l)"
    and "fst (allow l (now + (le_started e + lm_window l - now)) key) = (True, 0)"
  using assms by (auto simp: allow_def positiveDuration_def stale_def)

end
