(* ===== verification/Example.thy ===== *)
theory Example
  imports System_Safety Limiter
begin

text \<open>
  A small concrete state for the closed examples: one account with one device, the folder its first
  submission creates, and a configuration of the server whose external functions are simple enough to
  evaluate. The digest of the example is the last 32 bytes of its argument.
\<close>

section \<open>The configuration\<close>

definition demo_digest :: "string \<Rightarrow> string" where
  "demo_digest s = take 32 (rev s @ replicate 32 (CHR 0x00))"

definition demo_ext :: ext where
  "demo_ext = sample_ext\<lparr>x_sha256 := demo_digest, x_uuid_version := (\<lambda>_. 7),
     x_uuid_rfc4122 := (\<lambda>_. True)\<rparr>"

lemma demo_ext_simps [simp]:
  "x_nfc demo_ext = (\<lambda>s. s)" "x_fold demo_ext = map ascii_lower"
  "x_sha256 demo_ext = demo_digest"
  "x_uuid_version demo_ext = (\<lambda>_. 7)" "x_uuid_rfc4122 demo_ext = (\<lambda>_. True)"
  "x_uuid_string demo_ext = sample_uuid_string"
  by (simp_all add: demo_ext_def)

lemma demo_digest_simps [simp]:
  "length (demo_digest s) = 32" "length raw = 32 \<Longrightarrow> demo_digest (domain @ raw) = rev raw"
  by (simp_all add: demo_digest_def)

definition demo_argon :: argon where
  "demo_argon pw salt t m p n = replicate n (CHR ''k'')"

definition demo_world :: world where
  "demo_world = \<lparr>w_ext = demo_ext, w_idna = sample_idna, w_argon = demo_argon,
     w_params = ProductionArgon2Params, w_codec = sample_aead\<rparr>"

lemma demo_world_simps [simp]:
  "w_ext demo_world = demo_ext" "w_idna demo_world = sample_idna" "w_argon demo_world = demo_argon"
  "w_params demo_world = ProductionArgon2Params" "w_codec demo_world = sample_aead"
  by (simp_all add: demo_world_def)

lemma demo_hasher: "newPasswordHasher ProductionArgon2Params = Inr ProductionArgon2Params"
  by (simp add: newPasswordHasher_def ProductionArgon2Params_def cost_ok_def)

lemma demo_argon_law: "argon_law demo_argon"
  by (simp add: argon_law_def demo_argon_def)

lemma demo_world_ok: "world_ok demo_world"
  by (simp add: world_ok_def demo_hasher demo_argon_law sample_aead_law)

section \<open>An account and its device\<close>

definition alice :: uuid where
  "alice = 1"

definition phone :: uuid where
  "phone = 2"

definition alice_row :: user_row where
  "alice_row = \<lparr>usr_id = alice, usr_delivery = ''a@b'', usr_canonical = ''a@b'',
     usr_password = dummyEncoded ProductionArgon2Params, usr_policy = 1, usr_status = UserActive,
     usr_created = 0, usr_verified = Some 0\<rparr>"

definition phone_row :: device_row where
  "phone_row = \<lparr>dev_user = alice, dev_id = phone, dev_name = ''P'', dev_status = Active,
     dev_created = 0, dev_updated = 0, dev_revoked = None\<rparr>"

definition demo_db :: db where
  "demo_db = empty_db\<lparr>users := [alice_row], devices := [phone_row]\<rparr>"

definition demo_actor :: actor where
  "demo_actor = \<lparr>a_user = alice, a_device = phone\<rparr>"

lemma demo_db_simps [simp]:
  "users demo_db = [alice_row]" "devices demo_db = [phone_row]" "sessions demo_db = []"
  "access_tokens demo_db = []" "refresh_tokens demo_db = []" "verifications demo_db = []"
  "outbox demo_db = []" "objects demo_db = []" "operations demo_db = []" "versions demo_db = []"
  "changes demo_db = []" "counters demo_db = []" "entitlements demo_db = []"
  by (simp_all add: demo_db_def empty_db_def)

lemma demo_rows [simp]:
  "usr_id alice_row = alice" "usr_status alice_row = UserActive" "dev_user phone_row = alice"
  "dev_id phone_row = phone" "dev_status phone_row = Active" "a_user demo_actor = alice"
  "a_device demo_actor = phone" "usr_canonical alice_row = ''a@b''"
  "usr_password alice_row = dummyEncoded ProductionArgon2Params" "usr_verified alice_row = Some 0"
  by (simp_all add: alice_row_def phone_row_def demo_actor_def)

lemma demo_sync_inv: "sync_inv demo_db"
  by (simp add: sync_inv_def objects_ok_def notes_have_blobs_def tree_ok_def history_ok_def parent_rel_def
      loadObject_def changes_of_user_def last_cursor_def acyclic_def)

lemma demo_session_inv: "session_inv demo_db"
  by (simp add: session_inv_def one_live_def)

lemma demo_password: "\<exists>p. parsePHC (dummyEncoded ProductionArgon2Params) = Inr p"
  using newPasswordHasher_InrD [OF demo_hasher] by (simp add: dummyEncoded_def parsePHC_phc)

lemma demo_identity_inv: "identity_inv demo_ext sample_aead demo_db"
  using demo_password unfolding identity_inv_def user_ok_def by simp

lemma demo_system_inv: "system_inv demo_world demo_db"
  by (simp add: system_inv_def demo_sync_inv demo_session_inv demo_identity_inv)

lemma demo_active: "requireActiveActor demo_actor demo_db = Inr ()"
  by (simp add: requireActiveActor_def user_active_def device_active_def)

section \<open>Its first submission\<close>

definition create_a :: mutation where
  "create_a = \<lparr>m_operation = 17, m_kind = MutationCreate, m_object = 33, m_type = ObjectFolder, m_base = 0,
     m_parent = None, m_name = ''A'', m_blob = []\<rparr>"

definition intent_a :: intent where
  "intent_a = as_intent create_a ''A'' (map ascii_lower ''A'')"

definition hash_a :: string where
  "hash_a = demo_digest (canonical_json demo_ext intent_a)"

lemma length_hash_a [simp]: "length hash_a = 32"
  by (simp add: hash_a_def)

lemma intent_a_simps [simp]:
  "m_operation intent_a = 17" "m_kind intent_a = MutationCreate" "m_object intent_a = 33"
  "m_type intent_a = ObjectFolder" "m_base intent_a = 0" "m_parent intent_a = None"
  "m_name intent_a = ''A''" "m_blob intent_a = []" "i_key intent_a = map ascii_lower ''A''"
  by (simp_all add: intent_a_def create_a_def as_intent_simps)

lemma name_a: "normalizeName demo_ext ''A'' = Inr (''A'', map ascii_lower ''A'')"
proof -
  have ascii: "is_ascii ''A''" by (simp add: is_ascii_def code_def)
  have "\<not> list_ex forbidden_rune (runes ''A'')"
    by (simp add: runes_ascii [OF ascii] forbidden_rune_def forbidden_chars_def code_def)
  moreover have "to_upper demo_ext ''A'' = ''A''"
    by (simp add: to_upper_def ascii ascii_upper_def in_range_def code_def)
  moreover have "cut_before (CHR ''.'') ''A'' = ''A''" by (simp add: cut_before_def)
  moreover have "trim_right '' .'' ''A'' = ''A''" by (simp add: trim_right_def)
  ultimately have "\<not> reservedDevice demo_ext ''A''" "\<not> list_ex forbidden_rune (runes ''A'')"
    by (simp_all add: reservedDevice_def superscript_digits_def)
  then show ?thesis
    by (simp add: normalizeName_def maxNameBytes_def has_suffix_def Let_def valid_utf8_ascii [OF ascii]
        del: runes.simps valid_utf8.simps)
qed

lemma canonicalize_a: "canonicalize demo_ext create_a = Inr (intent_a, hash_a)"
  using name_a
  by (simp add: canonicalize_def create_a_def hash_a_def intent_a_def isReservedConflictFolder_def ConflictRootID_def
      ConflictRecoveredID_def mutation_shape_def as_intent_simps validV7_def validObjectID_def uuid_nil_def)

lemma evaluate_a: "evaluate demo_ext demo_db alice intent_a None = Inr None"
proof -
  have "validate_target demo_ext [''A''] = Inr ()"
    by (simp add: validate_target_def reserved_conflict_path_def validateLogicalPath_def path_key_def
        cut_before_def maxPathBytes_def Let_def)
  then show ?thesis
    by (simp add: evaluate_def object_conflict_def place_conflict_def parent_available_def
        validateTargetPath_def path_taken_def)
qed

definition object_a :: obj_row where
  "object_a = created_row alice intent_a 5"

definition operation_a :: op_row where
  "operation_a = operation_row demo_actor intent_a (hash_a) 5 (accepted_result 1 1)"

definition demo_db1 :: db where
  "demo_db1 = demo_db\<lparr>objects := [object_a], counters := [(alice, 1)], operations := [operation_a],
     versions := [version_of object_a 17 5], changes := [change_of object_a 1 17 MutationCreate 5]\<rparr>"

lemma object_a_simps [simp]:
  "o_user object_a = alice" "o_id object_a = 33" "o_type object_a = ObjectFolder" "o_rev object_a = 1"
  "o_parent object_a = None" "o_blob object_a = None" "o_deleted object_a = False"
  "o_name object_a = ''A''" "o_key object_a = map ascii_lower ''A''"
  by (simp_all add: object_a_def created_row_def nullableBytes_def)

lemma operation_a_simps [simp]:
  "op_user operation_a = alice" "op_id operation_a = 17" "op_hash operation_a = hash_a"
  "op_device operation_a = phone" "op_mutation operation_a = MutationCreate" "op_type operation_a = ObjectFolder"
  "op_object operation_a = 33" "op_base operation_a = 0" "op_blob operation_a = None"
  "op_accepted operation_a = True" "op_conflict operation_a = None" "op_revision operation_a = Some 1"
  "op_cursor operation_a = Some 1" "op_c_revision operation_a = None" "op_c_type operation_a = None"
  "op_c_parent operation_a = None" "op_c_name operation_a = None" "op_c_blob operation_a = None"
  "op_c_deleted operation_a = None"
  by (simp_all add: operation_a_def operation_row_def accepted_result_def nullableBytes_def)

lemma mutate_a:
  "mutate_object demo_actor intent_a 5 None demo_db = Inr (object_a, demo_db\<lparr>objects := [object_a]\<rparr>)"
  by (simp add: mutate_object_def Let_def insert_object_def objects_ok_def object_row_ok_def int64_def
      user_exists_def blob_column_def blob_entitled_def content_shape_def flip: object_a_def)

lemma write_history_a:
  "write_history demo_actor intent_a (hash_a) 5 object_a 1
     (demo_db\<lparr>objects := [object_a], counters := [(alice, 1)]\<rparr>) = Inr demo_db1"
proof -
  let ?d = "demo_db\<lparr>objects := [object_a], counters := [(alice, 1)]\<rparr>"
  have "operation_row demo_actor intent_a (hash_a) 5 (accepted_result (o_rev object_a) 1) = operation_a"
    by (simp add: operation_a_def)
  then have 1: "insertOperation demo_actor intent_a (hash_a) 5 (accepted_result (o_rev object_a) 1) ?d =
      Inr (?d\<lparr>operations := [operation_a]\<rparr>)"
    by (simp add: insertOperation_def insert_operation_row_def operation_row_ok_def operation_at_def
        user_exists_def device_exists_def known_kind_def known_type_def int64_def blob_column_def)
  have 2: "insert_version (version_of object_a 17 5) (?d\<lparr>operations := [operation_a]\<rparr>) =
      Inr (?d\<lparr>operations := [operation_a], versions := [version_of object_a 17 5]\<rparr>)"
    by (simp add: insert_version_def version_row_ok_def version_at_def version_of_def loadObject_def okey_def
        operation_at_def opkey_def int64_def blob_column_def blob_entitled_def content_shape_def)
  have 3: "insert_change (change_of object_a 1 17 MutationCreate 5)
      (?d\<lparr>operations := [operation_a], versions := [version_of object_a 17 5]\<rparr>) = Inr demo_db1"
    by (simp add: demo_db1_def insert_change_def change_row_ok_def change_of_def version_at_def version_of_def
        verkey_def chgkey_def operation_at_def opkey_def int64_def known_kind_def)
  show ?thesis unfolding write_history_def 1 rbind_simps intent_a_simps 2 3 ..
qed

lemma submit_a: "Submit demo_ext demo_actor 5 [] create_a demo_db = (Inr (accepted_result 1 1), demo_db1)"
proof -
  have "replay demo_actor demo_db 17 (hash_a) = Inr None"
    by (simp add: replay_def operation_at_def)
  moreover have "submit_accepted demo_actor 5 intent_a (hash_a) None demo_db =
      Inr (accepted_result 1 1, demo_db1)"
    using mutate_a write_history_a
    by (simp add: submit_accepted_def allocateCursor_def last_cursor_def user_exists_def int64_def set_counter_def)
  ultimately show ?thesis
    using evaluate_a
    by (simp add: Submit_def submit_tx_def canonicalize_a demo_active needs_blob_def loadObject_def run_tx_def)
qed

lemma demo_sync_inv1: "sync_inv demo_db1"
  using Submit_keeps [OF demo_sync_inv, of demo_ext demo_actor 5 "[]" create_a] by (simp add: submit_a)

lemma demo_cursor1 [simp]: "last_cursor demo_db1 alice = 1"
  by (simp add: demo_db1_def last_cursor_def)

lemma demo_load1: "loadObject demo_db1 alice 33 = Some object_a"
  by (simp add: loadObject_def demo_db1_def okey_def)

lemma demo_system_inv1: "system_inv demo_world demo_db1"
  using system_inv_step [OF demo_world_ok _ demo_system_inv, of demo_db1]
    submits [of demo_world demo_db demo_actor 5 "[]" create_a]
  by (simp add: submit_a)

lemma demo_active1: "requireActiveActor demo_actor demo_db1 = Inr ()"
  by (simp add: requireActiveActor_def user_active_def device_active_def demo_db1_def)

definition preserve_a :: preserve_request where
  "preserve_a = \<lparr>q_operation = 65, q_conflict_operation = 66, q_folder = 33, q_expected_revision = 1,
     q_known_cursor = 1, q_version = 4\<rparr>"

end
