(* ===== verification/Properties_Sync.thy ===== *)
theory Properties_Sync
  imports Example Sync_Feed
begin

text \<open>
  The properties of the synchronization core, each with a closed example.
\<close>

section \<open>Submission\<close>



section \<open>Pulling\<close>



text \<open>C16: a client that pulls page after page, with any page size and from any cursor, until the server
  says there is no more, has received exactly the changes after that cursor, and does so after finitely
  many pages.\<close>

theorem pull_collects_the_feed:
  assumes "sync_inv d" and "0 < l"
  shows "collect_pages (Suc (length (change_feed d u))) (pull_triple (d, u) l) n = Some (drop n (change_feed d u))"
  using pull.collect_all [of "(d, u)" l n "Suc (length (change_feed d u))"] assms by simp

theorem pull_collects_the_feed_witness:
  "collect_pages (Suc (length (change_feed demo_db1 alice))) (pull_triple (demo_db1, alice) 1) 0 =
     Some (change_feed demo_db1 alice) \<and> change_feed demo_db1 alice \<noteq> []"
proof -
  have "length (change_feed demo_db1 alice) = 1" using length_change_feed [OF demo_sync_inv1, of alice] by simp
  moreover have "(0::nat) < 1" by simp
  ultimately show ?thesis
    using pull_collects_the_feed [OF demo_sync_inv1, where l = 1 and u = alice and n = 0]
    by (metis drop0 length_0_conv zero_neq_one)
qed

text \<open>C17: whoever replays the feed from the start, the last state of an object winning, holds the account's
  object table: the same objects with type, revision, parent, name, content and deletion mark.\<close>

theorem replay_of_feed_is_object_table:
  assumes "sync_inv d"
  shows "rel_option (\<lambda>v r. shows_object v r) (replica (change_feed d u) i) (loadObject d u i)"
  using assms by (rule replica_feed)

theorem replay_of_feed_is_object_table_witness:
  "\<exists>v. replica (change_feed demo_db1 alice) 33 = Some v \<and> shows_object v object_a"
  using replay_of_feed_is_object_table [OF demo_sync_inv1, of alice 33] by (auto simp: demo_load1 option_rel_Some2)

section \<open>Preserve and delete\<close>

text \<open>C18: a preserve-and-delete never loses a note. Whatever its outcome, every note of every account is
  still there with its name, content and deletion mark, at a revision that has not gone back; a folder
  is what it was or a later tombstone; and the other accounts see no change.\<close>

theorem preserve_keeps_notes:
  assumes "sync_inv d"
  shows "keeps_notes u d (snd (PreserveAndDeleteEmptyFolder x a now fresh r d)) \<and>
    keeps_folders u d (snd (PreserveAndDeleteEmptyFolder x a now fresh r d)) \<and>
    (u \<noteq> a_user a \<longrightarrow> user_view (snd (PreserveAndDeleteEmptyFolder x a now fresh r d)) u = user_view d u)"
  using preserve_notes [OF assms] preserve_view [OF assms] by blast

theorem preserve_keeps_notes_witness:
  "keeps_notes alice demo_db1 (snd (PreserveAndDeleteEmptyFolder demo_ext demo_actor 6 [] preserve_a demo_db1))"
  using preserve_keeps_notes [OF demo_sync_inv1] by blast



end
