(* ===== verification/Example_Accounts.thy ===== *)
theory Example_Accounts
  imports Example
begin

text \<open>
  The example state continued: a registration on the empty database, a log in of the example account
  and one refresh of its tokens.
\<close>

section \<open>Address and password\<close>

definition demo_email :: email where
  "demo_email = \<lparr>em_delivery = address ''a'' ''b'', em_canonical = address ''a'' ''b''\<rparr>"

lemma demo_parts: "address_parts ''a'' ''b''"
  by (simp add: address_parts_def validDotAtom_def isAText_def in_range_def code_def dot_def ldh_def
      valid_label_def hyphen_def ascii_lower_def)

lemma demo_email_canonical:
  "CanonicalizeEmail demo_ext sample_idna (address ''a'' ''b'') = Inr demo_email"
proof -
  have "sample_idna ''b'' = Some ''b''" by (simp add: sample_idna_def ldh_def in_range_def code_def)
  moreover have "map ascii_lower ''a'' = ''a''" by (simp add: ascii_lower_def in_range_def code_def)
  ultimately show ?thesis
    using CanonicalizeEmail_parts [OF demo_parts, of sample_idna demo_ext] by (simp add: demo_email_def)
qed

definition demo_password_text :: string where
  "demo_password_text = replicate 15 (CHR ''p'')"

definition demo_salt :: string where
  "demo_salt = replicate 16 (CHR ''s'')"

definition demo_hash :: string where
  "demo_hash = phc ProductionArgon2Params demo_salt (replicate 32 (CHR ''k''))"

lemma demo_password_valid: "validateNewPassword demo_password_text"
proof -
  have ascii: "is_ascii demo_password_text"
    by (simp add: demo_password_text_def is_ascii_def list_all_iff code_def)
  then show ?thesis
    by (simp add: validateNewPassword_def valid_utf8_ascii rune_count_def runes_ascii)
      (simp add: demo_password_text_def)
qed

lemma production_simps [simp]:
  "ap_salt ProductionArgon2Params = 16" "ap_hash ProductionArgon2Params = 32"
  by (simp_all add: ProductionArgon2Params_def)

lemma demo_hash_ok:
  "Hash demo_argon ProductionArgon2Params demo_password_text (demo_salt @ rest) = Inr (demo_hash, rest)"
  using demo_password_valid
  by (simp add: Hash_def demo_salt_def demo_hash_def demo_argon_def Let_def)

section \<open>Identifiers\<close>

definition demo_bytes :: string where
  "demo_bytes = replicate 16 (CHR ''u'')"

definition demo_id :: uuid where
  "demo_id = (case newUUIDv7 5 demo_bytes of Inr (u, _) \<Rightarrow> u | Inl _ \<Rightarrow> 0)"

lemma newUUIDv7_demo: "newUUIDv7 5 (demo_bytes @ rest) = Inr (demo_id, rest)"
  by (simp add: newUUIDv7_def read_full_def demo_id_def demo_bytes_def)

lemma demo_id_not_nil: "demo_id \<noteq> 0"
proof -
  have "session_validV7 sample_ext demo_id"
    using newUUIDv7_valid [OF sample_uuid_layout newUUIDv7_demo [of "[]"]] .
  then show ?thesis by (simp add: session_validV7_def uuid_nil_def)
qed

section \<open>A registration\<close>

definition demo_token :: string where
  "demo_token = replicate 32 (CHR ''t'')"

definition demo_nonce :: string where
  "demo_nonce = replicate 12 (CHR ''n'')"

definition demo_random :: string where
  "demo_random = demo_salt @ demo_bytes @ demo_token @ demo_nonce"

definition demo_registration :: registration where
  "demo_registration = \<lparr>reg_created = True, reg_user = demo_id, reg_token = b64_encode demo_token\<rparr>"

definition demo_sealed :: string where
  "demo_sealed = demo_token @ sample_tag demo_nonce (associatedData demo_id)"

definition demo_registered :: db where
  "demo_registered = empty_db\<lparr>
     users := [\<lparr>usr_id = demo_id, usr_delivery = em_delivery demo_email, usr_canonical = em_canonical demo_email,
       usr_password = demo_hash, usr_policy = 1, usr_status = PendingVerification, usr_created = 5,
       usr_verified = None\<rparr>],
     verifications := [\<lparr>evr_user = demo_id, evr_hash = hashVerificationToken demo_ext demo_token, evr_issued = 5,
       evr_expires = 5 + VerificationTTL\<rparr>],
     outbox := [\<lparr>eob_user = demo_id, eob_recipient = em_delivery demo_email, eob_nonce = demo_nonce,
       eob_ciphertext = demo_sealed, eob_created = 5, eob_next = 5, eob_attempts = 0\<rparr>]\<rparr>"

lemma demo_seal:
  "Seal sample_aead demo_nonce demo_id demo_token =
     Inr ((demo_nonce, demo_sealed), [])"
  using demo_id_not_nil
  by (simp add: Seal_def uuid_nil_def demo_token_def demo_nonce_def sample_aead_def Let_def demo_sealed_def)

lemma demo_register_tx:
  "register_tx demo_ext 5 demo_id demo_email demo_hash demo_token demo_nonce demo_sealed empty_db =
     (Inr demo_registration, demo_registered)"
proof -
  have "is_ascii (address ''a'' ''b'')"
    by (simp add: address_def is_ascii_def code_def at_sign_def)
  then have "rune_count (address ''a'' ''b'') = 3"
    by (simp only: rune_count_def runes_ascii length_map) (simp add: address_def)
  moreover have "length (hashVerificationToken demo_ext demo_token) = 32" by (simp add: hashVerificationToken_def)
  moreover have "length demo_nonce = 12" "length demo_sealed = 48"
    by (simp_all add: demo_nonce_def demo_token_def demo_sealed_def length_sample_tag)
  ultimately show ?thesis
    by (simp add: register_tx_def registration_rows_def insert_user_def user_at_def user_by_email_def empty_db_def
        PasswordPolicyVersion_def insert_verification_def VerificationTTL_def user_exists_def insert_outbox_def
        demo_email_def demo_registration_def demo_registered_def)
qed

lemma demo_register:
  "Register demo_ext sample_idna demo_argon ProductionArgon2Params (Some sample_aead) 5 demo_random
     (address ''a'' ''b'') demo_password_text empty_db = (Inr demo_registration, demo_registered)"
proof -
  let ?run = "Register demo_ext sample_idna demo_argon ProductionArgon2Params (Some sample_aead) 5 demo_random
     (address ''a'' ''b'') demo_password_text empty_db"
  have "?run = register_tx demo_ext 5 demo_id demo_email demo_hash demo_token demo_nonce demo_sealed empty_db"
    using demo_hash_ok [of "demo_bytes @ demo_token @ demo_nonce"] newUUIDv7_demo [of "demo_token @ demo_nonce"] demo_seal
    by (simp add: Register_def demo_email_canonical demo_random_def identity_newUUIDv7_def tokenBytes_def Let_def)
      (simp add: demo_token_def)
  with demo_register_tx show ?thesis by simp
qed

section \<open>The verification of the registered account\<close>

definition demo_verified :: db where
  "demo_verified = snd (VerifyEmail demo_ext 7 (b64_encode demo_token) demo_registered)"

lemma demo_registered_inv: "identity_inv demo_ext sample_aead demo_registered"
  by (rule Register_inv [OF identity_inv_empty demo_hasher demo_argon_law sample_aead_law(1) demo_register])

lemma demo_verify: "VerifyEmail demo_ext 7 (b64_encode demo_token) demo_registered = (Inr (), demo_verified)"
proof -
  have "reg_created demo_registration" "reg_token demo_registration = b64_encode demo_token"
    by (simp_all add: demo_registration_def)
  with Register_verifies [OF identity_inv_empty demo_hasher demo_argon_law sample_aead_law(1) demo_register, of 7]
  have "fst (VerifyEmail demo_ext 7 (b64_encode demo_token) demo_registered) = Inr ()"
    by (auto simp: VerificationTTL_def)
  then show ?thesis by (simp add: demo_verified_def prod_eq_iff)
qed

section \<open>The delivery of its message\<close>

lemma demo_dispatch:
  "DispatchOne sample_aead (\<lambda>_ _. True) 6 demo_registered =
     (\<lparr>dp_attempted = True, dp_error = None, dp_sent = Some (address ''a'' ''b'', b64_encode demo_token)\<rparr>,
      demo_registered\<lparr>outbox := []\<rparr>)"
proof -
  have purge: "delete_users (expired_pending 6 demo_registered) demo_registered = Inr demo_registered"
    by (simp add: delete_users_def purge_users_def expired_pending_def demo_registered_def empty_db_def
        VerificationTTL_def)
  have "Open sample_aead demo_id demo_nonce demo_sealed = Inr demo_token"
    by (rule Open_Seal [OF sample_aead_law(1) demo_seal])
  then show ?thesis
    unfolding DispatchOne_def purge
    by (simp add: due_def demo_registered_def VerificationTTL_def rows_affected_def complete_delivery_def
        demo_email_def) (simp add: demo_token_def)
qed

section \<open>A log in and a refresh\<close>

definition alone_db :: db where
  "alone_db = empty_db\<lparr>users := [alice_row]\<rparr>"

lemma alone_db_simps [simp]:
  "users alone_db = [alice_row]" "devices alone_db = []" "sessions alone_db = []"
  "access_tokens alone_db = []" "refresh_tokens alone_db = []"
  by (simp_all add: alone_db_def empty_db_def)

lemma alone_session_inv: "session_inv alone_db"
  by (simp add: session_inv_def one_live_def)

definition fill :: "char \<Rightarrow> string" where
  "fill c = replicate 32 c"

lemma length_fill [simp]: "length (fill c) = 32"
  by (simp add: fill_def)

definition demo_login ::
  "(session_error + (principal \<times> tokens)) \<times> db" where
  "demo_login = Login demo_ext (\<lambda>_ _. Inr alice) 5
     (demo_bytes @ demo_bytes @ fill (CHR ''a'') @ fill (CHR ''r'')) [] [] ''P'' alone_db"

definition demo_principal :: principal where
  "demo_principal = \<lparr>pr_user = alice, pr_device = demo_id, pr_session = demo_id\<rparr>"

definition demo_tokens :: tokens where
  "demo_tokens = \<lparr>tk_access = b64_encode (fill (CHR ''a'')), tk_refresh = b64_encode (fill (CHR ''r'')),
     tk_access_expires = 5 + AccessTTL, tk_refresh_expires = 5 + RefreshTTL\<rparr>"

definition logged_in :: db where
  "logged_in = alone_db\<lparr>
     devices := [\<lparr>dev_user = alice, dev_id = demo_id, dev_name = ''P'', dev_status = Active, dev_created = 5,
       dev_updated = 5, dev_revoked = None\<rparr>],
     sessions := [\<lparr>ses_user = alice, ses_id = demo_id, ses_device = demo_id, ses_status = Active,
       ses_created = 5, ses_expires = 5 + RefreshTTL, ses_revoked = None\<rparr>],
     access_tokens := [\<lparr>acc_hash = rev (fill (CHR ''a'')), acc_user = alice, acc_session = demo_id,
       acc_device = demo_id, acc_issued = 5, acc_expires = 5 + AccessTTL, acc_revoked = None\<rparr>],
     refresh_tokens := [fresh_refresh (rev (fill (CHR ''r''))) alice demo_id demo_id 5 (5 + RefreshTTL)]\<rparr>"

lemma demo_device_name: "validateDeviceName ''P'' = Inr ''P''"
proof -
  have ascii: "is_ascii ''P''" by (simp add: is_ascii_def code_def)
  have "trim_space_left ''P'' = ''P''" by (simp add: space_rune_def code_def)
  moreover have "trim_space_right ''P'' = ''P''"
    by (rule trim_space_right_stop) (simp add: last_rune_def last_rune_width_def space_rune_def code_def)
  ultimately have "trim_space ''P'' = ''P''" by (simp only: trim_space_def)
  then show ?thesis
    by (simp add: validateDeviceName_def valid_utf8_ascii ascii rune_count_def runes_ascii
        del: runes.simps valid_utf8.simps)
qed

lemma demo_issue:
  "issueTokenPair demo_ext 5 (Some (5 + RefreshTTL)) (fill (CHR ''a'') @ fill (CHR ''r'')) =
     Inr (\<lparr>is_tokens = demo_tokens, is_access_hash = rev (fill (CHR ''a'')), is_refresh_hash = rev (fill (CHR ''r''))\<rparr>, [])"
  by (simp add: issueTokenPair_def read_full_def tokenBytes_def Let_def demo_tokens_def AccessTTL_def
      RefreshTTL_def hashToken_def)

lemma demo_login_eq: "demo_login = (Inr (demo_principal, demo_tokens), logged_in)"
proof -
  have tx: "login_tx demo_ext 5 ''P'' alice demo_id demo_id
      \<lparr>is_tokens = demo_tokens, is_access_hash = rev (fill (CHR ''a'')), is_refresh_hash = rev (fill (CHR ''r''))\<rparr>
      alone_db = Inr ((demo_principal, demo_tokens), logged_in)"
    by (simp add: login_tx_def user_active_def insert_device_def device_at_def user_exists_def insert_session_def
        session_at_def devkey_def seskey_def insertAccess_def insert_access_def access_at_def session_of_def
        insert_refresh_def refresh_at_def fresh_refresh_def demo_tokens_def demo_principal_def AccessTTL_def
        RefreshTTL_def logged_in_def)
  show ?thesis
    using newUUIDv7_demo [of "demo_bytes @ fill (CHR ''a'') @ fill (CHR ''r'')"]
      newUUIDv7_demo [of "fill (CHR ''a'') @ fill (CHR ''r'')"] demo_issue tx
    by (simp add: demo_login_def Login_def demo_device_name)
qed

lemma demo_login_run:
  "Login demo_ext (\<lambda>_ _. Inr alice) 5 (demo_bytes @ demo_bytes @ fill (CHR ''a'') @ fill (CHR ''r'')) [] [] ''P''
     alone_db = (Inr (demo_principal, demo_tokens), logged_in)"
  using demo_login_eq by (simp add: demo_login_def)

lemma logged_in_inv: "session_inv logged_in"
  using Login_inv [OF alone_session_inv, of demo_ext "\<lambda>_ _. Inr alice" 5
      "demo_bytes @ demo_bytes @ fill (CHR ''a'') @ fill (CHR ''r'')" "[]" "[]" "''P''"]
  by (simp add: demo_login_run)

definition refreshed_tokens :: tokens where
  "refreshed_tokens = \<lparr>tk_access = b64_encode (fill (CHR ''c'')), tk_refresh = b64_encode (fill (CHR ''d'')),
     tk_access_expires = 6 + AccessTTL, tk_refresh_expires = 5 + RefreshTTL\<rparr>"

definition refreshed :: db where
  "refreshed = snd (Refresh demo_ext 6 (fill (CHR ''c'') @ fill (CHR ''d'')) (b64_encode (fill (CHR ''r''))) logged_in)"

lemma fill_distinct: "fill a = fill b \<longleftrightarrow> a = b"
  by (simp add: fill_def)

lemma demo_refresh:
  "Refresh demo_ext 6 (fill (CHR ''c'') @ fill (CHR ''d'')) (b64_encode (fill (CHR ''r''))) logged_in =
     (Inr refreshed_tokens, refreshed)"
proof -
  have parse: "parseAndHash demo_ext (b64_encode (fill (CHR ''r''))) refreshDomain = Inr (rev (fill (CHR ''r'')))"
    by (simp add: parse_issued hashToken_def)
  have "fst (Refresh demo_ext 6 (fill (CHR ''c'') @ fill (CHR ''d'')) (b64_encode (fill (CHR ''r''))) logged_in) =
      Inr refreshed_tokens"
    by (simp add: Refresh_def parse issueTokenPair_def read_full_def tokenBytes_def Let_def hashToken_def
        logged_in_def refresh_at_def fresh_refresh_def session_of_def session_at_def seskey_def user_exists_def
        device_exists_def user_active_def device_active_def rotate_def capped_def insert_refresh_def fill_distinct
        rows_affected_def consumable_def insertAccess_def insert_access_def access_at_def AccessTTL_def RefreshTTL_def
        refreshed_tokens_def)
  then show ?thesis by (simp add: refreshed_def prod_eq_iff)
qed

end
