(* ===== verification/Client_Naming.thy ===== *)
theory Client_Naming
  imports Sync_Naming "HOL-Library.List_Lexorder" "HOL-Library.Char_ord"
begin

text \<open>
  Portable names on the client, \<open>client/internal/naming\<close>: the validation of a component, of a relative
  path and of a path a user may choose, the comparison key of siblings and the search for siblings
  that collide. The client has its own code for what the server checks in \<open>naming.go\<close>; the last
  section relates the two. \<open>norm.NFC.IsNormalString\<close> holds, as documented, of the fixed points of
  normalisation.
\<close>

section \<open>Components\<close>

datatype name_problem =
    ProblemEmpty | ProblemInvalidUTF8 | ProblemNotNFC | ProblemForbiddenChar
  | ProblemTrailingChar | ProblemReservedDevice | ProblemTooLong

definition MaxComponentBytes :: nat where
  "MaxComponentBytes = 180"

definition MaxRelativePathBytes :: nat where
  "MaxRelativePathBytes = 768"

definition ConflictSuffixReserveBytes :: nat where
  "ConflictSuffixReserveBytes = 64"

definition isReservedWindowsDevice :: "ext \<Rightarrow> string \<Rightarrow> bool" where
  "isReservedWindowsDevice x name =
     (let stem = to_upper x (trim_right '' .'' (cut_before (CHR ''.'') name)) in
      if stem \<in> set [''CON'', ''PRN'', ''AUX'', ''NUL'', ''CONIN$'', ''CONOUT$''] then True
      else if length stem = 4 \<and> (has_prefix stem ''COM'' \<or> has_prefix stem ''LPT'')
      then in_range 49 57 (stem ! 3)
      else stem \<in> set (map (\<lambda>d. ''COM'' @ d) superscript_digits) \<or>
           stem \<in> set (map (\<lambda>d. ''LPT'' @ d) superscript_digits))"

definition ValidateComponent :: "ext \<Rightarrow> string \<Rightarrow> name_problem + unit" where
  "ValidateComponent x name =
     (if name = '''' then Inl ProblemEmpty
      else if \<not> valid_utf8 name then Inl ProblemInvalidUTF8
      else if x_nfc x name \<noteq> name then Inl ProblemNotNFC
      else if length name > MaxComponentBytes then Inl ProblemTooLong
      else if list_ex forbidden_rune (runes name) then Inl ProblemForbiddenChar
      else if has_suffix name '' '' \<or> has_suffix name ''.'' then Inl ProblemTrailingChar
      else if isReservedWindowsDevice x name then Inl ProblemReservedDevice
      else Inr ())"

text \<open>\<open>NormalizeAndValidateComponent\<close> returns the name and the error side by side.\<close>

definition NormalizeAndValidateComponent :: "ext \<Rightarrow> string \<Rightarrow> string \<times> (name_problem + unit)" where
  "NormalizeAndValidateComponent x name =
     (if \<not> valid_utf8 name then (name, Inl ProblemInvalidUTF8)
      else let normalized = x_nfc x name in (normalized, ValidateComponent x normalized))"

definition CollisionKey :: "ext \<Rightarrow> string \<Rightarrow> string" where
  "CollisionKey x name = x_nfc x (x_fold x (x_nfc x name))"

section \<open>Paths\<close>

datatype path_problem =
    PathProblemEmpty | PathProblemAbsolute | PathProblemTraversal | PathProblemTooLong
  | PathProblemComponent | PathProblemReserved

record path_error =
  pe_problem :: path_problem
  pe_index :: nat
  pe_component :: string
  pe_cause :: "name_problem option"

definition path_error :: "path_problem \<Rightarrow> nat \<Rightarrow> string \<Rightarrow> name_problem option \<Rightarrow> path_error" where
  "path_error p i s c = \<lparr>pe_problem = p, pe_index = i, pe_component = s, pe_cause = c\<rparr>"

text \<open>The loop over the components, from index \<open>i\<close>.\<close>

fun validate_parts :: "ext \<Rightarrow> nat \<Rightarrow> string list \<Rightarrow> path_error + unit" where
  "validate_parts x i [] = Inr ()"
| "validate_parts x i (part # parts) =
     (if part = '''' \<or> part = ''.'' \<or> part = ''..''
      then Inl (path_error PathProblemTraversal i part None)
      else case ValidateComponent x part of
        Inl p \<Rightarrow> Inl (path_error PathProblemComponent i part (Some p))
      | Inr _ \<Rightarrow> validate_parts x (Suc i) parts)"

definition ValidateRelativePath :: "ext \<Rightarrow> string \<Rightarrow> path_error + unit" where
  "ValidateRelativePath x relative =
     (if relative = '''' then Inl (path_error PathProblemEmpty 0 '''' None)
      else if \<not> valid_utf8 relative then Inl (path_error PathProblemComponent 0 '''' (Some ProblemInvalidUTF8))
      else if length relative > MaxRelativePathBytes then Inl (path_error PathProblemTooLong 0 '''' None)
      else if has_prefix relative ''/'' then Inl (path_error PathProblemAbsolute 0 '''' None)
      else validate_parts x 0 (split_on (CHR ''/'') relative))"

definition reservedComponent :: "ext \<Rightarrow> string list \<Rightarrow> nat \<times> bool" where
  "reservedComponent x parts =
     (case parts of
        [] \<Rightarrow> (0, False)
      | first # rest \<Rightarrow>
          let root = CollisionKey x first in
          if root = CollisionKey x ''.remember'' \<or> root = CollisionKey x ''_Konflikte'' then (0, True)
          else (case rest of
             second # _ \<Rightarrow>
               if root = CollisionKey x ''_Konflikte'' \<and> CollisionKey x second = CollisionKey x ''Wiederhergestellt''
               then (1, True) else (0, False)
           | [] \<Rightarrow> (0, False)))"

definition ValidateUserRelativePath :: "ext \<Rightarrow> string \<Rightarrow> path_error + unit" where
  "ValidateUserRelativePath x relative =
     rbind (ValidateRelativePath x relative) (\<lambda>_.
       let parts = split_on (CHR ''/'') relative in
       case reservedComponent x parts of (i, reserved) \<Rightarrow>
         if reserved then Inl (path_error PathProblemReserved i (parts ! i) None) else Inr ())"

section \<open>Siblings\<close>

text \<open>
  \<open>FindSiblingCollisions\<close>: the first invalid name with its index and problem, or the groups of at
  least two names with the same key, in the order of the keys, each group in the order of the input.
\<close>

fun first_invalid :: "ext \<Rightarrow> nat \<Rightarrow> string list \<Rightarrow> (nat \<times> string \<times> name_problem) option" where
  "first_invalid x i [] = None"
| "first_invalid x i (name # names) =
     (case ValidateComponent x name of
        Inl p \<Rightarrow> Some (i, name, p)
      | Inr _ \<Rightarrow> first_invalid x (Suc i) names)"

definition name_group :: "ext \<Rightarrow> string list \<Rightarrow> string \<Rightarrow> string list" where
  "name_group x names key = filter (\<lambda>name. CollisionKey x name = key) names"

definition FindSiblingCollisions ::
  "ext \<Rightarrow> string list \<Rightarrow> (nat \<times> string \<times> name_problem) + (string \<times> string list) list" where
  "FindSiblingCollisions x names =
     (case first_invalid x 0 names of
        Some e \<Rightarrow> Inl e
      | None \<Rightarrow>
          Inr (map (\<lambda>key. (key, name_group x names key))
            (sort (filter (\<lambda>key. 2 \<le> length (name_group x names key))
              (remdups (map (CollisionKey x) names))))))"

section \<open>Accepted components and paths\<close>

lemma ValidateComponent_Inr_iff:
  "ValidateComponent x name = Inr u \<longleftrightarrow>
     name \<noteq> '''' \<and> valid_utf8 name \<and> x_nfc x name = name \<and> length name \<le> MaxComponentBytes \<and>
     \<not> list_ex forbidden_rune (runes name) \<and> \<not> has_suffix name '' '' \<and> \<not> has_suffix name ''.'' \<and>
     \<not> isReservedWindowsDevice x name"
  by (auto simp: ValidateComponent_def)

lemma dots_refused [simp]:
  "ValidateComponent x '''' \<noteq> Inr u" "ValidateComponent x ''.'' \<noteq> Inr u" "ValidateComponent x ''..'' \<noteq> Inr u"
  by (auto simp: ValidateComponent_Inr_iff has_suffix_def)

lemma validate_parts_Inr_iff:
  "validate_parts x i parts = Inr u \<longleftrightarrow> (\<forall>part\<in>set parts. ValidateComponent x part = Inr ())"
  by (induction x i parts rule: validate_parts.induct) (auto split: sum.splits)

lemma split_on_absolute: "has_prefix s ''/'' \<Longrightarrow> '''' \<in> set (split_on (CHR ''/'') s)"
  by (cases s) (auto simp: has_prefix_def)

lemma ValidateRelativePath_Inr_iff:
  "ValidateRelativePath x p = Inr u \<longleftrightarrow>
     p \<noteq> '''' \<and> valid_utf8 p \<and> length p \<le> MaxRelativePathBytes \<and>
     (\<forall>part\<in>set (split_on (CHR ''/'') p). ValidateComponent x part = Inr ())"
proof -
  have "has_prefix p [CHR 0x2F] \<Longrightarrow> \<exists>part\<in>set (split_on (CHR 0x2F) p). ValidateComponent x part \<noteq> Inr ()"
    using split_on_absolute [of p] dots_refused(1) [of x] by metis
  then show ?thesis by (auto simp: ValidateRelativePath_def validate_parts_Inr_iff)
qed

lemma reservedComponent_iff:
  "parts \<noteq> [] \<Longrightarrow> snd (reservedComponent x parts) \<longleftrightarrow>
     CollisionKey x (hd parts) \<in> {CollisionKey x ''.remember'', CollisionKey x ''_Konflikte''}"
  by (cases parts) (auto simp: reservedComponent_def Let_def split: list.splits)

lemma ValidateUserRelativePath_Inr_iff:
  "ValidateUserRelativePath x p = Inr u \<longleftrightarrow>
     ValidateRelativePath x p = Inr () \<and>
     CollisionKey x (hd (split_on (CHR ''/'') p)) \<notin> {CollisionKey x ''.remember'', CollisionKey x ''_Konflikte''}"
  using reservedComponent_iff [OF split_on_nonempty, of x "CHR ''/''" p]
  by (auto simp: ValidateUserRelativePath_def rbind_Inr_iff Let_def split: prod.splits if_splits)

section \<open>The client and the server agree\<close>

lemma reserved_devices_agree: "isReservedWindowsDevice = reservedDevice"
  by (rule ext, rule ext) (simp add: isReservedWindowsDevice_def reservedDevice_def)

text \<open>A name the client accepts after normalisation is a name the server accepts, with the same key.\<close>

lemma normalizeName_client:
  assumes "nfc_laws x"
  shows "normalizeName x input = Inr (name, key) \<longleftrightarrow>
    NormalizeAndValidateComponent x input = (name, Inr ()) \<and> key = CollisionKey x input"
  using assms
  by (auto simp: normalizeName_def NormalizeAndValidateComponent_def Let_def ValidateComponent_Inr_iff
      CollisionKey_def nfc_laws_def maxNameBytes_def MaxComponentBytes_def reserved_devices_agree)

lemma normalizeName_component:
  assumes "nfc_laws x"
  shows "(\<exists>key. normalizeName x part = Inr (part, key)) \<longleftrightarrow> ValidateComponent x part = Inr ()"
  using assms
  by (auto simp: normalizeName_client NormalizeAndValidateComponent_def Let_def ValidateComponent_Inr_iff)

lemma cut_before_split: "cut_before c s = hd (split_on c s)"
  using split_on_nonempty [of c] by (induction s) (auto simp: cut_before_def split: list.splits)

text \<open>An ASCII byte ends every rune before it.\<close>

lemma decode_rune_stop:
  assumes "code c < 128"
  shows "decode_rune (d # cs @ c # t) = decode_rune (d # cs)"
proof -
  have no: "\<not> in_range lo hi c" if "128 \<le> lo" for lo hi using assms that by (simp add: in_range_def)
  then have "\<not> second_ok b c" for b by (simp add: second_ok_def)
  with no show ?thesis
    by (cases cs; cases "tl cs"; cases "tl (tl cs)") (simp_all add: Let_def split: list.split)
qed

lemma decode_rune_inside: "decode_rune (d # cs) = (r, w) \<Longrightarrow> w - 1 \<le> length cs"
  using decode_rune_width [of "d # cs"] by (auto simp del: decode_rune.simps)

lemma valid_utf8_prefix_ascii:
  assumes "code c < 128"
  shows "valid_utf8 (s @ c # t) \<longleftrightarrow> valid_utf8 s \<and> valid_utf8 t"
proof (induction s rule: valid_utf8.induct)
  case 1
  from assms show ?case by (simp add: rune_error_def)
next
  case (2 d cs)
  obtain r w where rw: "decode_rune (d # cs) = (r, w)" by (cases "decode_rune (d # cs)")
  have "valid_utf8 (drop (w - 1) cs @ c # t) = (valid_utf8 (drop (w - 1) cs) \<and> valid_utf8 t)"
    using 2 rw by simp
  then show ?case
    using rw decode_rune_stop [OF assms, of d cs t] decode_rune_inside [OF rw]
    by (simp del: decode_rune.simps)
qed

lemma valid_utf8_split:
  assumes "code c < 128"
  shows "valid_utf8 s \<longleftrightarrow> (\<forall>part\<in>set (split_on c s). valid_utf8 part)"
proof (induction s rule: measure_induct_rule [of length])
  case (less s)
  show ?case
  proof (cases "c \<in> set s")
    case False
    then show ?thesis by (simp add: split_on_no_sep)
  next
    case True
    then obtain a b where s: "s = a @ c # b" "c \<notin> set a" by (metis split_list_first)
    with less.IH [of b] show ?thesis
      by (simp add: split_on_append valid_utf8_prefix_ascii [OF assms])
  qed
qed

text \<open>
  A path the client lets a user choose is a path the server stores: each component is a name the server
  takes as it is, and the whole passes the server's check of the path.
\<close>

lemma user_path_server:
  assumes "nfc_laws x"
  shows "ValidateUserRelativePath x p = Inr u \<longleftrightarrow>
    (\<forall>part\<in>set (split_on (CHR ''/'') p). \<exists>key. normalizeName x part = Inr (part, key)) \<and>
    CollisionKey x (cut_before (CHR ''/'') p) \<notin> {CollisionKey x ''.remember'', CollisionKey x ''_Konflikte''} \<and>
    0 < length p \<and> length p \<le> maxPathBytes"
proof -
  have "valid_utf8 p" if "\<forall>part\<in>set (split_on (CHR ''/'') p). ValidateComponent x part = Inr ()"
    using that valid_utf8_split [of "CHR ''/''" p] by (auto simp: ValidateComponent_Inr_iff code_def)
  then show ?thesis
    by (auto simp: ValidateUserRelativePath_Inr_iff ValidateRelativePath_Inr_iff normalizeName_component [OF assms]
        cut_before_split maxPathBytes_def MaxRelativePathBytes_def)
qed

text \<open>With the server's own check of the path, on reserved names that are in normal form.\<close>

lemma user_path_logical:
  assumes "nfc_laws x" "x_nfc x ''.remember'' = ''.remember''" "x_nfc x ''_Konflikte'' = ''_Konflikte''"
  shows "ValidateUserRelativePath x p = Inr u \<longleftrightarrow>
    (\<forall>part\<in>set (split_on (CHR ''/'') p). \<exists>key. normalizeName x part = Inr (part, key)) \<and>
    validateLogicalPath x p = Inr ()"
proof -
  let ?root = "cut_before (CHR ''/'') p"
  have "?root \<in> set (split_on (CHR ''/'') p)"
    using split_on_nonempty by (simp add: cut_before_split)
  moreover have "x_nfc x part = part" if "normalizeName x part = Inr (part, key)" for part key
    using normalizeName_InrD(1) [OF that] by simp
  ultimately have "x_nfc x ?root = ?root"
    if "\<forall>part\<in>set (split_on (CHR ''/'') p). \<exists>key. normalizeName x part = Inr (part, key)"
    using that by blast
  then show ?thesis
    using assms(2,3)
    by (auto simp: user_path_server [OF assms(1)] validateLogicalPath_def Let_def path_key_def CollisionKey_def)
qed

section \<open>Collisions found are the collisions there are\<close>

lemma first_invalid_None: "first_invalid x i names = None \<longleftrightarrow> (\<forall>n\<in>set names. ValidateComponent x n = Inr ())"
  by (induction x i names rule: first_invalid.induct) (auto split: sum.splits)

lemma FindSiblingCollisions_Inr_iff:
  "FindSiblingCollisions x names = Inr cs \<longleftrightarrow>
     (\<forall>n\<in>set names. ValidateComponent x n = Inr ()) \<and>
     cs = map (\<lambda>key. (key, name_group x names key)) (sort (filter (\<lambda>key. 2 \<le> length (name_group x names key))
            (remdups (map (CollisionKey x) names))))"
  using first_invalid_None [of x 0 names]
  by (auto simp: FindSiblingCollisions_def split: option.splits)

lemma collisions_sorted:
  assumes "FindSiblingCollisions x names = Inr cs"
  shows "sorted (map fst cs)" "distinct (map fst cs)"
  using assms by (auto simp: FindSiblingCollisions_Inr_iff comp_def)

lemma collisions_complete:
  assumes "FindSiblingCollisions x names = Inr cs"
  shows "(key, same) \<in> set cs \<longleftrightarrow> same = filter (\<lambda>n. CollisionKey x n = key) names \<and> 2 \<le> length same"
proof -
  have "2 \<le> length (name_group x names key) \<Longrightarrow> key \<in> CollisionKey x ` set names"
    by (cases "name_group x names key") (auto simp: name_group_def filter_eq_Cons_iff)
  then show ?thesis using assms by (auto simp: FindSiblingCollisions_Inr_iff name_group_def)
qed

lemma no_collision_distinct:
  assumes "FindSiblingCollisions x names = Inr []"
  shows "distinct (map (CollisionKey x) names)"
proof -
  have "length (filter (\<lambda>n. CollisionKey x n = key) names) < 2" for key
    using collisions_complete [OF assms, of key] by (simp add: not_le)
  then show ?thesis
  proof (induction names)
    case (Cons n names)
    have "length (filter (\<lambda>m. CollisionKey x m = key) names) < 2" for key
      using Cons.prems [of key] by (auto split: if_splits)
    moreover have "filter (\<lambda>m. CollisionKey x m = CollisionKey x n) names = []"
      using Cons.prems [of "CollisionKey x n"] by simp
    ultimately show ?case using Cons.IH by (auto simp: filter_empty_conv)
  qed simp
qed

end
