(* ===== verification/Front_Matter.thy ===== *)
theory Front_Matter
  imports Email Password
begin

text \<open>
  The metadata block of a note, \<open>client/internal/frontmatter\<close>: the split of a Markdown file into its YAML
  block and its body, the inspection of the \<open>remember\<close> mapping, and the four edits (a first identity, a new
  identity, a conflict copy, new body and tags). The YAML library is a parameter: a decoder from bytes to
  nodes and an encoder back. A node has the fields the code reads; its style, anchor and comments are one
  number the code only passes on.
\<close>

section \<open>Nodes and the external functions\<close>

datatype yaml_kind = DocumentNode | SequenceNode | MappingNode | ScalarNode | AliasNode

datatype yaml = Yaml (y_kind: yaml_kind) (y_tag: string) (y_value: string) (y_style: nat) (y_content: "yaml list")

record fm_ext =
  fm_base :: ext
  fm_parse_uuid :: "string \<Rightarrow> uuid option"
  fm_decode :: "string \<Rightarrow> string + yaml"
  fm_encode :: "yaml \<Rightarrow> string + string"

datatype fm_problem =
    ProblemUnclosed | ProblemInvalidYAML | ProblemDuplicateKey | ProblemInvalidRoot
  | ProblemInvalidRemember | ProblemMissingSchema | ProblemUnsupportedSchema | ProblemMissingNoteID
  | ProblemInvalidNoteID | ProblemInvalidTags

type_synonym fm_error = "fm_problem \<times> string"

record inspection =
  in_front :: bool
  in_remember :: bool
  in_note :: uuid
  in_schema :: int
  in_tags :: "string list"

record note_document =
  nd_note :: uuid
  nd_body :: string
  nd_tags :: "string list"

record parsed_document =
  pd_inspection :: inspection
  pd_document :: "yaml option"
  pd_body :: string
  pd_newline :: string

definition CurrentSchema :: int where
  "CurrentSchema = 1"

definition lf :: char where
  "lf = CHR 0x0A"

definition cr :: char where
  "cr = CHR 0x0D"

definition fence :: string where
  "fence = ''---''"

section \<open>The split\<close>

definition strip_cr :: "string \<Rightarrow> string" where
  "strip_cr line = (if line \<noteq> [] \<and> last line = cr then butlast line else line)"

text \<open>The lines up to the closing fence, and what follows it.\<close>

function close_fence :: "string \<Rightarrow> (string \<times> string) option" where
  "close_fence s =
     (let line = takeWhile (\<lambda>c. c \<noteq> lf) s; rest = dropWhile (\<lambda>c. c \<noteq> lf) s in
      if strip_cr line = fence then Some ([], drop 1 rest)
      else if rest = [] then None
      else map_option (\<lambda>(yaml, body). (line @ lf # yaml, body)) (close_fence (drop 1 rest)))"
  by pat_completeness auto
termination
proof (relation "measure length")
  fix s line rest :: string
  assume *: "rest = dropWhile (\<lambda>c. c \<noteq> lf) s" "rest \<noteq> []"
  then have "length (drop 1 rest) < length rest" by simp
  also have "\<dots> \<le> length s" using *(1) by (simp add: length_dropWhile_le)
  finally show "(drop 1 rest, s) \<in> measure length" by simp
qed simp

declare close_fence.simps [simp del]

record split_result =
  sp_yaml :: string
  sp_body :: string
  sp_newline :: string
  sp_has :: bool

definition split_markdown :: "string \<Rightarrow> fm_error + split_result" where
  "split_markdown md =
     (if \<not> has_prefix md (fence @ [lf]) \<and> \<not> has_prefix md (fence @ [cr, lf])
      then Inr \<lparr>sp_yaml = [], sp_body = md, sp_newline = [lf], sp_has = False\<rparr>
      else let opening = takeWhile (\<lambda>c. c \<noteq> lf) md;
               newline = (if opening \<noteq> [] \<and> last opening = cr then [cr, lf] else [lf]) in
        case close_fence (drop (length opening + 1) md) of
          Some (yaml, body) \<Rightarrow> Inr \<lparr>sp_yaml = yaml, sp_body = body, sp_newline = newline, sp_has = True\<rparr>
        | None \<Rightarrow> Inl (ProblemUnclosed, []))"

section \<open>Mappings\<close>

definition is_key :: "string \<Rightarrow> yaml \<Rightarrow> bool" where
  "is_key key n \<longleftrightarrow> y_kind n = ScalarNode \<and> y_value n = key"

fun mapping_value :: "yaml list \<Rightarrow> string \<Rightarrow> yaml option" where
  "mapping_value (k # v # rest) key = (if is_key key k then Some v else mapping_value rest key)"
| "mapping_value _ key = None"

definition mappingValue :: "yaml \<Rightarrow> string \<Rightarrow> yaml option" where
  "mappingValue m key = mapping_value (y_content m) key"

definition scalar :: "string \<Rightarrow> string \<Rightarrow> yaml" where
  "scalar tag text = Yaml ScalarNode tag text 0 []"

definition double_quoted :: nat where
  "double_quoted = 2"

definition quoted :: "string \<Rightarrow> yaml" where
  "quoted text = Yaml ScalarNode ''!!str'' text double_quoted []"

definition mapping :: "yaml list \<Rightarrow> yaml" where
  "mapping content = Yaml MappingNode ''!!map'' [] 0 content"

definition appendScalarPair :: "string \<Rightarrow> yaml \<Rightarrow> yaml list \<Rightarrow> yaml list" where
  "appendScalarPair key value content = content @ [scalar ''!!str'' key, value]"

fun replace_pair :: "yaml list \<Rightarrow> string \<Rightarrow> yaml \<Rightarrow> yaml list option" where
  "replace_pair (k # v # rest) key value =
     (if is_key key k then Some (k # value # rest)
      else map_option (\<lambda>content. k # v # content) (replace_pair rest key value))"
| "replace_pair _ key value = None"

definition setMappingPair :: "string \<Rightarrow> yaml \<Rightarrow> yaml list \<Rightarrow> yaml list" where
  "setMappingPair key value content =
     (case replace_pair content key value of
        Some content' \<Rightarrow> content' | None \<Rightarrow> appendScalarPair key value content)"

fun removeMappingPair :: "string \<Rightarrow> yaml list \<Rightarrow> yaml list" where
  "removeMappingPair key (k # v # rest) =
     (if is_key key k then rest else k # v # removeMappingPair key rest)"
| "removeMappingPair key content = content"

definition with_content :: "yaml list \<Rightarrow> yaml \<Rightarrow> yaml" where
  "with_content content n = Yaml (y_kind n) (y_tag n) (y_value n) (y_style n) content"

text \<open>
  \<open>findDuplicateKey\<close> answers with the key, and with the empty string when there is none; a duplicate of the
  empty key is therefore not reported.
\<close>

fun duplicate_pair :: "string list \<Rightarrow> yaml list \<Rightarrow> string option" where
  "duplicate_pair seen (k # v # rest) =
     (if y_kind k = ScalarNode
      then (let identity = y_tag k @ [CHR 0x00] @ y_value k in
            if identity \<in> set seen then Some (y_value k) else duplicate_pair (identity # seen) rest)
      else duplicate_pair seen rest)"
| "duplicate_pair seen _ = None"

definition first_nonempty :: "string list \<Rightarrow> string" where
  "first_nonempty xs = (case find (\<lambda>s. s \<noteq> []) xs of None \<Rightarrow> [] | Some s \<Rightarrow> s)"

fun findDuplicateKey :: "yaml \<Rightarrow> string" where
  "findDuplicateKey (Yaml kind tag val style content) =
     (case (if kind = MappingNode then duplicate_pair [] content else None) of
        Some key \<Rightarrow> key
      | None \<Rightarrow> first_nonempty (map findDuplicateKey content))"

section \<open>Tags\<close>

definition invalid_tags :: "string \<Rightarrow> fm_error" where
  "invalid_tags detail = (ProblemInvalidTags, detail)"

definition validateTag :: "string \<Rightarrow> fm_error + unit" where
  "validateTag tag =
     (if \<not> valid_utf8 tag \<or> tag = [] \<or> rune_count tag > 40 \<or> length tag > 80 \<or> tag \<noteq> trim_space tag
      then Inl (invalid_tags ''tag length or whitespace is invalid'')
      else if list_ex control_rune (runes tag) then Inl (invalid_tags ''tag contains a control character'')
      else Inr ())"

definition tag_key :: "ext \<Rightarrow> string \<Rightarrow> string" where
  "tag_key x tag = x_nfc x (x_fold x tag)"

text \<open>The loop of \<open>NormalizeTags\<close>, with the keys and the tags so far.\<close>

fun normalize_tags :: "ext \<Rightarrow> string list \<Rightarrow> string list \<Rightarrow> fm_error + string list" where
  "normalize_tags x seen [] = Inr []"
| "normalize_tags x seen (input # inputs) =
     (let tag = x_nfc x (trim_space input) in
      rbind (validateTag tag) (\<lambda>_.
        if tag_key x tag \<in> set seen then normalize_tags x seen inputs
        else rbind (normalize_tags x (tag_key x tag # seen) inputs) (\<lambda>tags. Inr (tag # tags))))"

definition NormalizeTags :: "ext \<Rightarrow> string list \<Rightarrow> fm_error + string list" where
  "NormalizeTags x tags = normalize_tags x [] tags"

fun stored_tags :: "ext \<Rightarrow> string list \<Rightarrow> yaml list \<Rightarrow> fm_error + string list" where
  "stored_tags x seen [] = Inr []"
| "stored_tags x seen (item # items) =
     (if y_kind item \<noteq> ScalarNode \<or> y_tag item \<noteq> ''!!str'' \<or> x_nfc x (y_value item) \<noteq> y_value item
      then Inl (invalid_tags ''tags must be NFC strings'')
      else rbind (validateTag (y_value item)) (\<lambda>_.
        if tag_key x (y_value item) \<in> set seen then Inl (invalid_tags ''duplicate tag'')
        else rbind (stored_tags x (tag_key x (y_value item) # seen) items) (\<lambda>tags. Inr (y_value item # tags))))"

definition validateStoredTags :: "ext \<Rightarrow> yaml \<Rightarrow> fm_error + string list" where
  "validateStoredTags x n =
     (if y_kind n \<noteq> SequenceNode then Inl (invalid_tags ''tags must be a sequence'')
      else stored_tags x [] (y_content n))"

section \<open>Parsing\<close>

text \<open>\<open>strconv.Atoi\<close>: an optional sign, decimal digits, within 64 bits.\<close>

definition Atoi :: "string \<Rightarrow> int option" where
  "Atoi s =
     (let negative = has_prefix s ''-'';
          digits = (if negative \<or> has_prefix s ''+'' then drop 1 s else s);
          n = int (digits_value digits) in
      if digits = [] \<or> \<not> list_all (in_range 48 57) digits then None
      else if negative then (if n \<le> 9223372036854775808 then Some (- n) else None)
      else if n < 9223372036854775808 then Some n else None)"

definition contains_crlf :: "string \<Rightarrow> bool" where
  "contains_crlf s \<longleftrightarrow> list_ex (\<lambda>(a, b). a = cr \<and> b = lf) (zip s (drop 1 s))"

definition no_inspection :: inspection where
  "no_inspection = \<lparr>in_front = False, in_remember = False, in_note = uuid_nil, in_schema = 0, in_tags = []\<rparr>"

definition check_schema :: "yaml \<Rightarrow> fm_error + int" where
  "check_schema remember =
     (case mappingValue remember ''schema'' of
        None \<Rightarrow> Inl (ProblemMissingSchema, [])
      | Some n \<Rightarrow>
          if y_kind n \<noteq> ScalarNode \<or> y_tag n \<noteq> ''!!int'' then Inl (ProblemUnsupportedSchema, y_value n)
          else case Atoi (y_value n) of
            None \<Rightarrow> Inl (ProblemUnsupportedSchema, y_value n)
          | Some schema \<Rightarrow>
              if schema \<noteq> CurrentSchema then Inl (ProblemUnsupportedSchema, y_value n) else Inr schema)"

definition check_note_id :: "fm_ext \<Rightarrow> yaml \<Rightarrow> fm_error + uuid" where
  "check_note_id e remember =
     (case mappingValue remember ''note_id'' of
        None \<Rightarrow> Inl (ProblemMissingNoteID, [])
      | Some n \<Rightarrow>
          if y_kind n \<noteq> ScalarNode \<or> y_tag n \<noteq> ''!!str'' then Inl (ProblemInvalidNoteID, y_value n)
          else case fm_parse_uuid e (y_value n) of
            None \<Rightarrow> Inl (ProblemInvalidNoteID, y_value n)
          | Some u \<Rightarrow>
              if u = uuid_nil \<or> \<not> x_uuid_rfc4122 (fm_base e) u \<or> x_uuid_string (fm_base e) u \<noteq> y_value n
              then Inl (ProblemInvalidNoteID, y_value n) else Inr u)"

definition check_tags :: "fm_ext \<Rightarrow> yaml \<Rightarrow> fm_error + string list" where
  "check_tags e remember =
     (case mappingValue remember ''tags'' of
        None \<Rightarrow> Inr [] | Some n \<Rightarrow> validateStoredTags (fm_base e) n)"

definition inspect_root :: "fm_ext \<Rightarrow> yaml \<Rightarrow> fm_error + inspection" where
  "inspect_root e root =
     (case mappingValue root ''remember'' of
        None \<Rightarrow> Inr (no_inspection\<lparr>in_front := True\<rparr>)
      | Some remember \<Rightarrow>
          if y_kind remember \<noteq> MappingNode then Inl (ProblemInvalidRemember, [])
          else rbind (check_schema remember) (\<lambda>schema.
               rbind (check_note_id e remember) (\<lambda>u.
               rbind (check_tags e remember) (\<lambda>tags.
                 Inr \<lparr>in_front = True, in_remember = True, in_note = u, in_schema = schema, in_tags = tags\<rparr>))))"

text \<open>The root of a decoded document: one mapping without duplicate keys.\<close>

definition document_root :: "yaml \<Rightarrow> fm_error + yaml" where
  "document_root document =
     (if length (y_content document) \<noteq> 1 \<or> y_kind (hd (y_content document)) \<noteq> MappingNode
      then Inl (ProblemInvalidRoot, [])
      else let root = hd (y_content document); duplicate = findDuplicateKey root in
        if duplicate \<noteq> [] then Inl (ProblemDuplicateKey, duplicate) else Inr root)"

definition decode_document :: "fm_ext \<Rightarrow> string \<Rightarrow> fm_error + yaml" where
  "decode_document e text =
     (if trim_space text = [] then Inr (Yaml DocumentNode [] [] 0 [mapping []])
      else case fm_decode e text of Inl detail \<Rightarrow> Inl (ProblemInvalidYAML, detail) | Inr document \<Rightarrow> Inr document)"

definition parse_markdown :: "fm_ext \<Rightarrow> string \<Rightarrow> fm_error + parsed_document" where
  "parse_markdown e md =
     rbind (split_markdown md) (\<lambda>s.
       if \<not> sp_has s
       then Inr \<lparr>pd_inspection = no_inspection, pd_document = None, pd_body = md,
                 pd_newline = (if contains_crlf md then [cr, lf] else [lf])\<rparr>
       else rbind (decode_document e (sp_yaml s)) (\<lambda>document.
            rbind (document_root document) (\<lambda>root.
            rbind (inspect_root e root) (\<lambda>inspection.
              Inr \<lparr>pd_inspection = inspection, pd_document = Some document, pd_body = sp_body s,
                   pd_newline = sp_newline s\<rparr>))))"

definition Inspect :: "fm_ext \<Rightarrow> string \<Rightarrow> fm_error + inspection" where
  "Inspect e md = rbind (parse_markdown e md) (\<lambda>p. Inr (pd_inspection p))"

definition Read :: "fm_ext \<Rightarrow> string \<Rightarrow> fm_error + note_document" where
  "Read e md = rbind (parse_markdown e md) (\<lambda>p.
     Inr \<lparr>nd_note = in_note (pd_inspection p), nd_body = pd_body p, nd_tags = in_tags (pd_inspection p)\<rparr>)"

section \<open>Edits\<close>

text \<open>\<open>strings.ReplaceAll(s, "\n", "\r\n")\<close> and the reverse.\<close>

definition to_crlf :: "string \<Rightarrow> string" where
  "to_crlf s = concat (map (\<lambda>c. if c = lf then [cr, lf] else [c]) s)"

fun to_lf :: "string \<Rightarrow> string" where
  "to_lf (a # b # s) = (if a = cr \<and> b = lf then lf # to_lf s else a # to_lf (b # s))"
| "to_lf s = s"

definition assemble :: "string \<Rightarrow> string \<Rightarrow> string \<Rightarrow> string" where
  "assemble newline yaml body =
     fence @ newline @ (if newline = [cr, lf] then to_crlf yaml else yaml) @ fence @ newline @ body"

text \<open>The encoded document between the fences, before the body.\<close>

definition render :: "fm_ext \<Rightarrow> yaml \<Rightarrow> string \<Rightarrow> string \<Rightarrow> fm_error + string" where
  "render e document newline body =
     (case fm_encode e document of
        Inl detail \<Rightarrow> Inl (ProblemInvalidYAML, detail)
      | Inr text \<Rightarrow> Inr (assemble newline text body))"

text \<open>An edit of the root's content, and one of the content of its \<open>remember\<close> mapping.\<close>

definition edit_root :: "(yaml list \<Rightarrow> yaml list) \<Rightarrow> yaml \<Rightarrow> yaml" where
  "edit_root f document =
     with_content (map (\<lambda>root. with_content (f (y_content root)) root) (y_content document)) document"

definition edit_remember :: "(yaml list \<Rightarrow> yaml list) \<Rightarrow> yaml \<Rightarrow> yaml" where
  "edit_remember f document =
     edit_root (\<lambda>content.
       case mapping_value content ''remember'' of
         None \<Rightarrow> content
       | Some r \<Rightarrow> setMappingPair ''remember'' (with_content (f (y_content r)) r) content) document"

record patch_result =
  pt_markdown :: string
  pt_note :: uuid
  pt_changed :: bool

definition new_remember :: "fm_ext \<Rightarrow> uuid \<Rightarrow> yaml" where
  "new_remember e u =
     mapping (appendScalarPair ''note_id'' (quoted (x_uuid_string (fm_base e) u))
       (appendScalarPair ''schema'' (scalar ''!!int'' ''1'') []))"

definition EnsureIdentity :: "fm_ext \<Rightarrow> string \<Rightarrow> uuid \<Rightarrow> fm_error + patch_result" where
  "EnsureIdentity e md candidate =
     rbind (parse_markdown e md) (\<lambda>p.
       if in_remember (pd_inspection p)
       then Inr \<lparr>pt_markdown = md, pt_note = in_note (pd_inspection p), pt_changed = False\<rparr>
       else if candidate = uuid_nil \<or> \<not> x_uuid_rfc4122 (fm_base e) candidate
       then Inl (ProblemInvalidNoteID, x_uuid_string (fm_base e) candidate)
       else let document = (case pd_document p of
                  Some d \<Rightarrow> d | None \<Rightarrow> Yaml DocumentNode [] [] 0 [mapping []]) in
         rbind (render e (edit_root (appendScalarPair ''remember'' (new_remember e candidate)) document)
             (pd_newline p) (pd_body p)) (\<lambda>out.
           Inr \<lparr>pt_markdown = out, pt_note = candidate, pt_changed = True\<rparr>))"

record conflict_origin =
  co_note :: uuid
  co_operation :: uuid
  co_reason :: string
  co_target :: string
  co_base :: nat
  co_canonical :: nat

definition conflict_node :: "fm_ext \<Rightarrow> conflict_origin \<Rightarrow> yaml" where
  "conflict_node e origin =
     mapping (fold (\<lambda>(key, value). appendScalarPair key value)
       [(''original_note_id'', quoted (x_uuid_string (fm_base e) (co_note origin))),
        (''operation_id'', quoted (x_uuid_string (fm_base e) (co_operation origin))),
        (''reason'', scalar ''!!str'' (co_reason origin)),
        (''original_target'', scalar ''!!str'' (co_target origin)),
        (''base_revision'', scalar ''!!int'' (decimal (co_base origin))),
        (''canonical_revision'', scalar ''!!int'' (decimal (co_canonical origin)))] [])"

definition origin_ok :: "fm_ext \<Rightarrow> uuid \<Rightarrow> uuid \<Rightarrow> conflict_origin \<Rightarrow> bool" where
  "origin_ok e expected conflict origin \<longleftrightarrow>
     expected \<noteq> uuid_nil \<and> conflict \<noteq> uuid_nil \<and> x_uuid_rfc4122 (fm_base e) conflict \<and>
     co_note origin = expected \<and> co_operation origin \<noteq> uuid_nil \<and> co_reason origin \<noteq> [] \<and>
     co_target origin \<noteq> [] \<and>
     (co_canonical origin = 0 \<longrightarrow>
        co_reason origin \<in> {''path_collision'', ''object_missing'', ''parent_unavailable''})"

definition MaterializeConflictCopy ::
  "fm_ext \<Rightarrow> string \<Rightarrow> uuid \<Rightarrow> uuid \<Rightarrow> conflict_origin \<Rightarrow> fm_error + string" where
  "MaterializeConflictCopy e md expected conflict origin =
     rbind (parse_markdown e md) (\<lambda>p.
       if \<not> in_remember (pd_inspection p) \<or> in_note (pd_inspection p) \<noteq> expected \<or>
          \<not> origin_ok e expected conflict origin
       then Inl (ProblemInvalidNoteID, x_uuid_string (fm_base e) expected)
       else render e (edit_remember
           (setMappingPair ''conflict'' (conflict_node e origin) \<circ>
            setMappingPair ''note_id'' (quoted (x_uuid_string (fm_base e) conflict)))
           (the (pd_document p))) (pd_newline p) (pd_body p))"

definition RekeyIdentity :: "fm_ext \<Rightarrow> string \<Rightarrow> uuid \<Rightarrow> uuid \<Rightarrow> fm_error + string" where
  "RekeyIdentity e md expected replacement =
     rbind (parse_markdown e md) (\<lambda>p.
       if \<not> in_remember (pd_inspection p) \<or> expected = uuid_nil \<or> in_note (pd_inspection p) \<noteq> expected \<or>
          replacement = uuid_nil \<or> \<not> x_uuid_rfc4122 (fm_base e) replacement \<or> replacement = expected
       then Inl (ProblemInvalidNoteID, x_uuid_string (fm_base e) expected)
       else render e (edit_remember
           (setMappingPair ''note_id'' (quoted (x_uuid_string (fm_base e) replacement)))
           (the (pd_document p))) (pd_newline p) (pd_body p))"

definition tags_node :: "string list \<Rightarrow> yaml" where
  "tags_node tags = Yaml SequenceNode ''!!seq'' [] 0 (map (scalar ''!!str'') tags)"

definition set_tags :: "string list \<Rightarrow> yaml list \<Rightarrow> yaml list" where
  "set_tags tags content =
     (if tags = [] then removeMappingPair ''tags'' content
      else setMappingPair ''tags'' (tags_node tags) content)"

definition UpdateEditable :: "fm_ext \<Rightarrow> string \<Rightarrow> uuid \<Rightarrow> string \<Rightarrow> string list \<Rightarrow> fm_error + string" where
  "UpdateEditable e md expected body tags =
     rbind (parse_markdown e md) (\<lambda>p.
       if \<not> in_remember (pd_inspection p) \<or> expected = uuid_nil \<or> in_note (pd_inspection p) \<noteq> expected
       then Inl (ProblemInvalidNoteID, x_uuid_string (fm_base e) expected)
       else rbind (NormalizeTags (fm_base e) tags) (\<lambda>tags.
         render e (edit_remember (set_tags tags) (the (pd_document p))) (pd_newline p)
           (if pd_newline p = [cr, lf] then to_crlf (to_lf body) else body)))"

end
