(* ===== verification/Front_Matter_Safety.thy ===== *)
theory Front_Matter_Safety
  imports Front_Matter
begin

text \<open>
  What the edits of a note's metadata promise: what was written is read back, the body stays as it is,
  and keys the program does not know keep their values. The YAML library enters through one law: it
  decodes what it encoded, up to style, and its output can stand between the fences.
\<close>

section \<open>Nodes up to style\<close>

fun plain :: "yaml \<Rightarrow> yaml" where
  "plain (Yaml kind tag val style content) = Yaml kind tag val 0 (map plain content)"

lemma plain_simps [simp]:
  "y_kind (plain n) = y_kind n" "y_tag (plain n) = y_tag n" "y_value (plain n) = y_value n"
  "y_content (plain n) = map plain (y_content n)" "plain (scalar t v) = scalar t v"
  by (cases n; simp add: scalar_def)+

lemma is_key_plain [simp]: "is_key key (plain n) = is_key key n"
  by (simp add: is_key_def)

lemma mapping_value_plain: "mapping_value (map plain content) key = map_option plain (mapping_value content key)"
  by (induction content key rule: mapping_value.induct) auto

lemma mappingValue_plain: "mappingValue (plain n) key = map_option plain (mappingValue n key)"
  by (simp add: mappingValue_def mapping_value_plain)

lemma duplicate_pair_plain: "duplicate_pair seen (map plain content) = duplicate_pair seen content"
  by (induction seen content rule: duplicate_pair.induct) (auto simp: Let_def)

lemma findDuplicateKey_plain [simp]: "findDuplicateKey (plain n) = findDuplicateKey n"
proof (induction n)
  case (Yaml kind tag val style content)
  then have "map findDuplicateKey (map plain content) = map findDuplicateKey content" by simp
  then show ?case by (simp only: plain.simps findDuplicateKey.simps duplicate_pair_plain)
qed

lemma stored_tags_plain: "stored_tags x seen (map plain items) = stored_tags x seen items"
  by (induction x seen items rule: stored_tags.induct) (auto simp: rbind_def split: sum.splits)

lemma validateStoredTags_plain [simp]: "validateStoredTags x (plain n) = validateStoredTags x n"
  by (simp add: validateStoredTags_def stored_tags_plain)

lemma check_schema_plain [simp]: "check_schema (plain n) = check_schema n"
  by (cases "mappingValue n ''schema''") (simp_all add: check_schema_def mappingValue_plain split: option.split)

lemma check_note_id_plain [simp]: "check_note_id e (plain n) = check_note_id e n"
  by (cases "mappingValue n ''note_id''") (simp_all add: check_note_id_def mappingValue_plain split: option.split)

lemma check_tags_plain [simp]: "check_tags e (plain n) = check_tags e n"
  by (cases "mappingValue n ''tags''") (simp_all add: check_tags_def mappingValue_plain)

lemma inspect_root_plain: "inspect_root e (plain root) = inspect_root e root"
  by (cases "mappingValue root ''remember''") (simp_all add: inspect_root_def mappingValue_plain)

lemma same_inspection: "plain a = plain b \<Longrightarrow> inspect_root e a = inspect_root e b"
  by (metis inspect_root_plain)

lemma same_duplicates: "plain a = plain b \<Longrightarrow> findDuplicateKey a = findDuplicateKey b"
  by (metis findDuplicateKey_plain)

section \<open>The law of the YAML library\<close>

fun wf_yaml :: "yaml \<Rightarrow> bool" where
  "wf_yaml (Yaml kind tag val style content) \<longleftrightarrow>
     (kind = MappingNode \<longrightarrow> even (length content)) \<and> CHR 0x00 \<notin> set tag \<and> list_all wf_yaml content"

definition unfenced :: "string \<Rightarrow> bool" where
  "unfenced s \<longleftrightarrow> (s = [] \<or> last s = lf) \<and> (\<forall>line\<in>set (split_on lf s). strip_cr line \<noteq> fence)"

text \<open>
  Decoded mappings hold pairs, and a tag has no zero byte. What the encoder writes is lines that end in a line feed, none of them a
  fence and none with a carriage return, with something on them; with either line end it decodes to the
  same nodes.
\<close>

definition yaml_law :: "fm_ext \<Rightarrow> bool" where
  "yaml_law e \<longleftrightarrow>
     (\<forall>s document. fm_decode e s = Inr document \<longrightarrow> wf_yaml document) \<and>
     (\<forall>document out. fm_encode e document = Inr out \<longrightarrow>
        unfenced out \<and> cr \<notin> set out \<and> trim_space out \<noteq> [] \<and> trim_space (to_crlf out) \<noteq> [] \<and>
        (\<forall>text\<in>{out, to_crlf out}. \<exists>document'. fm_decode e text = Inr document' \<and>
           map plain (y_content document') = map plain (y_content document)))"

definition uuid_text_law :: "fm_ext \<Rightarrow> bool" where
  "uuid_text_law e \<longleftrightarrow> (\<forall>u. fm_parse_uuid e (x_uuid_string (fm_base e) u) = Some u)"

section \<open>Fences\<close>

lemma line_split:
  assumes "lf \<in> set s"
  obtains line rest where "s = line @ lf # rest" "lf \<notin> set line"
  using assms by (metis split_list_first)

lemma close_fence_step:
  assumes "lf \<notin> set line" "strip_cr line \<noteq> fence"
  shows "close_fence (line @ lf # rest) = map_option (\<lambda>(yaml, body). (line @ lf # yaml, body)) (close_fence rest)"
  using assms by (subst close_fence.simps) (simp add: Let_def takeWhile_append dropWhile_append)

lemma close_fence_here:
  assumes "lf \<notin> set line" "strip_cr line = fence"
  shows "close_fence (line @ lf # rest) = Some ([], rest)"
  using assms by (subst close_fence.simps) (simp add: Let_def takeWhile_append dropWhile_append)

lemma unfenced_line:
  assumes "lf \<notin> set line"
  shows "unfenced (line @ lf # rest) \<longleftrightarrow> strip_cr line \<noteq> fence \<and> unfenced rest"
  using assms by (auto simp: unfenced_def split_on_append)

lemma unfenced_induct [consumes 1, case_names Nil line]:
  assumes "unfenced s" and "P []"
    and "\<And>line rest. lf \<notin> set line \<Longrightarrow> strip_cr line \<noteq> fence \<Longrightarrow> unfenced rest \<Longrightarrow> P rest \<Longrightarrow> P (line @ lf # rest)"
  shows "P s"
  using assms(1)
proof (induction s rule: measure_induct_rule [of length])
  case (less s)
  show ?case
  proof (cases "lf \<in> set s")
    case True
    then obtain line rest where s: "s = line @ lf # rest" "lf \<notin> set line" by (rule line_split)
    with less.prems have "strip_cr line \<noteq> fence" "unfenced rest" by (simp_all add: unfenced_line)
    with less.IH [of rest] s assms(3) show ?thesis by simp
  next
    case False
    with less.prems have "s = []" by (metis last_in_set unfenced_def)
    with assms(2) show ?thesis by simp
  qed
qed

definition newline_ok :: "string \<Rightarrow> bool" where
  "newline_ok nl \<longleftrightarrow> nl = [lf] \<or> nl = [cr, lf]"

lemma close_fence_unfenced:
  assumes "unfenced text" "newline_ok nl"
  shows "close_fence (text @ fence @ nl @ body) = Some (text, body)"
  using assms(1)
proof (induction rule: unfenced_induct)
  case Nil
  have "close_fence (fence @ lf # body) = Some ([], body)" "close_fence ((fence @ [cr]) @ lf # body) = Some ([], body)"
    by (rule close_fence_here; simp add: fence_def strip_cr_def lf_def cr_def)+
  then show ?case using assms(2) by (auto simp: newline_ok_def)
next
  case (line line rest)
  then show ?case by (simp add: close_fence_step)
qed

lemma to_crlf_append [simp]: "to_crlf (a @ b) = to_crlf a @ to_crlf b"
  by (simp add: to_crlf_def)

lemma to_crlf_id: "lf \<notin> set s \<Longrightarrow> to_crlf s = s"
  by (induction s) (auto simp: to_crlf_def)

lemma to_crlf_lf: "to_crlf (lf # s) = cr # lf # to_crlf s"
  by (simp add: to_crlf_def)

lemma unfenced_crlf:
  assumes "unfenced s" "cr \<notin> set s"
  shows "unfenced (to_crlf s)"
  using assms
proof (induction rule: unfenced_induct)
  case Nil
  then show ?case by (simp add: to_crlf_def unfenced_def strip_cr_def fence_def)
next
  case (line line rest)
  then have "strip_cr line = line" by (auto simp: strip_cr_def dest: last_in_set)
  with line have "strip_cr (line @ [cr]) \<noteq> fence" by (simp add: strip_cr_def)
  moreover have "lf \<notin> set (line @ [cr])" using line by (simp add: lf_def cr_def)
  ultimately show ?case
    using line unfenced_line [of "line @ [cr]" "to_crlf rest"] by (simp add: to_crlf_id to_crlf_lf)
qed

lemma split_assemble:
  assumes "unfenced text" "cr \<notin> set text" "newline_ok nl"
  shows "split_markdown (assemble nl text body) =
    Inr \<lparr>sp_yaml = (if nl = [cr, lf] then to_crlf text else text), sp_body = body, sp_newline = nl, sp_has = True\<rparr>"
proof -
  let ?text = "if nl = [cr, lf] then to_crlf text else text"
  have "unfenced ?text" using assms unfenced_crlf by simp
  then have close: "close_fence (?text @ fence @ nl @ body) = Some (?text, body)"
    by (rule close_fence_unfenced) (rule assms(3))
  from assms(3) consider "nl = [lf]" | "nl = [cr, lf]" by (auto simp: newline_ok_def)
  then show ?thesis
  proof cases
    case 1
    with close show ?thesis
      by (simp add: split_markdown_def assemble_def has_prefix_def fence_def Let_def lf_def cr_def)
  next
    case 2
    with close show ?thesis
      by (simp add: split_markdown_def assemble_def has_prefix_def fence_def Let_def lf_def cr_def)
  qed
qed

lemma split_newline_ok: "split_markdown md = Inr s \<Longrightarrow> newline_ok (sp_newline s)"
  by (auto simp: split_markdown_def newline_ok_def Let_def split: if_splits option.splits)

lemma parse_newline_ok: "parse_markdown e md = Inr p \<Longrightarrow> newline_ok (pd_newline p)"
  by (auto simp: parse_markdown_def rbind_Inr_iff newline_ok_def dest: split_newline_ok split: if_splits)

section \<open>Edited mappings\<close>

lemma wf_yaml_iff:
  "wf_yaml n \<longleftrightarrow> (y_kind n = MappingNode \<longrightarrow> even (length (y_content n))) \<and> CHR 0x00 \<notin> set (y_tag n) \<and>
     (\<forall>c\<in>set (y_content n). wf_yaml c)"
  by (cases n) (simp add: list_all_iff)

lemma wf_yamlD:
  assumes "wf_yaml n"
  shows "y_kind n = MappingNode \<Longrightarrow> even (length (y_content n))" "CHR 0x00 \<notin> set (y_tag n)"
    "c \<in> set (y_content n) \<Longrightarrow> wf_yaml c" "\<forall>c\<in>set (y_content n). CHR 0x00 \<notin> set (y_tag c)"
  using assms by (cases n; force simp: list_all_iff dest: wf_yaml_iff [THEN iffD1])+

lemma with_content_simps [simp]:
  "y_kind (with_content c n) = y_kind n" "y_tag (with_content c n) = y_tag n" "y_content (with_content c n) = c"
  by (simp_all add: with_content_def)

lemma is_key_unique: "is_key key n \<Longrightarrow> is_key k n \<longleftrightarrow> k = key"
  by (auto simp: is_key_def)

lemma is_key_scalar [simp]: "is_key k (scalar t key) \<longleftrightarrow> k = key"
  by (auto simp: is_key_def scalar_def)

lemma replace_pair_None: "replace_pair c key v = None \<longleftrightarrow> mapping_value c key = None"
  by (induction c key v rule: replace_pair.induct) auto

lemma replace_pair_value:
  "replace_pair c key v = Some c' \<Longrightarrow> mapping_value c' k = (if k = key then Some v else mapping_value c k)"
  by (induction c key v arbitrary: c' rule: replace_pair.induct) (auto simp: is_key_unique split: if_splits)

lemma replace_pair_duplicates: "replace_pair c key v = Some c' \<Longrightarrow> duplicate_pair seen c' = duplicate_pair seen c"
  by (induction c key v arbitrary: c' seen rule: replace_pair.induct) (auto simp: Let_def split: if_splits)

lemma replace_pair_length: "replace_pair c key v = Some c' \<Longrightarrow> length c' = length c"
  by (induction c key v arbitrary: c' rule: replace_pair.induct) (auto split: if_splits)

lemma replace_pair_set: "replace_pair c key v = Some c' \<Longrightarrow> n \<in> set c' \<Longrightarrow> n = v \<or> n \<in> set c"
  by (induction c key v arbitrary: c' rule: replace_pair.induct) (auto split: if_splits)

lemma mapping_value_append:
  "even (length c) \<Longrightarrow> mapping_value (c @ [scalar t key, v]) k =
     (case mapping_value c k of Some n \<Rightarrow> Some n | None \<Rightarrow> if k = key then Some v else None)"
  by (induction c k rule: mapping_value.induct) (auto split: option.split)

lemma identity_inject:
  assumes "CHR 0x00 \<notin> set t" "CHR 0x00 \<notin> set t'"
  shows "t @ CHR 0x00 # s = t' @ CHR 0x00 # s' \<longleftrightarrow> t = t' \<and> s = s'"
proof -
  have "takeWhile (\<lambda>c. c \<noteq> CHR 0x00) (u @ CHR 0x00 # w) = u" if "CHR 0x00 \<notin> set u" for u w
    using that by (induction u) auto
  from this [OF assms(1), of s] this [OF assms(2), of s'] show ?thesis by auto
qed

lemma duplicate_pair_append:
  assumes "even (length c)" "\<forall>n\<in>set c. CHR 0x00 \<notin> set (y_tag n)" "mapping_value c key = None"
    and "''!!str'' @ CHR 0x00 # key \<notin> set seen"
  shows "duplicate_pair seen (c @ [scalar ''!!str'' key, v]) = duplicate_pair seen c"
  using assms
proof (induction seen c rule: duplicate_pair.induct)
  case (1 seen k w rest)
  then have rest: "even (length rest)" "\<forall>n\<in>set rest. CHR 0x00 \<notin> set (y_tag n)" "mapping_value rest key = None"
    and other: "\<not> is_key key k" "CHR 0x00 \<notin> set (y_tag k)"
    by (simp_all split: if_splits)
  have "y_tag k @ CHR 0x00 # y_value k \<noteq> ''!!str'' @ CHR 0x00 # key" if "y_kind k = ScalarNode"
    using other that by (subst identity_inject) (simp_all add: is_key_def)
  with rest "1.prems"(4) "1.IH" show ?case
    by (cases "y_kind k = ScalarNode"; cases "y_tag k @ CHR 0x00 # y_value k \<in> set seen") (simp_all add: Let_def)
qed (auto simp: scalar_def)

lemma setMappingPair_value:
  "even (length c) \<Longrightarrow> mapping_value (setMappingPair key v c) k = (if k = key then Some v else mapping_value c k)"
  by (auto simp: setMappingPair_def appendScalarPair_def replace_pair_None replace_pair_value mapping_value_append
      split: option.split)

lemma setMappingPair_even: "even (length c) \<Longrightarrow> even (length (setMappingPair key v c))"
  by (auto simp: setMappingPair_def appendScalarPair_def dest: replace_pair_length split: option.split)

lemma setMappingPair_set: "n \<in> set (setMappingPair key v c) \<Longrightarrow> n = v \<or> n = scalar ''!!str'' key \<or> n \<in> set c"
  by (auto simp: setMappingPair_def appendScalarPair_def dest: replace_pair_set split: option.splits)

lemma setMappingPair_duplicates:
  assumes "even (length c)" "\<forall>n\<in>set c. CHR 0x00 \<notin> set (y_tag n)"
  shows "duplicate_pair [] (setMappingPair key v c) = duplicate_pair [] c"
  using assms
  by (auto simp: setMappingPair_def appendScalarPair_def replace_pair_None duplicate_pair_append
      replace_pair_duplicates split: option.split)

section \<open>Duplicate keys after an edit\<close>

lemma findDuplicateKey_eq:
  "findDuplicateKey n =
     (case (if y_kind n = MappingNode then duplicate_pair [] (y_content n) else None) of
        Some key \<Rightarrow> key | None \<Rightarrow> first_nonempty (map findDuplicateKey (y_content n)))"
  by (cases n) (simp only: findDuplicateKey.simps yaml.sel)

lemma first_nonempty_Nil: "first_nonempty xs = [] \<longleftrightarrow> (\<forall>s\<in>set xs. s = [])"
  by (auto simp: first_nonempty_def find_None_iff find_Some_iff split: option.split)

lemma findDuplicateKey_scalar [simp]: "findDuplicateKey (scalar t v) = []"
  by (simp add: scalar_def first_nonempty_def)

lemma findDuplicateKey_edit:
  assumes "findDuplicateKey n = []" "y_kind n = MappingNode"
    and "duplicate_pair [] c = duplicate_pair [] (y_content n)"
    and "duplicate_pair [] (y_content n) = None \<Longrightarrow>
      \<forall>m\<in>set c. m \<in> set (y_content n) \<or> findDuplicateKey m = []"
  shows "findDuplicateKey (with_content c n) = []"
  using assms by (auto simp: findDuplicateKey_eq [of n] findDuplicateKey_eq [of "with_content c n"]
      first_nonempty_Nil split: option.splits)

lemma findDuplicateKey_child:
  "findDuplicateKey n = [] \<Longrightarrow> y_kind n = MappingNode \<Longrightarrow> duplicate_pair [] (y_content n) = None \<Longrightarrow>
     m \<in> set (y_content n) \<Longrightarrow> findDuplicateKey m = []"
  by (simp add: findDuplicateKey_eq [of n] first_nonempty_Nil)

lemma mapping_value_in: "mapping_value c key = Some v \<Longrightarrow> v \<in> set c"
  by (induction c key rule: mapping_value.induct) (auto split: if_splits)

end
