(* ===== verification/Front_Matter_Edits.thy ===== *)
theory Front_Matter_Edits
  imports Front_Matter_Safety
begin

text \<open>
  The edits read back: an encoded document is parsed again with the inspection its nodes have, and each of
  the four edits changes of the inspection, the body and the other keys what it says and nothing else.
\<close>

section \<open>Rendering and parsing\<close>

lemma decode_render:
  assumes law: "yaml_law e" and enc: "fm_encode e document = Inr yml"
  obtains document' where "decode_document e (if crlf then to_crlf yml else yml) = Inr document'"
    "map plain (y_content document') = map plain (y_content document)"
proof -
  let ?yml = "if crlf then to_crlf yml else yml"
  have "trim_space ?yml \<noteq> []" "?yml \<in> {yml, to_crlf yml}"
    using law enc by (auto simp: yaml_law_def)
  moreover obtain document' where "fm_decode e ?yml = Inr document'"
      "map plain (y_content document') = map plain (y_content document)"
    using law enc calculation(2) unfolding yaml_law_def by blast
  ultimately show thesis using that by (simp add: decode_document_def)
qed

lemma parse_render:
  assumes law: "yaml_law e" and out: "render e document nl body = Inr out" and nl: "newline_ok nl"
    and doc: "y_content document = [root]" "y_kind root = MappingNode" "findDuplicateKey root = []"
    and ins: "inspect_root e root = Inr i"
  obtains document' root' where "parse_markdown e out = Inr \<lparr>pd_inspection = i, pd_document = Some document',
      pd_body = body, pd_newline = nl\<rparr>" "y_content document' = [root']" "plain root' = plain root"
proof -
  from out obtain yml where enc: "fm_encode e document = Inr yml" and out': "out = assemble nl yml body"
    by (auto simp: render_def split: sum.splits)
  from decode_render [OF law enc, of "nl = [cr, lf]"] obtain document'
    where d: "decode_document e (if nl = [cr, lf] then to_crlf yml else yml) = Inr document'"
      "map plain (y_content document') = map plain (y_content document)" by blast
  from d(2) doc(1) obtain root' where root': "y_content document' = [root']" "plain root' = plain root" by auto
  have "y_kind root' = MappingNode" using root'(2) doc(2) plain_simps(1) by metis
  then have "document_root document' = Inr root'"
    using root' same_duplicates [OF root'(2)] doc(3) by (simp add: document_root_def Let_def)
  moreover have "inspect_root e root' = Inr i" using same_inspection [OF root'(2)] ins by simp
  moreover have "split_markdown out = Inr \<lparr>sp_yaml = (if nl = [cr, lf] then to_crlf yml else yml),
      sp_body = body, sp_newline = nl, sp_has = True\<rparr>"
    unfolding out' using law enc by (intro split_assemble nl) (auto simp: yaml_law_def)
  ultimately have "parse_markdown e out = Inr \<lparr>pd_inspection = i, pd_document = Some document',
      pd_body = body, pd_newline = nl\<rparr>"
    using d(1) by (simp add: parse_markdown_def)
  from that [OF this root'] show thesis .
qed

section \<open>What a parsed document is\<close>

definition rooted :: "fm_ext \<Rightarrow> parsed_document \<Rightarrow> yaml \<Rightarrow> yaml \<Rightarrow> bool" where
  "rooted e p document root \<longleftrightarrow>
     pd_document p = Some document \<and> y_content document = [root] \<and> y_kind root = MappingNode \<and>
     findDuplicateKey root = [] \<and> wf_yaml root \<and> inspect_root e root = Inr (pd_inspection p)"

lemma empty_mapping [simp]:
  "y_kind (mapping c) = MappingNode" "y_content (mapping c) = c" "wf_yaml (mapping [])"
  "findDuplicateKey (mapping []) = []"
  by (simp_all add: mapping_def first_nonempty_def)

lemma parse_cases [consumes 2, case_names absent present]:
  assumes parse: "parse_markdown e md = Inr p" and law: "yaml_law e"
  obtains "pd_document p = None" "pd_inspection p = no_inspection" "pd_body p = md"
  | document root where "rooted e p document root"
proof -
  from parse obtain s where s: "split_markdown md = Inr s"
      "(if \<not> sp_has s
       then Inr \<lparr>pd_inspection = no_inspection, pd_document = None, pd_body = md,
                 pd_newline = (if contains_crlf md then [cr, lf] else [lf])\<rparr>
       else rbind (decode_document e (sp_yaml s)) (\<lambda>document.
            rbind (document_root document) (\<lambda>root.
            rbind (inspect_root e root) (\<lambda>inspection.
              Inr \<lparr>pd_inspection = inspection, pd_document = Some document, pd_body = sp_body s,
                   pd_newline = sp_newline s\<rparr>)))) = Inr p"
    unfolding parse_markdown_def by (rule rbind_InrE)
  show thesis
  proof (cases "sp_has s")
    case False
    with s(2) have "pd_document p = None" "pd_inspection p = no_inspection" "pd_body p = md" by auto
    with that(1) show thesis .
  next
    case True
    with s(2) obtain document root where d: "decode_document e (sp_yaml s) = Inr document"
        "document_root document = Inr root" "inspect_root e root = Inr (pd_inspection p)"
        "pd_document p = Some document"
      by (auto simp: rbind_Inr_iff)
    have "wf_yaml document" using d(1) law
      by (auto simp: decode_document_def yaml_law_def mapping_def split: if_splits sum.splits)
    moreover from d(2) have "y_content document = [root]" "y_kind root = MappingNode" "findDuplicateKey root = []"
      by (auto simp: document_root_def Let_def length_Suc_conv split: if_splits)
    ultimately have "rooted e p document root"
      using d wf_yamlD(3) by (auto simp: rooted_def)
    with that(2) show thesis .
  qed
qed

definition remembered :: "fm_ext \<Rightarrow> parsed_document \<Rightarrow> yaml \<Rightarrow> yaml \<Rightarrow> yaml \<Rightarrow> bool" where
  "remembered e p document root r \<longleftrightarrow>
     rooted e p document root \<and> in_front (pd_inspection p) \<and> mappingValue root ''remember'' = Some r \<and> y_kind r = MappingNode \<and>
     check_schema r = Inr (in_schema (pd_inspection p)) \<and> check_note_id e r = Inr (in_note (pd_inspection p)) \<and>
     check_tags e r = Inr (in_tags (pd_inspection p))"

lemma parse_remembered:
  assumes parse: "parse_markdown e md = Inr p" and law: "yaml_law e" and "in_remember (pd_inspection p)"
  obtains document root r where "remembered e p document root r"
  using parse law
proof (cases rule: parse_cases)
  case absent
  with assms(3) show thesis by (simp add: no_inspection_def)
next
  case (present document root)
  then have ins: "inspect_root e root = Inr (pd_inspection p)" by (simp add: rooted_def)
  from ins have "Inr (pd_inspection p) = inspect_root e root" ..
  with assms(3) obtain r where r: "mappingValue root ''remember'' = Some r" "y_kind r = MappingNode"
    by (cases "mappingValue root ''remember''") (auto simp: inspect_root_def no_inspection_def split: if_splits)
  from ins r have "in_front (pd_inspection p)" "check_schema r = Inr (in_schema (pd_inspection p))"
    "check_note_id e r = Inr (in_note (pd_inspection p))" "check_tags e r = Inr (in_tags (pd_inspection p))"
    by (auto simp: inspect_root_def rbind_Inr_iff dest!: sym [of _ "pd_inspection p"])
  with present r that show thesis by (simp add: remembered_def)
qed

lemma inspect_remember:
  assumes "mappingValue root ''remember'' = Some r" "y_kind r = MappingNode"
    and "check_schema r = Inr sc" "check_note_id e r = Inr u" "check_tags e r = Inr ts"
  shows "inspect_root e root = Inr \<lparr>in_front = True, in_remember = True, in_note = u, in_schema = sc, in_tags = ts\<rparr>"
  using assms by (simp add: inspect_root_def)

section \<open>Edits of the \<open>remember\<close> mapping\<close>

definition edited_root :: "(yaml list \<Rightarrow> yaml list) \<Rightarrow> yaml \<Rightarrow> yaml \<Rightarrow> yaml" where
  "edited_root f root r =
     with_content (setMappingPair ''remember'' (with_content (f (y_content r)) r) (y_content root)) root"

lemma edit_remember_root:
  assumes "y_content document = [root]" "mappingValue root ''remember'' = Some r"
  shows "y_content (edit_remember f document) = [edited_root f root r]"
  using assms by (simp add: edit_remember_def edit_root_def edited_root_def mappingValue_def)

text \<open>An edit that leaves the duplicates of the keys as they are.\<close>

definition clean_edit :: "(yaml list \<Rightarrow> yaml list) \<Rightarrow> yaml list \<Rightarrow> bool" where
  "clean_edit f c \<longleftrightarrow>
     duplicate_pair [] (f c) = duplicate_pair [] c \<and> (\<forall>m\<in>set (f c). m \<in> set c \<or> findDuplicateKey m = [])"

lemma edited_root_duplicates:
  assumes root: "y_kind root = MappingNode" "findDuplicateKey root = []" "wf_yaml root"
    and r: "mappingValue root ''remember'' = Some r" "y_kind r = MappingNode" and f: "clean_edit f (y_content r)"
  shows "findDuplicateKey (edited_root f root r) = []"
proof -
  let ?r = "with_content (f (y_content r)) r" and ?c = "setMappingPair ''remember''"
  have dup: "duplicate_pair [] (?c ?r (y_content root)) = duplicate_pair [] (y_content root)"
    using root by (intro setMappingPair_duplicates) (auto dest: wf_yamlD)
  have "findDuplicateKey ?r = []" if none: "duplicate_pair [] (y_content root) = None"
  proof -
    have "r \<in> set (y_content root)" using r(1) mapping_value_in by (simp add: mappingValue_def)
    then have clean: "findDuplicateKey r = []" using findDuplicateKey_child root none by blast
    show ?thesis
      using f findDuplicateKey_child [OF clean r(2)]
      by (intro findDuplicateKey_edit clean r(2)) (auto simp: clean_edit_def)
  qed
  then have "\<forall>m\<in>set (?c ?r (y_content root)). m \<in> set (y_content root) \<or> findDuplicateKey m = []"
    if "duplicate_pair [] (y_content root) = None" using that by (auto dest!: setMappingPair_set)
  with dup show ?thesis unfolding edited_root_def
    by (intro findDuplicateKey_edit root) auto
qed

lemma edited_root_value:
  assumes "wf_yaml root" "y_kind root = MappingNode"
  shows "mappingValue (edited_root f root r) key =
    (if key = ''remember'' then Some (with_content (f (y_content r)) r) else mappingValue root key)"
  using assms wf_yamlD(1) by (simp add: edited_root_def mappingValue_def setMappingPair_value)

lemma edit_reads:
  assumes parse: "parse_markdown e md = Inr p" and law: "yaml_law e" and rem: "remembered e p document root r"
    and out: "render e (edit_remember f document) (pd_newline p) body = Inr out"
    and f: "clean_edit f (y_content r)"
    and checks: "check_schema (with_content (f (y_content r)) r) = Inr sc"
      "check_note_id e (with_content (f (y_content r)) r) = Inr u"
      "check_tags e (with_content (f (y_content r)) r) = Inr ts"
  obtains document' root' where "parse_markdown e out = Inr
      \<lparr>pd_inspection = \<lparr>in_front = True, in_remember = True, in_note = u, in_schema = sc, in_tags = ts\<rparr>,
       pd_document = Some document', pd_body = body, pd_newline = pd_newline p\<rparr>"
    "y_content document' = [root']" "plain root' = plain (edited_root f root r)"
proof -
  from rem have root: "y_content document = [root]" "y_kind root = MappingNode" "findDuplicateKey root = []"
      "wf_yaml root" and r: "mappingValue root ''remember'' = Some r" "y_kind r = MappingNode"
    by (simp_all add: remembered_def rooted_def)
  have "inspect_root e (edited_root f root r) = Inr
      \<lparr>in_front = True, in_remember = True, in_note = u, in_schema = sc, in_tags = ts\<rparr>"
    using edited_root_value [OF root(4,2), of f r "''remember''"] r checks by (intro inspect_remember) auto
  with parse_render [OF law out parse_newline_ok [OF parse] edit_remember_root [OF root(1) r(1)]]
    edited_root_duplicates [OF root(2,3,4) r f] root(2) that
  show thesis by (auto simp: edited_root_def)
qed

lemma setMappingPair_clean:
  assumes "wf_yaml r" "y_kind r = MappingNode" "findDuplicateKey v = []"
  shows "clean_edit (setMappingPair key v) (y_content r)"
  using assms wf_yamlD(1,4) [OF assms(1)] by (auto simp: clean_edit_def setMappingPair_duplicates
      dest: setMappingPair_set)

lemma remembered_wf:
  assumes "remembered e p document root r"
  shows "wf_yaml r" "y_kind r = MappingNode" "even (length (y_content r))"
proof -
  have "r \<in> set (y_content root)" using assms mapping_value_in by (auto simp: remembered_def mappingValue_def)
  then show "wf_yaml r" "y_kind r = MappingNode" using assms by (auto simp: remembered_def rooted_def dest: wf_yamlD(3))
  then show "even (length (y_content r))" by (rule wf_yamlD(1))
qed

section \<open>A new identity\<close>

lemma check_congs:
  "mappingValue a ''schema'' = mappingValue b ''schema'' \<Longrightarrow> check_schema a = check_schema b"
  "mappingValue a ''note_id'' = mappingValue b ''note_id'' \<Longrightarrow> check_note_id e a = check_note_id e b"
  "mappingValue a ''tags'' = mappingValue b ''tags'' \<Longrightarrow> check_tags e a = check_tags e b"
  by (simp_all add: check_schema_def check_note_id_def check_tags_def)

lemma quoted_simps [simp]:
  "y_kind (quoted t) = ScalarNode" "y_tag (quoted t) = ''!!str''" "y_value (quoted t) = t"
  "findDuplicateKey (quoted t) = []"
  by (simp_all add: quoted_def first_nonempty_def)

definition id_ok :: "fm_ext \<Rightarrow> uuid \<Rightarrow> bool" where
  "id_ok e u \<longleftrightarrow> u \<noteq> uuid_nil \<and> x_uuid_rfc4122 (fm_base e) u"

lemma check_note_id_quoted:
  assumes "uuid_text_law e" "id_ok e u" "mappingValue r ''note_id'' = Some (quoted (x_uuid_string (fm_base e) u))"
  shows "check_note_id e r = Inr u"
  using assms by (simp add: check_note_id_def uuid_text_law_def id_ok_def)

lemma with_content_value: "mappingValue (with_content c n) key = mapping_value c key"
  by (simp add: mappingValue_def)

lemma even_value_set:
  "even (length (y_content r)) \<Longrightarrow>
     mappingValue (with_content (setMappingPair key v (y_content r)) r) k = (if k = key then Some v else mappingValue r k)"
  by (simp add: with_content_value setMappingPair_value mappingValue_def)

lemma rekey_reads:
  assumes law: "yaml_law e" "uuid_text_law e" and run: "RekeyIdentity e md expected u = Inr out"
  obtains p p' where "parse_markdown e md = Inr p" "parse_markdown e out = Inr p'"
    "in_note (pd_inspection p) = expected" "pd_inspection p' = (pd_inspection p)\<lparr>in_note := u\<rparr>"
    "pd_body p' = pd_body p" "pd_newline p' = pd_newline p"
proof -
  let ?f = "setMappingPair ''note_id'' (quoted (x_uuid_string (fm_base e) u))"
  from run obtain p where p: "parse_markdown e md = Inr p" "in_remember (pd_inspection p)" "id_ok e u"
      "in_note (pd_inspection p) = expected"
      "render e (edit_remember ?f (the (pd_document p))) (pd_newline p) (pd_body p) = Inr out"
    by (auto simp: RekeyIdentity_def rbind_Inr_iff id_ok_def split: if_splits)
  from parse_remembered [OF p(1) law(1) p(2)] obtain document root r where rem: "remembered e p document root r" .
  note wf = remembered_wf [OF rem]
  from rem have "render e (edit_remember ?f document) (pd_newline p) (pd_body p) = Inr out"
    using p(5) by (simp add: remembered_def rooted_def)
  moreover have "clean_edit ?f (y_content r)" using wf by (intro setMappingPair_clean) auto
  moreover have "check_schema (with_content (?f (y_content r)) r) = Inr (in_schema (pd_inspection p))"
    "check_tags e (with_content (?f (y_content r)) r) = Inr (in_tags (pd_inspection p))"
    using rem even_value_set [OF wf(3)] check_congs(1,3) [of "with_content (?f (y_content r)) r" r]
    by (simp_all add: remembered_def)
  moreover have "check_note_id e (with_content (?f (y_content r)) r) = Inr u"
    by (rule check_note_id_quoted [OF law(2) p(3)]) (simp add: even_value_set [OF wf(3)])
  ultimately obtain document' where "parse_markdown e out = Inr
      \<lparr>pd_inspection = \<lparr>in_front = True, in_remember = True, in_note = u, in_schema = in_schema (pd_inspection p),
         in_tags = in_tags (pd_inspection p)\<rparr>,
       pd_document = Some document', pd_body = pd_body p, pd_newline = pd_newline p\<rparr>"
    using edit_reads [OF p(1) law(1) rem] by metis
  moreover have "in_front (pd_inspection p)" using rem by (simp add: remembered_def)
  ultimately show thesis using that [OF p(1)] p(2,4) by simp
qed

section \<open>Body and tags\<close>

lemma normalized_stored:
  assumes "nfc_laws x"
  shows "normalize_tags x seen inputs = Inr ts \<Longrightarrow> stored_tags x seen (map (scalar ''!!str'') ts) = Inr ts"
  using assms
  by (induction x seen inputs arbitrary: ts rule: normalize_tags.induct)
    (auto simp: Let_def rbind_Inr_iff scalar_def nfc_laws_def split: if_splits)

lemma validate_tags_node:
  "nfc_laws x \<Longrightarrow> NormalizeTags x inputs = Inr ts \<Longrightarrow> validateStoredTags x (tags_node ts) = Inr ts"
  using normalized_stored by (simp add: validateStoredTags_def tags_node_def NormalizeTags_def)

lemma tags_node_clean [simp]: "findDuplicateKey (tags_node ts) = []"
  by (auto simp: tags_node_def first_nonempty_Nil)

fun scalar_keys :: "yaml list \<Rightarrow> string list" where
  "scalar_keys (k # v # rest) = (if y_kind k = ScalarNode then [y_value k] else []) @ scalar_keys rest"
| "scalar_keys _ = []"

definition keys_once :: "yaml list \<Rightarrow> bool" where
  "keys_once c \<longleftrightarrow> distinct (scalar_keys c)"

lemma mapping_value_key: "mapping_value c key \<noteq> None \<longleftrightarrow> key \<in> set (scalar_keys c)"
  by (induction c key rule: mapping_value.induct) (auto simp: is_key_def)

lemma duplicate_pair_keys:
  assumes "distinct (scalar_keys c)" "\<forall>n\<in>set c. CHR 0x00 \<notin> set (y_tag n)"
    and "\<forall>i\<in>set seen. \<exists>t s. i = t @ CHR 0x00 # s \<and> CHR 0x00 \<notin> set t \<and> s \<notin> set (scalar_keys c)"
  shows "duplicate_pair seen c = None"
  using assms
proof (induction seen c rule: duplicate_pair.induct)
  case (1 seen k v rest)
  have tag: "CHR 0x00 \<notin> set (y_tag k)" using "1.prems"(2) by simp
  show ?case
  proof (cases "y_kind k = ScalarNode")
    case True
    have "y_tag k @ CHR 0x00 # y_value k \<notin> set seen"
    proof
      assume "y_tag k @ CHR 0x00 # y_value k \<in> set seen"
      with "1.prems"(3) obtain t s where "y_tag k @ CHR 0x00 # y_value k = t @ CHR 0x00 # s"
        "CHR 0x00 \<notin> set t" "s \<notin> set (scalar_keys (k # v # rest))" by blast
      with True identity_inject [OF tag] show False by auto
    qed
    moreover have "\<forall>i\<in>set ((y_tag k @ CHR 0x00 # y_value k) # seen).
        \<exists>t s. i = t @ CHR 0x00 # s \<and> CHR 0x00 \<notin> set t \<and> s \<notin> set (scalar_keys rest)"
    proof (intro ballI)
      fix i
      assume "i \<in> set ((y_tag k @ CHR 0x00 # y_value k) # seen)"
      then show "\<exists>t s. i = t @ CHR 0x00 # s \<and> CHR 0x00 \<notin> set t \<and> s \<notin> set (scalar_keys rest)"
      proof (cases "i \<in> set seen")
        case True
        with "1.prems"(3) obtain t s where "i = t @ CHR 0x00 # s" "CHR 0x00 \<notin> set t"
          "s \<notin> set (scalar_keys (k # v # rest))" by blast
        then show ?thesis by auto
      next
        case False
        with \<open>i \<in> set (_ # seen)\<close> have "i = y_tag k @ CHR 0x00 # y_value k" by simp
        then show ?thesis using tag "1.prems"(1) \<open>y_kind k = ScalarNode\<close> by auto
      qed
    qed
    then have "duplicate_pair ((y_tag k @ CHR 0x00 # y_value k) # seen) rest = None"
      using "1.IH"(1) [of "y_tag k @ [CHR 0x00] @ y_value k"] True "1.prems"(1,2) calculation by simp
    ultimately show ?thesis using True by (simp add: Let_def)
  next
    case False
    with 1 show ?thesis by simp
  qed
qed auto

lemma remove_keys: "keys_once c \<Longrightarrow> scalar_keys (removeMappingPair key c) = filter (\<lambda>k. k \<noteq> key) (scalar_keys c)"
proof (induction key c rule: removeMappingPair.induct)
  case (1 key k v rest)
  then have rest: "keys_once rest" by (simp add: keys_once_def split: if_splits)
  show ?case
  proof (cases "is_key key k")
    case True
    with "1.prems" have "key \<notin> set (scalar_keys rest)" by (simp add: is_key_def keys_once_def)
    then have "filter (\<lambda>k. k \<noteq> key) (scalar_keys rest) = scalar_keys rest" by (auto simp: filter_id_conv)
    with True show ?thesis by (simp add: is_key_def)
  next
    case False
    with "1.IH" [OF False rest] show ?thesis by (simp add: is_key_def)
  qed
qed simp_all

lemma remove_set: "n \<in> set (removeMappingPair key c) \<Longrightarrow> n \<in> set c"
  by (induction key c rule: removeMappingPair.induct) (auto split: if_splits)

lemma remove_value:
  assumes "keys_once c"
  shows "mapping_value (removeMappingPair key c) k = (if k = key then None else mapping_value c k)"
proof (cases "k = key")
  case True
  then show ?thesis using mapping_value_key [of "removeMappingPair key c" k] remove_keys [OF assms] by simp
next
  case False
  then have "mapping_value (removeMappingPair key c) k = mapping_value c k"
    by (induction key c rule: removeMappingPair.induct) (auto simp: is_key_unique)
  with False show ?thesis by simp
qed

lemma set_tags_clean:
  assumes wf: "wf_yaml r" "y_kind r = MappingNode" and once: "keys_once (y_content r)"
  shows "clean_edit (set_tags ts) (y_content r)"
proof (cases "ts = []")
  case True
  have tags: "\<forall>n\<in>set (y_content r). CHR 0x00 \<notin> set (y_tag n)" by (rule wf_yamlD(4) [OF wf(1)])
  have "distinct (scalar_keys (removeMappingPair ''tags'' (y_content r)))"
    using once by (simp add: remove_keys) (simp add: keys_once_def)
  then have "duplicate_pair [] (removeMappingPair ''tags'' (y_content r)) = None"
    using tags by (intro duplicate_pair_keys) (auto dest: remove_set)
  moreover have "duplicate_pair [] (y_content r) = None"
    using once tags by (intro duplicate_pair_keys) (auto simp: keys_once_def)
  ultimately show ?thesis using True by (auto simp: clean_edit_def set_tags_def dest: remove_set)
next
  case False
  then have "set_tags ts = setMappingPair ''tags'' (tags_node ts)" by (simp add: set_tags_def fun_eq_iff)
  then show ?thesis using setMappingPair_clean [OF wf] by simp
qed

lemma set_tags_value:
  assumes "even (length c)" "keys_once c"
  shows "mapping_value (set_tags ts c) k =
    (if k = ''tags'' then (if ts = [] then None else Some (tags_node ts)) else mapping_value c k)"
  using assms by (simp add: set_tags_def remove_value setMappingPair_value)

text \<open>A value of the metadata, up to style.\<close>

definition front_value :: "fm_ext \<Rightarrow> string \<Rightarrow> string \<Rightarrow> yaml option" where
  "front_value e md key =
     (case parse_markdown e md of
        Inl _ \<Rightarrow> None
      | Inr p \<Rightarrow>
          (case pd_document p of
             None \<Rightarrow> None | Some d \<Rightarrow> map_option plain (mappingValue (hd (y_content d)) key)))"

lemma front_value_root:
  "parse_markdown e md = Inr p \<Longrightarrow> pd_document p = Some d \<Longrightarrow> y_content d = [root] \<Longrightarrow>
     front_value e md key = mappingValue (plain root) key"
  by (simp add: front_value_def mappingValue_plain)

lemma edited_front_value:
  assumes rem: "remembered e p document root r" and parse: "parse_markdown e md = Inr p"
    and out: "parse_markdown e out = Inr p'" "pd_document p' = Some d'" "y_content d' = [root']"
      "plain root' = plain (edited_root f root r)"
  shows "front_value e md ''remember'' = Some (plain r)"
    "front_value e out key =
       (if key = ''remember'' then Some (plain (with_content (f (y_content r)) r)) else front_value e md key)"
proof -
  from rem have root: "pd_document p = Some document" "y_content document = [root]" "wf_yaml root"
      "y_kind root = MappingNode" "mappingValue root ''remember'' = Some r"
    by (simp_all add: remembered_def rooted_def)
  show "front_value e md ''remember'' = Some (plain r)"
    using front_value_root [OF parse root(1,2)] root(5) by (simp add: mappingValue_plain)
  have "front_value e out key = mappingValue (plain (edited_root f root r)) key"
    using front_value_root [OF out(1,2,3)] out(4) by simp
  then show "front_value e out key =
       (if key = ''remember'' then Some (plain (with_content (f (y_content r)) r)) else front_value e md key)"
    using front_value_root [OF parse root(1,2)] edited_root_value [OF root(3,4)]
    by (simp add: mappingValue_plain)
qed

lemma keys_once_plain [simp]: "keys_once (map plain c) = keys_once c"
proof -
  have "scalar_keys (map plain c) = scalar_keys c" by (induction c rule: scalar_keys.induct) auto
  then show ?thesis by (simp add: keys_once_def)
qed

lemma update_reads:
  assumes law: "yaml_law e" "nfc_laws (fm_base e)" and run: "UpdateEditable e md expected body tags = Inr out"
    and once: "\<And>r. front_value e md ''remember'' = Some r \<Longrightarrow> keys_once (y_content r)"
  obtains p p' ts where "parse_markdown e md = Inr p" "parse_markdown e out = Inr p'"
    "NormalizeTags (fm_base e) tags = Inr ts" "in_note (pd_inspection p) = expected"
    "pd_inspection p' = (pd_inspection p)\<lparr>in_tags := ts\<rparr>" "pd_newline p' = pd_newline p"
    "pd_body p' = (if pd_newline p = [cr, lf] then to_crlf (to_lf body) else body)"
    "\<And>key. key \<noteq> ''remember'' \<Longrightarrow> front_value e out key = front_value e md key"
proof -
  from run obtain p ts where p: "parse_markdown e md = Inr p" "in_remember (pd_inspection p)"
      "in_note (pd_inspection p) = expected" "NormalizeTags (fm_base e) tags = Inr ts"
      "render e (edit_remember (set_tags ts) (the (pd_document p))) (pd_newline p)
         (if pd_newline p = [cr, lf] then to_crlf (to_lf body) else body) = Inr out"
    unfolding UpdateEditable_def rbind_Inr_iff by (metis (no_types, lifting) Inl_Inr_False rbind_InrE)
  from parse_remembered [OF p(1) law(1) p(2)] obtain document root r where rem: "remembered e p document root r" .
  note wf = remembered_wf [OF rem]
  let ?r = "with_content (set_tags ts (y_content r)) r"
  have doc: "the (pd_document p) = document" using rem by (simp add: remembered_def rooted_def)
  have once': "keys_once (y_content r)"
  proof -
    have "front_value e md ''remember'' = Some (plain r)"
      using rem by (simp add: front_value_def p(1) remembered_def rooted_def)
    from once [OF this] show ?thesis by simp
  qed
  note val = set_tags_value [OF wf(3) once', of ts]
  have "check_schema ?r = Inr (in_schema (pd_inspection p))" "check_note_id e ?r = Inr (in_note (pd_inspection p))"
    using rem val check_congs(1,2) [of ?r r] by (simp_all add: remembered_def with_content_value mappingValue_def)
  moreover have "check_tags e ?r = Inr ts"
    using val validate_tags_node [OF law(2) p(4)] by (auto simp: check_tags_def with_content_value)
  ultimately obtain document' root' where out: "parse_markdown e out = Inr
      \<lparr>pd_inspection = \<lparr>in_front = True, in_remember = True, in_note = in_note (pd_inspection p),
         in_schema = in_schema (pd_inspection p), in_tags = ts\<rparr>, pd_document = Some document',
       pd_body = (if pd_newline p = [cr, lf] then to_crlf (to_lf body) else body), pd_newline = pd_newline p\<rparr>"
      "y_content document' = [root']" "plain root' = plain (edited_root (set_tags ts) root r)"
    using edit_reads [OF p(1) law(1) rem p(5) [unfolded doc] set_tags_clean [OF wf(1,2) once']] by metis
  have "front_value e out key = front_value e md key" if "key \<noteq> ''remember''" for key
    using edited_front_value(2) [OF rem p(1) out(1) _ out(2,3)] that by simp
  moreover have "in_front (pd_inspection p)" using rem by (simp add: remembered_def)
  ultimately show thesis using that [OF p(1) out(1) p(4,3)] p(2) by simp
qed

section \<open>A conflict copy\<close>

lemma conflict_node_clean [simp]: "findDuplicateKey (conflict_node e origin) = []"
  by (simp add: conflict_node_def appendScalarPair_def mapping_def first_nonempty_def)
    (simp add: scalar_def Let_def first_nonempty_def)

lemma clean_comp:
  assumes "clean_edit f c" "clean_edit g (f c)"
  shows "clean_edit (g \<circ> f) c"
  using assms by (auto simp: clean_edit_def)

lemma conflict_copy_clean:
  assumes "wf_yaml r" "y_kind r = MappingNode" "findDuplicateKey v = []" "findDuplicateKey w = []"
    and "CHR 0x00 \<notin> set (y_tag v)"
  shows "clean_edit (setMappingPair key w \<circ> setMappingPair key' v) (y_content r)"
proof (rule clean_comp)
  let ?c = "setMappingPair key' v (y_content r)"
  show "clean_edit (setMappingPair key' v) (y_content r)" using assms by (intro setMappingPair_clean)
  have "even (length ?c)" using wf_yamlD(1) [OF assms(1,2)] by (rule setMappingPair_even)
  moreover have "\<forall>n\<in>set ?c. CHR 0x00 \<notin> set (y_tag n)"
    using wf_yamlD(4) [OF assms(1)] assms(5) by (auto simp: scalar_def dest!: setMappingPair_set)
  ultimately show "clean_edit (setMappingPair key w) ?c"
    using assms(4) by (auto simp: clean_edit_def setMappingPair_duplicates dest: setMappingPair_set)
qed

lemma conflict_copy_reads:
  assumes law: "yaml_law e" "uuid_text_law e"
    and run: "MaterializeConflictCopy e md expected u origin = Inr out"
  obtains p p' where "parse_markdown e md = Inr p" "parse_markdown e out = Inr p'"
    "in_note (pd_inspection p) = expected" "pd_inspection p' = (pd_inspection p)\<lparr>in_note := u\<rparr>"
    "pd_body p' = pd_body p"
    "\<exists>r. front_value e out ''remember'' = Some r \<and> mappingValue r ''conflict'' = Some (plain (conflict_node e origin))"
proof -
  let ?id = "setMappingPair ''note_id'' (quoted (x_uuid_string (fm_base e) u))"
  let ?f = "setMappingPair ''conflict'' (conflict_node e origin) \<circ> ?id"
  from run obtain p where p: "parse_markdown e md = Inr p" "in_remember (pd_inspection p)" "id_ok e u"
      "in_note (pd_inspection p) = expected"
      "render e (edit_remember ?f (the (pd_document p))) (pd_newline p) (pd_body p) = Inr out"
    by (auto simp: MaterializeConflictCopy_def rbind_Inr_iff id_ok_def origin_ok_def split: if_splits)
  from parse_remembered [OF p(1) law(1) p(2)] obtain document root r where rem: "remembered e p document root r" .
  note wf = remembered_wf [OF rem]
  have doc: "the (pd_document p) = document" using rem by (simp add: remembered_def rooted_def)
  let ?r = "with_content (?f (y_content r)) r"
  have val: "mappingValue ?r k = (if k = ''conflict'' then Some (conflict_node e origin)
      else if k = ''note_id'' then Some (quoted (x_uuid_string (fm_base e) u)) else mappingValue r k)" for k
    using wf(3) by (simp add: with_content_value setMappingPair_value setMappingPair_even mappingValue_def)
  have clean: "clean_edit ?f (y_content r)" using wf by (intro conflict_copy_clean) auto
  have "check_schema ?r = Inr (in_schema (pd_inspection p))" "check_tags e ?r = Inr (in_tags (pd_inspection p))"
    using rem val check_congs(1,3) [of ?r r] by (simp_all add: remembered_def)
  moreover have "check_note_id e ?r = Inr u" by (rule check_note_id_quoted [OF law(2) p(3)]) (subst val, simp)
  ultimately obtain document' root' where out: "parse_markdown e out = Inr
      \<lparr>pd_inspection = \<lparr>in_front = True, in_remember = True, in_note = u, in_schema = in_schema (pd_inspection p),
         in_tags = in_tags (pd_inspection p)\<rparr>,
       pd_document = Some document', pd_body = pd_body p, pd_newline = pd_newline p\<rparr>"
      "y_content document' = [root']" "plain root' = plain (edited_root ?f root r)"
    using edit_reads [OF p(1) law(1) rem p(5) [unfolded doc] clean] by metis
  have "front_value e out ''remember'' = Some (plain ?r)"
    using edited_front_value(2) [OF rem p(1) out(1) _ out(2,3)] by simp
  then have "\<exists>r. front_value e out ''remember'' = Some r \<and> mappingValue r ''conflict'' = Some (plain (conflict_node e origin))"
    by (simp add: mappingValue_plain val del: comp_apply)
  moreover have "in_front (pd_inspection p)" using rem by (simp add: remembered_def)
  ultimately show thesis using that [OF p(1) out(1) p(4)] p(2) by simp
qed

section \<open>A first identity\<close>

lemma new_remember_value:
  "mappingValue (new_remember e u) key =
     (if key = ''schema'' then Some (scalar ''!!int'' ''1'')
      else if key = ''note_id'' then Some (quoted (x_uuid_string (fm_base e) u)) else None)"
  by (simp add: new_remember_def mappingValue_def appendScalarPair_def)

lemma new_remember_simps [simp]: "y_kind (new_remember e u) = MappingNode" "findDuplicateKey (new_remember e u) = []"
  by (simp_all add: new_remember_def appendScalarPair_def mapping_def first_nonempty_def)
    (simp add: scalar_def Let_def first_nonempty_def)

lemma Atoi_one: "Atoi ''1'' = Some 1"
  by (simp add: Atoi_def has_prefix_def digits_value_def in_range_def code_def Let_def)

lemma new_remember_checks:
  assumes "uuid_text_law e" "id_ok e u"
  shows "check_schema (new_remember e u) = Inr 1" "check_note_id e (new_remember e u) = Inr u"
    "check_tags e (new_remember e u) = Inr []"
  using check_note_id_quoted [OF assms, of "new_remember e u"]
  by (simp_all add: check_schema_def check_tags_def new_remember_value CurrentSchema_def Atoi_one scalar_def)

lemma ensure_reads:
  assumes law: "yaml_law e" "uuid_text_law e" and run: "EnsureIdentity e md u = Inr res"
  obtains p p' where "parse_markdown e md = Inr p" "parse_markdown e (pt_markdown res) = Inr p'"
    "in_remember (pd_inspection p')" "in_note (pd_inspection p') = pt_note res" "pd_body p' = pd_body p"
    "\<not> pt_changed res \<Longrightarrow> pt_markdown res = md" "pt_changed res \<Longrightarrow> pt_note res = u \<and> \<not> in_remember (pd_inspection p)"
proof -
  from run obtain p where p: "parse_markdown e md = Inr p" unfolding EnsureIdentity_def by (rule rbind_InrE)
  show thesis
  proof (cases "in_remember (pd_inspection p)")
    case True
    with run p have "res = \<lparr>pt_markdown = md, pt_note = in_note (pd_inspection p), pt_changed = False\<rparr>"
      by (simp add: EnsureIdentity_def)
    with that [OF p] p True show thesis by simp
  next
    case False
    let ?document = "case pd_document p of Some d \<Rightarrow> d | None \<Rightarrow> Yaml DocumentNode [] [] 0 [mapping []]"
    let ?f = "appendScalarPair ''remember'' (new_remember e u)"
    from run p False obtain out where out: "id_ok e u"
        "render e (edit_root ?f ?document) (pd_newline p) (pd_body p) = Inr out"
        "res = \<lparr>pt_markdown = out, pt_note = u, pt_changed = True\<rparr>"
      by (auto simp: EnsureIdentity_def Let_def rbind_Inr_iff id_ok_def split: if_splits)
    obtain root where root: "y_content ?document = [root]" "y_kind root = MappingNode" "findDuplicateKey root = []"
        "wf_yaml root" "mapping_value (y_content root) ''remember'' = None"
    proof (cases rule: parse_cases [OF p law(1)])
      case 1
      then show thesis using that [of "mapping []"] by simp
    next
      case (2 document root)
      have "mappingValue root ''remember'' = None"
      proof (rule ccontr)
        assume "mappingValue root ''remember'' \<noteq> None"
        then obtain r where "mappingValue root ''remember'' = Some r" by blast
        with 2 have "in_remember (pd_inspection p)"
          by (auto simp: rooted_def inspect_root_def rbind_Inr_iff dest!: sym [of _ "pd_inspection p"] split: if_splits)
        with False show False ..
      qed
      with 2 that [of root] show thesis by (simp add: rooted_def mappingValue_def)
    qed
    let ?root = "with_content (?f (y_content root)) root"
    have set: "?f (y_content root) = setMappingPair ''remember'' (new_remember e u) (y_content root)"
      using root(5) by (simp add: setMappingPair_def replace_pair_None [THEN iffD2])
    have even: "even (length (y_content root))" using wf_yamlD(1) root by blast
    have content: "y_content (edit_root ?f ?document) = [?root]" using root(1) by (simp add: edit_root_def)
    have "findDuplicateKey ?root = []"
    proof (rule findDuplicateKey_edit [OF root(3,2)])
      show "duplicate_pair [] (?f (y_content root)) = duplicate_pair [] (y_content root)"
        unfolding set using even wf_yamlD(4) [OF root(4)] by (intro setMappingPair_duplicates)
      show "\<forall>m\<in>set (?f (y_content root)). m \<in> set (y_content root) \<or> findDuplicateKey m = []"
        by (auto simp: appendScalarPair_def)
    qed
    moreover have "mappingValue ?root ''remember'' = Some (new_remember e u)"
      unfolding set using even by (simp add: with_content_value setMappingPair_value)
    then have "inspect_root e ?root = Inr \<lparr>in_front = True, in_remember = True, in_note = u, in_schema = 1, in_tags = []\<rparr>"
      using new_remember_checks [OF law(2) out(1)] by (intro inspect_remember) auto
    ultimately obtain p' where "parse_markdown e out = Inr p'" "in_remember (pd_inspection p')"
        "in_note (pd_inspection p') = u" "pd_body p' = pd_body p"
      using parse_render [OF law(1) out(2) parse_newline_ok [OF p] content] root(2)
      by (metis (no_types, lifting) inspection.select_convs(2,3) parsed_document.select_convs(1,3) with_content_simps(1))
    with that [OF p] out(3) False show thesis by simp
  qed
qed

end
