(* ===== verification/Example_Notes.thy ===== *)
theory Example_Notes
  imports Front_Matter_Edits Example
begin

text \<open>
  A concrete note for the closed examples of the front matter: identifiers print as decimal numbers, and
  the YAML library knows the four documents of the example.
\<close>

section \<open>The documents\<close>

definition note_ext :: ext where
  "note_ext = demo_ext\<lparr>x_uuid_string := (\<lambda>u. decimal (unat u))\<rparr>"

lemma note_ext_simps [simp]:
  "x_nfc note_ext = (\<lambda>s. s)" "x_uuid_rfc4122 note_ext = (\<lambda>_. True)"
  "x_uuid_string note_ext = (\<lambda>u. decimal (unat u))"
  by (simp_all add: note_ext_def)

definition note_fm :: "(yaml \<times> string) list \<Rightarrow> fm_ext" where
  "note_fm table =
     \<lparr>fm_base = note_ext, fm_parse_uuid = (\<lambda>s. Some (word_of_nat (digits_value s))),
      fm_decode = (\<lambda>t. case find (\<lambda>(d, s). t = s \<or> t = to_crlf s) table of
         Some (d, _) \<Rightarrow> Inr d | None \<Rightarrow> Inl []),
      fm_encode = (\<lambda>d. case map_of table d of Some t \<Rightarrow> Inr t | None \<Rightarrow> Inl [])\<rparr>"

lemma note_fm_base [simp]: "fm_base (note_fm table) = note_ext"
  by (simp add: note_fm_def)

definition remember_content :: "uuid \<Rightarrow> yaml list" where
  "remember_content u =
     [scalar ''!!str'' ''schema'', scalar ''!!int'' ''1'', scalar ''!!str'' ''note_id'', quoted (decimal (unat u))]"

definition note_doc :: "yaml list \<Rightarrow> yaml" where
  "note_doc content =
     Yaml DocumentNode [] [] 0 [mapping [scalar ''!!str'' ''remember'', mapping content]]"

definition note_origin :: conflict_origin where
  "note_origin = \<lparr>co_note = 1, co_operation = 7, co_reason = ''path_collision'', co_target = ''A'',
     co_base = 0, co_canonical = 0\<rparr>"

definition tagged_content :: "yaml list" where
  "tagged_content = remember_content 1 @ [scalar ''!!str'' ''tags'', tags_node [''t'']]"

definition copy_content :: "yaml list" where
  "copy_content = remember_content 2 @ [scalar ''!!str'' ''conflict'', conflict_node (note_fm []) note_origin]"

definition note_table :: "(yaml \<times> string) list" where
  "note_table =
     [(note_doc (remember_content 1), ''one'' @ [lf]), (note_doc tagged_content, ''tagged'' @ [lf]),
      (note_doc (remember_content 2), ''two'' @ [lf]), (note_doc copy_content, ''copy'' @ [lf])]"

definition note_e :: fm_ext where
  "note_e = note_fm note_table"

lemma note_e_simps [simp]:
  "fm_base note_e = note_ext" "fm_parse_uuid note_e s = Some (word_of_nat (digits_value s))"
  by (simp_all add: note_e_def note_fm_def)

lemma note_uuid_law: "uuid_text_law note_e"
  by (simp add: uuid_text_law_def digits_value_decimal)

lemma note_nfc_law: "nfc_laws (fm_base note_e)"
  by (simp add: nfc_laws_def)

lemma trim_right_space:
  "code c < 128 \<Longrightarrow> space_rune (code c) \<Longrightarrow> trim_space_right (s @ [c]) = trim_space_right s"
  by (subst trim_space_right.simps) (simp add: last_rune_def last_rune_width_def)

lemma trim_right_visible:
  "code c < 128 \<Longrightarrow> \<not> space_rune (code c) \<Longrightarrow> trim_space_right (s @ [c]) = s @ [c]"
  by (rule trim_space_right_stop) (simp add: last_rune_def last_rune_width_def)

lemma trim_line:
  assumes "code a < 128" "\<not> space_rune (code a)" "code b < 128" "\<not> space_rune (code b)"
  shows "trim_space (a # s @ [b, lf]) \<noteq> []" "trim_space (a # s @ [b, cr, lf]) \<noteq> []"
proof -
  have "trim_space_left (a # w) = a # w" for w using assms by simp
  moreover have "trim_space_right ((a # s) @ [b]) = a # s @ [b]"
    using trim_right_visible [OF assms(3,4), of "a # s"] by simp
  moreover have "trim_space_right ((a # s @ [b]) @ [lf]) = trim_space_right (a # s @ [b])"
    "trim_space_right ((a # s @ [b]) @ [cr]) = trim_space_right (a # s @ [b])"
    "trim_space_right ((a # s @ [b, cr]) @ [lf]) = trim_space_right (a # s @ [b, cr])"
    by (rule trim_right_space; simp add: lf_def cr_def code_def space_rune_def)+
  ultimately show "trim_space (a # s @ [b, lf]) \<noteq> []" "trim_space (a # s @ [b, cr, lf]) \<noteq> []"
    by (simp_all add: trim_space_def)
qed

lemma table_texts:
  assumes "t \<in> snd ` set note_table"
  shows "unfenced t" "cr \<notin> set t" "trim_space t \<noteq> []" "trim_space (to_crlf t) \<noteq> []"
proof -
  have "t \<in> {''one'' @ [lf], ''tagged'' @ [lf], ''two'' @ [lf], ''copy'' @ [lf]}"
    using assms by (auto simp: note_table_def)
  then show "unfenced t" "cr \<notin> set t"
    by (auto simp: unfenced_def lf_def cr_def strip_cr_def fence_def)
  have vis: "code c < 128 \<and> \<not> space_rune (code c)" if "c \<in> set ''otceody''" for c
    using that by (auto simp: space_rune_def code_def)
  have line: "trim_space (a # w @ [b, lf]) \<noteq> [] \<and> trim_space (to_crlf (a # w @ [b, lf])) \<noteq> []"
    if "a \<in> set ''otceody''" "b \<in> set ''otceody''" "lf \<notin> set (a # w @ [b])" for a b w
  proof -
    have same: "to_crlf v = v" if "lf \<notin> set v" for v
      using that by (induction v) (auto simp: to_crlf_def)
    have "to_crlf ((a # w @ [b]) @ [lf]) = a # w @ [b, cr, lf]"
      using same [OF \<open>lf \<notin> set (a # w @ [b])\<close>] by (simp add: to_crlf_def)
    with trim_line [of a b w] vis that show ?thesis by simp
  qed
  from assms consider "t = CHR ''o'' # ''n'' @ [CHR ''e'', lf]" | "t = CHR ''t'' # ''agge'' @ [CHR ''d'', lf]"
    | "t = CHR ''t'' # ''w'' @ [CHR ''o'', lf]" | "t = CHR ''c'' # ''op'' @ [CHR ''y'', lf]"
    by (auto simp: note_table_def)
  then have "trim_space t \<noteq> [] \<and> trim_space (to_crlf t) \<noteq> []"
    by cases (use line [of "CHR ''o''" "CHR ''e''" "''n''"] line [of "CHR ''t''" "CHR ''d''" "''agge''"]
      line [of "CHR ''t''" "CHR ''o''" "''w''"] line [of "CHR ''c''" "CHR ''y''" "''op''"] in \<open>simp_all add: lf_def\<close>)
  then show "trim_space t \<noteq> []" "trim_space (to_crlf t) \<noteq> []" by simp_all
qed

section \<open>The library of the example keeps its law\<close>

lemma table_decode:
  assumes "(d, t) \<in> set note_table"
  shows "fm_decode note_e t = Inr d" "fm_decode note_e (to_crlf t) = Inr d"
  using assms by (auto simp: note_e_def note_fm_def note_table_def to_crlf_def lf_def cr_def)

lemma encode_table: "fm_encode note_e d = Inr t \<longleftrightarrow> map_of note_table d = Some t"
  by (simp add: note_e_def note_fm_def split: option.splits)

lemma decode_table: "fm_decode note_e s = Inr d \<Longrightarrow> d \<in> fst ` set note_table"
proof -
  assume "fm_decode note_e s = Inr d"
  then obtain t where "find (\<lambda>(d, t). s = t \<or> s = to_crlf t) note_table = Some (d, t)"
    by (auto simp: note_e_def note_fm_def split: option.splits)
  then have "(d, t) \<in> set note_table" by (metis find_Some_iff nth_mem)
  then show ?thesis by force
qed

lemma table_wf: "d \<in> fst ` set note_table \<Longrightarrow> wf_yaml d"
proof -
  have scalar: "wf_yaml (scalar t v) \<longleftrightarrow> CHR 0x00 \<notin> set t" "wf_yaml (quoted v)" for t v
    by (simp_all add: scalar_def quoted_def)
  have map_node: "wf_yaml (mapping c) \<longleftrightarrow> even (length c) \<and> list_all wf_yaml c" for c
    by (simp add: mapping_def)
  have doc: "wf_yaml (note_doc c) \<longleftrightarrow> even (length c) \<and> list_all wf_yaml c" for c
    by (simp add: note_doc_def map_node scalar)
  have content: "even (length (remember_content u))" "list_all wf_yaml (remember_content u)" for u
    by (simp_all add: remember_content_def scalar)
  have nodes: "wf_yaml (tags_node [''t''])" "wf_yaml (conflict_node (note_fm []) note_origin)"
    by (simp_all add: tags_node_def conflict_node_def appendScalarPair_def map_node scalar)
  assume "d \<in> fst ` set note_table"
  then consider "d = note_doc (remember_content 1)" | "d = note_doc tagged_content"
    | "d = note_doc (remember_content 2)" | "d = note_doc copy_content"
    unfolding note_table_def by fastforce
  then show ?thesis
    by cases (simp_all add: nodes content tagged_content_def copy_content_def doc scalar)
qed

lemma note_law: "yaml_law note_e"
proof -
  have encoded: "unfenced t \<and> cr \<notin> set t \<and> trim_space t \<noteq> [] \<and> trim_space (to_crlf t) \<noteq> [] \<and>
      (\<forall>text\<in>{t, to_crlf t}. \<exists>d'. fm_decode note_e text = Inr d' \<and> map plain (y_content d') = map plain (y_content d))"
    if "fm_encode note_e d = Inr t" for d t
  proof -
    from that have *: "(d, t) \<in> set note_table" by (simp add: encode_table map_of_SomeD)
    then have "t \<in> snd ` set note_table" by force
    from table_texts [OF this] table_decode [OF *] show ?thesis by simp
  qed
  show ?thesis unfolding yaml_law_def
    by (rule conjI; intro allI impI; (erule table_wf [OF decode_table] | erule encoded))
qed

section \<open>Runs\<close>

definition note_inspection :: "uuid \<Rightarrow> string list \<Rightarrow> inspection" where
  "note_inspection u tags = \<lparr>in_front = True, in_remember = True, in_note = u, in_schema = 1, in_tags = tags\<rparr>"

lemma parse_table:
  assumes "(d, t) \<in> set note_table" "document_root d = Inr root" "inspect_root note_e root = Inr i"
  shows "parse_markdown note_e (assemble [lf] t body) =
    Inr \<lparr>pd_inspection = i, pd_document = Some d, pd_body = body, pd_newline = [lf]\<rparr>"
proof -
  from assms(1) have "t \<in> snd ` set note_table" by force
  note t = table_texts [OF this]
  have "newline_ok [lf]" by (simp add: newline_ok_def)
  from split_assemble [OF t(1,2) this] t(3) table_decode [OF assms(1)] assms(2,3) show ?thesis
    by (simp add: parse_markdown_def decode_document_def rbind_def cr_def lf_def)
qed

lemma note_ids: "decimal (unat (1 :: uuid)) \<noteq> decimal (unat (2 :: uuid))" "decimal (unat (7 :: uuid)) \<noteq> []"
proof -
  have "digits_value (decimal 1) \<noteq> digits_value (decimal 2)" by (simp add: digits_value_decimal)
  then show "decimal (unat (1 :: uuid)) \<noteq> decimal (unat (2 :: uuid))" by auto
  show "decimal (unat (7 :: uuid)) \<noteq> []" by (subst decimal.simps) simp
qed

lemma note_root:
  assumes "findDuplicateKey (mapping c) = []"
  shows "document_root (note_doc c) = Inr (mapping [scalar ''!!str'' ''remember'', mapping c])"
proof -
  have "y_content (mapping d) = d" "y_kind (mapping d) = MappingNode" for d by simp_all
  then have "findDuplicateKey (mapping [scalar ''!!str'' ''remember'', mapping c]) = []"
    using assms by (subst findDuplicateKey_eq) (simp add: first_nonempty_def Let_def)
  then show ?thesis by (simp add: document_root_def note_doc_def)
qed

lemma note_inspect:
  assumes "mapping_value c ''schema'' = Some (scalar ''!!int'' ''1'')" "check_note_id note_e (mapping c) = Inr u"
    and "check_tags note_e (mapping c) = Inr tags"
  shows "inspect_root note_e (mapping [scalar ''!!str'' ''remember'', mapping c]) = Inr (note_inspection u tags)"
proof -
  have "check_schema (mapping c) = Inr 1"
    using assms(1) by (simp add: check_schema_def mappingValue_def scalar_def Atoi_def digits_value_def
      has_prefix_def in_range_def CurrentSchema_def code_def)
  with assms(2,3) show ?thesis
    by (simp add: inspect_root_def mappingValue_def rbind_def note_inspection_def)
qed

lemma remember_content_reads:
  assumes "u = 1 \<or> u = 2"
  shows "findDuplicateKey (mapping (remember_content u)) = []"
    "inspect_root note_e (mapping [scalar ''!!str'' ''remember'', mapping (remember_content u)]) = Inr (note_inspection u [])"
proof -
  show "findDuplicateKey (mapping (remember_content u)) = []"
    by (subst findDuplicateKey_eq)
      (simp add: remember_content_def Let_def first_nonempty_def, simp add: scalar_def quoted_def first_nonempty_def)
  have "check_note_id note_e (mapping (remember_content u)) = Inr u" using assms
    by (intro check_note_id_quoted [OF note_uuid_law])
      (auto simp: id_ok_def mappingValue_def remember_content_def uuid_nil_def)
  moreover have "check_tags note_e (mapping (remember_content u)) = Inr []"
    by (simp add: check_tags_def mappingValue_def remember_content_def)
  moreover have "mapping_value (remember_content u) ''schema'' = Some (scalar ''!!int'' ''1'')"
    by (simp add: remember_content_def)
  ultimately show "inspect_root note_e (mapping [scalar ''!!str'' ''remember'', mapping (remember_content u)]) =
      Inr (note_inspection u [])" by (intro note_inspect)
qed

definition note_one :: string where
  "note_one = assemble [lf] (''one'' @ [lf]) ''B''"

lemma parse_one:
  "parse_markdown note_e note_one =
     Inr \<lparr>pd_inspection = note_inspection 1 [], pd_document = Some (note_doc (remember_content 1)), pd_body = ''B'',
          pd_newline = [lf]\<rparr>"
  unfolding note_one_def
  by (rule parse_table [OF _ note_root])
    (simp_all add: note_table_def remember_content_reads)

lemma run_ensure:
  "EnsureIdentity note_e ''B'' 1 = Inr \<lparr>pt_markdown = note_one, pt_note = 1, pt_changed = True\<rparr>"
proof -
  have "fm_encode note_e (note_doc (remember_content 1)) = Inr (''one'' @ [lf])"
    by (simp add: encode_table note_table_def)
  moreover have "edit_root (appendScalarPair ''remember'' (new_remember note_e 1)) (Yaml DocumentNode [] [] 0 [mapping []]) =
      note_doc (remember_content 1)"
    by (simp add: edit_root_def with_content_def mapping_def appendScalarPair_def new_remember_def note_doc_def remember_content_def)
  moreover have "parse_markdown note_e ''B'' =
      Inr \<lparr>pd_inspection = no_inspection, pd_document = None, pd_body = ''B'', pd_newline = [lf]\<rparr>"
    by (simp add: parse_markdown_def split_markdown_def has_prefix_def fence_def rbind_def contains_crlf_def lf_def cr_def)
  ultimately show ?thesis
    by (simp add: EnsureIdentity_def rbind_def no_inspection_def uuid_nil_def render_def note_one_def)
qed

lemma edit_note: "edit_remember f (note_doc c) = note_doc (f c)"
proof -
  have "with_content d (mapping c) = mapping d" for c d by (simp add: with_content_def mapping_def)
  moreover have "y_content (note_doc c) = [mapping [scalar ''!!str'' ''remember'', mapping c]]" by (simp add: note_doc_def)
  ultimately show ?thesis
    by (simp add: edit_remember_def edit_root_def setMappingPair_def)
      (simp add: note_doc_def with_content_def)
qed

lemma tag_t: "trim_space ''t'' = ''t''" "validateTag ''t'' = Inr ()"
proof -
  have t: "code (CHR ''t'') < 128" "\<not> space_rune (code (CHR ''t''))" "is_ascii ''t''" "\<not> control_rune (code (CHR ''t''))"
    by (simp_all add: space_rune_def code_def is_ascii_def control_rune_def)
  show trim: "trim_space ''t'' = ''t''"
    using trim_right_visible [OF t(1,2), of "[]"] t by (simp add: trim_space_def)
  show "validateTag ''t'' = Inr ()"
    using t trim by (simp add: validateTag_def valid_utf8_ascii runes_ascii rune_count_def del: runes.simps valid_utf8.simps)
qed

lemma run_update: "UpdateEditable note_e note_one 1 ''C'' [''t''] = Inr (assemble [lf] (''tagged'' @ [lf]) ''C'')"
proof -
  have "set_tags [''t''] (remember_content 1) = tagged_content"
    by (simp add: set_tags_def setMappingPair_def remember_content_def tagged_content_def appendScalarPair_def is_key_def
        scalar_def quoted_def)
  moreover have "note_doc tagged_content \<noteq> note_doc (remember_content 1)"
    by (simp add: note_doc_def mapping_def tagged_content_def remember_content_def)
  then have "fm_encode note_e (note_doc tagged_content) = Inr (''tagged'' @ [lf])"
    by (simp add: encode_table note_table_def)
  moreover note tag_t
  ultimately show ?thesis
    by (simp add: UpdateEditable_def parse_one rbind_def note_inspection_def uuid_nil_def NormalizeTags_def edit_note
        render_def lf_def cr_def)
qed

lemma rekeyed: "setMappingPair ''note_id'' (quoted (decimal (unat (2 :: uuid)))) (remember_content 1) = remember_content 2"
  by (simp add: setMappingPair_def remember_content_def is_key_def scalar_def quoted_def)

lemma contents_differ:
  "note_doc (remember_content 1) \<noteq> note_doc (remember_content 2)" "note_doc tagged_content \<noteq> note_doc (remember_content 2)"
  "note_doc copy_content \<noteq> note_doc (remember_content u)" "note_doc copy_content \<noteq> note_doc tagged_content"
  using note_ids(1)
  by (auto simp: note_doc_def mapping_def tagged_content_def copy_content_def remember_content_def quoted_def)

lemma run_rekey: "RekeyIdentity note_e note_one 1 2 = Inr (assemble [lf] (''two'' @ [lf]) ''B'')"
proof -
  have "fm_encode note_e (note_doc (remember_content 2)) = Inr (''two'' @ [lf])"
    using contents_differ by (simp add: encode_table note_table_def)
  then show ?thesis
    by (simp add: RekeyIdentity_def parse_one rbind_def note_inspection_def uuid_nil_def edit_note rekeyed [simplified]
        render_def)
qed

lemma run_copy: "MaterializeConflictCopy note_e note_one 1 2 note_origin = Inr (assemble [lf] (''copy'' @ [lf]) ''B'')"
proof -
  have "conflict_node note_e note_origin = conflict_node (note_fm []) note_origin"
    by (simp add: conflict_node_def)
  then have "setMappingPair ''conflict'' (conflict_node note_e note_origin) (remember_content 2) = copy_content"
    by (simp add: setMappingPair_def remember_content_def copy_content_def appendScalarPair_def is_key_def scalar_def quoted_def)
  moreover have "fm_encode note_e (note_doc copy_content) = Inr (''copy'' @ [lf])"
    using contents_differ by (simp add: encode_table note_table_def)
  moreover have "origin_ok note_e 1 2 note_origin"
    by (simp add: origin_ok_def note_origin_def uuid_nil_def)
  ultimately show ?thesis
    by (simp add: MaterializeConflictCopy_def parse_one rbind_def note_inspection_def uuid_nil_def edit_note rekeyed [simplified]
        render_def)
qed

end
