(* ===== verification/Properties_Notes.thy ===== *)
theory Properties_Notes
  imports Client_Naming Example_Notes
begin

text \<open>
  The properties of the client's notes: their names and paths against the server's checks, and the
  edits of their metadata.
\<close>

section \<open>Names\<close>

text \<open>C37: the search for colliding siblings reports each comparison key that several of the names share, once
  and in order, with exactly the names that have it in the order they were given; when it reports none,
  no two names collide.\<close>

theorem sibling_collisions_complete:
  assumes "FindSiblingCollisions x names = Inr cs"
  shows "sorted (map fst cs) \<and> distinct (map fst cs) \<and>
    ((key, same) \<in> set cs \<longleftrightarrow> same = filter (\<lambda>n. CollisionKey x n = key) names \<and> 2 \<le> length same) \<and>
    (cs = [] \<longrightarrow> distinct (map (CollisionKey x) names))"
  using assms collisions_sorted collisions_complete no_collision_distinct by blast

theorem sibling_collisions_complete_witness:
  "FindSiblingCollisions demo_ext [''A'', ''A''] = Inr [(map ascii_lower ''A'', [''A'', ''A''])] \<and>
   (map ascii_lower ''A'', [''A'', ''A'']) \<in> set [(map ascii_lower ''A'', [''A'', ''A''])]"
proof -
  have "nfc_laws demo_ext" by (simp add: nfc_laws_def)
  with name_a normalizeName_client [of demo_ext] have "ValidateComponent demo_ext ''A'' = Inr ()"
    by (auto simp: NormalizeAndValidateComponent_def Let_def split: if_splits)
  then have run: "FindSiblingCollisions demo_ext [''A'', ''A''] = Inr [(CollisionKey demo_ext ''A'', [''A'', ''A''])]"
    by (simp add: FindSiblingCollisions_def name_group_def)
  moreover have "CollisionKey demo_ext ''A'' = map ascii_lower ''A''" by (simp add: CollisionKey_def)
  ultimately show ?thesis
    using sibling_collisions_complete [OF run, of "map ascii_lower ''A''" "[''A'', ''A'']"] by simp
qed

section \<open>Metadata\<close>







end
