(* ===== verification/Example_System.thy ===== *)
theory Example_System
  imports Example_Accounts
begin

text \<open>
  The example states as states of the whole server: the registration and the log in are reached from
  states that satisfy the system invariant, a device is revoked, and the server runs on afterwards.
\<close>

section \<open>A registration of the running server\<close>

lemma demo_reachable_empty: "reachable demo_world empty_db"
  by (simp add: reachable_def)

lemma demo_reachable_registered: "reachable demo_world demo_registered"
proof -
  have "run_step demo_world empty_db demo_registered"
    using registers [of demo_world empty_db 5 demo_random "address ''a'' ''b''" demo_password_text] demo_register
    by (simp add: run_step_def demo_world_ok)
  with demo_reachable_empty show ?thesis by (rule reachable_step)
qed

section \<open>A device that is revoked\<close>

lemma alone_identity_inv: "identity_inv demo_ext sample_aead alone_db"
  using demo_password unfolding identity_inv_def user_ok_def by (simp add: alone_db_def empty_db_def)

lemma alone_sync_inv: "sync_inv alone_db"
  by (simp add: sync_inv_def objects_ok_def notes_have_blobs_def tree_ok_def history_ok_def parent_rel_def
      loadObject_def changes_of_user_def last_cursor_def acyclic_def alone_db_def empty_db_def)

lemma logged_in_same:
  "same_registry alone_db logged_in" "same_history alone_db logged_in"
  "entitlements logged_in = entitlements alone_db" "user_exists logged_in = user_exists alone_db"
  by (simp_all add: logged_in_def frame_defs user_exists_def fun_eq_iff)

lemma logged_in_system: "system_inv demo_world logged_in"
  using logged_in_same alone_sync_inv alone_identity_inv logged_in_inv sync_inv_cong [of alone_db logged_in]
    identity_inv_cong [of alone_db logged_in]
  by (simp add: system_inv_def)

definition demo_access :: string where
  "demo_access = b64_encode (fill (CHR ''a''))"

definition revoked_db :: db where
  "revoked_db = snd (RevokeDevice demo_ext 6 demo_access demo_id logged_in)"

lemma demo_authenticated: "AuthenticateAccess demo_ext 6 demo_access logged_in = Inr demo_principal"
  using Login_access [OF demo_login_run, of 6]
  by (simp add: demo_tokens_def demo_access_def AccessTTL_def)

lemma demo_revoke: "RevokeDevice demo_ext 6 demo_access demo_id logged_in = (Inr (), revoked_db)"
proof -
  have "session_validV7 demo_ext demo_id"
    using demo_id_not_nil by (simp add: session_validV7_def uuid_nil_def)
  moreover have "rows_affected (\<lambda>r. dev_user r = pr_user demo_principal \<and> dev_id r = demo_id) (devices logged_in) = 1"
    by (simp add: logged_in_def demo_principal_def rows_affected_def)
  ultimately have "fst (RevokeDevice demo_ext 6 demo_access demo_id logged_in) = Inr ()"
    by (simp add: RevokeDevice_def demo_authenticated Let_def)
  then show ?thesis by (simp add: revoked_db_def prod_eq_iff)
qed

lemma demo_upload: "run_step demo_world d (d\<lparr>blobs := bs, entitlements := entitlements d @ es\<rparr>)"
  by (simp add: run_step_def demo_world_ok uploads)

end
