(* ===== verification/Client_Database.thy ===== *)
theory Client_Database
  imports Password Client_Naming Sync_Store
begin

text \<open>
  The client's SQLite database, \<open>client/internal/localindex/migrations\<close>: a row type per table the
  synchronization store works on and one record of tables. Identifiers, blobs and times are kept as on
  the server (theory \<open>Database\<close>), and so are the enumerations of types and mutations, which have the
  same values on both sides. The recovery tables (\<open>conflict_*\<close> and \<open>sync_folder_preserve_delete_*\<close>),
  which the operations modelled here only read, appear as what those operations read of them: the
  operations they settle, and the rows of two joins.
\<close>

section \<open>Errors\<close>

text \<open>An error of the store with its text, \<open>sql.ErrNoRows\<close>, and a statement SQLite refuses.\<close>

datatype client_error = Failed string | NoRows | Refused

section \<open>Rows\<close>

datatype op_status = OpPending | OpAttempted | OpAccepted | OpConflict | OpReplayMismatch | OpSuperseded

record outbox_op =
  ob_sequence :: nat
  ob_op :: uuid
  ob_kind :: mutation_kind
  ob_object :: uuid
  ob_type :: object_type
  ob_base :: nat
  ob_parent :: "uuid option"
  ob_name :: string
  ob_blob :: "string option"
  ob_dependency :: "uuid option"
  ob_status :: op_status
  ob_attempted :: "int option"
  ob_revision :: "nat option"
  ob_cursor :: "nat option"
  ob_conflict :: "string option"
  ob_created :: int

record baseline_row =
  bl_object :: uuid
  bl_revision :: nat
  bl_operation :: "uuid option"

record folder_intent_row =
  fi_op :: uuid
  fi_folder :: uuid
  fi_kind :: mutation_kind
  fi_source :: string
  fi_device :: nat
  fi_inode :: nat

record conflict_state_row =
  cs_op :: uuid
  cs_type :: object_type
  cs_revision :: nat
  cs_parent :: "uuid option"
  cs_name :: string
  cs_blob :: "string option"
  cs_deleted :: bool

datatype plan_status = PlanPrepared | PlanApplying | PlanCompleted | PlanFailed

record plan_row =
  ap_id :: uuid
  ap_from :: nat
  ap_through :: nat
  ap_status :: plan_status
  ap_created :: int
  ap_completed :: "int option"

record step_row =
  st_plan :: uuid
  st_index :: nat
  st_cursor :: nat
  st_operation :: uuid
  st_object :: uuid
  st_mutation :: mutation_kind
  st_type :: object_type
  st_revision :: nat
  st_parent :: "uuid option"
  st_name :: string
  st_blob :: "string option"
  st_applied :: bool

datatype inbox_state = InboxPending | InboxApplying | InboxApplied

record inbox_row =
  ib_cursor :: nat
  ib_operation :: uuid
  ib_object :: uuid
  ib_mutation :: mutation_kind
  ib_type :: object_type
  ib_revision :: nat
  ib_parent :: "uuid option"
  ib_name :: string
  ib_blob :: "string option"
  ib_deleted :: bool
  ib_state :: inbox_state
  ib_ingested :: int
  ib_applying :: "int option"
  ib_applied :: "int option"

record binding_row =
  pb_plan :: uuid
  pb_cursor :: nat
  pb_depth :: nat
  pb_ancestor :: uuid
  pb_parent :: "uuid option"
  pb_relative :: string
  pb_device :: nat
  pb_inode :: nat
  pb_revision :: nat
  pb_operation :: uuid

record folder_mutation_row =
  fm_plan :: uuid
  fm_step :: nat
  fm_folder :: uuid
  fm_kind :: mutation_kind
  fm_source :: string
  fm_target :: string
  fm_device :: nat
  fm_inode :: nat

record publication_row =
  fp_plan :: uuid
  fp_step :: nat
  fp_folder :: uuid
  fp_target :: string
  fp_stage :: string
  fp_nonce :: string
  fp_device :: nat
  fp_inode :: nat
  fp_authorized :: bool
  fp_cleaned :: "int option"

datatype identity_state = IdentityKnown | IdentityNew | IdentityPending | OtherIdentity string

record object_index_row =
  lo_id :: uuid
  lo_type :: object_type
  lo_relative :: string
  lo_collision :: string
  lo_parent :: "uuid option"
  lo_hash :: "string option"
  lo_device :: "nat option"
  lo_inode :: "nat option"
  lo_identity :: identity_state

record issue_row =
  is_code :: string
  is_relative :: string
  is_detail :: string

record incident_row =
  ic_plan :: uuid
  ic_cursor :: nat
  ic_object :: uuid
  ic_blob :: string
  ic_code :: string
  ic_first :: int
  ic_last :: int
  ic_count :: nat
  ic_acknowledged :: "int option"

text \<open>A finished folder recovery: the operation that creates the folder anew, the folder and its path.\<close>

record recovery_row =
  rc_new_operation :: uuid
  rc_folder :: uuid
  rc_relative :: string

section \<open>The database\<close>

record client_db =
  cd_objects :: "object_index_row list"
  cd_issues :: "issue_row list"
  cd_watcher :: "string \<rightharpoonup> string"
  cd_baselines :: "baseline_row list"
  cd_state :: "string \<rightharpoonup> string"
  cd_outbox :: "outbox_op list"
  cd_deps :: "(uuid \<times> uuid) list"
  cd_intents :: "folder_intent_row list"
  cd_conflicts :: "conflict_state_row list"
  cd_resolutions :: "(uuid \<times> string) list"
  cd_plans :: "plan_row list"
  cd_steps :: "step_row list"
  cd_inbox :: "inbox_row list"
  cd_links :: "(uuid \<times> nat) list"
  cd_bindings :: "binding_row list"
  cd_folder_mutations :: "folder_mutation_row list"
  cd_publications :: "publication_row list"
  cd_incidents :: "incident_row list"
  cd_settled :: "uuid list"
  cd_settled_conflicts :: "uuid list"
  cd_recoveries :: "recovery_row list"
  cd_preserved :: "(uuid \<times> nat) list"

text \<open>\<open>cd_settled\<close>: queued operations a recovery has taken over. \<open>cd_settled_conflicts\<close>: conflicts a recovery has
  answered. \<open>cd_recoveries\<close>: finished recoveries of diverged folder moves. \<open>cd_preserved\<close>: folders and cursors of
  resolved preserve-and-deletes.\<close>

definition no_client :: client_db where
  "no_client =
     \<lparr>cd_objects = [], cd_issues = [], cd_watcher = Map.empty, cd_baselines = [],
      cd_state = [''downloaded_cursor'' \<mapsto> ''0''], cd_outbox = [], cd_deps = [],
      cd_intents = [], cd_conflicts = [], cd_resolutions = [], cd_plans = [], cd_steps = [], cd_inbox = [],
      cd_links = [], cd_bindings = [], cd_folder_mutations = [], cd_publications = [], cd_incidents = [],
      cd_settled = [], cd_settled_conflicts = [], cd_recoveries = [], cd_preserved = []\<rparr>"

section \<open>Numbers\<close>

definition MaxInt64 :: nat where
  "MaxInt64 = 9223372036854775807"

text \<open>\<open>strconv.ParseUint(raw, 10, 63)\<close>.\<close>

definition ParseUint63 :: "string \<Rightarrow> nat option" where
  "ParseUint63 raw =
     (if raw = [] \<or> \<not> list_all (in_range 48 57) raw \<or> digits_value raw > MaxInt64 then None
      else Some (digits_value raw))"

text \<open>The rows of a list with the running total of a check that may fail.\<close>

fun fold_result :: "('a \<Rightarrow> 'b \<Rightarrow> 'e + 'b) \<Rightarrow> 'a list \<Rightarrow> 'b \<Rightarrow> 'e + 'b" where
  "fold_result f [] s = Inr s"
| "fold_result f (x # xs) s = rbind (f x s) (fold_result f xs)"

section \<open>Identifiers\<close>

text \<open>\<open>validObjectID\<close> of the client is the check of the server, with the same name.\<close>

definition validOperationID :: "ext \<Rightarrow> uuid \<Rightarrow> bool" where
  "validOperationID x u \<longleftrightarrow> validObjectID x u \<and> x_uuid_version x u = 7"

lemma validOperationID_object: "validOperationID x u \<Longrightarrow> validObjectID x u"
  by (simp add: validOperationID_def)

section \<open>Keyed rows\<close>

definition baseline_at :: "client_db \<Rightarrow> uuid \<Rightarrow> baseline_row option" where
  "baseline_at d i = row_at bl_object (cd_baselines d) i"

definition op_at :: "client_db \<Rightarrow> uuid \<Rightarrow> outbox_op option" where
  "op_at d i = row_at ob_op (cd_outbox d) i"

definition plan_at :: "client_db \<Rightarrow> uuid \<Rightarrow> plan_row option" where
  "plan_at d p = row_at ap_id (cd_plans d) p"

definition stkey :: "step_row \<Rightarrow> uuid \<times> nat" where
  "stkey s = (st_plan s, st_index s)"

definition step_at :: "client_db \<Rightarrow> uuid \<Rightarrow> nat \<Rightarrow> step_row option" where
  "step_at d p n = row_at stkey (cd_steps d) (p, n)"

definition plan_steps :: "client_db \<Rightarrow> uuid \<Rightarrow> step_row list" where
  "plan_steps d p = filter (\<lambda>s. st_plan s = p) (cd_steps d)"

definition inbox_at :: "client_db \<Rightarrow> nat \<Rightarrow> inbox_row option" where
  "inbox_at d c = row_at ib_cursor (cd_inbox d) c"

definition link_cursor :: "client_db \<Rightarrow> uuid \<Rightarrow> nat option" where
  "link_cursor d p = map_of (cd_links d) p"

definition index_at :: "client_db \<Rightarrow> uuid \<Rightarrow> object_index_row option" where
  "index_at d i = row_at lo_id (cd_objects d) i"

text \<open>The upsert of a baseline that never lowers a revision.\<close>

definition raise_baseline :: "uuid \<Rightarrow> nat \<Rightarrow> uuid \<Rightarrow> client_db \<Rightarrow> client_db" where
  "raise_baseline i n operation d =
     (case baseline_at d i of
        None \<Rightarrow> d\<lparr>cd_baselines := cd_baselines d @ [\<lparr>bl_object = i, bl_revision = n, bl_operation = Some operation\<rparr>]\<rparr>
      | Some b \<Rightarrow>
          if bl_revision b < n
          then d\<lparr>cd_baselines := update_rows (\<lambda>r. bl_object r = i)
                  (\<lambda>r. r\<lparr>bl_revision := n, bl_operation := Some operation\<rparr>) (cd_baselines d)\<rparr>
          else d)"

text \<open>A transaction of the index: its changes are kept only when it returns without an error.\<close>

definition WithTransaction :: "(client_db \<Rightarrow> client_error + client_db) \<Rightarrow> client_db \<Rightarrow> client_error option \<times> client_db" where
  "WithTransaction f d = (case f d of Inl e \<Rightarrow> (Some e, d) | Inr d' \<Rightarrow> (None, d'))"

end
