(* ===== verification/Client_Outbox.thy ===== *)
theory Client_Outbox
  imports Client_Database
begin

text \<open>
  The outbox of the client, \<open>client/internal/clientsync/store.go\<close>: local changes as immutable operations with
  their dependencies, the projection a new operation builds on, the operations that are ready to be sent
  and the results that come back. A queued operation is one that is pending or attempted. The table is
  in the order of its sequence numbers, as \<open>AUTOINCREMENT\<close> gives them.
\<close>

section \<open>Mutations\<close>

record client_mutation =
  cm_operation :: uuid
  cm_kind :: mutation_kind
  cm_object :: uuid
  cm_type :: object_type
  cm_base :: nat
  cm_parent :: "uuid option"
  cm_name :: string
  cm_blob :: string
  cm_dependency :: "uuid option"
  cm_additional :: "uuid list"
  cm_source :: string
  cm_device :: nat
  cm_inode :: nat

record client_canonical =
  cc_type :: object_type
  cc_revision :: nat
  cc_parent :: "uuid option"
  cc_name :: string
  cc_blob :: string
  cc_deleted :: bool

record client_result =
  cr_accepted :: bool
  cr_conflict :: string
  cr_revision :: nat
  cr_cursor :: nat
  cr_canonical :: "client_canonical option"

record outbox_item =
  oi_sequence :: nat
  oi_mutation :: client_mutation
  oi_status :: op_status

definition valid_component :: "ext \<Rightarrow> string \<Rightarrow> bool" where
  "valid_component x name \<longleftrightarrow> ValidateComponent x name = Inr ()"

definition known_object_type :: "object_type \<Rightarrow> bool" where
  "known_object_type t \<longleftrightarrow> t = ObjectNote \<or> t = ObjectFolder"

definition known_mutation :: "mutation_kind \<Rightarrow> bool" where
  "known_mutation k \<longleftrightarrow> k = MutationCreate \<or> k = MutationUpdate \<or> k = MutationMove \<or> k = MutationDelete"

definition mutation_shape_valid :: "client_mutation \<Rightarrow> bool" where
  "mutation_shape_valid m =
     (case cm_kind m of
        MutationCreate \<Rightarrow>
          cm_base m = 0 \<and> cm_name m \<noteq> [] \<and>
          (cm_type m = ObjectNote \<and> length (cm_blob m) = 32 \<or> cm_type m = ObjectFolder \<and> length (cm_blob m) = 0)
      | MutationUpdate \<Rightarrow>
          cm_base m > 0 \<and> cm_type m = ObjectNote \<and> cm_parent m = None \<and> cm_name m = [] \<and> length (cm_blob m) = 32
      | MutationMove \<Rightarrow> cm_base m > 0 \<and> cm_name m \<noteq> [] \<and> length (cm_blob m) = 0
      | MutationDelete \<Rightarrow> cm_base m > 0 \<and> cm_parent m = None \<and> cm_name m = [] \<and> length (cm_blob m) = 0
      | OtherKind _ \<Rightarrow> False)"

definition has_folder_binding :: "client_mutation \<Rightarrow> bool" where
  "has_folder_binding m \<longleftrightarrow> cm_source m \<noteq> [] \<or> cm_device m \<noteq> 0 \<or> cm_inode m \<noteq> 0"

definition folder_binding_valid :: "ext \<Rightarrow> client_mutation \<Rightarrow> bool" where
  "folder_binding_valid x m \<longleftrightarrow>
     cm_type m = ObjectFolder \<and> (cm_kind m = MutationMove \<or> cm_kind m = MutationDelete) \<and>
     ValidateUserRelativePath x (cm_source m) = Inr () \<and> cm_device m \<noteq> 0 \<and> cm_inode m \<noteq> 0 \<and>
     cm_device m \<le> MaxInt64 \<and> cm_inode m \<le> MaxInt64"

definition validateMutation :: "ext \<Rightarrow> client_mutation \<Rightarrow> client_error + unit" where
  "validateMutation x m =
     (if \<not> validOperationID x (cm_operation m) \<or> \<not> validObjectID x (cm_object m) \<or> \<not> known_object_type (cm_type m)
      then Inl (Failed ''invalid sync mutation identity'')
      else if \<not> known_mutation (cm_kind m) then Inl (Failed ''invalid sync mutation kind'')
      else if (case cm_parent m of None \<Rightarrow> False | Some p \<Rightarrow> \<not> validObjectID x p)
      then Inl (Failed ''invalid sync parent'')
      else if (case cm_dependency m of None \<Rightarrow> False
                 | Some i \<Rightarrow> \<not> validOperationID x i \<or> i = cm_operation m)
      then Inl (Failed ''invalid sync dependency'')
      else if \<not> list_all (\<lambda>i. validOperationID x i \<and> i \<noteq> cm_operation m) (cm_additional m)
      then Inl (Failed ''invalid additional sync dependency'')
      else if cm_base m > MaxInt64 then Inl (Failed ''sync base revision exceeds SQLite range'')
      else if \<not> mutation_shape_valid m then Inl (Failed ''invalid sync mutation shape'')
      else if (cm_kind m = MutationCreate \<or> cm_kind m = MutationMove) \<and> \<not> valid_component x (cm_name m)
      then Inl (Failed ''invalid sync mutation name'')
      else if has_folder_binding m \<and> \<not> folder_binding_valid x m
      then Inl (Failed ''invalid local folder mutation binding'')
      else Inr ())"

definition mutationDependsOn :: "client_mutation \<Rightarrow> uuid \<Rightarrow> bool" where
  "mutationDependsOn m expected \<longleftrightarrow> cm_dependency m = Some expected \<or> expected \<in> set (cm_additional m)"

text \<open>Every operation the mutation names as a prerequisite, in the order they are stored.\<close>

definition mutation_dependencies :: "client_mutation \<Rightarrow> uuid list" where
  "mutation_dependencies m =
     rev (remdups (rev (cm_additional m @ (case cm_dependency m of None \<Rightarrow> [] | Some i \<Rightarrow> [i]))))"

lemma mutation_dependencies_set: "i \<in> set (mutation_dependencies m) \<longleftrightarrow> mutationDependsOn m i"
  by (auto simp: mutation_dependencies_def mutationDependsOn_def split: option.split)

lemma mutation_dependencies_distinct [simp]: "distinct (mutation_dependencies m)"
  by (simp add: mutation_dependencies_def)

section \<open>The projection of an object\<close>

definition queued :: "outbox_op \<Rightarrow> bool" where
  "queued o' \<longleftrightarrow> ob_status o' = OpPending \<or> ob_status o' = OpAttempted"

definition queue_of :: "client_db \<Rightarrow> uuid \<Rightarrow> outbox_op list" where
  "queue_of d i = filter (\<lambda>o'. ob_object o' = i \<and> queued o') (cd_outbox d)"

text \<open>The loop over the queued operations: revision, last operation, whether anything is known.\<close>

fun project_ops :: "ext \<Rightarrow> uuid list \<Rightarrow> nat \<times> uuid option \<times> bool \<Rightarrow> client_error + nat \<times> uuid option \<times> bool" where
  "project_ops x [] s = Inr s"
| "project_ops x (i # is) (revision, dependency, durable) =
     (if \<not> validOperationID x i then Inl (Failed ''corrupt queued operation id'')
      else if revision = MaxInt64 then Inl (Failed ''projected revision overflow'')
      else project_ops x is (Suc revision, Some i, True))"

definition ProjectionTx :: "ext \<Rightarrow> client_db \<Rightarrow> uuid \<Rightarrow> client_error + nat \<times> uuid option \<times> bool" where
  "ProjectionTx x d i =
     (if \<not> validObjectID x i then Inl (Failed ''invalid object id'')
      else project_ops x (map ob_op (queue_of d i))
        (case baseline_at d i of None \<Rightarrow> (0, None, False) | Some b \<Rightarrow> (bl_revision b, None, True)))"

section \<open>Enqueue\<close>

text \<open>A finished recovery of a diverged folder move that already creates the folder of this move.\<close>

definition recovered_create :: "client_db \<Rightarrow> client_mutation \<Rightarrow> uuid option" where
  "recovered_create d m =
     (if cm_kind m = MutationMove \<and> cm_type m = ObjectFolder \<and> cm_parent m = Some ConflictRecoveredID \<and> cm_base m = 1
      then map_option rc_new_operation (find (\<lambda>r. rc_folder r = cm_object m \<and>
             rc_relative r = ConflictRootName @ ''/'' @ ConflictRecoveredName @ ''/'' @ cm_name m \<and>
             list_ex (\<lambda>o'. ob_op o' = rc_new_operation r \<and> ob_object o' = rc_folder r \<and> ob_kind o' = MutationCreate \<and>
               (queued o' \<or> ob_status o' = OpAccepted)) (cd_outbox d)) (cd_recoveries d))
      else None)"

definition referenced :: "client_db \<Rightarrow> uuid \<Rightarrow> bool" where
  "referenced d i \<longleftrightarrow> list_ex (\<lambda>(_, dependency). dependency = i) (cd_deps d)"

definition enqueue_allowed :: "client_db \<Rightarrow> client_mutation \<Rightarrow> nat \<times> uuid option \<times> bool \<Rightarrow> client_error + unit" where
  "enqueue_allowed d m projection =
     (case projection of (revision, dependency, durable) \<Rightarrow>
        if cm_kind m = MutationCreate
        then (if baseline_at d (cm_object m) \<noteq> None \<or>
                 list_ex (\<lambda>o'. ob_object o' = cm_object m \<and> ob_status o' = OpAttempted) (cd_outbox d)
              then Inl (Failed ''create cannot follow durable object state'')
              else if list_ex (\<lambda>o'. ob_object o' = cm_object m \<and> ob_status o' = OpPending \<and> referenced d (ob_op o'))
                  (cd_outbox d)
              then Inl (Failed ''referenced pending create cannot be coalesced'')
              else Inr ())
        else if \<not> durable \<or> revision \<noteq> cm_base m \<or>
                (case dependency of None \<Rightarrow> False | Some i \<Rightarrow> \<not> mutationDependsOn m i)
        then Inl (Failed ''mutation base or dependency does not match durable projection'')
        else Inr ())"

text \<open>An unattempted predecessor that nothing depends on is kept as superseded history.\<close>

definition supersede_pending :: "client_mutation \<Rightarrow> client_db \<Rightarrow> client_db" where
  "supersede_pending m d =
     d\<lparr>cd_outbox := update_rows
        (\<lambda>o'. ob_object o' = cm_object m \<and> ob_status o' = OpPending \<and> \<not> referenced d (ob_op o') \<and>
             \<not> mutationDependsOn m (ob_op o'))
        (\<lambda>o'. o'\<lparr>ob_status := OpSuperseded\<rparr>) (cd_outbox d)\<rparr>"

definition outbox_row_of :: "client_mutation \<Rightarrow> int \<Rightarrow> nat \<Rightarrow> outbox_op" where
  "outbox_row_of m now sequence =
     \<lparr>ob_sequence = sequence, ob_op = cm_operation m, ob_kind = cm_kind m, ob_object = cm_object m,
      ob_type = cm_type m, ob_base = cm_base m, ob_parent = cm_parent m, ob_name = cm_name m,
      ob_blob = nullableBytes (cm_blob m), ob_dependency = cm_dependency m,
      ob_status = OpPending, ob_attempted = None, ob_revision = None, ob_cursor = None, ob_conflict = None,
      ob_created = now\<rparr>"

definition insert_operation :: "client_mutation \<Rightarrow> int \<Rightarrow> client_db \<Rightarrow> client_error + client_db" where
  "insert_operation m now d =
     (if op_at d (cm_operation m) \<noteq> None \<or>
         (case cm_dependency m of None \<Rightarrow> False | Some i \<Rightarrow> op_at d i = None)
      then Inl Refused
      else Inr (d\<lparr>cd_outbox := cd_outbox d @ [outbox_row_of m now (Suc (length (cd_outbox d)))]\<rparr>))"

definition bind_folder :: "client_mutation \<Rightarrow> client_db \<Rightarrow> client_db" where
  "bind_folder m d =
     (if cm_source m = [] then d
      else d\<lparr>cd_intents := cd_intents d @ [\<lparr>fi_op = cm_operation m, fi_folder = cm_object m, fi_kind = cm_kind m,
          fi_source = cm_source m, fi_device = cm_device m, fi_inode = cm_inode m\<rparr>]\<rparr>)"

definition insert_dependencies :: "client_mutation \<Rightarrow> client_db \<Rightarrow> client_error + client_db" where
  "insert_dependencies m d =
     (if list_ex (\<lambda>i. op_at d i = None) (mutation_dependencies m) then Inl Refused
      else Inr (d\<lparr>cd_deps := cd_deps d @ map (Pair (cm_operation m)) (mutation_dependencies m)\<rparr>))"

text \<open>One mutation of a batch; the list holds the objects whose pending operations were superseded.\<close>

definition enqueue_one ::
  "ext \<Rightarrow> int \<Rightarrow> client_mutation \<Rightarrow> uuid list \<times> client_db \<Rightarrow> client_error + uuid list \<times> client_db" where
  "enqueue_one x now m s =
     (case s of (superseded, d) \<Rightarrow>
        rbind (validateMutation x m) (\<lambda>_.
          if (case recovered_create d m of None \<Rightarrow> False | Some i \<Rightarrow> mutationDependsOn m i) then Inr (superseded, d)
          else rbind (ProjectionTx x d (cm_object m)) (\<lambda>projection.
               rbind (enqueue_allowed d m projection) (\<lambda>_.
                 let d1 = (if cm_object m \<in> set superseded then d else supersede_pending m d) in
                 rbind (insert_operation m now d1) (\<lambda>d2.
                 rbind (insert_dependencies m (bind_folder m d2)) (\<lambda>d3.
                   Inr (List.insert (cm_object m) superseded, d3)))))))"

definition enqueueTx :: "ext \<Rightarrow> int \<Rightarrow> client_mutation list \<Rightarrow> client_db \<Rightarrow> client_error + client_db" where
  "enqueueTx x now ms d = rbind (fold_result (enqueue_one x now) ms ([], d)) (\<lambda>(_, d'). Inr d')"

definition Enqueue :: "ext \<Rightarrow> int \<Rightarrow> client_mutation list \<Rightarrow> client_db \<Rightarrow> client_error option \<times> client_db" where
  "Enqueue x now ms = WithTransaction (enqueueTx x now ms)"

section \<open>Ready operations\<close>

text \<open>The resolutions after which an operation that was not accepted no longer holds up its dependants.\<close>

definition released :: "client_db \<Rightarrow> uuid \<Rightarrow> bool" where
  "released d i \<longleftrightarrow>
     list_ex (\<lambda>(operation, resolution). operation = i \<and>
       resolution \<in> set [''folder_move_reverted'', ''note_move_equivalent'']) (cd_resolutions d)"

definition unmet :: "client_db \<Rightarrow> uuid \<Rightarrow> bool" where
  "unmet d i \<longleftrightarrow>
     list_ex (\<lambda>(operation, dependency). operation = i \<and>
       list_ex (\<lambda>p. ob_op p = dependency \<and> ob_status p \<noteq> OpAccepted \<and> \<not> released d dependency) (cd_outbox d)) (cd_deps d)"

definition item_of :: "outbox_op \<Rightarrow> outbox_item" where
  "item_of o' =
     \<lparr>oi_sequence = ob_sequence o',
      oi_mutation = \<lparr>cm_operation = ob_op o', cm_kind = ob_kind o', cm_object = ob_object o', cm_type = ob_type o',
        cm_base = ob_base o', cm_parent = ob_parent o', cm_name = ob_name o', cm_blob = clone_bytes (ob_blob o'),
        cm_dependency = ob_dependency o', cm_additional = [], cm_source = [], cm_device = 0, cm_inode = 0\<rparr>,
      oi_status = ob_status o'\<rparr>"

definition listReady :: "client_db \<Rightarrow> int \<Rightarrow> bool \<Rightarrow> client_error + outbox_item list" where
  "listReady d limit includeAttempted =
     (if limit \<le> 0 \<or> limit > 500 then Inl (Failed ''invalid ready limit'')
      else Inr (take (nat limit) (map item_of (filter (\<lambda>o'.
        (ob_status o' = OpPending \<or> includeAttempted \<and> ob_status o' = OpAttempted) \<and> \<not> unmet d (ob_op o')) (cd_outbox d)))))"

definition ListPending :: "client_db \<Rightarrow> int \<Rightarrow> client_error + outbox_item list" where
  "ListPending d limit = listReady d limit False"

definition ListReady :: "client_db \<Rightarrow> int \<Rightarrow> client_error + outbox_item list" where
  "ListReady d limit = listReady d limit True"

definition mark_attempted :: "ext \<Rightarrow> int \<Rightarrow> uuid \<Rightarrow> client_db \<Rightarrow> client_error + client_db" where
  "mark_attempted x now i d =
     (let P = (\<lambda>o'. ob_op o' = i \<and> queued o' \<and> \<not> unmet d (ob_op o')) in
      if rows_affected P (cd_outbox d) \<noteq> 1 then Inl (Failed ''operation is not pending'')
      else Inr (d\<lparr>cd_outbox := update_rows P (\<lambda>o'. o'\<lparr>ob_status := OpAttempted,
          ob_attempted := Some (case ob_attempted o' of None \<Rightarrow> now | Some t \<Rightarrow> t)\<rparr>) (cd_outbox d)\<rparr>))"

definition MarkAttempted :: "ext \<Rightarrow> int \<Rightarrow> uuid \<Rightarrow> client_db \<Rightarrow> client_error option \<times> client_db" where
  "MarkAttempted x now i d =
     (if \<not> validOperationID x i then (Some (Failed ''invalid operation id''), d)
      else WithTransaction (mark_attempted x now i) d)"

end
