(* ===== verification/Client_Index.thy ===== *)
theory Client_Index
  imports Client_Database
begin

text \<open>
  The local index, \<open>client/internal/localindex/index.go\<close>: the snapshot of the file tree, replaced as a whole
  in one transaction and read back in the order of the paths, and the small coordinator values. The
  schema of migrations 001 and 004 gives the constraints.
\<close>

record index_object =
  ix_id :: uuid
  ix_type :: object_type
  ix_relative :: string
  ix_collision :: string
  ix_parent :: uuid
  ix_hash :: string
  ix_device :: nat
  ix_inode :: nat
  ix_identity :: identity_state

record snapshot =
  sn_objects :: "index_object list"
  sn_issues :: "issue_row list"

definition snapshot_object_problem :: "index_object \<Rightarrow> string option" where
  "snapshot_object_problem r =
     (if ix_id r = uuid_nil then Some ''indexed object has nil id''
      else if ix_type r \<noteq> ObjectNote \<and> ix_type r \<noteq> ObjectFolder then Some ''indexed object has invalid type''
      else if ix_relative r = [] \<or> ix_collision r = [] then Some ''indexed object has empty path''
      else if length (ix_hash r) \<noteq> 0 \<and> length (ix_hash r) \<noteq> 32 then Some ''indexed object has content hash of another length''
      else if ix_type r = ObjectFolder \<and> length (ix_hash r) \<noteq> 0 then Some ''indexed folder has content hash''
      else if ix_identity r \<notin> set [IdentityKnown, IdentityNew, IdentityPending]
      then Some ''indexed object has invalid identity state''
      else None)"

fun validate_objects :: "index_object list \<Rightarrow> client_error + unit" where
  "validate_objects [] = Inr ()"
| "validate_objects (r # rs) =
     (case snapshot_object_problem r of Some e \<Rightarrow> Inl (Failed e) | None \<Rightarrow> validate_objects rs)"

definition validateSnapshot :: "snapshot \<Rightarrow> client_error + unit" where
  "validateSnapshot s = validate_objects (sn_objects s)"

definition index_row_of :: "index_object \<Rightarrow> object_index_row" where
  "index_row_of r =
     (let observed = ix_device r \<noteq> 0 \<or> ix_inode r \<noteq> 0 in
      \<lparr>lo_id = ix_id r, lo_type = ix_type r, lo_relative = ix_relative r, lo_collision = ix_collision r,
       lo_parent = (if ix_parent r = uuid_nil then None else Some (ix_parent r)), lo_hash = nullableBytes (ix_hash r),
       lo_device = (if observed then Some (ix_device r) else None),
       lo_inode = (if observed then Some (ix_inode r) else None), lo_identity = ix_identity r\<rparr>)"

definition insert_index_object :: "index_object \<Rightarrow> client_db \<Rightarrow> client_error + client_db" where
  "insert_index_object r d =
     (if list_ex (\<lambda>q. lo_id q = ix_id r \<or> lo_relative q = ix_relative r) (cd_objects d) \<or>
         \<not> int64 (ix_device r) \<or> \<not> int64 (ix_inode r)
      then Inl Refused
      else Inr (d\<lparr>cd_objects := cd_objects d @ [index_row_of r]\<rparr>))"

definition ReplaceSnapshotTx :: "snapshot \<Rightarrow> client_db \<Rightarrow> client_error + client_db" where
  "ReplaceSnapshotTx s d =
     rbind (validateSnapshot s) (\<lambda>_.
     rbind (fold_result insert_index_object (sn_objects s) (d\<lparr>cd_objects := [], cd_issues := []\<rparr>)) (\<lambda>d.
       Inr (d\<lparr>cd_issues := sn_issues s\<rparr>)))"

definition ReplaceSnapshot :: "snapshot \<Rightarrow> client_db \<Rightarrow> client_error option \<times> client_db" where
  "ReplaceSnapshot s = WithTransaction (ReplaceSnapshotTx s)"

definition index_object_of :: "object_index_row \<Rightarrow> index_object" where
  "index_object_of r =
     (let observed = lo_device r \<noteq> None \<and> lo_inode r \<noteq> None in
      \<lparr>ix_id = lo_id r, ix_type = lo_type r, ix_relative = lo_relative r, ix_collision = lo_collision r,
       ix_parent = (case lo_parent r of None \<Rightarrow> uuid_nil | Some p \<Rightarrow> p), ix_hash = clone_bytes (lo_hash r),
       ix_device = (if observed then the (lo_device r) else 0), ix_inode = (if observed then the (lo_inode r) else 0),
       ix_identity = lo_identity r\<rparr>)"

definition ReadSnapshot :: "client_db \<Rightarrow> snapshot" where
  "ReadSnapshot d =
     \<lparr>sn_objects = map index_object_of (sort_key lo_relative (cd_objects d)),
      sn_issues = sort_key is_relative (sort_key is_code (cd_issues d))\<rparr>"

definition SetState :: "string \<Rightarrow> string \<Rightarrow> client_db \<Rightarrow> client_error option \<times> client_db" where
  "SetState key entry d =
     (if key = [] then (Some (Failed ''index state key is empty''), d)
      else (None, d\<lparr>cd_watcher := (cd_watcher d)(key \<mapsto> entry)\<rparr>))"

definition State :: "client_db \<Rightarrow> string \<Rightarrow> string \<times> bool" where
  "State d key = (case cd_watcher d key of None \<Rightarrow> ([], False) | Some entry \<Rightarrow> (entry, True))"

section \<open>What was stored is read back\<close>

lemma index_row_keys [simp]: "lo_id (index_row_of r) = ix_id r" "lo_relative (index_row_of r) = ix_relative r"
  by (simp_all add: index_row_of_def Let_def)

lemma index_object_of_row [simp]: "index_object_of (index_row_of r) = r"
  by (auto simp: index_object_of_def index_row_of_def Let_def)

lemma insert_index_object_Inr:
  "insert_index_object r d = Inr d' \<Longrightarrow>
     d' = d\<lparr>cd_objects := cd_objects d @ [index_row_of r]\<rparr> \<and>
     ix_id r \<notin> lo_id ` set (cd_objects d) \<and> ix_relative r \<notin> lo_relative ` set (cd_objects d)"
  by (auto simp: insert_index_object_def list_ex_iff split: if_splits)

lemma insert_index_objects:
  assumes "fold_result insert_index_object rs d = Inr d'"
    and "distinct (map lo_relative (cd_objects d)) \<and> distinct (map lo_id (cd_objects d))"
  shows "d' = d\<lparr>cd_objects := cd_objects d @ map index_row_of rs\<rparr> \<and>
    distinct (map lo_relative (cd_objects d')) \<and> distinct (map lo_id (cd_objects d'))"
  using assms
proof (induction rs arbitrary: d)
  case (Cons r rs)
  from Cons.prems(1) obtain d1 where d1: "insert_index_object r d = Inr d1" "fold_result insert_index_object rs d1 = Inr d'"
    by (auto elim: rbind_InrE)
  from insert_index_object_Inr [OF d1(1)] have *: "d1 = d\<lparr>cd_objects := cd_objects d @ [index_row_of r]\<rparr>"
    "ix_id r \<notin> lo_id ` set (cd_objects d)" "ix_relative r \<notin> lo_relative ` set (cd_objects d)" by simp_all
  with Cons.prems(2) have "distinct (map lo_relative (cd_objects d1)) \<and> distinct (map lo_id (cd_objects d1))" by simp
  from Cons.IH [OF d1(2) this] show ?case by (auto simp only: *(1)) simp
qed simp

lemma sort_key_map_row: "sort_key lo_relative (map index_row_of rs) = map index_row_of (sort_key ix_relative rs)"
proof -
  have ins: "insort_key lo_relative (index_row_of r) (map index_row_of rs) = map index_row_of (insort_key ix_relative r rs)" for r rs
    by (induction rs) auto
  show ?thesis by (induction rs) (simp_all add: ins)
qed

lemma snapshot_read_back:
  assumes "ReplaceSnapshotTx s d = Inr d'"
  shows "ReadSnapshot d' = \<lparr>sn_objects = sort_key ix_relative (sn_objects s),
      sn_issues = sort_key is_relative (sort_key is_code (sn_issues s))\<rparr>"
    "distinct (map ix_relative (sn_objects s))" "distinct (map ix_id (sn_objects s))"
    "d' = d\<lparr>cd_objects := cd_objects d', cd_issues := cd_issues d'\<rparr>"
proof -
  from assms obtain d1 where *: "fold_result insert_index_object (sn_objects s) (d\<lparr>cd_objects := [], cd_issues := []\<rparr>) = Inr d1"
    "d' = d1\<lparr>cd_issues := sn_issues s\<rparr>" by (auto simp: ReplaceSnapshotTx_def)
  note rows = insert_index_objects [OF *(1)]
  have d1: "d1 = d\<lparr>cd_objects := map index_row_of (sn_objects s), cd_issues := []\<rparr>" using rows by simp
  have distinct: "distinct (map lo_relative (cd_objects d1))" by (rule conjunct1 [OF conjunct2 [OF rows]]) simp
  have distinct': "distinct (map lo_id (cd_objects d1))" by (rule conjunct2 [OF conjunct2 [OF rows]]) simp
  have keys: "map lo_relative (cd_objects d1) = map ix_relative (sn_objects s)" "map lo_id (cd_objects d1) = map ix_id (sn_objects s)"
    by (simp_all add: d1 o_def)
  show "ReadSnapshot d' = \<lparr>sn_objects = sort_key ix_relative (sn_objects s),
      sn_issues = sort_key is_relative (sort_key is_code (sn_issues s))\<rparr>"
    by (simp add: ReadSnapshot_def *(2) d1 sort_key_map_row comp_def)
  show "distinct (map ix_relative (sn_objects s))" "distinct (map ix_id (sn_objects s))"
    using distinct distinct' unfolding keys by simp_all
  show "d' = d\<lparr>cd_objects := cd_objects d', cd_issues := cd_issues d'\<rparr>" by (simp add: *(2) d1)
qed

end
