(* ===== verification/Client_Store.thy ===== *)
theory Client_Store
  imports Client_Outbox Client_Index
begin

text \<open>
  The rest of the outbox in \<open>client/internal/clientsync/store.go\<close>: results, projections and baselines, the
  capture of a snapshot, the bootstrap and the confirmed cursor.
\<close>

section \<open>Results\<close>

definition nullablePositive :: "nat \<Rightarrow> nat option" where
  "nullablePositive n = (if n = 0 then None else Some n)"

definition canonical_valid :: "ext \<Rightarrow> client_canonical \<Rightarrow> bool" where
  "canonical_valid x c \<longleftrightarrow>
     known_object_type (cc_type c) \<and> cc_revision c \<noteq> 0 \<and> cc_revision c \<le> MaxInt64 \<and> valid_component x (cc_name c) \<and>
     (case cc_parent c of None \<Rightarrow> True | Some p \<Rightarrow> validObjectID x p) \<and>
     (cc_type c = ObjectNote \<longrightarrow> length (cc_blob c) = 32) \<and> (cc_type c = ObjectFolder \<longrightarrow> length (cc_blob c) = 0)"

definition validate_result :: "ext \<Rightarrow> uuid \<Rightarrow> client_result \<Rightarrow> client_error + unit" where
  "validate_result x i r =
     (if \<not> validOperationID x i then Inl (Failed ''invalid operation id'')
      else if cr_accepted r \<and> (cr_revision r = 0 \<or> cr_cursor r = 0 \<or> cr_conflict r \<noteq> [] \<or> cr_canonical r \<noteq> None) \<or>
              \<not> cr_accepted r \<and> (cr_conflict r = [] \<or> cr_revision r \<noteq> 0 \<or> cr_cursor r \<noteq> 0) \<or>
              cr_revision r > MaxInt64 \<or> cr_cursor r > MaxInt64
      then Inl (Failed ''invalid operation result'')
      else case cr_canonical r of
        None \<Rightarrow> Inr ()
      | Some c \<Rightarrow> if canonical_valid x c then Inr () else Inl (Failed ''invalid canonical conflict state''))"

definition store_conflict_state :: "uuid \<Rightarrow> client_canonical \<Rightarrow> client_db \<Rightarrow> client_error + client_db" where
  "store_conflict_state i c d =
     (if i \<in> cs_op ` set (cd_conflicts d) then Inl Refused
      else Inr (d\<lparr>cd_conflicts := cd_conflicts d @ [\<lparr>cs_op = i, cs_type = cc_type c, cs_revision = cc_revision c,
          cs_parent = cc_parent c, cs_name = cc_name c, cs_blob = nullableBytes (cc_blob c), cs_deleted = cc_deleted c\<rparr>]\<rparr>))"

definition settle_operation :: "uuid \<Rightarrow> (outbox_op \<Rightarrow> outbox_op) \<Rightarrow> client_error \<Rightarrow> client_db \<Rightarrow> client_error + client_db" where
  "settle_operation i f e d =
     (let P = (\<lambda>q. ob_op q = i \<and> queued q) in
      if rows_affected P (cd_outbox d) \<noteq> 1 then Inl e
      else Inr (d\<lparr>cd_outbox := update_rows P f (cd_outbox d)\<rparr>))"

definition record_result :: "uuid \<Rightarrow> client_result \<Rightarrow> client_db \<Rightarrow> client_error + client_db" where
  "record_result i r d =
     (if cr_accepted r \<and> unmet d i then Inl (Failed ''operation dependencies are not accepted'')
      else rbind (settle_operation i (\<lambda>q. q\<lparr>ob_status := if cr_accepted r then OpAccepted else OpConflict,
            ob_revision := nullablePositive (cr_revision r), ob_cursor := nullablePositive (cr_cursor r),
            ob_conflict := nullableString (cr_conflict r)\<rparr>) (Failed ''operation result already final or missing'') d) (\<lambda>d.
        rbind (case cr_canonical r of None \<Rightarrow> Inr d | Some c \<Rightarrow> store_conflict_state i c d) (\<lambda>d.
          if \<not> cr_accepted r then Inr d
          else case op_at d i of
            None \<Rightarrow> Inl NoRows
          | Some q \<Rightarrow>
              if ob_base q = MaxInt64 \<or> cr_revision r \<noteq> ob_base q + 1
              then Inl (Failed ''accepted revision does not match immutable operation base'')
              else Inr (raise_baseline (ob_object q) (cr_revision r) i d))))"

definition RecordResult :: "ext \<Rightarrow> uuid \<Rightarrow> client_result \<Rightarrow> client_db \<Rightarrow> client_error option \<times> client_db" where
  "RecordResult x i r d =
     (case validate_result x i r of Inl e \<Rightarrow> (Some e, d) | Inr _ \<Rightarrow> WithTransaction (record_result i r) d)"

definition CanonicalConflictState :: "ext \<Rightarrow> client_db \<Rightarrow> uuid \<Rightarrow> client_error + client_canonical option" where
  "CanonicalConflictState x d i =
     (if \<not> validOperationID x i then Inl (Failed ''invalid operation id'')
      else Inr (map_option (\<lambda>c. \<lparr>cc_type = cs_type c, cc_revision = cs_revision c, cc_parent = cs_parent c,
          cc_name = cs_name c, cc_blob = clone_bytes (cs_blob c), cc_deleted = cs_deleted c\<rparr>) (row_at cs_op (cd_conflicts d) i)))"

definition finalStatus :: "uuid \<Rightarrow> op_status \<Rightarrow> client_db \<Rightarrow> client_error option \<times> client_db" where
  "finalStatus i status =
     WithTransaction (settle_operation i (\<lambda>q. q\<lparr>ob_status := status\<rparr>) (Failed ''operation missing or final''))"

definition RecordReplayMismatch :: "ext \<Rightarrow> uuid \<Rightarrow> client_db \<Rightarrow> client_error option \<times> client_db" where
  "RecordReplayMismatch x i d =
     (if \<not> validOperationID x i then (Some (Failed ''invalid operation id''), d) else finalStatus i OpReplayMismatch d)"

section \<open>Projections, intents and baselines\<close>

definition Projection :: "ext \<Rightarrow> client_db \<Rightarrow> uuid \<Rightarrow> client_error + nat \<times> uuid option \<times> bool" where
  "Projection x d i = ProjectionTx x d i"

text \<open>The view of the local intents without an outcome: objects with an operation that no recovery settled.\<close>

definition unresolved_operation :: "client_db \<Rightarrow> outbox_op \<Rightarrow> bool" where
  "unresolved_operation d q \<longleftrightarrow>
     (queued q \<or> ob_status q = OpReplayMismatch) \<and> ob_op q \<notin> set (cd_settled d) \<or>
     ob_status q = OpConflict \<and> ob_op q \<notin> fst ` set (cd_resolutions d) \<and> ob_op q \<notin> set (cd_settled_conflicts d)"

definition unresolved_intent :: "client_db \<Rightarrow> uuid \<Rightarrow> bool" where
  "unresolved_intent d i \<longleftrightarrow> list_ex (\<lambda>q. ob_object q = i \<and> unresolved_operation d q) (cd_outbox d)"

definition HasUnresolvedOutbox :: "client_db \<Rightarrow> bool" where
  "HasUnresolvedOutbox d \<longleftrightarrow> list_ex (unresolved_operation d) (cd_outbox d)"

definition HasUnresolvedLocalIntent :: "ext \<Rightarrow> client_db \<Rightarrow> uuid \<Rightarrow> client_error + bool" where
  "HasUnresolvedLocalIntent x d i =
     (if \<not> validObjectID x i then Inl (Failed ''invalid object id'') else Inr (unresolved_intent d i))"

definition BaselineMatchesOperation :: "ext \<Rightarrow> client_db \<Rightarrow> uuid \<Rightarrow> nat \<Rightarrow> uuid \<Rightarrow> client_error + bool" where
  "BaselineMatchesOperation x d i n operation =
     (if \<not> validObjectID x i \<or> \<not> validOperationID x operation \<or> n = 0 then Inl (Failed ''invalid baseline operation'')
      else Inr (list_ex (\<lambda>b. bl_object b = i \<and> bl_revision b = n \<and> bl_operation b = Some operation) (cd_baselines d)))"

definition BaselineMatchesAppliedNote :: "ext \<Rightarrow> client_db \<Rightarrow> uuid \<Rightarrow> uuid \<Rightarrow> string \<Rightarrow> string \<Rightarrow> client_error + bool" where
  "BaselineMatchesAppliedNote x d i parent name hash =
     (if \<not> validObjectID x i \<or> \<not> valid_component x name \<or> length hash \<noteq> 32
      then Inl (Failed ''invalid applied note baseline'')
      else Inr (list_ex (\<lambda>b. bl_object b = i \<and> list_ex (\<lambda>s. st_object s = i \<and> st_revision s = bl_revision b \<and>
          Some (st_operation s) = bl_operation b \<and> st_type s = ObjectNote \<and> st_applied s \<and>
          (\<exists>p\<in>set (cd_plans d). ap_id p = st_plan s \<and> ap_status p = PlanCompleted) \<and> st_name s = name \<and>
          st_blob s = Some hash \<and> st_parent s = (if parent = uuid_nil then None else Some parent)) (cd_steps d)) (cd_baselines d)))"

definition Baseline :: "ext \<Rightarrow> client_db \<Rightarrow> uuid \<Rightarrow> client_error + nat \<times> bool" where
  "Baseline x d i =
     (if \<not> validObjectID x i then Inl (Failed ''invalid object id'')
      else Inr (case baseline_at d i of None \<Rightarrow> (0, False) | Some b \<Rightarrow> (bl_revision b, True)))"

section \<open>Snapshots and the bootstrap\<close>

definition cancel_pending :: "uuid \<Rightarrow> client_db \<Rightarrow> client_db" where
  "cancel_pending i d =
     d\<lparr>cd_outbox := update_rows (\<lambda>q. ob_object q = i \<and> ob_status q = OpPending) (\<lambda>q. q\<lparr>ob_status := OpSuperseded\<rparr>) (cd_outbox d)\<rparr>"

definition replaceSnapshotAndEnqueueTx ::
  "ext \<Rightarrow> int \<Rightarrow> snapshot \<Rightarrow> client_mutation list \<Rightarrow> uuid list \<Rightarrow> client_db \<Rightarrow> client_error + client_db" where
  "replaceSnapshotAndEnqueueTx x now s ms cancelled d =
     rbind (ReplaceSnapshotTx s d) (\<lambda>d. enqueueTx x now ms (fold cancel_pending cancelled d))"

definition ReplaceSnapshotAndEnqueue ::
  "ext \<Rightarrow> int \<Rightarrow> snapshot \<Rightarrow> client_mutation list \<Rightarrow> uuid list \<Rightarrow> client_db \<Rightarrow> client_error option \<times> client_db" where
  "ReplaceSnapshotAndEnqueue x now s ms cancelled = WithTransaction (replaceSnapshotAndEnqueueTx x now s ms cancelled)"

text \<open>\<open>derive\<close> reads the projections inside the transaction; here it is a function of the tables.\<close>

definition CaptureSnapshot ::
  "ext \<Rightarrow> int \<Rightarrow> snapshot \<Rightarrow> bool \<Rightarrow> (client_db \<Rightarrow> client_error + client_mutation list \<times> uuid list) \<Rightarrow> client_db \<Rightarrow>
     client_error option \<times> client_db" where
  "CaptureSnapshot x now s recovery derive =
     WithTransaction (\<lambda>d.
       if recovery \<or> cd_state d ''bootstrap_required'' = Some ''1'' then ReplaceSnapshotTx s d
       else rbind (derive d) (\<lambda>(ms, cancelled). replaceSnapshotAndEnqueueTx x now s ms cancelled d))"

definition PrepareBootstrap :: "ext \<Rightarrow> int \<Rightarrow> client_mutation list \<Rightarrow> client_db \<Rightarrow> client_error option \<times> client_db" where
  "PrepareBootstrap x now ms =
     WithTransaction (\<lambda>d.
       case cd_state d ''bootstrap_required'' of
         None \<Rightarrow> Inl NoRows
       | Some entry \<Rightarrow>
           if entry \<noteq> ''1'' then Inl (Failed ''sync bootstrap is not required'')
           else rbind (enqueueTx x now ms d) (\<lambda>d. Inr (d\<lparr>cd_state := (cd_state d)(''bootstrap_required'' \<mapsto> ''0'')\<rparr>)))"

definition BootstrapRequired :: "client_db \<Rightarrow> bool" where
  "BootstrapRequired d \<longleftrightarrow> cd_state d ''bootstrap_required'' = Some ''1''"

section \<open>The confirmed cursor\<close>

definition ConfirmedCursor :: "client_db \<Rightarrow> client_error + nat" where
  "ConfirmedCursor d =
     (case cd_state d ''confirmed_cursor'' of
        None \<Rightarrow> Inr 0
      | Some raw \<Rightarrow> (case ParseUint63 raw of
          None \<Rightarrow> Inl (Failed ''invalid confirmed cursor'')
        | Some n \<Rightarrow> if decimal n = raw then Inr n else Inl (Failed ''invalid confirmed cursor'')))"

text \<open>The cursor as the transactions read it: absent is zero, and every text that parses counts.\<close>

definition confirmed_tx :: "client_db \<Rightarrow> client_error + nat" where
  "confirmed_tx d =
     (case cd_state d ''confirmed_cursor'' of
        None \<Rightarrow> Inr 0
      | Some raw \<Rightarrow> (case ParseUint63 raw of None \<Rightarrow> Inl (Failed ''strconv.ParseUint'') | Some n \<Rightarrow> Inr n))"

definition set_confirmed :: "nat \<Rightarrow> client_db \<Rightarrow> client_db" where
  "set_confirmed n d = d\<lparr>cd_state := (cd_state d)(''confirmed_cursor'' \<mapsto> decimal n)\<rparr>"

definition SetConfirmedCursor :: "nat \<Rightarrow> client_db \<Rightarrow> client_error option \<times> client_db" where
  "SetConfirmedCursor cursor d =
     (if cursor > MaxInt64 then (Some (Failed ''confirmed cursor exceeds SQLite range''), d)
      else WithTransaction (\<lambda>d. rbind (confirmed_tx d) (\<lambda>current.
        if cursor < current then Inl (Failed ''confirmed cursor cannot move backwards'')
        else Inr (set_confirmed cursor d))) d)"

end
