(* ===== verification/Client_Inbox.thy ===== *)
theory Client_Inbox
  imports Client_Store
begin

text \<open>
  The inbox of the client, \<open>client/internal/clientsync/inbox.go\<close>: pulled changes stored page by page, their
  states, the plans that apply one note ahead of the order of the cursors, and the two frontiers
  (downloaded and confirmed). The views and triggers of migrations 025 to 039 are the predicates and guards here.
\<close>

section \<open>Changes\<close>

record client_change =
  ch_cursor :: nat
  ch_mutation :: mutation_kind
  ch_operation :: uuid
  ch_object :: uuid
  ch_type :: object_type
  ch_revision :: nat
  ch_parent :: "uuid option"
  ch_name :: string
  ch_blob :: "string option"
  ch_deleted :: bool
  ch_state :: string

record parent_binding =
  ipb_parent :: uuid
  ipb_relative :: string
  ipb_device :: nat
  ipb_inode :: nat

text \<open>\<open>parseCursor\<close> and \<open>readSyncCursor\<close>; the label only enters the text of the error.\<close>

definition parseCursor :: "string \<Rightarrow> string \<Rightarrow> client_error + nat" where
  "parseCursor raw label =
     (case ParseUint63 raw of
        Some n \<Rightarrow> if decimal n = raw then Inr n else Inl (Failed (''invalid '' @ label @ '' cursor''))
      | None \<Rightarrow> Inl (Failed (''invalid '' @ label @ '' cursor'')))"

definition readSyncCursor :: "client_db \<Rightarrow> string \<Rightarrow> string \<Rightarrow> client_error + nat" where
  "readSyncCursor d key label = (case cd_state d key of None \<Rightarrow> Inl NoRows | Some raw \<Rightarrow> parseCursor raw label)"

definition read_downloaded :: "client_db \<Rightarrow> client_error + nat" where
  "read_downloaded d = readSyncCursor d ''downloaded_cursor'' ''downloaded''"

text \<open>The confirmed cursor of the inbox: an absent one is zero.\<close>

definition read_confirmed :: "client_db \<Rightarrow> client_error + nat" where
  "read_confirmed d =
     (case readSyncCursor d ''confirmed_cursor'' ''confirmed'' of Inl NoRows \<Rightarrow> Inr 0 | r \<Rightarrow> r)"

definition DownloadedCursor :: "client_db \<Rightarrow> client_error + nat" where
  "DownloadedCursor d = read_downloaded d"

definition blob_length :: "string option \<Rightarrow> nat" where
  "blob_length b = length (clone_bytes b)"

definition validateInboxChange :: "ext \<Rightarrow> client_change \<Rightarrow> client_error + unit" where
  "validateInboxChange x c =
     (if ch_state c \<noteq> [] \<or> ch_cursor c = 0 \<or> ch_cursor c > MaxInt64 \<or> \<not> validOperationID x (ch_operation c) \<or>
         \<not> validObjectID x (ch_object c) \<or> \<not> known_object_type (ch_type c) \<or> \<not> known_mutation (ch_mutation c) \<or>
         ch_revision c = 0 \<or> ch_revision c > MaxInt64 \<or>
         ch_mutation c = MutationCreate \<and> ch_revision c \<noteq> 1 \<or> ch_mutation c \<noteq> MutationCreate \<and> ch_revision c < 2 \<or>
         (case ch_parent c of None \<Rightarrow> False | Some p \<Rightarrow> \<not> validObjectID x p) \<or>
         ch_name c = [] \<or> \<not> valid_component x (ch_name c) \<or>
         ch_type c = ObjectNote \<and> blob_length (ch_blob c) \<noteq> 32 \<or> ch_type c = ObjectFolder \<and> ch_blob c \<noteq> None \<or>
         ch_deleted c \<noteq> (ch_mutation c = MutationDelete)
      then Inl (Failed ''invalid inbox change'') else Inr ())"

definition change_of :: "inbox_row \<Rightarrow> client_change" where
  "change_of r =
     \<lparr>ch_cursor = ib_cursor r, ch_mutation = ib_mutation r, ch_operation = ib_operation r, ch_object = ib_object r,
      ch_type = ib_type r, ch_revision = ib_revision r, ch_parent = ib_parent r, ch_name = ib_name r,
      ch_blob = ib_blob r, ch_deleted = ib_deleted r, ch_state = []\<rparr>"

definition sameChangePayload :: "client_change \<Rightarrow> client_change \<Rightarrow> bool" where
  "sameChangePayload a b \<longleftrightarrow>
     ch_cursor a = ch_cursor b \<and> ch_operation a = ch_operation b \<and> ch_object a = ch_object b \<and>
     ch_mutation a = ch_mutation b \<and> ch_type a = ch_type b \<and> ch_revision a = ch_revision b \<and> ch_name a = ch_name b \<and>
     ch_deleted a = ch_deleted b \<and> clone_bytes (ch_blob a) = clone_bytes (ch_blob b) \<and> ch_parent a = ch_parent b"

definition inbox_times_valid :: "inbox_row \<Rightarrow> bool" where
  "inbox_times_valid r \<longleftrightarrow>
     0 \<le> ib_ingested r \<and>
     (case (ib_state r, ib_applying r, ib_applied r) of
        (InboxPending, None, None) \<Rightarrow> True
      | (InboxApplying, Some t, None) \<Rightarrow> ib_ingested r \<le> t
      | (InboxApplied, Some t, Some t') \<Rightarrow> ib_ingested r \<le> t \<and> t \<le> t'
      | _ \<Rightarrow> False)"

text \<open>A stored row as it is read back, with every check of the reader. The item is the row itself.\<close>

definition scanInboxItem :: "ext \<Rightarrow> inbox_row \<Rightarrow> client_error + inbox_row" where
  "scanInboxItem x r =
     (if \<not> validOperationID x (ib_operation r) then Inl (Failed ''invalid stored inbox operation'')
      else if \<not> validObjectID x (ib_object r) then Inl (Failed ''invalid stored inbox object'')
      else if (case ib_parent r of None \<Rightarrow> False | Some p \<Rightarrow> \<not> validObjectID x p)
      then Inl (Failed ''invalid stored inbox parent'')
      else case validateInboxChange x (change_of r) of
        Inl _ \<Rightarrow> Inl (Failed ''invalid stored inbox payload'')
      | Inr _ \<Rightarrow> if \<not> inbox_times_valid r then Inl (Failed ''invalid stored inbox state'') else Inr r)"

definition scan_option :: "ext \<Rightarrow> inbox_row option \<Rightarrow> client_error + inbox_row option" where
  "scan_option x r = (case r of None \<Rightarrow> Inr None | Some r \<Rightarrow> rbind (scanInboxItem x r) (\<lambda>r. Inr (Some r)))"

fun scan_rows :: "ext \<Rightarrow> inbox_row list \<Rightarrow> client_error + inbox_row list" where
  "scan_rows x [] = Inr []"
| "scan_rows x (r # rs) = rbind (scanInboxItem x r) (\<lambda>r. rbind (scan_rows x rs) (\<lambda>rs. Inr (r # rs)))"

definition inboxItemTx :: "ext \<Rightarrow> client_db \<Rightarrow> nat \<Rightarrow> client_error + inbox_row option" where
  "inboxItemTx x d cursor = scan_option x (inbox_at d cursor)"

definition cursor_valid :: "nat \<Rightarrow> bool" where
  "cursor_valid c \<longleftrightarrow> c \<noteq> 0 \<and> c \<le> MaxInt64"

definition InboxChange :: "ext \<Rightarrow> client_db \<Rightarrow> nat \<Rightarrow> client_error + inbox_row option" where
  "InboxChange x d cursor =
     (if \<not> cursor_valid cursor then Inl (Failed ''invalid inbox cursor'') else inboxItemTx x d cursor)"

definition PendingInboxChange :: "ext \<Rightarrow> client_db \<Rightarrow> nat \<Rightarrow> client_error + inbox_row option" where
  "PendingInboxChange x d cursor =
     (if \<not> cursor_valid cursor then Inl (Failed ''invalid inbox cursor'')
      else scan_option x (find (\<lambda>r. ib_cursor r = cursor \<and> ib_state r = InboxPending) (cd_inbox d)))"

definition ListPendingInbox :: "ext \<Rightarrow> client_db \<Rightarrow> int \<Rightarrow> client_error + inbox_row list" where
  "ListPendingInbox x d limit =
     (if limit \<le> 0 \<or> limit > 1000 then Inl (Failed ''invalid inbox list limit'')
      else scan_rows x (take (nat limit) (sort_key ib_cursor (filter (\<lambda>r. ib_state r = InboxPending) (cd_inbox d)))))"

section \<open>Ingesting a page\<close>

text \<open>The checks on a page: contiguous cursors from \<open>from + 1\<close>, every change valid.\<close>

fun check_page :: "ext \<Rightarrow> nat \<Rightarrow> client_change list \<Rightarrow> client_error + unit" where
  "check_page x from [] = Inr ()"
| "check_page x from (c # cs) =
     (if from = MaxInt64 \<or> ch_cursor c \<noteq> from + 1 then Inl (Failed ''inbox page cursor is not contiguous'')
      else rbind (validateInboxChange x c) (\<lambda>_. check_page x (from + 1) cs))"

definition inbox_row_of :: "int \<Rightarrow> client_change \<Rightarrow> inbox_row" where
  "inbox_row_of now c =
     \<lparr>ib_cursor = ch_cursor c, ib_operation = ch_operation c, ib_object = ch_object c, ib_mutation = ch_mutation c,
      ib_type = ch_type c, ib_revision = ch_revision c, ib_parent = ch_parent c, ib_name = ch_name c,
      ib_blob = nullableBytes (clone_bytes (ch_blob c)), ib_deleted = ch_deleted c, ib_state = InboxPending,
      ib_ingested = now, ib_applying = None, ib_applied = None\<rparr>"

definition insert_change_row :: "int \<Rightarrow> client_change \<Rightarrow> client_db \<Rightarrow> client_error + client_db" where
  "insert_change_row now c d =
     (if now < 0 \<or> list_ex (\<lambda>r. ib_cursor r = ch_cursor c \<or> ib_operation r = ch_operation c) (cd_inbox d) then Inl Refused
      else Inr (d\<lparr>cd_inbox := cd_inbox d @ [inbox_row_of now c]\<rparr>))"

definition set_downloaded :: "nat \<Rightarrow> client_db \<Rightarrow> client_db" where
  "set_downloaded n d = d\<lparr>cd_state := (cd_state d)(''downloaded_cursor'' \<mapsto> decimal n)\<rparr>"

fun check_replay :: "ext \<Rightarrow> client_db \<Rightarrow> client_change list \<Rightarrow> client_error + unit" where
  "check_replay x d [] = Inr ()"
| "check_replay x d (c # cs) =
     rbind (inboxItemTx x d (ch_cursor c)) (\<lambda>stored.
       if (case stored of None \<Rightarrow> True | Some r \<Rightarrow> \<not> sameChangePayload (change_of r) c)
       then Inl (Failed ''inbox replay payload mismatch'')
       else check_replay x d cs)"

definition ingest_page :: "ext \<Rightarrow> int \<Rightarrow> nat \<Rightarrow> nat \<Rightarrow> client_change list \<Rightarrow> client_db \<Rightarrow> client_error + client_db" where
  "ingest_page x now from to cs d =
     rbind (read_downloaded d) (\<lambda>downloaded.
       if from < downloaded
       then (if to > downloaded then Inl (Failed ''inbox replay overlaps downloaded frontier'')
             else rbind (check_replay x d cs) (\<lambda>_. Inr d))
       else if from \<noteq> downloaded then Inl (Failed ''inbox page does not start at downloaded cursor'')
       else rbind (fold_result (insert_change_row now) cs d) (\<lambda>d.
         if to \<noteq> downloaded then Inr (set_downloaded to d) else Inr d))"

definition IngestPullPage ::
  "ext \<Rightarrow> int \<Rightarrow> nat \<Rightarrow> nat \<Rightarrow> client_change list \<Rightarrow> client_db \<Rightarrow> client_error option \<times> client_db" where
  "IngestPullPage x now from to cs d =
     (if from > MaxInt64 \<or> to > MaxInt64 \<or> to < from \<or> length cs \<noteq> to - from
      then (Some (Failed ''invalid inbox page cursor range''), d)
      else case check_page x from cs of
        Inl e \<Rightarrow> (Some e, d)
      | Inr _ \<Rightarrow> WithTransaction (ingest_page x now from to cs) d)"

section \<open>The folders above a note\<close>

record ancestor =
  an_depth :: nat
  an_row :: object_index_row
  an_baseline :: "baseline_row option"

text \<open>The recursive view: up to 256 folders, ending at an unknown or repeated one.\<close>

fun ancestry :: "client_db \<Rightarrow> nat \<Rightarrow> nat \<Rightarrow> uuid list \<Rightarrow> uuid option \<Rightarrow> ancestor list" where
  "ancestry d 0 depth seen parent = []"
| "ancestry d (Suc k) depth seen None = []"
| "ancestry d (Suc k) depth seen (Some p) =
     (if p \<in> set seen then []
      else case index_at d p of
        None \<Rightarrow> []
      | Some r \<Rightarrow> \<lparr>an_depth = depth, an_row = r, an_baseline = baseline_at d p\<rparr> #
          ancestry d k (Suc depth) (p # seen) (lo_parent r))"

definition note_ancestry :: "client_db \<Rightarrow> inbox_row \<Rightarrow> ancestor list" where
  "note_ancestry d r = (if ib_type r = ObjectNote then ancestry d 256 1 [] (ib_parent r) else [])"

definition earlier_unapplied :: "client_db \<Rightarrow> uuid \<Rightarrow> nat \<Rightarrow> bool" where
  "earlier_unapplied d i cursor \<longleftrightarrow>
     list_ex (\<lambda>r. ib_object r = i \<and> ib_cursor r < cursor \<and> ib_state r \<noteq> InboxApplied) (cd_inbox d)"

text \<open>A folder that is known, observed on disk and at a confirmed revision.\<close>

definition ancestor_fixed :: "ancestor \<Rightarrow> bool" where
  "ancestor_fixed a \<longleftrightarrow>
     lo_type (an_row a) = ObjectFolder \<and> lo_identity (an_row a) = IdentityKnown \<and>
     (case lo_device (an_row a) of None \<Rightarrow> False | Some n \<Rightarrow> 0 < n) \<and>
     (case lo_inode (an_row a) of None \<Rightarrow> False | Some n \<Rightarrow> 0 < n) \<and>
     (case an_baseline a of
        None \<Rightarrow> False
      | Some b \<Rightarrow> 0 < bl_revision b \<and> (case bl_operation b of None \<Rightarrow> False | Some i \<Rightarrow> i \<noteq> uuid_nil))"

definition ancestor_quiet :: "client_db \<Rightarrow> nat \<Rightarrow> uuid \<Rightarrow> bool" where
  "ancestor_quiet d cursor i \<longleftrightarrow> \<not> earlier_unapplied d i cursor \<and> \<not> unresolved_intent d i"

definition rooted_chain :: "ancestor list \<Rightarrow> bool" where
  "rooted_chain as \<longleftrightarrow> list_ex (\<lambda>a. lo_parent (an_row a) = None) as"

text \<open>The view of the changes that may be applied ahead of their turn.\<close>

definition independent_candidate :: "client_db \<Rightarrow> inbox_row \<Rightarrow> bool" where
  "independent_candidate d r \<longleftrightarrow>
     ib_state r = InboxPending \<and> ib_type r = ObjectNote \<and>
     (ib_mutation r = MutationUpdate \<or> ib_mutation r = MutationDelete) \<and>
     (case baseline_at d (ib_object r) of None \<Rightarrow> False | Some b \<Rightarrow> bl_revision b + 1 = ib_revision r) \<and>
     \<not> earlier_unapplied d (ib_object r) (ib_cursor r) \<and> \<not> unresolved_intent d (ib_object r) \<and>
     (ib_parent r = None \<or>
      rooted_chain (note_ancestry d r) \<and>
      list_all (\<lambda>a. ancestor_fixed a \<and> ancestor_quiet d (ib_cursor r) (lo_id (an_row a))) (note_ancestry d r))"

definition ListIndependentInboxCandidates :: "ext \<Rightarrow> client_db \<Rightarrow> int \<Rightarrow> client_error + inbox_row list" where
  "ListIndependentInboxCandidates x d limit =
     (if limit \<le> 0 \<or> limit > 1000 then Inl (Failed ''invalid independent inbox candidate limit'')
      else scan_rows x (take (nat limit) (sort_key ib_cursor (filter (independent_candidate d) (cd_inbox d)))))"

section \<open>Bindings of a plan to its folders\<close>

definition binding_matches :: "binding_row \<Rightarrow> ancestor \<Rightarrow> bool" where
  "binding_matches b a \<longleftrightarrow>
     an_depth a = pb_depth b \<and> lo_id (an_row a) = pb_ancestor b \<and> lo_parent (an_row a) = pb_parent b \<and>
     lo_relative (an_row a) = pb_relative b \<and> lo_device (an_row a) = Some (pb_device b) \<and>
     lo_inode (an_row a) = Some (pb_inode b) \<and>
     (case an_baseline a of
        None \<Rightarrow> False | Some l \<Rightarrow> bl_revision l = pb_revision b \<and> bl_operation l = Some (pb_operation b))"

definition valid_parent_binding :: "client_db \<Rightarrow> inbox_row \<Rightarrow> binding_row \<Rightarrow> bool" where
  "valid_parent_binding d r b \<longleftrightarrow>
     pb_cursor b = ib_cursor r \<and>
     list_ex (\<lambda>a. binding_matches b a \<and> ancestor_fixed a) (note_ancestry d r) \<and>
     ancestor_quiet d (pb_cursor b) (pb_ancestor b)"

definition plan_bindings :: "client_db \<Rightarrow> uuid \<Rightarrow> binding_row list" where
  "plan_bindings d p = filter (\<lambda>b. pb_plan b = p) (cd_bindings d)"

definition valid_nested_bindings :: "client_db \<Rightarrow> uuid \<Rightarrow> inbox_row \<Rightarrow> bool" where
  "valid_nested_bindings d p r \<longleftrightarrow>
     (let bs = filter (\<lambda>b. pb_cursor b = ib_cursor r) (plan_bindings d p) in
      bs \<noteq> [] \<and> ib_parent r \<noteq> None \<and> rooted_chain (note_ancestry d r) \<and>
      list_ex (\<lambda>b. pb_depth b = 1 \<and> Some (pb_ancestor b) = ib_parent r) bs \<and>
      length bs = length (note_ancestry d r) \<and> list_all (valid_parent_binding d r) bs)"

text \<open>What the guards ask of a linked plan: no binding for a root note, the whole chain for a nested one.\<close>

definition bindings_hold :: "client_db \<Rightarrow> uuid \<Rightarrow> inbox_row \<Rightarrow> bool" where
  "bindings_hold d p r \<longleftrightarrow>
     (if ib_parent r = None then plan_bindings d p = [] else valid_nested_bindings d p r)"

definition linkedInboxParentBindingValidTx :: "client_db \<Rightarrow> uuid \<Rightarrow> client_error + unit" where
  "linkedInboxParentBindingValidTx d p =
     (case link_cursor d p of
        None \<Rightarrow> Inl (Failed ''nested inbox ancestry binding is no longer valid'')
      | Some c \<Rightarrow>
          (case inbox_at d c of
             None \<Rightarrow> Inl (Failed ''nested inbox ancestry binding is no longer valid'')
           | Some r \<Rightarrow> if bindings_hold d p r then Inr () else Inl (Failed ''nested inbox ancestry binding is no longer valid'')))"

definition ActiveInboxParentBinding :: "ext \<Rightarrow> client_db \<Rightarrow> uuid \<Rightarrow> client_error + parent_binding option" where
  "ActiveInboxParentBinding x d p =
     (if \<not> validOperationID x p then Inl (Failed ''invalid apply plan id'')
      else case Option.bind (link_cursor d p) (inbox_at d) of
        None \<Rightarrow> Inr None
      | Some r \<Rightarrow>
          rbind (linkedInboxParentBindingValidTx d p) (\<lambda>_.
            case ib_parent r of
              None \<Rightarrow> Inr None
            | Some parent \<Rightarrow>
                (case find (\<lambda>b. pb_depth b = 1 \<and> valid_parent_binding d r b) (plan_bindings d p) of
                   None \<Rightarrow> Inl (Failed ''nested inbox immediate-parent binding is no longer valid'')
                 | Some b \<Rightarrow>
                     if pb_ancestor b = uuid_nil \<or> pb_ancestor b \<noteq> parent \<or>
                        ValidateRelativePath x (pb_relative b) \<noteq> Inr () \<or> pb_device b = 0 \<or> pb_inode b = 0
                     then Inl (Failed ''invalid nested inbox immediate-parent binding'')
                     else Inr (Some \<lparr>ipb_parent = pb_ancestor b, ipb_relative = pb_relative b,
                         ipb_device = pb_device b, ipb_inode = pb_inode b\<rparr>))))"

end
