(* ===== verification/Client_Frontier.thy ===== *)
theory Client_Frontier
  imports Client_Inbox
begin

text \<open>
  The second half of \<open>client/internal/clientsync/inbox.go\<close>: the states of inbox rows and of linked plans, with
  the triggers that guard them, and the movement of the confirmed frontier.
\<close>

section \<open>The triggers on linked rows\<close>

definition active_plan :: "plan_row \<Rightarrow> bool" where
  "active_plan p \<longleftrightarrow> ap_status p = PlanPrepared \<or> ap_status p = PlanApplying"

definition link_of :: "client_db \<Rightarrow> nat \<Rightarrow> uuid option" where
  "link_of d cursor = map_option fst (find (\<lambda>(_, c). c = cursor) (cd_links d))"

definition first_step_applied :: "client_db \<Rightarrow> uuid \<Rightarrow> bool option" where
  "first_step_applied d p = map_option st_applied (step_at d p 0)"

definition baseline_is :: "client_db \<Rightarrow> inbox_row \<Rightarrow> bool" where
  "baseline_is d r =
     (case baseline_at d (ib_object r) of
        None \<Rightarrow> False | Some b \<Rightarrow> bl_revision b = ib_revision r \<and> bl_operation b = Some (ib_operation r))"

text \<open>The guard on the state of an inbox row that belongs to a plan.\<close>

definition inbox_guard :: "client_db \<Rightarrow> inbox_row \<Rightarrow> inbox_state \<Rightarrow> bool" where
  "inbox_guard d r to =
     (case link_of d (ib_cursor r) of
        None \<Rightarrow> True
      | Some p \<Rightarrow>
          (case plan_at d p of
             None \<Rightarrow> False
           | Some plan \<Rightarrow>
               ib_state r = InboxPending \<and> to = InboxApplying \<and> ap_status plan = PlanPrepared \<and>
                 first_step_applied d p = Some False \<or>
               ib_state r = InboxApplying \<and> to = InboxApplied \<and> ap_status plan = PlanApplying \<and>
                 first_step_applied d p = Some True \<and> baseline_is d r))"

definition plan_untouched :: "client_db \<Rightarrow> uuid \<Rightarrow> bool" where
  "plan_untouched d p \<longleftrightarrow>
     \<not> list_ex (\<lambda>f. fp_plan f = p) (cd_publications d) \<and> \<not> list_ex (\<lambda>m. fm_plan m = p) (cd_folder_mutations d)"

text \<open>The guard on the status of a linked plan, as migration 039 leaves it.\<close>

definition plan_guard :: "client_db \<Rightarrow> plan_row \<Rightarrow> plan_status \<Rightarrow> bool" where
  "plan_guard d plan to =
     (case link_cursor d (ap_id plan) of
        None \<Rightarrow> True
      | Some c \<Rightarrow>
          (case (inbox_at d c, first_step_applied d (ap_id plan)) of
             (Some r, Some applied) \<Rightarrow>
               ap_status plan = PlanPrepared \<and> to = PlanApplying \<and> ib_state r = InboxApplying \<and> \<not> applied \<and>
                 bindings_hold d (ap_id plan) r \<or>
               ap_status plan = PlanPrepared \<and> to = PlanFailed \<and> ib_state r = InboxPending \<and> \<not> applied \<and>
                 plan_untouched d (ap_id plan) \<or>
               ap_status plan = PlanFailed \<and> to = PlanPrepared \<and> ib_state r = InboxPending \<and> \<not> applied \<and>
                 plan_untouched d (ap_id plan) \<and> independent_candidate d r \<and> bindings_hold d (ap_id plan) r \<or>
               ap_status plan = PlanApplying \<and> to = PlanCompleted \<and> ib_state r = InboxApplied \<and> applied \<and>
                 baseline_is d r \<and> bindings_hold d (ap_id plan) r
           | _ \<Rightarrow> False))"

definition step_guard :: "client_db \<Rightarrow> uuid \<Rightarrow> bool" where
  "step_guard d p =
     (case link_cursor d p of
        None \<Rightarrow> True
      | Some c \<Rightarrow>
          (case (plan_at d p, inbox_at d c) of
             (Some plan, Some r) \<Rightarrow> ap_status plan = PlanApplying \<and> ib_state r = InboxApplying
           | _ \<Rightarrow> False))"

section \<open>Statements on states\<close>

definition begin_row :: "int \<Rightarrow> inbox_row \<Rightarrow> inbox_row" where
  "begin_row now r = r\<lparr>ib_state := InboxApplying, ib_applying := Some (max now (ib_ingested r))\<rparr>"

definition finish_row :: "int \<Rightarrow> inbox_row \<Rightarrow> inbox_row" where
  "finish_row now r = r\<lparr>ib_state := InboxApplied, ib_applied := Some (max now (the (ib_applying r)))\<rparr>"

text \<open>\<open>UPDATE sync_inbox_changes SET state = ... WHERE P\<close> under the guard; it also gives the number of rows.\<close>

definition move_inbox ::
  "(inbox_row \<Rightarrow> bool) \<Rightarrow> inbox_state \<Rightarrow> (inbox_row \<Rightarrow> inbox_row) \<Rightarrow> client_db \<Rightarrow> client_error + nat \<times> client_db" where
  "move_inbox P to f d =
     (if list_ex (\<lambda>r. P r \<and> \<not> inbox_guard d r to) (cd_inbox d) then Inl Refused
      else Inr (rows_affected P (cd_inbox d), d\<lparr>cd_inbox := update_rows P f (cd_inbox d)\<rparr>))"

text \<open>\<open>UPDATE apply_plans SET status = ... WHERE plan_id = p AND status = ...\<close>, and \<open>f\<close> for the time of completion.\<close>

definition set_plan_status ::
  "uuid \<Rightarrow> plan_status \<Rightarrow> plan_status \<Rightarrow> (plan_row \<Rightarrow> plan_row) \<Rightarrow> client_error \<Rightarrow> client_db \<Rightarrow> client_error + client_db" where
  "set_plan_status p from to f e d =
     (let P = (\<lambda>q. ap_id q = p \<and> ap_status q = from) in
      if list_ex (\<lambda>q. P q \<and> \<not> plan_guard d q to) (cd_plans d) then Inl Refused
      else if rows_affected P (cd_plans d) \<noteq> 1 then Inl e
      else Inr (d\<lparr>cd_plans := update_rows P (\<lambda>q. (f q)\<lparr>ap_status := to\<rparr>) (cd_plans d)\<rparr>))"

definition unlinked :: "client_db \<Rightarrow> nat \<Rightarrow> bool" where
  "unlinked d cursor \<longleftrightarrow> link_of d cursor = None"

definition expect_one :: "client_error \<Rightarrow> client_error + nat \<times> client_db \<Rightarrow> client_error + client_db" where
  "expect_one e m = rbind m (\<lambda>(n, d). if n \<noteq> 1 then Inl e else Inr d)"

definition transitionInbox :: "int \<Rightarrow> nat \<Rightarrow> bool \<Rightarrow> client_db \<Rightarrow> client_error option \<times> client_db" where
  "transitionInbox now cursor finish d =
     (if \<not> cursor_valid cursor then (Some (Failed ''invalid inbox cursor''), d)
      else WithTransaction (\<lambda>d. expect_one (Failed ''inbox state transition rejected'')
        (if finish
         then move_inbox (\<lambda>r. ib_cursor r = cursor \<and> ib_state r = InboxApplying \<and> unlinked d cursor) InboxApplied (finish_row now) d
         else move_inbox (\<lambda>r. ib_cursor r = cursor \<and> ib_state r = InboxPending \<and> unlinked d cursor) InboxApplying (begin_row now) d)) d)"

definition MarkInboxApplying :: "int \<Rightarrow> nat \<Rightarrow> client_db \<Rightarrow> client_error option \<times> client_db" where
  "MarkInboxApplying now cursor = transitionInbox now cursor False"

definition MarkInboxApplied :: "int \<Rightarrow> nat \<Rightarrow> client_db \<Rightarrow> client_error option \<times> client_db" where
  "MarkInboxApplied now cursor = transitionInbox now cursor True"

section \<open>A plan ahead of its turn\<close>

definition binding_of :: "uuid \<Rightarrow> nat \<Rightarrow> ancestor \<Rightarrow> binding_row" where
  "binding_of p cursor a =
     \<lparr>pb_plan = p, pb_cursor = cursor, pb_depth = an_depth a, pb_ancestor = lo_id (an_row a),
      pb_parent = lo_parent (an_row a), pb_relative = lo_relative (an_row a), pb_device = the (lo_device (an_row a)),
      pb_inode = the (lo_inode (an_row a)), pb_revision = bl_revision (the (an_baseline a)),
      pb_operation = the (bl_operation (the (an_baseline a)))\<rparr>"

definition insert_plan :: "uuid \<Rightarrow> nat \<Rightarrow> nat \<Rightarrow> int \<Rightarrow> client_db \<Rightarrow> client_error + client_db" where
  "insert_plan p from through now d =
     (if plan_at d p \<noteq> None \<or> list_ex active_plan (cd_plans d) then Inl Refused
      else Inr (d\<lparr>cd_plans := cd_plans d @ [\<lparr>ap_id = p, ap_from = from, ap_through = through, ap_status = PlanPrepared,
          ap_created = now, ap_completed = None\<rparr>]\<rparr>))"

definition bind_ancestry :: "uuid \<Rightarrow> inbox_row \<Rightarrow> client_db \<Rightarrow> client_error + client_db" where
  "bind_ancestry p r d =
     (if ib_parent r = None then Inr d
      else let as = note_ancestry d r in
        if plan_bindings d p \<noteq> [] \<or> \<not> list_all ancestor_fixed as then Inl Refused
        else if as = [] then Inl (Failed ''nested inbox ancestry binding unavailable'')
        else Inr (d\<lparr>cd_bindings := cd_bindings d @ map (binding_of p (ib_cursor r)) as\<rparr>))"

definition step_of_row :: "uuid \<Rightarrow> inbox_row \<Rightarrow> step_row" where
  "step_of_row p r =
     \<lparr>st_plan = p, st_index = 0, st_cursor = ib_cursor r, st_operation = ib_operation r, st_object = ib_object r,
      st_mutation = ib_mutation r, st_type = ib_type r, st_revision = ib_revision r, st_parent = ib_parent r,
      st_name = ib_name r, st_blob = ib_blob r, st_applied = False\<rparr>"

definition insert_step :: "step_row \<Rightarrow> client_db \<Rightarrow> client_error + client_db" where
  "insert_step s d =
     (if step_at d (st_plan s) (st_index s) \<noteq> None \<or> plan_at d (st_plan s) = None \<or> link_cursor d (st_plan s) \<noteq> None
      then Inl Refused
      else Inr (d\<lparr>cd_steps := cd_steps d @ [s]\<rparr>))"

text \<open>The link of a plan to its row: one pending step with the payload of the row, on the only active plan.\<close>

definition insert_link :: "uuid \<Rightarrow> inbox_row \<Rightarrow> client_db \<Rightarrow> client_error + client_db" where
  "insert_link p r d =
     (if link_cursor d p = None \<and> unlinked d (ib_cursor r) \<and>
         (case plan_at d p of
            None \<Rightarrow> False
          | Some plan \<Rightarrow> ap_status plan = PlanPrepared \<and> Suc (ap_from plan) = ib_cursor r \<and> ap_through plan = ib_cursor r) \<and>
         plan_steps d p = [step_of_row p r] \<and> independent_candidate d r \<and> bindings_hold d p r \<and>
         rows_affected active_plan (cd_plans d) = 1
      then Inr (d\<lparr>cd_links := cd_links d @ [(p, ib_cursor r)]\<rparr>) else Inl Refused)"

definition create_inbox_plan :: "ext \<Rightarrow> int \<Rightarrow> nat \<Rightarrow> uuid \<Rightarrow> client_db \<Rightarrow> client_error + client_db" where
  "create_inbox_plan x now cursor p d =
     rbind (scan_option x (find (\<lambda>r. ib_cursor r = cursor \<and> independent_candidate d r) (cd_inbox d))) (\<lambda>item.
       case item of
         None \<Rightarrow> Inl (Failed ''inbox change is not eligible for independent apply'')
       | Some r \<Rightarrow>
           if list_ex active_plan (cd_plans d) then Inl (Failed ''another apply plan is active'')
           else rbind (insert_plan p (cursor - 1) cursor now d) (\<lambda>d.
                rbind (bind_ancestry p r d) (\<lambda>d.
                rbind (insert_step (step_of_row p r) d) (insert_link p r))))"

definition CreateInboxApplyPlan :: "ext \<Rightarrow> int \<Rightarrow> nat \<Rightarrow> uuid \<Rightarrow> client_db \<Rightarrow> client_error option \<times> client_db" where
  "CreateInboxApplyPlan x now cursor p d =
     (if \<not> cursor_valid cursor \<or> \<not> validOperationID x p then (Some (Failed ''invalid inbox apply plan''), d)
      else WithTransaction (create_inbox_plan x now cursor p) d)"

text \<open>A linked plan nothing has been done for.\<close>

definition pristine :: "client_db \<Rightarrow> uuid \<Rightarrow> plan_status \<Rightarrow> bool" where
  "pristine d p status =
     (case (Option.bind (link_cursor d p) (inbox_at d), plan_at d p) of
        (Some r, Some plan) \<Rightarrow>
          ap_status plan = status \<and> first_step_applied d p = Some False \<and> ib_state r = InboxPending \<and> plan_untouched d p
      | _ \<Rightarrow> False)"

definition abandon_plan :: "int \<Rightarrow> uuid \<Rightarrow> client_db \<Rightarrow> client_error + client_db" where
  "abandon_plan now p d =
     (if \<not> (pristine d p PlanPrepared \<and> length (plan_steps d p) = 1)
      then Inl (Failed ''inbox apply plan is not pristine and prepared'')
      else set_plan_status p PlanPrepared PlanFailed (ap_completed_update (\<lambda>_. Some now)) (Failed ''inbox apply plan abandonment race'') d)"

definition AbandonPreparedInboxPlan :: "ext \<Rightarrow> int \<Rightarrow> uuid \<Rightarrow> client_db \<Rightarrow> client_error option \<times> client_db" where
  "AbandonPreparedInboxPlan x now p d =
     (if \<not> validOperationID x p then (Some (Failed ''invalid apply plan id''), d)
      else WithTransaction (abandon_plan now p) d)"

definition retryable :: "client_db \<Rightarrow> uuid \<Rightarrow> bool" where
  "retryable d p \<longleftrightarrow>
     pristine d p PlanFailed \<and>
     (case Option.bind (link_cursor d p) (inbox_at d) of
        None \<Rightarrow> False
      | Some r \<Rightarrow>
          (case baseline_at d (ib_object r) of None \<Rightarrow> False | Some b \<Rightarrow> bl_revision b + 1 = ib_revision r) \<and>
          \<not> earlier_unapplied d (ib_object r) (ib_cursor r) \<and> \<not> unresolved_intent d (ib_object r)) \<and>
     \<not> list_ex (\<lambda>q. ap_id q \<noteq> p \<and> active_plan q) (cd_plans d)"

definition retry_plan :: "uuid \<Rightarrow> client_db \<Rightarrow> client_error + client_db" where
  "retry_plan p d =
     (if \<not> retryable d p then Inl (Failed ''abandoned inbox apply plan is not retryable'')
      else set_plan_status p PlanFailed PlanPrepared (ap_completed_update (\<lambda>_. None)) (Failed ''abandoned inbox apply plan is not retryable'') d)"

definition RetryAbandonedInboxPlan :: "ext \<Rightarrow> uuid \<Rightarrow> client_db \<Rightarrow> client_error option \<times> client_db" where
  "RetryAbandonedInboxPlan x p d =
     (if \<not> validOperationID x p then (Some (Failed ''invalid apply plan id''), d) else WithTransaction (retry_plan p) d)"

section \<open>The confirmed frontier\<close>

text \<open>The loop over the rows past the frontier: it stops at a gap or at a row that is not applied.\<close>

fun advance_rows :: "ext \<Rightarrow> nat \<Rightarrow> inbox_row list \<Rightarrow> client_error + nat" where
  "advance_rows x frontier [] = Inr frontier"
| "advance_rows x frontier (r # rs) =
     rbind (scanInboxItem x r) (\<lambda>r.
       if frontier = MaxInt64 \<or> ib_cursor r \<noteq> frontier + 1 \<or> ib_state r \<noteq> InboxApplied then Inr frontier
       else advance_rows x (ib_cursor r) rs)"

definition inbox_between :: "client_db \<Rightarrow> nat \<Rightarrow> nat \<Rightarrow> inbox_row list" where
  "inbox_between d a b = sort_key ib_cursor (filter (\<lambda>r. a < ib_cursor r \<and> ib_cursor r \<le> b) (cd_inbox d))"

definition advanceConfirmedInboxCursorTx :: "ext \<Rightarrow> client_db \<Rightarrow> client_error + nat \<times> client_db" where
  "advanceConfirmedInboxCursorTx x d =
     rbind (read_confirmed d) (\<lambda>confirmed.
     rbind (read_downloaded d) (\<lambda>downloaded.
       if downloaded < confirmed then Inl (Failed ''downloaded cursor is behind confirmed cursor'')
       else rbind (advance_rows x confirmed (inbox_between d confirmed downloaded)) (\<lambda>frontier.
         Inr (frontier, if frontier = confirmed then d else set_confirmed frontier d))))"

definition AdvanceConfirmedInboxCursor :: "ext \<Rightarrow> client_db \<Rightarrow> (client_error + nat) \<times> client_db" where
  "AdvanceConfirmedInboxCursor x d =
     (case advanceConfirmedInboxCursorTx x d of Inl e \<Rightarrow> (Inl e, d) | Inr (n, d') \<Rightarrow> (Inr n, d'))"

text \<open>The rows up to the confirmed cursor must be complete from the first one stored.\<close>

fun check_range :: "ext \<Rightarrow> nat \<Rightarrow> inbox_row list \<Rightarrow> client_error + nat" where
  "check_range x expected [] = Inr expected"
| "check_range x expected (r # rs) =
     rbind (scanInboxItem x r) (\<lambda>r.
       if ib_cursor r \<noteq> expected then Inl (Failed ''confirmed inbox range is incomplete'')
       else check_range x (expected + 1) rs)"

definition confirm_rows :: "int \<Rightarrow> nat \<Rightarrow> client_db \<Rightarrow> client_error + client_db" where
  "confirm_rows now confirmed d =
     rbind (move_inbox (\<lambda>r. ib_cursor r \<le> confirmed \<and> ib_state r = InboxPending) InboxApplying (begin_row now) d) (\<lambda>(_, d).
     rbind (move_inbox (\<lambda>r. ib_cursor r \<le> confirmed \<and> ib_state r = InboxApplying) InboxApplied (finish_row now) d) (\<lambda>(_, d).
       Inr d))"

definition reconcile_inbox :: "ext \<Rightarrow> int \<Rightarrow> client_db \<Rightarrow> client_error + client_db" where
  "reconcile_inbox x now d =
     rbind (read_confirmed d) (\<lambda>confirmed.
     rbind (read_downloaded d) (\<lambda>downloaded.
       if cd_inbox d = []
       then (if downloaded > confirmed then Inl (Failed ''downloaded inbox range is missing'')
             else if downloaded < confirmed then Inr (set_downloaded confirmed d) else Inr d)
       else let first = Min (set (map ib_cursor (cd_inbox d))); last = Max (set (map ib_cursor (cd_inbox d))) in
         if downloaded < confirmed then Inl (Failed ''downloaded cursor is behind confirmed cursor'')
         else if last \<noteq> downloaded \<or> length (cd_inbox d) \<noteq> last - first + 1
         then Inl (Failed ''downloaded inbox range is incomplete'')
         else rbind (check_range x first (sort_key ib_cursor (filter (\<lambda>r. ib_cursor r \<le> confirmed) (cd_inbox d)))) (\<lambda>expected.
           if first \<le> confirmed \<and> expected \<noteq> confirmed + 1 then Inl (Failed ''confirmed inbox range is incomplete'')
           else confirm_rows now confirmed d)))"

definition ReconcileInboxAppliedThroughConfirmed :: "ext \<Rightarrow> int \<Rightarrow> client_db \<Rightarrow> client_error option \<times> client_db" where
  "ReconcileInboxAppliedThroughConfirmed x now = WithTransaction (reconcile_inbox x now)"

definition HasEarlierPendingInboxForObject :: "ext \<Rightarrow> client_db \<Rightarrow> uuid \<Rightarrow> nat \<Rightarrow> client_error + bool" where
  "HasEarlierPendingInboxForObject x d i cursor =
     (if \<not> validObjectID x i \<or> \<not> cursor_valid cursor then Inl (Failed ''invalid inbox object lookup'')
      else Inr (earlier_unapplied d i cursor))"

section \<open>Completing a linked plan\<close>

text \<open>The baseline moves from its predecessor, the row and the plan are finished, and the frontier moves on.\<close>

definition completeInboxApplyPlanTx :: "ext \<Rightarrow> int \<Rightarrow> uuid \<Rightarrow> nat \<Rightarrow> client_db \<Rightarrow> client_error + client_db" where
  "completeInboxApplyPlanTx x now p cursor d =
     (case (plan_at d p, step_at d p 0, inbox_at d cursor) of
        (Some plan, Some s, Some r) \<Rightarrow>
          if ap_status plan \<noteq> PlanApplying \<or> \<not> st_applied s \<or> ib_state r \<noteq> InboxApplying \<or>
             length (plan_steps d p) \<noteq> 1 \<or> st_cursor s \<noteq> cursor \<or> st_revision s < 2
          then Inl (Failed ''linked inbox apply plan is not completable'')
          else rbind (linkedInboxParentBindingValidTx d p) (\<lambda>_.
            let P = (\<lambda>b. bl_object b = st_object s \<and> bl_revision b + 1 = st_revision s) in
            if rows_affected P (cd_baselines d) \<noteq> 1 then Inl (Failed ''linked inbox baseline predecessor changed'')
            else let d = d\<lparr>cd_baselines := update_rows P (\<lambda>b. b\<lparr>bl_revision := st_revision s,
                bl_operation := Some (st_operation s)\<rparr>) (cd_baselines d)\<rparr> in
              rbind (expect_one (Failed ''linked inbox completion race'')
                (move_inbox (\<lambda>r. ib_cursor r = cursor \<and> ib_state r = InboxApplying) InboxApplied (finish_row now) d)) (\<lambda>d.
              rbind (set_plan_status p PlanApplying PlanCompleted (ap_completed_update (\<lambda>_. Some now)) (Failed ''linked apply plan completion race'') d) (\<lambda>d.
              rbind (advanceConfirmedInboxCursorTx x d) (\<lambda>(_, d). Inr d))))
      | _ \<Rightarrow> Inl NoRows)"

end
