(* ===== verification/Client_Apply.thy ===== *)
theory Client_Apply
  imports Client_Frontier
begin

text \<open>
  Apply plans, the second half of \<open>client/internal/clientsync/store.go\<close> with \<open>integrity.go\<close> and
  \<open>folder_intents.go\<close>: a page of changes is written down as a plan, begun, carried out step by step (the
  steps that touch folders with the identity of the folder bound first), and completed, which raises the
  baselines and the confirmed cursor.
\<close>

section \<open>Creating a plan\<close>

record apply_plan =
  pl_id :: uuid
  pl_from :: nat
  pl_through :: nat
  pl_steps :: "client_change list"

definition step_change_valid :: "ext \<Rightarrow> nat \<Rightarrow> nat \<Rightarrow> client_change \<Rightarrow> bool" where
  "step_change_valid x previous through c \<longleftrightarrow>
     previous \<noteq> MaxInt64 \<and> ch_cursor c = previous + 1 \<and> ch_cursor c \<le> through \<and>
     validOperationID x (ch_operation c) \<and> validObjectID x (ch_object c) \<and> known_object_type (ch_type c) \<and>
     known_mutation (ch_mutation c) \<and> ch_revision c \<noteq> 0 \<and> ch_revision c \<le> MaxInt64 \<and>
     (ch_mutation c = MutationCreate \<longrightarrow> ch_revision c = 1) \<and> (ch_mutation c \<noteq> MutationCreate \<longrightarrow> 2 \<le> ch_revision c) \<and>
     (case ch_parent c of None \<Rightarrow> True | Some p \<Rightarrow> validObjectID x p) \<and> ch_name c \<noteq> [] \<and> valid_component x (ch_name c) \<and>
     (ch_type c = ObjectNote \<longrightarrow> blob_length (ch_blob c) = 32) \<and> (ch_type c = ObjectFolder \<longrightarrow> blob_length (ch_blob c) = 0) \<and>
     ch_deleted c = (ch_mutation c = MutationDelete)"

definition step_row_of :: "uuid \<Rightarrow> nat \<Rightarrow> bool \<Rightarrow> client_change \<Rightarrow> step_row" where
  "step_row_of p n applied c =
     \<lparr>st_plan = p, st_index = n, st_cursor = ch_cursor c, st_operation = ch_operation c, st_object = ch_object c,
      st_mutation = ch_mutation c, st_type = ch_type c, st_revision = ch_revision c, st_parent = ch_parent c,
      st_name = ch_name c, st_blob = nullableBytes (clone_bytes (ch_blob c)), st_applied = applied\<rparr>"

definition baseline_revision :: "client_db \<Rightarrow> uuid \<Rightarrow> nat" where
  "baseline_revision d i = (case baseline_at d i of None \<Rightarrow> 0 | Some b \<Rightarrow> bl_revision b)"

text \<open>
  The loop over the steps, with the previous cursor and the revisions projected so far: a revision the
  client has is a step already applied, and every other one must be the next.
\<close>

fun plan_loop ::
  "ext \<Rightarrow> uuid \<Rightarrow> nat \<Rightarrow> nat \<Rightarrow> nat \<Rightarrow> (uuid \<rightharpoonup> nat) \<Rightarrow> client_change list \<Rightarrow> client_db \<Rightarrow> client_error + nat \<times> client_db" where
  "plan_loop x p through n previous projected [] d = Inr (previous, d)"
| "plan_loop x p through n previous projected (c # cs) d =
     (if \<not> step_change_valid x previous through c then Inl (Failed ''invalid apply step'')
      else let current = (case projected (ch_object c) of None \<Rightarrow> baseline_revision d (ch_object c) | Some r \<Rightarrow> r) in
        if ch_revision c \<le> current
        then rbind (insert_step (step_row_of p n True c) d)
               (plan_loop x p through (Suc n) (ch_cursor c) (projected(ch_object c \<mapsto> current)) cs)
        else if current = MaxInt64 \<or> ch_revision c \<noteq> current + 1
        then Inl (Failed ''apply step revision is not contiguous'')
        else rbind (insert_step (step_row_of p n False c) d)
               (plan_loop x p through (Suc n) (ch_cursor c) (projected(ch_object c \<mapsto> ch_revision c)) cs))"

definition create_plan :: "ext \<Rightarrow> int \<Rightarrow> apply_plan \<Rightarrow> client_db \<Rightarrow> client_error + client_db" where
  "create_plan x now plan d =
     rbind (confirmed_tx d) (\<lambda>confirmed.
       if confirmed \<noteq> pl_from plan then Inl (Failed ''apply plan does not start at confirmed cursor'')
       else rbind (insert_plan (pl_id plan) (pl_from plan) (pl_through plan) now d) (\<lambda>d.
            rbind (plan_loop x (pl_id plan) (pl_through plan) 0 (pl_from plan) Map.empty (pl_steps plan) d) (\<lambda>(last, d).
              if pl_steps plan = [] \<or> last \<noteq> pl_through plan then Inl (Failed ''apply steps do not cover plan cursor'')
              else Inr d)))"

definition CreateApplyPlan :: "ext \<Rightarrow> int \<Rightarrow> apply_plan \<Rightarrow> client_db \<Rightarrow> client_error option \<times> client_db" where
  "CreateApplyPlan x now plan d =
     (if \<not> validOperationID x (pl_id plan) \<or> pl_through plan < pl_from plan \<or> pl_through plan > MaxInt64
      then (Some (Failed ''invalid apply plan''), d)
      else WithTransaction (create_plan x now plan) d)"

definition change_of_step :: "step_row \<Rightarrow> client_change" where
  "change_of_step s =
     \<lparr>ch_cursor = st_cursor s, ch_mutation = st_mutation s, ch_operation = st_operation s, ch_object = st_object s,
      ch_type = st_type s, ch_revision = st_revision s, ch_parent = st_parent s, ch_name = st_name s,
      ch_blob = st_blob s, ch_deleted = (st_mutation s = MutationDelete),
      ch_state = (if st_applied s then ''applied'' else ''pending'')\<rparr>"

definition ordered_steps :: "client_db \<Rightarrow> uuid \<Rightarrow> step_row list" where
  "ordered_steps d p = sort_key st_index (plan_steps d p)"

definition ActiveApplyPlan :: "client_db \<Rightarrow> (plan_status \<times> apply_plan) option" where
  "ActiveApplyPlan d =
     map_option (\<lambda>q. (ap_status q, \<lparr>pl_id = ap_id q, pl_from = ap_from q, pl_through = ap_through q,
       pl_steps = map change_of_step (ordered_steps d (ap_id q))\<rparr>)) (find active_plan (cd_plans d))"

section \<open>Beginning a plan\<close>

definition begin_linked :: "int \<Rightarrow> uuid \<Rightarrow> nat \<Rightarrow> client_db \<Rightarrow> client_error + client_db" where
  "begin_linked now p cursor d =
     (case (plan_at d p, inbox_at d cursor) of
        (Some plan, Some r) \<Rightarrow>
          if ap_status plan = PlanApplying \<and> ib_state r = InboxApplying
          then rbind (linkedInboxParentBindingValidTx d p) (\<lambda>_. Inr d)
          else if ap_status plan = PlanPrepared \<and> ib_state r = InboxApplying
          then rbind (linkedInboxParentBindingValidTx d p) (\<lambda>_.
               set_plan_status p PlanPrepared PlanApplying id (Failed ''linked apply plan begin recovery race'') d)
          else if ap_status plan \<noteq> PlanPrepared \<or> ib_state r \<noteq> InboxPending
          then Inl (Failed ''linked inbox apply plan is not prepared'')
          else rbind (expect_one (Failed ''linked inbox begin race'')
              (move_inbox (\<lambda>r. ib_cursor r = cursor \<and> ib_state r = InboxPending) InboxApplying (begin_row now) d)) (\<lambda>d.
            set_plan_status p PlanPrepared PlanApplying id (Failed ''linked apply plan begin race'') d)
      | _ \<Rightarrow> Inl NoRows)"

definition begin_plan :: "int \<Rightarrow> uuid \<Rightarrow> client_db \<Rightarrow> client_error + client_db" where
  "begin_plan now p d =
     (case link_cursor d p of
        Some cursor \<Rightarrow> begin_linked now p cursor d
      | None \<Rightarrow>
          (case plan_at d p of
             None \<Rightarrow> Inl NoRows
           | Some plan \<Rightarrow>
               if ap_status plan = PlanPrepared then set_plan_status p PlanPrepared PlanApplying id Refused d
               else if ap_status plan \<noteq> PlanApplying then Inl (Failed ''apply plan is not active'')
               else Inr d))"

definition BeginApplyPlan :: "ext \<Rightarrow> int \<Rightarrow> uuid \<Rightarrow> client_db \<Rightarrow> client_error option \<times> client_db" where
  "BeginApplyPlan x now p d =
     (if \<not> validOperationID x p then (Some (Failed ''invalid apply plan id''), d) else WithTransaction (begin_plan now p) d)"

section \<open>Steps\<close>

definition plan_is :: "client_db \<Rightarrow> uuid \<Rightarrow> plan_status \<Rightarrow> bool" where
  "plan_is d p status \<longleftrightarrow> list_ex (\<lambda>q. ap_id q = p \<and> ap_status q = status) (cd_plans d)"

text \<open>\<open>UPDATE apply_steps SET state = 'applied' WHERE P\<close> under the guard of linked plans.\<close>

definition apply_step_rows :: "(step_row \<Rightarrow> bool) \<Rightarrow> client_db \<Rightarrow> client_error + nat \<times> client_db" where
  "apply_step_rows P d =
     (if list_ex (\<lambda>s. P s \<and> \<not> (link_cursor d (st_plan s) = None \<or> \<not> st_applied s \<and> step_guard d (st_plan s))) (cd_steps d)
      then Inl Refused
      else Inr (rows_affected P (cd_steps d),
        d\<lparr>cd_steps := update_rows P (\<lambda>s. s\<lparr>st_applied := True\<rparr>) (cd_steps d)\<rparr>))"

definition mark_applied :: "uuid \<Rightarrow> nat \<Rightarrow> client_db \<Rightarrow> client_error + client_db" where
  "mark_applied p n d =
     (if list_ex (\<lambda>f. fp_plan f = p \<and> fp_step f = n) (cd_publications d)
      then Inl (Failed ''folder step requires atomic cleanup authorization'')
      else rbind (apply_step_rows (\<lambda>s. stkey s = (p, n) \<and> \<not> st_applied s \<and> plan_is d p PlanApplying) d) (\<lambda>(count, d').
        if count = 1 then Inr d'
        else case step_at d' p n of
          None \<Rightarrow> Inl NoRows
        | Some s \<Rightarrow>
            if \<not> plan_is d' p PlanApplying then Inl NoRows
            else if \<not> st_applied s then Inl (Failed ''apply step is not active'') else Inr d'))"

definition MarkApplyStepApplied :: "ext \<Rightarrow> uuid \<Rightarrow> int \<Rightarrow> client_db \<Rightarrow> client_error option \<times> client_db" where
  "MarkApplyStepApplied x p n d =
     (if \<not> validOperationID x p \<or> n < 0 then (Some (Failed ''invalid apply step''), d)
      else WithTransaction (mark_applied p (nat n)) d)"

definition mark_folder_applied :: "uuid \<Rightarrow> nat \<Rightarrow> client_db \<Rightarrow> client_error + client_db" where
  "mark_folder_applied p n d =
     (case step_at d p n of
        None \<Rightarrow> Inl NoRows
      | Some s \<Rightarrow>
          rbind (if st_applied s then Inr d
                 else expect_one (Failed ''folder apply plan is not active'')
                   (apply_step_rows (\<lambda>s. stkey s = (p, n) \<and> plan_is d p PlanApplying) d)) (\<lambda>d.
            let P = (\<lambda>f. fp_plan f = p \<and> fp_step f = n) in
            if rows_affected P (cd_publications d) \<noteq> 1 then Inl (Failed ''folder publication missing'')
            else Inr (d\<lparr>cd_publications := update_rows P (\<lambda>f. f\<lparr>fp_authorized := True\<rparr>) (cd_publications d)\<rparr>)))"

definition MarkFolderStepAppliedAndAuthorizeCleanup :: "ext \<Rightarrow> uuid \<Rightarrow> int \<Rightarrow> client_db \<Rightarrow> client_error option \<times> client_db" where
  "MarkFolderStepAppliedAndAuthorizeCleanup x p n d =
     (if \<not> validOperationID x p \<or> n < 0 then (Some (Failed ''invalid apply step''), d)
      else WithTransaction (mark_folder_applied p (nat n)) d)"

section \<open>Completing a plan\<close>

definition complete_unlinked :: "int \<Rightarrow> uuid \<Rightarrow> client_db \<Rightarrow> client_error + client_db" where
  "complete_unlinked now p d =
     (case plan_at d p of
        None \<Rightarrow> Inl NoRows
      | Some plan \<Rightarrow>
          if ap_status plan \<noteq> PlanApplying then Inl NoRows
          else if list_ex (\<lambda>s. \<not> st_applied s) (plan_steps d p) then Inl (Failed ''apply plan has pending steps'')
          else rbind (confirmed_tx d) (\<lambda>current.
            if current \<noteq> ap_from plan then Inl (Failed ''confirmed cursor changed during apply'')
            else let d = fold (\<lambda>s. raise_baseline (st_object s) (st_revision s) (st_operation s)) (ordered_steps d p) d in
              set_plan_status p PlanApplying PlanCompleted (ap_completed_update (\<lambda>_. Some now))
                (Failed ''apply plan completion race'') (set_confirmed (ap_through plan) d)))"

definition complete_plan :: "ext \<Rightarrow> int \<Rightarrow> uuid \<Rightarrow> client_db \<Rightarrow> client_error + client_db" where
  "complete_plan x now p d =
     (case link_cursor d p of
        Some cursor \<Rightarrow> completeInboxApplyPlanTx x now p cursor d
      | None \<Rightarrow> complete_unlinked now p d)"

definition CompleteApplyPlan :: "ext \<Rightarrow> int \<Rightarrow> uuid \<Rightarrow> client_db \<Rightarrow> client_error option \<times> client_db" where
  "CompleteApplyPlan x now p d =
     (if \<not> validOperationID x p then (Some (Failed ''invalid apply plan id''), d) else WithTransaction (complete_plan x now p) d)"

end
