(* ===== verification/Client_Folders.thy ===== *)
theory Client_Folders
  imports Client_Apply
begin

text \<open>
  The durable bindings of folder steps in \<open>client/internal/clientsync/store.go\<close>: the folder a move or delete
  acts on, the publication of a new folder from its staging place, and their cleanup; with the intents of
  \<open>folder_intents.go\<close>, the integrity incidents of \<open>integrity.go\<close> and the conflict names of \<open>reserved.go\<close>.
\<close>

section \<open>Folder mutations\<close>

record folder_mutation =
  fo_plan :: uuid
  fo_step :: int
  fo_folder :: uuid
  fo_mutation :: mutation_kind
  fo_source :: string
  fo_target :: string
  fo_device :: nat
  fo_inode :: nat

definition folder_mutation_valid :: "ext \<Rightarrow> folder_mutation \<Rightarrow> bool" where
  "folder_mutation_valid x m \<longleftrightarrow>
     (fo_mutation m = MutationMove \<and> ValidateUserRelativePath x (fo_target m) = Inr () \<or>
      fo_mutation m = MutationDelete \<and> fo_target m \<noteq> []) \<and>
     validOperationID x (fo_plan m) \<and> 0 \<le> fo_step m \<and> validObjectID x (fo_folder m) \<and>
     ValidateUserRelativePath x (fo_source m) = Inr () \<and> fo_device m \<noteq> 0 \<and> fo_inode m \<noteq> 0 \<and>
     fo_device m \<le> MaxInt64 \<and> fo_inode m \<le> MaxInt64"

definition fmkey :: "folder_mutation_row \<Rightarrow> uuid \<times> nat" where
  "fmkey r = (fm_plan r, fm_step r)"

definition put_folder_mutation :: "folder_mutation \<Rightarrow> client_db \<Rightarrow> client_error + client_db" where
  "put_folder_mutation m d =
     (let n = nat (fo_step m) in
      case step_at d (fo_plan m) n of
        None \<Rightarrow> Inl (Failed ''folder mutation does not match apply step'')
      | Some s \<Rightarrow>
          if st_object s \<noteq> fo_folder m \<or> st_mutation s \<noteq> fo_mutation m \<or> st_type s \<noteq> ObjectFolder
          then Inl (Failed ''folder mutation does not match apply step'')
          else if row_at fmkey (cd_folder_mutations d) (fo_plan m, n) \<noteq> None then Inl Refused
          else Inr (d\<lparr>cd_folder_mutations := cd_folder_mutations d @ [\<lparr>fm_plan = fo_plan m, fm_step = n,
            fm_folder = fo_folder m, fm_kind = fo_mutation m, fm_source = fo_source m, fm_target = fo_target m,
            fm_device = fo_device m, fm_inode = fo_inode m\<rparr>]\<rparr>))"

definition PutFolderMutation :: "ext \<Rightarrow> folder_mutation \<Rightarrow> client_db \<Rightarrow> client_error option \<times> client_db" where
  "PutFolderMutation x m d =
     (if \<not> folder_mutation_valid x m then (Some (Failed ''invalid folder mutation binding''), d)
      else WithTransaction (put_folder_mutation m) d)"

definition FolderMutation :: "ext \<Rightarrow> client_db \<Rightarrow> uuid \<Rightarrow> int \<Rightarrow> client_error + folder_mutation option" where
  "FolderMutation x d p n =
     (if \<not> validOperationID x p \<or> n < 0 then Inl (Failed ''invalid folder mutation key'')
      else Inr (map_option (\<lambda>r. \<lparr>fo_plan = p, fo_step = n, fo_folder = fm_folder r, fo_mutation = fm_kind r,
          fo_source = fm_source r, fo_target = fm_target r, fo_device = fm_device r, fo_inode = fm_inode r\<rparr>)
        (row_at fmkey (cd_folder_mutations d) (p, nat n))))"

definition LatestFolderMutationTarget :: "ext \<Rightarrow> client_db \<Rightarrow> uuid \<Rightarrow> uuid \<Rightarrow> client_error + string \<times> bool" where
  "LatestFolderMutationTarget x d p folder =
     (if \<not> validOperationID x p \<or> \<not> validObjectID x folder then Inl (Failed ''invalid folder mutation lookup'')
      else let rows = sort_key fm_step (filter (\<lambda>r. fm_plan r = p \<and> fm_folder r = folder) (cd_folder_mutations d));
               target = (if rows = [] then [] else fm_target (last rows)) in
        Inr (target, target \<noteq> []))"

section \<open>Folder publications\<close>

record folder_publication =
  fu_plan :: uuid
  fu_step :: int
  fu_folder :: uuid
  fu_target :: string
  fu_stage :: string
  fu_nonce :: string
  fu_device :: nat
  fu_inode :: nat
  fu_authorized :: bool

text \<open>\<open>path.Base\<close> of a slash-separated path.\<close>

definition path_base :: "string \<Rightarrow> string" where
  "path_base s =
     (if s = [] then ''.''
      else let trimmed = rev (dropWhile (\<lambda>c. c = CHR ''/'') (rev s)) in
        if trimmed = [] then ''/'' else last (split_on (CHR ''/'') trimmed))"

definition recovered_prefix :: string where
  "recovered_prefix = ConflictRootName @ ''/'' @ ConflictRecoveredName @ ''/''"

definition recovered_target :: "ext \<Rightarrow> folder_publication \<Rightarrow> bool" where
  "recovered_target x f \<longleftrightarrow>
     \<not> isReservedConflictFolder (fu_folder f) \<and> fu_target f = recovered_prefix @ path_base (fu_target f) \<and>
     valid_component x (path_base (fu_target f))"

definition preserved_target :: "ext \<Rightarrow> folder_publication \<Rightarrow> bool" where
  "preserved_target x f \<longleftrightarrow>
     has_prefix (fu_target f) recovered_prefix \<and>
     list_all (valid_component x) (drop 2 (split_on (CHR ''/'') (fu_target f)))"

definition publication_target_valid :: "ext \<Rightarrow> folder_publication \<Rightarrow> bool" where
  "publication_target_valid x f \<longleftrightarrow>
     ValidateUserRelativePath x (fu_target f) = Inr () \<or>
     fu_folder f = ConflictRootID \<and> fu_target f = ConflictRootName \<or>
     fu_folder f = ConflictRecoveredID \<and> fu_target f = ConflictRootName @ ''/'' @ ConflictRecoveredName \<or>
     recovered_target x f \<or> preserved_target x f"

definition expected_stage :: "ext \<Rightarrow> uuid \<Rightarrow> nat \<Rightarrow> string" where
  "expected_stage x p n = ''.remember/apply/folders/'' @ x_uuid_string x p @ ''/'' @ decimal n"

definition publication_valid :: "ext \<Rightarrow> folder_publication \<Rightarrow> bool" where
  "publication_valid x f \<longleftrightarrow>
     validOperationID x (fu_plan f) \<and> 0 \<le> fu_step f \<and> validObjectID x (fu_folder f) \<and> publication_target_valid x f \<and>
     fu_stage f = expected_stage x (fu_plan f) (nat (fu_step f)) \<and> list_ex (\<lambda>c. c \<noteq> CHR 0x00) (fu_nonce f) \<and>
     fu_device f \<le> MaxInt64 \<and> fu_inode f \<le> MaxInt64"

text \<open>
  SQLite's \<open>LIKE\<close> with the pattern \<open>_Konflikte/Wiederhergestellt/%\<close>: the underscore stands for any one
  character, and ASCII letters are compared without case.
\<close>

definition like_recovered :: "string \<Rightarrow> bool" where
  "like_recovered s \<longleftrightarrow>
     s \<noteq> [] \<and> has_prefix (map ascii_lower (drop (snd (decode_rune s)) s)) (map ascii_lower (tl recovered_prefix))"

definition publication_preserved :: "client_db \<Rightarrow> step_row \<Rightarrow> bool" where
  "publication_preserved d s \<longleftrightarrow>
     (st_object s, st_cursor s) \<in> set (cd_preserved d) \<or>
     list_ex (\<lambda>q. st_plan q = st_plan s \<and> Some (st_object q) = st_parent s \<and> st_mutation q = MutationCreate \<and>
       st_type q = ObjectFolder \<and> st_cursor q < st_cursor s \<and>
       list_ex (\<lambda>f. fp_plan f = st_plan q \<and> fp_step f = st_index q \<and> like_recovered (fp_target f)) (cd_publications d))
       (cd_steps d)"

definition fpkey :: "publication_row \<Rightarrow> uuid \<times> nat" where
  "fpkey f = (fp_plan f, fp_step f)"

definition publication_at :: "client_db \<Rightarrow> uuid \<Rightarrow> nat \<Rightarrow> publication_row option" where
  "publication_at d p n = row_at fpkey (cd_publications d) (p, n)"

definition put_folder_publication :: "ext \<Rightarrow> folder_publication \<Rightarrow> client_db \<Rightarrow> client_error + client_db" where
  "put_folder_publication x f d =
     (let n = nat (fu_step f) in
      case step_at d (fu_plan f) n of
        None \<Rightarrow> Inl NoRows
      | Some s \<Rightarrow>
          if st_object s \<noteq> fu_folder f \<or> st_mutation s \<noteq> MutationCreate \<or> st_type s \<noteq> ObjectFolder \<or> st_applied s \<or>
             recovered_target x f \<and> st_parent s \<noteq> Some ConflictRecoveredID
          then Inl (Failed ''folder publication does not match pending create'')
          else if preserved_target x f \<and> \<not> recovered_target x f \<and> \<not> publication_preserved d s
          then Inl (Failed ''folder publication is not preserve-delete bound'')
          else if publication_at d (fu_plan f) n \<noteq> None \<or> fu_stage f \<in> fp_stage ` set (cd_publications d) \<or>
                  length (fu_nonce f) \<noteq> 32
          then Inl Refused
          else Inr (d\<lparr>cd_publications := cd_publications d @ [\<lparr>fp_plan = fu_plan f, fp_step = n,
            fp_folder = fu_folder f, fp_target = fu_target f, fp_stage = fu_stage f, fp_nonce = fu_nonce f,
            fp_device = fu_device f, fp_inode = fu_inode f, fp_authorized = False, fp_cleaned = None\<rparr>]\<rparr>))"

definition PutFolderPublication :: "ext \<Rightarrow> folder_publication \<Rightarrow> client_db \<Rightarrow> client_error option \<times> client_db" where
  "PutFolderPublication x f d =
     (if \<not> publication_valid x f then (Some (Failed ''invalid folder publication''), d)
      else WithTransaction (put_folder_publication x f) d)"

definition publication_of_row :: "publication_row \<Rightarrow> folder_publication" where
  "publication_of_row r =
     \<lparr>fu_plan = fp_plan r, fu_step = int (fp_step r), fu_folder = fp_folder r, fu_target = fp_target r,
      fu_stage = fp_stage r, fu_nonce = fp_nonce r, fu_device = fp_device r, fu_inode = fp_inode r,
      fu_authorized = fp_authorized r\<rparr>"

definition FolderPublicationForFolder :: "ext \<Rightarrow> client_db \<Rightarrow> uuid \<Rightarrow> uuid \<Rightarrow> client_error + folder_publication option" where
  "FolderPublicationForFolder x d p folder =
     (if \<not> validOperationID x p \<or> \<not> validObjectID x folder then Inl (Failed ''invalid folder publication lookup'')
      else case sort_key fp_step (filter (\<lambda>f. fp_plan f = p \<and> fp_folder f = folder) (cd_publications d)) of
        [] \<Rightarrow> Inr None
      | f # _ \<Rightarrow> if length (fp_nonce f) \<noteq> 32 then Inl (Failed ''corrupt folder publication lookup'')
                 else Inr (Some (publication_of_row f)))"

definition FolderPublication :: "ext \<Rightarrow> client_db \<Rightarrow> uuid \<Rightarrow> int \<Rightarrow> client_error + folder_publication option" where
  "FolderPublication x d p n =
     (if \<not> validOperationID x p \<or> n < 0 then Inl (Failed ''invalid folder publication key'')
      else case publication_at d p (nat n) of
        None \<Rightarrow> Inr None
      | Some f \<Rightarrow> if \<not> validObjectID x (fp_folder f) \<or> length (fp_nonce f) \<noteq> 32
                   then Inl (Failed ''corrupt folder publication'') else Inr (Some (publication_of_row f)))"

text \<open>The plan deletes a folder that it has itself published.\<close>

definition folder_deleted_by :: "client_db \<Rightarrow> uuid \<Rightarrow> uuid \<Rightarrow> bool" where
  "folder_deleted_by d p folder \<longleftrightarrow>
     plan_is d p PlanApplying \<and>
     list_ex (\<lambda>s. st_object s = folder \<and> st_type s = ObjectFolder \<and> st_mutation s = MutationDelete) (plan_steps d p)"

definition FolderPublicationConsumedByDelete :: "ext \<Rightarrow> client_db \<Rightarrow> uuid \<Rightarrow> uuid \<Rightarrow> client_error + bool" where
  "FolderPublicationConsumedByDelete x d p folder =
     (if \<not> validOperationID x p \<or> \<not> validObjectID x folder then Inl (Failed ''invalid consumed folder publication lookup'')
      else Inr (list_ex (\<lambda>f. fp_plan f = p \<and> fp_folder f = folder \<and> fp_authorized f \<and> fp_cleaned f \<noteq> None)
        (cd_publications d) \<and> folder_deleted_by d p folder))"

definition clean_row :: "int \<Rightarrow> publication_row \<Rightarrow> publication_row" where
  "clean_row now f = f\<lparr>fp_cleaned := Some (case fp_cleaned f of None \<Rightarrow> now | Some t \<Rightarrow> t)\<rparr>"

definition clean_publications :: "(publication_row \<Rightarrow> bool) \<Rightarrow> int \<Rightarrow> client_error \<Rightarrow> client_db \<Rightarrow> client_error + client_db" where
  "clean_publications P now e d =
     (if rows_affected P (cd_publications d) \<noteq> 1 then Inl e
      else Inr (d\<lparr>cd_publications := update_rows P (clean_row now) (cd_publications d)\<rparr>))"

definition MarkFolderPublicationConsumedByDelete :: "ext \<Rightarrow> int \<Rightarrow> uuid \<Rightarrow> uuid \<Rightarrow> client_db \<Rightarrow> client_error option \<times> client_db" where
  "MarkFolderPublicationConsumedByDelete x now p folder d =
     (if \<not> validOperationID x p \<or> \<not> validObjectID x folder then (Some (Failed ''invalid consumed folder publication''), d)
      else WithTransaction (clean_publications
        (\<lambda>f. fp_plan f = p \<and> fp_folder f = folder \<and> fp_authorized f \<and> folder_deleted_by d p folder) now
        (Failed ''folder publication delete consumption unavailable'')) d)"

definition completion_time :: "client_db \<Rightarrow> uuid \<Rightarrow> int" where
  "completion_time d p = (case Option.bind (plan_at d p) ap_completed of None \<Rightarrow> 0 | Some t \<Rightarrow> t)"

definition CompletedFolderPublications :: "client_db \<Rightarrow> client_error + folder_publication list" where
  "CompletedFolderPublications d =
     (let rows = sort_key (\<lambda>f. completion_time d (fp_plan f)) (sort_key fp_step (filter (\<lambda>f.
            plan_is d (fp_plan f) PlanCompleted \<and> fp_authorized f \<and> fp_cleaned f = None) (cd_publications d))) in
      if list_ex (\<lambda>f. length (fp_nonce f) \<noteq> 32) rows then Inl (Failed ''corrupt completed folder publication'')
      else Inr (map publication_of_row rows))"

definition MarkFolderPublicationCleaned :: "ext \<Rightarrow> int \<Rightarrow> uuid \<Rightarrow> int \<Rightarrow> client_db \<Rightarrow> client_error option \<times> client_db" where
  "MarkFolderPublicationCleaned x now p n d =
     (if \<not> validOperationID x p \<or> n < 0 then (Some (Failed ''invalid folder publication key''), d)
      else WithTransaction (clean_publications (\<lambda>f. fpkey f = (p, nat n) \<and> fp_authorized f \<and> plan_is d p PlanCompleted) now
        (Failed ''folder publication is not cleanable'')) d)"

section \<open>Accepted folder intents\<close>

definition AcceptedFolderIntent :: "ext \<Rightarrow> client_db \<Rightarrow> client_change \<Rightarrow> client_error + folder_intent_row option" where
  "AcceptedFolderIntent x d c =
     (if \<not> validOperationID x (ch_operation c) \<or> \<not> validObjectID x (ch_object c) \<or>
         (ch_mutation c \<noteq> MutationMove \<and> ch_mutation c \<noteq> MutationDelete) \<or> ch_type c \<noteq> ObjectFolder \<or>
         ch_revision c = 0 \<or> ch_cursor c = 0
      then Inl (Failed ''invalid accepted folder intent lookup'')
      else case find (\<lambda>i. fi_op i = ch_operation c \<and> fi_folder i = ch_object c \<and> fi_kind i = ch_mutation c \<and>
          list_ex (\<lambda>q. ob_op q = fi_op i \<and> ob_type q = ObjectFolder \<and> ob_status q = OpAccepted \<and>
            ob_revision q = Some (ch_revision c) \<and> ob_cursor q = Some (ch_cursor c)) (cd_outbox d)) (cd_intents d) of
        None \<Rightarrow> Inr None
      | Some i \<Rightarrow>
          if ValidateUserRelativePath x (fi_source i) \<noteq> Inr () \<or> fi_device i = 0 \<or> fi_inode i = 0
          then Inl (Failed ''corrupt accepted folder intent'') else Inr (Some i))"

section \<open>Integrity incidents\<close>

definition incident_bound :: "client_db \<Rightarrow> uuid \<Rightarrow> nat \<Rightarrow> uuid \<Rightarrow> string \<Rightarrow> bool" where
  "incident_bound d p cursor i hash \<longleftrightarrow>
     list_ex (\<lambda>s. st_plan s = p \<and> st_cursor s = cursor \<and> st_object s = i \<and> st_blob s = Some hash \<and>
       list_ex (\<lambda>r. ib_cursor r = cursor \<and> ib_object r = i \<and> ib_blob r = Some hash) (cd_inbox d)) (cd_steps d)"

definition record_incident :: "int \<Rightarrow> uuid \<Rightarrow> nat \<Rightarrow> uuid \<Rightarrow> string \<Rightarrow> string \<Rightarrow> client_db \<Rightarrow> client_error + client_db" where
  "record_incident now p cursor i hash problem d =
     (if \<not> incident_bound d p cursor i hash then Inl (Failed ''integrity incident is not linked to apply plan'')
      else let P = (\<lambda>r. ic_cursor r = cursor \<and> ic_code r = problem) in
        if list_ex P (cd_incidents d)
        then (if list_ex (\<lambda>r. P r \<and> now < ic_last r) (cd_incidents d) then Inl Refused
              else Inr (d\<lparr>cd_incidents := update_rows P
                (\<lambda>r. r\<lparr>ic_last := now, ic_count := ic_count r + 1, ic_acknowledged := None\<rparr>) (cd_incidents d)\<rparr>))
        else Inr (d\<lparr>cd_incidents := cd_incidents d @ [\<lparr>ic_plan = p, ic_cursor = cursor, ic_object = i, ic_blob = hash,
               ic_code = problem, ic_first = now, ic_last = now, ic_count = 1, ic_acknowledged = None\<rparr>]\<rparr>))"

definition RecordIntegrityIncident ::
  "ext \<Rightarrow> int \<Rightarrow> uuid \<Rightarrow> nat \<Rightarrow> uuid \<Rightarrow> string \<Rightarrow> string \<Rightarrow> client_db \<Rightarrow> client_error option \<times> client_db" where
  "RecordIntegrityIncident x now p cursor i hash problem d =
     (if \<not> validOperationID x p \<or> cursor = 0 \<or> \<not> validObjectID x i \<or>
         (problem \<noteq> ''missing_blob'' \<and> problem \<noteq> ''hash_mismatch'')
      then (Some (Failed ''invalid integrity incident''), d)
      else WithTransaction (record_incident now p cursor i hash problem) d)"

text \<open>The open incidents, the latest first; rows keep the order of their identifiers.\<close>

definition ListOpenIntegrityIncidents :: "client_db \<Rightarrow> int \<Rightarrow> client_error + incident_row list" where
  "ListOpenIntegrityIncidents d limit =
     (if limit \<le> 0 \<or> limit > 1000 then Inl (Failed ''invalid integrity incident limit'')
      else let rows = take (nat limit) (sort_key (\<lambda>r. - ic_last r) (rev (filter (\<lambda>r. ic_acknowledged r = None) (cd_incidents d)))) in
        if list_ex (\<lambda>r. length (ic_blob r) \<noteq> 32) rows then Inl (Failed ''corrupt integrity incident'') else Inr rows)"

section \<open>Names of conflict copies\<close>

text \<open>\<open>path.Ext\<close>: from the last dot after the last slash, or nothing.\<close>

definition path_ext :: "string \<Rightarrow> string" where
  "path_ext s =
     (let tail = takeWhile (\<lambda>c. c \<noteq> CHR ''/'' \<and> c \<noteq> CHR ''.'') (rev s); rest = drop (length tail) (rev s) in
      case rest of c # _ \<Rightarrow> if c = CHR ''.'' then CHR ''.'' # rev tail else [] | [] \<Rightarrow> [])"

definition trim_suffix :: "string \<Rightarrow> string \<Rightarrow> string" where
  "trim_suffix s suffix = (if has_suffix s suffix then take (length s - length suffix) s else s)"

text \<open>The loop that drops whole runes from the end until the name fits.\<close>

function fit_runes :: "nat \<Rightarrow> string \<Rightarrow> string" where
  "fit_runes limit s =
     (if length s \<le> limit then s else fit_runes limit (take (length s - last_rune_width s) s))"
  by pat_completeness auto
termination
proof (relation "measure (\<lambda>(limit, s). length s)")
  fix limit and s :: string
  assume "\<not> length s \<le> limit"
  then have "s \<noteq> []" by auto
  with last_rune_width_pos [of s]
  show "((limit, take (length s - last_rune_width s) s), limit, s) \<in> measure (\<lambda>(limit, s). length s)" by auto
qed simp

declare fit_runes.simps [simp del]

definition name_or :: "string \<Rightarrow> string \<Rightarrow> string" where
  "name_or s fallback = (if s = [] then fallback else s)"

definition ConflictFileName :: "ext \<Rightarrow> string \<Rightarrow> uuid \<Rightarrow> string" where
  "ConflictFileName x original operation =
     (let suffix = '' (Konflikt - '' @ x_uuid_string x operation @ '').md'' in
      name_or (fit_runes (MaxComponentBytes - length suffix) (trim_suffix original (path_ext original))) ''Notiz'' @ suffix)"

definition ConflictFolderName :: "ext \<Rightarrow> string \<Rightarrow> uuid \<Rightarrow> string" where
  "ConflictFolderName x original operation =
     (let suffix = '' (Konflikt - '' @ x_uuid_string x operation @ '')'' in
      name_or (fit_runes (MaxComponentBytes - length suffix) original) ''Ordner'' @ suffix)"

end
