(* ===== verification/Client_Outbox_Keeps.thy ===== *)
theory Client_Outbox_Keeps
  imports Client_Folders
begin

text \<open>
  The invariant of the client's outbox and that the statements of the store keep it: operations are
  numbered without a gap and keep their payload, a prerequisite was queued before its dependants, a
  result fits the status, and what was accepted is known as a baseline.
\<close>

section \<open>Payload\<close>

definition op_payload where
  "op_payload q = (ob_sequence q, ob_op q, ob_kind q, ob_object q, ob_type q, ob_base q, ob_parent q, ob_name q,
     ob_blob q, ob_dependency q, ob_created q)"

lemma op_payload_fields:
  assumes "op_payload q = op_payload r"
  shows "ob_sequence q = ob_sequence r" "ob_op q = ob_op r" "ob_object q = ob_object r" "ob_base q = ob_base r"
    "ob_dependency q = ob_dependency r" "oi_mutation (item_of q) = oi_mutation (item_of r)"
  using assms by (simp_all add: op_payload_def item_of_def)

definition results_fit :: "outbox_op \<Rightarrow> bool" where
  "results_fit q \<longleftrightarrow>
     (ob_status q = OpPending \<longrightarrow> ob_attempted q = None) \<and>
     (case ob_status q of
        OpAccepted \<Rightarrow> ob_revision q = Some (Suc (ob_base q)) \<and> (\<exists>c>0. ob_cursor q = Some c) \<and> ob_conflict q = None
      | OpConflict \<Rightarrow> ob_revision q = None \<and> ob_cursor q = None \<and> ob_conflict q \<noteq> None
      | _ \<Rightarrow> ob_revision q = None \<and> ob_cursor q = None \<and> ob_conflict q = None)"

definition outbox_row_ok :: "ext \<Rightarrow> outbox_op \<Rightarrow> bool" where
  "outbox_row_ok x q \<longleftrightarrow> validateMutation x (oi_mutation (item_of q)) = Inr () \<and> results_fit q"

definition deps_ok :: "client_db \<Rightarrow> bool" where
  "deps_ok d \<longleftrightarrow>
     (\<forall>(i, j)\<in>set (cd_deps d). \<exists>p\<in>set (cd_outbox d). \<exists>q\<in>set (cd_outbox d).
        ob_op p = i \<and> ob_op q = j \<and> ob_sequence q < ob_sequence p) \<and>
     (\<forall>q\<in>set (cd_outbox d). \<forall>j. ob_dependency q = Some j \<longrightarrow> (ob_op q, j) \<in> set (cd_deps d))"

definition records_ok :: "client_db \<Rightarrow> bool" where
  "records_ok d \<longleftrightarrow>
     distinct (map fi_op (cd_intents d)) \<and> fi_op ` set (cd_intents d) \<subseteq> ob_op ` set (cd_outbox d) \<and>
     distinct (map cs_op (cd_conflicts d)) \<and>
     (\<forall>c\<in>set (cd_conflicts d). \<exists>q\<in>set (cd_outbox d). ob_op q = cs_op c \<and> ob_status q = OpConflict)"

definition outbox_ok :: "ext \<Rightarrow> client_db \<Rightarrow> bool" where
  "outbox_ok x d \<longleftrightarrow>
     distinct (map ob_op (cd_outbox d)) \<and> map ob_sequence (cd_outbox d) = [1..<Suc (length (cd_outbox d))] \<and>
     (\<forall>q\<in>set (cd_outbox d). outbox_row_ok x q) \<and> deps_ok d \<and> records_ok d"

text \<open>What was accepted is known: the baseline of the object is at least the accepted revision.\<close>

definition accepted_known :: "client_db \<Rightarrow> bool" where
  "accepted_known d \<longleftrightarrow>
     (\<forall>q\<in>set (cd_outbox d). ob_status q = OpAccepted \<longrightarrow>
        Suc (ob_base q) \<le> baseline_revision d (ob_object q))"

definition baselines_ok :: "ext \<Rightarrow> client_db \<Rightarrow> bool" where
  "baselines_ok x d \<longleftrightarrow>
     distinct (map bl_object (cd_baselines d)) \<and>
     (\<forall>b\<in>set (cd_baselines d). validObjectID x (bl_object b) \<and> 0 < bl_revision b \<and> bl_revision b \<le> MaxInt64 \<and>
        (\<exists>i. bl_operation b = Some i \<and> validOperationID x i))"

section \<open>Frames\<close>

lemma outbox_frames [simp]:
  "outbox_ok x (cd_baselines_update f d) = outbox_ok x d" "outbox_ok x (cd_state_update g d) = outbox_ok x d"
  "outbox_ok x (cd_objects_update h d) = outbox_ok x d" "outbox_ok x (cd_issues_update j d) = outbox_ok x d"
  by (simp_all add: outbox_ok_def deps_ok_def records_ok_def)

lemma accepted_frames [simp]:
  "accepted_known (cd_state_update g d) = accepted_known d" "accepted_known (cd_objects_update h d) = accepted_known d"
  "accepted_known (cd_issues_update j d) = accepted_known d" "accepted_known (cd_deps_update k d) = accepted_known d"
  "accepted_known (cd_intents_update l d) = accepted_known d" "accepted_known (cd_conflicts_update m d) = accepted_known d"
  by (simp_all add: accepted_known_def baseline_revision_def baseline_at_def)

section \<open>Updates of operations\<close>

lemma outbox_update:
  assumes inv: "outbox_ok x d" and pay: "\<And>q. P q \<Longrightarrow> op_payload (f q) = op_payload q"
    and ok: "\<And>q. q \<in> set (cd_outbox d) \<Longrightarrow> P q \<Longrightarrow> results_fit q \<Longrightarrow> results_fit (f q)"
    and keep: "\<And>q. P q \<Longrightarrow> ob_status q = OpConflict \<Longrightarrow> ob_status (f q) = OpConflict"
  shows "outbox_ok x (d\<lparr>cd_outbox := update_rows P f (cd_outbox d)\<rparr>)"
proof -
  define g where "g = (\<lambda>q. if P q then f q else q)"
  let ?rows = "update_rows P f (cd_outbox d)"
  have rows: "?rows = map g (cd_outbox d)" by (simp add: update_rows_def g_def)
  have pay': "op_payload (g q) = op_payload q" for q using pay by (simp add: g_def)
  note fields = op_payload_fields [OF pay']
  have "outbox_row_ok x (g q)" if "q \<in> set (cd_outbox d)" for q
  proof -
    from inv that have q: "outbox_row_ok x q" by (simp add: outbox_ok_def)
    then have "results_fit (g q)" using ok [OF that] by (simp add: outbox_row_ok_def g_def)
    with q show ?thesis unfolding outbox_row_ok_def fields by simp
  qed
  moreover have "deps_ok (d\<lparr>cd_outbox := ?rows\<rparr>)"
    using inv unfolding outbox_ok_def deps_ok_def rows by (simp add: fields split_def)
  moreover have "ob_status q = OpConflict \<Longrightarrow> ob_status (g q) = OpConflict" for q using keep by (simp add: g_def)
  then have "records_ok (d\<lparr>cd_outbox := ?rows\<rparr>)"
    using inv unfolding outbox_ok_def records_ok_def rows by (simp add: fields image_image) blast
  ultimately show ?thesis
    using inv unfolding outbox_ok_def rows by (simp add: fields comp_def)
qed

lemma accepted_update:
  assumes inv: "accepted_known d" and pay: "\<And>q. P q \<Longrightarrow> op_payload (f q) = op_payload q"
    and acc: "\<And>q. q \<in> set (cd_outbox d) \<Longrightarrow> P q \<Longrightarrow> ob_status (f q) = OpAccepted \<Longrightarrow> ob_status q = OpAccepted"
  shows "accepted_known (d\<lparr>cd_outbox := update_rows P f (cd_outbox d)\<rparr>)"
  unfolding accepted_known_def
proof (intro ballI impI)
  fix r assume r: "r \<in> set (cd_outbox (d\<lparr>cd_outbox := update_rows P f (cd_outbox d)\<rparr>))" "ob_status r = OpAccepted"
  then obtain q where q: "q \<in> set (cd_outbox d)" "r = (if P q then f q else q)" by (auto simp: set_update_rows)
  have "op_payload r = op_payload q" using q(2) pay by simp
  note fields = op_payload_fields [OF this]
  have "ob_status q = OpAccepted" using acc [OF q(1)] q(2) r(2) by (auto split: if_splits)
  with inv q(1) show "Suc (ob_base r) \<le> baseline_revision (d\<lparr>cd_outbox := update_rows P f (cd_outbox d)\<rparr>) (ob_object r)"
    by (simp add: accepted_known_def fields baseline_revision_def baseline_at_def)
qed

section \<open>Enqueueing\<close>

lemma supersede_pending_keeps:
  "outbox_ok x d \<Longrightarrow> outbox_ok x (supersede_pending m d)" "accepted_known d \<Longrightarrow> accepted_known (supersede_pending m d)"
  "outbox_ok x d \<Longrightarrow> outbox_ok x (cancel_pending i d)" "accepted_known d \<Longrightarrow> accepted_known (cancel_pending i d)"
  unfolding supersede_pending_def cancel_pending_def
  by (rule outbox_update accepted_update; simp add: op_payload_def results_fit_def)+

lemma validate_stored:
  assumes "validateMutation x m = Inr ()"
  shows "validateMutation x (m\<lparr>cm_additional := [], cm_source := [], cm_device := 0, cm_inode := 0\<rparr>) = Inr ()"
proof -
  let ?m = "m\<lparr>cm_additional := [], cm_source := [], cm_device := 0, cm_inode := 0\<rparr>"
  have "mutation_shape_valid ?m = mutation_shape_valid m"
    by (cases "cm_kind m") (simp_all add: mutation_shape_valid_def)
  moreover have "\<not> has_folder_binding ?m" by (simp add: has_folder_binding_def)
  ultimately show ?thesis
    using assms unfolding validateMutation_def by (simp split: if_splits cong: option.case_cong)
qed

lemma outbox_row_of_ok:
  assumes "validateMutation x m = Inr ()"
  shows "outbox_row_ok x (outbox_row_of m now n)"
proof -
  have "oi_mutation (item_of (outbox_row_of m now n)) = m\<lparr>cm_additional := [], cm_source := [], cm_device := 0, cm_inode := 0\<rparr>"
    by (simp add: item_of_def outbox_row_of_def)
  then show ?thesis
    using validate_stored [OF assms] by (simp add: outbox_row_ok_def results_fit_def outbox_row_of_def)
qed

lemma validate_dependencies:
  "validateMutation x m = Inr () \<Longrightarrow> i \<in> set (mutation_dependencies m) \<Longrightarrow> i \<noteq> cm_operation m \<and> validOperationID x i"
  by (auto simp: mutation_dependencies_set mutationDependsOn_def validateMutation_def list_all_iff split: if_splits)

lemma op_at_None: "op_at d i = None \<longleftrightarrow> i \<notin> ob_op ` set (cd_outbox d)"
  by (simp add: op_at_def row_at_None_iff)

text \<open>What an accepted mutation leaves: one more operation with its prerequisites and its folder.\<close>

definition enqueued :: "client_mutation \<Rightarrow> int \<Rightarrow> client_db \<Rightarrow> client_db" where
  "enqueued m now d =
     d\<lparr>cd_outbox := cd_outbox d @ [outbox_row_of m now (Suc (length (cd_outbox d)))],
       cd_intents := cd_intents (bind_folder m d),
       cd_deps := cd_deps d @ map (Pair (cm_operation m)) (mutation_dependencies m)\<rparr>"

lemma bind_folder_fields [simp]:
  "cd_outbox (bind_folder m d) = cd_outbox d" "cd_deps (bind_folder m d) = cd_deps d"
  "bind_folder m (d\<lparr>cd_outbox := rows\<rparr>) = d\<lparr>cd_outbox := rows, cd_intents := cd_intents (bind_folder m d)\<rparr>"
  by (simp_all add: bind_folder_def)

lemma insert_enqueued:
  assumes "insert_operation m now d = Inr d2" and "insert_dependencies m (bind_folder m d2) = Inr d3"
  shows "d3 = enqueued m now d \<and> cm_operation m \<notin> ob_op ` set (cd_outbox d) \<and>
    set (mutation_dependencies m) \<subseteq> insert (cm_operation m) (ob_op ` set (cd_outbox d))"
proof -
  from assms(1) have fresh: "cm_operation m \<notin> ob_op ` set (cd_outbox d)"
    and d2: "d2 = d\<lparr>cd_outbox := cd_outbox d @ [outbox_row_of m now (Suc (length (cd_outbox d)))]\<rparr>"
    by (auto simp: insert_operation_def op_at_None split: if_splits)
  from assms(2) have "\<forall>i\<in>set (mutation_dependencies m). op_at (bind_folder m d2) i \<noteq> None"
    and d3: "d3 = (bind_folder m d2)\<lparr>cd_deps := cd_deps (bind_folder m d2) @ map (Pair (cm_operation m)) (mutation_dependencies m)\<rparr>"
    unfolding insert_dependencies_def list_ex_iff by (simp_all split: if_splits)
  then have "set (mutation_dependencies m) \<subseteq> insert (cm_operation m) (ob_op ` set (cd_outbox d))"
    unfolding op_at_None d2 by (auto simp: outbox_row_of_def)
  with fresh show ?thesis by (simp add: d3 d2 enqueued_def)
qed

lemma enqueued_ok:
  assumes inv: "outbox_ok x d" and valid: "validateMutation x m = Inr ()"
    and fresh: "cm_operation m \<notin> ob_op ` set (cd_outbox d)"
    and deps: "set (mutation_dependencies m) \<subseteq> insert (cm_operation m) (ob_op ` set (cd_outbox d))"
  shows "outbox_ok x (enqueued m now d)"
proof -
  let ?n = "Suc (length (cd_outbox d))" let ?q = "outbox_row_of m now ?n"
  have sequence: "ob_sequence q < ?n" if "q \<in> set (cd_outbox d)" for q
  proof -
    have "ob_sequence q \<in> set (map ob_sequence (cd_outbox d))" using that by simp
    also have "map ob_sequence (cd_outbox d) = [1..<?n]" using inv by (simp only: outbox_ok_def)
    finally show ?thesis by auto
  qed
  have known: "\<exists>q\<in>set (cd_outbox d). ob_op q = j \<and> ob_sequence q < ?n" if "j \<in> set (mutation_dependencies m)" for j
    using deps validate_dependencies [OF valid that] that sequence by auto
  have "deps_ok (enqueued m now d)"
    unfolding deps_ok_def
  proof (intro conjI ballI allI impI)
    fix e assume "e \<in> set (cd_deps (enqueued m now d))"
    then show "case e of (i, j) \<Rightarrow> \<exists>p\<in>set (cd_outbox (enqueued m now d)). \<exists>q\<in>set (cd_outbox (enqueued m now d)).
        ob_op p = i \<and> ob_op q = j \<and> ob_sequence q < ob_sequence p"
      using inv known by (fastforce simp: enqueued_def outbox_ok_def deps_ok_def outbox_row_of_def)
  next
    fix q j assume "q \<in> set (cd_outbox (enqueued m now d))" "ob_dependency q = Some j"
    then show "(ob_op q, j) \<in> set (cd_deps (enqueued m now d))"
      using inv by (auto simp: enqueued_def outbox_ok_def deps_ok_def outbox_row_of_def mutation_dependencies_set mutationDependsOn_def)
  qed
  moreover have "records_ok (enqueued m now d)"
    using inv fresh by (auto simp: outbox_ok_def records_ok_def enqueued_def bind_folder_def outbox_row_of_def)
  ultimately show ?thesis
    using inv fresh outbox_row_of_ok [OF valid]
    by (auto simp: outbox_ok_def enqueued_def outbox_row_of_def)
qed

lemma enqueued_accepted: "accepted_known d \<Longrightarrow> accepted_known (enqueued m now d)"
  by (auto simp: accepted_known_def enqueued_def outbox_row_of_def baseline_revision_def baseline_at_def)

lemma enqueue_oneE:
  assumes "enqueue_one x now m (superseded, d) = Inr (superseded', d')"
  obtains (skip) i where "recovered_create d m = Some i" "mutationDependsOn m i" "d' = d" "superseded' = superseded"
  | (new) d1 projection where "validateMutation x m = Inr ()" "ProjectionTx x d (cm_object m) = Inr projection"
      "enqueue_allowed d m projection = Inr ()" "d1 = (if cm_object m \<in> set superseded then d else supersede_pending m d)"
      "d' = enqueued m now d1" "cm_operation m \<notin> ob_op ` set (cd_outbox d1)"
      "set (mutation_dependencies m) \<subseteq> insert (cm_operation m) (ob_op ` set (cd_outbox d1))"
      "superseded' = List.insert (cm_object m) superseded"
proof -
  from assms have valid: "validateMutation x m = Inr ()" by (auto simp: enqueue_one_def)
  show thesis
  proof (cases "case recovered_create d m of None \<Rightarrow> False | Some i \<Rightarrow> mutationDependsOn m i")
    case True
    then obtain i where i: "recovered_create d m = Some i" "mutationDependsOn m i" by (auto split: option.splits)
    with assms valid have "d' = d" "superseded' = superseded" by (simp_all add: enqueue_one_def)
    with i show thesis by (rule skip)
  next
    case False
    let ?d1 = "if cm_object m \<in> set superseded then d else supersede_pending m d"
    from assms valid False obtain projection d2 where *: "ProjectionTx x d (cm_object m) = Inr projection"
      "enqueue_allowed d m projection = Inr ()" "insert_operation m now ?d1 = Inr d2"
      "insert_dependencies m (bind_folder m d2) = Inr d'" "superseded' = List.insert (cm_object m) superseded"
      by (simp add: enqueue_one_def Let_def rbind_Inr_iff del: split_paired_Ex) blast
    show thesis using new [OF valid *(1,2) refl] insert_enqueued [OF *(3,4)] *(5) by blast
  qed
qed

lemma enqueue_one_keeps:
  assumes "enqueue_one x now m (superseded, d) = Inr (superseded', d')" and inv: "outbox_ok x d" "accepted_known d"
  shows "outbox_ok x d' \<and> accepted_known d'"
  using assms(1)
proof (cases rule: enqueue_oneE)
  case (new d1 projection)
  have "outbox_ok x d1" "accepted_known d1" using inv new(4) supersede_pending_keeps by auto
  with new show ?thesis by (simp add: enqueued_ok enqueued_accepted)
qed (use inv in simp_all)

lemma enqueueTx_induct:
  assumes "enqueueTx x now ms d = Inr d'" and "R d"
    and "\<And>m s e s' e'. enqueue_one x now m (s, e) = Inr (s', e') \<Longrightarrow> R e \<Longrightarrow> R e'"
  shows "R d'"
proof -
  have *: "fold_result (enqueue_one x now) ms (s, e) = Inr (s', e') \<Longrightarrow> R e \<Longrightarrow> R e'" for s e s' e'
  proof (induction ms arbitrary: s e)
    case (Cons m ms)
    then show ?case using assms(3) by (auto elim!: rbind_InrE)
  qed simp
  from assms(1) obtain s' where "fold_result (enqueue_one x now) ms ([], d) = Inr (s', d')"
    by (auto simp: enqueueTx_def split: prod.splits)
  then show ?thesis using * assms(2) by blast
qed

lemma enqueueTx_keeps:
  assumes "enqueueTx x now ms d = Inr d'" and "outbox_ok x d \<and> accepted_known d"
  shows "outbox_ok x d' \<and> accepted_known d'"
  using assms by (rule enqueueTx_induct) (use enqueue_one_keeps in blast)

section \<open>Attempts, results and baselines\<close>

lemma baselines_frames [simp]:
  "baselines_ok x (cd_outbox_update f d) = baselines_ok x d" "baselines_ok x (cd_deps_update g d) = baselines_ok x d"
  "baselines_ok x (cd_intents_update h d) = baselines_ok x d" "baselines_ok x (cd_conflicts_update j d) = baselines_ok x d"
  "baselines_ok x (cd_state_update k d) = baselines_ok x d" "baselines_ok x (cd_objects_update l d) = baselines_ok x d"
  "baselines_ok x (cd_issues_update m d) = baselines_ok x d"
  by (simp_all add: baselines_ok_def)

lemma raise_baseline_fields [simp]:
  "cd_outbox (raise_baseline i n u d) = cd_outbox d" "cd_deps (raise_baseline i n u d) = cd_deps d"
  "cd_intents (raise_baseline i n u d) = cd_intents d" "cd_conflicts (raise_baseline i n u d) = cd_conflicts d"
  "cd_state (raise_baseline i n u d) = cd_state d" "cd_inbox (raise_baseline i n u d) = cd_inbox d"
  "cd_plans (raise_baseline i n u d) = cd_plans d" "cd_steps (raise_baseline i n u d) = cd_steps d"
  "cd_links (raise_baseline i n u d) = cd_links d"
  by (simp_all add: raise_baseline_def split: option.split)

lemma raise_baseline_revision:
  "baseline_revision (raise_baseline i n u d) j = (if j = i then max n (baseline_revision d i) else baseline_revision d j)"
proof (cases "baseline_at d i")
  case None
  then show ?thesis
    by (auto simp: raise_baseline_def baseline_revision_def baseline_at_def row_at_append split: option.split)
next
  case (Some b)
  then have "bl_object b = i" by (auto simp: baseline_at_def dest: row_at_SomeD)
  moreover have "row_at bl_object (update_rows (\<lambda>r. bl_object r = i) (\<lambda>r. r\<lparr>bl_revision := n, bl_operation := Some u\<rparr>) (cd_baselines d)) j =
      map_option (\<lambda>r. if bl_object r = i then r\<lparr>bl_revision := n, bl_operation := Some u\<rparr> else r) (row_at bl_object (cd_baselines d) j)"
    by (rule row_at_update) simp
  ultimately show ?thesis using Some
    by (auto simp: raise_baseline_def baseline_revision_def baseline_at_def split: option.split dest: row_at_SomeD)
qed

lemma raise_baseline_ok:
  assumes "baselines_ok x d" and "validObjectID x i" and "0 < n" and "n \<le> MaxInt64" and "validOperationID x u"
  shows "baselines_ok x (raise_baseline i n u d)"
proof (cases "baseline_at d i")
  case None
  then have "i \<notin> bl_object ` set (cd_baselines d)" by (simp add: baseline_at_def row_at_None_iff)
  with assms None show ?thesis by (auto simp: raise_baseline_def baselines_ok_def)
next
  case (Some b)
  let ?rows = "update_rows (\<lambda>r. bl_object r = i) (\<lambda>r. r\<lparr>bl_revision := n, bl_operation := Some u\<rparr>) (cd_baselines d)"
  have "map bl_object ?rows = map bl_object (cd_baselines d)" by (rule map_update_rows) simp
  with assms Some show ?thesis by (auto simp: raise_baseline_def baselines_ok_def set_update_rows)
qed

lemma raise_baseline_accepted: "accepted_known d \<Longrightarrow> accepted_known (raise_baseline i n u d)"
  by (auto simp: accepted_known_def raise_baseline_revision le_max_iff_disj)

lemma outbox_raise [simp]: "outbox_ok x (raise_baseline i n u d) = outbox_ok x d"
  by (simp add: outbox_ok_def deps_ok_def records_ok_def)

lemma mark_attempted_keeps:
  assumes "mark_attempted x now i d = Inr d'" and "outbox_ok x d" "accepted_known d" "baselines_ok x d"
  shows "outbox_ok x d' \<and> accepted_known d' \<and> baselines_ok x d'"
proof -
  let ?P = "\<lambda>q. ob_op q = i \<and> queued q \<and> \<not> unmet d (ob_op q)"
  let ?f = "\<lambda>q. q\<lparr>ob_status := OpAttempted, ob_attempted := Some (case ob_attempted q of None \<Rightarrow> now | Some t \<Rightarrow> t)\<rparr>"
  have d': "d' = d\<lparr>cd_outbox := update_rows ?P ?f (cd_outbox d)\<rparr>"
    using assms(1) by (simp add: mark_attempted_def Let_def split: if_splits)
  have "outbox_ok x d'" unfolding d'
    by (rule outbox_update [OF assms(2)]) (auto simp: op_payload_def results_fit_def queued_def)
  moreover have "accepted_known d'" unfolding d'
    by (rule accepted_update [OF assms(3)]) (auto simp: op_payload_def)
  ultimately show ?thesis using assms(4) by (simp add: d')
qed

lemma finalStatus_keeps:
  assumes "settle_operation i (\<lambda>q. q\<lparr>ob_status := OpReplayMismatch\<rparr>) e d = Inr d'"
    and "outbox_ok x d" "accepted_known d" "baselines_ok x d"
  shows "outbox_ok x d' \<and> accepted_known d' \<and> baselines_ok x d'"
proof -
  let ?P = "\<lambda>q. ob_op q = i \<and> queued q"
  have d': "d' = d\<lparr>cd_outbox := update_rows ?P (\<lambda>q. q\<lparr>ob_status := OpReplayMismatch\<rparr>) (cd_outbox d)\<rparr>"
    using assms(1) by (simp add: settle_operation_def Let_def split: if_splits)
  have "outbox_ok x d'" unfolding d'
    by (rule outbox_update [OF assms(2)]) (auto simp: op_payload_def results_fit_def queued_def)
  moreover have "accepted_known d'" unfolding d'
    by (rule accepted_update [OF assms(3)]) (auto simp: op_payload_def)
  ultimately show ?thesis using assms(4) by (simp add: d')
qed

lemma validate_result_Inr:
  assumes "validate_result x i r = Inr ()"
  shows "validOperationID x i" "cr_revision r \<le> MaxInt64"
    "cr_accepted r \<Longrightarrow> 0 < cr_revision r \<and> 0 < cr_cursor r \<and> cr_conflict r = [] \<and> cr_canonical r = None"
    "\<not> cr_accepted r \<Longrightarrow> cr_revision r = 0 \<and> cr_cursor r = 0 \<and> cr_conflict r \<noteq> []"
  using assms by (auto simp: validate_result_def split: if_splits)

definition result_row :: "client_result \<Rightarrow> outbox_op \<Rightarrow> outbox_op" where
  "result_row r q = q\<lparr>ob_status := if cr_accepted r then OpAccepted else OpConflict,
     ob_revision := nullablePositive (cr_revision r), ob_cursor := nullablePositive (cr_cursor r),
     ob_conflict := nullableString (cr_conflict r)\<rparr>"

lemma result_row_payload [simp]: "op_payload (result_row r q) = op_payload q"
  by (simp add: result_row_def op_payload_def)

abbreviation queued_op :: "uuid \<Rightarrow> outbox_op \<Rightarrow> bool" where
  "queued_op i q \<equiv> ob_op q = i \<and> queued q"

definition with_result :: "uuid \<Rightarrow> client_result \<Rightarrow> client_db \<Rightarrow> client_db" where
  "with_result i r d = d\<lparr>cd_outbox := update_rows (queued_op i) (result_row r) (cd_outbox d)\<rparr>"

lemma record_result_eq:
  "record_result i r d =
     (if cr_accepted r \<and> unmet d i then Inl (Failed ''operation dependencies are not accepted'')
      else if rows_affected (queued_op i) (cd_outbox d) \<noteq> 1 then Inl (Failed ''operation result already final or missing'')
      else rbind (case cr_canonical r of None \<Rightarrow> Inr (with_result i r d) | Some c \<Rightarrow> store_conflict_state i c (with_result i r d)) (\<lambda>d.
          if \<not> cr_accepted r then Inr d
          else case op_at d i of
            None \<Rightarrow> Inl NoRows
          | Some q \<Rightarrow>
              if ob_base q = MaxInt64 \<or> cr_revision r \<noteq> ob_base q + 1
              then Inl (Failed ''accepted revision does not match immutable operation base'')
              else Inr (raise_baseline (ob_object q) (cr_revision r) i d)))"
  unfolding record_result_def settle_operation_def with_result_def result_row_def [abs_def] Let_def by simp

text \<open>A recorded result, taken apart.\<close>

lemma record_resultE:
  assumes "record_result i r d = Inr d'" and "validate_result x i r = Inr ()"
  obtains (accepted) q where "cr_accepted r" "\<not> unmet d i" "rows_affected (queued_op i) (cd_outbox d) = 1"
      "op_at (with_result i r d) i = Some q" "cr_revision r = Suc (ob_base q)" "d' = raise_baseline (ob_object q) (cr_revision r) i (with_result i r d)"
  | (conflict) "\<not> cr_accepted r" "rows_affected (queued_op i) (cd_outbox d) = 1"
      "d' = (case cr_canonical r of None \<Rightarrow> with_result i r d
             | Some c \<Rightarrow> (with_result i r d)\<lparr>cd_conflicts := cd_conflicts d @ [\<lparr>cs_op = i, cs_type = cc_type c, cs_revision = cc_revision c,
                 cs_parent = cc_parent c, cs_name = cc_name c, cs_blob = nullableBytes (cc_blob c), cs_deleted = cc_deleted c\<rparr>]\<rparr>)"
      "cr_canonical r \<noteq> None \<longrightarrow> i \<notin> cs_op ` set (cd_conflicts d)"
proof (cases "cr_accepted r")
  case True
  with assms have canonical: "cr_canonical r = None" by (auto dest: validate_result_Inr(3))
  from assms(1) True canonical have "\<not> unmet d i" "rows_affected (queued_op i) (cd_outbox d) = 1"
    and rest: "(case op_at (with_result i r d) i of
            None \<Rightarrow> Inl NoRows
          | Some q \<Rightarrow>
              if ob_base q = MaxInt64 \<or> cr_revision r \<noteq> ob_base q + 1
              then Inl (Failed ''accepted revision does not match immutable operation base'')
              else Inr (raise_baseline (ob_object q) (cr_revision r) i (with_result i r d))) = Inr d'"
    by (auto simp: record_result_eq True canonical split: if_splits)
  moreover from rest obtain q where "op_at (with_result i r d) i = Some q" "cr_revision r = Suc (ob_base q)"
    "d' = raise_baseline (ob_object q) (cr_revision r) i (with_result i r d)" by (auto split: option.splits if_splits)
  ultimately show thesis using accepted True by blast
next
  case False
  with assms(1) have one: "rows_affected (queued_op i) (cd_outbox d) = 1"
    and rest: "(case cr_canonical r of None \<Rightarrow> Inr (with_result i r d) | Some c \<Rightarrow> store_conflict_state i c (with_result i r d)) = Inr d'"
    by (auto simp: record_result_eq elim: rbind_InrE split: if_splits)
  show thesis
  proof (rule conflict [OF False one])
    show "d' = (case cr_canonical r of None \<Rightarrow> with_result i r d
             | Some c \<Rightarrow> (with_result i r d)\<lparr>cd_conflicts := cd_conflicts d @ [\<lparr>cs_op = i, cs_type = cc_type c, cs_revision = cc_revision c,
                 cs_parent = cc_parent c, cs_name = cc_name c, cs_blob = nullableBytes (cc_blob c), cs_deleted = cc_deleted c\<rparr>]\<rparr>)"
      using rest by (auto simp: store_conflict_state_def with_result_def split: option.splits if_splits)
    show "cr_canonical r \<noteq> None \<longrightarrow> i \<notin> cs_op ` set (cd_conflicts d)"
      using rest by (auto simp: store_conflict_state_def with_result_def split: option.splits if_splits)
  qed
qed

lemma op_at_unique: "outbox_ok x d \<Longrightarrow> q \<in> set (cd_outbox d) \<Longrightarrow> op_at d (ob_op q) = Some q"
  by (simp add: outbox_ok_def op_at_def row_at_unique)

lemma op_at_SomeD: "op_at d i = Some q \<Longrightarrow> q \<in> set (cd_outbox d) \<and> ob_op q = i"
  by (auto simp: op_at_def dest: row_at_SomeD)

lemma op_at_with_result:
  "op_at (with_result i r d) j = map_option (\<lambda>q. if queued_op i q then result_row r q else q) (op_at d j)"
  unfolding op_at_def with_result_def by (simp add: row_at_update result_row_def)

lemma outbox_row_ids:
  assumes "outbox_ok x d" and "q \<in> set (cd_outbox d)"
  shows "validOperationID x (ob_op q)" "validObjectID x (ob_object q)" "ob_base q \<le> MaxInt64"
proof -
  from assms have "validateMutation x (oi_mutation (item_of q)) = Inr ()" by (simp add: outbox_ok_def outbox_row_ok_def)
  then show "validOperationID x (ob_op q)" "validObjectID x (ob_object q)" "ob_base q \<le> MaxInt64"
    by (auto simp: validateMutation_def item_of_def split: if_splits)
qed

lemma with_result_outbox:
  assumes inv: "outbox_ok x d" and valid: "validate_result x i r = Inr ()"
    and revision: "\<And>q. q \<in> set (cd_outbox d) \<Longrightarrow> queued_op i q \<Longrightarrow> cr_accepted r \<Longrightarrow> cr_revision r = Suc (ob_base q)"
  shows "outbox_ok x (with_result i r d)"
  unfolding with_result_def
proof (rule outbox_update [OF inv])
  fix q assume "q \<in> set (cd_outbox d)" "queued_op i q" "results_fit q"
  then show "results_fit (result_row r q)"
    using validate_result_Inr [OF valid] revision [of q]
    by (auto simp: results_fit_def result_row_def nullablePositive_def nullableString_def)
qed (auto simp: queued_def)

lemma with_result_frames [simp]:
  "baselines_ok x (with_result i r d) = baselines_ok x d" "baseline_revision (with_result i r d) j = baseline_revision d j"
  "cd_outbox (with_result i r d) = update_rows (queued_op i) (result_row r) (cd_outbox d)"
  "cd_conflicts (with_result i r d) = cd_conflicts d"
  by (simp_all add: with_result_def baseline_revision_def baseline_at_def)

lemma add_conflict:
  assumes "outbox_ok x d" and "cs_op c \<notin> cs_op ` set (cd_conflicts d)"
    and "\<exists>q\<in>set (cd_outbox d). ob_op q = cs_op c \<and> ob_status q = OpConflict"
  shows "outbox_ok x (d\<lparr>cd_conflicts := cd_conflicts d @ [c]\<rparr>)"
proof -
  from assms have "records_ok (d\<lparr>cd_conflicts := cd_conflicts d @ [c]\<rparr>)"
    by (simp add: outbox_ok_def records_ok_def)
  with assms(1) show ?thesis by (simp add: outbox_ok_def deps_ok_def)
qed

lemma record_result_keeps:
  assumes run: "record_result i r d = Inr d'" and valid: "validate_result x i r = Inr ()"
    and inv: "outbox_ok x d" "accepted_known d" "baselines_ok x d"
  shows "outbox_ok x d' \<and> accepted_known d' \<and> baselines_ok x d'"
  using run valid
proof (cases rule: record_resultE)
  case (accepted q)
  from accepted(4) obtain q0 where q0: "op_at d i = Some q0" "ob_object q = ob_object q0" "ob_base q = ob_base q0"
    by (auto simp: op_at_with_result result_row_def split: if_splits)
  then have mem: "q0 \<in> set (cd_outbox d)" "ob_op q0 = i" by (auto dest: op_at_SomeD)
  have only: "p = q0" if "p \<in> set (cd_outbox d)" "ob_op p = i" for p
    using op_at_unique [OF inv(1) that(1)] that(2) q0(1) by simp
  have outbox: "outbox_ok x (with_result i r d)"
    by (rule with_result_outbox [OF inv(1) valid]) (use only q0(3) accepted(5) in auto)
  have "accepted_known d'"
    unfolding accepted_known_def accepted(6) raise_baseline_fields
  proof (intro ballI impI)
    fix p assume "p \<in> set (cd_outbox (with_result i r d))" "ob_status p = OpAccepted"
    then obtain p0 where p0: "p0 \<in> set (cd_outbox d)" "p = (if queued_op i p0 then result_row r p0 else p0)"
      by (auto simp: set_update_rows)
    show "Suc (ob_base p) \<le> baseline_revision (raise_baseline (ob_object q) (cr_revision r) i (with_result i r d)) (ob_object p)"
    proof (cases "queued_op i p0")
      case True
      with p0 only have "ob_object p = ob_object q" "ob_base p = ob_base q" by (auto simp: q0 result_row_def)
      then show ?thesis by (simp add: raise_baseline_revision accepted(5))
    next
      case False
      with p0 have "p = p0" by simp
      with inv(2) p0(1) \<open>ob_status p = OpAccepted\<close> have "Suc (ob_base p) \<le> baseline_revision d (ob_object p)"
        by (simp add: accepted_known_def)
      then show ?thesis by (auto simp: raise_baseline_revision)
    qed
  qed
  moreover have "baselines_ok x d'"
    unfolding accepted(6)
    by (rule raise_baseline_ok) (use inv(3) validate_result_Inr [OF valid] accepted(1) outbox_row_ids [OF inv(1) mem(1)] q0 in auto)
  ultimately show ?thesis using outbox by (simp add: accepted(6))
next
  case conflict
  have outbox: "outbox_ok x (with_result i r d)"
    by (rule with_result_outbox [OF inv(1) valid]) (use conflict in simp)
  have accepted: "accepted_known (with_result i r d)"
    unfolding with_result_def by (rule accepted_update [OF inv(2)]) (auto simp: result_row_def conflict(1) op_payload_def)
  from conflict(2) have "rows_affected (queued_op i) (cd_outbox d) \<noteq> 0" by simp
  then obtain q where "q \<in> set (cd_outbox d)" "queued_op i q" unfolding rows_affected_0_iff by blast
  then have "result_row r q \<in> set (cd_outbox (with_result i r d))" "ob_op (result_row r q) = i" "ob_status (result_row r q) = OpConflict"
    by (auto simp: set_update_rows result_row_def conflict(1))
  then have final: "\<exists>q\<in>set (cd_outbox (with_result i r d)). ob_op q = i \<and> ob_status q = OpConflict" by blast
  have "outbox_ok x d'"
  proof (cases "cr_canonical r")
    case None
    with outbox conflict(3) show ?thesis by simp
  next
    case (Some c)
    let ?c = "\<lparr>cs_op = i, cs_type = cc_type c, cs_revision = cc_revision c, cs_parent = cc_parent c, cs_name = cc_name c,
      cs_blob = nullableBytes (cc_blob c), cs_deleted = cc_deleted c\<rparr>"
    have "outbox_ok x ((with_result i r d)\<lparr>cd_conflicts := cd_conflicts (with_result i r d) @ [?c]\<rparr>)"
      by (rule add_conflict [OF outbox]) (use conflict(4) Some final in \<open>simp_all only: with_result_frames, simp_all\<close>)
    then show ?thesis unfolding conflict(3) Some by simp
  qed
  then show ?thesis using accepted inv(3) by (auto simp: conflict(3) split: option.split)
qed

end
