(* ===== verification/Client_Inbox_Keeps.thy ===== *)
theory Client_Inbox_Keeps
  imports Client_Outbox_Keeps
begin

text \<open>
  The invariant of the cursors and the inbox: the two frontiers are stored as canonical numbers, and the
  inbox holds a gap-free range of changes up to the downloaded one, each of which reads back.
\<close>

section \<open>Cursors\<close>

lemma ParseUint63_decimal [simp]: "n \<le> MaxInt64 \<Longrightarrow> ParseUint63 (decimal n) = Some n"
  by (simp add: ParseUint63_def decimal_digits decimal_not_Nil digits_value_decimal)

definition cursor_is :: "client_db \<Rightarrow> string \<Rightarrow> nat \<Rightarrow> bool" where
  "cursor_is d key n \<longleftrightarrow> cd_state d key = Some (decimal n) \<and> n \<le> MaxInt64"

definition downloaded_of :: "client_db \<Rightarrow> nat" where
  "downloaded_of d = (case read_downloaded d of Inl _ \<Rightarrow> 0 | Inr n \<Rightarrow> n)"

definition confirmed_of :: "client_db \<Rightarrow> nat" where
  "confirmed_of d = (case read_confirmed d of Inl _ \<Rightarrow> 0 | Inr n \<Rightarrow> n)"

definition cursors_ok :: "client_db \<Rightarrow> bool" where
  "cursors_ok d \<longleftrightarrow>
     (\<exists>n. cursor_is d ''downloaded_cursor'' n) \<and>
     (cd_state d ''confirmed_cursor'' = None \<or> (\<exists>n. cursor_is d ''confirmed_cursor'' n))"

lemma cursor_reads:
  "cursor_is d ''downloaded_cursor'' n \<Longrightarrow> read_downloaded d = Inr n \<and> downloaded_of d = n"
  "cursor_is d ''confirmed_cursor'' n \<Longrightarrow> read_confirmed d = Inr n \<and> confirmed_of d = n \<and> confirmed_tx d = Inr n"
  "cd_state d ''confirmed_cursor'' = None \<Longrightarrow> read_confirmed d = Inr 0 \<and> confirmed_of d = 0 \<and> confirmed_tx d = Inr 0"
  by (simp_all add: cursor_is_def read_downloaded_def read_confirmed_def readSyncCursor_def parseCursor_def
      downloaded_of_def confirmed_of_def confirmed_tx_def)

lemma cursors_read:
  assumes "cursors_ok d"
  shows "read_downloaded d = Inr (downloaded_of d)" "read_confirmed d = Inr (confirmed_of d)"
    "confirmed_tx d = Inr (confirmed_of d)" "downloaded_of d \<le> MaxInt64" "confirmed_of d \<le> MaxInt64"
  using assms cursor_reads by (auto simp: cursors_ok_def cursor_is_def)

lemma cursor_fields:
  assumes "cd_state d' ''downloaded_cursor'' = cd_state d ''downloaded_cursor''"
    and "cd_state d' ''confirmed_cursor'' = cd_state d ''confirmed_cursor''"
  shows "cursors_ok d' = cursors_ok d" "downloaded_of d' = downloaded_of d" "confirmed_of d' = confirmed_of d"
  using assms
  by (simp_all add: cursors_ok_def cursor_is_def downloaded_of_def confirmed_of_def read_downloaded_def read_confirmed_def
      readSyncCursor_def)

lemma set_cursors:
  assumes "cursors_ok d" and "n \<le> MaxInt64"
  shows "cursors_ok (set_downloaded n d)" "downloaded_of (set_downloaded n d) = n" "confirmed_of (set_downloaded n d) = confirmed_of d"
    "cursors_ok (set_confirmed n d)" "confirmed_of (set_confirmed n d) = n" "downloaded_of (set_confirmed n d) = downloaded_of d"
proof -
  have d: "cursor_is (set_downloaded n d) ''downloaded_cursor'' n" and c: "cursor_is (set_confirmed n d) ''confirmed_cursor'' n"
    using assms(2) by (simp_all add: cursor_is_def set_downloaded_def set_confirmed_def)
  show "downloaded_of (set_downloaded n d) = n" "confirmed_of (set_confirmed n d) = n"
    using cursor_reads(1) [OF d] cursor_reads(2) [OF c] by simp_all
  show "cursors_ok (set_downloaded n d)" "cursors_ok (set_confirmed n d)"
    using assms d c by (auto simp: cursors_ok_def cursor_is_def set_downloaded_def set_confirmed_def)
  show "confirmed_of (set_downloaded n d) = confirmed_of d" "downloaded_of (set_confirmed n d) = downloaded_of d"
    by (simp_all add: downloaded_of_def confirmed_of_def read_downloaded_def read_confirmed_def readSyncCursor_def
        set_downloaded_def set_confirmed_def)
qed

section \<open>Rows\<close>

definition inbox_payload where
  "inbox_payload r = (ib_cursor r, ib_operation r, ib_object r, ib_mutation r, ib_type r, ib_revision r, ib_parent r,
     ib_name r, ib_blob r, ib_deleted r, ib_ingested r)"

lemma inbox_payload_fields:
  assumes "inbox_payload r = inbox_payload s"
  shows "ib_cursor r = ib_cursor s" "ib_operation r = ib_operation s" "ib_object r = ib_object s" "ib_revision r = ib_revision s"
    "ib_ingested r = ib_ingested s" "change_of r = change_of s" "step_of_row p r = step_of_row p s"
  using assms by (simp_all add: inbox_payload_def change_of_def step_of_row_def)

lemma row_payloads [simp]:
  "inbox_payload (begin_row now r) = inbox_payload r" "inbox_payload (finish_row now r) = inbox_payload r"
  by (simp_all add: begin_row_def finish_row_def inbox_payload_def)

definition inbox_row_ok :: "ext \<Rightarrow> inbox_row \<Rightarrow> bool" where
  "inbox_row_ok x r \<longleftrightarrow> validateInboxChange x (change_of r) = Inr () \<and> inbox_times_valid r"

lemma inbox_row_ids:
  assumes "inbox_row_ok x r"
  shows "validOperationID x (ib_operation r)" "validObjectID x (ib_object r)" "0 < ib_revision r" "ib_revision r \<le> MaxInt64"
    "0 < ib_cursor r" "ib_cursor r \<le> MaxInt64" "\<And>p. ib_parent r = Some p \<Longrightarrow> validObjectID x p"
    "ib_mutation r \<noteq> MutationCreate \<Longrightarrow> 2 \<le> ib_revision r"
  using assms by (auto simp: inbox_row_ok_def validateInboxChange_def change_of_def split: if_splits)

lemma scan_row:
  assumes "inbox_row_ok x r"
  shows "scanInboxItem x r = Inr r"
proof -
  have "\<not> (case ib_parent r of None \<Rightarrow> False | Some p \<Rightarrow> \<not> validObjectID x p)"
    using inbox_row_ids(7) [OF assms] by (auto split: option.split)
  with assms inbox_row_ids(1,2) [OF assms] show ?thesis
    by (simp add: scanInboxItem_def inbox_row_ok_def)
qed

lemma scanned_row: "scanInboxItem x r = Inr s \<Longrightarrow> s = r \<and> inbox_row_ok x r"
  by (auto simp: scanInboxItem_def inbox_row_ok_def split: if_splits sum.splits)

definition inbox_ok :: "ext \<Rightarrow> client_db \<Rightarrow> bool" where
  "inbox_ok x d \<longleftrightarrow>
     (\<forall>r\<in>set (cd_inbox d). inbox_row_ok x r) \<and> distinct (map ib_operation (cd_inbox d)) \<and>
     (\<exists>k\<le>downloaded_of d. map ib_cursor (cd_inbox d) = [Suc k..<Suc (downloaded_of d)])"

lemma inbox_okD:
  assumes "inbox_ok x d"
  shows "distinct (map ib_cursor (cd_inbox d))" "sorted (map ib_cursor (cd_inbox d))"
    "\<And>r. r \<in> set (cd_inbox d) \<Longrightarrow> inbox_row_ok x r \<and> ib_cursor r \<le> downloaded_of d \<and> inbox_at d (ib_cursor r) = Some r"
proof -
  from assms obtain k where k: "map ib_cursor (cd_inbox d) = [Suc k..<Suc (downloaded_of d)]"
    and rows: "\<forall>r\<in>set (cd_inbox d). inbox_row_ok x r" by (auto simp: inbox_ok_def simp del: upt_Suc)
  show distinct: "distinct (map ib_cursor (cd_inbox d))" and "sorted (map ib_cursor (cd_inbox d))"
    unfolding k by (simp_all del: upt_Suc)
  fix r assume r: "r \<in> set (cd_inbox d)"
  then have "ib_cursor r \<in> set (map ib_cursor (cd_inbox d))" by simp
  then have "ib_cursor r \<le> downloaded_of d" unfolding k by auto
  with rows r show "inbox_row_ok x r \<and> ib_cursor r \<le> downloaded_of d \<and> inbox_at d (ib_cursor r) = Some r"
    by (simp add: inbox_at_def row_at_unique [OF distinct])
qed

lemma inbox_at_SomeD: "inbox_at d c = Some r \<Longrightarrow> r \<in> set (cd_inbox d) \<and> ib_cursor r = c"
  by (auto simp: inbox_at_def dest: row_at_SomeD)

lemma inbox_frame:
  assumes "cd_inbox d' = cd_inbox d" and "cd_state d' ''downloaded_cursor'' = cd_state d ''downloaded_cursor''"
  shows "inbox_ok x d' = inbox_ok x d"
  using assms by (simp add: inbox_ok_def downloaded_of_def read_downloaded_def readSyncCursor_def)

text \<open>An update of states keeps the rows, when the new times are valid.\<close>

lemma inbox_update:
  assumes inv: "inbox_ok x d" and pay: "\<And>r. P r \<Longrightarrow> inbox_payload (f r) = inbox_payload r"
    and times: "\<And>r. r \<in> set (cd_inbox d) \<Longrightarrow> P r \<Longrightarrow> inbox_times_valid r \<Longrightarrow> inbox_times_valid (f r)"
  shows "inbox_ok x (d\<lparr>cd_inbox := update_rows P f (cd_inbox d)\<rparr>)"
proof -
  define g where "g = (\<lambda>r. if P r then f r else r)"
  have rows: "update_rows P f (cd_inbox d) = map g (cd_inbox d)" by (simp add: update_rows_def g_def)
  have pay': "inbox_payload (g r) = inbox_payload r" for r using pay by (simp add: g_def)
  note fields = inbox_payload_fields [OF pay']
  have "inbox_row_ok x (g r)" if "r \<in> set (cd_inbox d)" for r
  proof -
    from inv that have r: "inbox_row_ok x r" by (simp add: inbox_ok_def)
    then have "inbox_times_valid (g r)" using times [OF that] by (simp add: inbox_row_ok_def g_def)
    with r show ?thesis by (simp add: inbox_row_ok_def fields)
  qed
  moreover have "downloaded_of (d\<lparr>cd_inbox := map g (cd_inbox d)\<rparr>) = downloaded_of d" by (rule cursor_fields) simp_all
  ultimately show ?thesis
    using inv unfolding inbox_ok_def rows by (simp add: fields comp_def del: upt_Suc)
qed

lemma begin_times: "inbox_times_valid r \<Longrightarrow> ib_state r = InboxPending \<Longrightarrow> inbox_times_valid (begin_row now r)"
  by (simp add: inbox_times_valid_def begin_row_def split: option.splits)

lemma finish_times: "inbox_times_valid r \<Longrightarrow> ib_state r = InboxApplying \<Longrightarrow> inbox_times_valid (finish_row now r)"
  by (simp add: inbox_times_valid_def finish_row_def split: option.splits)

section \<open>Ingesting\<close>

lemma check_page_Inr:
  "check_page x from cs = Inr () \<Longrightarrow>
     map ch_cursor cs = [Suc from..<Suc (from + length cs)] \<and> (\<forall>c\<in>set cs. validateInboxChange x c = Inr ())"
proof (induction cs arbitrary: "from")
  case (Cons c cs)
  then have "ch_cursor c = Suc from" "validateInboxChange x c = Inr ()" "check_page x (Suc from) cs = Inr ()"
    by (auto split: if_splits)
  with Cons.IH [of "Suc from"] show ?case by (simp add: upt_conv_Cons del: upt_Suc)
qed simp

lemma insert_rows:
  assumes "fold_result (insert_change_row now) cs d = Inr d'" and "distinct (map ib_operation (cd_inbox d))"
  shows "d' = d\<lparr>cd_inbox := cd_inbox d @ map (inbox_row_of now) cs\<rparr> \<and> distinct (map ib_operation (cd_inbox d')) \<and> (cs \<noteq> [] \<longrightarrow> 0 \<le> now)"
  using assms
proof (induction cs arbitrary: d)
  case (Cons c cs)
  from Cons.prems(1) obtain d1 where d1: "insert_change_row now c d = Inr d1" "fold_result (insert_change_row now) cs d1 = Inr d'"
    by (auto elim: rbind_InrE)
  from d1(1) have *: "d1 = d\<lparr>cd_inbox := cd_inbox d @ [inbox_row_of now c]\<rparr>" "0 \<le> now" "ch_operation c \<notin> ib_operation ` set (cd_inbox d)"
    by (auto simp: insert_change_row_def list_ex_iff split: if_splits)
  with Cons.prems(2) have "distinct (map ib_operation (cd_inbox d1))" by (simp add: inbox_row_of_def)
  note IH = Cons.IH [OF d1(2) this]
  have "d' = d\<lparr>cd_inbox := cd_inbox d @ map (inbox_row_of now) (c # cs)\<rparr>" using conjunct1 [OF IH] by (simp add: *(1))
  then show ?case using conjunct1 [OF conjunct2 [OF IH]] *(2) by blast
qed simp

lemma inbox_row_of_ok:
  assumes "validateInboxChange x c = Inr ()" and "0 \<le> now"
  shows "inbox_row_ok x (inbox_row_of now c)" "change_of (inbox_row_of now c) = c"
proof -
  have "ch_state c = []" "ch_type c = ObjectNote \<or> ch_type c = ObjectFolder"
    "ch_type c = ObjectNote \<longrightarrow> blob_length (ch_blob c) = 32" "ch_type c = ObjectFolder \<longrightarrow> ch_blob c = None"
    using assms(1) by (auto simp: validateInboxChange_def known_object_type_def split: if_splits)
  then have "nullableBytes (clone_bytes (ch_blob c)) = ch_blob c"
    by (cases "ch_blob c") (auto simp: blob_length_def clone_bytes_def nullableBytes_def)
  with \<open>ch_state c = []\<close> show "change_of (inbox_row_of now c) = c" by (simp add: change_of_def inbox_row_of_def)
  with assms show "inbox_row_ok x (inbox_row_of now c)" by (simp add: inbox_row_ok_def inbox_times_valid_def inbox_row_of_def)
qed

definition ingested :: "int \<Rightarrow> nat \<Rightarrow> client_change list \<Rightarrow> client_db \<Rightarrow> client_db" where
  "ingested now to cs d = set_downloaded to (d\<lparr>cd_inbox := cd_inbox d @ map (inbox_row_of now) cs\<rparr>)"

text \<open>A page is either the next one, and stored, or an exact replay of stored rows.\<close>

lemma IngestPullPageE:
  assumes "IngestPullPage x now from to cs d = (None, d')" and inv: "cursors_ok d" "inbox_ok x d"
  obtains (replay) "d' = d" "from < downloaded_of d" "to \<le> downloaded_of d"
      "\<forall>c\<in>set cs. \<exists>r. inbox_at d (ch_cursor c) = Some r \<and> sameChangePayload (change_of r) c"
  | (next_page) "from = downloaded_of d" "to = from + length cs" "to \<le> MaxInt64" "d' = ingested now to cs d"
      "map ch_cursor cs = [Suc from..<Suc to]" "\<forall>c\<in>set cs. validateInboxChange x c = Inr ()"
      "distinct (map ib_operation (cd_inbox d'))" "cs \<noteq> [] \<longrightarrow> 0 \<le> now"
proof -
  from assms(1) have range: "to \<le> MaxInt64" "from \<le> to" "length cs = to - from" and page: "check_page x from cs = Inr ()"
    and tx: "ingest_page x now from to cs d = Inr d'"
    by (auto simp: IngestPullPage_def WithTransaction_def split: if_splits sum.splits)
  then have to: "to = from + length cs" by simp
  note read = cursors_read [OF inv(1)]
  have replays: "check_replay x d cs = Inr () \<Longrightarrow> \<forall>c\<in>set cs. \<exists>r. inbox_at d (ch_cursor c) = Some r \<and> sameChangePayload (change_of r) c"
  proof (induction cs)
    case (Cons c cs)
    from Cons.prems obtain r where "inbox_at d (ch_cursor c) = Some r" "sameChangePayload (change_of r) c" "check_replay x d cs = Inr ()"
      by (auto simp: inboxItemTx_def scan_option_def dest!: scanned_row elim!: rbind_InrE split: option.splits if_splits)
    with Cons.IH show ?case by auto
  qed simp
  show thesis
  proof (cases "from < downloaded_of d")
    case True
    with tx show thesis using replay replays by (auto simp: ingest_page_def read(1) elim!: rbind_InrE split: if_splits)
  next
    case False
    with tx obtain d1 where *: "from = downloaded_of d" "fold_result (insert_change_row now) cs d = Inr d1"
      "d' = (if to \<noteq> downloaded_of d then set_downloaded to d1 else d1)"
      by (auto simp: ingest_page_def read(1) elim!: rbind_InrE split: if_splits)
    have rows: "d1 = d\<lparr>cd_inbox := cd_inbox d @ map (inbox_row_of now) cs\<rparr>" "distinct (map ib_operation (cd_inbox d1))" "cs \<noteq> [] \<longrightarrow> 0 \<le> now"
      using insert_rows [OF *(2)] inv(2) unfolding inbox_ok_def by blast+
    have "cd_state d ''downloaded_cursor'' = Some (decimal (downloaded_of d))"
      using inv(1) cursor_reads(1) by (auto simp: cursors_ok_def cursor_is_def)
    then have "d' = ingested now to cs d"
      using *(3) rows(1) by (auto simp: ingested_def set_downloaded_def fun_upd_idem)
    moreover from this have "distinct (map ib_operation (cd_inbox d'))" using rows(1,2) by (simp add: ingested_def set_downloaded_def)
    ultimately show thesis
      using next_page [OF *(1) to range(1)] check_page_Inr [OF page] rows(3) to by blast
  qed
qed

lemma ingested_keeps:
  assumes inv: "cursors_ok d" "inbox_ok x d" and "from = downloaded_of d" and to: "to = from + length cs" "to \<le> MaxInt64"
    and cs: "map ch_cursor cs = [Suc from..<Suc to]" "\<forall>c\<in>set cs. validateInboxChange x c = Inr ()"
    and ops: "distinct (map ib_operation (cd_inbox (ingested now to cs d)))" "cs \<noteq> [] \<longrightarrow> 0 \<le> now"
  shows "cursors_ok (ingested now to cs d) \<and> inbox_ok x (ingested now to cs d) \<and> downloaded_of (ingested now to cs d) = to \<and>
    confirmed_of (ingested now to cs d) = confirmed_of d"
proof -
  let ?d = "d\<lparr>cd_inbox := cd_inbox d @ map (inbox_row_of now) cs\<rparr>"
  have same: "cursors_ok ?d = cursors_ok d" "downloaded_of ?d = downloaded_of d" "confirmed_of ?d = confirmed_of d"
    by (rule cursor_fields; simp)+
  have c: "cursors_ok ?d" using same(1) inv(1) by simp
  note set = set_cursors [OF c to(2)]
  have cursors: "cursors_ok (ingested now to cs d)" "downloaded_of (ingested now to cs d) = to" "confirmed_of (ingested now to cs d) = confirmed_of d"
    unfolding ingested_def using set same by simp_all
  from inv(2) obtain k where k: "k \<le> downloaded_of d" "map ib_cursor (cd_inbox d) = [Suc k..<Suc (downloaded_of d)]"
    by (auto simp: inbox_ok_def simp del: upt_Suc)
  have "map ib_cursor (map (inbox_row_of now) cs) = map ch_cursor cs" by (simp add: inbox_row_of_def)
  then have "map ib_cursor (cd_inbox (ingested now to cs d)) = [Suc k..<Suc (downloaded_of d)] @ [Suc from..<Suc to]"
    using k(2) cs(1) by (simp add: ingested_def set_downloaded_def del: upt_Suc)
  also have "\<dots> = [Suc k..<Suc to]"
    using k(1) assms(3) to(1) upt_add_eq_append [of "Suc k" "Suc from" "length cs"] by (simp del: upt_Suc)
  finally have "map ib_cursor (cd_inbox (ingested now to cs d)) = [Suc k..<Suc to]" .
  moreover have "k \<le> to" using k(1) assms(3) to(1) by simp
  moreover have "\<forall>r\<in>set (cd_inbox (ingested now to cs d)). inbox_row_ok x r"
    using inv(2) inbox_row_of_ok(1) cs(2) ops(2) by (auto simp: ingested_def set_downloaded_def inbox_ok_def)
  ultimately show ?thesis using cursors ops(1) unfolding inbox_ok_def cursors(2) by blast
qed

end
