(* ===== verification/Client_Plan_Keeps.thy ===== *)
theory Client_Plan_Keeps
  imports Client_Inbox_Keeps
begin

text \<open>
  The invariant of the apply plans. A plan covers a gap-free range of cursors, one step each; at most one
  plan is active; a completed plan has only applied steps whose revisions the client knows. The states of
  a plan that applies one note ahead of its turn, of its inbox row and of its step move together: the
  triggers of the schema let every single statement only move along \<open>link_states\<close>.
\<close>

section \<open>Plans and steps\<close>

lemma step_at_plan: "step_at d p n = row_at st_index (plan_steps d p) n"
proof -
  have "row_at stkey ss (p, n) = row_at st_index (filter (\<lambda>s. st_plan s = p) ss) n" for ss
    by (induction ss) (auto simp: stkey_def)
  then show ?thesis by (simp add: step_at_def plan_steps_def)
qed

definition plan_fits :: "client_db \<Rightarrow> plan_row \<Rightarrow> bool" where
  "plan_fits d plan \<longleftrightarrow>
     map st_index (plan_steps d (ap_id plan)) = [0..<length (plan_steps d (ap_id plan))] \<and>
     map st_cursor (plan_steps d (ap_id plan)) = [Suc (ap_from plan)..<Suc (ap_through plan)] \<and>
     ap_from plan < ap_through plan \<and> ap_through plan \<le> MaxInt64"

definition step_row_ok :: "ext \<Rightarrow> step_row \<Rightarrow> bool" where
  "step_row_ok x s \<longleftrightarrow>
     validOperationID x (st_operation s) \<and> validObjectID x (st_object s) \<and> 0 < st_revision s \<and> st_revision s \<le> MaxInt64"

definition plans_ok :: "ext \<Rightarrow> client_db \<Rightarrow> bool" where
  "plans_ok x d \<longleftrightarrow>
     distinct (map ap_id (cd_plans d)) \<and> length (filter active_plan (cd_plans d)) \<le> 1 \<and>
     (\<forall>plan\<in>set (cd_plans d). plan_fits d plan) \<and>
     (\<forall>s\<in>set (cd_steps d). st_plan s \<in> ap_id ` set (cd_plans d) \<and> step_row_ok x s)"

definition completed_known :: "client_db \<Rightarrow> bool" where
  "completed_known d \<longleftrightarrow>
     (\<forall>s\<in>set (cd_steps d). plan_is d (st_plan s) PlanCompleted \<longrightarrow>
        st_applied s \<and> st_revision s \<le> baseline_revision d (st_object s))"

text \<open>The states a linked plan, its row and its step can be in together.\<close>

definition link_states :: "(plan_status \<times> inbox_state \<times> bool) set" where
  "link_states =
     {(PlanPrepared, InboxPending, False), (PlanPrepared, InboxApplying, False), (PlanApplying, InboxApplying, False),
      (PlanApplying, InboxApplying, True), (PlanApplying, InboxApplied, True), (PlanCompleted, InboxApplied, True),
      (PlanFailed, InboxPending, False)}"

definition link_fits :: "client_db \<Rightarrow> uuid \<Rightarrow> nat \<Rightarrow> bool" where
  "link_fits d p c \<longleftrightarrow>
     (\<exists>plan r s. plan_at d p = Some plan \<and> inbox_at d c = Some r \<and> plan_steps d p = [s] \<and>
        s\<lparr>st_applied := False\<rparr> = step_of_row p r \<and> Suc (ap_from plan) = c \<and> ap_through plan = c \<and>
        (ap_status plan, ib_state r, st_applied s) \<in> link_states)"

definition links_ok :: "client_db \<Rightarrow> bool" where
  "links_ok d \<longleftrightarrow>
     distinct (map fst (cd_links d)) \<and> distinct (map snd (cd_links d)) \<and> (\<forall>(p, c)\<in>set (cd_links d). link_fits d p c)"

lemma link_lookups:
  assumes "links_ok d" and "(p, c) \<in> set (cd_links d)"
  shows "link_cursor d p = Some c" "link_of d c = Some p"
proof -
  from assms have distinct: "distinct (map fst (cd_links d))" "distinct (map snd (cd_links d))" by (simp_all add: links_ok_def)
  show "link_cursor d p = Some c" using assms(2) distinct(1) by (simp add: link_cursor_def)
  have "distinct (map snd ls) \<Longrightarrow> (p, c) \<in> set ls \<Longrightarrow> map_option fst (find (\<lambda>(_, c'). c' = c) ls) = Some p" for ls :: "(uuid \<times> nat) list"
    by (induction ls) (auto simp: rev_image_eqI)
  then show "link_of d c = Some p" using assms(2) distinct(2) by (simp add: link_of_def)
qed

lemma link_cursorD: "link_cursor d p = Some c \<Longrightarrow> (p, c) \<in> set (cd_links d)"
  by (simp add: link_cursor_def map_of_SomeD)

lemma link_fits_step:
  assumes "plan_steps d p = [s]" and "s\<lparr>st_applied := False\<rparr> = step_of_row p r"
  shows "first_step_applied d p = Some (st_applied s)" "st_plan s = p" "step_at d p 0 = Some s"
proof -
  have "st_index (s\<lparr>st_applied := False\<rparr>) = 0" "st_plan (s\<lparr>st_applied := False\<rparr>) = p" unfolding assms(2) by (simp_all add: step_of_row_def)
  then have "st_index s = 0" "st_plan s = p" by simp_all
  with assms(1) show "first_step_applied d p = Some (st_applied s)" "st_plan s = p" "step_at d p 0 = Some s"
    by (simp_all add: first_step_applied_def step_at_plan)
qed

section \<open>Frames\<close>

lemma plan_frames:
  assumes "cd_plans d' = cd_plans d" and "cd_steps d' = cd_steps d"
  shows "plans_ok x d' = plans_ok x d" "plan_at d' p = plan_at d p" "plan_steps d' p = plan_steps d p" "step_at d' p n = step_at d p n"
    "plan_is d' p status = plan_is d p status" "first_step_applied d' p = first_step_applied d p"
  using assms by (simp_all add: plans_ok_def plan_fits_def plan_at_def plan_steps_def step_at_def plan_is_def first_step_applied_def)

lemma links_frame:
  assumes "cd_plans d' = cd_plans d" "cd_steps d' = cd_steps d" "cd_inbox d' = cd_inbox d" "cd_links d' = cd_links d"
  shows "links_ok d' = links_ok d"
  using assms by (simp add: links_ok_def link_fits_def plan_frames [OF assms(1,2)] inbox_at_def)

lemma completed_frame:
  assumes "cd_plans d' = cd_plans d" "cd_steps d' = cd_steps d" and "\<And>i. baseline_revision d i \<le> baseline_revision d' i"
  shows "completed_known d \<Longrightarrow> completed_known d'"
  using assms(3) by (auto simp: completed_known_def plan_frames(5) [OF assms(1,2)] assms(2) intro: order_trans)

section \<open>Moving rows\<close>

definition moved_rows :: "(inbox_row \<Rightarrow> bool) \<Rightarrow> (inbox_row \<Rightarrow> inbox_row) \<Rightarrow> client_db \<Rightarrow> client_db" where
  "moved_rows P f d = d\<lparr>cd_inbox := update_rows P f (cd_inbox d)\<rparr>"

lemma move_inbox_Inr:
  "move_inbox P to f d = Inr (n, d') \<longleftrightarrow>
     (\<forall>r\<in>set (cd_inbox d). P r \<longrightarrow> inbox_guard d r to) \<and> n = rows_affected P (cd_inbox d) \<and> d' = moved_rows P f d"
  by (auto simp: move_inbox_def moved_rows_def list_ex_iff)

lemma moved_rows_fields [simp]:
  "cd_outbox (moved_rows P f d) = cd_outbox d" "cd_plans (moved_rows P f d) = cd_plans d" "cd_steps (moved_rows P f d) = cd_steps d"
  "cd_links (moved_rows P f d) = cd_links d" "cd_state (moved_rows P f d) = cd_state d" "cd_baselines (moved_rows P f d) = cd_baselines d"
  "cd_inbox (moved_rows P f d) = update_rows P f (cd_inbox d)" "cd_deps (moved_rows P f d) = cd_deps d"
  "cd_intents (moved_rows P f d) = cd_intents d" "cd_conflicts (moved_rows P f d) = cd_conflicts d"
  by (simp_all add: moved_rows_def)

lemma moved_rows_at:
  assumes "\<And>r. P r \<Longrightarrow> inbox_payload (f r) = inbox_payload r"
  shows "inbox_at (moved_rows P f d) c = map_option (\<lambda>r. if P r then f r else r) (inbox_at d c)"
proof -
  have "P r \<Longrightarrow> ib_cursor (f r) = ib_cursor r" for r by (rule inbox_payload_fields(1)) (rule assms)
  then show ?thesis by (simp add: inbox_at_def row_at_update)
qed

text \<open>Every state change the guards let pass leads to states that fit.\<close>

lemma moved_links:
  assumes inv: "links_ok d" and guard: "\<forall>r\<in>set (cd_inbox d). P r \<longrightarrow> inbox_guard d r to"
    and f: "\<And>r. P r \<Longrightarrow> inbox_payload (f r) = inbox_payload r" "\<And>r. P r \<Longrightarrow> ib_state (f r) = to"
  shows "links_ok (moved_rows P f d)"
proof -
  have "link_fits (moved_rows P f d) p c" if pc: "(p, c) \<in> set (cd_links d)" for p c
  proof -
    from inv pc have "link_fits d p c" by (auto simp: links_ok_def)
    then obtain plan r s where *: "plan_at d p = Some plan" "inbox_at d c = Some r" "plan_steps d p = [s]"
      "s\<lparr>st_applied := False\<rparr> = step_of_row p r" "Suc (ap_from plan) = c" "ap_through plan = c"
      "(ap_status plan, ib_state r, st_applied s) \<in> link_states"
      unfolding link_fits_def by blast
    let ?r = "if P r then f r else r"
    have pay: "inbox_payload ?r = inbox_payload r" using f(1) by simp
    have mem: "r \<in> set (cd_inbox d)" "ib_cursor r = c" using inbox_at_SomeD [OF *(2)] by simp_all
    have "(ap_status plan, ib_state ?r, st_applied s) \<in> link_states"
    proof (cases "P r")
      case True
      with guard mem have "inbox_guard d r to" by blast
      then show ?thesis
        using True f(2) link_lookups(2) [OF inv pc] *(1) link_fits_step(1) [OF *(3,4)] mem(2)
        by (auto simp: inbox_guard_def link_states_def)
    qed (use *(7) in simp)
    moreover have "step_of_row p ?r = step_of_row p r" by (rule inbox_payload_fields(7) [OF pay])
    ultimately show ?thesis
      unfolding link_fits_def using *
      by (simp add: moved_rows_at [where f = f, OF f(1)] plan_frames [of "moved_rows P f d" d])
  qed
  then show ?thesis using inv by (auto simp: links_ok_def)
qed

section \<open>Moving plans\<close>

definition with_status :: "uuid \<Rightarrow> plan_status \<Rightarrow> plan_status \<Rightarrow> (plan_row \<Rightarrow> plan_row) \<Rightarrow> client_db \<Rightarrow> client_db" where
  "with_status p from to f d =
     d\<lparr>cd_plans := update_rows (\<lambda>q. ap_id q = p \<and> ap_status q = from) (\<lambda>q. (f q)\<lparr>ap_status := to\<rparr>) (cd_plans d)\<rparr>"

lemma with_status_fields [simp]:
  "cd_outbox (with_status p a b f d) = cd_outbox d" "cd_steps (with_status p a b f d) = cd_steps d"
  "cd_links (with_status p a b f d) = cd_links d" "cd_state (with_status p a b f d) = cd_state d"
  "cd_baselines (with_status p a b f d) = cd_baselines d" "cd_inbox (with_status p a b f d) = cd_inbox d"
  "cd_deps (with_status p a b f d) = cd_deps d" "cd_intents (with_status p a b f d) = cd_intents d"
  "cd_conflicts (with_status p a b f d) = cd_conflicts d" "baseline_revision (with_status p a b f d) i = baseline_revision d i"
  by (simp_all add: with_status_def baseline_revision_def baseline_at_def)

definition plan_key where "plan_key q = (ap_id q, ap_from q, ap_through q)"

lemma plan_at_SomeD: "plan_at d p = Some plan \<Longrightarrow> plan \<in> set (cd_plans d) \<and> ap_id plan = p"
  by (auto simp: plan_at_def dest: row_at_SomeD)

lemma plan_at_unique: "plans_ok x d \<Longrightarrow> plan \<in> set (cd_plans d) \<Longrightarrow> plan_at d (ap_id plan) = Some plan"
  by (simp add: plans_ok_def plan_at_def row_at_unique)

lemma set_plan_status_Inr:
  assumes "set_plan_status p from to f e d = Inr d'" and "plans_ok x d"
  shows "d' = with_status p from to f d"
    "\<exists>plan. plan_at d p = Some plan \<and> ap_status plan = from \<and> plan_guard d plan to"
proof -
  let ?P = "\<lambda>q. ap_id q = p \<and> ap_status q = from"
  from assms(1) show "d' = with_status p from to f d"
    by (simp add: set_plan_status_def with_status_def Let_def split: if_splits)
  from assms(1) have one: "rows_affected ?P (cd_plans d) = 1" and guard: "\<forall>q\<in>set (cd_plans d). ?P q \<longrightarrow> plan_guard d q to"
    by (simp_all add: set_plan_status_def Let_def list_ex_iff split: if_splits)
  from one have "rows_affected ?P (cd_plans d) \<noteq> 0" by simp
  then obtain plan where plan: "plan \<in> set (cd_plans d)" "?P plan" unfolding rows_affected_0_iff by blast
  with guard plan_at_unique [OF assms(2) plan(1)]
  show "\<exists>plan. plan_at d p = Some plan \<and> ap_status plan = from \<and> plan_guard d plan to" by auto
qed

lemma plan_at_with_status:
  assumes f: "\<And>q. plan_key (f q) = plan_key q"
  shows "plan_at (with_status p from to f d) i =
    map_option (\<lambda>q. if ap_id q = p \<and> ap_status q = from then (f q)\<lparr>ap_status := to\<rparr> else q) (plan_at d i)"
proof -
  have "ap_id ((f q)\<lparr>ap_status := to\<rparr>) = ap_id q" for q using f [of q] by (simp add: plan_key_def)
  then show ?thesis by (simp add: plan_at_def with_status_def row_at_update)
qed

lemma length_filter_key:
  assumes "distinct (map key xs)" and "\<And>x. x \<in> set xs \<Longrightarrow> P x \<Longrightarrow> key x = k"
  shows "length (filter P xs) \<le> 1"
proof -
  have "distinct (map key (filter P xs))" using assms(1) by (induction xs) auto
  moreover have "set (map key (filter P xs)) \<subseteq> {k}" using assms(2) by auto
  then have "card (set (map key (filter P xs))) \<le> 1" using card_mono [of "{k}"] by simp
  ultimately show ?thesis using distinct_card [of "map key (filter P xs)"] by simp
qed

lemma only_active:
  assumes "plans_ok x d" and "a \<in> set (cd_plans d)" "active_plan a" and "b \<in> set (cd_plans d)" "active_plan b"
  shows "a = b"
proof -
  have "length (filter active_plan (cd_plans d)) \<le> 1" using assms(1) by (simp add: plans_ok_def)
  moreover have "a \<in> set (filter active_plan (cd_plans d))" "b \<in> set (filter active_plan (cd_plans d))" using assms by simp_all
  ultimately show ?thesis by (cases "filter active_plan (cd_plans d)") auto
qed

lemma with_status_plans:
  assumes inv: "plans_ok x d" and f: "\<And>q. plan_key (f q) = plan_key q"
    and active: "active_plan (plan\<lparr>ap_status := to\<rparr>) \<Longrightarrow> \<forall>q\<in>set (cd_plans d). active_plan q \<longrightarrow> ap_id q = p"
  shows "plans_ok x (with_status p from to f d)"
proof -
  define g where "g = (\<lambda>q. if ap_id q = p \<and> ap_status q = from then (f q)\<lparr>ap_status := to\<rparr> else q)"
  let ?d = "with_status p from to f d"
  have rows: "cd_plans ?d = map g (cd_plans d)" by (simp add: with_status_def update_rows_def g_def)
  have "plan_key (g q) = plan_key q" for q using f [of q] by (simp add: g_def plan_key_def)
  then have key: "ap_id (g q) = ap_id q" "ap_from (g q) = ap_from q" "ap_through (g q) = ap_through q" for q
    by (simp_all add: plan_key_def)
  have steps: "plan_steps ?d i = plan_steps d i" for i by (simp add: plan_steps_def)
  have ids: "map ap_id (cd_plans ?d) = map ap_id (cd_plans d)" unfolding rows by (simp add: key)
  have "length (filter active_plan (cd_plans ?d)) \<le> 1"
  proof (cases "active_plan (plan\<lparr>ap_status := to\<rparr>)")
    case True
    have "ap_id q = p" if "q \<in> set (cd_plans ?d)" "active_plan q" for q
    proof -
      from that(1) obtain q0 where q0: "q0 \<in> set (cd_plans d)" "q = g q0" unfolding rows by auto
      show ?thesis
      proof (cases "ap_id q0 = p")
        case False
        then have "g q0 = q0" by (simp add: g_def)
        with q0 that(2) active [OF True] show ?thesis by auto
      qed (simp add: q0 key)
    qed
    moreover have "distinct (map ap_id (cd_plans ?d))" using inv unfolding ids by (simp add: plans_ok_def)
    ultimately show ?thesis by (rule length_filter_key [rotated])
  next
    case False
    then have "active_plan (g q) \<Longrightarrow> active_plan q" for q by (auto simp: g_def active_plan_def split: if_splits)
    then have "length (filter active_plan (map g qs)) \<le> length (filter active_plan qs)" for qs
      by (induction qs) (auto intro: le_SucI)
    then show ?thesis using inv unfolding rows plans_ok_def by (meson order_trans)
  qed
  moreover have "ap_id ` set (cd_plans ?d) = ap_id ` set (cd_plans d)" unfolding rows by (simp add: image_image key)
  moreover have "\<forall>q\<in>set (cd_plans ?d). plan_fits ?d q"
    using inv unfolding rows plans_ok_def plan_fits_def steps by (simp add: key del: upt_Suc)
  ultimately show ?thesis using inv ids unfolding plans_ok_def by simp
qed

lemma with_status_links:
  assumes inv: "links_ok d" and f: "\<And>q. plan_key (f q) = plan_key q"
    and guard: "\<And>plan. plan_at d p = Some plan \<Longrightarrow> ap_status plan = from \<Longrightarrow> plan_guard d plan to"
  shows "links_ok (with_status p from to f d)"
proof -
  let ?d = "with_status p from to f d"
  have same: "plan_steps ?d i = plan_steps d i" "inbox_at ?d c = inbox_at d c" for i c
    by (simp_all add: plan_steps_def inbox_at_def)
  have "link_fits ?d q c" if qc: "(q, c) \<in> set (cd_links d)" for q c
  proof -
    from inv qc have "link_fits d q c" by (auto simp: links_ok_def)
    then obtain plan r s where *: "plan_at d q = Some plan" "inbox_at d c = Some r" "plan_steps d q = [s]"
      "s\<lparr>st_applied := False\<rparr> = step_of_row q r" "Suc (ap_from plan) = c" "ap_through plan = c"
      "(ap_status plan, ib_state r, st_applied s) \<in> link_states"
      unfolding link_fits_def by blast
    have id: "ap_id plan = q" using plan_at_SomeD [OF *(1)] by simp
    let ?plan = "if ap_id plan = p \<and> ap_status plan = from then (f plan)\<lparr>ap_status := to\<rparr> else plan"
    have key: "ap_from ?plan = ap_from plan" "ap_through ?plan = ap_through plan" using f [of plan] by (simp_all add: plan_key_def)
    have "(ap_status ?plan, ib_state r, st_applied s) \<in> link_states"
    proof (cases "ap_id plan = p \<and> ap_status plan = from")
      case True
      with guard *(1) id have "plan_guard d plan to" by blast
      then show ?thesis
        using True link_lookups(1) [OF inv qc] *(2) id link_fits_step(1) [OF *(3,4)]
        by (auto simp: plan_guard_def link_states_def)
    qed (use *(7) in auto)
    then show ?thesis
      unfolding link_fits_def using * key by (simp add: plan_at_with_status [OF f] same)
  qed
  then show ?thesis using inv by (auto simp: links_ok_def)
qed

lemma with_status_completed:
  assumes inv: "completed_known d" and f: "\<And>q. plan_key (f q) = plan_key q"
    and finished: "to = PlanCompleted \<Longrightarrow> \<forall>s\<in>set (plan_steps d p). st_applied s \<and> st_revision s \<le> baseline_revision d (st_object s)"
  shows "completed_known (with_status p from to f d)"
  unfolding completed_known_def with_status_fields
proof (intro ballI impI)
  fix s assume s: "s \<in> set (cd_steps d)" "plan_is (with_status p from to f d) (st_plan s) PlanCompleted"
  have id: "ap_id ((f q)\<lparr>ap_status := to\<rparr>) = ap_id q" for q using f [of q] by (simp add: plan_key_def)
  from s(2) have "plan_is d (st_plan s) PlanCompleted \<or> st_plan s = p \<and> to = PlanCompleted"
    by (auto simp: plan_is_def list_ex_iff with_status_def set_update_rows f id split: if_splits)
  then show "st_applied s \<and> st_revision s \<le> baseline_revision d (st_object s)"
    using inv finished s(1) by (auto simp: completed_known_def plan_steps_def)
qed

section \<open>Applying steps\<close>

definition applied_steps :: "(step_row \<Rightarrow> bool) \<Rightarrow> client_db \<Rightarrow> client_db" where
  "applied_steps P d = d\<lparr>cd_steps := update_rows P (\<lambda>s. s\<lparr>st_applied := True\<rparr>) (cd_steps d)\<rparr>"

lemma applied_steps_fields [simp]:
  "cd_outbox (applied_steps P d) = cd_outbox d" "cd_plans (applied_steps P d) = cd_plans d"
  "cd_links (applied_steps P d) = cd_links d" "cd_state (applied_steps P d) = cd_state d"
  "cd_baselines (applied_steps P d) = cd_baselines d" "cd_inbox (applied_steps P d) = cd_inbox d"
  "cd_deps (applied_steps P d) = cd_deps d" "cd_intents (applied_steps P d) = cd_intents d"
  "cd_conflicts (applied_steps P d) = cd_conflicts d" "baseline_revision (applied_steps P d) i = baseline_revision d i"
  by (simp_all add: applied_steps_def baseline_revision_def baseline_at_def)

lemma apply_step_rows_Inr:
  "apply_step_rows P d = Inr (n, d') \<longleftrightarrow>
     (\<forall>s\<in>set (cd_steps d). P s \<longrightarrow> link_cursor d (st_plan s) = None \<or> \<not> st_applied s \<and> step_guard d (st_plan s)) \<and>
     n = rows_affected P (cd_steps d) \<and> d' = applied_steps P d"
  by (auto simp: apply_step_rows_def applied_steps_def list_ex_iff)

lemma applied_plan_steps:
  "plan_steps (applied_steps P d) p = map (\<lambda>s. if P s then s\<lparr>st_applied := True\<rparr> else s) (plan_steps d p)"
proof -
  have "filter (\<lambda>s. st_plan s = p) (update_rows P (\<lambda>s. s\<lparr>st_applied := True\<rparr>) ss) =
      map (\<lambda>s. if P s then s\<lparr>st_applied := True\<rparr> else s) (filter (\<lambda>s. st_plan s = p) ss)" for ss
    by (induction ss) auto
  then show ?thesis by (simp add: plan_steps_def applied_steps_def)
qed

lemma applied_steps_plans: "plans_ok x d \<Longrightarrow> plans_ok x (applied_steps P d)"
proof -
  have "map st_index (plan_steps (applied_steps P d) p) = map st_index (plan_steps d p)"
    "map st_cursor (plan_steps (applied_steps P d) p) = map st_cursor (plan_steps d p)"
    "length (plan_steps (applied_steps P d) p) = length (plan_steps d p)" for p
    unfolding applied_plan_steps by simp_all
  then have "plan_fits (applied_steps P d) plan = plan_fits d plan" for plan by (simp only: plan_fits_def)
  then show "plans_ok x d \<Longrightarrow> plans_ok x (applied_steps P d)"
    by (auto simp: plans_ok_def applied_steps_def set_update_rows step_row_ok_def)
qed

lemma applied_steps_links:
  assumes inv: "links_ok d"
    and guard: "\<forall>s\<in>set (cd_steps d). P s \<longrightarrow> link_cursor d (st_plan s) = None \<or> \<not> st_applied s \<and> step_guard d (st_plan s)"
  shows "links_ok (applied_steps P d)"
proof -
  have "link_fits (applied_steps P d) p c" if pc: "(p, c) \<in> set (cd_links d)" for p c
  proof -
    from inv pc have "link_fits d p c" by (auto simp: links_ok_def)
    then obtain plan r s where *: "plan_at d p = Some plan" "inbox_at d c = Some r" "plan_steps d p = [s]"
      "s\<lparr>st_applied := False\<rparr> = step_of_row p r" "Suc (ap_from plan) = c" "ap_through plan = c"
      "(ap_status plan, ib_state r, st_applied s) \<in> link_states"
      unfolding link_fits_def by blast
    let ?s = "if P s then s\<lparr>st_applied := True\<rparr> else s"
    have mem: "s \<in> set (cd_steps d)" "st_plan s = p"
      using *(3) by (auto simp: plan_steps_def dest!: arg_cong [where f = set])
    have "(ap_status plan, ib_state r, st_applied ?s) \<in> link_states"
    proof (cases "P s")
      case True
      with guard mem link_lookups(1) [OF inv pc] have "\<not> st_applied s" "step_guard d p" by auto
      then show ?thesis
        using True link_lookups(1) [OF inv pc] *(1,2) by (auto simp: step_guard_def link_states_def)
    qed (use *(7) in auto)
    moreover have "?s\<lparr>st_applied := False\<rparr> = step_of_row p r" using *(4) by simp
    moreover have "plan_steps (applied_steps P d) p = [?s]" unfolding applied_plan_steps *(3) by simp
    moreover have "plan_at (applied_steps P d) p = Some plan" "inbox_at (applied_steps P d) c = Some r"
      using *(1,2) by (simp_all add: plan_at_def inbox_at_def)
    ultimately show ?thesis unfolding link_fits_def using *(5,6) by blast
  qed
  then show ?thesis using inv by (auto simp: links_ok_def)
qed

lemma applied_steps_completed: "completed_known d \<Longrightarrow> completed_known (applied_steps P d)"
  unfolding completed_known_def applied_steps_fields
  by (auto simp: applied_steps_def set_update_rows plan_is_def)

end
