(* ===== verification/Client_Transactions.thy ===== *)
theory Client_Transactions
  imports Client_Plan_Keeps
begin

text \<open>
  The transactions on plans, inbox rows and cursors keep the invariant of the client's store, and what each
  leaves in the tables. The invariant joins the one of the outbox and the one of the inbox.
\<close>

definition inbox_inv :: "ext \<Rightarrow> client_db \<Rightarrow> bool" where
  "inbox_inv x d \<longleftrightarrow> cursors_ok d \<and> inbox_ok x d \<and> plans_ok x d \<and> links_ok d \<and> completed_known d"

definition outbox_inv :: "ext \<Rightarrow> client_db \<Rightarrow> bool" where
  "outbox_inv x d \<longleftrightarrow> outbox_ok x d \<and> accepted_known d \<and> baselines_ok x d"

definition client_inv :: "ext \<Rightarrow> client_db \<Rightarrow> bool" where
  "client_inv x d \<longleftrightarrow> outbox_inv x d \<and> inbox_inv x d"

text \<open>The outbox is left alone and no baseline is lowered.\<close>

lemma outbox_inv_frame:
  assumes "cd_outbox d' = cd_outbox d" "cd_deps d' = cd_deps d" "cd_intents d' = cd_intents d" "cd_conflicts d' = cd_conflicts d"
    and "cd_baselines d' = cd_baselines d"
  shows "outbox_inv x d' = outbox_inv x d"
  using assms
  by (simp add: outbox_inv_def outbox_ok_def deps_ok_def records_ok_def accepted_known_def baseline_revision_def baseline_at_def
      baselines_ok_def)

lemma inbox_inv_frame:
  assumes "cd_inbox d' = cd_inbox d" "cd_plans d' = cd_plans d" "cd_steps d' = cd_steps d" "cd_links d' = cd_links d"
    and "cd_state d' ''downloaded_cursor'' = cd_state d ''downloaded_cursor''"
    and "cd_state d' ''confirmed_cursor'' = cd_state d ''confirmed_cursor''"
    and "\<And>i. baseline_revision d i \<le> baseline_revision d' i" and "inbox_inv x d"
  shows "inbox_inv x d'"
proof -
  have cursors: "cursors_ok d' = cursors_ok d" using cursor_fields assms(5,6) by blast
  have "completed_known d'" using completed_frame [OF assms(2,3,7)] assms(8) by (simp add: inbox_inv_def)
  then show ?thesis
    using assms(8) inbox_frame [OF assms(1,5)] plan_frames(1) [OF assms(2,3)] links_frame [OF assms(2,3,1,4)] cursors
    by (simp add: inbox_inv_def)
qed

section \<open>A new plan\<close>

lemma no_steps: "plans_ok x d \<Longrightarrow> plan_at d p = None \<Longrightarrow> plan_steps d p = []"
  by (auto simp: plans_ok_def plan_steps_def plan_at_def row_at_None_iff filter_empty_conv)

definition add_plan :: "plan_row \<Rightarrow> step_row list \<Rightarrow> client_db \<Rightarrow> client_db" where
  "add_plan plan ss d = d\<lparr>cd_plans := cd_plans d @ [plan], cd_steps := cd_steps d @ ss\<rparr>"

lemma add_plan_fields [simp]:
  "cd_outbox (add_plan plan ss d) = cd_outbox d" "cd_links (add_plan plan ss d) = cd_links d" "cd_state (add_plan plan ss d) = cd_state d"
  "cd_baselines (add_plan plan ss d) = cd_baselines d" "cd_inbox (add_plan plan ss d) = cd_inbox d" "cd_deps (add_plan plan ss d) = cd_deps d"
  "cd_intents (add_plan plan ss d) = cd_intents d" "cd_conflicts (add_plan plan ss d) = cd_conflicts d"
  "cd_plans (add_plan plan ss d) = cd_plans d @ [plan]" "cd_steps (add_plan plan ss d) = cd_steps d @ ss"
  by (simp_all add: add_plan_def)

lemma add_plan_keeps:
  assumes inv: "inbox_inv x d" and fresh: "plan_at d (ap_id plan) = None" and idle: "\<not> list_ex active_plan (cd_plans d)"
    and status: "ap_status plan = PlanPrepared" and ss: "\<forall>s\<in>set ss. st_plan s = ap_id plan \<and> step_row_ok x s"
    and index: "map st_index ss = [0..<length ss]" and cursors: "map st_cursor ss = [Suc (ap_from plan)..<Suc (ap_through plan)]"
    and range: "ap_from plan < ap_through plan" "ap_through plan \<le> MaxInt64"
  shows "inbox_inv x (add_plan plan ss d)"
    "\<And>q. q \<noteq> ap_id plan \<Longrightarrow> plan_at (add_plan plan ss d) q = plan_at d q \<and> plan_steps (add_plan plan ss d) q = plan_steps d q"
    "plan_at (add_plan plan ss d) (ap_id plan) = Some plan" "plan_steps (add_plan plan ss d) (ap_id plan) = ss"
proof -
  let ?d = "add_plan plan ss d"
  from inv have plans: "plans_ok x d" and links: "links_ok d" and known: "completed_known d" by (simp_all add: inbox_inv_def)
  show other: "\<And>q. q \<noteq> ap_id plan \<Longrightarrow> plan_at ?d q = plan_at d q \<and> plan_steps ?d q = plan_steps d q"
    using ss by (auto simp: plan_at_def row_at_append plan_steps_def filter_empty_conv split: option.splits)
  show own: "plan_at ?d (ap_id plan) = Some plan"
    using fresh by (simp add: plan_at_def row_at_append)
  have all: "filter (\<lambda>s. st_plan s = ap_id plan) ss = ss" using ss by (simp add: filter_id_conv)
  have "plan_steps ?d (ap_id plan) = plan_steps d (ap_id plan) @ filter (\<lambda>s. st_plan s = ap_id plan) ss" by (simp add: plan_steps_def)
  then show steps: "plan_steps ?d (ap_id plan) = ss" unfolding all no_steps [OF plans fresh] by simp
  have new: "ap_id plan \<notin> ap_id ` set (cd_plans d)" using fresh by (simp add: plan_at_def row_at_None_iff)
  have "filter active_plan (cd_plans d) = []" using idle by (simp add: list_ex_iff filter_empty_conv)
  then have count: "length (filter active_plan (cd_plans ?d)) \<le> 1" by simp
  have fits: "plan_fits ?d q" if "q \<in> set (cd_plans ?d)" for q
  proof (cases "ap_id q = ap_id plan")
    case True
    have "q = plan"
    proof (rule ccontr)
      assume "q \<noteq> plan"
      with that have "ap_id q \<in> ap_id ` set (cd_plans d)" by simp
      with True new show False by simp
    qed
    then show ?thesis using index cursors range by (simp add: plan_fits_def steps del: upt_Suc)
  next
    case False
    with that plans have "plan_fits d q" by (auto simp: plans_ok_def)
    then show ?thesis using other [OF False] by (simp add: plan_fits_def del: upt_Suc)
  qed
  have "plans_ok x ?d" using plans new count fits ss unfolding plans_ok_def by auto
  moreover have "link_fits ?d q c" if "(q, c) \<in> set (cd_links d)" for q c
  proof -
    from links that have fit: "link_fits d q c" by (auto simp: links_ok_def)
    then have "q \<noteq> ap_id plan" using fresh by (auto simp: link_fits_def)
    with fit show ?thesis unfolding link_fits_def by (simp add: other inbox_at_def)
  qed
  then have "links_ok ?d" using links by (auto simp: links_ok_def)
  moreover have "completed_known ?d"
  proof -
    have "plan_is ?d p PlanCompleted = plan_is d p PlanCompleted" for p using status by (auto simp: plan_is_def)
    moreover have "plan_is d (ap_id plan) PlanCompleted = False" using new by (auto simp: plan_is_def list_ex_iff image_iff)
    ultimately show ?thesis using known ss by (auto simp: completed_known_def baseline_revision_def baseline_at_def)
  qed
  moreover have "cursors_ok ?d" "inbox_ok x ?d"
    using inv cursor_fields [of ?d d] inbox_frame [of ?d d x] by (simp_all add: inbox_inv_def)
  ultimately show "inbox_inv x ?d" by (simp add: inbox_inv_def)
qed

text \<open>The loop over the steps of a plan adds one row per change.\<close>

definition step_shows :: "step_row \<Rightarrow> client_change \<Rightarrow> bool" where
  "step_shows s c \<longleftrightarrow>
     st_cursor s = ch_cursor c \<and> st_object s = ch_object c \<and> st_revision s = ch_revision c \<and> st_operation s = ch_operation c"

lemma step_row_of_shows: "step_shows (step_row_of p n b c) c"
  by (simp add: step_shows_def step_row_of_def)

lemma step_row_of_ok: "step_change_valid x previous through c \<Longrightarrow> step_row_ok x (step_row_of p n b c)"
  by (simp add: step_row_ok_def step_row_of_def step_change_valid_def)

lemma insert_step_Inr: "insert_step s d = Inr d' \<Longrightarrow> d' = d\<lparr>cd_steps := cd_steps d @ [s]\<rparr>"
  by (auto simp: insert_step_def split: if_splits)

lemma plan_loop_rows:
  assumes "plan_loop x p through n previous projected cs d = Inr (reached, d')"
  shows "\<exists>ss. d' = d\<lparr>cd_steps := cd_steps d @ ss\<rparr> \<and> list_all2 step_shows ss cs \<and> reached = previous + length cs \<and>
    map st_index ss = [n..<n + length cs] \<and> map st_cursor ss = [Suc previous..<Suc (previous + length cs)] \<and>
    (\<forall>s\<in>set ss. st_plan s = p \<and> step_row_ok x s)"
  using assms
proof (induction cs arbitrary: n previous projected d)
  case (Cons c cs)
  from Cons.prems have valid: "step_change_valid x previous through c" by (auto split: if_splits)
  then have cursor: "ch_cursor c = Suc previous" by (simp add: step_change_valid_def)
  from Cons.prems valid obtain b projected' d1 where step: "insert_step (step_row_of p n b c) d = Inr d1"
    "plan_loop x p through (Suc n) (ch_cursor c) projected' cs d1 = Inr (reached, d')"
    by (auto simp: Let_def elim!: rbind_InrE split: if_splits)
  from Cons.IH [OF step(2)] obtain ss where ss: "d' = d1\<lparr>cd_steps := cd_steps d1 @ ss\<rparr>" "list_all2 step_shows ss cs"
    "reached = Suc previous + length cs" "map st_index ss = [Suc n..<Suc n + length cs]"
    "map st_cursor ss = [Suc (Suc previous)..<Suc (Suc previous + length cs)]" "\<forall>s\<in>set ss. st_plan s = p \<and> step_row_ok x s"
    unfolding cursor by auto
  have d1: "d1 = d\<lparr>cd_steps := cd_steps d @ [step_row_of p n b c]\<rparr>" by (rule insert_step_Inr [OF step(1)])
  show ?case
  proof (intro exI conjI)
    show "d' = d\<lparr>cd_steps := cd_steps d @ step_row_of p n b c # ss\<rparr>" by (simp add: ss(1) d1)
    show "list_all2 step_shows (step_row_of p n b c # ss) (c # cs)" using ss(2) by (simp add: step_row_of_shows)
    show "map st_index (step_row_of p n b c # ss) = [n..<n + length (c # cs)]"
      using ss(4) by (simp add: step_row_of_def upt_conv_Cons del: upt_Suc)
    show "map st_cursor (step_row_of p n b c # ss) = [Suc previous..<Suc (previous + length (c # cs))]"
      using ss(5) by (simp add: step_row_of_def cursor upt_conv_Cons del: upt_Suc)
    show "\<forall>s\<in>set (step_row_of p n b c # ss). st_plan s = p \<and> step_row_ok x s"
      using ss(6) step_row_of_ok [OF valid] by (simp add: step_row_of_def)
  qed (use ss(3) in simp)
qed simp

text \<open>What a created plan leaves.\<close>

definition prepared :: "uuid \<Rightarrow> nat \<Rightarrow> nat \<Rightarrow> int \<Rightarrow> plan_row" where
  "prepared p from through now =
     \<lparr>ap_id = p, ap_from = from, ap_through = through, ap_status = PlanPrepared, ap_created = now, ap_completed = None\<rparr>"

lemma insert_plan_Inr:
  assumes "insert_plan p from through now d = Inr d'"
  shows "d' = d\<lparr>cd_plans := cd_plans d @ [prepared p from through now]\<rparr>" "plan_at d p = None" "\<not> list_ex active_plan (cd_plans d)"
  using assms by (auto simp: insert_plan_def prepared_def split: if_splits)

lemma create_planE:
  assumes "create_plan x now plan d = Inr d'" and "cursors_ok d" and "pl_through plan \<le> MaxInt64"
  obtains ss where "d' = add_plan (prepared (pl_id plan) (pl_from plan) (pl_through plan) now) ss d" "plan_at d (pl_id plan) = None"
    "\<not> list_ex active_plan (cd_plans d)" "list_all2 step_shows ss (pl_steps plan)" "confirmed_of d = pl_from plan"
    "pl_through plan = pl_from plan + length (pl_steps plan)" "pl_steps plan \<noteq> []"
    "map st_index ss = [0..<length ss]" "map st_cursor ss = [Suc (pl_from plan)..<Suc (pl_through plan)]"
    "\<forall>s\<in>set ss. st_plan s = pl_id plan \<and> step_row_ok x s"
proof -
  note read = cursors_read(3) [OF assms(2)]
  from assms(1) obtain d1 reached where *: "confirmed_of d = pl_from plan" "insert_plan (pl_id plan) (pl_from plan) (pl_through plan) now d = Inr d1"
    "plan_loop x (pl_id plan) (pl_through plan) 0 (pl_from plan) Map.empty (pl_steps plan) d1 = Inr (reached, d')"
    "pl_steps plan \<noteq> []" "reached = pl_through plan"
    by (auto simp: create_plan_def read elim!: rbind_InrE split: if_splits)
  note ins = insert_plan_Inr [OF *(2)]
  from plan_loop_rows [OF *(3)] obtain ss where ss: "d' = d1\<lparr>cd_steps := cd_steps d1 @ ss\<rparr>" "list_all2 step_shows ss (pl_steps plan)"
    "reached = pl_from plan + length (pl_steps plan)" "map st_index ss = [0..<length (pl_steps plan)]"
    "map st_cursor ss = [Suc (pl_from plan)..<Suc (pl_from plan + length (pl_steps plan))]"
    "\<forall>s\<in>set ss. st_plan s = pl_id plan \<and> step_row_ok x s" by auto
  have "length ss = length (pl_steps plan)" using ss(2) by (rule list_all2_lengthD)
  then show thesis
    using that [of ss] ss ins * by (simp add: add_plan_def del: upt_Suc)
qed

lemma create_plan_keeps:
  assumes "create_plan x now plan d = Inr d'" and "inbox_inv x d" and "pl_through plan \<le> MaxInt64"
  shows "inbox_inv x d'"
proof -
  from assms(2) have "cursors_ok d" by (simp add: inbox_inv_def)
  from assms(1) this assms(3) obtain ss where *: "d' = add_plan (prepared (pl_id plan) (pl_from plan) (pl_through plan) now) ss d"
    "plan_at d (pl_id plan) = None" "\<not> list_ex active_plan (cd_plans d)" "pl_through plan = pl_from plan + length (pl_steps plan)"
    "pl_steps plan \<noteq> []" "map st_index ss = [0..<length ss]" "map st_cursor ss = [Suc (pl_from plan)..<Suc (pl_through plan)]"
    "\<forall>s\<in>set ss. st_plan s = pl_id plan \<and> step_row_ok x s"
    by (rule create_planE) blast
  show ?thesis unfolding *(1)
    by (rule add_plan_keeps(1) [OF assms(2)]) (use * assms(3) in \<open>simp_all add: prepared_def del: upt_Suc\<close>)
qed

section \<open>A plan ahead of its turn\<close>

lemma find_SomeD: "find P xs = Some y \<Longrightarrow> y \<in> set xs \<and> P y"
  by (induction xs) (auto split: if_splits)

lemma create_inbox_planE:
  assumes "create_inbox_plan x now cursor p d = Inr d'" and "inbox_ok x d"
  obtains r bs where "inbox_at d cursor = Some r" "independent_candidate d r" "\<not> list_ex active_plan (cd_plans d)" "plan_at d p = None"
    "link_cursor d p = None" "link_of d cursor = None"
    "d' = (add_plan (prepared p (cursor - 1) cursor now) [step_of_row p r] d)\<lparr>cd_bindings := bs, cd_links := cd_links d @ [(p, cursor)]\<rparr>"
proof -
  from assms(1) obtain r where found: "find (\<lambda>r. ib_cursor r = cursor \<and> independent_candidate d r) (cd_inbox d) = Some r"
    and idle: "\<not> list_ex active_plan (cd_plans d)"
    and rest: "rbind (insert_plan p (cursor - 1) cursor now d) (\<lambda>d. rbind (bind_ancestry p r d) (\<lambda>d.
                rbind (insert_step (step_of_row p r) d) (insert_link p r))) = Inr d'"
    by (auto simp: create_inbox_plan_def scan_option_def dest!: scanned_row elim!: rbind_InrE split: option.splits if_splits)
  from find_SomeD [OF found] have r: "r \<in> set (cd_inbox d)" "ib_cursor r = cursor" "independent_candidate d r" by simp_all
  with inbox_okD(3) [OF assms(2), of r] have at: "inbox_at d cursor = Some r" by simp
  from rest obtain d1 d2 d3 where steps: "insert_plan p (cursor - 1) cursor now d = Inr d1" "bind_ancestry p r d1 = Inr d2"
    "insert_step (step_of_row p r) d2 = Inr d3" "insert_link p r d3 = Inr d'" by (auto elim!: rbind_InrE)
  note ins = insert_plan_Inr [OF steps(1)]
  from steps(2) have "d2 = d1\<lparr>cd_bindings := cd_bindings d2\<rparr>"
    by (auto simp: bind_ancestry_def Let_def split: if_splits)
  then obtain bs where d2: "d2 = d1\<lparr>cd_bindings := bs\<rparr>" by blast
  have d3: "d3 = d2\<lparr>cd_steps := cd_steps d2 @ [step_of_row p r]\<rparr>" by (rule insert_step_Inr [OF steps(3)])
  from steps(4) have link: "d' = d3\<lparr>cd_links := cd_links d3 @ [(p, cursor)]\<rparr>" "link_cursor d3 p = None" "link_of d3 cursor = None"
    using r(2) by (auto simp: insert_link_def unlinked_def split: if_splits)
  then have free: "link_cursor d p = None" "link_of d cursor = None" by (simp_all add: d3 d2 ins(1) link_cursor_def link_of_def)
  have "d' = (add_plan (prepared p (cursor - 1) cursor now) [step_of_row p r] d)\<lparr>cd_bindings := bs, cd_links := cd_links d @ [(p, cursor)]\<rparr>"
    by (simp add: link(1) d3 d2 ins(1) add_plan_def)
  then show thesis by (rule that [OF at r(3) idle ins(2) free])
qed

lemma candidate_pending: "independent_candidate d r \<Longrightarrow> ib_state r = InboxPending"
  by (simp add: independent_candidate_def)

lemma create_inbox_plan_keeps:
  assumes run: "create_inbox_plan x now cursor p d = Inr d'" and inv: "inbox_inv x d" and cursor: "cursor_valid cursor"
  shows "inbox_inv x d'"
proof -
  from inv have ok: "inbox_ok x d" "links_ok d" by (simp_all add: inbox_inv_def)
  from run ok(1) obtain r bs where *: "inbox_at d cursor = Some r" "independent_candidate d r" "\<not> list_ex active_plan (cd_plans d)"
    "plan_at d p = None" "link_cursor d p = None" "link_of d cursor = None"
    "d' = (add_plan (prepared p (cursor - 1) cursor now) [step_of_row p r] d)\<lparr>cd_bindings := bs, cd_links := cd_links d @ [(p, cursor)]\<rparr>"
    by (rule create_inbox_planE)
  let ?plan = "prepared p (cursor - 1) cursor now"
  let ?e = "add_plan ?plan [step_of_row p r] d"
  have row: "inbox_row_ok x r" "ib_cursor r = cursor" using inbox_at_SomeD [OF *(1)] inbox_okD(3) [OF ok(1)] by auto
  have pos: "0 < cursor" "cursor \<le> MaxInt64" using cursor by (simp_all add: cursor_valid_def)
  have "step_row_ok x (step_of_row p r)" using inbox_row_ids [OF row(1)] by (simp add: step_row_ok_def step_of_row_def)
  then have added: "inbox_inv x ?e" "plan_at ?e p = Some ?plan" "plan_steps ?e p = [step_of_row p r]"
    using add_plan_keeps(1,3,4) [OF inv, of ?plan "[step_of_row p r]"] * pos row(2)
    by (simp_all add: prepared_def step_of_row_def)
  have "link_fits d' p cursor"
    unfolding link_fits_def
  proof (intro exI conjI)
    show "plan_at d' p = Some ?plan" "plan_steps d' p = [step_of_row p r]" using added(2,3) by (simp_all add: *(7) plan_at_def plan_steps_def)
    show "inbox_at d' cursor = Some r" using *(1) by (simp add: *(7) inbox_at_def)
  qed (use pos candidate_pending [OF *(2)] in \<open>simp_all add: prepared_def step_of_row_def link_states_def\<close>)
  moreover have "link_fits d' q c" if "(q, c) \<in> set (cd_links d)" for q c
  proof -
    have "link_fits ?e q c" using added(1) that by (auto simp: inbox_inv_def links_ok_def)
    then show ?thesis by (simp add: *(7) link_fits_def plan_at_def plan_steps_def inbox_at_def)
  qed
  moreover have "p \<notin> fst ` set (cd_links d)" using *(5) by (simp add: link_cursor_def map_of_eq_None_iff)
  moreover have "cursor \<notin> snd ` set (cd_links d)"
  proof
    assume "cursor \<in> snd ` set (cd_links d)"
    then obtain q where "(q, cursor) \<in> set (cd_links d)" by auto
    from link_lookups(2) [OF ok(2) this] *(6) show False by simp
  qed
  ultimately have "links_ok d'" using ok(2) by (auto simp: links_ok_def *(7))
  moreover have "plans_ok x d' = plans_ok x ?e" by (rule plan_frames(1)) (simp_all add: *(7))
  moreover have "completed_known ?e \<Longrightarrow> completed_known d'"
    by (rule completed_frame) (simp_all add: *(7) baseline_revision_def baseline_at_def)
  moreover have "inbox_ok x d' = inbox_ok x ?e" by (rule inbox_frame) (simp_all add: *(7))
  moreover have "cursors_ok d' = cursors_ok ?e" by (rule cursor_fields(1)) (simp_all add: *(7))
  ultimately show ?thesis using added(1) by (simp add: inbox_inv_def)
qed

section \<open>Beginning and carrying out\<close>

text \<open>One statement on the state of rows, plans or steps.\<close>

lemma moved_rows_inv:
  assumes inv: "inbox_inv x d" and guard: "\<forall>r\<in>set (cd_inbox d). P r \<longrightarrow> inbox_guard d r to"
    and f: "\<And>r. inbox_payload (f r) = inbox_payload r" "\<And>r. ib_state (f r) = to"
    and times: "\<And>r. P r \<Longrightarrow> inbox_times_valid r \<Longrightarrow> inbox_times_valid (f r)"
  shows "inbox_inv x (moved_rows P f d)"
proof -
  let ?d = "moved_rows P f d"
  have "inbox_ok x ?d" unfolding moved_rows_def
    by (rule inbox_update) (use inv f times in \<open>simp_all add: inbox_inv_def\<close>)
  moreover have "links_ok ?d" by (rule moved_links [where to = to]) (use inv f guard in \<open>simp_all add: inbox_inv_def\<close>)
  moreover have "completed_known d \<Longrightarrow> completed_known ?d" by (rule completed_frame) (simp_all add: baseline_revision_def baseline_at_def)
  moreover have "plans_ok x ?d = plans_ok x d" by (rule plan_frames(1)) simp_all
  moreover have "cursors_ok ?d = cursors_ok d" by (rule cursor_fields(1)) simp_all
  ultimately show ?thesis using inv by (simp add: inbox_inv_def)
qed

lemma begin_rows_inv:
  assumes "move_inbox P InboxApplying (begin_row now) d = Inr (n, d')" and "inbox_inv x d" and "\<And>r. P r \<Longrightarrow> ib_state r = InboxPending"
  shows "inbox_inv x d'"
  using assms(1) moved_rows_inv [OF assms(2), where to = InboxApplying and f = "begin_row now" and P = P] begin_times assms(3)
  by (auto simp: move_inbox_Inr begin_row_def inbox_payload_def)

lemma finish_rows_inv:
  assumes "move_inbox P InboxApplied (finish_row now) d = Inr (n, d')" and "inbox_inv x d" and "\<And>r. P r \<Longrightarrow> ib_state r = InboxApplying"
  shows "inbox_inv x d'"
  using assms(1) moved_rows_inv [OF assms(2), where to = InboxApplied and f = "finish_row now" and P = P] finish_times assms(3)
  by (auto simp: move_inbox_Inr finish_row_def inbox_payload_def)

lemma with_status_inv:
  assumes run: "set_plan_status p from to f e d = Inr d'" and inv: "inbox_inv x d" and f: "\<And>q. plan_key (f q) = plan_key q"
    and active: "to = PlanPrepared \<or> to = PlanApplying \<Longrightarrow> from = PlanPrepared \<or> (\<forall>q\<in>set (cd_plans d). active_plan q \<longrightarrow> ap_id q = p)"
    and finished: "to = PlanCompleted \<Longrightarrow> \<forall>s\<in>set (plan_steps d p). st_applied s \<and> st_revision s \<le> baseline_revision d (st_object s)"
  shows "inbox_inv x d'"
proof -
  from inv have ok: "plans_ok x d" "links_ok d" "completed_known d" by (simp_all add: inbox_inv_def)
  note d' = set_plan_status_Inr(1) [OF run ok(1)]
  from set_plan_status_Inr(2) [OF run ok(1)] obtain plan where plan: "plan_at d p = Some plan" "ap_status plan = from" "plan_guard d plan to" by blast
  have "active_plan (plan\<lparr>ap_status := to\<rparr>) \<Longrightarrow> \<forall>q\<in>set (cd_plans d). active_plan q \<longrightarrow> ap_id q = p"
    using active only_active [OF ok(1)] plan_at_SomeD [OF plan(1)] plan(2) by (auto simp: active_plan_def)
  then have "plans_ok x d'" unfolding d' by (rule with_status_plans [OF ok(1) f])
  moreover have "links_ok d'" unfolding d' by (rule with_status_links [OF ok(2) f]) (use plan in simp)
  moreover have "completed_known d'" unfolding d' by (rule with_status_completed [OF ok(3) f]) (use finished in simp)
  moreover have "cursors_ok d' = cursors_ok d" by (rule cursor_fields(1)) (simp_all add: d')
  moreover have "inbox_ok x d' = inbox_ok x d" by (rule inbox_frame) (simp_all add: d')
  ultimately show ?thesis using inv by (simp add: inbox_inv_def)
qed

lemma plan_keys [simp]: "plan_key (id q) = plan_key q" "plan_key (ap_completed_update g q) = plan_key q"
  by (simp_all add: plan_key_def)

lemma expect_one_Inr: "expect_one e m = Inr d \<longleftrightarrow> m = Inr (1, d)"
  by (auto simp: expect_one_def rbind_Inr_iff split: if_splits)

lemma begin_plan_keeps:
  assumes "begin_plan now p d = Inr d'" and inv: "inbox_inv x d"
  shows "inbox_inv x d'"
proof (cases "link_cursor d p")
  case None
  with assms(1) show ?thesis
    using with_status_inv [of p PlanPrepared PlanApplying id Refused d d' x] inv
    by (auto simp: begin_plan_def split: option.splits if_splits)
next
  case (Some c)
  with assms(1) have run: "begin_linked now p c d = Inr d'" by (simp add: begin_plan_def)
  have status: "inbox_inv x d'" if "inbox_inv x e" "set_plan_status p PlanPrepared PlanApplying id f e = Inr d'" for e f
    by (rule with_status_inv [OF that(2,1)]) simp_all
  from run consider "d' = d" | f where "set_plan_status p PlanPrepared PlanApplying id f d = Inr d'"
    | e f where "move_inbox (\<lambda>r. ib_cursor r = c \<and> ib_state r = InboxPending) InboxApplying (begin_row now) d = Inr (1, e)"
        "set_plan_status p PlanPrepared PlanApplying id f e = Inr d'"
    by (auto simp: begin_linked_def expect_one_Inr elim!: rbind_InrE split: option.splits if_splits)
  then show ?thesis
  proof cases
    case (3 e f)
    have "inbox_inv x e" by (rule begin_rows_inv [OF 3(1) inv]) simp
    then show ?thesis using status 3(2) by blast
  qed (use inv status in auto)
qed

lemma applied_steps_inv:
  assumes inv: "inbox_inv x d"
    and guard: "\<forall>s\<in>set (cd_steps d). P s \<longrightarrow> link_cursor d (st_plan s) = None \<or> \<not> st_applied s \<and> step_guard d (st_plan s)"
  shows "inbox_inv x (applied_steps P d)"
proof -
  let ?d = "applied_steps P d"
  have "inbox_ok x ?d = inbox_ok x d" by (rule inbox_frame) simp_all
  moreover have "cursors_ok ?d = cursors_ok d" by (rule cursor_fields(1)) simp_all
  ultimately show ?thesis
    using inv applied_steps_plans applied_steps_links [OF _ guard] applied_steps_completed by (simp add: inbox_inv_def)
qed

lemma mark_applied_keeps:
  assumes "mark_applied p n d = Inr d'" and "inbox_inv x d"
  shows "inbox_inv x d'"
proof -
  from assms(1) obtain count e where "apply_step_rows (\<lambda>s. stkey s = (p, n) \<and> \<not> st_applied s \<and> plan_is d p PlanApplying) d = Inr (count, e)" "d' = e"
    by (auto simp: mark_applied_def elim!: rbind_InrE split: if_splits option.splits)
  then show ?thesis using applied_steps_inv [OF assms(2)] by (simp add: apply_step_rows_Inr)
qed

lemma mark_folder_appliedE:
  assumes "mark_folder_applied p n d = Inr d'"
  obtains s :: step_row and e f where "(if st_applied s then Inr d else expect_one (Failed ''folder apply plan is not active'')
      (apply_step_rows (\<lambda>s. stkey s = (p, n) \<and> plan_is d p PlanApplying) d)) = Inr e" "d' = e\<lparr>cd_publications := f\<rparr>"
proof -
  from assms obtain s where "step_at d p n = Some s"
    by (cases "step_at d p n") (auto simp: mark_folder_applied_def)
  with assms have "rbind (if st_applied s then Inr d else expect_one (Failed ''folder apply plan is not active'')
        (apply_step_rows (\<lambda>s. stkey s = (p, n) \<and> plan_is d p PlanApplying) d)) (\<lambda>d.
      let P = (\<lambda>f. fp_plan f = p \<and> fp_step f = n) in
      if rows_affected P (cd_publications d) \<noteq> 1 then Inl (Failed ''folder publication missing'')
      else Inr (d\<lparr>cd_publications := update_rows P (\<lambda>f. f\<lparr>fp_authorized := True\<rparr>) (cd_publications d)\<rparr>)) = Inr d'"
    by (simp add: mark_folder_applied_def)
  then obtain e where e: "(if st_applied s then Inr d else expect_one (Failed ''folder apply plan is not active'')
                   (apply_step_rows (\<lambda>s. stkey s = (p, n) \<and> plan_is d p PlanApplying) d)) = Inr e"
    and "d' = e\<lparr>cd_publications := cd_publications d'\<rparr>"
    by (auto simp: Let_def elim!: rbind_InrE split: if_splits)
  then show thesis by (intro that [of s e "cd_publications d'"])
qed

lemma mark_folder_applied_keeps:
  assumes "mark_folder_applied p n d = Inr d'" and "inbox_inv x d"
  shows "inbox_inv x d'"
  using assms(1)
proof (rule mark_folder_appliedE)
  fix s e f
  assume e: "(if st_applied s then Inr d else expect_one (Failed ''folder apply plan is not active'')
      (apply_step_rows (\<lambda>s. stkey s = (p, n) \<and> plan_is d p PlanApplying) d)) = Inr e" and d': "d' = e\<lparr>cd_publications := f\<rparr>"
  have "inbox_inv x e"
    using e applied_steps_inv [OF assms(2)] assms(2) by (auto simp: expect_one_Inr apply_step_rows_Inr split: if_splits)
  then show "inbox_inv x d'" by (rule inbox_inv_frame [rotated 7]) (simp_all add: d' baseline_revision_def baseline_at_def)
qed

lemma abandon_plan_keeps:
  assumes "abandon_plan now p d = Inr d'" and "inbox_inv x d"
  shows "inbox_inv x d'"
proof -
  from assms(1) have "set_plan_status p PlanPrepared PlanFailed (ap_completed_update (\<lambda>_. Some now)) (Failed ''inbox apply plan abandonment race'') d = Inr d'"
    by (simp add: abandon_plan_def split: if_splits)
  then show ?thesis by (rule with_status_inv [OF _ assms(2)]) simp_all
qed

lemma retry_plan_keeps:
  assumes "retry_plan p d = Inr d'" and "inbox_inv x d"
  shows "inbox_inv x d'"
proof -
  from assms(1) have run: "set_plan_status p PlanFailed PlanPrepared (ap_completed_update (\<lambda>_. None)) (Failed ''abandoned inbox apply plan is not retryable'') d = Inr d'"
    and "\<forall>q\<in>set (cd_plans d). active_plan q \<longrightarrow> ap_id q = p"
    by (auto simp: retry_plan_def retryable_def list_ex_iff split: if_splits)
  then show ?thesis by (intro with_status_inv [OF run assms(2)]) simp_all
qed

section \<open>Cursors\<close>

lemma inbox_frame_confirmed: "inbox_ok x (set_confirmed n d) = inbox_ok x d"
  by (rule inbox_frame) (simp_all add: set_confirmed_def)

lemma set_confirmed_inv:
  assumes "inbox_inv x d" and "n \<le> MaxInt64"
  shows "inbox_inv x (set_confirmed n d)"
proof -
  have "plans_ok x (set_confirmed n d) = plans_ok x d" "links_ok (set_confirmed n d) = links_ok d"
    by (rule plan_frames(1) links_frame; simp add: set_confirmed_def)+
  moreover have "completed_known d \<Longrightarrow> completed_known (set_confirmed n d)"
    by (rule completed_frame) (simp_all add: set_confirmed_def baseline_revision_def baseline_at_def)
  ultimately show ?thesis
    using assms set_cursors(4) inbox_frame_confirmed by (simp add: inbox_inv_def)
qed

text \<open>The frontier moves exactly over the applied rows that follow it without a gap.\<close>

lemma advance_rows_Inr:
  assumes "advance_rows x n rows = Inr m" and "sorted (map ib_cursor rows)" "distinct (map ib_cursor rows)"
    and "\<forall>r\<in>set rows. n < ib_cursor r"
  shows "n \<le> m \<and> (\<forall>c. n < c \<and> c \<le> m \<longrightarrow> (\<exists>r\<in>set rows. ib_cursor r = c \<and> ib_state r = InboxApplied)) \<and>
    (m < MaxInt64 \<longrightarrow> \<not> (\<exists>r\<in>set rows. ib_cursor r = Suc m \<and> ib_state r = InboxApplied))"
  using assms
proof (induction rows arbitrary: n)
  case (Cons r rows)
  have greater: "ib_cursor r < ib_cursor s" if "s \<in> set rows" for s
  proof -
    have "ib_cursor r \<le> ib_cursor s" using Cons.prems(2) that by simp
    moreover have "ib_cursor r \<noteq> ib_cursor s" using Cons.prems(3) that by auto
    ultimately show ?thesis by simp
  qed
  from Cons.prems(1) have row: "rbind (scanInboxItem x r) (\<lambda>r.
       if n = MaxInt64 \<or> ib_cursor r \<noteq> n + 1 \<or> ib_state r \<noteq> InboxApplied then Inr n
       else advance_rows x (ib_cursor r) rows) = Inr m" by simp
  then have scanned: "scanInboxItem x r = Inr r" by (auto dest: scanned_row elim!: rbind_InrE)
  show ?case
  proof (cases "n = MaxInt64 \<or> ib_cursor r \<noteq> n + 1 \<or> ib_state r \<noteq> InboxApplied")
    case True
    then have "m = n" using row scanned by simp
    moreover have "\<not> (\<exists>s\<in>set (r # rows). ib_cursor s = Suc n \<and> ib_state s = InboxApplied)" if "n < MaxInt64"
    proof
      assume "\<exists>s\<in>set (r # rows). ib_cursor s = Suc n \<and> ib_state s = InboxApplied"
      then obtain s where s: "s \<in> set (r # rows)" "ib_cursor s = Suc n" "ib_state s = InboxApplied" by blast
      show False
      proof (cases "s = r")
        case False
        then have "ib_cursor r < Suc n" using greater [of s] s by simp
        then show False using Cons.prems(4) by simp
      qed (use True s that in auto)
    qed
    ultimately show ?thesis by auto
  next
    case False
    then have "advance_rows x (ib_cursor r) rows = Inr m" using row scanned by simp
    from Cons.IH [OF this] Cons.prems greater have IH: "ib_cursor r \<le> m"
      "\<forall>c. ib_cursor r < c \<and> c \<le> m \<longrightarrow> (\<exists>r\<in>set rows. ib_cursor r = c \<and> ib_state r = InboxApplied)"
      "m < MaxInt64 \<longrightarrow> \<not> (\<exists>r\<in>set rows. ib_cursor r = Suc m \<and> ib_state r = InboxApplied)" by simp_all
    show ?thesis
    proof (intro conjI allI impI)
      show "n \<le> m" using IH(1) False by simp
      fix c assume "n < c \<and> c \<le> m"
      then have "c = ib_cursor r \<or> ib_cursor r < c \<and> c \<le> m" using False by auto
      then show "\<exists>r\<in>set (r # rows). ib_cursor r = c \<and> ib_state r = InboxApplied" using IH(2) False by auto
    next
      assume "m < MaxInt64"
      then show "\<not> (\<exists>r\<in>set (r # rows). ib_cursor r = Suc m \<and> ib_state r = InboxApplied)" using IH(1,3) by auto
    qed
  qed
qed simp

lemma inbox_between_rows:
  assumes "inbox_ok x d"
  shows "inbox_between d a b = filter (\<lambda>r. a < ib_cursor r \<and> ib_cursor r \<le> b) (cd_inbox d)"
proof -
  have "sorted (map ib_cursor (filter P (cd_inbox d)))" for P using inbox_okD(2) [OF assms] by (rule sorted_filter)
  then show ?thesis unfolding inbox_between_def by (rule sort_key_id_if_sorted)
qed

lemma advanceE:
  assumes "advanceConfirmedInboxCursorTx x d = Inr (n, d')" and "cursors_ok d" "inbox_ok x d"
  shows "d' = (if n = confirmed_of d then d else set_confirmed n d) \<and> confirmed_of d \<le> n \<and> n \<le> MaxInt64 \<and>
    confirmed_of d \<le> downloaded_of d \<and>
    (\<forall>c. confirmed_of d < c \<and> c \<le> n \<longrightarrow> (\<exists>r. inbox_at d c = Some r \<and> ib_state r = InboxApplied)) \<and>
    \<not> (\<exists>r. inbox_at d (Suc n) = Some r \<and> ib_state r = InboxApplied)"
proof -
  let ?rows = "filter (\<lambda>r. confirmed_of d < ib_cursor r \<and> ib_cursor r \<le> downloaded_of d) (cd_inbox d)"
  note read = cursors_read [OF assms(2)] and ok = inbox_okD [OF assms(3)]
  from assms(1) have le: "confirmed_of d \<le> downloaded_of d" and adv: "advance_rows x (confirmed_of d) ?rows = Inr n"
    and d': "d' = (if n = confirmed_of d then d else set_confirmed n d)"
    by (auto simp: advanceConfirmedInboxCursorTx_def read inbox_between_rows [OF assms(3)] elim!: rbind_InrE split: if_splits)
  have "sorted (map ib_cursor ?rows)" using ok(2) by (rule sorted_filter)
  moreover have "distinct (map ib_cursor ?rows)" by (rule distinct_map_filter [OF ok(1)])
  ultimately have *: "confirmed_of d \<le> n \<and> (\<forall>c. confirmed_of d < c \<and> c \<le> n \<longrightarrow> (\<exists>r\<in>set ?rows. ib_cursor r = c \<and> ib_state r = InboxApplied)) \<and>
    (n < MaxInt64 \<longrightarrow> \<not> (\<exists>r\<in>set ?rows. ib_cursor r = Suc n \<and> ib_state r = InboxApplied))"
    by (intro advance_rows_Inr [OF adv]) auto
  have applied: "\<exists>r. inbox_at d c = Some r \<and> ib_state r = InboxApplied" if "confirmed_of d < c" "c \<le> n" for c
  proof -
    from * that obtain r where "r \<in> set (cd_inbox d)" "ib_cursor r = c" "ib_state r = InboxApplied" by auto
    with ok(3) show ?thesis by blast
  qed
  have bound: "n \<le> MaxInt64"
  proof (cases "n = confirmed_of d")
    case False
    with * have "confirmed_of d < n" by simp
    with applied obtain r where "inbox_at d n = Some r" by blast
    then have "r \<in> set (cd_inbox d)" "ib_cursor r = n" by (auto dest: inbox_at_SomeD)
    then show ?thesis using ok(3) inbox_row_ids(6) by blast
  qed (use read(5) in simp)
  have "\<not> (\<exists>r. inbox_at d (Suc n) = Some r \<and> ib_state r = InboxApplied)"
  proof
    assume "\<exists>r. inbox_at d (Suc n) = Some r \<and> ib_state r = InboxApplied"
    then obtain r where r: "r \<in> set (cd_inbox d)" "ib_cursor r = Suc n" "ib_state r = InboxApplied" by (auto dest: inbox_at_SomeD)
    then have "Suc n \<le> downloaded_of d" "Suc n \<le> MaxInt64" using ok(3) inbox_row_ids(6) by (metis, metis)
    with * r show False by auto
  qed
  with d' le * applied bound show ?thesis by blast
qed

lemma advance_keeps:
  assumes "advanceConfirmedInboxCursorTx x d = Inr (n, d')" and "inbox_inv x d"
  shows "inbox_inv x d'"
proof -
  have "cursors_ok d" "inbox_ok x d" using assms(2) by (simp_all add: inbox_inv_def)
  from advanceE [OF assms(1) this] show ?thesis using set_confirmed_inv [OF assms(2)] assms(2) by auto
qed

section \<open>Completing\<close>

definition raise_steps :: "step_row list \<Rightarrow> client_db \<Rightarrow> client_db" where
  "raise_steps ss = fold (\<lambda>s. raise_baseline (st_object s) (st_revision s) (st_operation s)) ss"

lemma raise_steps_fields [simp]:
  "cd_outbox (raise_steps ss d) = cd_outbox d" "cd_deps (raise_steps ss d) = cd_deps d" "cd_intents (raise_steps ss d) = cd_intents d"
  "cd_conflicts (raise_steps ss d) = cd_conflicts d" "cd_state (raise_steps ss d) = cd_state d" "cd_inbox (raise_steps ss d) = cd_inbox d"
  "cd_plans (raise_steps ss d) = cd_plans d" "cd_steps (raise_steps ss d) = cd_steps d" "cd_links (raise_steps ss d) = cd_links d"
  unfolding raise_steps_def by (induction ss arbitrary: d) simp_all

lemma raise_steps_mono: "baseline_revision d i \<le> baseline_revision (raise_steps ss d) i"
  unfolding raise_steps_def
proof (induction ss arbitrary: d)
  case (Cons s ss)
  have "baseline_revision d i \<le> baseline_revision (raise_baseline (st_object s) (st_revision s) (st_operation s) d) i"
    by (simp add: raise_baseline_revision)
  then show ?case using Cons.IH order_trans by (simp add: order_trans)
qed simp

lemma raise_steps_reach: "s \<in> set ss \<Longrightarrow> st_revision s \<le> baseline_revision (raise_steps ss d) (st_object s)"
proof (induction ss arbitrary: d)
  case (Cons t ss)
  show ?case
  proof (cases "s = t")
    case True
    have "st_revision s \<le> baseline_revision (raise_baseline (st_object s) (st_revision s) (st_operation s) d) (st_object s)"
      by (simp add: raise_baseline_revision)
    also have "\<dots> \<le> baseline_revision (raise_steps (t # ss) d) (st_object s)"
      using raise_steps_mono True by (simp add: raise_steps_def)
    finally show ?thesis .
  next
    case False
    with Cons.prems Cons.IH show ?thesis by (simp add: raise_steps_def)
  qed
qed simp

lemma raise_steps_source:
  "baseline_revision (raise_steps ss d) i = baseline_revision d i \<or>
     (\<exists>s\<in>set ss. st_object s = i \<and> baseline_revision (raise_steps ss d) i = st_revision s)"
proof (induction ss arbitrary: d)
  case (Cons s ss)
  let ?e = "raise_baseline (st_object s) (st_revision s) (st_operation s) d"
  have "baseline_revision ?e i = baseline_revision d i \<or> st_object s = i \<and> baseline_revision ?e i = st_revision s"
    by (auto simp: raise_baseline_revision max_def)
  moreover have "raise_steps (s # ss) d = raise_steps ss ?e" by (simp add: raise_steps_def)
  ultimately show ?case using Cons.IH [of ?e] by (metis list.set_intros(1,2))
qed (simp add: raise_steps_def)

lemma raise_steps_inv:
  assumes "\<forall>s\<in>set ss. step_row_ok x s" and "outbox_inv x d"
  shows "outbox_inv x (raise_steps ss d)"
  using assms unfolding raise_steps_def
proof (induction ss arbitrary: d)
  case (Cons s ss)
  have "outbox_inv x (raise_baseline (st_object s) (st_revision s) (st_operation s) d)"
    using Cons.prems by (simp add: outbox_inv_def raise_baseline_accepted raise_baseline_ok step_row_ok_def)
  with Cons show ?case by simp
qed simp

lemma raised_inbox_inv: "inbox_inv x d \<Longrightarrow> inbox_inv x (raise_steps ss d)"
  by (rule inbox_inv_frame [of _ d]) (simp_all add: raise_steps_mono)

lemma plan_of_steps:
  assumes "plans_ok x d" and "plan_at d p = Some plan"
  shows "\<forall>s\<in>set (plan_steps d p). step_row_ok x s" "ordered_steps d p = plan_steps d p" "plan_fits d plan" "ap_id plan = p"
proof -
  show "\<forall>s\<in>set (plan_steps d p). step_row_ok x s" using assms(1) by (auto simp: plans_ok_def plan_steps_def)
  show "plan_fits d plan" "ap_id plan = p" using assms plan_at_SomeD by (auto simp: plans_ok_def)
  then have "map st_index (plan_steps d p) = [0..<length (plan_steps d p)]" by (simp add: plan_fits_def)
  then have "sorted (map st_index (plan_steps d p))" by simp
  then show "ordered_steps d p = plan_steps d p" unfolding ordered_steps_def by (rule sort_key_id_if_sorted)
qed

lemma complete_unlinkedE:
  assumes "complete_unlinked now p d = Inr d'" and "inbox_inv x d"
  obtains plan where "plan_at d p = Some plan" "ap_status plan = PlanApplying" "confirmed_of d = ap_from plan"
    "\<forall>s\<in>set (plan_steps d p). st_applied s"
    "set_plan_status p PlanApplying PlanCompleted (ap_completed_update (\<lambda>_. Some now)) (Failed ''apply plan completion race'')
       (set_confirmed (ap_through plan) (raise_steps (plan_steps d p) d)) = Inr d'"
proof -
  from assms(2) have ok: "cursors_ok d" "plans_ok x d" by (simp_all add: inbox_inv_def)
  from assms(1) obtain plan where plan: "plan_at d p = Some plan" by (auto simp: complete_unlinked_def split: option.splits)
  note steps = plan_of_steps [OF ok(2) plan]
  show thesis
    by (rule that [OF plan])
      (use assms(1) plan in \<open>auto simp: complete_unlinked_def cursors_read(3) [OF ok(1)] steps(2) raise_steps_def Let_def list_ex_iff
        split: if_splits\<close>)
qed

lemma complete_unlinked_keeps:
  assumes run: "complete_unlinked now p d = Inr d'" and inv: "inbox_inv x d"
  shows "inbox_inv x d'" "outbox_inv x d \<Longrightarrow> outbox_inv x d'"
proof -
  from run inv obtain plan where *: "plan_at d p = Some plan" "\<forall>s\<in>set (plan_steps d p). st_applied s"
    "set_plan_status p PlanApplying PlanCompleted (ap_completed_update (\<lambda>_. Some now)) (Failed ''apply plan completion race'')
       (set_confirmed (ap_through plan) (raise_steps (plan_steps d p) d)) = Inr d'"
    by (rule complete_unlinkedE)
  let ?e = "set_confirmed (ap_through plan) (raise_steps (plan_steps d p) d)"
  from inv have "plans_ok x d" by (simp add: inbox_inv_def)
  note plan = plan_of_steps [OF this *(1)]
  have e: "inbox_inv x ?e" using plan(3) by (intro set_confirmed_inv raised_inbox_inv inv) (simp add: plan_fits_def)
  have same: "plan_steps ?e p = plan_steps d p" by (simp add: plan_steps_def set_confirmed_def)
  have base: "baseline_revision ?e i = baseline_revision (raise_steps (plan_steps d p) d) i" for i
    by (simp add: set_confirmed_def baseline_revision_def baseline_at_def)
  show "inbox_inv x d'"
    by (rule with_status_inv [OF *(3) e]) (use *(2) raise_steps_reach in \<open>simp_all add: same base\<close>)
  have "plans_ok x ?e" using e by (simp add: inbox_inv_def)
  from set_plan_status_Inr(1) [OF *(3) this]
  have "d' = with_status p PlanApplying PlanCompleted (ap_completed_update (\<lambda>_. Some now)) ?e" .
  then have "outbox_inv x d' = outbox_inv x (raise_steps (plan_steps d p) d)"
    by (intro outbox_inv_frame) (simp_all add: set_confirmed_def)
  then show "outbox_inv x d \<Longrightarrow> outbox_inv x d'" using raise_steps_inv [OF plan(1)] by simp
qed

text \<open>The statement on the baseline of a linked plan raises it by one.\<close>

lemma successor_baseline:
  assumes "baselines_ok x d" and "rows_affected (\<lambda>b. bl_object b = i \<and> bl_revision b + 1 = n) (cd_baselines d) = 1"
  shows "d\<lparr>cd_baselines := update_rows (\<lambda>b. bl_object b = i \<and> bl_revision b + 1 = n)
      (\<lambda>b. b\<lparr>bl_revision := n, bl_operation := Some u\<rparr>) (cd_baselines d)\<rparr> = raise_baseline i n u d"
    "baseline_revision d i + 1 = n"
proof -
  let ?P = "\<lambda>b. bl_object b = i \<and> bl_revision b + 1 = n"
  from assms(2) have "rows_affected ?P (cd_baselines d) \<noteq> 0" by simp
  then obtain b where b: "b \<in> set (cd_baselines d)" "bl_object b = i" "bl_revision b + 1 = n"
    unfolding rows_affected_0_iff by blast
  have distinct: "distinct (map bl_object (cd_baselines d))" using assms(1) by (simp add: baselines_ok_def)
  then have at: "baseline_at d i = Some b" using row_at_unique [OF distinct b(1)] b(2) by (simp add: baseline_at_def)
  then show "baseline_revision d i + 1 = n" using b(3) by (simp add: baseline_revision_def)
  have "?P r = (bl_object r = i)" if "r \<in> set (cd_baselines d)" for r
    using row_at_unique [OF distinct that] at b(3) by (auto simp: baseline_at_def)
  then have "update_rows ?P f (cd_baselines d) = update_rows (\<lambda>r. bl_object r = i) f (cd_baselines d)" for f
    by (simp add: update_rows_def)
  then show "d\<lparr>cd_baselines := update_rows ?P (\<lambda>b. b\<lparr>bl_revision := n, bl_operation := Some u\<rparr>) (cd_baselines d)\<rparr> = raise_baseline i n u d"
    using at b(3) by (auto simp: raise_baseline_def)
qed

lemma completeE:
  assumes "completeInboxApplyPlanTx x now p cursor d = Inr d'" and "baselines_ok x d"
  obtains plan s r e f n where "plan_at d p = Some plan" "step_at d p 0 = Some s" "inbox_at d cursor = Some r" "ap_status plan = PlanApplying"
    "st_applied s" "ib_state r = InboxApplying" "length (plan_steps d p) = 1" "st_cursor s = cursor" "2 \<le> st_revision s"
    "baseline_revision d (st_object s) + 1 = st_revision s"
    "move_inbox (\<lambda>r. ib_cursor r = cursor \<and> ib_state r = InboxApplying) InboxApplied (finish_row now)
       (raise_baseline (st_object s) (st_revision s) (st_operation s) d) = Inr (1, e)"
    "set_plan_status p PlanApplying PlanCompleted (ap_completed_update (\<lambda>_. Some now)) (Failed ''linked apply plan completion race'') e = Inr f"
    "advanceConfirmedInboxCursorTx x f = Inr (n, d')"
proof -
  from assms(1) obtain plan s r where at: "plan_at d p = Some plan" "step_at d p 0 = Some s" "inbox_at d cursor = Some r"
    by (auto simp: completeInboxApplyPlanTx_def split: option.splits)
  let ?P = "\<lambda>b. bl_object b = st_object s \<and> bl_revision b + 1 = st_revision s"
  from assms(1) at have guards: "ap_status plan = PlanApplying" "st_applied s" "ib_state r = InboxApplying" "length (plan_steps d p) = 1"
    "st_cursor s = cursor" "2 \<le> st_revision s" and one: "rows_affected ?P (cd_baselines d) = 1"
    and rest: "rbind (expect_one (Failed ''linked inbox completion race'')
          (move_inbox (\<lambda>r. ib_cursor r = cursor \<and> ib_state r = InboxApplying) InboxApplied (finish_row now)
            (d\<lparr>cd_baselines := update_rows ?P (\<lambda>b. b\<lparr>bl_revision := st_revision s, bl_operation := Some (st_operation s)\<rparr>) (cd_baselines d)\<rparr>))) (\<lambda>d.
        rbind (set_plan_status p PlanApplying PlanCompleted (ap_completed_update (\<lambda>_. Some now)) (Failed ''linked apply plan completion race'') d) (\<lambda>d.
        rbind (advanceConfirmedInboxCursorTx x d) (\<lambda>(_, d). Inr d))) = Inr d'"
    by (auto simp: completeInboxApplyPlanTx_def Let_def elim!: rbind_InrE split: if_splits)
  note base = successor_baseline [OF assms(2) one]
  from rest base(1) obtain e f n where "move_inbox (\<lambda>r. ib_cursor r = cursor \<and> ib_state r = InboxApplying) InboxApplied (finish_row now)
       (raise_baseline (st_object s) (st_revision s) (st_operation s) d) = Inr (1, e)"
    "set_plan_status p PlanApplying PlanCompleted (ap_completed_update (\<lambda>_. Some now)) (Failed ''linked apply plan completion race'') e = Inr f"
    "advanceConfirmedInboxCursorTx x f = Inr (n, d')"
    by (auto simp: expect_one_Inr elim!: rbind_InrE)
  with at guards base(2) show thesis by (intro that)
qed

lemma complete_linked_keeps:
  assumes run: "completeInboxApplyPlanTx x now p cursor d = Inr d'" and inv: "inbox_inv x d" "outbox_inv x d"
  shows "inbox_inv x d'" "outbox_inv x d'"
proof -
  from inv(2) have "baselines_ok x d" by (simp add: outbox_inv_def)
  from run this obtain plan s r e f n where *: "plan_at d p = Some plan" "step_at d p 0 = Some s" "st_applied s"
    "length (plan_steps d p) = 1"
    "move_inbox (\<lambda>r. ib_cursor r = cursor \<and> ib_state r = InboxApplying) InboxApplied (finish_row now)
       (raise_baseline (st_object s) (st_revision s) (st_operation s) d) = Inr (1, e)"
    "set_plan_status p PlanApplying PlanCompleted (ap_completed_update (\<lambda>_. Some now)) (Failed ''linked apply plan completion race'') e = Inr f"
    "advanceConfirmedInboxCursorTx x f = Inr (n, d')"
    by (rule completeE)
  from *(2,4) have steps: "plan_steps d p = [s]" by (cases "plan_steps d p") (auto simp: step_at_plan split: if_splits)
  let ?b = "raise_baseline (st_object s) (st_revision s) (st_operation s) d"
  have b: "inbox_inv x ?b" using raised_inbox_inv [OF inv(1), of "[s]"] by (simp add: raise_steps_def)
  have e: "inbox_inv x e" "e = moved_rows (\<lambda>r. ib_cursor r = cursor \<and> ib_state r = InboxApplying) (finish_row now) ?b"
    using begin_rows_inv finish_rows_inv [OF *(5) b] *(5) by (auto simp: move_inbox_Inr)
  have e_steps: "plan_steps e p = [s]" using steps by (simp add: e(2) plan_steps_def)
  have "st_revision s \<le> baseline_revision e (st_object s)"
    using raise_baseline_revision [of "st_object s" "st_revision s" "st_operation s" d "st_object s"]
    by (simp add: e(2) baseline_revision_def baseline_at_def)
  then have f: "inbox_inv x f" by (intro with_status_inv [OF *(6) e(1)]) (simp_all add: e_steps *(3))
  show "inbox_inv x d'" by (rule advance_keeps [OF *(7) f])
  from f have "cursors_ok f" "inbox_ok x f" by (simp_all add: inbox_inv_def)
  from advanceE [OF *(7) this] have d': "d' = (if n = confirmed_of f then f else set_confirmed n f)" by blast
  have "plans_ok x e" using e(1) by (simp add: inbox_inv_def)
  note f_eq = set_plan_status_Inr(1) [OF *(6) this]
  have "outbox_inv x d' = outbox_inv x ?b"
    by (rule outbox_inv_frame) (simp_all add: d' f_eq e(2) set_confirmed_def)
  moreover from inv(1) have "plans_ok x d" by (simp add: inbox_inv_def)
  then have "step_row_ok x s" using plan_of_steps(1) [OF _ *(1)] steps by auto
  then have "outbox_inv x ?b" using raise_steps_inv [of "[s]" x d] inv(2) by (simp add: raise_steps_def)
  ultimately show "outbox_inv x d'" by simp
qed

section \<open>Reconciling\<close>

lemma confirm_rows_keeps:
  assumes "confirm_rows now c d = Inr d'" and "inbox_inv x d"
  shows "inbox_inv x d'"
proof -
  from assms(1) obtain n e m where e: "move_inbox (\<lambda>r. ib_cursor r \<le> c \<and> ib_state r = InboxPending) InboxApplying (begin_row now) d = Inr (n, e)"
    and d': "move_inbox (\<lambda>r. ib_cursor r \<le> c \<and> ib_state r = InboxApplying) InboxApplied (finish_row now) e = Inr (m, d')"
    by (auto simp: confirm_rows_def elim!: rbind_InrE)
  have "inbox_inv x e" by (rule begin_rows_inv [OF e assms(2)]) simp
  then show ?thesis by (rule finish_rows_inv [OF d']) simp
qed

lemma reconcileE:
  assumes "reconcile_inbox x now d = Inr d'" and "cursors_ok d"
  obtains (seed) "cd_inbox d = []" "downloaded_of d \<le> confirmed_of d" "d' = set_downloaded (confirmed_of d) d"
  | (rows) "cd_inbox d \<noteq> []" "confirmed_of d \<le> downloaded_of d" "confirm_rows now (confirmed_of d) d = Inr d'"
proof -
  note read = cursors_read [OF assms(2)]
  show thesis
  proof (cases "cd_inbox d = []")
    case True
    have "cd_state d ''downloaded_cursor'' = Some (decimal (downloaded_of d))"
      using assms(2) cursor_reads(1) by (auto simp: cursors_ok_def cursor_is_def)
    then have "set_downloaded (downloaded_of d) d = d" by (simp add: set_downloaded_def fun_upd_idem)
    then have "downloaded_of d \<le> confirmed_of d \<and> d' = set_downloaded (confirmed_of d) d"
      using assms(1) True by (cases "downloaded_of d = confirmed_of d") (simp_all add: reconcile_inbox_def read split: if_splits)
    with True seed show thesis by blast
  next
    case False
    with assms(1) have "confirmed_of d \<le> downloaded_of d \<and> confirm_rows now (confirmed_of d) d = Inr d'"
      by (auto simp: reconcile_inbox_def read Let_def elim!: rbind_InrE split: if_splits)
    with False rows show thesis by blast
  qed
qed

lemma reconcile_keeps:
  assumes "reconcile_inbox x now d = Inr d'" and inv: "inbox_inv x d"
  shows "inbox_inv x d'"
proof -
  from inv have cursors: "cursors_ok d" by (simp add: inbox_inv_def)
  from assms(1) this show ?thesis
  proof (cases rule: reconcileE)
    case seed
    note set = set_cursors [OF cursors cursors_read(5) [OF cursors]]
    have "plans_ok x d' = plans_ok x d" "links_ok d' = links_ok d"
      unfolding seed(3) by (rule plan_frames(1) links_frame; simp add: set_downloaded_def)+
    moreover have "completed_known d \<Longrightarrow> completed_known d'"
      by (rule completed_frame) (simp_all add: seed(3) set_downloaded_def baseline_revision_def baseline_at_def)
    moreover have "cd_inbox d' = []" using seed(1) by (simp add: seed(3) set_downloaded_def)
    then have "inbox_ok x d'" unfolding inbox_ok_def by (auto intro!: exI [of _ "downloaded_of d'"])
    ultimately show ?thesis using inv set(1) by (simp add: inbox_inv_def seed(3))
  next
    case rows
    then show ?thesis using confirm_rows_keeps inv by blast
  qed
qed

lemma transition_keeps:
  assumes "transitionInbox now cursor finish d = (None, d')" and "inbox_inv x d"
  shows "inbox_inv x d'"
proof (cases finish)
  case True
  with assms(1) have "move_inbox (\<lambda>r. ib_cursor r = cursor \<and> ib_state r = InboxApplying \<and> unlinked d cursor) InboxApplied (finish_row now) d = Inr (1, d')"
    by (auto simp: transitionInbox_def WithTransaction_def expect_one_Inr split: if_splits sum.splits)
  then show ?thesis by (rule finish_rows_inv [OF _ assms(2)]) simp
next
  case False
  with assms(1) have "move_inbox (\<lambda>r. ib_cursor r = cursor \<and> ib_state r = InboxPending \<and> unlinked d cursor) InboxApplying (begin_row now) d = Inr (1, d')"
    by (auto simp: transitionInbox_def WithTransaction_def expect_one_Inr split: if_splits sum.splits)
  then show ?thesis by (rule begin_rows_inv [OF _ assms(2)]) simp
qed

end
