(* ===== verification/Client_Events.thy ===== *)
theory Client_Events
  imports Client_Transactions
begin

text \<open>
  The client's store as a state machine: every operation that writes is an event, an event is one
  transaction, and a run is a list of events in any order with any arguments. \<open>Recovered\<close> stands for the
  recovery of conflicts: it adds records of recoveries and takes queued operations back.
\<close>

section \<open>Events\<close>

datatype client_event =
    Enqueued int "client_mutation list"
  | SnapshotReplaced snapshot
  | Captured int snapshot bool "client_db \<Rightarrow> client_error + client_mutation list \<times> uuid list"
  | ReplacedAndEnqueued int snapshot "client_mutation list" "uuid list"
  | Bootstrapped int "client_mutation list"
  | Attempted int uuid
  | Answered uuid client_result
  | Mismatched uuid
  | Confirmed nat
  | Ingested int nat nat "client_change list"
  | RowApplying int nat
  | RowApplied int nat
  | PlannedAhead int nat uuid
  | Abandoned int uuid
  | Retried uuid
  | Advanced
  | Reconciled int
  | Planned int apply_plan
  | Begun int uuid
  | StepApplied uuid int
  | FolderStepApplied uuid int
  | Completed int uuid
  | FolderBound folder_mutation
  | Published folder_publication
  | PublicationConsumed int uuid uuid
  | PublicationCleaned int uuid int
  | IncidentRecorded int uuid nat uuid string string
  | ValueStored string string
  | Recovered "(uuid \<times> string) list" "uuid list" "uuid list" "recovery_row list" "(uuid \<times> nat) list"

definition recovered :: "(uuid \<times> string) list \<Rightarrow> uuid list \<Rightarrow> uuid list \<Rightarrow> recovery_row list \<Rightarrow> (uuid \<times> nat) list \<Rightarrow> client_db \<Rightarrow> client_db" where
  "recovered rs settled answered recoveries preserved d =
     d\<lparr>cd_resolutions := cd_resolutions d @ rs, cd_settled := cd_settled d @ settled,
       cd_settled_conflicts := cd_settled_conflicts d @ answered, cd_recoveries := cd_recoveries d @ recoveries,
       cd_preserved := cd_preserved d @ preserved,
       cd_outbox := update_rows (\<lambda>q. ob_op q \<in> set settled \<and> queued q) (\<lambda>q. q\<lparr>ob_status := OpSuperseded\<rparr>) (cd_outbox d)\<rparr>"

fun client_step :: "ext \<Rightarrow> client_event \<Rightarrow> client_db \<Rightarrow> client_db" where
  "client_step x (Enqueued now ms) d = snd (Enqueue x now ms d)"
| "client_step x (SnapshotReplaced s) d = snd (ReplaceSnapshot s d)"
| "client_step x (Captured now s recovery derive) d = snd (CaptureSnapshot x now s recovery derive d)"
| "client_step x (ReplacedAndEnqueued now s ms is) d = snd (ReplaceSnapshotAndEnqueue x now s ms is d)"
| "client_step x (Bootstrapped now ms) d = snd (PrepareBootstrap x now ms d)"
| "client_step x (Attempted now i) d = snd (MarkAttempted x now i d)"
| "client_step x (Answered i r) d = snd (RecordResult x i r d)"
| "client_step x (Mismatched i) d = snd (RecordReplayMismatch x i d)"
| "client_step x (Confirmed n) d = snd (SetConfirmedCursor n d)"
| "client_step x (Ingested now a b cs) d = snd (IngestPullPage x now a b cs d)"
| "client_step x (RowApplying now c) d = snd (MarkInboxApplying now c d)"
| "client_step x (RowApplied now c) d = snd (MarkInboxApplied now c d)"
| "client_step x (PlannedAhead now c p) d = snd (CreateInboxApplyPlan x now c p d)"
| "client_step x (Abandoned now p) d = snd (AbandonPreparedInboxPlan x now p d)"
| "client_step x (Retried p) d = snd (RetryAbandonedInboxPlan x p d)"
| "client_step x Advanced d = snd (AdvanceConfirmedInboxCursor x d)"
| "client_step x (Reconciled now) d = snd (ReconcileInboxAppliedThroughConfirmed x now d)"
| "client_step x (Planned now plan) d = snd (CreateApplyPlan x now plan d)"
| "client_step x (Begun now p) d = snd (BeginApplyPlan x now p d)"
| "client_step x (StepApplied p n) d = snd (MarkApplyStepApplied x p n d)"
| "client_step x (FolderStepApplied p n) d = snd (MarkFolderStepAppliedAndAuthorizeCleanup x p n d)"
| "client_step x (Completed now p) d = snd (CompleteApplyPlan x now p d)"
| "client_step x (FolderBound m) d = snd (PutFolderMutation x m d)"
| "client_step x (Published f) d = snd (PutFolderPublication x f d)"
| "client_step x (PublicationConsumed now p i) d = snd (MarkFolderPublicationConsumedByDelete x now p i d)"
| "client_step x (PublicationCleaned now p n) d = snd (MarkFolderPublicationCleaned x now p n d)"
| "client_step x (IncidentRecorded now p c i h problem) d = snd (RecordIntegrityIncident x now p c i h problem d)"
| "client_step x (ValueStored key entry) d = snd (SetState key entry d)"
| "client_step x (Recovered rs settled answered recoveries preserved) d = recovered rs settled answered recoveries preserved d"

definition client_run :: "ext \<Rightarrow> client_event list \<Rightarrow> client_db \<Rightarrow> client_db" where
  "client_run x = fold (client_step x)"

lemma client_run_simps [simp]:
  "client_run x [] d = d" "client_run x (e # es) d = client_run x es (client_step x e d)"
  by (simp_all add: client_run_def)

section \<open>What every step keeps\<close>

text \<open>
  A state machine with a property its steps keep, and an order of states they move along: both carry over
  to runs of the allowed events.
\<close>

locale moving_state =
  fixes move :: "'e \<Rightarrow> 's \<Rightarrow> 's" and allowed :: "'s \<Rightarrow> 'e \<Rightarrow> bool" and good :: "'s \<Rightarrow> bool" and later :: "'s \<Rightarrow> 's \<Rightarrow> bool"
  assumes keeps: "good s \<Longrightarrow> allowed s e \<Longrightarrow> good (move e s)"
    and moves: "good s \<Longrightarrow> allowed s e \<Longrightarrow> later s (move e s)"
    and later_refl: "later s s"
    and later_trans: "later r s \<Longrightarrow> later s t \<Longrightarrow> later r t"
begin

fun allowed_run :: "'e list \<Rightarrow> 's \<Rightarrow> bool" where
  "allowed_run [] s \<longleftrightarrow> True"
| "allowed_run (e # es) s \<longleftrightarrow> allowed s e \<and> allowed_run es (move e s)"

lemma run_keeps: "good s \<Longrightarrow> allowed_run es s \<Longrightarrow> good (fold move es s)"
  by (induction es arbitrary: s) (auto intro: keeps)

lemma run_moves: "good s \<Longrightarrow> allowed_run es s \<Longrightarrow> later s (fold move es s)"
proof (induction es arbitrary: s)
  case (Cons e es)
  then have "later s (move e s)" "later (move e s) (fold move es (move e s))" using moves keeps by simp_all
  then show ?case using later_trans by simp
qed (simp add: later_refl)

lemma always_allowed: "(\<And>s e. allowed s e) \<Longrightarrow> allowed_run es s"
  by (induction es arbitrary: s) simp_all

end

lemma snd_WithTransaction: "snd (WithTransaction f d) = (case f d of Inl _ \<Rightarrow> d | Inr d' \<Rightarrow> d')"
  by (simp add: WithTransaction_def split: sum.split)

lemma snd_WithTransactionI: "P d \<Longrightarrow> (\<And>d'. f d = Inr d' \<Longrightarrow> P d') \<Longrightarrow> P (snd (WithTransaction f d))"
  by (simp add: snd_WithTransaction split: sum.split)

section \<open>The invariant\<close>

lemma enqueueTx_inbox:
  assumes "enqueueTx x now ms d = Inr d'"
  shows "cd_baselines d' = cd_baselines d \<and> cd_state d' = cd_state d \<and> cd_inbox d' = cd_inbox d \<and> cd_plans d' = cd_plans d \<and>
    cd_steps d' = cd_steps d \<and> cd_links d' = cd_links d"
  using assms
proof (rule enqueueTx_induct)
  fix m s e s' e'
  assume "enqueue_one x now m (s, e) = Inr (s', e')" and IH: "cd_baselines e = cd_baselines d \<and> cd_state e = cd_state d \<and>
    cd_inbox e = cd_inbox d \<and> cd_plans e = cd_plans d \<and> cd_steps e = cd_steps d \<and> cd_links e = cd_links d"
  from this(1) show "cd_baselines e' = cd_baselines d \<and> cd_state e' = cd_state d \<and> cd_inbox e' = cd_inbox d \<and> cd_plans e' = cd_plans d \<and>
    cd_steps e' = cd_steps d \<and> cd_links e' = cd_links d"
    by (cases rule: enqueue_oneE) (use IH in \<open>simp_all add: enqueued_def supersede_pending_def\<close>)
qed simp

lemma inbox_inv_same:
  assumes "cd_inbox d' = cd_inbox d" "cd_plans d' = cd_plans d" "cd_steps d' = cd_steps d" "cd_links d' = cd_links d"
    and "cd_state d' = cd_state d" "cd_baselines d' = cd_baselines d" and "inbox_inv x d"
  shows "inbox_inv x d'"
  by (rule inbox_inv_frame [of d' d]) (use assms in \<open>simp_all add: baseline_revision_def baseline_at_def\<close>)

lemma enqueueTx_inv:
  assumes "enqueueTx x now ms d = Inr d'" and "client_inv x d"
  shows "client_inv x d'"
proof -
  note same = enqueueTx_inbox [OF assms(1)]
  have "inbox_inv x d'" by (rule inbox_inv_same [of d' d]) (use same assms(2) in \<open>simp_all add: client_inv_def\<close>)
  moreover have "outbox_ok x d' \<and> accepted_known d'"
    by (rule enqueueTx_keeps [OF assms(1)]) (use assms(2) in \<open>simp add: client_inv_def outbox_inv_def\<close>)
  moreover have "baselines_ok x d' = baselines_ok x d" using same by (simp add: baselines_ok_def)
  ultimately show ?thesis using assms(2) by (simp add: client_inv_def outbox_inv_def)
qed

lemma fold_cancel_inv: "client_inv x d \<Longrightarrow> client_inv x (fold cancel_pending is d)"
proof (induction "is" arbitrary: d)
  case (Cons i "is")
  have "inbox_inv x (cancel_pending i d)"
    by (rule inbox_inv_same [of _ d]) (use Cons.prems in \<open>simp_all add: client_inv_def cancel_pending_def\<close>)
  moreover have "outbox_inv x (cancel_pending i d)"
    using Cons.prems supersede_pending_keeps(3,4) by (simp add: client_inv_def outbox_inv_def cancel_pending_def)
  ultimately show ?case using Cons.IH by (simp add: client_inv_def)
qed simp

lemma insert_index_objects_same:
  "fold_result insert_index_object rs d = Inr d' \<Longrightarrow> d' = d\<lparr>cd_objects := cd_objects d'\<rparr>"
proof (induction rs arbitrary: d)
  case (Cons r rs)
  then obtain d1 where d1: "insert_index_object r d = Inr d1" "fold_result insert_index_object rs d1 = Inr d'" by (auto elim: rbind_InrE)
  from insert_index_object_Inr [OF d1(1)] Cons.IH [OF d1(2)] show ?case
    by (metis (no_types, lifting) client_db.update_convs(1) client_db.select_convs(1) client_db.surjective)
qed simp

section \<open>Two transactions taken apart\<close>

lemma captureE:
  obtains "snd (CaptureSnapshot x now s recovery derive d) = d" | "ReplaceSnapshotTx s d = Inr (snd (CaptureSnapshot x now s recovery derive d))"
  | ms cancelled where "derive d = Inr (ms, cancelled)"
      "replaceSnapshotAndEnqueueTx x now s ms cancelled d = Inr (snd (CaptureSnapshot x now s recovery derive d))"
proof -
  let ?f = "\<lambda>d. if recovery \<or> cd_state d ''bootstrap_required'' = Some ''1'' then ReplaceSnapshotTx s d
    else rbind (derive d) (\<lambda>(ms, cancelled). replaceSnapshotAndEnqueueTx x now s ms cancelled d)"
  have run: "snd (CaptureSnapshot x now s recovery derive d) = (case ?f d of Inl e \<Rightarrow> d | Inr d' \<Rightarrow> d')"
    by (simp add: CaptureSnapshot_def snd_WithTransaction)
  show thesis
  proof (cases "?f d")
    case (Inl e)
    with run show thesis by (simp add: that(1))
  next
    case (Inr d')
    then have eq: "snd (CaptureSnapshot x now s recovery derive d) = d'" using run by simp
    show thesis
    proof (cases "recovery \<or> cd_state d ''bootstrap_required'' = Some ''1''")
      case True
      with Inr show thesis by (intro that(2)) (simp add: eq)
    next
      case False
      with Inr have "rbind (derive d) (\<lambda>(ms, cancelled). replaceSnapshotAndEnqueueTx x now s ms cancelled d) = Inr d'" by simp
      then obtain r where "derive d = Inr r" "(\<lambda>(ms, cancelled). replaceSnapshotAndEnqueueTx x now s ms cancelled d) r = Inr d'"
        by (rule rbind_InrE)
      then show thesis by (intro that(3) [of "fst r" "snd r"]) (simp_all add: eq split_def)
    qed
  qed
qed

lemma bootstrapE:
  obtains "snd (PrepareBootstrap x now ms d) = d"
  | e where "enqueueTx x now ms d = Inr e" "snd (PrepareBootstrap x now ms d) = e\<lparr>cd_state := (cd_state e)(''bootstrap_required'' \<mapsto> ''0'')\<rparr>"
proof -
  let ?f = "\<lambda>d. case cd_state d ''bootstrap_required'' of None \<Rightarrow> Inl NoRows
        | Some text \<Rightarrow> if text \<noteq> ''1'' then Inl (Failed ''sync bootstrap is not required'')
            else rbind (enqueueTx x now ms d) (\<lambda>d. Inr (d\<lparr>cd_state := (cd_state d)(''bootstrap_required'' \<mapsto> ''0'')\<rparr>))"
  have run: "snd (PrepareBootstrap x now ms d) = (case ?f d of Inl e \<Rightarrow> d | Inr d' \<Rightarrow> d')"
    by (simp add: PrepareBootstrap_def snd_WithTransaction)
  show thesis
  proof (cases "?f d")
    case (Inl e)
    with run show thesis by (simp add: that(1))
  next
    case (Inr d')
    then obtain e where "enqueueTx x now ms d = Inr e" "d' = e\<lparr>cd_state := (cd_state e)(''bootstrap_required'' \<mapsto> ''0'')\<rparr>"
      by (auto elim: rbind_InrE split: option.splits if_splits)
    with run Inr show thesis by (simp add: that(2))
  qed
qed

end
