(* ===== verification/Client_Runs.thy ===== *)
theory Client_Runs
  imports Client_Events
begin

text \<open>
  Every event of the client's store keeps its invariant, whatever its arguments are and whatever it answers,
  and only moves it on: rows are added and never lost, their payload stays, a state that is final stays
  final, and no cursor and no baseline goes back.
\<close>

section \<open>Events on the outbox\<close>

lemma client_inv_same:
  assumes "cd_outbox d' = cd_outbox d" "cd_deps d' = cd_deps d" "cd_intents d' = cd_intents d" "cd_conflicts d' = cd_conflicts d"
    "cd_baselines d' = cd_baselines d" "cd_inbox d' = cd_inbox d" "cd_plans d' = cd_plans d" "cd_steps d' = cd_steps d"
    "cd_links d' = cd_links d"
    and "cd_state d' ''downloaded_cursor'' = cd_state d ''downloaded_cursor''"
    and "cd_state d' ''confirmed_cursor'' = cd_state d ''confirmed_cursor''"
    and "client_inv x d"
  shows "client_inv x d'"
proof -
  have "inbox_inv x d'"
    by (rule inbox_inv_frame [of d' d]) (use assms in \<open>simp_all add: client_inv_def baseline_revision_def baseline_at_def\<close>)
  moreover have "outbox_inv x d' = outbox_inv x d" by (rule outbox_inv_frame) (use assms in simp_all)
  ultimately show ?thesis using assms(12) by (simp add: client_inv_def)
qed

lemma client_invD:
  assumes "client_inv x d"
  shows "outbox_ok x d" "accepted_known d" "baselines_ok x d" "inbox_inv x d" "cursors_ok d" "inbox_ok x d" "plans_ok x d" "links_ok d"
    "completed_known d"
  using assms by (simp_all add: client_inv_def outbox_inv_def inbox_inv_def)

lemma with_result_fields [simp]:
  "cd_inbox (with_result i r d) = cd_inbox d" "cd_plans (with_result i r d) = cd_plans d" "cd_steps (with_result i r d) = cd_steps d"
  "cd_links (with_result i r d) = cd_links d" "cd_state (with_result i r d) = cd_state d" "cd_baselines (with_result i r d) = cd_baselines d"
  "cd_deps (with_result i r d) = cd_deps d" "cd_intents (with_result i r d) = cd_intents d"
  by (simp_all add: with_result_def)

lemma replaced_snapshot:
  assumes "ReplaceSnapshotTx s d = Inr d'"
  shows "d' = d\<lparr>cd_objects := cd_objects d', cd_issues := cd_issues d'\<rparr>"
  by (rule snapshot_read_back(4) [OF assms])

lemma replaced_snapshot_inv:
  assumes "ReplaceSnapshotTx s d = Inr d'" and "client_inv x d"
  shows "client_inv x d'"
proof -
  obtain objects issues where d': "d' = d\<lparr>cd_objects := objects, cd_issues := issues\<rparr>"
    using replaced_snapshot [OF assms(1)] by blast
  show ?thesis by (rule client_inv_same [of d' d]) (simp_all add: d' assms(2))
qed

lemma replaced_and_enqueued_inv:
  assumes "replaceSnapshotAndEnqueueTx x now s ms is d = Inr d'" and "client_inv x d"
  shows "client_inv x d'"
proof -
  from assms(1) obtain e where "ReplaceSnapshotTx s d = Inr e" "enqueueTx x now ms (fold cancel_pending is e) = Inr d'"
    by (auto simp: replaceSnapshotAndEnqueueTx_def elim: rbind_InrE)
  then show ?thesis using replaced_snapshot_inv assms(2) fold_cancel_inv enqueueTx_inv by blast
qed

lemma bootstrapped_inv:
  assumes "enqueueTx x now ms d = Inr e" and "client_inv x d"
  shows "client_inv x (e\<lparr>cd_state := (cd_state e)(''bootstrap_required'' \<mapsto> ''0'')\<rparr>)"
  by (rule client_inv_same [of _ e]) (use enqueueTx_inv [OF assms] in simp_all)

lemma attempt_inv:
  assumes "mark_attempted x now i d = Inr d'" and "client_inv x d"
  shows "client_inv x d'"
proof -
  have "outbox_inv x d'" using mark_attempted_keeps [OF assms(1) client_invD(1-3) [OF assms(2)]] by (simp add: outbox_inv_def)
  moreover obtain rows where "d' = d\<lparr>cd_outbox := rows\<rparr>"
    using assms(1) by (auto simp: mark_attempted_def Let_def split: if_splits)
  then have "inbox_inv x d'" by (intro inbox_inv_same [of d' d]) (use assms(2) in \<open>simp_all add: client_inv_def\<close>)
  ultimately show ?thesis by (simp add: client_inv_def)
qed

lemma mismatch_inv:
  assumes "settle_operation i (\<lambda>q. q\<lparr>ob_status := OpReplayMismatch\<rparr>) e d = Inr d'" and "client_inv x d"
  shows "client_inv x d'"
proof -
  have "outbox_inv x d'" using finalStatus_keeps [OF assms(1) client_invD(1-3) [OF assms(2)]] by (simp add: outbox_inv_def)
  moreover obtain rows where "d' = d\<lparr>cd_outbox := rows\<rparr>"
    using assms(1) by (auto simp: settle_operation_def Let_def split: if_splits)
  then have "inbox_inv x d'" by (intro inbox_inv_same [of d' d]) (use assms(2) in \<open>simp_all add: client_inv_def\<close>)
  ultimately show ?thesis by (simp add: client_inv_def)
qed

lemma answer_inv:
  assumes "record_result i r d = Inr d'" and "validate_result x i r = Inr ()" and inv: "client_inv x d"
  shows "client_inv x d'"
proof -
  have "outbox_inv x d'" using record_result_keeps [OF assms(1,2) client_invD(1-3) [OF inv]] by (simp add: outbox_inv_def)
  moreover have "inbox_inv x d'"
    using assms(1,2)
  proof (cases rule: record_resultE)
    case (accepted q)
    then show ?thesis
      by (intro inbox_inv_frame [of d' d]) (use inv in \<open>simp_all add: client_inv_def raise_baseline_revision\<close>)
  next
    case conflict
    then show ?thesis
      by (intro inbox_inv_same [of d' d]) (use inv in \<open>simp_all add: client_inv_def split: option.split\<close>)
  qed
  ultimately show ?thesis by (simp add: client_inv_def)
qed

lemma recovered_inv:
  assumes "client_inv x d"
  shows "client_inv x (recovered rs settled answered recoveries preserved d)"
proof -
  let ?P = "\<lambda>q. ob_op q \<in> set settled \<and> queued q"
  let ?e = "d\<lparr>cd_outbox := update_rows ?P (\<lambda>q. q\<lparr>ob_status := OpSuperseded\<rparr>) (cd_outbox d)\<rparr>"
  from assms have inv: "outbox_ok x d" "accepted_known d" "baselines_ok x d" "inbox_inv x d" by (simp_all add: client_inv_def outbox_inv_def)
  have "outbox_ok x ?e"
    by (rule outbox_update [OF inv(1)]) (auto simp: op_payload_def results_fit_def queued_def)
  moreover have "accepted_known ?e" by (rule accepted_update [OF inv(2)]) (simp_all add: op_payload_def)
  ultimately have "outbox_inv x ?e" using inv(3) by (simp add: outbox_inv_def)
  moreover have "inbox_inv x ?e" by (rule inbox_inv_same [of _ d]) (simp_all add: inv(4))
  ultimately have "client_inv x ?e" by (simp add: client_inv_def)
  then show ?thesis by (rule client_inv_same [rotated 11]) (simp_all add: recovered_def)
qed

section \<open>Events on the inbox and the plans\<close>

lemma outbox_untouched:
  assumes "inbox_inv x d'" and "client_inv x d"
    and "cd_outbox d' = cd_outbox d" "cd_deps d' = cd_deps d" "cd_intents d' = cd_intents d" "cd_conflicts d' = cd_conflicts d"
      "cd_baselines d' = cd_baselines d"
  shows "client_inv x d'"
  using assms outbox_inv_frame [of d' d x] by (simp add: client_inv_def)

lemma plan_event_inv:
  assumes "client_inv x d" and "inbox_inv x d \<Longrightarrow> inbox_inv x d'" and "outbox_inv x d' = outbox_inv x d"
  shows "client_inv x d'"
  using assms by (simp add: client_inv_def)

section \<open>Moving on\<close>

definition grown :: "('a \<Rightarrow> 'a \<Rightarrow> bool) \<Rightarrow> 'a list \<Rightarrow> 'a list \<Rightarrow> bool" where
  "grown R xs ys \<longleftrightarrow> (\<exists>zs ws. ys = zs @ ws \<and> list_all2 R xs zs)"

lemma grown_refl: "(\<And>x. R x x) \<Longrightarrow> grown R xs xs"
  unfolding grown_def by (rule exI [of _ xs]) (auto intro: list_all2_refl)

lemma grown_append: "(\<And>x. R x x) \<Longrightarrow> grown R xs (xs @ ys)"
  unfolding grown_def by (blast intro: list_all2_refl)

lemma grown_update: "(\<And>x. R x x) \<Longrightarrow> (\<And>x. x \<in> set xs \<Longrightarrow> P x \<Longrightarrow> R x (f x)) \<Longrightarrow> grown R xs (update_rows P f xs)"
  unfolding grown_def update_rows_def
  by (rule exI [of _ "map (\<lambda>r. if P r then f r else r) xs"]) (auto simp: list_all2_map2 list_all2_same)

lemma grown_trans:
  assumes "grown R xs ys" "grown R ys zs" and trans: "\<And>a b c. R a b \<Longrightarrow> R b c \<Longrightarrow> R a c"
  shows "grown R xs zs"
proof -
  from assms(1) obtain ys1 ys2 where ys: "ys = ys1 @ ys2" "list_all2 R xs ys1" by (auto simp: grown_def)
  from assms(2) ys(1) obtain us vs ws where zs: "zs = (us @ vs) @ ws" "list_all2 R ys1 us" by (auto simp: grown_def list_all2_append1)
  have "list_all2 R xs us" using list_all2_trans [OF trans ys(2) zs(2)] .
  then show ?thesis using zs(1) by (auto simp: grown_def)
qed

lemma grown_nth: "grown R xs ys \<Longrightarrow> n < length xs \<Longrightarrow> n < length ys \<and> R (xs ! n) (ys ! n)"
  by (auto simp: grown_def list_all2_conv_all_nth nth_append)

lemma grown_member:
  assumes "grown R xs ys" and "r \<in> set xs"
  shows "\<exists>s\<in>set ys. R r s"
proof -
  from assms(2) obtain n where "n < length xs" "r = xs ! n" by (auto simp: in_set_conv_nth)
  with grown_nth [OF assms(1)] have "ys ! n \<in> set ys" "R r (ys ! n)" by simp_all
  then show ?thesis ..
qed

lemma grown_origin:
  assumes "grown R xs ys" and "y \<in> set ys"
  shows "y \<in> set (drop (length xs) ys) \<or> (\<exists>r\<in>set xs. R r y)"
proof -
  from assms(2) obtain n where n: "n < length ys" "y = ys ! n" by (auto simp: in_set_conv_nth)
  show ?thesis
  proof (cases "n < length xs")
    case True
    then have "xs ! n \<in> set xs" "R (xs ! n) y" using grown_nth [OF assms(1) True] n(2) by simp_all
    then show ?thesis by blast
  next
    case False
    then have "drop (length xs) ys ! (n - length xs) = y" "n - length xs < length (drop (length xs) ys)" using n by simp_all
    then show ?thesis by (metis nth_mem)
  qed
qed

text \<open>How a row of each table may change.\<close>

definition op_later :: "outbox_op \<Rightarrow> outbox_op \<Rightarrow> bool" where
  "op_later q q' \<longleftrightarrow>
     op_payload q' = op_payload q \<and> (\<not> queued q \<longrightarrow> q' = q) \<and>
     (ob_attempted q \<noteq> None \<longrightarrow> ob_attempted q' = ob_attempted q) \<and>
     (ob_status q' = OpPending \<longrightarrow> ob_status q = OpPending)"

fun inbox_rank :: "inbox_state \<Rightarrow> nat" where
  "inbox_rank InboxPending = 0"
| "inbox_rank InboxApplying = 1"
| "inbox_rank InboxApplied = 2"

definition row_later :: "inbox_row \<Rightarrow> inbox_row \<Rightarrow> bool" where
  "row_later r r' \<longleftrightarrow>
     inbox_payload r' = inbox_payload r \<and> inbox_rank (ib_state r) \<le> inbox_rank (ib_state r') \<and> (ib_state r = InboxApplied \<longrightarrow> r' = r)"

definition plan_later :: "plan_row \<Rightarrow> plan_row \<Rightarrow> bool" where
  "plan_later q q' \<longleftrightarrow> plan_key q' = plan_key q \<and> (ap_status q = PlanCompleted \<longrightarrow> q' = q)"

definition step_later :: "step_row \<Rightarrow> step_row \<Rightarrow> bool" where
  "step_later s s' \<longleftrightarrow> s' = s \<or> s' = s\<lparr>st_applied := True\<rparr>"

definition outbox_later :: "client_db \<Rightarrow> client_db \<Rightarrow> bool" where
  "outbox_later d d' \<longleftrightarrow>
     grown op_later (cd_outbox d) (cd_outbox d') \<and> grown (=) (cd_deps d) (cd_deps d') \<and>
     (\<forall>i. baseline_revision d i \<le> baseline_revision d' i)"

definition inbox_later :: "client_db \<Rightarrow> client_db \<Rightarrow> bool" where
  "inbox_later d d' \<longleftrightarrow>
     grown row_later (cd_inbox d) (cd_inbox d') \<and> grown plan_later (cd_plans d) (cd_plans d') \<and>
     grown step_later (cd_steps d) (cd_steps d') \<and> grown (=) (cd_links d) (cd_links d') \<and>
     downloaded_of d \<le> downloaded_of d' \<and> confirmed_of d \<le> confirmed_of d'"

definition client_later :: "client_db \<Rightarrow> client_db \<Rightarrow> bool" where
  "client_later d d' \<longleftrightarrow> outbox_later d d' \<and> inbox_later d d'"

lemma rows_later_refl [simp]: "op_later q q" "row_later r r" "plan_later p p" "step_later s s"
  by (simp_all add: op_later_def row_later_def plan_later_def step_later_def)

lemma grown_same [simp]: "grown op_later qs qs" "grown row_later rs rs" "grown plan_later ps ps" "grown step_later ss ss" "grown (=) xs xs"
  by (rule grown_refl; simp)+

lemma op_later_trans:
  assumes "op_later a b" "op_later b c"
  shows "op_later a c"
proof (cases "queued a")
  case True
  with assms show ?thesis by (simp add: op_later_def)
next
  case False
  with assms(1) have "b = a" by (simp add: op_later_def)
  with assms(2) show ?thesis by simp
qed

lemma row_later_trans:
  assumes "row_later a b" "row_later b c"
  shows "row_later a c"
proof (cases "ib_state a = InboxApplied")
  case True
  with assms(1) have "b = a" by (simp add: row_later_def)
  with assms(2) show ?thesis by simp
next
  case False
  with assms show ?thesis by (simp add: row_later_def)
qed

lemma plan_later_trans:
  assumes "plan_later a b" "plan_later b c"
  shows "plan_later a c"
proof (cases "ap_status a = PlanCompleted")
  case True
  with assms(1) have "b = a" by (simp add: plan_later_def)
  with assms(2) show ?thesis by simp
next
  case False
  with assms show ?thesis by (simp add: plan_later_def)
qed

lemma step_later_trans: "step_later a b \<Longrightarrow> step_later b c \<Longrightarrow> step_later a c"
  unfolding step_later_def by auto

lemma grown_eq_trans: "grown (=) xs ys \<Longrightarrow> grown (=) ys zs \<Longrightarrow> grown (=) xs zs"
  by (rule grown_trans) simp_all

lemma grown_op_trans: "grown op_later xs ys \<Longrightarrow> grown op_later ys zs \<Longrightarrow> grown op_later xs zs"
  by (erule (1) grown_trans) (rule op_later_trans)

lemma grown_row_trans: "grown row_later xs ys \<Longrightarrow> grown row_later ys zs \<Longrightarrow> grown row_later xs zs"
  by (erule (1) grown_trans) (rule row_later_trans)

lemma grown_plan_trans: "grown plan_later xs ys \<Longrightarrow> grown plan_later ys zs \<Longrightarrow> grown plan_later xs zs"
  by (erule (1) grown_trans) (rule plan_later_trans)

lemma grown_step_trans: "grown step_later xs ys \<Longrightarrow> grown step_later ys zs \<Longrightarrow> grown step_later xs zs"
  by (erule (1) grown_trans) (rule step_later_trans)

lemma outbox_later_trans:
  assumes "outbox_later r s" "outbox_later s t"
  shows "outbox_later r t"
proof -
  have "baseline_revision r i \<le> baseline_revision t i" for i
    using assms le_trans [of "baseline_revision r i" "baseline_revision s i"] by (simp add: outbox_later_def)
  then show ?thesis
    using assms grown_op_trans grown_eq_trans unfolding outbox_later_def by blast
qed

lemma inbox_later_trans:
  assumes "inbox_later r s" "inbox_later s t"
  shows "inbox_later r t"
proof -
  have "grown row_later (cd_inbox r) (cd_inbox t)" "grown plan_later (cd_plans r) (cd_plans t)" "grown step_later (cd_steps r) (cd_steps t)"
    using assms grown_row_trans grown_plan_trans grown_step_trans
    unfolding inbox_later_def by blast+
  moreover have "grown (=) (cd_links r) (cd_links t)" using assms grown_eq_trans unfolding inbox_later_def by blast
  ultimately show ?thesis using assms by (simp add: inbox_later_def)
qed

lemma client_later_trans: "client_later r s \<Longrightarrow> client_later s t \<Longrightarrow> client_later r t"
  unfolding client_later_def using outbox_later_trans inbox_later_trans by blast

lemma client_later_refl [simp]: "client_later d d"
  by (simp add: client_later_def outbox_later_def inbox_later_def)

lemma inbox_later_same:
  assumes "cd_inbox d' = cd_inbox d" "cd_plans d' = cd_plans d" "cd_steps d' = cd_steps d" "cd_links d' = cd_links d"
    and "cd_state d' ''downloaded_cursor'' = cd_state d ''downloaded_cursor''"
    and "cd_state d' ''confirmed_cursor'' = cd_state d ''confirmed_cursor''"
  shows "inbox_later d d'"
  using assms cursor_fields(2,3) [OF assms(5,6)] by (simp add: inbox_later_def)

lemma outbox_later_same:
  assumes "cd_outbox d' = cd_outbox d" "cd_deps d' = cd_deps d" and "\<And>i. baseline_revision d i \<le> baseline_revision d' i"
  shows "outbox_later d d'"
  using assms by (simp add: outbox_later_def)

lemma outbox_later_rows:
  assumes "\<And>q. q \<in> set (cd_outbox d) \<Longrightarrow> P q \<Longrightarrow> op_later q (f q)"
  shows "outbox_later d (d\<lparr>cd_outbox := update_rows P f (cd_outbox d)\<rparr>)"
  using grown_update [of op_later "cd_outbox d" P f] assms by (simp add: outbox_later_def baseline_revision_def baseline_at_def)

section \<open>The outbox moves on\<close>

lemma enqueueTx_later:
  assumes "enqueueTx x now ms d = Inr d'" and "outbox_ok x d \<and> accepted_known d"
  shows "outbox_later d d'"
proof -
  have "(outbox_ok x d' \<and> accepted_known d') \<and> outbox_later d d'"
    using assms(1)
  proof (rule enqueueTx_induct)
    fix m s e s' e'
    assume run: "enqueue_one x now m (s, e) = Inr (s', e')"
      and IH: "(outbox_ok x e \<and> accepted_known e) \<and> outbox_later d e"
    have "outbox_later e e'"
      using run
    proof (cases rule: enqueue_oneE)
      case skip
      then show ?thesis by (simp add: outbox_later_same)
    next
      case (new e1 projection)
      have rows: "results_fit q" if "q \<in> set (cd_outbox e)" for q
        using IH that by (simp add: outbox_ok_def outbox_row_ok_def)
      have first: "outbox_later e e1"
      proof (cases "cm_object m \<in> set s")
        case False
        then have "e1 = supersede_pending m e" using new(4) by simp
        then show ?thesis
          unfolding supersede_pending_def
          by (simp only:) (rule outbox_later_rows, use rows in \<open>auto simp: op_later_def op_payload_def queued_def results_fit_def\<close>)
      qed (use new(4) in \<open>simp add: outbox_later_same\<close>)
      have "outbox_later e1 e'"
        using new(5) grown_append [of op_later] grown_append [of "(=)"]
        by (simp add: outbox_later_def enqueued_def baseline_revision_def baseline_at_def)
      with first show ?thesis by (rule outbox_later_trans)
    qed
    moreover have "outbox_ok x e' \<and> accepted_known e'" using enqueue_one_keeps [OF run] IH by blast
    ultimately show "(outbox_ok x e' \<and> accepted_known e') \<and> outbox_later d e'"
      using IH outbox_later_trans by blast
  qed (simp add: assms(2) outbox_later_same)
  then show ?thesis by simp
qed

lemma enqueued_moves:
  assumes "enqueueTx x now ms d = Inr d'" and "client_inv x d"
  shows "client_later d d'"
proof -
  note same = enqueueTx_inbox [OF assms(1)]
  have "inbox_later d d'" by (rule inbox_later_same) (simp_all add: same)
  moreover have "outbox_later d d'" using enqueueTx_later [OF assms(1)] client_invD(1,2) [OF assms(2)] by blast
  ultimately show ?thesis by (simp add: client_later_def)
qed

lemma rows_moves:
  assumes "\<And>q. q \<in> set (cd_outbox d) \<Longrightarrow> P q \<Longrightarrow> op_later q (f q)"
  shows "client_later d (d\<lparr>cd_outbox := update_rows P f (cd_outbox d)\<rparr>)"
  using outbox_later_rows [OF assms] by (simp add: client_later_def inbox_later_same)

lemma fold_cancel_moves: "client_later d (fold cancel_pending is d)"
proof (induction "is" arbitrary: d)
  case (Cons i "is")
  have "client_later d (cancel_pending i d)"
    unfolding cancel_pending_def by (rule rows_moves) (auto simp: op_later_def op_payload_def queued_def)
  then show ?case using Cons.IH client_later_trans by fastforce
qed simp

lemma tables_moves:
  assumes "cd_outbox d' = cd_outbox d" "cd_deps d' = cd_deps d" "cd_baselines d' = cd_baselines d"
    "cd_inbox d' = cd_inbox d" "cd_plans d' = cd_plans d" "cd_steps d' = cd_steps d" "cd_links d' = cd_links d"
    "cd_state d' ''downloaded_cursor'' = cd_state d ''downloaded_cursor''"
    "cd_state d' ''confirmed_cursor'' = cd_state d ''confirmed_cursor''"
  shows "client_later d d'"
  using outbox_later_same [of d' d] inbox_later_same [of d' d] assms
  by (simp add: client_later_def baseline_revision_def baseline_at_def)

section \<open>The inbox and the plans move on\<close>

lemma inbox_moves:
  assumes "inbox_later d d'" and "cd_outbox d' = cd_outbox d" "cd_deps d' = cd_deps d"
    and "\<And>i. baseline_revision d i \<le> baseline_revision d' i"
  shows "client_later d d'"
  using assms outbox_later_same [of d' d] by (simp add: client_later_def)

lemma cursors_of_fields [simp]:
  "downloaded_of (moved_rows P f d) = downloaded_of d" "confirmed_of (moved_rows P f d) = confirmed_of d"
  "downloaded_of (with_status p a b g d) = downloaded_of d" "confirmed_of (with_status p a b g d) = confirmed_of d"
  "downloaded_of (applied_steps Q d) = downloaded_of d" "confirmed_of (applied_steps Q d) = confirmed_of d"
  "downloaded_of (add_plan plan ss d) = downloaded_of d" "confirmed_of (add_plan plan ss d) = confirmed_of d"
  "downloaded_of (raise_steps ss d) = downloaded_of d" "confirmed_of (raise_steps ss d) = confirmed_of d"
  "downloaded_of (raise_baseline i n u d) = downloaded_of d" "confirmed_of (raise_baseline i n u d) = confirmed_of d"
  by (rule cursor_fields; simp)+

lemma begin_moves:
  assumes "move_inbox P InboxApplying (begin_row now) d = Inr (n, d')" and "\<And>r. P r \<Longrightarrow> ib_state r = InboxPending"
  shows "client_later d d'"
proof -
  have "grown row_later (cd_inbox d) (update_rows P (begin_row now) (cd_inbox d))"
    by (rule grown_update) (use assms(2) in \<open>auto simp: row_later_def begin_row_def inbox_payload_def\<close>)
  then show ?thesis
    using assms(1) by (intro inbox_moves) (auto simp: move_inbox_Inr inbox_later_def baseline_revision_def baseline_at_def)
qed

lemma finish_moves:
  assumes "move_inbox P InboxApplied (finish_row now) d = Inr (n, d')" and "\<And>r. P r \<Longrightarrow> ib_state r = InboxApplying"
  shows "client_later d d'"
proof -
  have "grown row_later (cd_inbox d) (update_rows P (finish_row now) (cd_inbox d))"
    by (rule grown_update) (use assms(2) in \<open>auto simp: row_later_def finish_row_def inbox_payload_def\<close>)
  then show ?thesis
    using assms(1) by (intro inbox_moves) (auto simp: move_inbox_Inr inbox_later_def baseline_revision_def baseline_at_def)
qed

lemma status_moves:
  assumes "set_plan_status p from to f e d = Inr d'" and "plans_ok x d" and "\<And>q. plan_key (f q) = plan_key q" and "from \<noteq> PlanCompleted"
  shows "client_later d d'"
proof -
  have key: "plan_key ((f q)\<lparr>ap_status := to\<rparr>) = plan_key q" for q using assms(3) [of q] by (simp add: plan_key_def)
  have "grown plan_later (cd_plans d) (cd_plans (with_status p from to f d))"
    unfolding with_status_def by simp (rule grown_update, use assms(4) key in \<open>auto simp: plan_later_def\<close>)
  then show ?thesis
    unfolding set_plan_status_Inr(1) [OF assms(1,2)] by (intro inbox_moves) (simp_all add: inbox_later_def)
qed

lemma steps_moves: "client_later d (applied_steps P d)"
proof -
  have "grown step_later (cd_steps d) (cd_steps (applied_steps P d))"
    unfolding applied_steps_def by simp (rule grown_update, simp_all add: step_later_def)
  then show ?thesis by (intro inbox_moves) (simp_all add: inbox_later_def)
qed

lemma apply_steps_moves: "apply_step_rows P d = Inr (n, d') \<Longrightarrow> client_later d d'"
  using steps_moves by (simp add: apply_step_rows_Inr)

lemma add_plan_moves: "client_later d (add_plan plan ss d)"
  using grown_append [of plan_later] grown_append [of step_later]
  by (intro inbox_moves) (simp_all add: inbox_later_def baseline_revision_def baseline_at_def)

lemma create_plan_moves:
  assumes "create_plan x now plan d = Inr d'" and "client_inv x d" and "pl_through plan \<le> MaxInt64"
  shows "client_later d d'"
  using assms(1) client_invD(5) [OF assms(2)] assms(3) add_plan_moves by (blast elim: create_planE)

lemma create_inbox_plan_moves:
  assumes "create_inbox_plan x now cursor p d = Inr d'" and "client_inv x d"
  shows "client_later d d'"
  using assms(1) client_invD(6) [OF assms(2)]
proof (rule create_inbox_planE)
  fix r bs
  let ?e = "add_plan (prepared p (cursor - 1) cursor now) [step_of_row p r] d"
  assume d': "d' = ?e\<lparr>cd_bindings := bs, cd_links := cd_links d @ [(p, cursor)]\<rparr>"
  have "downloaded_of d' = downloaded_of d" "confirmed_of d' = confirmed_of d" by (rule cursor_fields; simp add: d')+
  then show ?thesis
    using grown_append [of plan_later] grown_append [of step_later] grown_append [of "(=)"]
    by (intro inbox_moves) (simp_all add: inbox_later_def baseline_revision_def baseline_at_def d')
qed

lemma begin_planE:
  assumes "begin_plan now p d = Inr d'"
  obtains "d' = d" | f where "set_plan_status p PlanPrepared PlanApplying id f d = Inr d'"
    | c e f where "move_inbox (\<lambda>r. ib_cursor r = c \<and> ib_state r = InboxPending) InboxApplying (begin_row now) d = Inr (1, e)"
        "set_plan_status p PlanPrepared PlanApplying id f e = Inr d'"
proof (cases "link_cursor d p")
  case None
  with assms have "d' = d \<or> set_plan_status p PlanPrepared PlanApplying id Refused d = Inr d'"
    by (auto simp: begin_plan_def split: option.splits if_splits)
  then show thesis using that by blast
next
  case (Some c)
  with assms have run: "begin_linked now p c d = Inr d'" by (simp add: begin_plan_def)
  then have "d' = d \<or> (\<exists>f. set_plan_status p PlanPrepared PlanApplying id f d = Inr d') \<or>
    (\<exists>e f. move_inbox (\<lambda>r. ib_cursor r = c \<and> ib_state r = InboxPending) InboxApplying (begin_row now) d = Inr (1, e) \<and>
      set_plan_status p PlanPrepared PlanApplying id f e = Inr d')"
    by (auto simp: begin_linked_def expect_one_Inr elim!: rbind_InrE split: option.splits if_splits)
  then show thesis using that by blast
qed

lemma begin_plan_moves:
  assumes "begin_plan now p d = Inr d'" and "client_inv x d"
  shows "client_later d d'"
proof -
  have status: "client_later e d'" if "plans_ok x e" "set_plan_status p PlanPrepared PlanApplying id f e = Inr d'" for e f
    by (rule status_moves [OF that(2,1)]) simp_all
  consider "d' = d" | f where "set_plan_status p PlanPrepared PlanApplying id f d = Inr d'"
    | c e f where "move_inbox (\<lambda>r. ib_cursor r = c \<and> ib_state r = InboxPending) InboxApplying (begin_row now) d = Inr (1, e)"
        "set_plan_status p PlanPrepared PlanApplying id f e = Inr d'"
    using assms(1) by (rule begin_planE)
  then show ?thesis
  proof cases
    case (3 c e f)
    have "inbox_inv x e" by (rule begin_rows_inv [OF 3(1) client_invD(4) [OF assms(2)]]) simp
    then have "client_later e d'" using status 3(2) by (auto simp: inbox_inv_def)
    moreover have "client_later d e" by (rule begin_moves [OF 3(1)]) simp
    ultimately show ?thesis using client_later_trans by blast
  qed (use status client_invD(7) [OF assms(2)] in auto)
qed

lemma mark_applied_moves:
  assumes "mark_applied p n d = Inr d'"
  shows "client_later d d'"
proof -
  from assms obtain count where "apply_step_rows (\<lambda>s. stkey s = (p, n) \<and> \<not> st_applied s \<and> plan_is d p PlanApplying) d = Inr (count, d')"
    by (auto simp: mark_applied_def elim!: rbind_InrE split: if_splits option.splits)
  then show ?thesis by (rule apply_steps_moves)
qed

lemma mark_folder_applied_moves:
  assumes "mark_folder_applied p n d = Inr d'"
  shows "client_later d d'"
  using assms
proof (rule mark_folder_appliedE)
  fix s e f
  assume e: "(if st_applied s then Inr d else expect_one (Failed ''folder apply plan is not active'')
      (apply_step_rows (\<lambda>s. stkey s = (p, n) \<and> plan_is d p PlanApplying) d)) = Inr e" and d': "d' = e\<lparr>cd_publications := f\<rparr>"
  have "client_later d e" using e apply_steps_moves by (auto simp: expect_one_Inr split: if_splits)
  moreover have "client_later e d'" by (rule tables_moves) (simp_all add: d')
  ultimately show ?thesis by (rule client_later_trans)
qed

lemma abandon_retry_moves:
  assumes "client_inv x d"
  shows "abandon_plan now p d = Inr d' \<Longrightarrow> client_later d d'" "retry_plan p d = Inr d' \<Longrightarrow> client_later d d'"
  using status_moves [OF _ client_invD(7) [OF assms]] by (auto simp: abandon_plan_def retry_plan_def split: if_splits)

lemma set_confirmed_moves:
  assumes "cursors_ok d" and "confirmed_of d \<le> n" and "n \<le> MaxInt64"
  shows "client_later d (set_confirmed n d)"
proof -
  note set = set_cursors(5,6) [OF assms(1,3)]
  show ?thesis
    by (rule inbox_moves) (use set assms(2) in \<open>simp_all add: inbox_later_def set_confirmed_def baseline_revision_def baseline_at_def\<close>)
qed

lemma advance_moves:
  assumes "advanceConfirmedInboxCursorTx x d = Inr (n, d')" and "inbox_inv x d"
  shows "client_later d d'"
proof -
  have ok: "cursors_ok d" "inbox_ok x d" using assms(2) by (simp_all add: inbox_inv_def)
  from advanceE [OF assms(1) ok] have "d' = (if n = confirmed_of d then d else set_confirmed n d)" "confirmed_of d \<le> n" "n \<le> MaxInt64"
    by simp_all
  then show ?thesis using set_confirmed_moves [OF ok(1)] by simp
qed

lemma raise_steps_moves: "client_later d (raise_steps ss d)"
  by (rule inbox_moves) (simp_all add: inbox_later_def raise_steps_mono)

lemma raise_baseline_moves: "client_later d (raise_baseline i n u d)"
  by (rule inbox_moves) (simp_all add: inbox_later_def raise_baseline_revision)

lemma complete_unlinked_moves:
  assumes run: "complete_unlinked now p d = Inr d'" and inv: "client_inv x d"
  shows "client_later d d'"
proof -
  note ok = client_invD [OF inv]
  from run ok(4) obtain plan where *: "plan_at d p = Some plan" "confirmed_of d = ap_from plan"
    "set_plan_status p PlanApplying PlanCompleted (ap_completed_update (\<lambda>_. Some now)) (Failed ''apply plan completion race'')
       (set_confirmed (ap_through plan) (raise_steps (plan_steps d p) d)) = Inr d'"
    by (rule complete_unlinkedE)
  let ?r = "raise_steps (plan_steps d p) d"
  have fits: "ap_from plan < ap_through plan" "ap_through plan \<le> MaxInt64"
    using plan_of_steps(3) [OF ok(7) *(1)] by (simp_all add: plan_fits_def)
  have r: "inbox_inv x ?r" by (rule raised_inbox_inv [OF ok(4)])
  have "client_later ?r (set_confirmed (ap_through plan) ?r)"
    by (rule set_confirmed_moves) (use r fits *(2) in \<open>simp_all add: inbox_inv_def\<close>)
  moreover have "inbox_inv x (set_confirmed (ap_through plan) ?r)" by (rule set_confirmed_inv [OF r fits(2)])
  then have "client_later (set_confirmed (ap_through plan) ?r) d'"
    by (intro status_moves [OF *(3), of x]) (simp_all add: inbox_inv_def)
  ultimately show ?thesis using raise_steps_moves client_later_trans by blast
qed

lemma complete_linked_moves:
  assumes run: "completeInboxApplyPlanTx x now p cursor d = Inr d'" and inv: "client_inv x d"
  shows "client_later d d'"
proof -
  note ok = client_invD [OF inv]
  from run ok(3) obtain plan s e f n where *: "plan_at d p = Some plan" "step_at d p 0 = Some s" "st_applied s" "length (plan_steps d p) = 1"
    "move_inbox (\<lambda>r. ib_cursor r = cursor \<and> ib_state r = InboxApplying) InboxApplied (finish_row now)
       (raise_baseline (st_object s) (st_revision s) (st_operation s) d) = Inr (1, e)"
    "set_plan_status p PlanApplying PlanCompleted (ap_completed_update (\<lambda>_. Some now)) (Failed ''linked apply plan completion race'') e = Inr f"
    "advanceConfirmedInboxCursorTx x f = Inr (n, d')"
    by (rule completeE)
  let ?b = "raise_baseline (st_object s) (st_revision s) (st_operation s) d"
  have b: "inbox_inv x ?b" using raised_inbox_inv [OF ok(4), of "[s]"] by (simp add: raise_steps_def)
  have e: "inbox_inv x e" by (rule finish_rows_inv [OF *(5) b]) simp
  from *(2,4) have "plan_steps d p = [s]" by (cases "plan_steps d p") (auto simp: step_at_plan split: if_splits)
  then have e_steps: "plan_steps e p = [s]" using *(5) by (simp add: move_inbox_Inr plan_steps_def)
  have "st_revision s \<le> baseline_revision e (st_object s)"
    using *(5) raise_baseline_revision [of "st_object s" "st_revision s" "st_operation s" d "st_object s"]
    by (simp add: move_inbox_Inr baseline_revision_def baseline_at_def)
  then have f: "inbox_inv x f" by (intro with_status_inv [OF *(6) e]) (simp_all add: e_steps *(3))
  have "client_later ?b e" by (rule finish_moves [OF *(5)]) simp
  moreover have "client_later e f" by (rule status_moves [OF *(6), of x]) (use e in \<open>simp_all add: inbox_inv_def\<close>)
  moreover have "client_later f d'" by (rule advance_moves [OF *(7) f])
  ultimately show ?thesis using raise_baseline_moves client_later_trans by blast
qed

lemma confirm_rows_moves:
  assumes "confirm_rows now c d = Inr d'"
  shows "client_later d d'"
proof -
  from assms obtain n e m where e: "move_inbox (\<lambda>r. ib_cursor r \<le> c \<and> ib_state r = InboxPending) InboxApplying (begin_row now) d = Inr (n, e)"
    and d': "move_inbox (\<lambda>r. ib_cursor r \<le> c \<and> ib_state r = InboxApplying) InboxApplied (finish_row now) e = Inr (m, d')"
    by (auto simp: confirm_rows_def elim!: rbind_InrE)
  have "client_later d e" by (rule begin_moves [OF e]) simp
  moreover have "client_later e d'" by (rule finish_moves [OF d']) simp
  ultimately show ?thesis by (rule client_later_trans)
qed

lemma reconcile_moves:
  assumes "reconcile_inbox x now d = Inr d'" and "client_inv x d"
  shows "client_later d d'"
  using assms(1) client_invD(5) [OF assms(2)]
proof (cases rule: reconcileE)
  case seed
  note cursors = client_invD(5) [OF assms(2)]
  note set = set_cursors(2,3) [OF cursors cursors_read(5) [OF cursors]]
  show ?thesis
    by (rule inbox_moves) (use set seed(2) in \<open>simp_all add: inbox_later_def seed(3) set_downloaded_def baseline_revision_def baseline_at_def\<close>)
next
  case rows
  then show ?thesis using confirm_rows_moves by blast
qed

lemma transition_moves:
  assumes "transitionInbox now cursor finish d = (None, d')"
  shows "client_later d d'"
proof (cases finish)
  case True
  with assms have "move_inbox (\<lambda>r. ib_cursor r = cursor \<and> ib_state r = InboxApplying \<and> unlinked d cursor) InboxApplied (finish_row now) d = Inr (1, d')"
    by (auto simp: transitionInbox_def WithTransaction_def expect_one_Inr split: if_splits sum.splits)
  then show ?thesis by (rule finish_moves) simp
next
  case False
  with assms have "move_inbox (\<lambda>r. ib_cursor r = cursor \<and> ib_state r = InboxPending \<and> unlinked d cursor) InboxApplying (begin_row now) d = Inr (1, d')"
    by (auto simp: transitionInbox_def WithTransaction_def expect_one_Inr split: if_splits sum.splits)
  then show ?thesis by (rule begin_moves) simp
qed

end
