(* ===== verification/Client_Steps.thy ===== *)
theory Client_Steps
  imports Client_Runs
begin

text \<open>
  The invariant of the client's store and its order of states, over every event and so over every run.
\<close>

section \<open>Every event\<close>

text \<open>A step that keeps the invariant and moves on; a transaction that fails is no step.\<close>

definition good_step :: "ext \<Rightarrow> client_db \<Rightarrow> client_db \<Rightarrow> bool" where
  "good_step x d d' \<longleftrightarrow> client_inv x d' \<and> client_later d d'"

lemma good_stay: "client_inv x d \<Longrightarrow> good_step x d d"
  by (simp add: good_step_def)

lemma good_transaction:
  "client_inv x d \<Longrightarrow> (\<And>d'. f d = Inr d' \<Longrightarrow> good_step x d d') \<Longrightarrow> good_step x d (snd (WithTransaction f d))"
  by (rule snd_WithTransactionI) (simp_all add: good_stay)

lemma good_plan:
  assumes "client_inv x d" and "inbox_inv x d'" and "client_later d d'"
    and "cd_outbox d' = cd_outbox d" "cd_deps d' = cd_deps d" "cd_intents d' = cd_intents d" "cd_conflicts d' = cd_conflicts d"
    "cd_baselines d' = cd_baselines d"
  shows "good_step x d d'"
  using assms outbox_untouched by (simp add: good_step_def)

lemma good_tables:
  assumes "client_inv x d" and "cd_outbox d' = cd_outbox d" "cd_deps d' = cd_deps d" "cd_intents d' = cd_intents d"
    "cd_conflicts d' = cd_conflicts d" "cd_baselines d' = cd_baselines d" "cd_inbox d' = cd_inbox d" "cd_plans d' = cd_plans d"
    "cd_steps d' = cd_steps d" "cd_links d' = cd_links d" "cd_state d' = cd_state d"
  shows "good_step x d d'"
  using assms client_inv_same [of d' d x] tables_moves [of d' d] by (simp add: good_step_def)

lemma good_outbox_events:
  assumes inv: "client_inv x d"
  shows "good_step x d (snd (Enqueue x now ms d))" "good_step x d (snd (ReplaceSnapshot s d))"
    "good_step x d (snd (CaptureSnapshot x now s recovery derive d))" "good_step x d (snd (ReplaceSnapshotAndEnqueue x now s ms is d))"
    "good_step x d (snd (PrepareBootstrap x now ms d))"
proof -
  have enqueue: "good_step x e e'" if "enqueueTx x now ms e = Inr e'" "client_inv x e" for e e' ms
    using enqueueTx_inv enqueued_moves that by (simp add: good_step_def)
  have replace: "good_step x d d'" if run: "ReplaceSnapshotTx s d = Inr d'" for d'
  proof -
    obtain objects issues where "d' = d\<lparr>cd_objects := objects, cd_issues := issues\<rparr>"
      using replaced_snapshot [OF run] by blast
    then show ?thesis by (intro good_tables [OF inv]) simp_all
  qed
  have both: "good_step x d d'" if "replaceSnapshotAndEnqueueTx x now s ms is d = Inr d'" for d' ms "is"
  proof -
    from that obtain e where e: "ReplaceSnapshotTx s d = Inr e" "enqueueTx x now ms (fold cancel_pending is e) = Inr d'"
      by (auto simp: replaceSnapshotAndEnqueueTx_def elim: rbind_InrE)
    have "client_later d e" "client_inv x e" using replace [OF e(1)] by (simp_all add: good_step_def)
    moreover have "good_step x (fold cancel_pending is e) d'" using enqueue [OF e(2)] fold_cancel_inv calculation(2) by blast
    ultimately show ?thesis using fold_cancel_moves client_later_trans by (meson good_step_def)
  qed
  show "good_step x d (snd (Enqueue x now ms d))"
    unfolding Enqueue_def by (rule good_transaction [OF inv]) (rule enqueue [OF _ inv])
  show "good_step x d (snd (ReplaceSnapshot s d))"
    unfolding ReplaceSnapshot_def by (rule good_transaction [OF inv]) (rule replace)
  show "good_step x d (snd (CaptureSnapshot x now s recovery derive d))"
    by (rule captureE [of x now s recovery derive d]) (use good_stay inv replace both in auto)
  show "good_step x d (snd (ReplaceSnapshotAndEnqueue x now s ms is d))"
    unfolding ReplaceSnapshotAndEnqueue_def by (rule good_transaction [OF inv]) (rule both)
  show "good_step x d (snd (PrepareBootstrap x now ms d))"
  proof (rule bootstrapE [of x now ms d])
    fix e assume e: "enqueueTx x now ms d = Inr e"
      "snd (PrepareBootstrap x now ms d) = e\<lparr>cd_state := (cd_state e)(''bootstrap_required'' \<mapsto> ''0'')\<rparr>"
    have "client_later e (snd (PrepareBootstrap x now ms d))" by (rule tables_moves) (simp_all add: e(2))
    then show ?thesis
      using bootstrapped_inv [OF e(1) inv] enqueued_moves [OF e(1) inv] client_later_trans by (auto simp: good_step_def e(2))
  qed (simp add: good_stay inv)
qed

lemma good_result_events:
  assumes inv: "client_inv x d"
  shows "good_step x d (snd (MarkAttempted x now i d))" "good_step x d (snd (RecordResult x i r d))"
    "good_step x d (snd (RecordReplayMismatch x i d))" "good_step x d (recovered rs settled answered recoveries preserved d)"
proof -
  have fits: "results_fit q" if "q \<in> set (cd_outbox d)" for q
    using client_invD(1) [OF inv] that by (simp add: outbox_ok_def outbox_row_ok_def)
  show "good_step x d (snd (MarkAttempted x now i d))"
  proof -
    have "good_step x d d'" if run: "mark_attempted x now i d = Inr d'" for d'
    proof -
      have "client_later d d'"
        using run rows_moves [of d "\<lambda>q. ob_op q = i \<and> queued q \<and> \<not> unmet d (ob_op q)" "\<lambda>q. q\<lparr>ob_status := OpAttempted,
          ob_attempted := Some (case ob_attempted q of None \<Rightarrow> now | Some t \<Rightarrow> t)\<rparr>"]
        by (simp add: mark_attempted_def Let_def op_later_def op_payload_def split: if_splits option.splits)
      then show ?thesis using attempt_inv [OF run inv] by (simp add: good_step_def)
    qed
    then show ?thesis by (simp add: MarkAttempted_def good_stay inv good_transaction)
  qed
  show "good_step x d (snd (RecordResult x i r d))"
  proof (cases "validate_result x i r")
    case (Inr u)
    then have valid: "validate_result x i r = Inr ()" by simp
    have rows: "client_later d (with_result i r d)"
      unfolding with_result_def by (rule rows_moves) (auto simp: op_later_def result_row_def op_payload_def)
    have "good_step x d d'" if run: "record_result i r d = Inr d'" for d'
    proof -
      have "client_later d d'"
        using run valid
      proof (cases rule: record_resultE)
        case (accepted q)
        then show ?thesis using rows raise_baseline_moves client_later_trans by blast
      next
        case conflict
        have "client_later (with_result i r d) d'"
          by (rule tables_moves) (simp_all add: conflict(3) split: option.split)
        with rows show ?thesis by (rule client_later_trans)
      qed
      then show ?thesis using answer_inv [OF run valid inv] by (simp add: good_step_def)
    qed
    then show ?thesis by (simp add: RecordResult_def Inr inv good_transaction)
  qed (simp add: RecordResult_def good_stay inv)
  show "good_step x d (snd (RecordReplayMismatch x i d))"
  proof -
    have "good_step x d d'" if run: "settle_operation i (\<lambda>q. q\<lparr>ob_status := OpReplayMismatch\<rparr>) e d = Inr d'" for d' e
    proof -
      have "client_later d d'"
        using run rows_moves [of d "queued_op i" "\<lambda>q. q\<lparr>ob_status := OpReplayMismatch\<rparr>"]
        by (auto simp: settle_operation_def Let_def op_later_def op_payload_def split: if_splits)
      then show ?thesis using mismatch_inv [OF run inv] by (simp add: good_step_def)
    qed
    then show ?thesis by (simp add: RecordReplayMismatch_def finalStatus_def good_stay inv good_transaction)
  qed
  show "good_step x d (recovered rs settled answered recoveries preserved d)"
  proof -
    let ?e = "d\<lparr>cd_outbox := update_rows (\<lambda>q. ob_op q \<in> set settled \<and> queued q) (\<lambda>q. q\<lparr>ob_status := OpSuperseded\<rparr>) (cd_outbox d)\<rparr>"
    have "client_later d ?e" by (rule rows_moves) (simp add: op_later_def op_payload_def)
    moreover have "client_later ?e (recovered rs settled answered recoveries preserved d)"
      by (rule tables_moves) (simp_all add: recovered_def)
    ultimately show ?thesis using recovered_inv [OF inv] client_later_trans by (auto simp: good_step_def)
  qed
qed

lemma good_inbox_tx:
  assumes inv: "client_inv x d" and "inbox_inv x d'" and "client_later d d'" and "outbox_inv x d \<Longrightarrow> outbox_inv x d'"
  shows "good_step x d d'"
  using assms by (simp add: good_step_def client_inv_def)

lemma same_outbox:
  "move_inbox P to f d = Inr (n, d') \<Longrightarrow> outbox_inv x d' = outbox_inv x d"
  "set_plan_status p from to' g e d = Inr d' \<Longrightarrow> outbox_inv x d' = outbox_inv x d"
  "apply_step_rows Q d = Inr (m, d') \<Longrightarrow> outbox_inv x d' = outbox_inv x d"
  by (rule outbox_inv_frame; auto simp: move_inbox_Inr set_plan_status_def apply_step_rows_Inr Let_def split: if_splits)+

lemma good_row_events:
  assumes inv: "client_inv x d"
  shows "good_step x d (snd (SetConfirmedCursor n d))" "good_step x d (snd (IngestPullPage x now a b cs d))"
    "good_step x d (snd (transitionInbox now c finish d))" "good_step x d (snd (AdvanceConfirmedInboxCursor x d))"
    "good_step x d (snd (ReconcileInboxAppliedThroughConfirmed x now d))"
proof -
  note ok = client_invD [OF inv]
  have set: "good_step x d (set_confirmed m d)" if "confirmed_of d \<le> m" "m \<le> MaxInt64" for m
    by (rule good_plan [OF inv set_confirmed_inv [OF ok(4) that(2)] set_confirmed_moves [OF ok(5) that]]) (simp_all add: set_confirmed_def)
  show "good_step x d (snd (SetConfirmedCursor n d))"
  proof (cases "MaxInt64 < n")
    case False
    have "good_step x d d'" if "rbind (confirmed_tx d) (\<lambda>current. if n < current then Inl (Failed ''confirmed cursor cannot move backwards'')
        else Inr (set_confirmed n d)) = Inr d'" for d'
      using that set [of n] False by (auto simp: cursors_read(3) [OF ok(5)] split: if_splits)
    then show ?thesis using False by (simp add: SetConfirmedCursor_def inv good_transaction)
  qed (simp add: SetConfirmedCursor_def good_stay inv)
  show "good_step x d (snd (IngestPullPage x now a b cs d))"
  proof (cases "fst (IngestPullPage x now a b cs d)")
    case None
    then have run: "IngestPullPage x now a b cs d = (None, snd (IngestPullPage x now a b cs d))" by (simp add: prod_eq_iff)
    then show ?thesis
      using ok(5,6)
    proof (cases rule: IngestPullPageE)
      case next_page
      let ?d = "ingested now b cs d"
      have keeps: "cursors_ok ?d" "inbox_ok x ?d" "downloaded_of ?d = b" "confirmed_of ?d = confirmed_of d"
        using ingested_keeps [OF ok(5,6) next_page(1,2,3,5,6)] next_page(4,7,8) by simp_all
      have fields: "cd_plans ?d = cd_plans d" "cd_steps ?d = cd_steps d" "cd_links ?d = cd_links d" "cd_baselines ?d = cd_baselines d"
        "cd_outbox ?d = cd_outbox d" "cd_deps ?d = cd_deps d" "cd_intents ?d = cd_intents d" "cd_conflicts ?d = cd_conflicts d"
        "cd_inbox ?d = cd_inbox d @ map (inbox_row_of now) cs"
        by (simp_all add: ingested_def set_downloaded_def)
      have at: "inbox_at ?d c = Some r" if "inbox_at d c = Some r" for c r
        using that by (simp add: inbox_at_def fields(9) row_at_append)
      have "link_fits ?d p c" if "(p, c) \<in> set (cd_links d)" for p c
      proof -
        have "link_fits d p c" using ok(8) that by (auto simp: links_ok_def)
        then show ?thesis using at by (auto simp: link_fits_def plan_frames(2,3) [OF fields(1,2)])
      qed
      then have "links_ok ?d" using ok(8) by (auto simp: links_ok_def fields(3))
      moreover have "plans_ok x ?d" using ok(7) plan_frames(1) [OF fields(1,2)] by simp
      moreover have "completed_known ?d"
        by (rule completed_frame [OF fields(1,2) _ ok(9)]) (simp add: baseline_revision_def baseline_at_def fields(4))
      ultimately have "inbox_inv x ?d" using keeps by (simp add: inbox_inv_def)
      moreover have "downloaded_of d \<le> b" using next_page(1,2) by simp
      then have "client_later d ?d"
        by (intro inbox_moves) (use keeps(3,4) grown_append [of row_later] in
          \<open>simp_all add: inbox_later_def fields baseline_revision_def baseline_at_def\<close>)
      ultimately show ?thesis unfolding next_page(4) by (intro good_plan [OF inv]) (simp_all add: fields)
    qed (simp add: good_stay inv)
  next
    case (Some e)
    then have "snd (IngestPullPage x now a b cs d) = d"
      by (auto simp: IngestPullPage_def WithTransaction_def split: if_splits sum.splits)
    then show ?thesis by (simp add: good_stay inv)
  qed
  show "good_step x d (snd (transitionInbox now c finish d))"
  proof (cases "fst (transitionInbox now c finish d)")
    case None
    then have run: "transitionInbox now c finish d = (None, snd (transitionInbox now c finish d))" by (simp add: prod_eq_iff)
    have "outbox_inv x (snd (transitionInbox now c finish d)) = outbox_inv x d"
      using run same_outbox(1) by (auto simp: transitionInbox_def WithTransaction_def expect_one_Inr split: if_splits sum.splits)
    then show ?thesis
      by (intro good_inbox_tx [OF inv transition_keeps [OF run ok(4)] transition_moves [OF run]]) simp
  next
    case (Some e)
    then have "snd (transitionInbox now c finish d) = d"
      by (auto simp: transitionInbox_def WithTransaction_def split: if_splits sum.splits)
    then show ?thesis by (simp add: good_stay inv)
  qed
  show "good_step x d (snd (AdvanceConfirmedInboxCursor x d))"
  proof (cases "advanceConfirmedInboxCursorTx x d")
    case (Inr r)
    then obtain n d' where run: "advanceConfirmedInboxCursorTx x d = Inr (n, d')" by (cases r) simp
    have "d' = d \<or> d' = set_confirmed n d" using advanceE [OF run ok(5,6)] by auto
    then have "outbox_inv x d' = outbox_inv x d" by (intro outbox_inv_frame) (auto simp: set_confirmed_def)
    then have "good_step x d d'"
      by (intro good_inbox_tx [OF inv advance_keeps [OF run ok(4)] advance_moves [OF run ok(4)]]) simp
    then show ?thesis using run by (simp add: AdvanceConfirmedInboxCursor_def)
  qed (simp add: AdvanceConfirmedInboxCursor_def good_stay inv)
  show "good_step x d (snd (ReconcileInboxAppliedThroughConfirmed x now d))"
    unfolding ReconcileInboxAppliedThroughConfirmed_def
  proof (rule good_transaction [OF inv])
    fix d' assume run: "reconcile_inbox x now d = Inr d'"
    have "outbox_inv x d' = outbox_inv x d"
      using run ok(5)
    proof (cases rule: reconcileE)
      case seed
      then show ?thesis by (intro outbox_inv_frame) (simp_all add: set_downloaded_def)
    next
      case rows
      then show ?thesis using same_outbox(1) by (auto simp: confirm_rows_def elim!: rbind_InrE)
    qed
    then show "good_step x d d'"
      by (intro good_inbox_tx [OF inv reconcile_keeps [OF run ok(4)] reconcile_moves [OF run inv]]) simp
  qed
qed

lemma good_plan_events:
  assumes inv: "client_inv x d"
  shows "good_step x d (snd (CreateApplyPlan x now plan d))" "good_step x d (snd (CreateInboxApplyPlan x now c p d))"
    "good_step x d (snd (AbandonPreparedInboxPlan x now p d))" "good_step x d (snd (RetryAbandonedInboxPlan x p d))"
    "good_step x d (snd (BeginApplyPlan x now p d))" "good_step x d (snd (MarkApplyStepApplied x p n d))"
    "good_step x d (snd (MarkFolderStepAppliedAndAuthorizeCleanup x p n d))" "good_step x d (snd (CompleteApplyPlan x now p d))"
proof -
  note ok = client_invD [OF inv]
  have "good_step x d d'" if run: "create_plan x now plan d = Inr d'" and bound: "pl_through plan \<le> MaxInt64" for d'
  proof -
    have "outbox_inv x d' = outbox_inv x d"
      using run ok(5) bound
    proof (rule create_planE)
      fix ss assume "d' = add_plan (prepared (pl_id plan) (pl_from plan) (pl_through plan) now) ss d"
      then show ?thesis by (intro outbox_inv_frame) simp_all
    qed
    then show ?thesis
      by (intro good_inbox_tx [OF inv create_plan_keeps [OF run ok(4) bound] create_plan_moves [OF run inv bound]]) simp
  qed
  then show "good_step x d (snd (CreateApplyPlan x now plan d))"
    by (simp add: CreateApplyPlan_def good_stay inv good_transaction)
  have "good_step x d d'" if run: "create_inbox_plan x now c p d = Inr d'" and cursor: "cursor_valid c" for d'
  proof -
    have "outbox_inv x d' = outbox_inv x d"
      using run ok(6)
    proof (rule create_inbox_planE)
      fix r bs assume "d' = (add_plan (prepared p (c - 1) c now) [step_of_row p r] d)\<lparr>cd_bindings := bs, cd_links := cd_links d @ [(p, c)]\<rparr>"
      then show ?thesis by (intro outbox_inv_frame) simp_all
    qed
    then show ?thesis
      by (intro good_inbox_tx [OF inv create_inbox_plan_keeps [OF run ok(4) cursor] create_inbox_plan_moves [OF run inv]]) simp
  qed
  then show "good_step x d (snd (CreateInboxApplyPlan x now c p d))"
    by (simp add: CreateInboxApplyPlan_def good_stay inv good_transaction)
  have "good_step x d d'" if run: "abandon_plan now p d = Inr d'" for d'
  proof -
    have "outbox_inv x d' = outbox_inv x d"
      using run same_outbox(2) by (auto simp: abandon_plan_def split: if_splits)
    then show ?thesis
      by (intro good_inbox_tx [OF inv abandon_plan_keeps [OF run ok(4)] abandon_retry_moves(1) [OF inv run]]) simp
  qed
  then show "good_step x d (snd (AbandonPreparedInboxPlan x now p d))"
    by (simp add: AbandonPreparedInboxPlan_def good_stay inv good_transaction)
  have "good_step x d d'" if run: "retry_plan p d = Inr d'" for d'
  proof -
    have "outbox_inv x d' = outbox_inv x d"
      using run same_outbox(2) by (auto simp: retry_plan_def split: if_splits)
    then show ?thesis
      by (intro good_inbox_tx [OF inv retry_plan_keeps [OF run ok(4)] abandon_retry_moves(2) [OF inv run]]) simp
  qed
  then show "good_step x d (snd (RetryAbandonedInboxPlan x p d))"
    by (simp add: RetryAbandonedInboxPlan_def good_stay inv good_transaction)
  have "good_step x d d'" if run: "begin_plan now p d = Inr d'" for d'
  proof -
    have "outbox_inv x d' = outbox_inv x d"
      using run by (rule begin_planE) (simp_all add: same_outbox)
    then show ?thesis
      by (intro good_inbox_tx [OF inv begin_plan_keeps [OF run ok(4)] begin_plan_moves [OF run inv]]) simp
  qed
  then show "good_step x d (snd (BeginApplyPlan x now p d))"
    by (simp add: BeginApplyPlan_def good_stay inv good_transaction)
  have "good_step x d d'" if run: "mark_applied p m d = Inr d'" for d' m
  proof -
    have "outbox_inv x d' = outbox_inv x d"
      using run same_outbox(3) by (auto simp: mark_applied_def elim!: rbind_InrE split: if_splits option.splits)
    then show ?thesis
      by (intro good_inbox_tx [OF inv mark_applied_keeps [OF run ok(4)] mark_applied_moves [OF run]]) simp
  qed
  then show "good_step x d (snd (MarkApplyStepApplied x p n d))"
    by (simp add: MarkApplyStepApplied_def good_stay inv good_transaction)
  have "good_step x d d'" if run: "mark_folder_applied p m d = Inr d'" for d' m
  proof -
    have "outbox_inv x d' = outbox_inv x d"
      using run
    proof (rule mark_folder_appliedE)
      fix s e f
      assume e: "(if st_applied s then Inr d else expect_one (Failed ''folder apply plan is not active'')
          (apply_step_rows (\<lambda>s. stkey s = (p, m) \<and> plan_is d p PlanApplying) d)) = Inr e" and d': "d' = e\<lparr>cd_publications := f\<rparr>"
      have "outbox_inv x d' = outbox_inv x e" by (rule outbox_inv_frame) (simp_all add: d')
      then show ?thesis using e same_outbox(3) by (auto simp: expect_one_Inr split: if_splits)
    qed
    then show ?thesis
      by (intro good_inbox_tx [OF inv mark_folder_applied_keeps [OF run ok(4)] mark_folder_applied_moves [OF run]]) simp
  qed
  then show "good_step x d (snd (MarkFolderStepAppliedAndAuthorizeCleanup x p n d))"
    by (simp add: MarkFolderStepAppliedAndAuthorizeCleanup_def good_stay inv good_transaction)
  have "good_step x d d'" if run: "complete_plan x now p d = Inr d'" for d'
  proof (cases "link_cursor d p")
    case None
    then have run: "complete_unlinked now p d = Inr d'" using run by (simp add: complete_plan_def)
    show ?thesis
      by (rule good_inbox_tx [OF inv complete_unlinked_keeps(1) [OF run ok(4)] complete_unlinked_moves [OF run inv]])
        (rule complete_unlinked_keeps(2) [OF run ok(4)])
  next
    case (Some cursor)
    then have run: "completeInboxApplyPlanTx x now p cursor d = Inr d'" using run by (simp add: complete_plan_def)
    have out: "outbox_inv x d" using inv by (simp add: client_inv_def)
    show ?thesis
      by (rule good_inbox_tx [OF inv complete_linked_keeps(1) [OF run ok(4) out] complete_linked_moves [OF run inv]])
        (rule complete_linked_keeps(2) [OF run ok(4) out])
  qed
  then show "good_step x d (snd (CompleteApplyPlan x now p d))"
    by (simp add: CompleteApplyPlan_def good_stay inv good_transaction)
qed

lemma good_folder_events:
  assumes inv: "client_inv x d"
  shows "good_step x d (snd (PutFolderMutation x m d))" "good_step x d (snd (PutFolderPublication x f d))"
    "good_step x d (snd (MarkFolderPublicationConsumedByDelete x now p i d))" "good_step x d (snd (MarkFolderPublicationCleaned x now p n d))"
    "good_step x d (snd (RecordIntegrityIncident x now p c i h problem d))" "good_step x d (snd (SetState key entry d))"
proof -
  have clean: "good_step x d d'" if "clean_publications P now e d = Inr d'" for P e d'
    using that by (intro good_tables [OF inv]) (auto simp: clean_publications_def split: if_splits)
  show "good_step x d (snd (PutFolderMutation x m d))"
  proof -
    have "good_step x d d'" if "put_folder_mutation m d = Inr d'" for d'
      using that by (intro good_tables [OF inv]) (auto simp: put_folder_mutation_def Let_def split: option.splits if_splits)
    then show ?thesis by (simp add: PutFolderMutation_def good_stay inv good_transaction)
  qed
  show "good_step x d (snd (PutFolderPublication x f d))"
  proof -
    have "good_step x d d'" if "put_folder_publication x f d = Inr d'" for d'
      using that by (intro good_tables [OF inv]) (auto simp: put_folder_publication_def Let_def split: option.splits if_splits)
    then show ?thesis by (simp add: PutFolderPublication_def good_stay inv good_transaction)
  qed
  show "good_step x d (snd (MarkFolderPublicationConsumedByDelete x now p i d))"
    using clean by (simp add: MarkFolderPublicationConsumedByDelete_def good_stay inv good_transaction)
  show "good_step x d (snd (MarkFolderPublicationCleaned x now p n d))"
    using clean by (simp add: MarkFolderPublicationCleaned_def good_stay inv good_transaction)
  show "good_step x d (snd (RecordIntegrityIncident x now p c i h problem d))"
  proof -
    have "good_step x d d'" if "record_incident now p c i h problem d = Inr d'" for d'
      using that by (intro good_tables [OF inv]) (auto simp: record_incident_def Let_def split: if_splits)
    then show ?thesis by (simp add: RecordIntegrityIncident_def good_stay inv good_transaction)
  qed
  show "good_step x d (snd (SetState key entry d))"
    by (rule good_tables [OF inv]) (simp_all add: SetState_def)
qed

lemmas good_events = good_outbox_events good_result_events good_row_events good_plan_events good_folder_events

lemma good_client_step: "client_inv x d \<Longrightarrow> good_step x d (client_step x e d)"
  by (cases e) (simp_all add: good_events MarkInboxApplying_def MarkInboxApplied_def)

lemma no_client_inv: "client_inv x no_client"
proof -
  have cursor: "cursor_is no_client ''downloaded_cursor'' 0" 
  proof -
    have "decimal 0 = ''0''" by code_simp
    then show ?thesis by (simp add: cursor_is_def no_client_def)
  qed
  have "cursors_ok no_client" using cursor unfolding cursors_ok_def by (auto simp: no_client_def)
  moreover have "downloaded_of no_client = 0" using cursor_reads(1) [OF cursor] by simp
  then have "inbox_ok x no_client" by (simp add: inbox_ok_def) (simp add: no_client_def)
  ultimately have "inbox_inv x no_client"
    by (simp add: inbox_inv_def plans_ok_def links_ok_def completed_known_def) (simp add: no_client_def)
  moreover have "outbox_inv x no_client"
    by (simp add: outbox_inv_def outbox_ok_def deps_ok_def records_ok_def accepted_known_def baselines_ok_def no_client_def)
  ultimately show ?thesis by (simp add: client_inv_def)
qed

text \<open>The client's store, with every event allowed.\<close>

interpretation store: moving_state "client_step x" "\<lambda>d e. True" "client_inv x" client_later for x
  using good_client_step client_later_trans by unfold_locales (auto simp: good_step_def)

lemma client_run_keeps: "client_inv x d \<Longrightarrow> client_inv x (client_run x es d)"
  unfolding client_run_def by (erule store.run_keeps) (rule store.always_allowed, simp)

lemma client_run_moves: "client_inv x d \<Longrightarrow> client_later d (client_run x es d)"
  unfolding client_run_def by (erule store.run_moves) (rule store.always_allowed, simp)

end
