(* ===== verification/Client_Order.thy ===== *)
theory Client_Order
  imports Client_Steps
begin

text \<open>
  The order of the outbox: a prerequisite was queued first, so the first queued operation is ready unless one
  of its prerequisites ended without an effect, and one operation after the other can be sent.
\<close>

section \<open>Prerequisites\<close>

text \<open>No queued operation waits for one that ended unaccepted and was not released.\<close>

definition hopeful :: "client_db \<Rightarrow> bool" where
  "hopeful d \<longleftrightarrow>
     (\<forall>(i, j)\<in>set (cd_deps d). \<forall>p\<in>set (cd_outbox d). \<forall>q\<in>set (cd_outbox d).
        ob_op q = i \<and> queued q \<and> ob_op p = j \<longrightarrow> queued p \<or> ob_status p = OpAccepted \<or> released d j)"

lemma queued_status: "queued q \<Longrightarrow> ob_status q \<noteq> OpAccepted"
  by (auto simp: queued_def)

lemma unmet_iff:
  "unmet d i \<longleftrightarrow> (\<exists>j p. (i, j) \<in> set (cd_deps d) \<and> p \<in> set (cd_outbox d) \<and> ob_op p = j \<and> ob_status p \<noteq> OpAccepted \<and> \<not> released d j)"
  by (auto simp: unmet_def list_ex_iff)

lemma dependency_earlier:
  assumes "outbox_ok x d" and "(ob_op q, ob_op p) \<in> set (cd_deps d)" and "p \<in> set (cd_outbox d)" "q \<in> set (cd_outbox d)"
  shows "ob_sequence p < ob_sequence q"
proof -
  from assms(1,2) obtain q' p' where *: "q' \<in> set (cd_outbox d)" "p' \<in> set (cd_outbox d)" "ob_op q' = ob_op q" "ob_op p' = ob_op p"
    "ob_sequence p' < ob_sequence q'" by (fastforce simp: outbox_ok_def deps_ok_def)
  have "q' = q" "p' = p" using op_at_unique [OF assms(1)] * assms(3,4) by (metis option.inject)+
  with * show ?thesis by simp
qed

lemma outbox_sorted: "outbox_ok x d \<Longrightarrow> sorted (map ob_sequence (cd_outbox d))"
  unfolding outbox_ok_def by (metis sorted_upt)

lemma find_split: "find P xs = Some q \<Longrightarrow> \<exists>before after. xs = before @ q # after \<and> P q \<and> (\<forall>r\<in>set before. \<not> P r)"
proof (induction xs)
  case (Cons r xs)
  show ?case
  proof (cases "P r")
    case True
    with Cons.prems have "r # xs = [] @ q # xs \<and> P q \<and> (\<forall>r\<in>set []. \<not> P r)" by simp
    then show ?thesis by blast
  next
    case False
    with Cons.prems Cons.IH obtain before after where "xs = before @ q # after" "P q" "\<forall>r\<in>set before. \<not> P r" by auto
    with False have "r # xs = (r # before) @ q # after \<and> P q \<and> (\<forall>r\<in>set (r # before). \<not> P r)" by simp
    then show ?thesis by blast
  qed
qed simp

text \<open>The first queued operation is met: whatever it waits for was queued earlier and is no longer queued.\<close>

lemma first_met:
  assumes inv: "outbox_ok x d" and hopeful: "hopeful d" and first: "find queued (cd_outbox d) = Some q"
  shows "\<not> unmet d (ob_op q)"
proof
  assume "unmet d (ob_op q)"
  then obtain p where p: "(ob_op q, ob_op p) \<in> set (cd_deps d)" "p \<in> set (cd_outbox d)" "ob_status p \<noteq> OpAccepted" "\<not> released d (ob_op p)"
    by (auto simp: unmet_iff)
  from find_split [OF first] obtain before after where split: "cd_outbox d = before @ q # after" "queued q" "\<forall>r\<in>set before. \<not> queued r"
    by blast
  then have q: "q \<in> set (cd_outbox d)" by simp
  have "ob_sequence p < ob_sequence q" by (rule dependency_earlier [OF inv p(1,2) q])
  moreover have "\<forall>r\<in>set after. ob_sequence q \<le> ob_sequence r"
    using outbox_sorted [OF inv] unfolding split(1) by (simp add: sorted_append)
  ultimately have "p \<in> set before" using p(2) unfolding split(1) by auto
  then have "\<not> queued p" using split(3) by blast
  moreover have "queued p \<or> ob_status p = OpAccepted \<or> released d (ob_op p)"
    using hopeful p(1,2) q split(2) unfolding hopeful_def by blast
  ultimately show False using p(3,4) by blast
qed

lemma first_ready:
  assumes inv: "outbox_ok x d" and hopeful: "hopeful d" and first: "find queued (cd_outbox d) = Some q"
  shows "ListReady d 1 = Inr [item_of q]"
proof -
  let ?P = "\<lambda>o'. (ob_status o' = OpPending \<or> True \<and> ob_status o' = OpAttempted) \<and> \<not> unmet d (ob_op o')"
  from find_split [OF first] obtain before after where split: "cd_outbox d = before @ q # after" "queued q" "\<forall>r\<in>set before. \<not> queued r"
    by blast
  have "filter ?P before = []" using split(3) by (auto simp: filter_empty_conv queued_def)
  moreover have "?P q" using first_met [OF assms] split(2) by (simp add: queued_def)
  ultimately have "filter ?P (cd_outbox d) = q # filter ?P after" unfolding split(1) by simp
  then show ?thesis by (simp add: ListReady_def listReady_def)
qed

lemma none_ready: "find queued (cd_outbox d) = None \<Longrightarrow> ListReady d 1 = Inr []"
  by (auto simp: ListReady_def listReady_def filter_empty_conv find_None_iff queued_def)

section \<open>Sending one operation\<close>

lemma rows_affected_one:
  assumes "outbox_ok x d" and "q \<in> set (cd_outbox d)" and "P q" and "\<And>r. r \<in> set (cd_outbox d) \<Longrightarrow> P r \<Longrightarrow> ob_op r = ob_op q"
  shows "rows_affected P (cd_outbox d) = 1"
proof -
  have "distinct (map ob_op (cd_outbox d))" using assms(1) by (simp add: outbox_ok_def)
  then have "length (filter P (cd_outbox d)) \<le> 1" by (rule length_filter_key) (rule assms(4))
  moreover have "filter P (cd_outbox d) \<noteq> []" using assms(2,3) by (auto simp: filter_empty_conv)
  ultimately show ?thesis by (cases "filter P (cd_outbox d)") (auto simp: rows_affected_def)
qed

text \<open>The operation marked as sent: only its row changes, and it stays queued.\<close>

definition sent_row :: "int \<Rightarrow> outbox_op \<Rightarrow> outbox_op" where
  "sent_row now q = q\<lparr>ob_status := OpAttempted, ob_attempted := Some (case ob_attempted q of None \<Rightarrow> now | Some t \<Rightarrow> t)\<rparr>"

lemma mark_first:
  assumes inv: "outbox_ok x d" and q: "q \<in> set (cd_outbox d)" "queued q" "\<not> unmet d (ob_op q)"
  shows "MarkAttempted x now (ob_op q) d =
    (None, d\<lparr>cd_outbox := update_rows (\<lambda>r. ob_op r = ob_op q \<and> queued r \<and> \<not> unmet d (ob_op r)) (sent_row now) (cd_outbox d)\<rparr>)"
proof -
  have "rows_affected (\<lambda>r. ob_op r = ob_op q \<and> queued r \<and> \<not> unmet d (ob_op r)) (cd_outbox d) = 1"
    by (rule rows_affected_one [OF inv q(1)]) (use q in simp_all)
  moreover have "validOperationID x (ob_op q)" by (rule outbox_row_ids(1) [OF inv q(1)])
  ultimately show ?thesis
    by (simp add: MarkAttempted_def mark_attempted_def WithTransaction_def Let_def sent_row_def [abs_def])
qed

section \<open>An accepted answer\<close>

definition acceptance :: "nat \<Rightarrow> nat \<Rightarrow> client_result" where
  "acceptance revision cursor =
     \<lparr>cr_accepted = True, cr_conflict = [], cr_revision = revision, cr_cursor = cursor, cr_canonical = None\<rparr>"

definition queue_length :: "client_db \<Rightarrow> nat" where
  "queue_length d = rows_affected queued (cd_outbox d)"

lemma answer_first:
  assumes inv: "outbox_ok x d" and q: "q \<in> set (cd_outbox d)" "queued q" "\<not> unmet d (ob_op q)"
    and c: "0 < c" "c \<le> MaxInt64" "ob_base q < MaxInt64"
  defines "r \<equiv> acceptance (Suc (ob_base q)) c"
  shows "RecordResult x (ob_op q) r d = (None, raise_baseline (ob_object q) (Suc (ob_base q)) (ob_op q) (with_result (ob_op q) r d))"
proof -
  have "validate_result x (ob_op q) r = Inr ()"
    using c outbox_row_ids(1) [OF inv q(1)] by (simp add: validate_result_def r_def acceptance_def)
  moreover have "rows_affected (queued_op (ob_op q)) (cd_outbox d) = 1"
    by (rule rows_affected_one [OF inv q(1)]) (use q in simp_all)
  moreover have "op_at (with_result (ob_op q) r d) (ob_op q) = Some (result_row r q)"
    using op_at_unique [OF inv q(1)] q(2) by (simp add: op_at_with_result)
  ultimately show ?thesis
    using q(3) c(3) by (simp add: RecordResult_def WithTransaction_def record_result_eq r_def acceptance_def result_row_def)
qed

lemma fewer_queued:
  assumes "outbox_ok x d" and "q \<in> set (cd_outbox d)" "queued q" and f: "\<not> queued (f q)"
  shows "Suc (rows_affected queued (update_rows (queued_op (ob_op q)) f (cd_outbox d))) = rows_affected queued (cd_outbox d)"
proof -
  obtain before after where split: "cd_outbox d = before @ q # after" using assms(2) by (auto simp: in_set_conv_decomp)
  have "distinct (map ob_op (cd_outbox d))" using assms(1) by (simp add: outbox_ok_def)
  then have other: "ob_op r \<noteq> ob_op q" if "r \<in> set before \<union> set after" for r
    using that unfolding split by (auto simp: rev_image_eqI)
  have "update_rows (queued_op (ob_op q)) f before = before" "update_rows (queued_op (ob_op q)) f after = after"
    by (rule update_rows_id; use other in auto)+
  moreover have "update_rows P f (xs @ ys) = update_rows P f xs @ update_rows P f ys" for P xs ys by (simp add: update_rows_def)
  ultimately have "update_rows (queued_op (ob_op q)) f (cd_outbox d) = before @ f q # after"
    using assms(3) unfolding split by simp
  then show ?thesis using assms(3) f unfolding split by (simp add: rows_affected_def)
qed

text \<open>One round: the first operation is ready, is marked as sent and accepted; one fewer is queued.\<close>

lemma accepted_round:
  assumes inv: "client_inv x d" and hopeful: "hopeful d" and first: "find queued (cd_outbox d) = Some q"
    and c: "0 < c" "c \<le> MaxInt64" "ob_base q < MaxInt64"
  obtains d1 d2 where "ListReady d 1 = Inr [item_of q]" "MarkAttempted x now (ob_op q) d = (None, d1)"
    "RecordResult x (ob_op q) (acceptance (Suc (ob_base q)) c) d1 = (None, d2)"
    "client_inv x d2" "hopeful d2" "Suc (queue_length d2) = queue_length d"
proof -
  note outbox = client_invD(1) [OF inv]
  from find_split [OF first] have q: "q \<in> set (cd_outbox d)" "queued q" by auto
  have met: "\<not> unmet d (ob_op q)" by (rule first_met [OF outbox hopeful first])
  let ?P = "\<lambda>r. ob_op r = ob_op q \<and> queued r \<and> \<not> unmet d (ob_op r)"
  let ?d1 = "d\<lparr>cd_outbox := update_rows ?P (sent_row now) (cd_outbox d)\<rparr>"
  let ?r = "acceptance (Suc (ob_base q)) c"
  have one: "MarkAttempted x now (ob_op q) d = (None, ?d1)" by (rule mark_first [OF outbox q met])
  have same: "?P r = queued_op (ob_op q) r" for r using met by auto
  have "good_step x d (snd (MarkAttempted x now (ob_op q) d))" by (rule good_events(6) [OF inv])
  then have inv1: "client_inv x ?d1" using one by (simp add: good_step_def)
  note outbox1 = client_invD(1) [OF inv1]
  let ?q = "sent_row now q"
  have q1: "?q \<in> set (cd_outbox ?d1)" "queued ?q" using q met by (auto simp: set_update_rows sent_row_def queued_def)
  have fields: "ob_op ?q = ob_op q" "ob_base ?q = ob_base q" "ob_object ?q = ob_object q" by (simp_all add: sent_row_def)
  have met1: "\<not> unmet ?d1 (ob_op ?q)"
    using met by (auto simp: unmet_iff set_update_rows sent_row_def released_def queued_def)
  from answer_first [OF outbox1 q1 met1 c(1,2)] c(3)
  have two: "RecordResult x (ob_op q) ?r ?d1 = (None, raise_baseline (ob_object q) (Suc (ob_base q)) (ob_op q) (with_result (ob_op q) ?r ?d1))"
    (is "_ = (None, ?d2)") by (simp add: fields)
  have "good_step x ?d1 (snd (RecordResult x (ob_op q) ?r ?d1))" by (rule good_events(7) [OF inv1])
  then have inv2: "client_inv x ?d2" using two by (simp add: good_step_def)
  have "rows_affected queued (cd_outbox ?d1) = rows_affected queued (cd_outbox d)"
  proof -
    have "length (filter queued (update_rows ?P (sent_row now) qs)) = length (filter queued qs)" for qs
      by (induction qs) (auto simp: sent_row_def queued_def)
    then show ?thesis by (simp add: rows_affected_def)
  qed
  moreover have "Suc (rows_affected queued (cd_outbox ?d2)) = rows_affected queued (cd_outbox ?d1)"
    using fewer_queued [OF outbox1 q1, of "result_row ?r"] by (simp add: fields result_row_def acceptance_def queued_def)
  ultimately have fewer: "Suc (queue_length ?d2) = queue_length d" by (simp add: queue_length_def)
  have "queued p' \<or> ob_status p' = OpAccepted \<or> released ?d2 (ob_op p')"
    if ij: "(ob_op q', ob_op p') \<in> set (cd_deps ?d2)" "p' \<in> set (cd_outbox ?d2)" "q' \<in> set (cd_outbox ?d2)" "queued q'" for p' q'
  proof -
    have before: "\<exists>r\<in>set (cd_outbox d). ob_op r = ob_op s \<and> (queued s \<longrightarrow> queued r) \<and>
        (queued r \<longrightarrow> queued s \<or> ob_status s = OpAccepted) \<and> (ob_status r = OpAccepted \<longrightarrow> ob_status s = OpAccepted)"
      if "s \<in> set (cd_outbox ?d2)" for s
      using that unfolding raise_baseline_fields with_result_def
      by (auto simp: set_update_rows result_row_def acceptance_def sent_row_def queued_def)
    from before [OF ij(2)] obtain r where r: "r \<in> set (cd_outbox d)" "ob_op r = ob_op p'"
      "queued r \<longrightarrow> queued p' \<or> ob_status p' = OpAccepted" "ob_status r = OpAccepted \<longrightarrow> ob_status p' = OpAccepted" by blast
    from before [OF ij(3)] ij(4) obtain s where s: "s \<in> set (cd_outbox d)" "ob_op s = ob_op q'" "queued s" by blast
    have "(ob_op s, ob_op r) \<in> set (cd_deps d)" using ij(1) by (simp add: r(2) s(2) with_result_def)
    with hopeful r(1) s have "queued r \<or> ob_status r = OpAccepted \<or> released d (ob_op r)" unfolding hopeful_def by blast
    moreover have "released ?d2 (ob_op p') = released d (ob_op r)"
      by (simp add: released_def with_result_def r(2) raise_baseline_def split: option.split)
    ultimately show ?thesis using r(3,4) by blast
  qed
  then have "hopeful ?d2" unfolding hopeful_def by auto
  then show thesis using that first_ready [OF outbox hopeful first] one two inv2 fewer by blast
qed

end
