(* ===== verification/Client_Converge.thy ===== *)
theory Client_Converge
  imports Client_Steps
begin

text \<open>
  The client follows a feed of changes: while what it is given comes from the feed, every baseline is a
  revision of the feed, at least the latest one below the confirmed cursor and at most the latest one
  there is; with the confirmed cursor at the end of the feed the baselines are the latest revisions.
\<close>

section \<open>A feed\<close>

text \<open>The latest revision of an object: each change adds one.\<close>

definition latest :: "client_change list \<Rightarrow> uuid \<Rightarrow> nat" where
  "latest F i = length (filter (\<lambda>c. ch_object c = i) F)"

definition feed_ok :: "client_change list \<Rightarrow> bool" where
  "feed_ok F \<longleftrightarrow>
     (\<forall>n<length F. ch_cursor (F ! n) = Suc n \<and> ch_revision (F ! n) = Suc (latest (take n F) (ch_object (F ! n))))"

lemma latest_take_mono: "m \<le> n \<Longrightarrow> latest (take m F) i \<le> latest (take n F) i"
proof -
  assume "m \<le> n"
  then have "take n F = take m F @ take (n - m) (drop m F)" using take_add [of m "n - m" F] by simp
  then show ?thesis by (simp add: latest_def)
qed

lemma latest_take_le: "latest (take n F) i \<le> latest F i"
  using latest_take_mono [of n "max n (length F)" F i] by simp

lemma latest_entry:
  assumes "feed_ok F" and "n < length F"
  shows "ch_revision (F ! n) = latest (take (Suc n) F) (ch_object (F ! n))" "ch_revision (F ! n) \<le> latest F (ch_object (F ! n))"
proof -
  show eq: "ch_revision (F ! n) = latest (take (Suc n) F) (ch_object (F ! n))"
    using assms by (simp add: feed_ok_def take_Suc_conv_app_nth latest_def)
  show "ch_revision (F ! n) \<le> latest F (ch_object (F ! n))" unfolding eq by (rule latest_take_le)
qed

text \<open>An upper bound on every revision in a prefix is one on the latest of the prefix.\<close>

lemma latest_bound:
  assumes "feed_ok F" and "n \<le> length F" and "\<And>m. m < n \<Longrightarrow> ch_object (F ! m) = i \<Longrightarrow> ch_revision (F ! m) \<le> b"
  shows "latest (take n F) i \<le> b"
  using assms(2,3)
proof (induction n)
  case (Suc n)
  show ?case
  proof (cases "ch_object (F ! n) = i")
    case True
    then have "latest (take (Suc n) F) i = ch_revision (F ! n)" using latest_entry(1) [OF assms(1), of n] Suc.prems(1) by simp
    then show ?thesis using Suc.prems(2) [of n] True by simp
  next
    case False
    then have "latest (take (Suc n) F) i = latest (take n F) i" using Suc.prems(1) by (simp add: take_Suc_conv_app_nth latest_def)
    then show ?thesis using Suc by simp
  qed
qed (simp add: latest_def)

section \<open>Matching a feed\<close>

definition feed_entry :: "client_change list \<Rightarrow> nat \<Rightarrow> uuid \<Rightarrow> nat \<Rightarrow> bool" where
  "feed_entry F cursor i revision \<longleftrightarrow>
     0 < cursor \<and> cursor \<le> length F \<and> ch_object (F ! (cursor - 1)) = i \<and> ch_revision (F ! (cursor - 1)) = revision"

definition known_to :: "client_change list \<Rightarrow> client_db \<Rightarrow> nat \<Rightarrow> bool" where
  "known_to F d n \<longleftrightarrow> n \<le> length F \<and> (\<forall>m<n. ch_revision (F ! m) \<le> baseline_revision d (ch_object (F ! m)))"

definition row_in :: "client_change list \<Rightarrow> inbox_row \<Rightarrow> bool" where
  "row_in F r \<longleftrightarrow> feed_entry F (ib_cursor r) (ib_object r) (ib_revision r)"

definition step_in :: "client_change list \<Rightarrow> step_row \<Rightarrow> bool" where
  "step_in F s \<longleftrightarrow> feed_entry F (st_cursor s) (st_object s) (st_revision s)"

definition baseline_in :: "client_change list \<Rightarrow> baseline_row \<Rightarrow> bool" where
  "baseline_in F b \<longleftrightarrow> (\<exists>c. feed_entry F c (bl_object b) (bl_revision b))"

definition matches :: "client_change list \<Rightarrow> client_db \<Rightarrow> bool" where
  "matches F d \<longleftrightarrow>
     (\<forall>r\<in>set (cd_inbox d). row_in F r) \<and> (\<forall>s\<in>set (cd_steps d). step_in F s) \<and>
     (\<forall>b\<in>set (cd_baselines d). baseline_in F b) \<and>
     (\<forall>r\<in>set (cd_inbox d). ib_state r = InboxApplied \<longrightarrow> ib_revision r \<le> baseline_revision d (ib_object r)) \<and>
     known_to F d (confirmed_of d)"

lemma matchesD:
  assumes "matches F d"
  shows "\<And>r. r \<in> set (cd_inbox d) \<Longrightarrow> row_in F r" "\<And>s. s \<in> set (cd_steps d) \<Longrightarrow> step_in F s"
    "\<And>b. b \<in> set (cd_baselines d) \<Longrightarrow> baseline_in F b"
    "\<And>r. r \<in> set (cd_inbox d) \<Longrightarrow> ib_state r = InboxApplied \<Longrightarrow> ib_revision r \<le> baseline_revision d (ib_object r)"
    "known_to F d (confirmed_of d)"
  using assms by (simp_all add: matches_def)

text \<open>The bounds on the baselines.\<close>

lemma matches_bounds:
  assumes "feed_ok F" and "matches F d"
  shows "latest (take (confirmed_of d) F) i \<le> baseline_revision d i" "baseline_revision d i \<le> latest F i"
proof -
  show "latest (take (confirmed_of d) F) i \<le> baseline_revision d i"
    by (rule latest_bound [OF assms(1)]) (use matchesD(5) [OF assms(2)] in \<open>auto simp: known_to_def\<close>)
  show "baseline_revision d i \<le> latest F i"
  proof (cases "baseline_at d i")
    case (Some b)
    then have b: "b \<in> set (cd_baselines d)" "bl_object b = i" by (auto simp: baseline_at_def dest: row_at_SomeD)
    with matchesD(3) [OF assms(2)] obtain c where "feed_entry F c i (bl_revision b)" by (auto simp: baseline_in_def)
    then have "c - 1 < length F" "bl_revision b = ch_revision (F ! (c - 1))" "i = ch_object (F ! (c - 1))" by (auto simp: feed_entry_def)
    then show ?thesis using latest_entry(2) [OF assms(1)] Some by (simp add: baseline_revision_def)
  qed (simp add: baseline_revision_def)
qed

lemma matches_end:
  assumes "feed_ok F" and "matches F d" and "confirmed_of d = length F"
  shows "baseline_revision d i = latest F i"
  using matches_bounds [OF assms(1,2), of i] assms(3) by simp

section \<open>Keeping the match\<close>

lemma known_later:
  assumes "known_to F d n" and "\<And>i. baseline_revision d i \<le> baseline_revision d' i"
  shows "known_to F d' n"
  using assms order_trans unfolding known_to_def by blast

lemma matches_later:
  assumes m: "matches F d" and later: "client_later d d'"
    and rows: "\<And>r. r \<in> set (drop (length (cd_inbox d)) (cd_inbox d')) \<Longrightarrow> row_in F r"
    and steps: "\<And>s. s \<in> set (drop (length (cd_steps d)) (cd_steps d')) \<Longrightarrow> step_in F s"
    and base: "\<And>b. b \<in> set (cd_baselines d') \<Longrightarrow> b \<notin> set (cd_baselines d) \<Longrightarrow> baseline_in F b"
    and applied: "\<And>r. r \<in> set (cd_inbox d') \<Longrightarrow> r \<notin> set (cd_inbox d) \<Longrightarrow> ib_state r = InboxApplied \<Longrightarrow> ib_revision r \<le> baseline_revision d' (ib_object r)"
    and confirmed: "confirmed_of d' \<noteq> confirmed_of d \<Longrightarrow> known_to F d' (confirmed_of d')"
  shows "matches F d'"
proof -
  have mono: "baseline_revision d i \<le> baseline_revision d' i" for i using later by (simp add: client_later_def outbox_later_def)
  have grown: "grown row_later (cd_inbox d) (cd_inbox d')" "grown step_later (cd_steps d) (cd_steps d')"
    using later by (simp_all add: client_later_def inbox_later_def)
  have "row_in F r" if "r \<in> set (cd_inbox d')" for r
    using grown_origin [OF grown(1) that] rows [of r]
  proof
    assume "\<exists>r0\<in>set (cd_inbox d). row_later r0 r"
    then obtain r0 where "r0 \<in> set (cd_inbox d)" "row_later r0 r" by blast
    with matchesD(1) [OF m] show ?thesis using inbox_payload_fields(1,3,4) [of r r0] by (simp add: row_in_def row_later_def)
  qed
  moreover have "step_in F s" if "s \<in> set (cd_steps d')" for s
    using grown_origin [OF grown(2) that] steps [of s]
  proof
    assume "\<exists>s0\<in>set (cd_steps d). step_later s0 s"
    then obtain s0 where "s0 \<in> set (cd_steps d)" "step_later s0 s" by blast
    with matchesD(2) [OF m] show ?thesis by (auto simp: step_in_def step_later_def)
  qed
  moreover have "known_to F d' (confirmed_of d')"
    using confirmed known_later [OF matchesD(5) [OF m] mono] by (cases "confirmed_of d' = confirmed_of d") simp_all
  moreover have "baseline_in F b" if "b \<in> set (cd_baselines d')" for b
    using base [OF that] matchesD(3) [OF m] by blast
  moreover have "ib_revision r \<le> baseline_revision d' (ib_object r)" if "r \<in> set (cd_inbox d')" "ib_state r = InboxApplied" for r
    using applied [OF that(1)] that(2) matchesD(4) [OF m, of r] mono order_trans by blast
  ultimately show ?thesis by (simp add: matches_def)
qed

lemma matches_same:
  assumes "matches F d" and "cd_inbox d' = cd_inbox d" "cd_steps d' = cd_steps d" "cd_baselines d' = cd_baselines d"
    and "cd_state d' ''confirmed_cursor'' = cd_state d ''confirmed_cursor''"
  shows "matches F d'"
proof -
  have "confirmed_of d' = confirmed_of d" using assms(5) by (simp add: confirmed_of_def read_confirmed_def readSyncCursor_def)
  then show ?thesis using assms by (simp add: matches_def known_to_def baseline_revision_def baseline_at_def)
qed

section \<open>Honest events\<close>

definition from_feed :: "client_change list \<Rightarrow> client_change \<Rightarrow> bool" where
  "from_feed F c \<longleftrightarrow> 0 < ch_cursor c \<and> ch_cursor c \<le> length F \<and> F ! (ch_cursor c - 1) = c"

text \<open>
  Pages and plans are parts of the feed, and an accepted answer names the change it made. The statements on the
  confirmed cursor and on single inbox rows are left out: nothing in the client calls them.
\<close>

fun honest :: "client_change list \<Rightarrow> client_db \<Rightarrow> client_event \<Rightarrow> bool" where
  "honest F d (Ingested now a b cs) \<longleftrightarrow> list_all (from_feed F) cs"
| "honest F d (Planned now plan) \<longleftrightarrow> list_all (from_feed F) (pl_steps plan)"
| "honest F d (Answered i r) \<longleftrightarrow>
     (cr_accepted r \<longrightarrow> list_all (\<lambda>q. ob_op q = i \<longrightarrow> feed_entry F (cr_cursor r) (ob_object q) (cr_revision r)) (cd_outbox d))"
| "honest F d (Confirmed n) \<longleftrightarrow> False"
| "honest F d (RowApplying now c) \<longleftrightarrow> False"
| "honest F d (RowApplied now c) \<longleftrightarrow> False"
| "honest F d e \<longleftrightarrow> True"

lemma from_feed_entry: "from_feed F c \<Longrightarrow> feed_entry F (ch_cursor c) (ch_object c) (ch_revision c)"
  by (simp add: from_feed_def feed_entry_def)

lemma raised_row:
  "b \<in> set (cd_baselines (raise_baseline i n u d)) \<Longrightarrow> b \<in> set (cd_baselines d) \<or> bl_object b = i \<and> bl_revision b = n"
  by (auto simp: raise_baseline_def set_update_rows split: option.splits if_splits)

lemma raised_rows:
  "b \<in> set (cd_baselines (raise_steps ss d)) \<Longrightarrow>
     b \<in> set (cd_baselines d) \<or> (\<exists>s\<in>set ss. bl_object b = st_object s \<and> bl_revision b = st_revision s)"
proof (induction ss arbitrary: d)
  case (Cons s ss)
  let ?e = "raise_baseline (st_object s) (st_revision s) (st_operation s) d"
  have "raise_steps (s # ss) d = raise_steps ss ?e" by (simp add: raise_steps_def)
  with Cons.IH [of ?e] Cons.prems have "b \<in> set (cd_baselines ?e) \<or> (\<exists>s\<in>set ss. bl_object b = st_object s \<and> bl_revision b = st_revision s)"
    by simp
  then show ?case using raised_row [of b "st_object s" "st_revision s" "st_operation s" d] by auto
qed (simp add: raise_steps_def)

text \<open>A transaction that fails leaves the match alone.\<close>

lemma matches_transaction:
  "matches F d \<Longrightarrow> (\<And>d'. f d = Inr d' \<Longrightarrow> matches F d') \<Longrightarrow> matches F (snd (WithTransaction f d))"
  by (rule snd_WithTransactionI)

lemma enqueued_matches: "enqueueTx x now ms d = Inr d' \<Longrightarrow> matches F d \<Longrightarrow> matches F d'"
  using enqueueTx_inbox [of x now ms d d'] by (auto intro: matches_same)

lemma replaced_matches: "ReplaceSnapshotTx s d = Inr d' \<Longrightarrow> matches F d \<Longrightarrow> matches F d'"
proof -
  assume "ReplaceSnapshotTx s d = Inr d'" and m: "matches F d"
  from replaced_snapshot [OF this(1)] obtain objects issues where "d' = d\<lparr>cd_objects := objects, cd_issues := issues\<rparr>" by blast
  then show ?thesis by (intro matches_same [OF m]) simp_all
qed

lemma both_matches: "replaceSnapshotAndEnqueueTx x now s ms is d = Inr d' \<Longrightarrow> matches F d \<Longrightarrow> matches F d'"
proof -
  assume "replaceSnapshotAndEnqueueTx x now s ms is d = Inr d'" and m: "matches F d"
  then obtain e where e: "ReplaceSnapshotTx s d = Inr e" "enqueueTx x now ms (fold cancel_pending is e) = Inr d'"
    by (auto simp: replaceSnapshotAndEnqueueTx_def elim: rbind_InrE)
  have "matches F (fold cancel_pending is e)"
    using replaced_matches [OF e(1) m]
  proof (induction "is" arbitrary: e)
    case (Cons i "is")
    have "matches F (cancel_pending i e)" by (rule matches_same [OF Cons.prems]) (simp_all add: cancel_pending_def)
    then show ?case using Cons.IH by simp
  qed simp
  then show ?thesis using enqueued_matches [OF e(2)] by blast
qed

lemma outbox_matches:
  assumes m: "matches F d"
  shows "matches F (snd (Enqueue x now ms d))" "matches F (snd (ReplaceSnapshot s d))"
    "matches F (snd (CaptureSnapshot x now s recovery derive d))" "matches F (snd (ReplaceSnapshotAndEnqueue x now s ms is d))"
    "matches F (snd (PrepareBootstrap x now ms d))" "matches F (snd (MarkAttempted x now i d))"
    "matches F (snd (RecordReplayMismatch x i d))" "matches F (recovered rs settled answered recoveries preserved d)"
proof -
  show "matches F (snd (Enqueue x now ms d))"
    unfolding Enqueue_def by (rule matches_transaction [OF m]) (rule enqueued_matches [OF _ m])
  show "matches F (snd (ReplaceSnapshot s d))"
    unfolding ReplaceSnapshot_def by (rule matches_transaction [OF m]) (rule replaced_matches [OF _ m])
  show "matches F (snd (CaptureSnapshot x now s recovery derive d))"
    by (rule captureE [of x now s recovery derive d]) (use m replaced_matches both_matches in auto)
  show "matches F (snd (ReplaceSnapshotAndEnqueue x now s ms is d))"
    unfolding ReplaceSnapshotAndEnqueue_def by (rule matches_transaction [OF m]) (rule both_matches [OF _ m])
  show "matches F (snd (PrepareBootstrap x now ms d))"
  proof (rule bootstrapE [of x now ms d])
    fix e assume e: "enqueueTx x now ms d = Inr e"
      "snd (PrepareBootstrap x now ms d) = e\<lparr>cd_state := (cd_state e)(''bootstrap_required'' \<mapsto> ''0'')\<rparr>"
    show ?thesis by (rule matches_same [OF enqueued_matches [OF e(1) m]]) (simp_all add: e(2))
  qed (simp add: m)
  have "matches F d'" if "mark_attempted x now i d = Inr d'" for d'
    using that by (intro matches_same [OF m]) (auto simp: mark_attempted_def Let_def split: if_splits)
  then show "matches F (snd (MarkAttempted x now i d))" by (simp add: MarkAttempted_def m matches_transaction)
  have "matches F d'" if "settle_operation i f e d = Inr d'" for d' f e
    using that by (intro matches_same [OF m]) (auto simp: settle_operation_def Let_def split: if_splits)
  then show "matches F (snd (RecordReplayMismatch x i d))" by (simp add: RecordReplayMismatch_def finalStatus_def m matches_transaction)
  show "matches F (recovered rs settled answered recoveries preserved d)" by (rule matches_same [OF m]) (simp_all add: recovered_def)
qed

lemma folder_matches:
  assumes m: "matches F d"
  shows "matches F (snd (PutFolderMutation x g d))" "matches F (snd (PutFolderPublication x f d))"
    "matches F (snd (MarkFolderPublicationConsumedByDelete x now p i d))" "matches F (snd (MarkFolderPublicationCleaned x now p n d))"
    "matches F (snd (RecordIntegrityIncident x now p c i h problem d))" "matches F (snd (SetState key text d))"
proof -
  have clean: "matches F d'" if "clean_publications P now e d = Inr d'" for P e d'
    using that by (intro matches_same [OF m]) (auto simp: clean_publications_def split: if_splits)
  have "matches F d'" if "put_folder_mutation g d = Inr d'" for d'
    using that by (intro matches_same [OF m]) (auto simp: put_folder_mutation_def Let_def split: option.splits if_splits)
  then show "matches F (snd (PutFolderMutation x g d))" by (simp add: PutFolderMutation_def m matches_transaction)
  have "matches F d'" if "put_folder_publication x f d = Inr d'" for d'
    using that by (intro matches_same [OF m]) (auto simp: put_folder_publication_def Let_def split: option.splits if_splits)
  then show "matches F (snd (PutFolderPublication x f d))" by (simp add: PutFolderPublication_def m matches_transaction)
  show "matches F (snd (MarkFolderPublicationConsumedByDelete x now p i d))"
    using clean by (simp add: MarkFolderPublicationConsumedByDelete_def m matches_transaction)
  show "matches F (snd (MarkFolderPublicationCleaned x now p n d))"
    using clean by (simp add: MarkFolderPublicationCleaned_def m matches_transaction)
  have "matches F d'" if "record_incident now p c i h problem d = Inr d'" for d'
    using that by (intro matches_same [OF m]) (auto simp: record_incident_def Let_def split: if_splits)
  then show "matches F (snd (RecordIntegrityIncident x now p c i h problem d))"
    by (simp add: RecordIntegrityIncident_def m matches_transaction)
  show "matches F (snd (SetState key text d))" by (rule matches_same [OF m]) (simp_all add: SetState_def)
qed

section \<open>The inbox and the plans\<close>

lemma matches_plan:
  assumes "matches F d" and "cd_inbox d' = cd_inbox d" "cd_baselines d' = cd_baselines d" "cd_state d' = cd_state d"
    and "\<And>s. s \<in> set (cd_steps d') \<Longrightarrow> s \<notin> set (cd_steps d) \<Longrightarrow> step_in F s"
  shows "matches F d'"
proof -
  have "confirmed_of d' = confirmed_of d" by (rule cursor_fields) (simp_all add: assms(4))
  moreover have "baseline_revision d' i = baseline_revision d i" for i by (simp add: assms(3) baseline_revision_def baseline_at_def)
  ultimately show ?thesis
    using assms(1,5) unfolding matches_def known_to_def assms(2,3) by auto
qed

lemma matches_rows:
  assumes m: "matches F d" and run: "move_inbox P to f d = Inr (n, d')"
    and f: "\<And>r. inbox_payload (f r) = inbox_payload r" "\<And>r. ib_state (f r) = to"
    and known: "\<And>r. r \<in> set (cd_inbox d) \<Longrightarrow> P r \<Longrightarrow> to = InboxApplied \<Longrightarrow> ib_revision r \<le> baseline_revision d (ib_object r)"
  shows "matches F d'"
proof -
  have d': "d' = moved_rows P f d" using run by (simp add: move_inbox_Inr)
  have base: "baseline_revision d' i = baseline_revision d i" for i by (simp add: d' baseline_revision_def baseline_at_def)
  have confirmed: "confirmed_of d' = confirmed_of d" by (simp add: d')
  have row: "row_in F r \<and> (ib_state r = InboxApplied \<longrightarrow> ib_revision r \<le> baseline_revision d (ib_object r))" if r: "r \<in> set (cd_inbox d')" for r
  proof -
    from r obtain r0 where r0: "r0 \<in> set (cd_inbox d)" "r = (if P r0 then f r0 else r0)" by (auto simp: d' set_update_rows)
    show ?thesis
    proof (cases "P r0")
      case True
      with r0(2) have eq: "inbox_payload r = inbox_payload r0" "ib_state r = to" using f by simp_all
      then show ?thesis using inbox_payload_fields(1,3,4) [OF eq(1)] matchesD(1) [OF m r0(1)] known [OF r0(1) True] by (simp add: row_in_def)
    next
      case False
      then show ?thesis using matchesD(1,4) [OF m r0(1)] r0(2) by simp
    qed
  qed
  show ?thesis
    using m row unfolding matches_def known_to_def confirmed base by (simp add: d')
qed

lemma begin_matches: "matches F d \<Longrightarrow> move_inbox P InboxApplying (begin_row now) d = Inr (n, d') \<Longrightarrow> matches F d'"
  by (rule matches_rows [where f = "begin_row now" and to = InboxApplying]) (auto simp: begin_row_def inbox_payload_def)

lemma finish_matches:
  assumes "matches F d" and "move_inbox P InboxApplied (finish_row now) d = Inr (n, d')"
    and "\<And>r. r \<in> set (cd_inbox d) \<Longrightarrow> P r \<Longrightarrow> ib_revision r \<le> baseline_revision d (ib_object r)"
  shows "matches F d'"
  by (rule matches_rows [OF assms(1,2)]) (use assms(3) in \<open>auto simp: finish_row_def inbox_payload_def\<close>)

lemma status_matches: "matches F d \<Longrightarrow> set_plan_status p from to f e d = Inr d' \<Longrightarrow> matches F d'"
  by (erule matches_same) (auto simp: set_plan_status_def Let_def split: if_splits)

lemma raised_matches:
  assumes "matches F d" and "\<And>s. s \<in> set ss \<Longrightarrow> step_in F s"
  shows "matches F (raise_steps ss d)"
proof (rule matches_later [OF assms(1) raise_steps_moves])
  fix b assume "b \<in> set (cd_baselines (raise_steps ss d))" "b \<notin> set (cd_baselines d)"
  then obtain s where s: "s \<in> set ss" "bl_object b = st_object s" "bl_revision b = st_revision s" using raised_rows [of b ss d] by blast
  then have "feed_entry F (st_cursor s) (st_object s) (st_revision s)" using assms(2) by (simp add: step_in_def)
  then show "baseline_in F b" unfolding baseline_in_def s(2,3) by blast
qed (use matchesD(4) [OF assms(1)] raise_steps_mono order_trans in simp_all)

lemma confirmed_matches:
  assumes "matches F d" and "cursors_ok d" "n \<le> MaxInt64" and "known_to F d n"
  shows "matches F (set_confirmed n d)"
proof -
  have base: "baseline_revision (set_confirmed n d) i = baseline_revision d i" for i
    by (simp add: set_confirmed_def baseline_revision_def baseline_at_def)
  have fields: "cd_inbox (set_confirmed n d) = cd_inbox d" "cd_steps (set_confirmed n d) = cd_steps d"
    "cd_baselines (set_confirmed n d) = cd_baselines d" by (simp_all add: set_confirmed_def)
  show ?thesis
    using assms(1,4) set_cursors(5) [OF assms(2,3)] unfolding matches_def known_to_def fields base by simp
qed

text \<open>A row of the feed that the baselines reach makes its change known.\<close>

lemma entry_known:
  assumes "feed_entry F c i revision" and "revision \<le> baseline_revision d i" and "known_to F d (c - 1)"
  shows "known_to F d c"
  using assms less_Suc_eq [of _ "c - 1"] unfolding known_to_def feed_entry_def by auto

lemma known_run:
  assumes "known_to F d a" and "a \<le> b"
    and step: "\<And>c. a < c \<Longrightarrow> c \<le> b \<Longrightarrow> \<exists>i revision. feed_entry F c i revision \<and> revision \<le> baseline_revision d i"
  shows "known_to F d b"
  using assms(2,3)
proof (induction "b - a" arbitrary: b)
  case 0
  then show ?case using assms(1) by simp
next
  case (Suc n)
  have "known_to F d (b - 1)" by (rule Suc.hyps(1)) (use Suc in auto)
  moreover obtain i revision where "feed_entry F b i revision" "revision \<le> baseline_revision d i"
    using Suc.prems(2) [of b] Suc.hyps(2) by force
  ultimately show ?case using entry_known by blast
qed

lemma advance_matches:
  assumes m: "matches F d" and run: "advanceConfirmedInboxCursorTx x d = Inr (n, d')" and inv: "cursors_ok d" "inbox_ok x d"
  shows "matches F d'"
proof -
  note adv = advanceE [OF run inv]
  have "known_to F d n"
  proof (rule known_run [OF matchesD(5) [OF m]])
    show "confirmed_of d \<le> n" using adv by blast
    fix c assume "confirmed_of d < c" "c \<le> n"
    with adv obtain r where r: "inbox_at d c = Some r" "ib_state r = InboxApplied" by blast
    then have mem: "r \<in> set (cd_inbox d)" "ib_cursor r = c" by (auto dest: inbox_at_SomeD)
    have "feed_entry F c (ib_object r) (ib_revision r)" using matchesD(1) [OF m mem(1)] mem(2) by (simp add: row_in_def)
    then show "\<exists>i revision. feed_entry F c i revision \<and> revision \<le> baseline_revision d i"
      using matchesD(4) [OF m mem(1) r(2)] by blast
  qed
  then have "matches F (set_confirmed n d)" using confirmed_matches [OF m inv(1)] adv by blast
  then show ?thesis using adv m by auto
qed

lemma complete_unlinked_matches:
  assumes m: "matches F d" and run: "complete_unlinked now p d = Inr d'" and inv: "inbox_inv x d"
  shows "matches F d'"
proof -
  from inv have ok: "cursors_ok d" "plans_ok x d" by (simp_all add: inbox_inv_def)
  from run inv obtain plan where *: "plan_at d p = Some plan" "confirmed_of d = ap_from plan"
    "set_plan_status p PlanApplying PlanCompleted (ap_completed_update (\<lambda>_. Some now)) (Failed ''apply plan completion race'')
       (set_confirmed (ap_through plan) (raise_steps (plan_steps d p) d)) = Inr d'"
    by (rule complete_unlinkedE)
  let ?ss = "plan_steps d p" let ?r = "raise_steps ?ss d"
  have fits: "map st_cursor ?ss = [Suc (ap_from plan)..<Suc (ap_through plan)]" "ap_from plan < ap_through plan" "ap_through plan \<le> MaxInt64"
    using plan_of_steps(3,4) [OF ok(2) *(1)] by (simp_all add: plan_fits_def del: upt_Suc)
  have steps: "step_in F s" if "s \<in> set ?ss" for s using that matchesD(2) [OF m] by (simp add: plan_steps_def)
  have r: "matches F ?r" by (rule raised_matches [OF m steps])
  have "known_to F ?r (ap_through plan)"
  proof (rule known_run)
    show "known_to F ?r (ap_from plan)" using matchesD(5) [OF r] *(2) by simp
    show "ap_from plan \<le> ap_through plan" using fits(2) by simp
    fix c assume "ap_from plan < c" "c \<le> ap_through plan"
    then have "c \<in> set (map st_cursor ?ss)" unfolding fits(1) by (simp del: upt_Suc)
    then obtain s where s: "s \<in> set ?ss" "st_cursor s = c" by auto
    then have "feed_entry F c (st_object s) (st_revision s)" using steps by (auto simp: step_in_def)
    then show "\<exists>i revision. feed_entry F c i revision \<and> revision \<le> baseline_revision ?r i"
      using raise_steps_reach [OF s(1)] by blast
  qed
  moreover have "cursors_ok ?r" using raised_inbox_inv [OF inv] by (simp add: inbox_inv_def)
  ultimately have "matches F (set_confirmed (ap_through plan) ?r)" using confirmed_matches [OF r] fits(3) by blast
  then show ?thesis using *(3) by (rule status_matches)
qed

lemma complete_linked_matches:
  assumes m: "matches F d" and run: "completeInboxApplyPlanTx x now p cursor d = Inr d'" and inv: "client_inv x d" and link: "link_cursor d p = Some cursor"
  shows "matches F d'"
proof -
  note ok = client_invD [OF inv]
  from run ok(3) obtain plan s r e f n where *: "plan_at d p = Some plan" "step_at d p 0 = Some s" "inbox_at d cursor = Some r"
    "st_applied s" "length (plan_steps d p) = 1"
    "move_inbox (\<lambda>r. ib_cursor r = cursor \<and> ib_state r = InboxApplying) InboxApplied (finish_row now)
       (raise_baseline (st_object s) (st_revision s) (st_operation s) d) = Inr (1, e)"
    "set_plan_status p PlanApplying PlanCompleted (ap_completed_update (\<lambda>_. Some now)) (Failed ''linked apply plan completion race'') e = Inr f"
    "advanceConfirmedInboxCursorTx x f = Inr (n, d')"
    by (rule completeE)
  let ?b = "raise_steps [s] d"
  have raise: "raise_baseline (st_object s) (st_revision s) (st_operation s) d = ?b" by (simp add: raise_steps_def)
  from *(2,5) have steps: "plan_steps d p = [s]" by (cases "plan_steps d p") (auto simp: step_at_plan split: if_splits)
  then have "s \<in> set (cd_steps d)" by (auto simp: plan_steps_def dest!: arg_cong [where f = set])
  then have b: "matches F ?b" using raised_matches [OF m, of "[s]"] matchesD(2) [OF m] by simp
  have inv_b: "inbox_inv x ?b" by (rule raised_inbox_inv [OF ok(4)])
  have "link_fits d p cursor" using ok(8) link_cursorD [OF link] by (auto simp: links_ok_def)
  then have "s\<lparr>st_applied := False\<rparr> = step_of_row p r" using steps *(3) by (auto simp: link_fits_def)
  then have same: "st_object s = ib_object r" "st_revision s = ib_revision r"
    by (auto simp: step_of_row_def dest: arg_cong [where f = st_object] arg_cong [where f = st_revision])
  have e: "matches F e"
  proof (rule finish_matches [OF b *(6) [unfolded raise]])
    fix r' assume "r' \<in> set (cd_inbox ?b)" "ib_cursor r' = cursor \<and> ib_state r' = InboxApplying"
    then have "inbox_at d cursor = Some r'" using inbox_okD(3) [OF ok(6)] by auto
    with *(3) have "r' = r" by simp
    then show "ib_revision r' \<le> baseline_revision ?b (ib_object r')" using raise_steps_reach [of s "[s]" d] same by simp
  qed
  then have f: "matches F f" using *(7) by (rule status_matches)
  have "inbox_inv x e" by (rule finish_rows_inv [OF *(6) [unfolded raise] inv_b]) simp
  moreover have "cd_steps e = cd_steps d" "baseline_revision e i = baseline_revision ?b i" for i
    using *(6) by (simp_all add: raise move_inbox_Inr baseline_revision_def baseline_at_def)
  then have "\<forall>t\<in>set (plan_steps e p). st_applied t \<and> st_revision t \<le> baseline_revision e (st_object t)"
    using steps *(4) raise_steps_reach [of s "[s]" d] by (simp add: plan_steps_def)
  ultimately have "inbox_inv x f" by (intro with_status_inv [OF *(7)]) simp_all
  then show ?thesis using advance_matches [OF f *(8)] by (simp add: inbox_inv_def)
qed

section \<open>Every honest event\<close>

lemma answered_matches:
  assumes m: "matches F d" and run: "record_result i r d = Inr d'" and valid: "validate_result x i r = Inr ()"
    and honest: "honest F d (Answered i r)"
  shows "matches F d'"
proof -
  have w: "matches F (with_result i r d)" by (rule matches_same [OF m]) simp_all
  from run valid show ?thesis
  proof (cases rule: record_resultE)
    case (accepted q)
    from accepted(4) obtain q0 where q0: "op_at d i = Some q0" "ob_object q = ob_object q0"
      by (auto simp: op_at_with_result result_row_def split: if_splits)
    then have mem: "q0 \<in> set (cd_outbox d)" "ob_op q0 = i" by (auto dest: op_at_SomeD)
    with honest accepted(1) have known: "feed_entry F (cr_cursor r) (ob_object q) (cr_revision r)" by (auto simp: list_all_iff q0(2))
    show ?thesis
      unfolding accepted(6)
    proof (rule matches_later [OF w raise_baseline_moves])
      fix b assume "b \<in> set (cd_baselines (raise_baseline (ob_object q) (cr_revision r) i (with_result i r d)))"
        "b \<notin> set (cd_baselines (with_result i r d))"
      then have "bl_object b = ob_object q" "bl_revision b = cr_revision r" using raised_row by blast+
      then show "baseline_in F b" using known unfolding baseline_in_def by auto
    qed simp_all
  next
    case conflict
    show ?thesis by (rule matches_same [OF w]) (simp_all add: conflict(3) split: option.split)
  qed
qed

lemma ingested_matches:
  assumes m: "matches F d" and inv: "client_inv x d" and cs: "list_all (from_feed F) cs"
  shows "matches F (snd (IngestPullPage x now a b cs d))"
proof (cases "fst (IngestPullPage x now a b cs d)")
  case None
  note ok = client_invD [OF inv]
  from None have run: "IngestPullPage x now a b cs d = (None, snd (IngestPullPage x now a b cs d))" by (simp add: prod_eq_iff)
  then show ?thesis
    using ok(5,6)
  proof (cases rule: IngestPullPageE)
    case next_page
    have "good_step x d (snd (IngestPullPage x now a b cs d))" by (rule good_row_events(2) [OF inv])
    then have later: "client_later d (ingested now b cs d)" by (simp add: good_step_def next_page(4))
    show ?thesis
      unfolding next_page(4)
    proof (rule matches_later [OF m later])
      fix r assume "r \<in> set (drop (length (cd_inbox d)) (cd_inbox (ingested now b cs d)))"
      then obtain c where "c \<in> set cs" "r = inbox_row_of now c" by (auto simp: ingested_def set_downloaded_def)
      then show "row_in F r" using cs from_feed_entry by (auto simp: list_all_iff row_in_def inbox_row_of_def)
    next
      fix r assume "r \<in> set (cd_inbox (ingested now b cs d))" "r \<notin> set (cd_inbox d)" "ib_state r = InboxApplied"
      then show "ib_revision r \<le> baseline_revision (ingested now b cs d) (ib_object r)"
        by (auto simp: ingested_def set_downloaded_def inbox_row_of_def)
    next
      assume "confirmed_of (ingested now b cs d) \<noteq> confirmed_of d"
      then show "known_to F (ingested now b cs d) (confirmed_of (ingested now b cs d))"
        using ingested_keeps [OF ok(5,6) next_page(1,2,3,5,6)] next_page(4,7,8) by simp
    qed (simp_all add: ingested_def set_downloaded_def)
  qed (simp add: m)
next
  case (Some e)
  then have "snd (IngestPullPage x now a b cs d) = d"
    by (auto simp: IngestPullPage_def WithTransaction_def split: if_splits sum.splits)
  then show ?thesis by (simp add: m)
qed

lemma planned_matches:
  assumes m: "matches F d" and inv: "client_inv x d" and steps: "list_all (from_feed F) (pl_steps plan)"
  shows "matches F (snd (CreateApplyPlan x now plan d))"
proof -
  have "matches F d'" if run: "create_plan x now plan d = Inr d'" and bound: "pl_through plan \<le> MaxInt64" for d'
    using run client_invD(5) [OF inv] bound
  proof (rule create_planE)
    fix ss assume d': "d' = add_plan (prepared (pl_id plan) (pl_from plan) (pl_through plan) now) ss d"
      and rows: "list_all2 step_shows ss (pl_steps plan)"
    show ?thesis
    proof (rule matches_plan [OF m])
      fix s assume "s \<in> set (cd_steps d')" "s \<notin> set (cd_steps d)"
      then have "s \<in> set ss" by (simp add: d')
      then obtain k where "k < length ss" "s = ss ! k" by (auto simp: in_set_conv_nth)
      then have "pl_steps plan ! k \<in> set (pl_steps plan)" "step_shows s (pl_steps plan ! k)"
        using rows by (simp_all add: list_all2_conv_all_nth)
      then show "step_in F s" using steps from_feed_entry by (auto simp: list_all_iff step_in_def step_shows_def)
    qed (simp_all add: d')
  qed
  then show ?thesis by (simp add: CreateApplyPlan_def m matches_transaction)
qed

lemma plan_matches:
  assumes m: "matches F d" and inv: "client_inv x d"
  shows "matches F (snd (CreateInboxApplyPlan x now c p d))" "matches F (snd (AbandonPreparedInboxPlan x now p d))"
    "matches F (snd (RetryAbandonedInboxPlan x p d))" "matches F (snd (BeginApplyPlan x now p d))"
    "matches F (snd (MarkApplyStepApplied x p n d))" "matches F (snd (MarkFolderStepAppliedAndAuthorizeCleanup x p n d))"
    "matches F (snd (CompleteApplyPlan x now p d))" "matches F (snd (AdvanceConfirmedInboxCursor x d))"
    "matches F (snd (ReconcileInboxAppliedThroughConfirmed x now d))"
proof -
  note ok = client_invD [OF inv]
  have "matches F d'" if run: "create_inbox_plan x now c p d = Inr d'" for d'
    using run ok(6)
  proof (rule create_inbox_planE)
    fix r bs assume at: "inbox_at d c = Some r"
      and d': "d' = (add_plan (prepared p (c - 1) c now) [step_of_row p r] d)\<lparr>cd_bindings := bs, cd_links := cd_links d @ [(p, c)]\<rparr>"
    have r: "row_in F r" using inbox_at_SomeD [OF at] matchesD(1) [OF m] by blast
    show ?thesis
      by (rule matches_plan [OF m]) (use r in \<open>auto simp: d' step_in_def row_in_def step_of_row_def\<close>)
  qed
  then show "matches F (snd (CreateInboxApplyPlan x now c p d))" by (simp add: CreateInboxApplyPlan_def m matches_transaction)
  have "matches F d'" if "abandon_plan now p d = Inr d'" for d'
    using that status_matches [OF m] by (auto simp: abandon_plan_def split: if_splits)
  then show "matches F (snd (AbandonPreparedInboxPlan x now p d))" by (simp add: AbandonPreparedInboxPlan_def m matches_transaction)
  have "matches F d'" if "retry_plan p d = Inr d'" for d'
    using that status_matches [OF m] by (auto simp: retry_plan_def split: if_splits)
  then show "matches F (snd (RetryAbandonedInboxPlan x p d))" by (simp add: RetryAbandonedInboxPlan_def m matches_transaction)
  have "matches F d'" if "begin_plan now p d = Inr d'" for d'
    using that by (rule begin_planE) (use m begin_matches status_matches in blast)+
  then show "matches F (snd (BeginApplyPlan x now p d))" by (simp add: BeginApplyPlan_def m matches_transaction)
  have steps: "matches F d'" if run: "apply_step_rows P d = Inr (k, d')" for P k d'
    using run by (intro matches_plan [OF m]) (use matchesD(2) [OF m] in \<open>auto simp: apply_step_rows_Inr applied_steps_def set_update_rows step_in_def\<close>)
  have "matches F d'" if "mark_applied p k d = Inr d'" for d' k
    using that steps by (auto simp: mark_applied_def elim!: rbind_InrE split: if_splits option.splits)
  then show "matches F (snd (MarkApplyStepApplied x p n d))" by (simp add: MarkApplyStepApplied_def m matches_transaction)
  have "matches F d'" if "mark_folder_applied p k d = Inr d'" for d' k
    using that
  proof (rule mark_folder_appliedE)
    fix s e f
    assume e: "(if st_applied s then Inr d else expect_one (Failed ''folder apply plan is not active'')
        (apply_step_rows (\<lambda>s. stkey s = (p, k) \<and> plan_is d p PlanApplying) d)) = Inr e" and d': "d' = e\<lparr>cd_publications := f\<rparr>"
    have "matches F e" using e m steps by (auto simp: expect_one_Inr split: if_splits)
    then show ?thesis by (rule matches_same) (simp_all add: d')
  qed
  then show "matches F (snd (MarkFolderStepAppliedAndAuthorizeCleanup x p n d))"
    by (simp add: MarkFolderStepAppliedAndAuthorizeCleanup_def m matches_transaction)
  have "matches F d'" if "complete_plan x now p d = Inr d'" for d'
    using that complete_unlinked_matches [OF m _ ok(4)] complete_linked_matches [OF m _ inv]
    by (auto simp: complete_plan_def split: option.splits)
  then show "matches F (snd (CompleteApplyPlan x now p d))" by (simp add: CompleteApplyPlan_def m matches_transaction)
  show "matches F (snd (AdvanceConfirmedInboxCursor x d))"
    using advance_matches [OF m _ ok(5,6)] m by (auto simp: AdvanceConfirmedInboxCursor_def split: sum.split)
  show "matches F (snd (ReconcileInboxAppliedThroughConfirmed x now d))"
    unfolding ReconcileInboxAppliedThroughConfirmed_def
  proof (rule matches_transaction [OF m])
    fix d' assume "reconcile_inbox x now d = Inr d'"
    then show "matches F d'"
      using ok(5)
    proof (cases rule: reconcileE)
      case seed
      then show ?thesis by (intro matches_same [OF m]) (simp_all add: set_downloaded_def)
    next
      case rows
      from rows(3) obtain k e l where e: "move_inbox (\<lambda>r. ib_cursor r \<le> confirmed_of d \<and> ib_state r = InboxPending) InboxApplying (begin_row now) d = Inr (k, e)"
        and d': "move_inbox (\<lambda>r. ib_cursor r \<le> confirmed_of d \<and> ib_state r = InboxApplying) InboxApplied (finish_row now) e = Inr (l, d')"
        by (auto simp: confirm_rows_def elim!: rbind_InrE)
      have me: "matches F e" by (rule begin_matches [OF m e])
      have "confirmed_of e = confirmed_of d" using e by (simp add: move_inbox_Inr)
      then have known: "known_to F e (confirmed_of d)" using matchesD(5) [OF me] by simp
      show ?thesis
      proof (rule finish_matches [OF me d'])
        fix r assume r: "r \<in> set (cd_inbox e)" "ib_cursor r \<le> confirmed_of d \<and> ib_state r = InboxApplying"
        then have "feed_entry F (ib_cursor r) (ib_object r) (ib_revision r)" using matchesD(1) [OF me] by (simp add: row_in_def)
        then have "ib_cursor r - 1 < confirmed_of d" "ib_object r = ch_object (F ! (ib_cursor r - 1))" "ib_revision r = ch_revision (F ! (ib_cursor r - 1))"
          using r(2) by (auto simp: feed_entry_def)
        then show "ib_revision r \<le> baseline_revision e (ib_object r)" using known by (simp add: known_to_def)
      qed
    qed
  qed
qed

lemmas matches_events = outbox_matches folder_matches plan_matches

lemma honest_step:
  assumes "client_inv x d" and m: "matches F d" and honest: "honest F d e"
  shows "matches F (client_step x e d)"
proof (cases e)
  case (Answered i r)
  show ?thesis
  proof (cases "validate_result x i r")
    case (Inr u)
    then show ?thesis
      using answered_matches [OF m _ _ honest [unfolded Answered]] m by (simp add: Answered RecordResult_def matches_transaction)
  qed (simp add: Answered RecordResult_def m)
qed (use assms ingested_matches planned_matches matches_events in simp_all)

interpretation follower: moving_state "client_step x" "honest F" "\<lambda>d. client_inv x d \<and> matches F d" client_later for x F
  using good_client_step honest_step client_later_trans by unfold_locales (auto simp: good_step_def)

abbreviation honest_run :: "ext \<Rightarrow> client_change list \<Rightarrow> client_event list \<Rightarrow> client_db \<Rightarrow> bool" where
  "honest_run x F \<equiv> follower.allowed_run x F"

lemma no_client_matches: "matches F no_client"
proof -
  have "confirmed_of no_client = 0" by (rule cursor_reads(3) [THEN conjunct2, THEN conjunct1]) (simp add: no_client_def)
  then show ?thesis by (simp add: matches_def known_to_def) (simp add: no_client_def)
qed

theorem client_follows_feed:
  assumes "feed_ok F" and "honest_run x F es no_client"
  shows "latest (take (confirmed_of (client_run x es no_client)) F) i \<le> baseline_revision (client_run x es no_client) i"
    "baseline_revision (client_run x es no_client) i \<le> latest F i"
proof -
  have "matches F (client_run x es no_client)"
    using follower.run_keeps [OF conjI [OF no_client_inv no_client_matches] assms(2)] by (simp add: client_run_def)
  then show "latest (take (confirmed_of (client_run x es no_client)) F) i \<le> baseline_revision (client_run x es no_client) i"
    "baseline_revision (client_run x es no_client) i \<le> latest F i"
    by (rule matches_bounds [OF assms(1)])+
qed

end
