(* ===== verification/Example_Client.thy ===== *)
theory Example_Client
  imports Client_Order Client_Converge Example
begin

text \<open>
  A small run of the client's store for the closed examples: it pulls the creation of one folder, plans and
  applies it.
\<close>

section \<open>A change and its plan\<close>

definition pulled_a :: client_change where
  "pulled_a = \<lparr>ch_cursor = 1, ch_mutation = MutationCreate, ch_operation = 17, ch_object = 33, ch_type = ObjectFolder,
     ch_revision = 1, ch_parent = None, ch_name = ''A'', ch_blob = None, ch_deleted = False, ch_state = []\<rparr>"

definition plan_a :: apply_plan where
  "plan_a = \<lparr>pl_id = 71, pl_from = 0, pl_through = 1, pl_steps = [pulled_a]\<rparr>"

definition step_a :: step_row where
  "step_a = step_row_of 71 0 False pulled_a"

lemma pulled_a_simps [simp]:
  "ch_cursor pulled_a = 1" "ch_mutation pulled_a = MutationCreate" "ch_operation pulled_a = 17" "ch_object pulled_a = 33"
  "ch_type pulled_a = ObjectFolder" "ch_revision pulled_a = 1" "ch_parent pulled_a = None" "ch_name pulled_a = ''A''"
  "ch_blob pulled_a = None" "ch_deleted pulled_a = False" "ch_state pulled_a = []"
  by (simp_all add: pulled_a_def)

lemma plan_a_simps [simp]: "pl_id plan_a = 71" "pl_from plan_a = 0" "pl_through plan_a = 1" "pl_steps plan_a = [pulled_a]"
  by (simp_all add: plan_a_def)

lemma component_a: "ValidateComponent demo_ext ''A'' = Inr ()"
  using name_a normalizeName_component [of demo_ext "''A''"] by (auto simp: nfc_laws_def)

lemma demo_ids [simp]: "validObjectID demo_ext i \<longleftrightarrow> i \<noteq> uuid_nil" "validOperationID demo_ext i \<longleftrightarrow> i \<noteq> uuid_nil"
  by (auto simp: validObjectID_def validOperationID_def)

lemma pulled_a_valid: "validateInboxChange demo_ext pulled_a = Inr ()"
  by (simp add: validateInboxChange_def known_object_type_def known_mutation_def valid_component_def component_a uuid_nil_def
      MaxInt64_def)

lemma decimals [simp]: "decimal 0 = ''0''" "decimal (Suc 0) = ''1''"
  by code_simp+

section \<open>The states of the run\<close>

definition client_ingested :: client_db where
  "client_ingested = no_client\<lparr>cd_inbox := [inbox_row_of 5 pulled_a], cd_state := [''downloaded_cursor'' \<mapsto> ''1'']\<rparr>"

lemma no_client_simps [simp]:
  "cd_inbox no_client = []" "cd_outbox no_client = []" "cd_baselines no_client = []" "cd_plans no_client = []" "cd_steps no_client = []"
  "cd_links no_client = []" "cd_state no_client = [''downloaded_cursor'' \<mapsto> ''0'']" "cd_publications no_client = []" "cd_deps no_client = []"
  "cd_objects no_client = []" "cd_issues no_client = []" "cd_recoveries no_client = []" "cd_intents no_client = []"
  by (simp_all add: no_client_def)

lemma no_client_cursors [simp]: "read_downloaded no_client = Inr 0" "downloaded_of no_client = 0" "confirmed_of no_client = 0"
proof -
  have "cursor_is no_client ''downloaded_cursor'' 0" by (simp add: cursor_is_def)
  from cursor_reads(1) [OF this] show "read_downloaded no_client = Inr 0" "downloaded_of no_client = 0" by simp_all
  show "confirmed_of no_client = 0" by (rule cursor_reads(3) [THEN conjunct2, THEN conjunct1]) simp
qed

lemma ingest_a: "IngestPullPage demo_ext 5 0 1 [pulled_a] no_client = (None, client_ingested)"
proof -
  have "check_page demo_ext 0 [pulled_a] = Inr ()" by (simp add: pulled_a_valid MaxInt64_def)
  moreover have "(cd_state no_client)(''downloaded_cursor'' \<mapsto> ''1'') = [''downloaded_cursor'' \<mapsto> ''1'']" by simp
  ultimately show ?thesis
    by (simp add: IngestPullPage_def MaxInt64_def WithTransaction_def ingest_page_def insert_change_row_def set_downloaded_def
        client_ingested_def)
qed

definition client_planned :: client_db where
  "client_planned = client_ingested\<lparr>cd_plans := [\<lparr>ap_id = 71, ap_from = 0, ap_through = 1, ap_status = PlanPrepared,
     ap_created = 6, ap_completed = None\<rparr>], cd_steps := [step_a]\<rparr>"

lemma client_ingested_simps [simp]:
  "cd_inbox client_ingested = [inbox_row_of 5 pulled_a]" "cd_outbox client_ingested = []" "cd_baselines client_ingested = []"
  "cd_plans client_ingested = []" "cd_steps client_ingested = []" "cd_links client_ingested = []"
  "cd_state client_ingested = [''downloaded_cursor'' \<mapsto> ''1'']" "cd_publications client_ingested = []"
  by (simp_all add: client_ingested_def)

lemma step_a_simps [simp]:
  "st_plan step_a = 71" "st_index step_a = 0" "st_cursor step_a = 1" "st_operation step_a = 17" "st_object step_a = 33"
  "st_revision step_a = 1" "st_applied step_a = False"
  by (simp_all add: step_a_def step_row_of_def)

lemma confirmed_none: "cd_state d ''confirmed_cursor'' = None \<Longrightarrow> confirmed_tx d = Inr 0"
  using cursor_reads(3) by blast

lemma plan_a_created: "CreateApplyPlan demo_ext 6 plan_a client_ingested = (None, client_planned)"
proof -
  have "step_change_valid demo_ext 0 1 pulled_a"
    by (simp add: step_change_valid_def MaxInt64_def known_object_type_def known_mutation_def uuid_nil_def valid_component_def
        component_a blob_length_def clone_bytes_def)
  then show ?thesis
    by (simp add: CreateApplyPlan_def uuid_nil_def MaxInt64_def WithTransaction_def create_plan_def confirmed_none insert_plan_def
        plan_at_def Let_def baseline_revision_def baseline_at_def insert_step_def step_at_def link_cursor_def client_planned_def
        flip: step_a_def)
qed

definition client_begun :: client_db where
  "client_begun = client_planned\<lparr>cd_plans := [\<lparr>ap_id = 71, ap_from = 0, ap_through = 1, ap_status = PlanApplying,
     ap_created = 6, ap_completed = None\<rparr>]\<rparr>"

definition client_stepped :: client_db where
  "client_stepped = client_begun\<lparr>cd_steps := [step_a\<lparr>st_applied := True\<rparr>]\<rparr>"

definition client_done :: client_db where
  "client_done = client_stepped\<lparr>cd_baselines := [\<lparr>bl_object = 33, bl_revision = 1, bl_operation = Some 17\<rparr>],
     cd_state := [''downloaded_cursor'' \<mapsto> ''1'', ''confirmed_cursor'' \<mapsto> ''1''],
     cd_plans := [\<lparr>ap_id = 71, ap_from = 0, ap_through = 1, ap_status = PlanCompleted, ap_created = 6, ap_completed = Some 8\<rparr>]\<rparr>"

lemma begin_a: "BeginApplyPlan demo_ext 7 71 client_planned = (None, client_begun)"
  by (simp add: BeginApplyPlan_def uuid_nil_def WithTransaction_def begin_plan_def client_planned_def link_cursor_def plan_at_def
      set_plan_status_def plan_guard_def rows_affected_def update_rows_def client_begun_def)

lemma step_a_applied: "MarkApplyStepApplied demo_ext 71 0 client_begun = (None, client_stepped)"
  by (simp add: MarkApplyStepApplied_def uuid_nil_def WithTransaction_def mark_applied_def client_begun_def client_planned_def
      apply_step_rows_def link_cursor_def plan_is_def stkey_def rows_affected_def update_rows_def client_stepped_def)

lemma complete_a: "CompleteApplyPlan demo_ext 8 71 client_stepped = (None, client_done)"
  by (simp add: CompleteApplyPlan_def uuid_nil_def WithTransaction_def complete_plan_def client_stepped_def client_begun_def
      client_planned_def link_cursor_def complete_unlinked_def plan_at_def plan_steps_def confirmed_none ordered_steps_def
      raise_baseline_def baseline_at_def set_plan_status_def plan_guard_def rows_affected_def update_rows_def
      set_confirmed_def client_done_def)

definition run_a :: "client_event list" where
  "run_a = [Ingested 5 0 1 [pulled_a], Planned 6 plan_a, Begun 7 71, StepApplied 71 0, Completed 8 71]"

lemma run_a: "client_run demo_ext run_a no_client = client_done"
  by (simp add: run_a_def ingest_a plan_a_created begin_a step_a_applied complete_a del: One_nat_def)

lemma client_done_simps [simp]:
  "cd_outbox client_done = []" "cd_baselines client_done = [\<lparr>bl_object = 33, bl_revision = 1, bl_operation = Some 17\<rparr>]"
  "cd_deps client_done = []" "cd_recoveries client_done = []" "cd_intents client_done = []"
  by (simp_all add: client_done_def client_stepped_def client_begun_def client_planned_def client_ingested_def)

section \<open>A deletion on top of it\<close>

definition delete_a :: client_mutation where
  "delete_a = \<lparr>cm_operation = 81, cm_kind = MutationDelete, cm_object = 33, cm_type = ObjectFolder, cm_base = 1, cm_parent = None,
     cm_name = [], cm_blob = [], cm_dependency = None, cm_additional = [], cm_source = [], cm_device = 0, cm_inode = 0\<rparr>"

lemma delete_a_simps [simp]:
  "cm_operation delete_a = 81" "cm_kind delete_a = MutationDelete" "cm_object delete_a = 33" "cm_type delete_a = ObjectFolder"
  "cm_base delete_a = 1" "cm_parent delete_a = None" "cm_name delete_a = []" "cm_blob delete_a = []" "cm_dependency delete_a = None"
  "cm_additional delete_a = []" "cm_source delete_a = []" "cm_device delete_a = 0" "cm_inode delete_a = 0"
  by (simp_all add: delete_a_def)

definition client_queued :: client_db where
  "client_queued = client_done\<lparr>cd_outbox := [outbox_row_of delete_a 9 1]\<rparr>"

lemma enqueue_a: "Enqueue demo_ext 9 [delete_a] client_done = (None, client_queued)"
proof -
  have "validateMutation demo_ext delete_a = Inr ()"
    by (simp add: validateMutation_def uuid_nil_def known_object_type_def known_mutation_def MaxInt64_def mutation_shape_valid_def
        has_folder_binding_def)
  moreover have "mutation_dependencies delete_a = []" by (simp add: mutation_dependencies_def)
  ultimately show ?thesis
    by (simp add: Enqueue_def WithTransaction_def enqueueTx_def enqueue_one_def recovered_create_def ProjectionTx_def uuid_nil_def
        queue_of_def baseline_at_def enqueue_allowed_def supersede_pending_def update_rows_def insert_operation_def op_at_def
        Let_def bind_folder_def insert_dependencies_def client_queued_def)
qed

section \<open>A row applied on its own\<close>

definition client_applied :: client_db where
  "client_applied = client_ingested\<lparr>cd_inbox := [finish_row 7 (begin_row 6 (inbox_row_of 5 pulled_a))]\<rparr>"

lemma pulled_row [simp]: "ib_cursor (inbox_row_of now pulled_a) = 1" "ib_state (inbox_row_of now pulled_a) = InboxPending"
  "ib_cursor (begin_row now r) = ib_cursor r" "ib_state (begin_row now r) = InboxApplying"
  "ib_cursor (finish_row now r) = ib_cursor r" "ib_state (finish_row now r) = InboxApplied"
  by (simp_all add: inbox_row_of_def begin_row_def finish_row_def)

lemma client_applied_run: "client_run demo_ext [Ingested 5 0 1 [pulled_a], RowApplying 6 1, RowApplied 7 1] no_client = client_applied"
proof -
  have "MarkInboxApplying 6 1 client_ingested = (None, client_ingested\<lparr>cd_inbox := [begin_row 6 (inbox_row_of 5 pulled_a)]\<rparr>)"
    by (simp add: MarkInboxApplying_def transitionInbox_def cursor_valid_def MaxInt64_def WithTransaction_def expect_one_def
        move_inbox_def inbox_guard_def unlinked_def link_of_def rows_affected_def update_rows_def)
  moreover have "MarkInboxApplied 7 1 (client_ingested\<lparr>cd_inbox := [begin_row 6 (inbox_row_of 5 pulled_a)]\<rparr>) = (None, client_applied)"
    by (simp add: MarkInboxApplied_def transitionInbox_def cursor_valid_def MaxInt64_def WithTransaction_def expect_one_def
        move_inbox_def inbox_guard_def unlinked_def link_of_def rows_affected_def update_rows_def client_applied_def)
  ultimately show ?thesis by (simp add: ingest_a del: One_nat_def)
qed

lemma client_applied_inv: "client_inv demo_ext client_applied"
  unfolding client_applied_run [symmetric] by (rule client_run_keeps) (rule no_client_inv)

lemma client_done_inv: "client_inv demo_ext client_done"
  unfolding run_a [symmetric] by (rule client_run_keeps) (rule no_client_inv)

lemma advance_a: "AdvanceConfirmedInboxCursor demo_ext client_applied = (Inr 1, set_confirmed 1 client_applied)"
proof -
  note ok = client_invD [OF client_applied_inv]
  have "cursor_is client_applied ''downloaded_cursor'' 1" by (simp add: cursor_is_def MaxInt64_def client_applied_def)
  then have "read_downloaded client_applied = Inr 1" using cursor_reads(1) by blast
  moreover have "read_confirmed client_applied = Inr 0" by (rule cursor_reads(3) [THEN conjunct1]) (simp add: client_applied_def)
  moreover have row: "cd_inbox client_applied = [finish_row 7 (begin_row 6 (inbox_row_of 5 pulled_a))]" by (simp add: client_applied_def)
  have "inbox_row_ok demo_ext (finish_row 7 (begin_row 6 (inbox_row_of 5 pulled_a)))"
    using inbox_okD(3) [OF ok(6)] unfolding row by simp
  then have "scanInboxItem demo_ext (finish_row 7 (begin_row 6 (inbox_row_of 5 pulled_a))) = Inr (finish_row 7 (begin_row 6 (inbox_row_of 5 pulled_a)))"
    by (rule scan_row)
  ultimately show ?thesis
    by (simp add: AdvanceConfirmedInboxCursor_def advanceConfirmedInboxCursorTx_def inbox_between_def row MaxInt64_def)
qed

section \<open>A snapshot of the folder\<close>

definition folder_a :: index_object where
  "folder_a = \<lparr>ix_id = 33, ix_type = ObjectFolder, ix_relative = ''A'', ix_collision = map ascii_lower ''A'', ix_parent = uuid_nil,
     ix_hash = [], ix_device = 5, ix_inode = 6, ix_identity = IdentityKnown\<rparr>"

definition folder_b :: index_object where
  "folder_b = folder_a\<lparr>ix_id := 34, ix_relative := ''0'', ix_collision := ''0''\<rparr>"

definition snapshot_a :: snapshot where
  "snapshot_a = \<lparr>sn_objects = [folder_a, folder_b], sn_issues = []\<rparr>"

lemma snapshot_a_stored: "\<exists>d. ReplaceSnapshot snapshot_a no_client = (None, d)"
proof -
  have "validateSnapshot snapshot_a = Inr ()"
    by (simp add: validateSnapshot_def snapshot_a_def folder_a_def folder_b_def snapshot_object_problem_def uuid_nil_def)
  then show ?thesis
    by (simp add: ReplaceSnapshot_def WithTransaction_def ReplaceSnapshotTx_def)
      (simp add: snapshot_a_def folder_a_def folder_b_def insert_index_object_def int64_def)
qed

section \<open>The text of an identifier\<close>

lemma hex_char_inject: "a < 16 \<Longrightarrow> b < 16 \<Longrightarrow> hex_char a = hex_char b \<Longrightarrow> a = b"
  by (auto simp: hex_char_def of_char_of split: if_splits dest!: arg_cong [where f = "of_char :: char \<Rightarrow> nat"])

lemma drop_nibble: "unat (drop_bit m (u :: uuid)) = 16 * unat (drop_bit (m + 4) u) + unat (drop_bit m u) mod 16"
proof -
  have "unat (drop_bit (m + 4) u) = unat (drop_bit m u) div 16"
    unfolding unat_drop_bit_eq by (simp add: drop_bit_eq_div power_add div_mult2_eq)
  then show ?thesis by simp
qed

lemma sample_uuid_digits: "sample_uuid_string u = sample_uuid_string v \<Longrightarrow> k < 32 \<Longrightarrow> uuid_digit u k = uuid_digit v k"
proof -
  assume eq: "sample_uuid_string u = sample_uuid_string v" and k: "k < 32"
  have "map (uuid_digit u) [0..<8] = map (uuid_digit v) [0..<8]" "map (uuid_digit u) [8..<12] = map (uuid_digit v) [8..<12]"
    "map (uuid_digit u) [12..<16] = map (uuid_digit v) [12..<16]" "map (uuid_digit u) [16..<20] = map (uuid_digit v) [16..<20]"
    "map (uuid_digit u) [20..<32] = map (uuid_digit v) [20..<32]"
    using eq unfolding sample_uuid_string_def by (simp_all add: append_eq_append_conv del: upt_Suc upt_rec_numeral)
  note parts = this [unfolded map_eq_conv set_upt]
  from k consider "k \<in> {0..<8}" | "k \<in> {8..<12}" | "k \<in> {12..<16}" | "k \<in> {16..<20}" | "k \<in> {20..<32}" by fastforce
  then show ?thesis by cases (use parts in blast)+
qed

lemma sample_uuid_inject:
  assumes "sample_uuid_string u = sample_uuid_string v"
  shows "u = v"
proof -
  have nibble: "unat (drop_bit (124 - 4 * k) u) mod 16 = unat (drop_bit (124 - 4 * k) v) mod 16" if "k < 32" for k
    using sample_uuid_digits [OF assms that] by (intro hex_char_inject) (simp_all add: uuid_digit_def)
  have "unat (drop_bit (128 - 4 * k) u) = unat (drop_bit (128 - 4 * k) v)" if "k \<le> 32" for k
    using that
  proof (induction k)
    case 0
    have "unat (drop_bit 128 w) = 0" for w :: uuid
      using unsigned_less [of w, where ?'a = nat] unfolding unat_drop_bit_eq by (simp add: drop_bit_eq_div)
    then show ?case by simp
  next
    case (Suc k)
    then have "128 - 4 * Suc k = 124 - 4 * k" "124 - 4 * k + 4 = 128 - 4 * k" by simp_all
    then show ?case using Suc nibble [of k] drop_nibble [of "124 - 4 * k" u] drop_nibble [of "124 - 4 * k" v] by simp
  qed
  from this [of 32] have "unat u = unat v" by simp
  then show ?thesis by (rule word_unat_eq_iff [THEN iffD2])
qed

lemma sample_uuid_law: "uuid_string_law demo_ext"
proof -
  have "code (hex_char n) < 128" if "n < 16" for n
    using that by (auto simp: hex_char_def code_def)
  then have "is_ascii (sample_uuid_string u)" for u
    by (auto simp: is_ascii_def sample_uuid_string_def uuid_digit_def code_def list_all_iff)
  moreover have "length (sample_uuid_string u) = 36" for u by (simp add: sample_uuid_string_def)
  ultimately show ?thesis using sample_uuid_inject by (auto simp: uuid_string_law_def)
qed

end
