(* ===== verification/Properties_Client.thy ===== *)
theory Properties_Client
  imports Example_Client
begin

text \<open>
  The properties of the client's synchronization store, each with a closed example.
\<close>

section \<open>Pages\<close>

lemma stored_rows:
  assumes "d' = ingested now to cs d" and "inbox_ok x d'" and "c \<in> set cs"
  shows "inbox_at d' (ch_cursor c) = Some (inbox_row_of now c)"
proof -
  have "inbox_row_of now c \<in> set (cd_inbox d')" using assms(1,3) by (simp add: ingested_def set_downloaded_def)
  from inbox_okD(3) [OF assms(2) this] show ?thesis by (simp add: inbox_row_of_def)
qed

lemma ingested_stored:
  assumes "IngestPullPage x now from to cs d = (None, d')" and "cursors_ok d" "inbox_ok x d"
  shows "\<forall>c\<in>set cs. \<exists>r. inbox_at d' (ch_cursor c) = Some r \<and> sameChangePayload (Client_Inbox.change_of r) c"
  using assms
proof (cases rule: IngestPullPageE)
  case next_page
  have "inbox_ok x d'" using ingested_keeps [OF assms(2,3) next_page(1,2,3,5,6)] next_page(4,7,8) by simp
  then have "inbox_at d' (ch_cursor c) = Some (inbox_row_of now c) \<and> sameChangePayload (Client_Inbox.change_of (inbox_row_of now c)) c" if "c \<in> set cs" for c
    using stored_rows [OF next_page(4) _ that] inbox_row_of_ok(2) [of x c now] next_page(6,8) that
    by (cases cs) (auto simp: sameChangePayload_def)
  then show ?thesis by blast
qed simp

lemma same_rows:
  "(\<forall>c\<in>set cs. \<exists>r. inbox_at d (ch_cursor c) = Some r \<and> inbox_row_ok x r \<and> sameChangePayload (Client_Inbox.change_of r) c) \<Longrightarrow>
     check_replay x d cs = Inr ()"
  by (induction cs) (auto simp: inboxItemTx_def scan_option_def scan_row)

lemma ingested_again:
  assumes "IngestPullPage x now from to cs d = (None, d')" and inv: "cursors_ok d" "inbox_ok x d"
  shows "IngestPullPage x later_now from to cs d' = (None, d')"
proof -
  from assms(1) have range: "to \<le> MaxInt64" "from \<le> to" "length cs = to - from" and page: "check_page x from cs = Inr ()"
    by (auto simp: IngestPullPage_def split: if_splits sum.splits)
  have again: "IngestPullPage x later_now from to cs e = WithTransaction (ingest_page x later_now from to cs) e" for e
    using range page by (simp add: IngestPullPage_def)
  have replayed: ?thesis if "inbox_ok x d'" "cursors_ok d'" "from < downloaded_of d'" "to \<le> downloaded_of d'"
  proof -
    have "\<forall>c\<in>set cs. \<exists>r. inbox_at d' (ch_cursor c) = Some r \<and> inbox_row_ok x r \<and> sameChangePayload (Client_Inbox.change_of r) c"
      using ingested_stored [OF assms] inbox_at_SomeD inbox_okD(3) [OF that(1)] by blast
    then have "check_replay x d' cs = Inr ()" by (rule same_rows)
    then show ?thesis
      unfolding again using that(3,4) cursors_read(1) [OF that(2)] by (simp add: WithTransaction_def ingest_page_def)
  qed
  from assms show ?thesis
  proof (cases rule: IngestPullPageE)
    case replay
    then show ?thesis using replayed inv by simp
  next
    case next_page
    note keeps = ingested_keeps [OF inv next_page(1,2,3,5,6)]
    have keeps: "cursors_ok d'" "inbox_ok x d'" "downloaded_of d' = to" using keeps next_page(4,7,8) by simp_all
    show ?thesis
    proof (cases "cs = []")
      case True
      then have "to = from" using range by simp
      then show ?thesis
        unfolding again using True cursors_read(1) [OF keeps(1)] keeps(3) by (simp add: WithTransaction_def ingest_page_def)
    next
      case False
      then show ?thesis using replayed [OF keeps(2,1)] next_page(2) keeps(3) by simp
    qed
  qed
qed

section \<open>Every run\<close>

text \<open>C2: whatever the client does with its store, in any order and with any arguments, the invariant of the
  store holds: operations are numbered without a gap and wait for earlier ones only, results fit their
  status, what was accepted or applied is known as a baseline, the inbox holds an unbroken range of cursors
  up to the downloaded one, at most one plan is active, and a linked plan is in step with its row.\<close>

theorem client_store_keeps_invariant:
  "client_inv x (client_run x es no_client)"
  by (rule client_run_keeps) (rule no_client_inv)


section \<open>The outbox\<close>

lemma project_ops_Inr:
  "project_ops x is (n, i, b) = Inr (n', i', b') \<Longrightarrow>
     n' = n + length is \<and> i' = (if is = [] then i else Some (last is)) \<and> b' = (if is = [] then b else True)"
proof (induction "is" arbitrary: n i b)
  case (Cons j js)
  then have "project_ops x js (Suc n, Some j, True) = Inr (n', i', b')" by (simp split: if_splits)
  from Cons.IH [OF this] show ?case by simp
qed simp

lemma projection:
  assumes "ProjectionTx x d i = Inr (revision, dependency, durable)"
  shows "revision = baseline_revision d i + length (queue_of d i) \<and>
    dependency = (if queue_of d i = [] then None else Some (ob_op (last (queue_of d i))))"
  using assms
  by (auto simp: ProjectionTx_def baseline_revision_def last_map split: if_splits option.splits dest!: project_ops_Inr)

text \<open>C20: a mutation is queued only on top of what is known: it builds on the baseline plus the operations
  queued for its object and names the last of them as a prerequisite, and a creation only where there is no
  baseline. Queued operations nothing depends on give way to it.\<close>

theorem enqueue_builds_on_projection:
  assumes "Enqueue x now [m] d = (None, d')" and "recovered_create d m = None"
  shows "(if cm_kind m = MutationCreate then baseline_at d (cm_object m) = None
     else cm_base m = baseline_revision d (cm_object m) + length (queue_of d (cm_object m)) \<and>
       (queue_of d (cm_object m) \<noteq> [] \<longrightarrow> mutationDependsOn m (ob_op (last (queue_of d (cm_object m)))))) \<and>
     cd_outbox d' = cd_outbox (supersede_pending m d) @ [outbox_row_of m now (Suc (length (cd_outbox d)))]"
proof -
  from assms(1) obtain s where run: "enqueue_one x now m ([], d) = Inr (s, d')"
    by (auto simp: Enqueue_def WithTransaction_def enqueueTx_def elim!: rbind_InrE split: sum.splits)
  then show ?thesis
  proof (cases rule: enqueue_oneE)
    case (new d1 projection)
    then have base: "cd_outbox d' = cd_outbox (supersede_pending m d) @ [outbox_row_of m now (Suc (length (cd_outbox d)))]"
      by (simp add: enqueued_def supersede_pending_def update_rows_def)
    obtain revision dependency durable where p: "projection = (revision, dependency, durable)" by (cases projection)
    note known = projection [OF new(2) [unfolded p]]
    show ?thesis
      using new(3) known base by (auto simp: enqueue_allowed_def p split: if_splits option.splits)
  qed (use assms(2) in simp)
qed

theorem enqueue_builds_on_projection_witness:
  "cd_outbox (snd (Enqueue demo_ext 9 [delete_a] client_done)) = [outbox_row_of delete_a 9 1] \<and>
   baseline_revision client_done 33 = 1"
  using enqueue_builds_on_projection [OF enqueue_a] enqueue_a by (simp add: recovered_create_def supersede_pending_def update_rows_def queue_of_def)

section \<open>The inbox\<close>

text \<open>C21: pulling is idempotent: a page that was stored can be given again, at any time, and is recognised
  as the page stored before: nothing changes. Every change of the page is in the inbox with its payload.\<close>

theorem page_stored_once:
  assumes "client_inv x d" and "IngestPullPage x now from to cs d = (None, d')"
  shows "IngestPullPage x later_now from to cs d' = (None, d') \<and>
    (\<forall>c\<in>set cs. \<exists>r. inbox_at d' (ch_cursor c) = Some r \<and> sameChangePayload (Client_Inbox.change_of r) c)"
  using assms client_invD(5,6) [OF assms(1)] by (intro conjI ingested_again ingested_stored)

theorem page_stored_once_witness:
  "IngestPullPage demo_ext 6 0 1 [pulled_a] client_ingested = (None, client_ingested)"
  using page_stored_once [OF no_client_inv ingest_a] by blast

text \<open>C22: the confirmed cursor moves to the end of the applied changes: every change up to it is applied, and
  the next one, if it is there, is not. It never runs ahead of what was pulled.\<close>

theorem frontier_is_the_applied_prefix:
  assumes "client_inv x d" and "AdvanceConfirmedInboxCursor x d = (Inr n, d')"
  shows "confirmed_of d \<le> n \<and> confirmed_of d' = n \<and>
    (\<forall>c. confirmed_of d < c \<and> c \<le> n \<longrightarrow> (\<exists>r. inbox_at d' c = Some r \<and> ib_state r = InboxApplied)) \<and>
    \<not> (\<exists>r. inbox_at d' (Suc n) = Some r \<and> ib_state r = InboxApplied)"
proof -
  note ok = client_invD [OF assms(1)]
  from assms(2) have "advanceConfirmedInboxCursorTx x d = Inr (n, d')"
    by (auto simp: AdvanceConfirmedInboxCursor_def split: sum.splits)
  note * = advanceE [OF this ok(5,6)]
  have "inbox_at d' c = inbox_at d c" for c using * by (simp add: set_confirmed_def inbox_at_def)
  moreover have "confirmed_of (set_confirmed n d) = n" using * set_cursors [OF ok(5)] by blast
  ultimately show ?thesis using * by auto
qed

theorem frontier_is_the_applied_prefix_witness:
  "confirmed_of client_applied = 0 \<and> confirmed_of (set_confirmed 1 client_applied) = 1"
  using frontier_is_the_applied_prefix [OF client_applied_inv advance_a] cursor_reads(3) [of client_applied]
  by (simp add: client_applied_def)

section \<open>The index\<close>

section \<open>Names of conflict copies\<close>

lemma fit_runes_length: "length (fit_runes limit s) \<le> limit \<or> fit_runes limit s = []"
proof (induction limit s rule: fit_runes.induct)
  case (1 limit s)
  then show ?case by (subst (1 2) fit_runes.simps) auto
qed

lemma fit_runes_bound: "length (fit_runes limit s) \<le> limit"
  using fit_runes_length [of limit s] by auto

text \<open>C23: the name of a conflict copy fits into a component, whatever the name of the original, and two
  operations never get the same name for their copies, of notes or of folders.\<close>

theorem conflict_names_fit:
  assumes "uuid_string_law x"
  shows "length (ConflictFileName x original i) \<le> MaxComponentBytes \<and>
    length (ConflictFolderName x original i) \<le> MaxComponentBytes \<and>
    (i \<noteq> j \<longrightarrow> ConflictFileName x original i \<noteq> ConflictFileName x other j \<and>
      ConflictFolderName x original i \<noteq> ConflictFolderName x other j)"
proof -
  have len: "length (x_uuid_string x u) = 36" for u using assms by (simp add: uuid_string_law_def)
  have inj: "i \<noteq> j \<Longrightarrow> x_uuid_string x i \<noteq> x_uuid_string x j" using assms by (auto simp: uuid_string_law_def)
  have "length (name_or (fit_runes n s) fallback) \<le> n" if "length fallback \<le> n" for n s fallback
    using fit_runes_bound [of n s] that by (simp add: name_or_def)
  then show ?thesis
    using inj by (auto simp: ConflictFileName_def ConflictFolderName_def Let_def len MaxComponentBytes_def)
qed

theorem conflict_names_fit_witness:
  "length (ConflictFileName demo_ext (replicate 300 (CHR ''n'')) 17) \<le> MaxComponentBytes"
  using conflict_names_fit [OF sample_uuid_law] by blast

section \<open>Following a feed\<close>

text \<open>C4: while pages, plans and accepted answers come from one feed of changes, every baseline of the client is
  between the latest revision of the object below the confirmed cursor and the latest one of the feed; once
  the confirmed cursor is at the end of the feed, the baselines are the latest revisions.\<close>

theorem baselines_follow_the_feed:
  assumes "feed_ok F" and "honest_run x F es no_client" and "d = client_run x es no_client"
  shows "latest (take (confirmed_of d) F) i \<le> baseline_revision d i \<and> baseline_revision d i \<le> latest F i \<and>
    (confirmed_of d = length F \<longrightarrow> baseline_revision d i = latest F i)"
  using client_follows_feed [OF assms(1,2), of i] assms(3) by auto

theorem baselines_follow_the_feed_witness:
  "baseline_revision client_done 33 = latest [pulled_a] 33"
proof -
  have "feed_ok [pulled_a]" by (simp add: feed_ok_def latest_def)
  moreover have "honest_run demo_ext [pulled_a] run_a no_client" by (simp add: run_a_def from_feed_def)
  moreover have "cursor_is client_done ''confirmed_cursor'' 1" by (simp add: cursor_is_def client_done_def MaxInt64_def)
  then have "confirmed_of client_done = 1" using cursor_reads(2) by blast
  ultimately show ?thesis using baselines_follow_the_feed [of "[pulled_a]" demo_ext run_a client_done 33] by (simp add: run_a)
qed

end
