(* ===== verification/Json.thy ===== *)
theory Json
  imports Go_Codec Password External
begin

text \<open>
  What both programs use of \<open>encoding/json\<close>: values as trees, the text \<open>json.Marshal\<close> writes, and the reader
  with its grammar, its escapes and its limit on nesting. The main result is that what is written is read
  back as it was. Before it the hexadecimal texts of \<open>encoding/hex\<close>, after it the decoding into Go values and the strict
  decoding both programs build on it. A string of a tree is a Go string, already unquoted; a number is its literal.
\<close>

section \<open>Hexadecimal\<close>

text \<open>\<open>hex.DecodeString\<close>, which takes digits of either case, and its round trip with \<open>hex.EncodeToString\<close>.\<close>

definition hex_value :: "char \<Rightarrow> nat option" where
  "hex_value c =
     (if in_range 48 57 c then Some (code c - 48)
      else if in_range 97 102 c then Some (code c - 87)
      else if in_range 65 70 c then Some (code c - 55)
      else None)"

fun hex_decode :: "string \<Rightarrow> string option" where
  "hex_decode [] = Some []"
| "hex_decode [_] = None"
| "hex_decode (a # b # s) =
     (case (hex_value a, hex_value b, hex_decode s) of
        (Some m, Some n, Some t) \<Rightarrow> Some (char_of (m * 16 + n) # t)
      | _ \<Rightarrow> None)"

lemma hex_digit_back: "n < 16 \<Longrightarrow> hex_value (hex_char n) = Some n"
  by (auto simp: hex_value_def hex_char_def in_range_def code_char_of)

lemma hex_halves: "code c div 16 < 16" "code c mod 16 < 16" "char_of (code c div 16 * 16 + code c mod 16) = c"
  using code_less [of c] by (simp_all add: div_mult_mod_eq less_mult_imp_div_less)

theorem hex_decode_encode: "hex_decode (hex_encode s) = Some s"
  by (induction s) (simp_all add: hex_encode_def hex_digit_back hex_halves)

lemma length_hex_encode [simp]: "length (hex_encode s) = 2 * length s"
  by (induction s) (simp_all add: hex_encode_def)

lemma hex_encode_inj: "hex_encode s = hex_encode t \<longleftrightarrow> s = t"
  by (metis hex_decode_encode option.inject)

lemma hex_decode_length: "hex_decode s = Some t \<Longrightarrow> length s = 2 * length t"
  by (induction s arbitrary: t rule: hex_decode.induct) (auto split: option.splits)

text \<open>The digits of the encoder are lower case, so lower-casing leaves them.\<close>

definition hex_lower :: "char \<Rightarrow> bool" where
  "hex_lower c \<longleftrightarrow> in_range 48 57 c \<or> in_range 97 102 c"

lemma hex_char_lower: "n < 16 \<Longrightarrow> hex_lower (hex_char n)"
  by (auto simp: hex_lower_def hex_char_def in_range_def code_char_of)

lemma hex_encode_lower: "list_all hex_lower (hex_encode s)"
  using hex_halves(1,2) by (induction s) (simp_all add: hex_encode_def hex_char_lower)

lemma hex_lower_ascii: "list_all hex_lower s \<Longrightarrow> is_ascii s"
  by (auto simp: list_all_iff is_ascii_def hex_lower_def in_range_def)

lemma to_lower_hex: "to_lower x (hex_encode s) = hex_encode s"
proof -
  have "ascii_lower c = c" if "hex_lower c" for c using that by (auto simp: ascii_lower_def hex_lower_def in_range_def)
  then have "map ascii_lower (hex_encode s) = hex_encode s"
    using hex_encode_lower [of s] by (auto simp: list_all_iff intro: map_idI)
  then show ?thesis using hex_lower_ascii [OF hex_encode_lower] by (simp add: to_lower_def)
qed

section \<open>Trees\<close>

datatype json =
    JNull
  | JBool bool
  | JNumber string
  | JString string
  | JArray "json list"
  | JObject "(string \<times> json) list"

section \<open>Writing\<close>

text \<open>The items of an array or the members of an object, separated by commas.\<close>

fun commas :: "string list \<Rightarrow> string" where
  "commas [] = []"
| "commas [s] = s"
| "commas (s # ss) = s @ '','' @ commas ss"

fun json_text :: "json \<Rightarrow> string" where
  "json_text JNull = ''null''"
| "json_text (JBool b) = (if b then ''true'' else ''false'')"
| "json_text (JNumber t) = t"
| "json_text (JString s) = json_string s"
| "json_text (JArray js) = ''['' @ commas (map json_text js) @ '']''"
| "json_text (JObject ms) = ''{'' @ commas (map (\<lambda>(k, j). json_string k @ '':'' @ json_text j) ms) @ ''}''"

section \<open>Reading\<close>

definition json_space :: "char \<Rightarrow> bool" where
  "json_space c \<longleftrightarrow> code c = 32 \<or> code c = 9 \<or> code c = 13 \<or> code c = 10"

definition skip_ws :: "string \<Rightarrow> string" where
  "skip_ws = dropWhile json_space"

lemma skip_ws_length: "length (skip_ws s) \<le> length s"
  by (simp add: skip_ws_def length_dropWhile_le)

definition json_digit :: "char \<Rightarrow> bool" where
  "json_digit c = in_range 48 57 c"

text \<open>\<open>utf8.EncodeRune\<close>.\<close>

definition encode_rune :: "nat \<Rightarrow> string" where
  "encode_rune rune =
     (let r = (if 1114111 < rune \<or> 55296 \<le> rune \<and> rune \<le> 57343 then rune_error else rune) in
      if r < 128 then [char_of r]
      else if r < 2048 then [char_of (192 + r div 64), char_of (128 + r mod 64)]
      else if r < 65536 then [char_of (224 + r div 4096), char_of (128 + r div 64 mod 64), char_of (128 + r mod 64)]
      else [char_of (240 + r div 262144), char_of (128 + r div 4096 mod 64), char_of (128 + r div 64 mod 64), char_of (128 + r mod 64)])"

text \<open>The text of a string up to the closing quote, as the scanner accepts it, and what follows.\<close>

definition simple_escape :: "char \<Rightarrow> bool" where
  "simple_escape c \<longleftrightarrow> c \<in> set [CHR 0x22, CHR 0x5C, CHR ''/'', CHR ''b'', CHR ''f'', CHR ''n'', CHR ''r'', CHR ''t'']"

fun scan_string :: "string \<Rightarrow> (string \<times> string) option" where
  "scan_string [] = None"
| "scan_string (c # cs) =
     (if c = CHR 0x22 then Some ([], cs)
      else if c = CHR 0x5C then
        (case cs of
           e # rest \<Rightarrow>
             if simple_escape e then map_option (\<lambda>(raw, r). (c # e # raw, r)) (scan_string rest)
             else if e = CHR ''u'' then
               (case rest of
                  h1 # h2 # h3 # h4 # rest' \<Rightarrow>
                    if list_all (\<lambda>h. hex_value h \<noteq> None) [h1, h2, h3, h4]
                    then map_option (\<lambda>(raw, r). (c # e # h1 # h2 # h3 # h4 # raw, r)) (scan_string rest')
                    else None
                | _ \<Rightarrow> None)
             else None
         | [] \<Rightarrow> None)
      else if code c < 32 then None
      else map_option (\<lambda>(raw, r). (c # raw, r)) (scan_string cs))"

text \<open>\<open>getu4\<close>: the value of an escape \<open>\uXXXX\<close> at the start of the text.\<close>

definition getu4 :: "string \<Rightarrow> nat option" where
  "getu4 s =
     (case s of
        b # u # h1 # h2 # h3 # h4 # _ \<Rightarrow>
          if b = CHR 0x5C \<and> u = CHR ''u'' then
            (case (hex_value h1, hex_value h2, hex_value h3, hex_value h4) of
               (Some a, Some b, Some c, Some d) \<Rightarrow> Some (((a * 16 + b) * 16 + c) * 16 + d)
             | _ \<Rightarrow> None)
          else None
      | _ \<Rightarrow> None)"

definition high_surrogate :: "nat \<Rightarrow> bool" where
  "high_surrogate r \<longleftrightarrow> 55296 \<le> r \<and> r < 56320"

definition low_surrogate :: "nat \<Rightarrow> bool" where
  "low_surrogate r \<longleftrightarrow> 56320 \<le> r \<and> r < 57344"

definition escape_char :: "char \<Rightarrow> char" where
  "escape_char e =
     (if e = CHR ''b'' then char_of (8 :: nat) else if e = CHR ''f'' then char_of (12 :: nat)
      else if e = CHR ''n'' then char_of (10 :: nat) else if e = CHR ''r'' then char_of (13 :: nat)
      else if e = CHR ''t'' then char_of (9 :: nat) else e)"

text \<open>\<open>unquote\<close>, on a text the scanner has accepted.\<close>

function unquote :: "string \<Rightarrow> string" where
  "unquote [] = []"
| "unquote (c # cs) =
     (if c = CHR 0x5C then
        (case cs of
           [] \<Rightarrow> []
         | e # rest \<Rightarrow>
             if e \<noteq> CHR ''u'' then escape_char e # unquote rest
             else (case getu4 (c # cs) of
                 None \<Rightarrow> []
               | Some r \<Rightarrow>
                   (let more = drop 5 cs in
                    if high_surrogate r then
                      (case getu4 more of
                         Some r' \<Rightarrow>
                           if low_surrogate r'
                           then encode_rune (65536 + (r - 55296) * 1024 + (r' - 56320)) @ unquote (drop 6 more)
                           else encode_rune rune_error @ unquote more
                       | None \<Rightarrow> encode_rune rune_error @ unquote more)
                    else encode_rune r @ unquote more)))
      else if code c < 128 then c # unquote cs
      else (case decode_rune (c # cs) of (r, w) \<Rightarrow> encode_rune r @ unquote (drop (w - 1) cs)))"
  by pat_completeness auto
termination
  by (relation "measure length") auto

text \<open>A number: an optional sign, digits without a leading zero, a fraction, an exponent.\<close>

definition take_digits :: "string \<Rightarrow> (string \<times> string) option" where
  "take_digits s =
     (let digits = takeWhile json_digit s in if digits = [] then None else Some (digits, drop (length digits) s))"

definition scan_int :: "string \<Rightarrow> (string \<times> string) option" where
  "scan_int s =
     (case s of
        [] \<Rightarrow> None
      | c # cs \<Rightarrow> if c = CHR ''0'' then Some ([c], cs) else take_digits s)"

definition scan_fraction :: "string \<Rightarrow> (string \<times> string) option" where
  "scan_fraction s =
     (case s of
        c # cs \<Rightarrow> if c = CHR ''.'' then map_option (\<lambda>(t, r). (c # t, r)) (take_digits cs) else Some ([], s)
      | [] \<Rightarrow> Some ([], []))"

definition scan_exponent :: "string \<Rightarrow> (string \<times> string) option" where
  "scan_exponent s =
     (case s of
        c # cs \<Rightarrow>
          if c = CHR ''e'' \<or> c = CHR ''E'' then
            (case cs of
               d # ds \<Rightarrow> if d = CHR ''+'' \<or> d = CHR ''-'' then map_option (\<lambda>(t, r). (c # d # t, r)) (take_digits ds)
                  else map_option (\<lambda>(t, r). (c # t, r)) (take_digits cs)
             | [] \<Rightarrow> None)
          else Some ([], s)
      | [] \<Rightarrow> Some ([], []))"

definition scan_number :: "string \<Rightarrow> (string \<times> string) option" where
  "scan_number s =
     (let (sign, s1) = (case s of c # cs \<Rightarrow> if c = CHR ''-'' then ([c], cs) else ([], s) | [] \<Rightarrow> ([], [])) in
      Option.bind (scan_int s1) (\<lambda>(int, s2).
      Option.bind (scan_fraction s2) (\<lambda>(fraction, s3).
      Option.bind (scan_exponent s3) (\<lambda>(exponent, s4). Some (sign @ int @ fraction @ exponent, s4)))))"

definition after_prefix :: "string \<Rightarrow> string \<Rightarrow> string option" where
  "after_prefix p s = (if has_prefix s p then Some (drop (length p) s) else None)"

text \<open>
  The parser: a value, the items of an array up to its bracket, the members of an object up to its brace.
  Each returns what follows. The comparisons of lengths always hold; they make the recursion evident.
\<close>

function (sequential) parse_value :: "string \<Rightarrow> (json \<times> string) option"
  and parse_items :: "string \<Rightarrow> (json list \<times> string) option"
  and parse_members :: "string \<Rightarrow> ((string \<times> json) list \<times> string) option" where
  "parse_value s =
     (case skip_ws s of
        [] \<Rightarrow> None
      | c # cs \<Rightarrow>
          if c = CHR ''['' then
            (case after_prefix '']'' (skip_ws cs) of
               Some rest \<Rightarrow> Some (JArray [], rest)
             | None \<Rightarrow> map_option (\<lambda>(js, r). (JArray js, r)) (parse_items cs))
          else if c = CHR ''{'' then
            (case after_prefix ''}'' (skip_ws cs) of
               Some rest \<Rightarrow> Some (JObject [], rest)
             | None \<Rightarrow> map_option (\<lambda>(ms, r). (JObject ms, r)) (parse_members cs))
          else if c = CHR 0x22 then map_option (\<lambda>(raw, r). (JString (unquote raw), r)) (scan_string cs)
          else if c = CHR ''t'' then map_option (Pair (JBool True)) (after_prefix ''true'' (c # cs))
          else if c = CHR ''f'' then map_option (Pair (JBool False)) (after_prefix ''false'' (c # cs))
          else if c = CHR ''n'' then map_option (Pair JNull) (after_prefix ''null'' (c # cs))
          else map_option (\<lambda>(t, r). (JNumber t, r)) (scan_number (c # cs)))"
| "parse_items s =
     (case parse_value s of
        None \<Rightarrow> None
      | Some (j, r) \<Rightarrow>
          if length r < length s then
            (case skip_ws r of
               [] \<Rightarrow> None
             | d # rest \<Rightarrow>
                 if d = CHR '']'' then Some ([j], rest)
                 else if d = CHR '','' then map_option (\<lambda>(js, r'). (j # js, r')) (parse_items rest)
                 else None)
          else None)"
| "parse_members s =
     (case after_prefix [CHR 0x22] (skip_ws s) of
        None \<Rightarrow> None
      | Some cs \<Rightarrow>
          (case scan_string cs of
             None \<Rightarrow> None
           | Some (raw, r0) \<Rightarrow>
               (case after_prefix '':'' (skip_ws r0) of
                  None \<Rightarrow> None
                | Some r1 \<Rightarrow>
                    if length r1 < length s then
                      (case parse_value r1 of
                         None \<Rightarrow> None
                       | Some (j, r) \<Rightarrow>
                           if length r < length s then
                             (case skip_ws r of
                                [] \<Rightarrow> None
                              | d # rest \<Rightarrow>
                                  if d = CHR ''}'' then Some ([(unquote raw, j)], rest)
                                  else if d = CHR '','' then map_option (\<lambda>(ms, r'). ((unquote raw, j) # ms, r')) (parse_members rest)
                                  else None)
                           else None)
                    else None)))"
  by pat_completeness auto
termination
proof (relation "measures [\<lambda>x. case x of Inl s \<Rightarrow> length s | Inr (Inl s) \<Rightarrow> length s | Inr (Inr s) \<Rightarrow> length s,
    \<lambda>x. case x of Inl _ \<Rightarrow> 0 | _ \<Rightarrow> 1]", goal_cases)
  case (2 s c cs)
  then show ?case using skip_ws_length [of s] by (auto dest: Suc_le_lessD)
next
  case (3 s c cs)
  then show ?case using skip_ws_length [of s] by (auto dest: Suc_le_lessD)
next
  case (5 s p j r d rest)
  then show ?case using skip_ws_length [of r] by simp
next
  case (7 s cs raws raw r0 r1 p j r d rest)
  then show ?case using skip_ws_length [of r] by auto
qed auto

declare parse_value.simps [simp del] parse_items.simps [simp del] parse_members.simps [simp del]

text \<open>\<open>json.Unmarshal\<close> up to the tree: one value and nothing after it, nested at most 10,000 deep.\<close>

fun json_depth :: "json \<Rightarrow> nat" where
  "json_depth (JArray js) = Suc (foldr max (map json_depth js) 0)"
| "json_depth (JObject ms) = Suc (foldr max (map (\<lambda>(k, j). json_depth j) ms) 0)"
| "json_depth _ = 0"

definition maxNestingDepth :: nat where
  "maxNestingDepth = 10000"

definition json_read :: "string \<Rightarrow> json option" where
  "json_read s =
     (case parse_value s of
        Some (j, r) \<Rightarrow> if skip_ws r = [] \<and> json_depth j \<le> maxNestingDepth then Some j else None
      | None \<Rightarrow> None)"

text \<open>No object of the tree has a key twice.\<close>

fun distinct_keys :: "json \<Rightarrow> bool" where
  "distinct_keys (JArray js) = list_all distinct_keys js"
| "distinct_keys (JObject ms) = (distinct (map fst ms) \<and> list_all (\<lambda>(k, j). distinct_keys j) ms)"
| "distinct_keys _ = True"

section \<open>Runes\<close>

lemma decode_rune_take:
  assumes "decode_rune s = (r, w)" and "\<not> (r = rune_error \<and> w = 1)" and "s \<noteq> []"
  shows "decode_rune (take w s @ t) = (r, w)"
proof -
  obtain c cs where s: "s = c # cs" using assms(3) by (cases s) auto
  show ?thesis using assms(1,2) unfolding s by (auto simp: Let_def split: if_splits list.splits)
qed

lemma cont_code: "in_range 128 191 c \<Longrightarrow> \<exists>y<64. code c = 128 + y"
  by (auto simp: in_range_def intro!: exI [of _ "code c - 128"])

lemma char_of_eq: "code c = n \<Longrightarrow> char_of n = c"
  by (metis char_of_code)

lemma second_cont: "second_ok b c \<Longrightarrow> in_range 128 191 c"
  by (auto simp: second_ok_def in_range_def split: if_splits)

text \<open>Digits to the base 64.\<close>

lemma digit64: "y < 64 \<Longrightarrow> (a * 64 + y) div 64 = a" "y < 64 \<Longrightarrow> (a * 64 + y) mod 64 = y" for a y :: nat
  by simp_all

lemma encode_2: "2 \<le> x \<Longrightarrow> x < 32 \<Longrightarrow> y < 64 \<Longrightarrow> encode_rune (x * 64 + y) = [char_of (192 + x), char_of (128 + y)]"
  by (simp add: encode_rune_def Let_def)

lemma encode_3:
  assumes "x < 16" "y < 64" "z < 64" "x = 0 \<longrightarrow> 32 \<le> y" "x = 13 \<longrightarrow> y < 32"
  shows "encode_rune (x * 4096 + y * 64 + z) = [char_of (224 + x), char_of (128 + y), char_of (128 + z)]"
proof -
  let ?r = "(x * 64 + y) * 64 + z"
  have "?r div 4096 = ?r div 64 div 64" by (simp add: div_mult2_eq [symmetric])
  then have d: "?r div 4096 = x" "?r div 64 mod 64 = y" "?r mod 64 = z"
    unfolding digit64 [OF assms(3)] digit64 [OF assms(2)] by simp_all
  have "2048 \<le> ?r" "?r < 65536" "\<not> (55296 \<le> ?r \<and> ?r \<le> 57343)" "\<not> 1114111 < ?r"
    using assms by (cases "x = 13"; simp; arith)+
  then have "encode_rune ?r = [char_of (224 + x), char_of (128 + y), char_of (128 + z)]"
    unfolding encode_rune_def using d by (simp only: Let_def if_False if_True not_less [symmetric]) simp
  then show ?thesis by (simp add: algebra_simps)
qed

lemma encode_4:
  assumes "x < 5" "y < 64" "z < 64" "v < 64" "x = 0 \<longrightarrow> 16 \<le> y" "x = 4 \<longrightarrow> y < 16"
  shows "encode_rune (x * 262144 + y * 4096 + z * 64 + v) = [char_of (240 + x), char_of (128 + y), char_of (128 + z), char_of (128 + v)]"
proof -
  let ?r = "((x * 64 + y) * 64 + z) * 64 + v"
  have "?r div 4096 = ?r div 64 div 64" "?r div 262144 = ?r div 64 div 64 div 64" by (simp_all add: div_mult2_eq [symmetric])
  then have d: "?r div 262144 = x" "?r div 4096 mod 64 = y" "?r div 64 mod 64 = z" "?r mod 64 = v"
    unfolding digit64 [OF assms(4)] digit64 [OF assms(3)] digit64 [OF assms(2)] by (simp_all only: digit64 [OF assms(2)])
  have "65536 \<le> ?r" "?r \<le> 1114111" using assms by (cases "x = 0"; cases "x = 4"; simp)+
  then have "encode_rune ?r = [char_of (240 + x), char_of (128 + y), char_of (128 + z), char_of (128 + v)]"
    unfolding encode_rune_def using d by simp
  then show ?thesis by (simp add: algebra_simps)
qed

lemma encode_decode:
  assumes "decode_rune s = (r, w)" and "\<not> (r = rune_error \<and> w = 1)" and "s \<noteq> []"
  shows "encode_rune r = take w s"
proof -
  obtain c cs where s: "s = c # cs" using assms(3) by (cases s) auto
  let ?b = "code c"
  consider "?b < 128" "r = ?b" "w = 1"
    | c1 t where "194 \<le> ?b" "?b \<le> 223" "cs = c1 # t" "second_ok ?b c1" "r = (?b - 192) * 64 + (code c1 - 128)" "w = 2"
    | c1 c2 t where "224 \<le> ?b" "?b \<le> 239" "cs = c1 # c2 # t" "second_ok ?b c1" "cont c2"
        "r = (?b - 224) * 4096 + (code c1 - 128) * 64 + (code c2 - 128)" "w = 3"
    | c1 c2 c3 t where "240 \<le> ?b" "?b \<le> 244" "cs = c1 # c2 # c3 # t" "second_ok ?b c1" "cont c2" "cont c3"
        "r = (?b - 240) * 262144 + (code c1 - 128) * 4096 + (code c2 - 128) * 64 + (code c3 - 128)" "w = 4"
    using assms(1,2) unfolding s by (auto simp: Let_def split: if_splits list.splits)
  then show ?thesis
  proof cases
    case 1
    then show ?thesis by (simp add: s encode_rune_def)
  next
    case 2
    obtain y where y: "y < 64" "code c1 = 128 + y" using cont_code [OF second_cont] 2(4) by blast
    have "char_of (192 + (?b - 192)) = c" "char_of (128 + y) = c1" using 2(1) y(2) by (simp_all add: char_of_eq)
    then show ?thesis using encode_2 [of "?b - 192" y] 2 y by (simp add: s)
  next
    case 3
    obtain y where y: "y < 64" "code c1 = 128 + y" using cont_code [OF second_cont] 3(4) by blast
    obtain z where z: "z < 64" "code c2 = 128 + z" using cont_code 3(5) by blast
    have chars: "char_of (224 + (?b - 224)) = c" "char_of (128 + y) = c1" "char_of (128 + z) = c2"
      using 3(1) y(2) z(2) by (simp_all add: char_of_eq)
    have "?b = 224 \<longrightarrow> 32 \<le> y" "?b = 237 \<longrightarrow> y < 32" using 3(4) y(2) by (auto simp: second_ok_def in_range_def)
    then have "encode_rune ((?b - 224) * 4096 + y * 64 + z) = [char_of (224 + (?b - 224)), char_of (128 + y), char_of (128 + z)]"
      using 3(1,2) y(1) z(1) by (intro encode_3) auto
    then show ?thesis unfolding chars using 3(3,6,7) y(2) z(2) by (simp add: s)
  next
    case 4
    obtain y where y: "y < 64" "code c1 = 128 + y" using cont_code [OF second_cont] 4(4) by blast
    obtain z where z: "z < 64" "code c2 = 128 + z" using cont_code 4(5) by blast
    obtain v where v: "v < 64" "code c3 = 128 + v" using cont_code 4(6) by blast
    have chars: "char_of (240 + (?b - 240)) = c" "char_of (128 + y) = c1" "char_of (128 + z) = c2" "char_of (128 + v) = c3"
      using 4(1) y(2) z(2) v(2) by (simp_all add: char_of_eq)
    have "?b = 240 \<longrightarrow> 16 \<le> y" "?b = 244 \<longrightarrow> y < 16" using 4(4) y(2) by (auto simp: second_ok_def in_range_def)
    then have "encode_rune ((?b - 240) * 262144 + y * 4096 + z * 64 + v) =
        [char_of (240 + (?b - 240)), char_of (128 + y), char_of (128 + z), char_of (128 + v)]"
      using 4(1,2) y(1) z(1) v(1) by (intro encode_4) auto
    then show ?thesis unfolding chars using 4(3,7,8) y(2) z(2) v(2) by (simp add: s)
  qed
qed

section \<open>Strings\<close>

text \<open>The bytes of a rune beyond ASCII are copied by the scanner.\<close>

lemma scan_raw: "list_all (\<lambda>c. 128 \<le> code c) s \<Longrightarrow> scan_string (s @ t) = map_option (\<lambda>(raw, r). (s @ raw, r)) (scan_string t)"
proof (induction s)
  case (Cons c s)
  then have "c \<noteq> CHR 0x22" "c \<noteq> CHR 0x5C" "\<not> code c < 32" by (auto simp: code_def)
  with Cons show ?case by (simp add: option.map_comp o_def case_prod_unfold)
qed (simp add: case_prod_unfold option.map_ident)


text \<open>The bytes after the first of a well-formed rune beyond ASCII.\<close>

lemma rune_bytes:
  assumes "decode_rune (c # cs) = (r, w)" and "\<not> (r = rune_error \<and> w = 1)" and "128 \<le> code c"
  shows "list_all (\<lambda>c. 128 \<le> code c) (take w (c # cs))" "1 < w" "w \<le> length (c # cs)"
  using assms by (auto simp: Let_def in_range_def dest!: second_cont split: if_splits list.splits)

definition escapes_to :: "string \<Rightarrow> string \<Rightarrow> bool" where
  "escapes_to e s \<longleftrightarrow> (\<forall>t. scan_string (e @ t) = map_option (\<lambda>(raw, r). (e @ raw, r)) (scan_string t)) \<and> (\<forall>t. unquote (e @ t) = s @ unquote t)"

lemma escapes_to_append: "escapes_to e s \<Longrightarrow> escapes_to e' s' \<Longrightarrow> escapes_to (e @ e') (s @ s')"
  by (auto simp: escapes_to_def option.map_comp o_def case_prod_unfold)

lemma escapes_to_Nil [simp]: "escapes_to [] []"
  by (simp add: escapes_to_def case_prod_unfold option.map_ident)

lemma escapes_simple: "simple_escape e \<Longrightarrow> escapes_to [CHR 0x5C, e] [escape_char e]"
  by (auto simp: escapes_to_def simple_escape_def)

lemma escapes_u:
  assumes "a < 16" "b < 16" "c < 16" "d < 16" and "\<not> high_surrogate (((a * 16 + b) * 16 + c) * 16 + d)"
  shows "escapes_to [CHR 0x5C, CHR ''u'', hex_char a, hex_char b, hex_char c, hex_char d] (encode_rune (((a * 16 + b) * 16 + c) * 16 + d))"
  using assms by (simp add: escapes_to_def simple_escape_def hex_digit_back getu4_def option.map_comp o_def case_prod_unfold eval_nat_numeral)

lemma escapes_plain: "32 \<le> code c \<Longrightarrow> code c < 128 \<Longrightarrow> c \<noteq> CHR 0x22 \<Longrightarrow> c \<noteq> CHR 0x5C \<Longrightarrow> escapes_to [c] [c]"
  by (simp add: escapes_to_def)

lemma escapes_byte: "code c < 128 \<Longrightarrow> escapes_to (json_byte c) [c]"
proof -
  assume c: "code c < 128"
  have char: "code c = n \<Longrightarrow> c = char_of n" for n by (metis char_of_code)
  show ?thesis
  proof (cases "json_byte c = [CHR 0x5C, CHR ''u'', hex_char 0, hex_char 0, hex_char (code c div 16), hex_char (code c mod 16)]")
    case True
    have "(0 * 16 + code c div 16) * 16 + code c mod 16 = code c" by simp
    moreover have "encode_rune (code c) = [c]" using c by (simp add: encode_rune_def)
    ultimately show ?thesis
      using escapes_u [of 0 0 "code c div 16" "code c mod 16"] c True by (simp add: high_surrogate_def)
  next
    case False
    have hex: "hex_char 0 = CHR ''0''" by code_simp
    consider "c = CHR 0x22" | "c = CHR 0x5C" | "code c = 8" | "code c = 12" | "code c = 10" | "code c = 13" | "code c = 9"
      | "c \<noteq> CHR 0x22" "c \<noteq> CHR 0x5C" "code c \<noteq> 8" "code c \<noteq> 12" "code c \<noteq> 10" "code c \<noteq> 13" "code c \<noteq> 9" by blast
    then have "json_byte c = [c] \<and> 32 \<le> code c \<and> c \<noteq> CHR 0x22 \<and> c \<noteq> CHR 0x5C \<or> (\<exists>e. json_byte c = [CHR 0x5C, e] \<and> simple_escape e \<and> escape_char e = c)"
    proof cases
      case 8
      then show ?thesis using False hex by (simp add: json_byte_def Let_def split: if_splits)
    qed (use char in \<open>simp_all add: json_byte_def Let_def simple_escape_def escape_char_def\<close>)
    then show ?thesis using escapes_simple escapes_plain c by metis
  qed
qed

lemma escapes_rune:
  assumes "decode_rune (c # cs) = (r, w)" and "\<not> (r = rune_error \<and> w = 1)" and "128 \<le> code c"
  shows "escapes_to (take w (c # cs)) (take w (c # cs))"
proof -
  let ?s = "take w (c # cs)"
  have w: "1 < w" "w \<le> length (c # cs)" and high: "list_all (\<lambda>c. 128 \<le> code c) ?s" using rune_bytes [OF assms] by blast+
  have "unquote (?s @ t) = ?s @ unquote t" for t
  proof -
    have s: "?s @ t = c # take (w - 1) cs @ t" using w(1) by (cases w) simp_all
    have d: "decode_rune (?s @ t) = (r, w)" by (rule decode_rune_take) (use assms in simp_all)
    have e: "encode_rune r = ?s" by (rule encode_decode) (use assms in simp_all)
    have "c \<noteq> CHR 0x5C" using assms(3) by (auto simp: code_def)
    moreover have "drop (w - 1) (take (w - 1) cs @ t) = t" using w by simp
    ultimately show ?thesis using d assms(3) unfolding s by (simp add: e)
  qed
  with scan_raw [OF high] show ?thesis by (simp add: escapes_to_def)
qed

lemma escapes_chars: "valid_utf8 s \<Longrightarrow> escapes_to (json_chars s) s"
proof (induction s rule: json_chars.induct)
  case (2 c cs)
  obtain r w where d: "decode_rune (c # cs) = (r, w)" by fastforce
  show ?case
  proof (cases "code c < 128")
    case True
    then have "escapes_to (json_chars cs) cs" using 2 d by simp
    with escapes_byte [OF True] show ?thesis using True escapes_to_append [of "json_byte c" "[c]"] by simp
  next
    case False
    with 2(3) d have ok: "\<not> (r = rune_error \<and> w = 1)" and rest: "valid_utf8 (drop (w - 1) cs)" by simp_all
    have w: "1 < w" "w \<le> length (c # cs)" using rune_bytes [OF d ok] False by simp_all
    have IH: "escapes_to (json_chars (drop (w - 1) cs)) (drop (w - 1) cs)" using 2(2) [OF False d [symmetric]] rest by blast
    have split: "take w (c # cs) @ drop (w - 1) cs = c # cs" using w by (cases w) simp_all
    let ?e = "if r = 8232 \<or> r = 8233 then [CHR 0x5C] @ ''u202'' @ [hex_char (r mod 16)] else take w (c # cs)"
    have "escapes_to ?e (take w (c # cs))"
    proof (cases "r = 8232 \<or> r = 8233")
      case True
      then have "escapes_to ([CHR 0x5C, CHR ''u'', hex_char 2, hex_char 0, hex_char 2, hex_char (r mod 16)]) (encode_rune r)"
        using escapes_u [of 2 0 2 "r mod 16"] by (auto simp: high_surrogate_def)
      moreover have "hex_char 2 = CHR ''2''" "hex_char 0 = CHR ''0''" by code_simp+
      ultimately show ?thesis using True encode_decode [OF d ok] by simp
    next
      case False
      then show ?thesis using escapes_rune [OF d ok] \<open>\<not> code c < 128\<close> by simp
    qed
    moreover have "json_chars (c # cs) = ?e @ json_chars (drop (w - 1) cs)" using False ok d by (auto simp del: decode_rune.simps)
    ultimately show ?thesis using escapes_to_append [OF _ IH] split by metis
  qed
qed simp

lemma read_string: "valid_utf8 s \<Longrightarrow> scan_string (json_chars s @ CHR 0x22 # t) = Some (json_chars s, t) \<and> unquote (json_chars s) = s"
proof -
  assume "valid_utf8 s"
  then have e: "escapes_to (json_chars s) s" by (rule escapes_chars)
  then have "unquote (json_chars s @ []) = s @ unquote []" unfolding escapes_to_def by blast
  with e show ?thesis by (simp add: escapes_to_def)
qed


section \<open>What is written is read back\<close>

text \<open>The numbers the program writes, and the trees it writes.\<close>

definition number_ok :: "string \<Rightarrow> bool" where
  "number_ok t \<longleftrightarrow> t \<noteq> [] \<and> list_all json_digit t \<and> (hd t = CHR ''0'' \<longrightarrow> tl t = [])"

fun json_ok :: "json \<Rightarrow> bool" where
  "json_ok (JNumber t) = number_ok t"
| "json_ok (JString s) = valid_utf8 s"
| "json_ok (JArray js) = list_all json_ok js"
| "json_ok (JObject ms) = list_all (\<lambda>(k, j). valid_utf8 k \<and> json_ok j) ms"
| "json_ok _ = True"

definition json_ends :: "string \<Rightarrow> bool" where
  "json_ends s \<longleftrightarrow> (case s of [] \<Rightarrow> True | c # _ \<Rightarrow> \<not> json_digit c \<and> c \<notin> set ''.eE'')"

lemma scan_number_text: "number_ok t \<Longrightarrow> json_ends s \<Longrightarrow> scan_number (t @ s) = Some (t, s)"
proof -
  assume t: "number_ok t" and s: "json_ends s"
  then obtain c cs where c: "t = c # cs" "json_digit c" "list_all json_digit cs" "c = CHR ''0'' \<longrightarrow> cs = []"
    by (cases t) (auto simp: number_ok_def)
  have "takeWhile json_digit (t @ s) = t"
    using t s by (auto simp: number_ok_def json_ends_def list_all_iff takeWhile_append2 split: list.splits)
  then have int: "scan_int (t @ s) = Some (t, s)"
    using c by (auto simp: scan_int_def take_digits_def Let_def)
  have rest: "scan_fraction s = Some ([], s)" "scan_exponent s = Some ([], s)"
    using s by (auto simp: scan_fraction_def scan_exponent_def json_ends_def split: list.splits)
  have "c \<noteq> CHR ''-''" using c(2) by (auto simp: json_digit_def in_range_def code_def)
  then show ?thesis using int rest c(1) by (simp add: scan_number_def)
qed

lemma number_ok_decimal: "number_ok (decimal n)"
proof -
  have "hd (decimal n) = CHR ''0'' \<longrightarrow> tl (decimal n) = []"
  proof (induction n rule: decimal.induct)
    case (1 n)
    show ?case
    proof (cases "n < 10")
      case False
      then have pos: "0 < n div 10" by simp
      have "hd (decimal (n div 10)) \<noteq> CHR ''0''"
      proof
        assume z: "hd (decimal (n div 10)) = CHR ''0''"
        with 1 False have "tl (decimal (n div 10)) = []" by simp
        with z have "decimal (n div 10) = ''0''" by (metis decimal_not_Nil list.exhaust_sel)
        then have "digits_value (decimal (n div 10)) = digits_value ''0''" by simp
        then have "n div 10 = 0" unfolding digits_value_decimal by (simp add: digits_value_def code_def)
        with pos show False by simp
      qed
      then show ?thesis using False by (simp add: decimal.simps [of n] decimal_not_Nil)
    qed (simp add: decimal.simps)
  qed
  then show ?thesis using decimal_digits [of n] decimal_not_Nil [of n] by (simp add: number_ok_def json_digit_def [abs_def])
qed

lemma json_text_first:
  assumes "json_ok j"
  obtains c cs where "json_text j = c # cs" "\<not> json_space c" "c \<noteq> CHR '']''" "c \<noteq> CHR ''}''"
proof (cases j)
  case (JNumber t)
  with assms obtain c cs where t: "t = c # cs" "json_digit c" by (cases t) (auto simp: number_ok_def)
  from t(2) have "\<not> json_space c" "c \<noteq> CHR '']''" "c \<noteq> CHR ''}''" by (auto simp: json_digit_def in_range_def json_space_def code_def)
  then show thesis using JNumber t(1) that by simp
next
  case (JBool b)
  then show thesis using that by (cases b) (auto simp: json_space_def code_def)
qed (use that in \<open>auto simp: json_string_def json_space_def code_def\<close>)

lemma json_text_nonempty: "json_ok j \<Longrightarrow> json_text j \<noteq> []"
  by (auto elim: json_text_first)

lemma skip_ws_first: "\<not> json_space c \<Longrightarrow> skip_ws (c # cs) = c # cs"
  by (simp add: skip_ws_def)

lemma punctuation_first [simp]:
  "skip_ws (CHR '','' # s) = CHR '','' # s" "skip_ws (CHR '']'' # s) = CHR '']'' # s" "skip_ws (CHR ''}'' # s) = CHR ''}'' # s"
  "skip_ws (CHR '':'' # s) = CHR '':'' # s" "skip_ws (CHR ''['' # s) = CHR ''['' # s" "skip_ws (CHR ''{'' # s) = CHR ''{'' # s"
  "skip_ws (CHR 0x22 # s) = CHR 0x22 # s"
  by (rule skip_ws_first; simp add: json_space_def code_def)+

lemma punctuation_ends [simp]:
  "json_ends (CHR '','' # s)" "json_ends (CHR '']'' # s)" "json_ends (CHR ''}'' # s)" "json_ends []"
  by (simp_all add: json_ends_def json_digit_def in_range_def code_def)

lemma parse_items_text:
  assumes "\<And>j s. j \<in> set js \<Longrightarrow> json_ends s \<Longrightarrow> parse_value (json_text j @ s) = Some (j, s)"
    and "\<And>j. j \<in> set js \<Longrightarrow> json_text j \<noteq> []" and "js \<noteq> []"
  shows "parse_items (commas (map json_text js) @ CHR '']'' # s) = Some (js, s)"
  using assms
proof (induction js rule: induct_list012)
  case (2 j)
  then show ?case by (simp add: parse_items.simps)
next
  case (3 j j' js)
  then have "parse_items (commas (map json_text (j' # js)) @ CHR '']'' # s) = Some (j' # js, s)" by (intro 3(2)) simp_all
  then show ?case using 3(3,4) by (simp add: parse_items.simps [of "json_text j @ _"] del: commas.simps(2))
qed simp

lemma parse_member:
  assumes "\<And>t. json_ends t \<Longrightarrow> parse_value (json_text j @ t) = Some (j, t)" and "valid_utf8 k" and "json_text j \<noteq> []"
  shows "parse_members (json_string k @ CHR '':'' # json_text j @ CHR ''}'' # s) = Some ([(k, j)], s)"
    "parse_members (json_string k @ CHR '':'' # json_text j @ CHR '','' # s) = map_option (\<lambda>(ms, r). ((k, j) # ms, r)) (parse_members s)"
  using assms read_string [OF assms(2)]
  by (subst parse_members.simps; simp add: json_string_def after_prefix_def has_prefix_def)+


definition member_text :: "string \<times> json \<Rightarrow> string" where
  "member_text m = json_string (fst m) @ '':'' @ json_text (snd m)"

lemma parse_members_text:
  assumes "\<And>m s. m \<in> set ms \<Longrightarrow> json_ends s \<Longrightarrow> parse_value (json_text (snd m) @ s) = Some (snd m, s)"
    and "\<And>m. m \<in> set ms \<Longrightarrow> valid_utf8 (fst m)" "\<And>m. m \<in> set ms \<Longrightarrow> json_text (snd m) \<noteq> []" and "ms \<noteq> []"
  shows "parse_members (commas (map member_text ms) @ CHR ''}'' # s) = Some (ms, s)"
  using assms
proof (induction ms rule: induct_list012)
  case (2 m)
  then show ?case using parse_member(1) [of "snd m" "fst m" s] by (simp add: member_text_def)
next
  case (3 m m' ms)
  have "parse_members (commas (map member_text (m' # ms)) @ CHR ''}'' # s) = Some (m' # ms, s)" using 3(3-) by (intro 3(2)) simp_all
  then show ?case using parse_member(2) [of "snd m" "fst m"] 3(3-) by (simp add: member_text_def [of m])
qed simp

lemma parse_text: "json_ok j \<Longrightarrow> json_ends s \<Longrightarrow> parse_value (json_text j @ s) = Some (j, s)"
proof (induction j arbitrary: s rule: json_text.induct)
  case 1
  then show ?case by (simp add: parse_value.simps skip_ws_first json_space_def code_def after_prefix_def has_prefix_def)
next
  case (2 b)
  then show ?case by (cases b) (simp_all add: parse_value.simps skip_ws_first json_space_def code_def after_prefix_def has_prefix_def)
next
  case (3 t)
  then have ok: "json_ok (JNumber t)" by simp
  then obtain c cs where c: "t = c # cs" "json_digit c" by (cases t) (auto simp: number_ok_def)
  then have "\<not> json_space c" "c \<notin> set [CHR ''['', CHR ''{'', CHR 0x22, CHR ''t'', CHR ''f'', CHR ''n'']"
    by (auto simp: json_digit_def in_range_def json_space_def code_def)
  then show ?case using scan_number_text [of t s] 3 c(1) by (simp add: parse_value.simps skip_ws_first)
next
  case (4 str)
  then show ?case using read_string [of str s] by (simp add: parse_value.simps json_string_def)
next
  case (5 js)
  show ?case
  proof (cases "js = []")
    case False
    have "parse_items (commas (map json_text js) @ CHR '']'' # s) = Some (js, s)"
      by (rule parse_items_text) (use 5 False json_text_nonempty in \<open>auto simp: list_all_iff\<close>)
    moreover obtain j js' where "js = j # js'" using False by (cases js) auto
    moreover from this 5(2) obtain c cs where "json_text j = c # cs" "\<not> json_space c" "c \<noteq> CHR '']''" by (auto elim: json_text_first)
    ultimately show ?thesis
      by (cases js') (simp_all add: parse_value.simps skip_ws_first after_prefix_def has_prefix_def)
  qed (simp add: parse_value.simps after_prefix_def has_prefix_def)
next
  case (6 ms)
  have items: "map (\<lambda>(k, j). json_string k @ '':'' @ json_text j) ms = map member_text ms" by (simp add: member_text_def case_prod_unfold)
  show ?case
  proof (cases "ms = []")
    case False
    have "parse_members (commas (map member_text ms) @ CHR ''}'' # s) = Some (ms, s)"
      by (rule parse_members_text) (use 6 False json_text_nonempty in \<open>auto simp: list_all_iff\<close>)
    moreover obtain m ms' where "ms = m # ms'" using False by (cases ms) auto
    ultimately show ?thesis unfolding json_text.simps items
      by (cases ms') (simp_all add: parse_value.simps after_prefix_def has_prefix_def member_text_def json_string_def)
  qed (simp add: parse_value.simps after_prefix_def has_prefix_def)
qed

text \<open>\<open>json.NewEncoder(w).Encode\<close> ends the text with a newline.\<close>

definition json_line :: "json \<Rightarrow> string" where
  "json_line j = json_text j @ [CHR 0x0A]"

lemma skip_newline: "skip_ws [CHR 0x0A] = []"
  by (simp add: skip_ws_def json_space_def code_def)

theorem json_read_text: "json_ok j \<Longrightarrow> json_depth j \<le> maxNestingDepth \<Longrightarrow> json_read (json_text j) = Some j"
  using parse_text [of j "[]"] by (simp add: json_read_def skip_ws_def)

theorem json_read_line: "json_ok j \<Longrightarrow> json_depth j \<le> maxNestingDepth \<Longrightarrow> json_read (json_line j) = Some j"
  using parse_text [of j "[CHR 0x0A]"] skip_newline
  by (simp add: json_read_def json_line_def json_ends_def json_digit_def in_range_def code_def)

section \<open>Decoding into Go values\<close>

text \<open>
  \<open>Decoder.Decode\<close> into a Go value, field by field: a reader takes a tree and the value found so far and
  returns the value afterwards, or fails. \<open>null\<close> clears a pointer or a slice and leaves anything else
  as it is; a key names the field it equals, or else the one it equals up to the case of letters; unknown
  keys fail. The names of the fields are ASCII.
\<close>

type_synonym 'a reader = "json \<Rightarrow> 'a \<Rightarrow> 'a option"

section \<open>Scalars\<close>

text \<open>\<open>strconv.ParseUint(s, 10, 64)\<close> on the literal of a number.\<close>

definition ParseUint64 :: "string \<Rightarrow> nat option" where
  "ParseUint64 s =
     (if s = [] \<or> \<not> list_all json_digit s \<or> digits_value s \<ge> 2 ^ 64 then None else Some (digits_value s))"

text \<open>\<open>strconv.ParseInt(s, 10, 64)\<close> on the literal of a number, which has no plus sign.\<close>

definition ParseInt64 :: "string \<Rightarrow> int option" where
  "ParseInt64 s =
     (case s of
        c # cs \<Rightarrow>
          if c = CHR ''-'' then
            (if cs = [] \<or> \<not> list_all json_digit cs \<or> digits_value cs > 2 ^ 63 then None else Some (- int (digits_value cs)))
          else if \<not> list_all json_digit s \<or> digits_value s \<ge> 2 ^ 63 then None else Some (int (digits_value s))
      | [] \<Rightarrow> None)"

fun read_string :: "string reader" where
  "read_string (JString s) v = Some s"
| "read_string JNull v = Some v"
| "read_string _ v = None"

fun read_bool :: "bool reader" where
  "read_bool (JBool b) v = Some b"
| "read_bool JNull v = Some v"
| "read_bool _ v = None"

fun read_uint :: "nat reader" where
  "read_uint (JNumber t) v = ParseUint64 t"
| "read_uint JNull v = Some v"
| "read_uint _ v = None"

fun read_int :: "int reader" where
  "read_int (JNumber t) v = ParseInt64 t"
| "read_int JNull v = Some v"
| "read_int _ v = None"

text \<open>A pointer: the value it points to is kept and decoded into; a new one starts from zero.\<close>

definition read_pointer :: "'a reader \<Rightarrow> 'a \<Rightarrow> 'a option reader" where
  "read_pointer r zero j v =
     (if j = JNull then Some None else map_option Some (r j (case v of None \<Rightarrow> zero | Some a \<Rightarrow> a)))"

text \<open>\<open>json.RawMessage\<close>: absent, or the value as it is, \<open>null\<close> included.\<close>

definition read_raw :: "json option reader" where
  "read_raw j v = Some (Some j)"

text \<open>A slice, \<open>nil\<close> being \<open>None\<close>: the elements already there are decoded into.\<close>

fun read_elements :: "'a reader \<Rightarrow> 'a \<Rightarrow> json list \<Rightarrow> 'a list \<Rightarrow> 'a list option" where
  "read_elements r zero [] vs = Some []"
| "read_elements r zero (j # js) vs =
     (case r j (case vs of [] \<Rightarrow> zero | v # _ \<Rightarrow> v) of
        None \<Rightarrow> None
      | Some a \<Rightarrow> map_option ((#) a) (read_elements r zero js (tl vs)))"

definition read_slice :: "'a reader \<Rightarrow> 'a \<Rightarrow> 'a list option reader" where
  "read_slice r zero j v =
     (case j of
        JNull \<Rightarrow> Some None
      | JArray js \<Rightarrow> map_option Some (read_elements r zero js (case v of None \<Rightarrow> [] | Some vs \<Rightarrow> vs))
      | _ \<Rightarrow> None)"

section \<open>Structs\<close>

text \<open>
  \<open>foldName\<close> as far as it matters for ASCII names: letters of either case, and the two runes beyond ASCII that
  fold to an ASCII letter, the long s and the Kelvin sign.
\<close>

definition fold_rune :: "nat \<Rightarrow> nat" where
  "fold_rune r =
     (if 97 \<le> r \<and> r \<le> 122 then r - 32 else if r = 383 then 83 else if r = 8490 then 75 else r)"

definition fold_key :: "string \<Rightarrow> nat list" where
  "fold_key k = map fold_rune (runes k)"

definition field_named :: "(string \<times> 'f) list \<Rightarrow> string \<Rightarrow> 'f option" where
  "field_named fs k =
     (case map_of fs k of
        Some f \<Rightarrow> Some f
      | None \<Rightarrow> map_option snd (find (\<lambda>(n, _). fold_key n = fold_key k) fs))"

fun read_members :: "(string \<times> 's reader) list \<Rightarrow> (string \<times> json) list \<Rightarrow> 's \<Rightarrow> 's option" where
  "read_members fs [] s = Some s"
| "read_members fs ((k, j) # ms) s =
     (case field_named fs k of
        None \<Rightarrow> None
      | Some r \<Rightarrow> (case r j s of None \<Rightarrow> None | Some s' \<Rightarrow> read_members fs ms s'))"

definition read_struct :: "(string \<times> 's reader) list \<Rightarrow> 's reader" where
  "read_struct fs j s =
     (case j of JNull \<Rightarrow> Some s | JObject ms \<Rightarrow> read_members fs ms s | _ \<Rightarrow> None)"

text \<open>A reader of one field of a record.\<close>

definition into :: "'a reader \<Rightarrow> ('s \<Rightarrow> 'a) \<Rightarrow> ('a \<Rightarrow> 's \<Rightarrow> 's) \<Rightarrow> 's reader" where
  "into r get put j s = map_option (\<lambda>a. put a s) (r j (get s))"

section \<open>Strict decoding\<close>

text \<open>
  Both programs read a body in the same steps: a limit on its bytes, one value without a key twice in an
  object, the required keys, the keys that must not be \<open>null\<close>, and then the struct. \<open>rejectDuplicates\<close> and \<open>scan\<close> of the client
  and their counterparts in the server accept the texts with one value and distinct keys. \<open>required\<close> is
  checked when there is any.
\<close>

definition rejectDuplicates :: "string \<Rightarrow> json option" where
  "rejectDuplicates text = (case json_read text of Some j \<Rightarrow> if distinct_keys j then Some j else None | None \<Rightarrow> None)"

fun object_fields :: "json \<Rightarrow> (string \<times> json) list option" where
  "object_fields (JObject ms) = Some ms"
| "object_fields _ = None"

definition required_fields :: "string list \<Rightarrow> string list \<Rightarrow> json \<Rightarrow> bool" where
  "required_fields required nonNull j \<longleftrightarrow>
     required = [] \<or>
     (case object_fields j of
        None \<Rightarrow> False
      | Some ms \<Rightarrow> list_all (\<lambda>k. map_of ms k \<noteq> None) required \<and> list_all (\<lambda>k. map_of ms k \<noteq> Some JNull) nonNull)"

definition decode_strict :: "nat \<Rightarrow> string list \<Rightarrow> string list \<Rightarrow> 'a reader \<Rightarrow> 'a \<Rightarrow> string \<Rightarrow> 'a option" where
  "decode_strict limit required nonNull r zero body =
     (if length body > limit then None
      else case rejectDuplicates body of
        None \<Rightarrow> None
      | Some j \<Rightarrow> if required_fields required nonNull j then r j zero else None)"

section \<open>Reading what was written\<close>

lemma ParseUint64_decimal: "n < 2 ^ 64 \<Longrightarrow> ParseUint64 (decimal n) = Some n"
  using decimal_digits [of n] by (simp add: ParseUint64_def decimal_not_Nil digits_value_decimal json_digit_def [abs_def])

lemma ParseInt64_decimal: "n < 2 ^ 63 \<Longrightarrow> ParseInt64 (decimal n) = Some (int n)"
proof -
  assume n: "n < 2 ^ 63"
  obtain c cs where d: "decimal n = c # cs" using decimal_not_Nil [of n] by (cases "decimal n") auto
  have "list_all json_digit (decimal n)" using decimal_digits [of n] by (simp add: json_digit_def [abs_def])
  moreover from this have "c \<noteq> CHR ''-''" by (auto simp: d json_digit_def in_range_def code_def)
  ultimately show ?thesis using n digits_value_decimal [of n] by (simp add: ParseInt64_def d)
qed

lemma decode_strict_text:
  assumes "json_ok j" "json_depth j \<le> maxNestingDepth" "distinct_keys j" and "length (json_line j) \<le> limit"
  shows "decode_strict limit required nonNull r zero (json_line j) = (if required_fields required nonNull j then r j zero else None)"
  using assms json_read_line [OF assms(1,2)] by (simp add: decode_strict_def rejectDuplicates_def)

lemma decode_strict_body:
  assumes "json_ok j" "json_depth j \<le> maxNestingDepth" "distinct_keys j" and "length (json_text j) \<le> limit"
  shows "decode_strict limit required nonNull r zero (json_text j) = (if required_fields required nonNull j then r j zero else None)"
  using assms json_read_text [OF assms(1,2)] by (simp add: decode_strict_def rejectDuplicates_def)

end
