(* ===== verification/Http.thy ===== *)
theory Http
  imports Json Sync_Types
begin

text \<open>
  HTTP messages as both programs see them, and the code outside the repository that the texts on the wire
  rest on: the parser of identifiers, the parser of media types and the format of times.
\<close>

section \<open>Messages\<close>

text \<open>Header fields have canonical names. The length of a request is the one it announces.\<close>

record http_request =
  rq_method :: string
  rq_path :: string
  rq_query :: string
  rq_headers :: "(string \<times> string list) list"
  rq_body :: string
  rq_length :: int

record http_response =
  rs_status :: nat
  rs_headers :: "(string \<times> string list) list"
  rs_body :: string

definition header_values :: "(string \<times> string list) list \<Rightarrow> string \<Rightarrow> string list" where
  "header_values hs name = (case map_of hs name of None \<Rightarrow> [] | Some vs \<Rightarrow> vs)"

section \<open>Texts on the wire\<close>

record wire =
  w_uuid_parse :: "string \<Rightarrow> uuid option"
  w_media :: "string \<Rightarrow> (string \<times> (string \<times> string) list) option"
  w_time :: "int \<Rightarrow> string"

text \<open>
  \<open>uuid.Parse\<close> reads what \<open>UUID.String\<close> prints, which has no slash, and \<open>mime.ParseMediaType\<close> the two media types of the programs.
  Times, in milliseconds, are printed as valid UTF-8.
\<close>

definition json_media :: string where
  "json_media = ''application/json; charset=utf-8''"

definition wire_law :: "ext \<Rightarrow> wire \<Rightarrow> bool" where
  "wire_law x w \<longleftrightarrow>
     (\<forall>u. w_uuid_parse w (x_uuid_string x u) = Some u \<and> CHR ''/'' \<notin> set (x_uuid_string x u)) \<and>
     w_media w ''application/json'' = Some (''application/json'', []) \<and>
     w_media w json_media = Some (''application/json'', [(''charset'', ''utf-8'')]) \<and>
     (\<forall>t. valid_utf8 (w_time w t))"

text \<open>The identifiers of the wire: canonical text of a non-nil RFC 4122 identifier, of version 7 where asked for.\<close>

definition parse_canonical :: "ext \<Rightarrow> wire \<Rightarrow> bool \<Rightarrow> string \<Rightarrow> uuid option" where
  "parse_canonical x w v7 raw =
     (case w_uuid_parse w raw of
        None \<Rightarrow> None
      | Some u \<Rightarrow>
          if u \<noteq> uuid_nil \<and> x_uuid_string x u = raw \<and> x_uuid_rfc4122 x u \<and> (v7 \<longrightarrow> x_uuid_version x u = 7)
          then Some u else None)"

lemma parse_canonical_string:
  "wire_law x w \<Longrightarrow> u \<noteq> uuid_nil \<Longrightarrow> x_uuid_rfc4122 x u \<Longrightarrow> (v7 \<longrightarrow> x_uuid_version x u = 7) \<Longrightarrow>
     parse_canonical x w v7 (x_uuid_string x u) = Some u"
  by (simp add: parse_canonical_def wire_law_def)

lemma parse_canonicalD:
  "parse_canonical x w v7 raw = Some u \<Longrightarrow>
     x_uuid_string x u = raw \<and> u \<noteq> uuid_nil \<and> x_uuid_rfc4122 x u \<and> (v7 \<longrightarrow> x_uuid_version x u = 7)"
  by (auto simp: parse_canonical_def split: option.splits if_splits)

text \<open>An absent value stays absent, a present one must parse.\<close>

definition optional_with :: "('a \<Rightarrow> 'b option) \<Rightarrow> 'a option \<Rightarrow> 'b option option" where
  "optional_with f v = (case v of None \<Rightarrow> Some None | Some a \<Rightarrow> map_option Some (f a))"

lemma optional_with_map [simp]: "optional_with f (map_option g v) = (case v of None \<Rightarrow> Some None | Some a \<Rightarrow> map_option Some (f (g a)))"
  by (simp add: optional_with_def split: option.split)

section \<open>Enumerations\<close>

text \<open>The conversions of a string to Go's string-typed enumerations.\<close>

definition kind_of_text :: "string \<Rightarrow> mutation_kind" where
  "kind_of_text s =
     (if s = ''create'' then MutationCreate else if s = ''update'' then MutationUpdate
      else if s = ''move'' then MutationMove else if s = ''delete'' then MutationDelete else OtherKind s)"

definition type_of_text :: "string \<Rightarrow> object_type" where
  "type_of_text s = (if s = ''note'' then ObjectNote else if s = ''folder'' then ObjectFolder else OtherType s)"

lemma kind_text_of [simp]: "kind_text (kind_of_text s) = s"
  by (simp add: kind_of_text_def)

lemma type_text_of [simp]: "type_text (type_of_text s) = s"
  by (simp add: type_of_text_def)

lemma kind_of_text [simp]: "(\<And>s. k \<noteq> OtherKind s) \<Longrightarrow> kind_of_text (kind_text k) = k"
  by (cases k) (simp_all add: kind_of_text_def)

lemma type_of_text [simp]: "(\<And>s. t \<noteq> OtherType s) \<Longrightarrow> type_of_text (type_text t) = t"
  by (cases t) (simp_all add: type_of_text_def)

section \<open>Trees of scalars\<close>

definition json_nat :: "nat \<Rightarrow> json" where
  "json_nat n = JNumber (decimal n)"

definition json_option :: "('a \<Rightarrow> json) \<Rightarrow> 'a option \<Rightarrow> json" where
  "json_option f v = (case v of None \<Rightarrow> JNull | Some a \<Rightarrow> f a)"

definition json_uuid :: "ext \<Rightarrow> uuid \<Rightarrow> json" where
  "json_uuid x u = JString (x_uuid_string x u)"

definition json_hash :: "string \<Rightarrow> json" where
  "json_hash h = JString (hex_encode h)"

text \<open>A byte slice that is written only when it is not empty.\<close>

definition json_blob :: "string \<Rightarrow> json" where
  "json_blob h = (if h = [] then JNull else json_hash h)"

named_theorems wire_simps "trees of scalars as the encoder and the readers treat them"

lemma json_nat_ok [wire_simps]: "json_ok (json_nat n)" "json_depth (json_nat n) = 0" "distinct_keys (json_nat n)"
  by (simp_all add: json_nat_def number_ok_decimal)

lemma json_option_ok [wire_simps]: "(\<And>a. v = Some a \<Longrightarrow> json_ok (f a)) \<Longrightarrow> json_ok (json_option f v)"
  "(\<And>a. v = Some a \<Longrightarrow> json_depth (f a) = 0) \<Longrightarrow> json_depth (json_option f v) = 0"
  "(\<And>a. v = Some a \<Longrightarrow> distinct_keys (f a)) \<Longrightarrow> distinct_keys (json_option f v)"
  by (simp_all add: json_option_def split: option.split)

lemma json_uuid_ok [wire_simps]: "uuid_string_law x \<Longrightarrow> json_ok (json_uuid x u)" "json_depth (json_uuid x u) = 0" "distinct_keys (json_uuid x u)"
  by (simp_all add: json_uuid_def uuid_string_law_def valid_utf8_ascii)

lemma json_hash_ok [wire_simps]: "json_ok (json_hash h)" "json_depth (json_hash h) = 0" "distinct_keys (json_hash h)"
  by (simp_all add: json_hash_def valid_utf8_ascii hex_lower_ascii hex_encode_lower)

lemma json_blob_ok [wire_simps]: "json_ok (json_blob h)" "json_depth (json_blob h) = 0" "distinct_keys (json_blob h)"
  by (simp_all add: json_blob_def json_hash_ok)

lemma read_nat [wire_simps]: "n < 2 ^ 64 \<Longrightarrow> read_uint (json_nat n) v = Some n"
  by (simp add: json_nat_def ParseUint64_decimal)

lemma read_text [wire_simps]: "read_string (json_uuid x u) v = Some (x_uuid_string x u)" "read_string (json_hash h) v = Some (hex_encode h)"
  by (simp_all add: json_uuid_def json_hash_def)

lemma read_pointer_option [wire_simps]:
  "read_pointer r zero (json_option f v) None = (case v of None \<Rightarrow> Some None | Some a \<Rightarrow> if f a = JNull then Some None else map_option Some (r (f a) zero))"
  by (simp add: read_pointer_def json_option_def split: option.split)

lemma json_not_null [wire_simps]: "json_uuid x u \<noteq> JNull" "json_hash h \<noteq> JNull" "json_nat n \<noteq> JNull"
  by (simp_all add: json_uuid_def json_hash_def json_nat_def)

end
