(* ===== verification/Blob_Store.thy ===== *)
theory Blob_Store
  imports Database Sync_Types Json "HOL-Library.AList"
begin

text \<open>
  The server's store of note contents, \<open>server/internal/blob\<close>: a tree of directories with one file per
  digest, a staging directory, and the tables of blobs and of the users entitled to them. An upload is
  staged, checked against its digest and the quota, published by a hard link and registered, in this order.
  Failing reads and writes of the operating system are not modelled, apart from what the uploader sends; a
  process that dies before the transaction commits is a failing transaction with the published file left.
\<close>

section \<open>Directories and files\<close>

text \<open>A directory and a regular file carry whether their permissions are 0700 and 0600.\<close>

datatype entry = Directory bool "(string \<times> entry) list" | Regular bool string | Symlink | Special

datatype blob_error =
    BlobUnavailable | BlobTooLarge | BlobHashMismatch | BlobQuotaExceeded | BlobIntegrity | BlobUnsafeStorage | BlobClosed
  | BlobBodyLength | BlobStream | BlobNotExist | BlobStorage | BlobInvalidUser | BlobNoStage

fun open_path :: "entry \<Rightarrow> string list \<Rightarrow> blob_error + entry" where
  "open_path e [] = Inr e"
| "open_path (Directory _ es) (n # ns) = (case map_of es n of None \<Rightarrow> Inl BlobNotExist | Some e \<Rightarrow> open_path e ns)"
| "open_path _ (n # ns) = Inl BlobStorage"

text \<open>\<open>ensureDirAt\<close> along a path: missing directories are made, present ones get their permissions. The second
  component is the tree as far as it got.\<close>

fun ensure_dirs :: "string list \<Rightarrow> entry \<Rightarrow> bool \<times> entry" where
  "ensure_dirs [] e = (True, e)"
| "ensure_dirs (n # ns) (Directory m es) =
     (case map_of es n of
        None \<Rightarrow> (case ensure_dirs ns (Directory True []) of (ok, e) \<Rightarrow> (ok, Directory m (es @ [(n, e)])))
      | Some (Directory _ sub) \<Rightarrow> (case ensure_dirs ns (Directory True sub) of (ok, e) \<Rightarrow> (ok, Directory m (AList.update n e es)))
      | Some _ \<Rightarrow> (False, Directory m es))"
| "ensure_dirs (n # ns) e = (False, e)"

text \<open>The new name of a hard link, in directories that exist.\<close>

fun add_at :: "string list \<Rightarrow> entry \<Rightarrow> entry \<Rightarrow> entry" where
  "add_at [n] f (Directory m es) = Directory m (es @ [(n, f)])"
| "add_at (n # ns) f (Directory m es) =
     (case map_of es n of None \<Rightarrow> Directory m es | Some e \<Rightarrow> Directory m (AList.update n (add_at ns f e) es))"
| "add_at _ f e = e"

definition blob_dirs :: "string \<Rightarrow> string list" where
  "blob_dirs hash = (let encoded = hex_encode hash in [''sha256'', take 2 encoded, take 2 (drop 2 encoded)])"

definition blob_path :: "string \<Rightarrow> string list" where
  "blob_path hash = blob_dirs hash @ [hex_encode hash]"

definition MaxBlobBytes :: nat where
  "MaxBlobBytes = 8388608"

definition MaxUserQuotaBytes :: nat where
  "MaxUserQuotaBytes = 1099511627776"

definition valid_quota :: "nat \<Rightarrow> bool" where
  "valid_quota q \<longleftrightarrow> q \<noteq> 0 \<and> q \<le> MaxUserQuotaBytes"

definition readBlob :: "entry \<Rightarrow> string \<Rightarrow> blob_error + string" where
  "readBlob root hash =
     rbind (open_path root (blob_path hash)) (\<lambda>e.
       case e of
         Regular mode content \<Rightarrow> if mode \<and> length content \<le> MaxBlobBytes then Inr content else Inl BlobIntegrity
       | _ \<Rightarrow> Inl BlobIntegrity)"

section \<open>The repository\<close>

record blob_store =
  bs_root :: entry
  bs_staging :: "(string \<times> entry) list"
  bs_closed :: bool

text \<open>The roots are directories, prepared and compared by the operating system.\<close>

definition openWithQuota :: "nat \<Rightarrow> (string \<times> entry) list \<Rightarrow> (string \<times> entry) list \<Rightarrow> blob_error + blob_store" where
  "openWithQuota quota files staging =
     (if \<not> valid_quota quota then Inl BlobUnsafeStorage
      else case ensure_dirs [''sha256''] (Directory True files) of
        (False, _) \<Rightarrow> Inl BlobStorage
      | (True, root) \<Rightarrow> Inr \<lparr>bs_root = root, bs_staging = staging, bs_closed = False\<rparr>)"

definition blob_close :: "blob_store \<Rightarrow> blob_store" where
  "blob_close s = s\<lparr>bs_closed := True\<rparr>"

definition blob_for_user :: "ext \<Rightarrow> uuid \<Rightarrow> blob_store \<Rightarrow> blob_error + uuid" where
  "blob_for_user x u s = (if bs_closed s then Inl BlobClosed else if \<not> validV7 x u then Inl BlobInvalidUser else Inr u)"

text \<open>
  What the uploader sends: bytes, and how the stream ends. At most one byte beyond the limit is read.
\<close>

definition read_source :: "string \<times> blob_error option \<Rightarrow> blob_error + string" where
  "read_source source =
     (case source of (bytes, failure) \<Rightarrow>
        if MaxBlobBytes < length bytes then Inr (take (Suc MaxBlobBytes) bytes)
        else case failure of Some e \<Rightarrow> Inl e | None \<Rightarrow> Inr bytes)"

text \<open>\<open>createStage\<close> takes the first of 32 random names that is not taken.\<close>

definition stage_name :: "string \<Rightarrow> string" where
  "stage_name token = ''.upload-'' @ hex_encode token"

definition createStage :: "string list \<Rightarrow> blob_store \<Rightarrow> blob_error + string" where
  "createStage tokens s =
     (case find (\<lambda>n. map_of (bs_staging s) n = None) (map stage_name (take 32 tokens)) of
        None \<Rightarrow> Inl BlobNoStage | Some n \<Rightarrow> Inr n)"

definition write_stage :: "string \<Rightarrow> string \<Rightarrow> blob_store \<Rightarrow> blob_store" where
  "write_stage n content s = s\<lparr>bs_staging := bs_staging s @ [(n, Regular True content)]\<rparr>"

definition remove_stage :: "string \<Rightarrow> blob_store \<Rightarrow> blob_store" where
  "remove_stage n s = s\<lparr>bs_staging := filter (\<lambda>(k, _). k \<noteq> n) (bs_staging s)\<rparr>"

text \<open>\<open>publish\<close>: a file that is already there must be the one expected. The staged file goes when it is not needed any more.\<close>

definition publish :: "ext \<Rightarrow> string \<Rightarrow> string \<Rightarrow> string \<Rightarrow> blob_store \<Rightarrow> blob_error option \<times> blob_store" where
  "publish x n content hash s =
     (case ensure_dirs (blob_dirs hash) (bs_root s) of
        (False, root) \<Rightarrow> (Some BlobStorage, s\<lparr>bs_root := root\<rparr>)
      | (True, root) \<Rightarrow>
          if open_path root (blob_path hash) = Inl BlobNotExist
          then (None, remove_stage n (s\<lparr>bs_root := add_at (blob_path hash) (Regular True content) root\<rparr>))
          else (case readBlob root hash of
              Inl _ \<Rightarrow> (Some BlobIntegrity, s\<lparr>bs_root := root\<rparr>)
            | Inr present \<Rightarrow>
                if length present = length content \<and> x_sha256 x present = hash
                then (None, remove_stage n (s\<lparr>bs_root := root\<rparr>))
                else (Some BlobIntegrity, s\<lparr>bs_root := root\<rparr>)))"

definition blob_usage :: "db \<Rightarrow> uuid \<Rightarrow> nat" where
  "blob_usage d u =
     sum_list (map (\<lambda>(v, h). case blob_at d h of Some r \<Rightarrow> if v = u then blb_size r else 0 | None \<Rightarrow> 0) (entitlements d))"

definition quota_exceeded :: "nat \<Rightarrow> uuid \<Rightarrow> string \<Rightarrow> nat \<Rightarrow> db \<Rightarrow> bool" where
  "quota_exceeded quota u hash written d \<longleftrightarrow>
     \<not> entitled d u hash \<and> (written > quota \<or> blob_usage d u > quota - written)"

definition register_blob :: "string \<Rightarrow> nat \<Rightarrow> db \<Rightarrow> blob_error + db" where
  "register_blob hash written d =
     (let d1 = (if blob_at d hash = None
                then d\<lparr>blobs := blobs d @ [\<lparr>blb_hash = hash, blb_size = written, blb_available = True\<rparr>]\<rparr> else d) in
      case blob_at d1 hash of
        None \<Rightarrow> Inl BlobIntegrity
      | Some r \<Rightarrow>
          if blb_size r \<noteq> written then Inl BlobIntegrity
          else if blb_available r then Inr d1
          else Inr (d1\<lparr>blobs := update_rows (\<lambda>r. blb_hash r = hash \<and> blb_size r = written \<and> \<not> blb_available r)
                 (\<lambda>r. r\<lparr>blb_available := True\<rparr>) (blobs d1)\<rparr>))"

definition grant_blob :: "uuid \<Rightarrow> string \<Rightarrow> db \<Rightarrow> db" where
  "grant_blob u hash d = (if entitled d u hash then d else d\<lparr>entitlements := entitlements d @ [(u, hash)]\<rparr>)"

text \<open>The transaction of an upload whose content is staged under \<open>n\<close> and has the expected digest.\<close>

definition put_tx :: "ext \<Rightarrow> nat \<Rightarrow> uuid \<Rightarrow> string \<Rightarrow> string \<Rightarrow> string \<Rightarrow> blob_store \<Rightarrow> db \<Rightarrow> (blob_error + nat) \<times> blob_store \<times> db" where
  "put_tx x quota u n content hash s d =
     (if \<not> user_active d u then (Inl BlobUnavailable, remove_stage n s, d)
      else if quota_exceeded quota u hash (length content) d then (Inl BlobQuotaExceeded, remove_stage n s, d)
      else case publish x n content hash s of
        (Some e, s') \<Rightarrow> (Inl e, remove_stage n s', d)
      | (None, s') \<Rightarrow>
          (case register_blob hash (length content) d of
             Inl e \<Rightarrow> (Inl e, s', d)
           | Inr d' \<Rightarrow> (Inr (length content), s', grant_blob u hash d')))"

definition Put ::
  "ext \<Rightarrow> nat \<Rightarrow> uuid \<Rightarrow> string list \<Rightarrow> string \<times> blob_error option \<Rightarrow> string \<Rightarrow> blob_store \<Rightarrow> db \<Rightarrow>
     (blob_error + nat) \<times> blob_store \<times> db" where
  "Put x quota u tokens source hash s d =
     (if bs_closed s then (Inl BlobClosed, s, d)
      else case createStage tokens s of
        Inl e \<Rightarrow> (Inl e, s, d)
      | Inr n \<Rightarrow>
          (case read_source source of
             Inl e \<Rightarrow> (Inl e, remove_stage n (write_stage n (fst source) s), d)
           | Inr content \<Rightarrow>
               (let s1 = write_stage n content s in
                if length content > MaxBlobBytes then (Inl BlobTooLarge, remove_stage n s1, d)
                else if x_sha256 x content \<noteq> hash then (Inl BlobHashMismatch, remove_stage n s1, d)
                else put_tx x quota u n content hash s1 d)))"

definition Get :: "ext \<Rightarrow> uuid \<Rightarrow> string \<Rightarrow> blob_store \<Rightarrow> db \<Rightarrow> blob_error + string" where
  "Get x u hash s d =
     (if bs_closed s then Inl BlobClosed
      else if \<not> user_active d u \<or> \<not> entitled d u hash then Inl BlobUnavailable
      else case blob_at d hash of
        None \<Rightarrow> Inl BlobUnavailable
      | Some r \<Rightarrow>
          if \<not> blb_available r then Inl BlobUnavailable
          else if blb_size r > MaxBlobBytes then Inl BlobIntegrity
          else case readBlob (bs_root s) hash of
            Inl _ \<Rightarrow> Inl BlobIntegrity
          | Inr content \<Rightarrow>
              if length content = blb_size r \<and> x_sha256 x content = hash then Inr content else Inl BlobIntegrity)"

section \<open>Recovery and audit\<close>

definition validHex :: "ext \<Rightarrow> string \<Rightarrow> nat \<Rightarrow> bool" where
  "validHex x s n \<longleftrightarrow> length s = n \<and> to_lower x s = s \<and> hex_decode s \<noteq> None"

definition stage_entry_ok :: "ext \<Rightarrow> string \<times> entry \<Rightarrow> bool" where
  "stage_entry_ok x = (\<lambda>(name, e).
     has_prefix name ''.upload-'' \<and> validHex x (drop 8 name) 32 \<and> (case e of Regular mode _ \<Rightarrow> mode | _ \<Rightarrow> False))"

definition RecoverStaging :: "ext \<Rightarrow> blob_store \<Rightarrow> (blob_error + nat) \<times> blob_store" where
  "RecoverStaging x s =
     (if bs_closed s then (Inl BlobClosed, s)
      else if \<not> list_all (stage_entry_ok x) (bs_staging s) then (Inl BlobUnsafeStorage, s)
      else (Inr (length (bs_staging s)), s\<lparr>bs_staging := []\<rparr>))"

definition add_scan :: "nat \<times> nat \<times> string list \<Rightarrow> nat \<times> nat \<times> string list \<Rightarrow> nat \<times> nat \<times> string list" where
  "add_scan a b = (fst a + fst b, fst (snd a) + fst (snd b), snd (snd a) @ snd (snd b))"

text \<open>\<open>scanDirectoryAt\<close>: malformed entries, symbolic links, names of contents.\<close>

fun scan_dir :: "ext \<Rightarrow> nat \<Rightarrow> string \<Rightarrow> (string \<times> entry) list \<Rightarrow> nat \<times> nat \<times> string list" where
  "scan_dir x depth prefix [] = (0, 0, [])"
| "scan_dir x depth prefix ((name, e) # es) =
     add_scan
       (case e of
          Symlink \<Rightarrow> (0, 1, [])
        | Directory mode sub \<Rightarrow>
            if depth = 0 \<and> name = ''sha256'' \<or> depth = 1 \<and> validHex x name 2 \<or> depth = 2 \<and> validHex x name 2
            then add_scan (if mode then 0 else 1, 0, [])
                   (scan_dir x (Suc depth) (if depth = 1 \<or> depth = 2 then prefix @ name else prefix) sub)
            else (1, 0, [])
        | Regular mode _ \<Rightarrow>
            if depth = 3 \<and> validHex x name 64 \<and> length prefix = 4 \<and> take 4 name = prefix
            then (if mode then 0 else 1, 0, [name])
            else (1, 0, [])
        | Special \<Rightarrow> (1, 0, []))
       (scan_dir x depth prefix es)"

record audit_report =
  au_registered :: nat
  au_missing :: nat
  au_corrupt :: nat
  au_orphans :: nat
  au_malformed :: nat
  au_symlinks :: nat

definition Healthy :: "audit_report \<Rightarrow> bool" where
  "Healthy r \<longleftrightarrow> au_missing r = 0 \<and> au_corrupt r = 0 \<and> au_malformed r = 0 \<and> au_symlinks r = 0"

definition audit_missing :: "blob_store \<Rightarrow> blob_row \<Rightarrow> bool" where
  "audit_missing s r \<longleftrightarrow> readBlob (bs_root s) (blb_hash r) = Inl BlobNotExist"

definition audit_corrupt :: "ext \<Rightarrow> blob_store \<Rightarrow> blob_row \<Rightarrow> bool" where
  "audit_corrupt x s r \<longleftrightarrow>
     (case readBlob (bs_root s) (blb_hash r) of
        Inl e \<Rightarrow> e \<noteq> BlobNotExist
      | Inr content \<Rightarrow> length content \<noteq> blb_size r \<or> x_sha256 x content \<noteq> blb_hash r)"

definition Audit :: "ext \<Rightarrow> blob_store \<Rightarrow> db \<Rightarrow> blob_error + audit_report" where
  "Audit x s d =
     (if bs_closed s then Inl BlobClosed
      else if \<not> list_all (\<lambda>r. length (blb_hash r) = 32) (blobs d) then Inl BlobIntegrity
      else case bs_root s of
        Directory _ es \<Rightarrow>
          (let available = filter blb_available (blobs d);
               registered = map (\<lambda>r. hex_encode (blb_hash r)) (blobs d) in
           case scan_dir x 0 [] es of (malformed, symlinks, seen) \<Rightarrow>
             Inr \<lparr>au_registered = length (remdups registered),
                  au_missing = length (filter (audit_missing s) available),
                  au_corrupt = length (filter (audit_corrupt x s) available),
                  au_orphans = length (filter (\<lambda>n. n \<notin> set registered) (remdups seen)),
                  au_malformed = malformed, au_symlinks = symlinks\<rparr>)
      | _ \<Rightarrow> Inl BlobStorage)"

section \<open>Files stay\<close>

definition keeps_files :: "entry \<Rightarrow> entry \<Rightarrow> bool" where
  "keeps_files e e' \<longleftrightarrow> (\<forall>p m c. open_path e p = Inr (Regular m c) \<longrightarrow> open_path e' p = Inr (Regular m c))"

lemma keeps_files_refl [simp]: "keeps_files e e"
  by (simp add: keeps_files_def)

lemma keeps_files_trans: "keeps_files e e' \<Longrightarrow> keeps_files e' e'' \<Longrightarrow> keeps_files e e''"
  by (simp add: keeps_files_def)

lemma keeps_files_more: "keeps_files (Directory m es) (Directory m' (es @ es'))"
  unfolding keeps_files_def
proof (intro allI impI)
  fix p k c assume "open_path (Directory m es) p = Inr (Regular k c)"
  then show "open_path (Directory m' (es @ es')) p = Inr (Regular k c)" by (cases p) (auto simp: map_add_def split: option.splits)
qed

lemma keeps_files_update:
  assumes "map_of es n = Some e" and "keeps_files e e'"
  shows "keeps_files (Directory m es) (Directory m' (AList.update n e' es))"
  unfolding keeps_files_def
proof (intro allI impI)
  fix p k c assume *: "open_path (Directory m es) p = Inr (Regular k c)"
  show "open_path (Directory m' (AList.update n e' es)) p = Inr (Regular k c)"
  proof (cases p)
    case (Cons q ps)
    then show ?thesis using * assms by (cases "q = n") (auto simp: update_conv' keeps_files_def split: option.splits)
  qed (use * in simp)
qed

lemma keeps_files_mode: "keeps_files (Directory m es) (Directory m' es)"
  using keeps_files_more [of m es m' "[]"] by simp

lemma ensure_dirs_keeps: "keeps_files e (snd (ensure_dirs ns e))"
proof (induction ns e rule: ensure_dirs.induct)
  case (2 n ns m es)
  show ?case
  proof (cases "map_of es n")
    case None
    then show ?thesis using keeps_files_more by (auto split: prod.split)
  next
    case (Some f)
    show ?thesis
    proof (cases f)
      case (Directory k sub)
      have "keeps_files (Directory k sub) (snd (ensure_dirs ns (Directory True sub)))"
        using 2(2) [OF Some Directory] keeps_files_mode keeps_files_trans by blast
      then show ?thesis using Some Directory keeps_files_update [of es n "Directory k sub"] by (auto split: prod.split)
    qed (use Some in simp_all)
  qed
qed simp_all

lemma add_at_keeps: "keeps_files e (add_at p f e)"
proof (induction p f e rule: add_at.induct)
  case (1 n f m es)
  then show ?case by (simp add: keeps_files_more)
next
  case (2 n v va f m es)
  then show ?case by (auto split: option.split intro: keeps_files_update)
qed simp_all

lemma ensure_dirs_path:
  assumes "ensure_dirs ns e = (True, e')" and "e = Directory m es"
  shows "\<exists>m' es'. open_path e' ns = Inr (Directory m' es')"
  using assms
proof (induction ns e arbitrary: e' m es rule: ensure_dirs.induct)
  case (2 n ns k fs)
  show ?case
  proof (cases "map_of fs n")
    case None
    then obtain f where f: "ensure_dirs ns (Directory True []) = (True, f)" "e' = Directory k (fs @ [(n, f)])"
      using 2(3) by (auto split: prod.splits)
    from 2(1) [OF None f(1)] None f(2) show ?thesis by (simp add: map_add_def)
  next
    case (Some g)
    then obtain k' sub f where f: "g = Directory k' sub" "ensure_dirs ns (Directory True sub) = (True, f)" "e' = Directory k (AList.update n f fs)"
      using 2(3) by (cases g) (auto split: prod.splits)
    from 2(2) [OF Some f(1,2)] f(3) show ?thesis by (simp add: update_conv')
  qed
qed auto

lemma add_at_there:
  "open_path e ns = Inr (Directory m es) \<Longrightarrow> map_of es n = None \<Longrightarrow> open_path (add_at (ns @ [n]) f e) (ns @ [n]) = Inr f"
proof (induction ns arbitrary: e)
  case Nil
  then show ?case by (simp add: map_add_def)
next
  case (Cons k ns)
  then obtain m' es' g where e: "e = Directory m' es'" "map_of es' k = Some g" "open_path g ns = Inr (Directory m es)"
    by (cases e) (auto split: option.splits)
  then show ?case using Cons.IH [OF e(3) Cons.prems(2)] by (cases "ns @ [n]") (simp_all add: update_conv')
qed

lemma open_path_append:
  "open_path e ns = Inr (Directory m es) \<Longrightarrow> open_path e (ns @ [n]) = (case map_of es n of None \<Rightarrow> Inl BlobNotExist | Some f \<Rightarrow> Inr f)"
proof (induction ns arbitrary: e)
  case (Cons k ns)
  then show ?case by (cases e) (auto split: option.splits)
qed (simp split: option.split)

lemma readBlob_keeps: "keeps_files e e' \<Longrightarrow> readBlob e h = Inr c \<Longrightarrow> readBlob e' h = Inr c"
  by (auto simp: readBlob_def keeps_files_def split: entry.splits if_splits)

section \<open>What publishing does\<close>

definition is_dir :: "entry \<Rightarrow> bool" where
  "is_dir e \<longleftrightarrow> (case e of Directory _ _ \<Rightarrow> True | _ \<Rightarrow> False)"

lemma publish_keeps: "publish x n content hash s = (r, s') \<Longrightarrow> keeps_files (bs_root s) (bs_root s')"
  using ensure_dirs_keeps [of "bs_root s" "blob_dirs hash"] add_at_keeps keeps_files_trans
  by (auto simp: publish_def remove_stage_def split: prod.splits bool.splits if_splits sum.splits)

lemma publish_there:
  assumes "publish x n content hash s = (None, s')" and "is_dir (bs_root s)" and "x_sha256 x content = hash" "length content \<le> MaxBlobBytes"
  shows "\<exists>c. readBlob (bs_root s') hash = Inr c \<and> length c = length content \<and> x_sha256 x c = hash"
proof -
  obtain ok root where e: "ensure_dirs (blob_dirs hash) (bs_root s) = (ok, root)" by fastforce
  with assms(1) have e: "ensure_dirs (blob_dirs hash) (bs_root s) = (True, root)" by (cases ok) (simp_all add: publish_def)
  from assms(2) obtain m0 es0 where "bs_root s = Directory m0 es0" by (auto simp: is_dir_def split: entry.splits)
  with ensure_dirs_path [OF e] obtain m es where d: "open_path root (blob_dirs hash) = Inr (Directory m es)" by blast
  show ?thesis
  proof (cases "open_path root (blob_path hash) = Inl BlobNotExist")
    case True
    then have "map_of es (hex_encode hash) = None" unfolding blob_path_def open_path_append [OF d] by (auto split: option.splits)
    from add_at_there [OF d this] have "open_path (bs_root s') (blob_path hash) = Inr (Regular True content)"
      using assms(1) e True by (auto simp: publish_def remove_stage_def blob_path_def)
    then show ?thesis using assms(3,4) by (simp add: readBlob_def)
  next
    case False
    then show ?thesis using assms(1) e by (auto simp: publish_def remove_stage_def split: sum.splits if_splits)
  qed
qed

lemma ensure_dirs_dir: "is_dir e \<Longrightarrow> is_dir (snd (ensure_dirs ns e))"
  by (cases "(ns, e)" rule: ensure_dirs.cases) (auto simp: is_dir_def split: option.splits entry.splits prod.splits)

lemma add_at_dir: "is_dir e \<Longrightarrow> is_dir (add_at p f e)"
  by (cases "(p, f, e)" rule: add_at.cases) (auto simp: is_dir_def split: option.splits)

lemma publish_dir: "publish x n content hash s = (r, s') \<Longrightarrow> is_dir (bs_root s) \<Longrightarrow> is_dir (bs_root s')"
  using ensure_dirs_dir [of "bs_root s" "blob_dirs hash"] add_at_dir
  by (auto simp: publish_def remove_stage_def split: prod.splits bool.splits if_splits sum.splits)

end
