(* ===== verification/Api.thy ===== *)
theory Api
  imports Http System Limiter Blob_Store
begin

text \<open>
  The server's HTTP interface, \<open>server/internal/httpapi/handler.go\<close>: one function per handler and the
  dispatch on the path. A request is handled as one step on the state of the server; which channel slots
  are free, the clocks, the random bytes and new identifiers are inputs of the step. Logging and the
  request identifier are left out. A body that is longer than the limit of a reader is a failing read.
\<close>

section \<open>State and inputs\<close>

record api_state =
  as_db :: db
  as_limits :: abuse_limiters
  as_blobs :: blob_store
  as_ready :: bool

record api_config =
  ac_world :: world
  ac_wire :: wire
  ac_quota :: nat
  ac_identity :: bool
  ac_registration :: bool

text \<open>The inputs of a step: the clocks in milliseconds and, for the limiters, nanoseconds; whether the channel the
  route asks has a free slot; whether the database answers; the names an upload may be staged under.\<close>

record api_call =
  cl_now :: int
  cl_nanos :: int
  cl_random :: string
  cl_fresh :: "uuid list"
  cl_slot :: bool
  cl_database :: bool
  cl_stages :: "string list"

type_synonym api_step = "api_state \<Rightarrow> http_response \<times> api_state"

definition MarkReady :: "api_state \<Rightarrow> api_state" where
  "MarkReady s = s\<lparr>as_ready := True\<rparr>"

definition MarkDraining :: "api_state \<Rightarrow> api_state" where
  "MarkDraining s = s\<lparr>as_ready := False\<rparr>"

abbreviation cfg_ext :: "api_config \<Rightarrow> ext" where
  "cfg_ext c \<equiv> w_ext (ac_world c)"

section \<open>Answers\<close>

definition security_headers :: "(string \<times> string list) list" where
  "security_headers =
     [(''X-Content-Type-Options'', [''nosniff'']), (''Referrer-Policy'', [''no-referrer'']), (''X-Frame-Options'', [''DENY''])]"

definition writeJSON_with :: "(string \<times> string list) list \<Rightarrow> http_request \<Rightarrow> nat \<Rightarrow> json \<Rightarrow> http_response" where
  "writeJSON_with hs rq status j =
     \<lparr>rs_status = status,
      rs_headers = security_headers @ hs @ [(''Content-Type'', [json_media]), (''Cache-Control'', [''no-store''])],
      rs_body = (if rq_method rq = ''HEAD'' then [] else json_line j)\<rparr>"

definition writeJSON :: "http_request \<Rightarrow> nat \<Rightarrow> json \<Rightarrow> http_response" where
  "writeJSON = writeJSON_with []"

definition error_json :: "string \<Rightarrow> json" where
  "error_json c = JObject [(''error'', JString c)]"

definition writeAPIError :: "http_request \<Rightarrow> nat \<Rightarrow> string \<Rightarrow> http_response" where
  "writeAPIError rq status c = writeJSON rq status (error_json c)"

definition status_json :: "string \<Rightarrow> json" where
  "status_json s = JObject [(''status'', JString s)]"

definition methodNotAllowed :: "http_request \<Rightarrow> string \<Rightarrow> http_response" where
  "methodNotAllowed rq allowed = writeJSON_with [(''Allow'', [allowed])] rq 405 (error_json ''method_not_allowed'')"

text \<open>Durations are nanoseconds; the seconds are rounded up and at least one.\<close>

definition retry_seconds :: "int \<Rightarrow> nat" where
  "retry_seconds retry = nat (max 1 ((retry + 999999999) div 1000000000))"

definition writeRateLimited :: "http_request \<Rightarrow> int \<Rightarrow> http_response" where
  "writeRateLimited rq retry =
     writeJSON_with [(''Retry-After'', [decimal (retry_seconds retry)])] rq 429 (error_json ''rate_limited'')"

abbreviation invalid_request :: "http_request \<Rightarrow> http_response" where
  "invalid_request rq \<equiv> writeAPIError rq 400 ''invalid_request''"

abbreviation internal_error :: "http_request \<Rightarrow> http_response" where
  "internal_error rq \<equiv> writeAPIError rq 500 ''internal_error''"

definition writeServiceError :: "http_request \<Rightarrow> session_error \<Rightarrow> http_response" where
  "writeServiceError rq e =
     (case e of
        ErrUnauthenticated \<Rightarrow> writeAPIError rq 401 ''invalid_session''
      | SessionInvalidInput \<Rightarrow> invalid_request rq
      | ErrNotFound \<Rightarrow> writeAPIError rq 404 ''not_found''
      | _ \<Rightarrow> internal_error rq)"

definition writeSyncError :: "http_request \<Rightarrow> sync_error \<Rightarrow> http_response" where
  "writeSyncError rq e =
     (case e of
        ErrInvalidInput \<Rightarrow> invalid_request rq
      | ErrInactiveActor \<Rightarrow> writeAPIError rq 401 ''invalid_session''
      | ErrBlobUnavailable \<Rightarrow> writeAPIError rq 409 ''blob_unavailable''
      | ErrOperationReplayMismatch \<Rightarrow> writeAPIError rq 409 ''operation_replay_mismatch''
      | ErrPreserveDeleteUnavailable \<Rightarrow> writeAPIError rq 409 ''preserve_delete_unavailable''
      | _ \<Rightarrow> internal_error rq)"

definition writeBlobError :: "http_request \<Rightarrow> blob_error \<Rightarrow> http_response" where
  "writeBlobError rq e =
     (case e of
        BlobUnavailable \<Rightarrow> writeAPIError rq 404 ''blob_not_found''
      | BlobQuotaExceeded \<Rightarrow> writeAPIError rq 413 ''quota_exceeded''
      | BlobTooLarge \<Rightarrow> writeAPIError rq 413 ''blob_too_large''
      | BlobHashMismatch \<Rightarrow> writeAPIError rq 422 ''hash_mismatch''
      | BlobBodyLength \<Rightarrow> invalid_request rq
      | _ \<Rightarrow> internal_error rq)"

section \<open>Reading requests\<close>

definition maxJSONBodyBytes :: nat where
  "maxJSONBodyBytes = 16384"

definition maxSyncPullLimit :: nat where
  "maxSyncPullLimit = 500"

definition decodeStrictJSONFields :: "wire \<Rightarrow> string list \<Rightarrow> 'a reader \<Rightarrow> 'a \<Rightarrow> http_request \<Rightarrow> 'a option" where
  "decodeStrictJSONFields w required r zero rq =
     (case header_values (rq_headers rq) ''Content-Type'' of
        [media] \<Rightarrow>
          if w_media w media = Some (''application/json'', [])
          then decode_strict maxJSONBodyBytes required [] r zero (rq_body rq) else None
      | _ \<Rightarrow> None)"

definition decodeStrictJSON :: "wire \<Rightarrow> 'a reader \<Rightarrow> 'a \<Rightarrow> http_request \<Rightarrow> 'a option" where
  "decodeStrictJSON w = decodeStrictJSONFields w []"

definition requireEmptyBody :: "http_request \<Rightarrow> bool" where
  "requireEmptyBody rq \<longleftrightarrow> rq_body rq = []"

definition bearerToken :: "http_request \<Rightarrow> string option" where
  "bearerToken rq =
     (case header_values (rq_headers rq) ''Authorization'' of
        [v] \<Rightarrow>
          if length v > 128 \<or> \<not> has_prefix v ''Bearer '' then None
          else let token = drop 7 v in
            if length token \<noteq> 43 \<or> list_ex (\<lambda>c. c \<in> set [CHR '' '', CHR 0x09, CHR 0x0D, CHR 0x0A, CHR '','']) token
            then None else Some token
      | _ \<Rightarrow> None)"

definition onePathSegment :: "string \<Rightarrow> string \<Rightarrow> bool" where
  "onePathSegment path pre \<longleftrightarrow>
     has_prefix path pre \<and> drop (length pre) path \<noteq> [] \<and> CHR ''/'' \<notin> set (drop (length pre) path)"

definition parseUUIDv7 :: "ext \<Rightarrow> wire \<Rightarrow> string \<Rightarrow> uuid option" where
  "parseUUIDv7 x w raw =
     (if length raw \<noteq> 36 \<or> CHR ''/'' \<in> set raw then None
      else case w_uuid_parse w raw of
        None \<Rightarrow> None
      | Some u \<Rightarrow> if x_uuid_string x u = raw \<and> x_uuid_version x u = 7 \<and> x_uuid_rfc4122 x u then Some u else None)"

definition parseSyncObjectID :: "ext \<Rightarrow> wire \<Rightarrow> string \<Rightarrow> uuid option" where
  "parseSyncObjectID x w raw =
     (if length raw \<noteq> 36 then None
      else case w_uuid_parse w raw of
        None \<Rightarrow> None
      | Some u \<Rightarrow> if u \<noteq> uuid_nil \<and> x_uuid_string x u = raw \<and> x_uuid_rfc4122 x u then Some u else None)"

definition parseBlobHash :: "ext \<Rightarrow> string \<Rightarrow> string option" where
  "parseBlobHash x raw =
     (if length raw \<noteq> 64 \<or> raw \<noteq> to_lower x raw then None
      else case hex_decode raw of None \<Rightarrow> None | Some h \<Rightarrow> if length h = 32 then Some h else None)"

text \<open>\<open>authenticate\<close>: the token and its principal, or the answer.\<close>

definition authenticate :: "api_config \<Rightarrow> api_call \<Rightarrow> http_request \<Rightarrow> db \<Rightarrow> http_response + string \<times> principal" where
  "authenticate c cl rq d =
     (case bearerToken rq of
        None \<Rightarrow> Inl (writeAPIError rq 401 ''invalid_session'')
      | Some access \<Rightarrow>
          (case AuthenticateAccess (cfg_ext c) (cl_now cl) access d of
             Inl ErrUnauthenticated \<Rightarrow> Inl (writeAPIError rq 401 ''invalid_session'')
           | Inl _ \<Rightarrow> Inl (internal_error rq)
           | Inr p \<Rightarrow> Inr (access, p)))"


section \<open>Accounts and sessions\<close>

definition probe :: "api_config \<Rightarrow> api_call \<Rightarrow> http_request \<Rightarrow> bool \<Rightarrow> api_step" where
  "probe c cl rq readiness s =
     (if rq_method rq \<noteq> ''GET'' \<and> rq_method rq \<noteq> ''HEAD'' then (methodNotAllowed rq ''GET, HEAD'', s)
      else if readiness \<and> (\<not> as_ready s \<or> \<not> cl_database cl) then (writeJSON rq 503 (status_json ''unavailable''), s)
      else (writeJSON rq 200 (status_json ''ok''), s))"

record register_request =
  rr_email :: string
  rr_password :: string

definition register_fields :: "(string \<times> register_request reader) list" where
  "register_fields =
     [(''email'', into read_string rr_email (\<lambda>v. rr_email_update (\<lambda>_. v))),
      (''password'', into read_string rr_password (\<lambda>v. rr_password_update (\<lambda>_. v)))]"

definition register_handler :: "api_config \<Rightarrow> api_call \<Rightarrow> http_request \<Rightarrow> api_step" where
  "register_handler c cl rq s =
     (if rq_method rq \<noteq> ''POST'' then (methodNotAllowed rq ''POST'', s)
      else if \<not> ac_identity c \<or> \<not> ac_registration c then (writeAPIError rq 503 ''registration_unavailable'', s)
      else case decodeStrictJSON (ac_wire c) (read_struct register_fields) \<lparr>rr_email = [], rr_password = []\<rparr> rq of
        None \<Rightarrow> (invalid_request rq, s)
      | Some r \<Rightarrow>
          if \<not> cl_slot cl then (writeRateLimited rq 1000000000, s)
          else (case allowRegistration (cfg_ext c) (w_idna (ac_world c)) (cl_nanos cl) (rr_email r) (as_limits s) of
            ((False, retry), l) \<Rightarrow> (writeRateLimited rq retry, s\<lparr>as_limits := l\<rparr>)
          | ((True, _), l) \<Rightarrow>
              (case Register (cfg_ext c) (w_idna (ac_world c)) (w_argon (ac_world c)) (w_params (ac_world c))
                  (Some (w_codec (ac_world c))) (cl_now cl) (cl_random cl) (rr_email r) (rr_password r) (as_db s) of
                 (res, d) \<Rightarrow>
                   (case res of
                      Inr _ \<Rightarrow> writeJSON rq 202 (status_json ''verification_required'')
                    | Inl ErrInvalidEmail \<Rightarrow> invalid_request rq
                    | Inl ErrInvalidPassword \<Rightarrow> invalid_request rq
                    | Inl ErrRegistrationUnavailable \<Rightarrow> writeAPIError rq 503 ''registration_unavailable''
                    | Inl _ \<Rightarrow> internal_error rq,
                    s\<lparr>as_limits := l, as_db := d\<rparr>))))"

definition token_field :: "string \<Rightarrow> (string \<times> string reader) list" where
  "token_field name = [(name, read_string)]"

definition verifyEmail_handler :: "api_config \<Rightarrow> api_call \<Rightarrow> http_request \<Rightarrow> api_step" where
  "verifyEmail_handler c cl rq s =
     (if rq_method rq \<noteq> ''POST'' then (methodNotAllowed rq ''POST'', s)
      else if \<not> ac_identity c then (writeAPIError rq 503 ''verification_unavailable'', s)
      else case decodeStrictJSON (ac_wire c) (read_struct (token_field ''token'')) [] rq of
        None \<Rightarrow> (invalid_request rq, s)
      | Some token \<Rightarrow>
          (case allowVerification (cfg_ext c) (cl_nanos cl) token (as_limits s) of
            ((False, retry), l) \<Rightarrow> (writeRateLimited rq retry, s\<lparr>as_limits := l\<rparr>)
          | ((True, _), l) \<Rightarrow>
              (case VerifyEmail (cfg_ext c) (cl_now cl) token (as_db s) of
                 (res, d) \<Rightarrow>
                   (case res of
                      Inr _ \<Rightarrow> writeJSON rq 200 (status_json ''verified'')
                    | Inl ErrInvalidVerificationToken \<Rightarrow> writeAPIError rq 400 ''invalid_verification''
                    | Inl _ \<Rightarrow> internal_error rq,
                    s\<lparr>as_limits := l, as_db := d\<rparr>))))"

definition token_json :: "wire \<Rightarrow> tokens \<Rightarrow> json" where
  "token_json w t =
     JObject [(''access_token'', JString (tk_access t)), (''refresh_token'', JString (tk_refresh t)),
       (''access_expires_at'', JString (w_time w (tk_access_expires t))),
       (''refresh_expires_at'', JString (w_time w (tk_refresh_expires t)))]"

definition login_json :: "ext \<Rightarrow> wire \<Rightarrow> principal \<times> tokens \<Rightarrow> json" where
  "login_json x w = (\<lambda>(p, t).
     JObject [(''principal'', JObject [(''user_id'', json_uuid x (pr_user p)), (''device_id'', json_uuid x (pr_device p)),
         (''session_id'', json_uuid x (pr_session p))]),
       (''tokens'', token_json w t)])"

record login_request =
  lr_email :: string
  lr_password :: string
  lr_device :: string

definition login_fields :: "(string \<times> login_request reader) list" where
  "login_fields =
     [(''email'', into read_string lr_email (\<lambda>v. lr_email_update (\<lambda>_. v))),
      (''password'', into read_string lr_password (\<lambda>v. lr_password_update (\<lambda>_. v))),
      (''device_name'', into read_string lr_device (\<lambda>v. lr_device_update (\<lambda>_. v)))]"

text \<open>The answer to a failed login; the error of the credential check is looked up again where the model of the
  session service keeps only that it failed.\<close>

definition login_error :: "api_config \<Rightarrow> login_request \<Rightarrow> db \<Rightarrow> http_request \<Rightarrow> session_error \<Rightarrow> http_response" where
  "login_error c r d rq e =
     (case e of
        ErrUnauthenticated \<Rightarrow> writeAPIError rq 401 ''invalid_credentials''
      | SessionInvalidInput \<Rightarrow> invalid_request rq
      | ErrCredential \<Rightarrow>
          (case fst (AuthenticateCredential (cfg_ext c) (w_idna (ac_world c)) (w_argon (ac_world c)) (w_params (ac_world c))
               (lr_email r) (lr_password r) d) of
             Inl ErrInvalidCredentials \<Rightarrow> writeAPIError rq 401 ''invalid_credentials''
           | _ \<Rightarrow> internal_error rq)
      | _ \<Rightarrow> internal_error rq)"

definition login_handler :: "api_config \<Rightarrow> api_call \<Rightarrow> http_request \<Rightarrow> api_step" where
  "login_handler c cl rq s =
     (if rq_method rq \<noteq> ''POST'' then (methodNotAllowed rq ''POST'', s)
      else case decodeStrictJSON (ac_wire c) (read_struct login_fields) \<lparr>lr_email = [], lr_password = [], lr_device = []\<rparr> rq of
        None \<Rightarrow> (invalid_request rq, s)
      | Some r \<Rightarrow>
          if \<not> cl_slot cl then (writeRateLimited rq 1000000000, s)
          else (case allowLogin (cfg_ext c) (w_idna (ac_world c)) (cl_nanos cl) (lr_email r) (as_limits s) of
            ((False, retry), l) \<Rightarrow> (writeRateLimited rq retry, s\<lparr>as_limits := l\<rparr>)
          | ((True, _), l) \<Rightarrow>
              (case Login (cfg_ext c) (authenticator (cfg_ext c) (w_idna (ac_world c)) (w_argon (ac_world c)) (w_params (ac_world c)) (as_db s))
                  (cl_now cl) (cl_random cl) (lr_email r) (lr_password r) (lr_device r) (as_db s) of
                 (res, d) \<Rightarrow>
                   (case res of
                      Inr result \<Rightarrow> writeJSON rq 200 (login_json (cfg_ext c) (ac_wire c) result)
                    | Inl e \<Rightarrow> login_error c r (as_db s) rq e,
                    s\<lparr>as_limits := l, as_db := d\<rparr>))))"

definition refresh_handler :: "api_config \<Rightarrow> api_call \<Rightarrow> http_request \<Rightarrow> api_step" where
  "refresh_handler c cl rq s =
     (if rq_method rq \<noteq> ''POST'' then (methodNotAllowed rq ''POST'', s)
      else case decodeStrictJSON (ac_wire c) (read_struct (token_field ''refresh_token'')) [] rq of
        None \<Rightarrow> (invalid_request rq, s)
      | Some token \<Rightarrow>
          (case allowRefresh (cfg_ext c) (cl_nanos cl) token (as_limits s) of
            ((False, retry), l) \<Rightarrow> (writeRateLimited rq retry, s\<lparr>as_limits := l\<rparr>)
          | ((True, _), l) \<Rightarrow>
              (case Refresh (cfg_ext c) (cl_now cl) (cl_random cl) token (as_db s) of
                 (res, d) \<Rightarrow>
                   (case res of
                      Inr t \<Rightarrow> writeJSON rq 200 (token_json (ac_wire c) t)
                    | Inl ErrUnauthenticated \<Rightarrow> writeAPIError rq 401 ''invalid_session''
                    | Inl _ \<Rightarrow> internal_error rq,
                    s\<lparr>as_limits := l, as_db := d\<rparr>))))"

text \<open>The answer of an operation on sessions or devices.\<close>

definition service_answer :: "http_request \<Rightarrow> string \<Rightarrow> session_error + unit \<Rightarrow> http_response" where
  "service_answer rq done' res =
     (case res of Inl e \<Rightarrow> writeServiceError rq e | Inr _ \<Rightarrow> writeJSON rq 200 (status_json done'))"

definition logout_handler :: "api_config \<Rightarrow> api_call \<Rightarrow> http_request \<Rightarrow> api_step" where
  "logout_handler c cl rq s =
     (if rq_method rq \<noteq> ''POST'' then (methodNotAllowed rq ''POST'', s)
      else case authenticate c cl rq (as_db s) of
        Inl a \<Rightarrow> (a, s)
      | Inr (access, p) \<Rightarrow>
          if \<not> requireEmptyBody rq then (invalid_request rq, s)
          else (case RevokeSession (cfg_ext c) (cl_now cl) access (pr_session p) (as_db s) of
            (res, d) \<Rightarrow> (service_answer rq ''revoked'' res, s\<lparr>as_db := d\<rparr>)))"

definition lifecycle_text :: "lifecycle \<Rightarrow> string" where
  "lifecycle_text l = (case l of Active \<Rightarrow> ''active'' | Revoked \<Rightarrow> ''revoked'')"

definition session_json :: "ext \<Rightarrow> wire \<Rightarrow> session_info \<Rightarrow> json" where
  "session_json x w i =
     JObject [(''session_id'', json_uuid x (si_session i)), (''device_id'', json_uuid x (si_device i)),
       (''device_name'', JString (si_name i)), (''status'', JString (lifecycle_text (si_status i))),
       (''created_at'', JString (w_time w (si_created i))), (''expires_at'', JString (w_time w (si_expires i))),
       (''revoked_at'', json_option (\<lambda>t. JString (w_time w t)) (si_revoked i)), (''current'', JBool (si_current i))]"

definition listSessions_handler :: "api_config \<Rightarrow> api_call \<Rightarrow> http_request \<Rightarrow> api_step" where
  "listSessions_handler c cl rq s =
     (if rq_method rq \<noteq> ''GET'' then (methodNotAllowed rq ''GET'', s)
      else case authenticate c cl rq (as_db s) of
        Inl a \<Rightarrow> (a, s)
      | Inr (access, p) \<Rightarrow>
          if \<not> requireEmptyBody rq then (invalid_request rq, s)
          else (case ListForUser (cfg_ext c) (cl_now cl) access (as_db s) of
            Inl e \<Rightarrow> (writeServiceError rq e, s)
          | Inr items \<Rightarrow>
              (writeJSON rq 200 (JObject [(''sessions'', JArray (map (session_json (cfg_ext c) (ac_wire c)) items))]), s)))"

definition device_handler :: "api_config \<Rightarrow> api_call \<Rightarrow> http_request \<Rightarrow> string \<Rightarrow> api_step" where
  "device_handler c cl rq rawID s =
     (if rq_method rq \<noteq> ''PATCH'' \<and> rq_method rq \<noteq> ''DELETE'' then (methodNotAllowed rq ''PATCH, DELETE'', s)
      else case authenticate c cl rq (as_db s) of
        Inl a \<Rightarrow> (a, s)
      | Inr (access, p) \<Rightarrow>
          (case parseUUIDv7 (cfg_ext c) (ac_wire c) rawID of
             None \<Rightarrow> (invalid_request rq, s)
           | Some i \<Rightarrow>
               if rq_method rq = ''PATCH'' then
                 (case decodeStrictJSON (ac_wire c) (read_struct (token_field ''display_name'')) [] rq of
                    None \<Rightarrow> (invalid_request rq, s)
                  | Some name \<Rightarrow>
                      (case RenameDevice (cfg_ext c) (cl_now cl) access i name (as_db s) of
                         (res, d) \<Rightarrow> (service_answer rq ''ok'' res, s\<lparr>as_db := d\<rparr>)))
               else if \<not> requireEmptyBody rq then (invalid_request rq, s)
               else (case RevokeDevice (cfg_ext c) (cl_now cl) access i (as_db s) of
                 (res, d) \<Rightarrow> (service_answer rq ''ok'' res, s\<lparr>as_db := d\<rparr>))))"

definition session_handler :: "api_config \<Rightarrow> api_call \<Rightarrow> http_request \<Rightarrow> string \<Rightarrow> api_step" where
  "session_handler c cl rq rawID s =
     (if rq_method rq \<noteq> ''DELETE'' then (methodNotAllowed rq ''DELETE'', s)
      else case authenticate c cl rq (as_db s) of
        Inl a \<Rightarrow> (a, s)
      | Inr (access, p) \<Rightarrow>
          (case parseUUIDv7 (cfg_ext c) (ac_wire c) rawID of
             None \<Rightarrow> (invalid_request rq, s)
           | Some i \<Rightarrow>
               if \<not> requireEmptyBody rq then (invalid_request rq, s)
               else (case RevokeSession (cfg_ext c) (cl_now cl) access i (as_db s) of
                 (res, d) \<Rightarrow> (service_answer rq ''ok'' res, s\<lparr>as_db := d\<rparr>))))"


section \<open>Synchronization\<close>

record sync_request =
  sq_operation :: string
  sq_mutation :: string
  sq_object :: string
  sq_type :: string
  sq_base :: nat
  sq_parent :: "string option"
  sq_name :: string
  sq_blob :: "string option"

definition no_sync_request :: sync_request where
  "no_sync_request = \<lparr>sq_operation = [], sq_mutation = [], sq_object = [], sq_type = [], sq_base = 0, sq_parent = None, sq_name = [], sq_blob = None\<rparr>"

definition sync_fields :: "(string \<times> sync_request reader) list" where
  "sync_fields =
     [(''operation_id'', into read_string sq_operation (\<lambda>v. sq_operation_update (\<lambda>_. v))),
      (''mutation'', into read_string sq_mutation (\<lambda>v. sq_mutation_update (\<lambda>_. v))),
      (''object_id'', into read_string sq_object (\<lambda>v. sq_object_update (\<lambda>_. v))),
      (''object_type'', into read_string sq_type (\<lambda>v. sq_type_update (\<lambda>_. v))),
      (''base_revision'', into read_uint sq_base (\<lambda>v. sq_base_update (\<lambda>_. v))),
      (''parent_id'', into (read_pointer read_string []) sq_parent (\<lambda>v. sq_parent_update (\<lambda>_. v))),
      (''name'', into read_string sq_name (\<lambda>v. sq_name_update (\<lambda>_. v))),
      (''blob_hash'', into (read_pointer read_string []) sq_blob (\<lambda>v. sq_blob_update (\<lambda>_. v)))]"

definition mapSyncMutation :: "ext \<Rightarrow> wire \<Rightarrow> sync_request \<Rightarrow> mutation option" where
  "mapSyncMutation x w r =
     Option.bind (parseUUIDv7 x w (sq_operation r)) (\<lambda>operation.
     Option.bind (parseSyncObjectID x w (sq_object r)) (\<lambda>object.
       let kind = kind_of_text (sq_mutation r); type = type_of_text (sq_type r) in
       if kind \<noteq> MutationCreate \<and> kind \<noteq> MutationUpdate \<and> kind \<noteq> MutationMove \<and> kind \<noteq> MutationDelete then None
       else if type \<noteq> ObjectNote \<and> type \<noteq> ObjectFolder then None
       else if \<not> int64 (sq_base r) then None
       else Option.bind (optional_with (parseSyncObjectID x w) (sq_parent r)) (\<lambda>parent.
            Option.bind (optional_with (parseBlobHash x) (sq_blob r)) (\<lambda>blob.
              Some \<lparr>m_operation = operation, m_kind = kind, m_object = object, m_type = type, m_base = sq_base r,
                m_parent = parent, m_name = sq_name r, m_blob = (case blob of None \<Rightarrow> [] | Some h \<Rightarrow> h)\<rparr>))))"

definition conflict_text :: "conflict_code \<Rightarrow> string" where
  "conflict_text c =
     (case c of
        ConflictObjectExists \<Rightarrow> ''object_exists'' | ConflictObjectMissing \<Rightarrow> ''object_missing''
      | ConflictObjectDeleted \<Rightarrow> ''object_deleted'' | ConflictBaseRevisionMismatch \<Rightarrow> ''base_revision_mismatch''
      | ConflictParentUnavailable \<Rightarrow> ''parent_unavailable'' | ConflictPathCollision \<Rightarrow> ''path_collision''
      | ConflictFolderNotEmpty \<Rightarrow> ''folder_not_empty'' | ConflictFolderCycle \<Rightarrow> ''folder_cycle''
      | ConflictTypeMismatch \<Rightarrow> ''type_mismatch'')"

definition state_json :: "ext \<Rightarrow> canonical_state \<Rightarrow> json" where
  "state_json x v =
     JObject [(''object_type'', JString (type_text (c_type v))), (''revision'', json_nat (c_revision v)),
       (''parent_id'', json_option (json_uuid x) (c_parent v)), (''name'', JString (c_name v)),
       (''blob_hash'', json_blob (c_blob v)), (''deleted'', JBool (c_deleted v))]"

definition submit_json :: "ext \<Rightarrow> submit_result \<Rightarrow> json" where
  "submit_json x r =
     JObject (if r_accepted r
       then [(''accepted'', JBool True), (''conflict'', JNull), (''revision'', json_nat (r_revision r)),
         (''cursor'', json_nat (r_cursor r)), (''canonical'', JNull)]
       else [(''accepted'', JBool False),
         (''conflict'', JString (case r_conflict r of None \<Rightarrow> [] | Some k \<Rightarrow> conflict_text k)), (''revision'', JNull),
         (''cursor'', JNull), (''canonical'', json_option (state_json x) (r_canonical r))])"

text \<open>A request to the synchronization core: actor, slot, call, answer.\<close>

definition sync_call ::
  "api_config \<Rightarrow> api_call \<Rightarrow> http_request \<Rightarrow> principal \<Rightarrow> (actor \<Rightarrow> db \<Rightarrow> (sync_error + json) \<times> db) \<Rightarrow> api_step" where
  "sync_call c cl rq p call s =
     (case ForActor (cfg_ext c) (pr_user p) (pr_device p) of
        Inl _ \<Rightarrow> (internal_error rq, s)
      | Inr a \<Rightarrow>
          if \<not> cl_slot cl then (writeRateLimited rq 1000000000, s)
          else (case call a (as_db s) of (res, d) \<Rightarrow>
            (case res of Inl e \<Rightarrow> writeSyncError rq e | Inr j \<Rightarrow> writeJSON rq 200 j, s\<lparr>as_db := d\<rparr>)))"

definition answer_with :: "('a \<Rightarrow> json) \<Rightarrow> (sync_error + 'a) \<times> db \<Rightarrow> (sync_error + json) \<times> db" where
  "answer_with f r = (case r of (Inl e, d) \<Rightarrow> (Inl e, d) | (Inr a, d) \<Rightarrow> (Inr (f a), d))"

definition submitSync :: "api_config \<Rightarrow> api_call \<Rightarrow> http_request \<Rightarrow> api_step" where
  "submitSync c cl rq s =
     (if rq_method rq \<noteq> ''POST'' then (methodNotAllowed rq ''POST'', s)
      else case authenticate c cl rq (as_db s) of
        Inl a \<Rightarrow> (a, s)
      | Inr (_, p) \<Rightarrow>
          (case decodeStrictJSONFields (ac_wire c)
              [''operation_id'', ''mutation'', ''object_id'', ''object_type'', ''base_revision'', ''parent_id'', ''name'', ''blob_hash'']
              (read_struct sync_fields) no_sync_request rq of
             None \<Rightarrow> (invalid_request rq, s)
           | Some r \<Rightarrow>
               (case mapSyncMutation (cfg_ext c) (ac_wire c) r of
                  None \<Rightarrow> (invalid_request rq, s)
                | Some m \<Rightarrow>
                    sync_call c cl rq p (\<lambda>a d. answer_with (submit_json (cfg_ext c))
                      (Submit (cfg_ext c) a (cl_now cl) (cl_fresh cl) m d)) s)))"

record preserve_body =
  pq_operation :: string
  pq_conflict :: string
  pq_folder :: string
  pq_revision :: nat
  pq_version :: nat
  pq_cursor :: nat

definition preserve_fields :: "(string \<times> preserve_body reader) list" where
  "preserve_fields =
     [(''operation_id'', into read_string pq_operation (\<lambda>v. pq_operation_update (\<lambda>_. v))),
      (''conflict_operation_id'', into read_string pq_conflict (\<lambda>v. pq_conflict_update (\<lambda>_. v))),
      (''folder_id'', into read_string pq_folder (\<lambda>v. pq_folder_update (\<lambda>_. v))),
      (''expected_revision'', into read_uint pq_revision (\<lambda>v. pq_revision_update (\<lambda>_. v))),
      (''request_version'', into read_uint pq_version (\<lambda>v. pq_version_update (\<lambda>_. v))),
      (''known_cursor'', into read_uint pq_cursor (\<lambda>v. pq_cursor_update (\<lambda>_. v)))]"

definition no_preserve_body :: preserve_body where
  "no_preserve_body = \<lparr>pq_operation = [], pq_conflict = [], pq_folder = [], pq_revision = 0, pq_version = 0, pq_cursor = 0\<rparr>"

definition map_preserve :: "ext \<Rightarrow> wire \<Rightarrow> preserve_body \<Rightarrow> preserve_request option" where
  "map_preserve x w r =
     Option.bind (parseUUIDv7 x w (pq_operation r)) (\<lambda>operation.
     Option.bind (parseUUIDv7 x w (pq_conflict r)) (\<lambda>conflict.
     Option.bind (parseSyncObjectID x w (pq_folder r)) (\<lambda>folder.
       if pq_revision r = 0 \<or> \<not> int64 (pq_revision r) \<or> pq_version r > 4 \<or>
          pq_version r \<ge> 2 \<and> (pq_cursor r = 0 \<or> \<not> int64 (pq_cursor r)) \<or> pq_version r < 2 \<and> pq_cursor r \<noteq> 0
       then None
       else Some \<lparr>q_operation = operation, q_conflict_operation = conflict, q_folder = folder,
         q_expected_revision = pq_revision r, q_known_cursor = pq_cursor r, q_version = pq_version r\<rparr>)))"

text \<open>The members of a map are written in the order of their keys.\<close>

definition clone_json :: "ext \<Rightarrow> nat \<Rightarrow> preserve_clone \<Rightarrow> json" where
  "clone_json x version k =
     JObject ([(''create_cursor'', json_nat (k_create_cursor k)), (''delete_cursor'', json_nat (k_delete_cursor k))] @
       (if version \<ge> 4 then [(''depth'', json_nat (k_depth k))] else []) @
       (if version \<ge> 3 then [(''name'', JString (k_name k))] else []) @
       [(''original_folder_id'', json_uuid x (k_original k)), (''recovered_folder_id'', json_uuid x (k_recovered k))] @
       (if version \<ge> 4 then [(''source_parent_id'', json_uuid x (k_source_parent k))] else []) @
       (if version \<ge> 3 then [(''source_revision'', json_nat (k_source_revision k))] else []) @
       (if version \<ge> 4 then [(''target_parent_id'', json_uuid x (k_target_parent k))] else []))"

definition note_move_json :: "ext \<Rightarrow> preserve_note_move \<Rightarrow> json" where
  "note_move_json x n =
     JObject [(''blob_hash'', json_hash (n_blob n)), (''move_cursor'', json_nat (n_move_cursor n)), (''name'', JString (n_name n)),
       (''note_id'', json_uuid x (n_note n)), (''source_parent_id'', json_uuid x (n_source_parent n)),
       (''source_revision'', json_nat (n_source_revision n)), (''target_parent_id'', json_uuid x (n_target_parent n)),
       (''target_revision'', json_nat (n_target_revision n))]"

definition preserve_json :: "ext \<Rightarrow> nat \<Rightarrow> preserve_result \<Rightarrow> json" where
  "preserve_json x version r =
     JObject (
       (if version \<ge> 2 then [(''clones'', JArray (map (clone_json x version) (s_clones r)))] else []) @
       [(''deleted_cursor'', json_nat (s_deleted_cursor r))] @
       (if version \<ge> 2 then [(''first_cursor'', json_nat (s_first_cursor r)), (''last_cursor'', json_nat (s_last_cursor r))] else []) @
       (if version \<ge> 3 then [(''note_moves'', JArray (map (note_move_json x) (s_note_moves r)))] else []) @
       [(''recovered_cursor'', json_nat (s_recovered_cursor r)), (''recovered_folder_id'', json_uuid x (s_recovered r))] @
       (if version \<ge> 3 then [(''recovered_folder_name'', JString (s_recovered_name r))] else []))"

definition preserveDeleteFolder :: "api_config \<Rightarrow> api_call \<Rightarrow> http_request \<Rightarrow> api_step" where
  "preserveDeleteFolder c cl rq s =
     (if rq_method rq \<noteq> ''POST'' then (methodNotAllowed rq ''POST'', s)
      else case authenticate c cl rq (as_db s) of
        Inl a \<Rightarrow> (a, s)
      | Inr (_, p) \<Rightarrow>
          (case decodeStrictJSONFields (ac_wire c)
              [''operation_id'', ''conflict_operation_id'', ''folder_id'', ''expected_revision''] (read_struct preserve_fields) no_preserve_body rq of
             None \<Rightarrow> (invalid_request rq, s)
           | Some b \<Rightarrow>
               (case map_preserve (cfg_ext c) (ac_wire c) b of
                  None \<Rightarrow> (invalid_request rq, s)
                | Some r \<Rightarrow>
                    sync_call c cl rq p (\<lambda>a d. answer_with (preserve_json (cfg_ext c) (q_version r))
                      (PreserveAndDeleteEmptyFolder (cfg_ext c) a (cl_now cl) (cl_fresh cl) r d)) s)))"

definition parseCanonicalUint :: "string \<Rightarrow> nat option" where
  "parseCanonicalUint raw =
     (case ParseUint64 raw of None \<Rightarrow> None | Some n \<Rightarrow> if decimal n = raw then Some n else None)"

text \<open>The parameters of the query in a map; a part without a value, an unknown key and a key given twice fail.\<close>

fun query_values :: "string list \<Rightarrow> (string \<times> string) list \<Rightarrow> (string \<times> string) list option" where
  "query_values [] vs = Some vs"
| "query_values (part # parts) vs =
     (let key = cut_before (CHR ''='') part; v = drop (Suc (length key)) part in
      if CHR ''='' \<notin> set part \<or> v = [] \<or> key \<noteq> ''after'' \<and> key \<noteq> ''limit'' \<or> map_of vs key \<noteq> None then None
      else query_values parts ((key, v) # vs))"

definition parseSyncQuery :: "string \<Rightarrow> (nat \<times> int) option" where
  "parseSyncQuery raw =
     (if raw = [] then Some (0, 0)
      else Option.bind (query_values (split_on (CHR ''&'') raw) []) (\<lambda>vs.
        Option.bind (case map_of vs ''after'' of
            None \<Rightarrow> Some 0
          | Some v \<Rightarrow> (case parseCanonicalUint v of None \<Rightarrow> None | Some n \<Rightarrow> if \<not> int64 n then None else Some n)) (\<lambda>after.
        Option.bind (case map_of vs ''limit'' of
            None \<Rightarrow> Some 0
          | Some v \<Rightarrow> (case parseCanonicalUint v of None \<Rightarrow> None | Some n \<Rightarrow> if n > maxSyncPullLimit then None else Some n)) (\<lambda>limit.
          Some (after, int limit)))))"

definition change_json :: "ext \<Rightarrow> version_state \<Rightarrow> json" where
  "change_json x v =
     JObject [(''cursor'', json_nat (v_cursor v)), (''mutation'', JString (kind_text (v_mutation v))),
       (''operation_id'', json_uuid x (v_operation v)), (''object_id'', json_uuid x (v_object v)),
       (''object_type'', JString (type_text (v_type v))), (''revision'', json_nat (v_revision v)),
       (''parent_id'', json_option (json_uuid x) (v_parent v)), (''name'', JString (v_name v)),
       (''blob_hash'', json_blob (v_blob v)), (''deleted'', JBool (v_deleted v))]"

definition pull_json :: "ext \<Rightarrow> pull_result \<Rightarrow> json" where
  "pull_json x r =
     JObject [(''changes'', JArray (map (change_json x) (p_changes r))), (''has_more'', JBool (p_more r)),
       (''next_cursor'', json_nat (p_next r))]"

definition pullSync :: "api_config \<Rightarrow> api_call \<Rightarrow> http_request \<Rightarrow> api_step" where
  "pullSync c cl rq s =
     (if rq_method rq \<noteq> ''GET'' then (methodNotAllowed rq ''GET'', s)
      else case authenticate c cl rq (as_db s) of
        Inl a \<Rightarrow> (a, s)
      | Inr (_, p) \<Rightarrow>
          (case parseSyncQuery (rq_query rq) of
             None \<Rightarrow> (invalid_request rq, s)
           | Some (after, limit) \<Rightarrow>
               if \<not> requireEmptyBody rq then (invalid_request rq, s)
               else sync_call c cl rq p (\<lambda>a d. answer_with (pull_json (cfg_ext c)) (Pull a after limit d, d)) s))"

section \<open>Blobs\<close>

definition hasUnsupportedBlobHeaders :: "http_request \<Rightarrow> bool" where
  "hasUnsupportedBlobHeaders rq \<longleftrightarrow>
     list_ex (\<lambda>n. header_values (rq_headers rq) n \<noteq> [])
       [''Content-Encoding'', ''Range'', ''Content-Range'', ''If-Match'', ''If-None-Match'', ''If-Modified-Since'', ''If-Unmodified-Since'']"

text \<open>\<open>exactLengthReader\<close>: a body that is shorter or longer than announced fails after the announced bytes.\<close>

definition exact_body :: "http_request \<Rightarrow> string \<times> blob_error option" where
  "exact_body rq =
     (let n = nat (rq_length rq) in
      (take n (rq_body rq), if length (rq_body rq) = n then None else Some BlobBodyLength))"

definition content_response :: "string \<Rightarrow> http_response" where
  "content_response content =
     \<lparr>rs_status = 200,
      rs_headers = security_headers @ [(''Content-Type'', [''application/octet-stream'']), (''Cache-Control'', [''no-store'']),
        (''Content-Length'', [decimal (length content)])],
      rs_body = content\<rparr>"

definition put_json :: "string \<Rightarrow> nat \<Rightarrow> json" where
  "put_json hash n = JObject [(''hash'', json_hash hash), (''size'', json_nat n)]"

definition blob_put :: "api_config \<Rightarrow> api_call \<Rightarrow> http_request \<Rightarrow> uuid \<Rightarrow> string \<Rightarrow> api_step" where
  "blob_put c cl rq u hash s =
     (case header_values (rq_headers rq) ''Content-Type'' of
        [media] \<Rightarrow>
          if w_media (ac_wire c) media \<noteq> Some (''application/octet-stream'', []) \<or> rq_length rq < 0 then (invalid_request rq, s)
          else if rq_length rq > int MaxBlobBytes then (writeAPIError rq 413 ''blob_too_large'', s)
          else if \<not> cl_slot cl then (writeRateLimited rq 1000000000, s)
          else (case Put (cfg_ext c) (ac_quota c) u (cl_stages cl) (exact_body rq) hash (as_blobs s) (as_db s) of
            (res, bs, d) \<Rightarrow>
              (case res of Inl e \<Rightarrow> writeBlobError rq e | Inr n \<Rightarrow> writeJSON rq 200 (put_json hash n),
               s\<lparr>as_blobs := bs, as_db := d\<rparr>))
      | _ \<Rightarrow> (invalid_request rq, s))"

definition blob_handler :: "api_config \<Rightarrow> api_call \<Rightarrow> http_request \<Rightarrow> string \<Rightarrow> api_step" where
  "blob_handler c cl rq rawHash s =
     (if rq_method rq \<noteq> ''PUT'' \<and> rq_method rq \<noteq> ''GET'' then (methodNotAllowed rq ''PUT, GET'', s)
      else case authenticate c cl rq (as_db s) of
        Inl a \<Rightarrow> (a, s)
      | Inr (_, p) \<Rightarrow>
          if rq_query rq \<noteq> [] then (invalid_request rq, s)
          else case parseBlobHash (cfg_ext c) rawHash of
            None \<Rightarrow> (invalid_request rq, s)
          | Some hash \<Rightarrow>
              if hasUnsupportedBlobHeaders rq then (invalid_request rq, s)
              else (case blob_for_user (cfg_ext c) (pr_user p) (as_blobs s) of
                Inl _ \<Rightarrow> (internal_error rq, s)
              | Inr u \<Rightarrow>
                  if rq_method rq = ''GET'' then
                    if \<not> requireEmptyBody rq then (invalid_request rq, s)
                    else if \<not> cl_slot cl then (writeRateLimited rq 1000000000, s)
                    else (case Get (cfg_ext c) u hash (as_blobs s) (as_db s) of
                      Inl e \<Rightarrow> (writeBlobError rq e, s)
                    | Inr content \<Rightarrow> (content_response content, s))
                  else blob_put c cl rq u hash s))"

section \<open>Dispatch\<close>

definition segment_after :: "string \<Rightarrow> http_request \<Rightarrow> string" where
  "segment_after pre rq = drop (length pre) (rq_path rq)"

definition ServeHTTP :: "api_config \<Rightarrow> api_call \<Rightarrow> http_request \<Rightarrow> api_step" where
  "ServeHTTP c cl rq s =
     (let path = rq_path rq; blobRoute = onePathSegment path ''/v1/blobs/''; changesRoute = (path = ''/v1/sync/changes'') in
      if rq_query rq \<noteq> [] \<and> \<not> blobRoute \<and> \<not> changesRoute then (invalid_request rq, s)
      else if path = ''/healthz'' then probe c cl rq False s
      else if path = ''/readyz'' then probe c cl rq True s
      else if path = ''/v1/auth/register'' then register_handler c cl rq s
      else if path = ''/v1/auth/verify-email'' then verifyEmail_handler c cl rq s
      else if path = ''/v1/auth/login'' then login_handler c cl rq s
      else if path = ''/v1/auth/refresh'' then refresh_handler c cl rq s
      else if path = ''/v1/auth/logout'' then logout_handler c cl rq s
      else if path = ''/v1/sessions'' then listSessions_handler c cl rq s
      else if onePathSegment path ''/v1/devices/'' then device_handler c cl rq (segment_after ''/v1/devices/'' rq) s
      else if onePathSegment path ''/v1/sessions/'' then session_handler c cl rq (segment_after ''/v1/sessions/'' rq) s
      else if blobRoute then blob_handler c cl rq (segment_after ''/v1/blobs/'' rq) s
      else if path = ''/v1/sync/operations'' then submitSync c cl rq s
      else if path = ''/v1/sync/folder-preserve-delete'' then preserveDeleteFolder c cl rq s
      else if changesRoute then pullSync c cl rq s
      else (writeAPIError rq 404 ''not_found'', s))"

end
