(* ===== verification/Remote.thy ===== *)
theory Remote
  imports Http Client_Inbox
begin

text \<open>
  The client's access to the server, \<open>client/internal/remotehttp/client.go\<close>: what is asked, and how an answer
  is read, field by field with every check, into the results the synchronization store works with. The
  transport is the answer it brings, or none; the access token and the parsed base address are inputs.
\<close>

section \<open>Requests\<close>

datatype remote_error =
    ErrInvalidResponse | ErrReauthRequired | ErrRetryable | ErrReplayMismatch
  | RejectedError nat string | RemoteInput string | RemoteBlobMissing | RemoteBlobHash

definition remote_request :: "string \<Rightarrow> string \<Rightarrow> string \<Rightarrow> string \<Rightarrow> string \<Rightarrow> string \<Rightarrow> remote_error + http_request" where
  "remote_request token rmethod path query body contentType =
     (if token = [] \<or> length token > 4096 \<or> list_ex (\<lambda>c. c \<in> set [CHR 0x0D, CHR 0x0A, CHR 0x00]) token
      then Inl (RemoteInput ''invalid access token'')
      else Inr \<lparr>rq_method = rmethod, rq_path = path, rq_query = query,
        rq_headers = [(''Authorization'', [''Bearer '' @ token]), (''Accept'', [''application/json''])] @
          (if contentType = [] then [] else [(''Content-Type'', [contentType])]),
        rq_body = body, rq_length = int (length body)\<rparr>)"

definition remote_response :: "http_response option \<Rightarrow> remote_error + http_response" where
  "remote_response r =
     (case r of
        None \<Rightarrow> Inl ErrRetryable
      | Some a \<Rightarrow> if 300 \<le> rs_status a \<and> rs_status a < 400 then Inl ErrInvalidResponse else Inr a)"

section \<open>Reading answers\<close>

definition maxJSONBytes :: nat where
  "maxJSONBytes = 65536"

definition maxPreserveDeleteJSONBytes :: nat where
  "maxPreserveDeleteJSONBytes = 16777216"

definition maxPreserveDeleteV4JSONBytes :: nat where
  "maxPreserveDeleteV4JSONBytes = 33554432"

definition validJSONContentType :: "wire \<Rightarrow> http_response \<Rightarrow> bool" where
  "validJSONContentType w a =
     (case header_values (rs_headers a) ''Content-Type'' of
        [v] \<Rightarrow>
          (case w_media w v of
             Some (media, params) \<Rightarrow>
               media = ''application/json'' \<and>
               (params = [] \<or> (\<exists>k\<in>set params. length params = 1 \<and> fst k = ''charset'' \<and> fold_key (snd k) = fold_key ''utf-8''))
           | None \<Rightarrow> False)
      | _ \<Rightarrow> False)"

definition decodeJSONNullableLimit :: "wire \<Rightarrow> nat \<Rightarrow> string list \<Rightarrow> string list \<Rightarrow> 'a reader \<Rightarrow> 'a \<Rightarrow> http_response \<Rightarrow> 'a option" where
  "decodeJSONNullableLimit w limit required nonNull r zero a =
     (if \<not> validJSONContentType w a then None else decode_strict limit required nonNull r zero (rs_body a))"

definition decodeJSON :: "wire \<Rightarrow> string list \<Rightarrow> 'a reader \<Rightarrow> 'a \<Rightarrow> http_response \<Rightarrow> 'a option" where
  "decodeJSON w required = decodeJSONNullableLimit w maxJSONBytes required required"

definition validAPIError :: "nat \<Rightarrow> string \<Rightarrow> bool" where
  "validAPIError status c =
     (if status = 400 then c = ''invalid_request''
      else if status = 401 then c = ''invalid_session''
      else if status = 404 then c = ''blob_not_found''
      else if status = 409 then c = ''blob_unavailable'' \<or> c = ''operation_replay_mismatch'' \<or> c = ''preserve_delete_unavailable''
      else if status = 413 then c = ''quota_exceeded'' \<or> c = ''blob_too_large''
      else if status = 422 then c = ''hash_mismatch''
      else if status = 429 then c = ''rate_limited''
      else if status = 500 then c = ''internal_error''
      else False)"

definition classify :: "wire \<Rightarrow> http_response \<Rightarrow> remote_error" where
  "classify w a =
     (case decodeJSONNullableLimit w maxJSONBytes [] [] (read_struct [(''error'', read_string)]) [] a of
        None \<Rightarrow> ErrInvalidResponse
      | Some c \<Rightarrow>
          if c = [] \<or> \<not> validAPIError (rs_status a) c then ErrInvalidResponse
          else if rs_status a = 401 then ErrReauthRequired
          else if rs_status a = 429 \<or> 500 \<le> rs_status a then ErrRetryable
          else if rs_status a = 409 \<and> c = ''operation_replay_mismatch'' then ErrReplayMismatch
          else RejectedError (rs_status a) c)"

definition validConflict :: "string \<Rightarrow> bool" where
  "validConflict c \<longleftrightarrow>
     c \<in> set [''object_exists'', ''object_missing'', ''object_deleted'', ''base_revision_mismatch'', ''parent_unavailable'',
       ''path_collision'', ''folder_not_empty'', ''folder_cycle'', ''type_mismatch'']"

text \<open>A hash in the canonical hexadecimal form.\<close>

definition read_hash :: "string \<Rightarrow> string option" where
  "read_hash raw =
     (case hex_decode raw of None \<Rightarrow> None | Some h \<Rightarrow> if length h = 32 \<and> hex_encode h = raw then Some h else None)"

definition validateCanonicalConflict ::
  "ext \<Rightarrow> wire \<Rightarrow> string \<Rightarrow> nat \<Rightarrow> string option \<Rightarrow> string \<Rightarrow> string option \<Rightarrow> bool \<Rightarrow> client_canonical option" where
  "validateCanonicalConflict x w type revision parentRaw name hashRaw deleted =
     (if revision = 0 \<or> revision > MaxInt64 \<or> \<not> valid_component x name then None
      else let t = type_of_text type in
      if \<not> known_object_type t then None
      else case (optional_with (parse_canonical x w False) parentRaw, optional_with read_hash hashRaw) of
        (Some parent, Some hash) \<Rightarrow>
          (let blob = clone_bytes hash in
           if t = ObjectNote \<and> length blob \<noteq> 32 \<or> t = ObjectFolder \<and> length blob \<noteq> 0 then None
           else Some \<lparr>cc_type = t, cc_revision = revision, cc_parent = parent, cc_name = name, cc_blob = blob, cc_deleted = deleted\<rparr>)
      | _ \<Rightarrow> None)"

section \<open>Submit\<close>

definition mutation_json :: "ext \<Rightarrow> client_mutation \<Rightarrow> json" where
  "mutation_json x m =
     JObject [(''operation_id'', json_uuid x (cm_operation m)), (''mutation'', JString (kind_text (cm_kind m))),
       (''object_id'', json_uuid x (cm_object m)), (''object_type'', JString (type_text (cm_type m))),
       (''base_revision'', json_nat (cm_base m)), (''parent_id'', json_option (json_uuid x) (cm_parent m)),
       (''name'', JString (cm_name m)), (''blob_hash'', json_blob (cm_blob m))]"

definition submit_request :: "ext \<Rightarrow> string \<Rightarrow> client_mutation \<Rightarrow> remote_error + http_request" where
  "submit_request x token m =
     (case validateMutation x m of
        Inl _ \<Rightarrow> Inl (RemoteInput ''invalid sync mutation'')
      | Inr _ \<Rightarrow> remote_request token ''POST'' ''/v1/sync/operations'' [] (json_text (mutation_json x m)) ''application/json'')"

record canonical_reply =
  cn_type :: "string option"
  cn_revision :: "nat option"
  cn_parent :: "json option"
  cn_name :: "string option"
  cn_blob :: "json option"
  cn_deleted :: "bool option"

definition no_canonical_reply :: canonical_reply where
  "no_canonical_reply = \<lparr>cn_type = None, cn_revision = None, cn_parent = None, cn_name = None, cn_blob = None, cn_deleted = None\<rparr>"

definition canonical_fields :: "(string \<times> canonical_reply reader) list" where
  "canonical_fields =
     [(''object_type'', into (read_pointer read_string []) cn_type (\<lambda>v. cn_type_update (\<lambda>_. v))),
      (''revision'', into (read_pointer read_uint 0) cn_revision (\<lambda>v. cn_revision_update (\<lambda>_. v))),
      (''parent_id'', into read_raw cn_parent (\<lambda>v. cn_parent_update (\<lambda>_. v))),
      (''name'', into (read_pointer read_string []) cn_name (\<lambda>v. cn_name_update (\<lambda>_. v))),
      (''blob_hash'', into read_raw cn_blob (\<lambda>v. cn_blob_update (\<lambda>_. v))),
      (''deleted'', into (read_pointer read_bool False) cn_deleted (\<lambda>v. cn_deleted_update (\<lambda>_. v)))]"

record submit_reply =
  sr_accepted :: "bool option"
  sr_conflict :: "string option"
  sr_revision :: "nat option"
  sr_cursor :: "nat option"
  sr_canonical :: "canonical_reply option"

definition no_submit_reply :: submit_reply where
  "no_submit_reply = \<lparr>sr_accepted = None, sr_conflict = None, sr_revision = None, sr_cursor = None, sr_canonical = None\<rparr>"

definition submit_fields :: "(string \<times> submit_reply reader) list" where
  "submit_fields =
     [(''accepted'', into (read_pointer read_bool False) sr_accepted (\<lambda>v. sr_accepted_update (\<lambda>_. v))),
      (''conflict'', into (read_pointer read_string []) sr_conflict (\<lambda>v. sr_conflict_update (\<lambda>_. v))),
      (''revision'', into (read_pointer read_uint 0) sr_revision (\<lambda>v. sr_revision_update (\<lambda>_. v))),
      (''cursor'', into (read_pointer read_uint 0) sr_cursor (\<lambda>v. sr_cursor_update (\<lambda>_. v))),
      (''canonical'', into (read_pointer (read_struct canonical_fields) no_canonical_reply) sr_canonical (\<lambda>v. sr_canonical_update (\<lambda>_. v)))]"

text \<open>The canonical state of a conflict: every key is there, and what is raw is \<open>null\<close> or a string.\<close>

definition read_canonical :: "ext \<Rightarrow> wire \<Rightarrow> canonical_reply \<Rightarrow> client_canonical option" where
  "read_canonical x w r =
     (case (cn_type r, cn_revision r, cn_name r, cn_deleted r, cn_parent r, cn_blob r) of
        (Some type, Some revision, Some name, Some deleted, Some parentRaw, Some blobRaw) \<Rightarrow>
          (case (read_pointer read_string [] parentRaw None, read_pointer read_string [] blobRaw None) of
             (Some parent, Some blob) \<Rightarrow> validateCanonicalConflict x w type revision parent name blob deleted
           | _ \<Rightarrow> None)
      | _ \<Rightarrow> None)"

definition submit_result_of :: "ext \<Rightarrow> wire \<Rightarrow> submit_reply \<Rightarrow> client_result option" where
  "submit_result_of x w r =
     (case sr_accepted r of
        None \<Rightarrow> None
      | Some True \<Rightarrow>
          (case (sr_conflict r, sr_canonical r, sr_revision r, sr_cursor r) of
             (None, None, Some revision, Some cursor) \<Rightarrow>
               if cursor_valid revision \<and> cursor_valid cursor
               then Some \<lparr>cr_accepted = True, cr_conflict = [], cr_revision = revision, cr_cursor = cursor, cr_canonical = None\<rparr>
               else None
           | _ \<Rightarrow> None)
      | Some False \<Rightarrow>
          (case (sr_conflict r, sr_revision r, sr_cursor r) of
             (Some conflict, None, None) \<Rightarrow>
               if \<not> validConflict conflict then None
               else map_option (\<lambda>canonical. \<lparr>cr_accepted = False, cr_conflict = conflict, cr_revision = 0, cr_cursor = 0, cr_canonical = canonical\<rparr>)
                 (optional_with (read_canonical x w) (sr_canonical r))
           | _ \<Rightarrow> None))"

definition read_submit :: "ext \<Rightarrow> wire \<Rightarrow> http_response \<Rightarrow> remote_error + client_result" where
  "read_submit x w a =
     (if rs_status a \<noteq> 200 then Inl (classify w a)
      else case decodeJSONNullableLimit w maxJSONBytes [''accepted'', ''conflict'', ''revision'', ''cursor'', ''canonical''] [''accepted'']
          (read_struct submit_fields) no_submit_reply a of
        None \<Rightarrow> Inl ErrInvalidResponse
      | Some r \<Rightarrow> (case submit_result_of x w r of None \<Rightarrow> Inl ErrInvalidResponse | Some result \<Rightarrow> Inr result))"

section \<open>Pull\<close>

definition pull_request :: "string \<Rightarrow> nat \<Rightarrow> int \<Rightarrow> remote_error + http_request" where
  "pull_request token after limit =
     (if after > MaxInt64 \<or> limit \<le> 0 \<or> limit > 500 then Inl (RemoteInput ''invalid pull bounds'')
      else remote_request token ''GET'' ''/v1/sync/changes'' (''after='' @ decimal after @ ''&limit='' @ decimal (nat limit)) [] [])"

record change_reply =
  hr_cursor :: nat
  hr_mutation :: string
  hr_operation :: string
  hr_object :: string
  hr_type :: string
  hr_revision :: nat
  hr_parent :: "string option"
  hr_name :: string
  hr_blob :: "string option"
  hr_deleted :: "bool option"

definition no_change_reply :: change_reply where
  "no_change_reply = \<lparr>hr_cursor = 0, hr_mutation = [], hr_operation = [], hr_object = [], hr_type = [], hr_revision = 0,
     hr_parent = None, hr_name = [], hr_blob = None, hr_deleted = None\<rparr>"

definition change_fields :: "(string \<times> change_reply reader) list" where
  "change_fields =
     [(''cursor'', into read_uint hr_cursor (\<lambda>v. hr_cursor_update (\<lambda>_. v))),
      (''mutation'', into read_string hr_mutation (\<lambda>v. hr_mutation_update (\<lambda>_. v))),
      (''operation_id'', into read_string hr_operation (\<lambda>v. hr_operation_update (\<lambda>_. v))),
      (''object_id'', into read_string hr_object (\<lambda>v. hr_object_update (\<lambda>_. v))),
      (''object_type'', into read_string hr_type (\<lambda>v. hr_type_update (\<lambda>_. v))),
      (''revision'', into read_uint hr_revision (\<lambda>v. hr_revision_update (\<lambda>_. v))),
      (''parent_id'', into (read_pointer read_string []) hr_parent (\<lambda>v. hr_parent_update (\<lambda>_. v))),
      (''name'', into read_string hr_name (\<lambda>v. hr_name_update (\<lambda>_. v))),
      (''blob_hash'', into (read_pointer read_string []) hr_blob (\<lambda>v. hr_blob_update (\<lambda>_. v))),
      (''deleted'', into (read_pointer read_bool False) hr_deleted (\<lambda>v. hr_deleted_update (\<lambda>_. v)))]"

record pull_reply =
  pp_changes :: "change_reply list option"
  pp_more :: "bool option"
  pp_next :: "nat option"

definition pull_fields :: "(string \<times> pull_reply reader) list" where
  "pull_fields =
     [(''changes'', into (read_slice (read_struct change_fields) no_change_reply) pp_changes (\<lambda>v. pp_changes_update (\<lambda>_. v))),
      (''has_more'', into (read_pointer read_bool False) pp_more (\<lambda>v. pp_more_update (\<lambda>_. v))),
      (''next_cursor'', into (read_pointer read_uint 0) pp_next (\<lambda>v. pp_next_update (\<lambda>_. v)))]"

definition no_pull_reply :: pull_reply where
  "no_pull_reply = \<lparr>pp_changes = None, pp_more = None, pp_next = None\<rparr>"

record pull_page =
  pg_changes :: "client_change list"
  pg_more :: bool
  pg_next :: nat

definition read_change :: "ext \<Rightarrow> wire \<Rightarrow> change_reply \<Rightarrow> client_change option" where
  "read_change x w r =
     (case (parse_canonical x w True (hr_operation r), parse_canonical x w False (hr_object r)) of
        (Some operation, Some object) \<Rightarrow>
          if \<not> cursor_valid (hr_cursor r) \<or> \<not> cursor_valid (hr_revision r) then None
          else (let kind = kind_of_text (hr_mutation r); t = type_of_text (hr_type r) in
            case hr_deleted r of
              None \<Rightarrow> None
            | Some deleted \<Rightarrow>
                if \<not> known_mutation kind \<or> \<not> known_object_type t \<or> deleted \<noteq> (kind = MutationDelete) then None
                else (case (optional_with (parse_canonical x w False) (hr_parent r), optional_with read_hash (hr_blob r)) of
                  (Some parent, Some blob) \<Rightarrow>
                    Some \<lparr>ch_cursor = hr_cursor r, ch_mutation = kind, ch_operation = operation, ch_object = object, ch_type = t,
                      ch_revision = hr_revision r, ch_parent = parent, ch_name = hr_name r, ch_blob = blob, ch_deleted = deleted, ch_state = []\<rparr>
                | _ \<Rightarrow> None))
      | _ \<Rightarrow> None)"

fun read_changes :: "ext \<Rightarrow> wire \<Rightarrow> change_reply list \<Rightarrow> client_change list option" where
  "read_changes x w [] = Some []"
| "read_changes x w (r # rs) = Option.bind (read_change x w r) (\<lambda>c. map_option ((#) c) (read_changes x w rs))"

definition pull_page_of :: "ext \<Rightarrow> wire \<Rightarrow> int \<Rightarrow> pull_reply \<Rightarrow> pull_page option" where
  "pull_page_of x w limit r =
     (case (pp_changes r, pp_more r, pp_next r) of
        (Some rs, Some further, Some nextCursor) \<Rightarrow>
          if nextCursor > MaxInt64 \<or> int (length rs) > limit then None
          else map_option (\<lambda>cs. \<lparr>pg_changes = cs, pg_more = further, pg_next = nextCursor\<rparr>) (read_changes x w rs)
      | _ \<Rightarrow> None)"

definition read_pull :: "ext \<Rightarrow> wire \<Rightarrow> int \<Rightarrow> http_response \<Rightarrow> remote_error + pull_page" where
  "read_pull x w limit a =
     (if rs_status a \<noteq> 200 then Inl (classify w a)
      else case decodeJSON w [''changes'', ''has_more'', ''next_cursor''] (read_struct pull_fields) no_pull_reply a of
        None \<Rightarrow> Inl ErrInvalidResponse
      | Some r \<Rightarrow> (case pull_page_of x w limit r of None \<Rightarrow> Inl ErrInvalidResponse | Some page \<Rightarrow> Inr page))"

section \<open>Blobs\<close>

definition client_max_blob :: nat where
  "client_max_blob = 8388608"

definition put_request :: "ext \<Rightarrow> string \<Rightarrow> string \<Rightarrow> string \<Rightarrow> remote_error + http_request" where
  "put_request x token hash content =
     (if length content > client_max_blob \<or> x_sha256 x content \<noteq> hash then Inl (RemoteInput ''invalid blob content'')
      else remote_request token ''PUT'' (''/v1/blobs/'' @ hex_encode hash) [] content ''application/octet-stream'')"

record put_reply =
  ur_hash :: string
  ur_size :: int

definition put_fields :: "(string \<times> put_reply reader) list" where
  "put_fields =
     [(''hash'', into read_string ur_hash (\<lambda>v. ur_hash_update (\<lambda>_. v))),
      (''size'', into read_int ur_size (\<lambda>v. ur_size_update (\<lambda>_. v)))]"

definition read_put :: "wire \<Rightarrow> string \<Rightarrow> string \<Rightarrow> http_response \<Rightarrow> remote_error + unit" where
  "read_put w hash content a =
     (if rs_status a \<noteq> 200 then Inl (classify w a)
      else case decodeJSON w [''hash'', ''size''] (read_struct put_fields) \<lparr>ur_hash = [], ur_size = 0\<rparr> a of
        None \<Rightarrow> Inl ErrInvalidResponse
      | Some r \<Rightarrow> if ur_hash r = hex_encode hash \<and> ur_size r = int (length content) then Inr () else Inl ErrInvalidResponse)"

definition get_request :: "string \<Rightarrow> string \<Rightarrow> remote_error + http_request" where
  "get_request token hash = remote_request token ''GET'' (''/v1/blobs/'' @ hex_encode hash) [] [] []"

text \<open>\<open>ResolveBlob\<close>: the length announced by the transport is that of its header, negative when there is none.\<close>

definition content_length :: "http_response \<Rightarrow> int" where
  "content_length a =
     (case header_values (rs_headers a) ''Content-Length'' of
        [v] \<Rightarrow> (case ParseUint63 v of Some n \<Rightarrow> int n | None \<Rightarrow> - 1)
      | _ \<Rightarrow> - 1)"

definition read_get :: "ext \<Rightarrow> wire \<Rightarrow> string \<Rightarrow> http_response \<Rightarrow> remote_error + string" where
  "read_get x w hash a =
     (if rs_status a \<noteq> 200
      then (case classify w a of RejectedError _ c \<Rightarrow> if c = ''blob_not_found'' then Inl RemoteBlobMissing else Inl (classify w a) | e \<Rightarrow> Inl e)
      else case header_values (rs_headers a) ''Content-Type'' of
        [v] \<Rightarrow>
          if w_media w v \<noteq> Some (''application/octet-stream'', []) then Inl ErrInvalidResponse
          else if content_length a < 0 \<or> content_length a > int client_max_blob then Inl ErrInvalidResponse
          else if int (length (rs_body a)) \<noteq> content_length a then Inl ErrInvalidResponse
          else if x_sha256 x (rs_body a) \<noteq> hash then Inl RemoteBlobHash
          else Inr (rs_body a)
      | _ \<Rightarrow> Inl ErrInvalidResponse)"

end
