(* ===== verification/Wire.thy ===== *)
theory Wire
  imports Api Remote
begin

text \<open>
  The two ends of the wire: what the client asks, the server reads, and what the server answers, the client
  reads. Every message is written by one program's encoder and read by the other program's strict decoder.
\<close>

section \<open>Scalars across the wire\<close>

lemma wire_parse: "wire_law x w \<Longrightarrow> w_uuid_parse w (x_uuid_string x u) = Some u"
  and wire_no_slash: "wire_law x w \<Longrightarrow> CHR ''/'' \<notin> set (x_uuid_string x u)"
  and wire_json_media: "wire_law x w \<Longrightarrow> w_media w json_media = Some (''application/json'', [(''charset'', ''utf-8'')])"
  and wire_plain_media: "wire_law x w \<Longrightarrow> w_media w ''application/json'' = Some (''application/json'', [])"
  by (auto simp: wire_law_def)

lemma string_36: "uuid_string_law x \<Longrightarrow> length (x_uuid_string x u) = 36"
  by (simp add: uuid_string_law_def)

lemma parse_v7: "wire_law x w \<Longrightarrow> uuid_string_law x \<Longrightarrow> validOperationID x u \<Longrightarrow> parseUUIDv7 x w (x_uuid_string x u) = Some u"
  by (simp add: parseUUIDv7_def wire_parse wire_no_slash string_36 validOperationID_def validObjectID_def)

lemma parse_object: "wire_law x w \<Longrightarrow> uuid_string_law x \<Longrightarrow> validObjectID x u \<Longrightarrow> parseSyncObjectID x w (x_uuid_string x u) = Some u"
  by (simp add: parseSyncObjectID_def wire_parse string_36 validObjectID_def)

lemma parse_hash: "length h = 32 \<Longrightarrow> parseBlobHash x (hex_encode h) = Some h"
  by (simp add: parseBlobHash_def length_hex_encode to_lower_hex hex_decode_encode)

lemma read_hash_encode: "length h = 32 \<Longrightarrow> read_hash (hex_encode h) = Some h"
  by (simp add: read_hash_def hex_decode_encode)

lemma canonical_v7: "wire_law x w \<Longrightarrow> validOperationID x u \<Longrightarrow> parse_canonical x w True (x_uuid_string x u) = Some u"
  by (simp add: parse_canonical_string validOperationID_def validObjectID_def)

lemma canonical_object: "wire_law x w \<Longrightarrow> validObjectID x u \<Longrightarrow> parse_canonical x w False (x_uuid_string x u) = Some u"
  by (simp add: parse_canonical_string validObjectID_def)

lemma kind_text_ascii: "known_mutation k \<Longrightarrow> is_ascii (kind_text k)"
  by (auto simp: known_mutation_def is_ascii_def code_def)

lemma type_text_ascii: "known_object_type t \<Longrightarrow> is_ascii (type_text t)"
  by (auto simp: known_object_type_def is_ascii_def code_def)

lemma kind_back: "known_mutation k \<Longrightarrow> kind_of_text (kind_text k) = k"
  by (auto simp: known_mutation_def kind_of_text_def)

lemma type_back: "known_object_type t \<Longrightarrow> type_of_text (type_text t) = t"
  by (auto simp: known_object_type_def type_of_text_def)

text \<open>The keys of the messages are ASCII.\<close>

declare valid_utf8.simps [simp del]

lemma keys_utf8 [wire_simps]:
  "valid_utf8 ''operation_id''" "valid_utf8 ''mutation''" "valid_utf8 ''object_id''" "valid_utf8 ''object_type''" "valid_utf8 ''base_revision''"
  "valid_utf8 ''parent_id''" "valid_utf8 ''name''" "valid_utf8 ''blob_hash''" "valid_utf8 ''revision''" "valid_utf8 ''deleted''"
  "valid_utf8 ''cursor''" "valid_utf8 ''changes''" "valid_utf8 ''has_more''" "valid_utf8 ''next_cursor''"
  "valid_utf8 ''accepted''" "valid_utf8 ''conflict''" "valid_utf8 ''canonical''" "valid_utf8 ''error''" "valid_utf8 ''hash''" "valid_utf8 ''size''"
  by (simp_all add: valid_utf8_ascii is_ascii_def code_def)

section \<open>Lengths\<close>

lemma length_json_byte: "length (json_byte c) \<le> 6"
  by (simp add: json_byte_def Let_def)

lemma length_json_chars: "length (json_chars s) \<le> 6 * length s"
proof (induction s rule: json_chars.induct)
  case (2 c cs)
  obtain r w where d: "decode_rune (c # cs) = (r, w)" by fastforce
  show ?case
  proof (cases "code c < 128")
    case True
    then show ?thesis using 2(1) [OF True] length_json_byte [of c] by simp
  next
    case False
    have "length (take w (c # cs)) + 6 * length (drop (w - 1) cs) \<le> 6 * length (c # cs)" by (cases w) auto
    moreover have "6 + 6 * length (drop (w - 1) cs) \<le> 6 * length (c # cs)" by simp
    moreover have "length (json_chars (drop (w - 1) cs)) \<le> 6 * length (drop (w - 1) cs)" by (rule 2(2) [OF False d [symmetric]])
    moreover obtain e where "json_chars (c # cs) = e @ json_chars (drop (w - 1) cs)" "length e \<le> 6 \<or> e = take w (c # cs)"
      using False d by (cases "r = rune_error \<and> w = 1"; cases "r = 8232 \<or> r = 8233") (simp_all del: decode_rune.simps)
    ultimately show ?thesis by auto
  qed
qed simp

lemma length_json_string: "length (json_string s) \<le> 2 + 6 * length s"
  using length_json_chars [of s] by (simp add: json_string_def)

lemma length_commas: "length (commas ss) \<le> sum_list (map length ss) + length ss"
  by (induction ss rule: commas.induct) auto

section \<open>Submissions\<close>

text \<open>The mutation as the server takes it: the columns of the outbox that stay local are gone.\<close>

definition sent_mutation :: "client_mutation \<Rightarrow> mutation" where
  "sent_mutation m =
     \<lparr>m_operation = cm_operation m, m_kind = cm_kind m, m_object = cm_object m, m_type = cm_type m, m_base = cm_base m,
      m_parent = cm_parent m, m_name = cm_name m, m_blob = cm_blob m\<rparr>"

lemma validMutationD:
  assumes "validateMutation x m = Inr u"
  shows "validOperationID x (cm_operation m)" "validObjectID x (cm_object m)" "known_object_type (cm_type m)" "known_mutation (cm_kind m)"
    "cm_parent m = Some p \<Longrightarrow> validObjectID x p" "cm_base m \<le> MaxInt64" "valid_utf8 (cm_name m)" "length (cm_name m) \<le> 180"
    "cm_blob m = [] \<or> length (cm_blob m) = 32"
proof -
  have shape: "mutation_shape_valid m" and known: "known_mutation (cm_kind m)"
    and name: "cm_kind m = MutationCreate \<or> cm_kind m = MutationMove \<Longrightarrow> valid_component x (cm_name m)"
    using assms by (auto simp: validateMutation_def split: if_splits)
  show "valid_utf8 (cm_name m)" "length (cm_name m) \<le> 180"
    using name shape known valid_utf8_ascii [of "[]"]
    by (auto simp: is_ascii_def known_mutation_def mutation_shape_valid_def valid_component_def ValidateComponent_def MaxComponentBytes_def split: if_splits)
  show "cm_blob m = [] \<or> length (cm_blob m) = 32" using shape known by (auto simp: known_mutation_def mutation_shape_valid_def)
qed (use assms in \<open>auto simp: validateMutation_def split: if_splits option.splits\<close>)

lemma mutation_json_ok:
  assumes "uuid_string_law x" and "validateMutation x m = Inr u"
  shows "json_ok (mutation_json x m)" "json_depth (mutation_json x m) \<le> maxNestingDepth" "distinct_keys (mutation_json x m)"
  using validMutationD [OF assms(2)] assms(1)
  by (simp_all add: mutation_json_def wire_simps maxNestingDepth_def valid_utf8_ascii kind_text_ascii type_text_ascii)

lemma length_mutation_json:
  assumes "uuid_string_law x" and "validateMutation x m = Inr u"
  shows "length (json_text (mutation_json x m)) \<le> maxJSONBodyBytes"
proof -
  note ok = validMutationD [OF assms(2)]
  have uuid: "length (json_text (json_uuid x v)) \<le> 218" for v
    using length_json_string [of "x_uuid_string x v"] string_36 [OF assms(1), of v] by (simp add: json_uuid_def)
  have parent: "length (json_text (json_option (json_uuid x) v)) \<le> 218" for v using uuid by (cases v) (simp_all add: json_option_def)
  have kind: "length (json_text (JString (kind_text (cm_kind m)))) \<le> 38"
    using length_json_string [of "kind_text (cm_kind m)"] ok(4) by (auto simp: known_mutation_def)
  have type: "length (json_text (JString (type_text (cm_type m)))) \<le> 38"
    using length_json_string [of "type_text (cm_type m)"] ok(3) by (auto simp: known_object_type_def)
  have base: "length (json_text (json_nat (cm_base m))) \<le> 19"
    using length_decimal [of "cm_base m" 18] ok(6) by (simp add: json_nat_def MaxInt64_def)
  have name: "length (json_text (JString (cm_name m))) \<le> 1082"
    using length_json_string [of "cm_name m"] ok(8) by simp
  have blob: "length (json_text (json_blob (cm_blob m))) \<le> 386"
    using length_json_string [of "hex_encode (cm_blob m)"] ok(9) by (auto simp: json_blob_def json_hash_def length_hex_encode)
  have key: "length (json_string k) \<le> 98" if "length k \<le> 16" for k using length_json_string [of k] that by simp
  show ?thesis
    using uuid [of "cm_operation m"] uuid [of "cm_object m"] parent [of "cm_parent m"] kind type base name blob
      key [of "''operation_id''"] key [of "''mutation''"] key [of "''object_id''"] key [of "''object_type''"] key [of "''base_revision''"]
      key [of "''parent_id''"] key [of "''name''"] key [of "''blob_hash''"]
    by (simp add: mutation_json_def maxJSONBodyBytes_def)
qed

text \<open>The server reads every mutation the client sends, as it is.\<close>

lemma server_reads_mutation:
  assumes "wire_law x w" and "uuid_string_law x" and "submit_request x token m = Inr rq"
  shows "\<exists>r. decodeStrictJSONFields w
        [''operation_id'', ''mutation'', ''object_id'', ''object_type'', ''base_revision'', ''parent_id'', ''name'', ''blob_hash'']
        (read_struct sync_fields) no_sync_request rq = Some r \<and> mapSyncMutation x w r = Some (sent_mutation m)"
proof -
  obtain u where valid: "validateMutation x m = Inr u" using assms(3) by (auto simp: submit_request_def split: sum.splits)
  note ok = validMutationD [OF valid]
  have rq: "rq_body rq = json_text (mutation_json x m)" "header_values (rq_headers rq) ''Content-Type'' = [''application/json'']"
    using assms(3) valid by (auto simp: submit_request_def remote_request_def header_values_def split: if_splits)
  define r where "r = \<lparr>sq_operation = x_uuid_string x (cm_operation m), sq_mutation = kind_text (cm_kind m), sq_object = x_uuid_string x (cm_object m),
    sq_type = type_text (cm_type m), sq_base = cm_base m, sq_parent = map_option (x_uuid_string x) (cm_parent m), sq_name = cm_name m,
    sq_blob = (if cm_blob m = [] then None else Some (hex_encode (cm_blob m)))\<rparr>"
  have base: "cm_base m < 2 ^ 64" "int64 (cm_base m)" using ok(6) by (simp_all add: MaxInt64_def int64_def)
  have "read_struct sync_fields (mutation_json x m) no_sync_request = Some r"
    using base by (simp add: read_struct_def mutation_json_def sync_fields_def field_named_def into_def wire_simps no_sync_request_def
      read_pointer_def json_option_def json_blob_def r_def split: option.split)
  moreover have "required_fields
      [''operation_id'', ''mutation'', ''object_id'', ''object_type'', ''base_revision'', ''parent_id'', ''name'', ''blob_hash''] [] (mutation_json x m)"
    by (simp add: required_fields_def mutation_json_def)
  ultimately have "decodeStrictJSONFields w
        [''operation_id'', ''mutation'', ''object_id'', ''object_type'', ''base_revision'', ''parent_id'', ''name'', ''blob_hash'']
        (read_struct sync_fields) no_sync_request rq = Some r"
    by (simp add: decodeStrictJSONFields_def rq wire_plain_media [OF assms(1)]
      decode_strict_body [OF mutation_json_ok [OF assms(2) valid] length_mutation_json [OF assms(2) valid]])
  moreover have "mapSyncMutation x w r = Some (sent_mutation m)"
  proof -
    have parent: "optional_with (parseSyncObjectID x w) (sq_parent r) = Some (cm_parent m)"
      using ok(5) parse_object [OF assms(1,2)] by (auto simp: r_def split: option.split)
    have blob: "optional_with (parseBlobHash x) (sq_blob r) = Some (if cm_blob m = [] then None else Some (cm_blob m))"
      using ok(9) parse_hash by (auto simp: r_def optional_with_def)
    have kinds: "cm_kind m \<in> {MutationCreate, MutationUpdate, MutationMove, MutationDelete}" "cm_type m \<in> {ObjectNote, ObjectFolder}"
      using ok(3,4) by (auto simp: known_mutation_def known_object_type_def)
    show ?thesis
      unfolding mapSyncMutation_def parent blob
      using kinds ok(1,2) base kind_back [OF ok(4)] type_back [OF ok(3)] parse_v7 [OF assms(1,2)] parse_object [OF assms(1,2)]
      by (auto simp: r_def sent_mutation_def Let_def)
  qed
  ultimately show ?thesis by blast
qed

section \<open>Answers\<close>

text \<open>What the server writes, the client decodes, up to the client's limit on the body.\<close>

lemma client_decodes:
  assumes "wire_law x w" and "map_of hs ''Content-Type'' = None" "rq_method rq \<noteq> ''HEAD''"
    and "json_ok j" "json_depth j \<le> maxNestingDepth" "distinct_keys j" "length (json_line j) \<le> limit"
  shows "decodeJSONNullableLimit w limit required nonNull r zero (writeJSON_with hs rq status j) =
    (if required_fields required nonNull j then r j zero else None)"
proof -
  have "validJSONContentType w (writeJSON_with hs rq status j)"
    using assms(1,2) by (simp add: validJSONContentType_def writeJSON_with_def header_values_def security_headers_def map_add_def wire_json_media)
  moreover have "rs_body (writeJSON_with hs rq status j) = json_line j" using assms(3) by (simp add: writeJSON_with_def)
  ultimately show ?thesis by (simp add: decodeJSONNullableLimit_def decode_strict_text [OF assms(4-7)])
qed

lemma rs_status_writeJSON [simp]: "rs_status (writeJSON_with hs rq status j) = status"
  by (simp add: writeJSON_with_def)

lemma length_json_line: "length (json_line j) = Suc (length (json_text j))"
  by (simp add: json_line_def)

text \<open>Codes of errors are ASCII words.\<close>

definition error_of :: "nat \<Rightarrow> string \<Rightarrow> remote_error" where
  "error_of status c =
     (if \<not> validAPIError status c then ErrInvalidResponse
      else if status = 401 then ErrReauthRequired
      else if status = 429 \<or> 500 \<le> status then ErrRetryable
      else if status = 409 \<and> c = ''operation_replay_mismatch'' then ErrReplayMismatch
      else RejectedError status c)"

lemma classify_written:
  assumes "wire_law x w" and "map_of hs ''Content-Type'' = None" "rq_method rq \<noteq> ''HEAD''"
    and "is_ascii c" "c \<noteq> []" "length c \<le> 100"
  shows "classify w (writeJSON_with hs rq status (error_json c)) = error_of status c"
proof -
  have len: "length (json_line (error_json c)) \<le> maxJSONBytes"
    using length_json_string [of c] length_json_string [of "''error''"] assms(6)
    by (simp add: length_json_line error_json_def maxJSONBytes_def)
  have ok: "json_ok (error_json c)" "json_depth (error_json c) \<le> maxNestingDepth" "distinct_keys (error_json c)"
    using assms(4) by (simp_all add: error_json_def wire_simps valid_utf8_ascii maxNestingDepth_def)
  have "decodeJSONNullableLimit w maxJSONBytes [] [] (read_struct [(''error'', read_string)]) [] (writeJSON_with hs rq status (error_json c)) = Some c"
    unfolding client_decodes [OF assms(1-3) ok len]
    by (simp add: required_fields_def error_json_def read_struct_def field_named_def)
  then show ?thesis using assms(5) by (simp add: classify_def error_of_def)
qed

text \<open>The errors of the synchronization core as the client understands them.\<close>

definition client_error_of :: "sync_error \<Rightarrow> remote_error" where
  "client_error_of e =
     (case e of
        ErrInvalidInput \<Rightarrow> RejectedError 400 ''invalid_request''
      | ErrInactiveActor \<Rightarrow> ErrReauthRequired
      | ErrBlobUnavailable \<Rightarrow> RejectedError 409 ''blob_unavailable''
      | ErrOperationReplayMismatch \<Rightarrow> ErrReplayMismatch
      | ErrPreserveDeleteUnavailable \<Rightarrow> RejectedError 409 ''preserve_delete_unavailable''
      | _ \<Rightarrow> ErrRetryable)"

lemmas writes = writeJSON_def writeAPIError_def

lemma classify_error:
  assumes "wire_law x w" "rq_method rq \<noteq> ''HEAD''"
  shows "classify w (writeAPIError rq 401 ''invalid_session'') = ErrReauthRequired"
    "classify w (internal_error rq) = ErrRetryable"
    "classify w (invalid_request rq) = RejectedError 400 ''invalid_request''"
    "classify w (writeRateLimited rq retry) = ErrRetryable"
    "classify w (writeSyncError rq e) = client_error_of e"
  by (auto simp: writes writeRateLimited_def writeSyncError_def client_error_of_def classify_written [OF assms(1) _ assms(2)] is_ascii_def code_def
      error_of_def validAPIError_def split: sync_error.split)

lemma read_object: "read_struct fs (JObject ms) s = read_members fs ms s"
  by (simp add: read_struct_def)

section \<open>Results of submissions\<close>

definition client_canonical_of :: "canonical_state \<Rightarrow> client_canonical" where
  "client_canonical_of v =
     \<lparr>cc_type = c_type v, cc_revision = c_revision v, cc_parent = c_parent v, cc_name = c_name v, cc_blob = c_blob v, cc_deleted = c_deleted v\<rparr>"

definition client_result_of :: "submit_result \<Rightarrow> client_result" where
  "client_result_of r =
     \<lparr>cr_accepted = r_accepted r, cr_conflict = (case r_conflict r of None \<Rightarrow> [] | Some k \<Rightarrow> conflict_text k),
      cr_revision = r_revision r, cr_cursor = r_cursor r, cr_canonical = map_option client_canonical_of (r_canonical r)\<rparr>"

text \<open>What an account's objects are like, as far as the client checks it.\<close>

definition canonical_ok :: "ext \<Rightarrow> canonical_state \<Rightarrow> bool" where
  "canonical_ok x v \<longleftrightarrow>
     known_object_type (c_type v) \<and> cursor_valid (c_revision v) \<and> (\<forall>p. c_parent v = Some p \<longrightarrow> validObjectID x p) \<and>
     valid_component x (c_name v) \<and> length (c_blob v) = (if c_type v = ObjectNote then 32 else 0)"

definition result_ok :: "ext \<Rightarrow> submit_result \<Rightarrow> bool" where
  "result_ok x r \<longleftrightarrow>
     (if r_accepted r then r_conflict r = None \<and> cursor_valid (r_revision r) \<and> cursor_valid (r_cursor r) \<and> r_canonical r = None
      else r_conflict r \<noteq> None \<and> r_revision r = 0 \<and> r_cursor r = 0 \<and> (\<forall>v. r_canonical r = Some v \<longrightarrow> canonical_ok x v))"

lemma valid_componentD: "valid_component x name \<Longrightarrow> valid_utf8 name \<and> length name \<le> 180"
  by (auto simp: valid_component_def ValidateComponent_def MaxComponentBytes_def split: if_splits)

lemma conflict_text_ascii: "is_ascii (conflict_text k)" "length (conflict_text k) \<le> 30"
  by (cases k; simp add: conflict_text_def is_ascii_def code_def)+

lemma validConflict_text: "validConflict (conflict_text k)"
  by (cases k) (simp_all add: validConflict_def conflict_text_def)

lemma length_json_uuid: "uuid_string_law x \<Longrightarrow> length (json_text (json_uuid x v)) \<le> 218"
  using length_json_string [of "x_uuid_string x v"] string_36 [of x v] by (simp add: json_uuid_def)

lemma length_json_parent: "uuid_string_law x \<Longrightarrow> length (json_text (json_option (json_uuid x) v)) \<le> 218"
  using length_json_uuid by (cases v) (simp_all add: json_option_def)

lemma length_json_cursor: "cursor_valid n \<Longrightarrow> length (json_text (json_nat n)) \<le> 19"
  using length_decimal [of n 18] by (simp add: json_nat_def cursor_valid_def MaxInt64_def)

lemma length_json_blob: "length b \<le> 32 \<Longrightarrow> length (json_text (json_blob b)) \<le> 386"
  using length_json_string [of "hex_encode b"] by (simp add: json_blob_def json_hash_def length_hex_encode)

lemma state_json_ok:
  assumes "uuid_string_law x" and ok: "canonical_ok x v"
  shows "json_ok (state_json x v)" "json_depth (state_json x v) = 1" "distinct_keys (state_json x v)"
    "length (json_text (state_json x v)) \<le> 4000"
proof -
  have t: "length (json_text (JString (type_text (c_type v)))) \<le> 38" "c_type v \<in> {ObjectNote, ObjectFolder}"
    using length_json_string [of "type_text (c_type v)"] ok by (auto simp: canonical_ok_def known_object_type_def)
  have n: "length (json_text (JString (c_name v))) \<le> 1082" "valid_utf8 (c_name v)"
    using length_json_string [of "c_name v"] ok valid_componentD [of x "c_name v"] by (simp_all add: canonical_ok_def)
  have key: "length (json_string k) \<le> 98" if "length k \<le> 16" for k using length_json_string [of k] that by simp
  have b: "length (c_blob v) \<le> 32" and r: "cursor_valid (c_revision v)" using ok by (auto simp: canonical_ok_def split: if_splits)
  show "json_ok (state_json x v)" "json_depth (state_json x v) = 1" "distinct_keys (state_json x v)"
    using assms(1) ok n(2) by (simp_all add: state_json_def canonical_ok_def wire_simps valid_utf8_ascii type_text_ascii)
  show "length (json_text (state_json x v)) \<le> 4000"
    using length_json_parent [OF assms(1), of "c_parent v"] length_json_cursor [OF r] length_json_blob [OF b] t(1) n(1)
      key [of "''object_type''"] key [of "''revision''"] key [of "''parent_id''"] key [of "''name''"] key [of "''blob_hash''"] key [of "''deleted''"]
    by (simp add: state_json_def)
qed

lemma submit_json_ok:
  assumes "uuid_string_law x" and ok: "result_ok x r"
  shows "json_ok (submit_json x r)" "json_depth (submit_json x r) \<le> maxNestingDepth" "distinct_keys (submit_json x r)"
    "length (json_line (submit_json x r)) \<le> maxJSONBytes"
proof -
  have can: "json_ok (json_option (state_json x) (r_canonical r))" "json_depth (json_option (state_json x) (r_canonical r)) \<le> 1"
    "distinct_keys (json_option (state_json x) (r_canonical r))" "length (json_text (json_option (state_json x) (r_canonical r))) \<le> 4000"
    if "\<not> r_accepted r"
    using that ok state_json_ok [OF assms(1)] by (auto simp: result_ok_def json_option_def split: option.split)
  have num: "length (json_text (json_nat (r_revision r))) \<le> 19 \<and> length (json_text (json_nat (r_cursor r))) \<le> 19" if "r_accepted r"
    using that ok length_json_cursor by (simp add: result_ok_def)
  have con: "length (json_string (conflict_text k)) \<le> 182" for k
    using length_json_string [of "conflict_text k"] conflict_text_ascii(2) [of k] by linarith
  have key: "length (json_string k) \<le> 98" if "length k \<le> 16" for k using length_json_string [of k] that by simp
  show "json_ok (submit_json x r)" "json_depth (submit_json x r) \<le> maxNestingDepth" "distinct_keys (submit_json x r)"
    using ok can conflict_text_ascii(1)
    by (auto simp: submit_json_def wire_simps valid_utf8_ascii maxNestingDepth_def result_ok_def)
  show "length (json_line (submit_json x r)) \<le> maxJSONBytes"
  proof (cases "r_accepted r")
    case True
    then show ?thesis
      using num key [of "''accepted''"] key [of "''conflict''"] key [of "''revision''"] key [of "''cursor''"] key [of "''canonical''"]
      by (simp add: submit_json_def length_json_line maxJSONBytes_def)
  next
    case False
    with ok obtain k where "r_conflict r = Some k" by (auto simp: result_ok_def)
    then show ?thesis
      using False can(4) con [of k] key [of "''accepted''"] key [of "''conflict''"] key [of "''revision''"] key [of "''cursor''"] key [of "''canonical''"]
      by (simp add: submit_json_def length_json_line maxJSONBytes_def)
  qed
qed

lemma read_canonical_written:
  assumes "wire_law x w" and ok: "canonical_ok x v"
  shows "\<exists>r. read_struct canonical_fields (state_json x v) no_canonical_reply = Some r \<and> read_canonical x w r = Some (client_canonical_of v)"
proof -
  define r where "r = \<lparr>cn_type = Some (type_text (c_type v)), cn_revision = Some (c_revision v), cn_parent = Some (json_option (json_uuid x) (c_parent v)),
    cn_name = Some (c_name v), cn_blob = Some (json_blob (c_blob v)), cn_deleted = Some (c_deleted v)\<rparr>"
  have rev: "cursor_valid (c_revision v)" and known: "known_object_type (c_type v)" using ok by (simp_all add: canonical_ok_def)
  then have "c_revision v < 2 ^ 64" by (simp add: cursor_valid_def MaxInt64_def)
  then have "read_struct canonical_fields (state_json x v) no_canonical_reply = Some r"
    by (simp add: read_struct_def state_json_def canonical_fields_def field_named_def into_def wire_simps no_canonical_reply_def
      read_pointer_def read_raw_def r_def)
  moreover have "read_pointer read_string [] (json_option (json_uuid x) (c_parent v)) None = Some (map_option (x_uuid_string x) (c_parent v))"
    by (simp add: wire_simps split: option.split)
  moreover have "read_pointer read_string [] (json_blob (c_blob v)) None = Some (if c_blob v = [] then None else Some (hex_encode (c_blob v)))"
    by (simp add: read_pointer_def json_blob_def wire_simps)
  moreover have "validateCanonicalConflict x w (type_text (c_type v)) (c_revision v) (map_option (x_uuid_string x) (c_parent v)) (c_name v)
      (if c_blob v = [] then None else Some (hex_encode (c_blob v))) (c_deleted v) = Some (client_canonical_of v)"
  proof -
    have p: "(case c_parent v of None \<Rightarrow> Some None | Some a \<Rightarrow> map_option Some (parse_canonical x w False (x_uuid_string x a))) = Some (c_parent v)"
      using ok canonical_object [OF assms(1)] by (auto simp: canonical_ok_def split: option.split)
    have b: "optional_with read_hash (if c_blob v = [] then None else Some (hex_encode (c_blob v))) = Some (if c_blob v = [] then None else Some (c_blob v))"
      using ok read_hash_encode by (auto simp: canonical_ok_def optional_with_def split: if_splits)
    show ?thesis
      unfolding validateCanonicalConflict_def type_back [OF known] b
      using ok rev known p by (auto simp: canonical_ok_def client_canonical_of_def cursor_valid_def clone_bytes_def known_object_type_def Let_def)
  qed
  ultimately show ?thesis by (auto simp: read_canonical_def r_def)
qed

text \<open>The client reads the result of a submission that the server answered with.\<close>

lemma client_reads_result:
  assumes "wire_law x w" and "uuid_string_law x" and "rq_method rq \<noteq> ''HEAD''" and ok: "result_ok x r"
  shows "read_submit x w (writeJSON rq 200 (submit_json x r)) = Inr (client_result_of r)"
proof -
  note decodes = client_decodes [OF assms(1) _ assms(3) submit_json_ok [OF assms(2) ok], of "[]"]
  have req: "required_fields [''accepted'', ''conflict'', ''revision'', ''cursor'', ''canonical''] [''accepted''] (submit_json x r)"
    by (simp add: required_fields_def submit_json_def)
  have "\<exists>q. read_struct submit_fields (submit_json x r) no_submit_reply = Some q \<and> submit_result_of x w q = Some (client_result_of r)"
  proof (cases "r_accepted r")
    case True
    then have n: "cursor_valid (r_revision r)" "cursor_valid (r_cursor r)" "r_conflict r = None" "r_canonical r = None"
      using ok by (simp_all add: result_ok_def)
    then have "r_revision r < 2 ^ 64" "r_cursor r < 2 ^ 64" by (simp_all add: cursor_valid_def MaxInt64_def)
    then show ?thesis
      using True n by (simp add: read_struct_def submit_json_def submit_fields_def field_named_def into_def wire_simps no_submit_reply_def
        read_pointer_def submit_result_of_def client_result_of_def)
  next
    case False
    then obtain k where k: "r_conflict r = Some k" "r_revision r = 0" "r_cursor r = 0" and can: "\<forall>v. r_canonical r = Some v \<longrightarrow> canonical_ok x v"
      using ok by (auto simp: result_ok_def)
    show ?thesis
    proof (cases "r_canonical r")
      case None
      then show ?thesis
        using False k by (simp add: read_struct_def submit_json_def submit_fields_def field_named_def into_def wire_simps no_submit_reply_def
          read_pointer_def submit_result_of_def client_result_of_def json_option_def validConflict_text optional_with_def)
    next
      case (Some v)
      with can read_canonical_written [OF assms(1), of v] obtain q where
        q: "read_struct canonical_fields (state_json x v) no_canonical_reply = Some q" "read_canonical x w q = Some (client_canonical_of v)" by blast
      have "state_json x v \<noteq> JNull" by (simp add: state_json_def)
      with q show ?thesis
        using False k Some by (simp add: read_object submit_json_def submit_fields_def field_named_def into_def no_submit_reply_def
          read_pointer_def submit_result_of_def client_result_of_def json_option_def validConflict_text optional_with_def)
    qed
  qed
  then show ?thesis by (auto simp: read_submit_def writes decodes req)
qed

section \<open>Pages of the feed\<close>

definition client_change_of :: "version_state \<Rightarrow> client_change" where
  "client_change_of v =
     \<lparr>ch_cursor = v_cursor v, ch_mutation = v_mutation v, ch_operation = v_operation v, ch_object = v_object v, ch_type = v_type v,
      ch_revision = v_revision v, ch_parent = v_parent v, ch_name = v_name v, ch_blob = (if v_blob v = [] then None else Some (v_blob v)),
      ch_deleted = v_deleted v, ch_state = []\<rparr>"

text \<open>A change the client accepts when it arrives.\<close>

definition version_ok :: "ext \<Rightarrow> version_state \<Rightarrow> bool" where
  "version_ok x v \<longleftrightarrow>
     cursor_valid (v_cursor v) \<and> cursor_valid (v_revision v) \<and> validOperationID x (v_operation v) \<and> validObjectID x (v_object v) \<and>
     known_mutation (v_mutation v) \<and> known_object_type (v_type v) \<and> v_deleted v = (v_mutation v = MutationDelete) \<and>
     (\<forall>p. v_parent v = Some p \<longrightarrow> validObjectID x p) \<and> valid_utf8 (v_name v) \<and> (v_blob v = [] \<or> length (v_blob v) = 32)"

lemma change_json_ok:
  assumes "uuid_string_law x" and "version_ok x v"
  shows "json_ok (change_json x v)" "json_depth (change_json x v) = 1" "distinct_keys (change_json x v)"
  using assms by (simp_all add: version_ok_def change_json_def wire_simps valid_utf8_ascii kind_text_ascii type_text_ascii)

lemma pull_json_ok:
  assumes "uuid_string_law x" and "\<forall>v\<in>set (p_changes r). version_ok x v"
  shows "json_ok (pull_json x r)" "json_depth (pull_json x r) \<le> maxNestingDepth" "distinct_keys (pull_json x r)"
proof -
  have "foldr max (map json_depth (map (change_json x) vs)) 0 \<le> 1" if "\<forall>v\<in>set vs. version_ok x v" for vs
    using that change_json_ok [OF assms(1)] by (induction vs) auto
  from this [OF assms(2)] show "json_depth (pull_json x r) \<le> maxNestingDepth"
    by (simp add: pull_json_def wire_simps maxNestingDepth_def)
  show "json_ok (pull_json x r)" "distinct_keys (pull_json x r)"
    using change_json_ok [OF assms(1)] assms(2) by (auto simp: pull_json_def wire_simps list_all_iff)
qed

definition change_reply_of :: "ext \<Rightarrow> version_state \<Rightarrow> change_reply" where
  "change_reply_of x v =
     \<lparr>hr_cursor = v_cursor v, hr_mutation = kind_text (v_mutation v), hr_operation = x_uuid_string x (v_operation v),
      hr_object = x_uuid_string x (v_object v), hr_type = type_text (v_type v), hr_revision = v_revision v,
      hr_parent = map_option (x_uuid_string x) (v_parent v), hr_name = v_name v,
      hr_blob = (if v_blob v = [] then None else Some (hex_encode (v_blob v))), hr_deleted = Some (v_deleted v)\<rparr>"

lemma read_change_json:
  assumes "version_ok x v"
  shows "read_struct change_fields (change_json x v) no_change_reply = Some (change_reply_of x v)"
proof -
  have "v_cursor v < 2 ^ 64" "v_revision v < 2 ^ 64" using assms by (simp_all add: version_ok_def cursor_valid_def MaxInt64_def)
  then show ?thesis
    by (simp add: read_object change_json_def change_fields_def field_named_def into_def wire_simps no_change_reply_def change_reply_of_def
      read_pointer_def json_option_def json_blob_def split: option.split)
qed

lemma read_change_reply:
  assumes "wire_law x w" and "version_ok x v"
  shows "read_change x w (change_reply_of x v) = Some (client_change_of v)"
proof -
  have p: "optional_with (parse_canonical x w False) (map_option (x_uuid_string x) (v_parent v)) = Some (v_parent v)"
    using assms canonical_object [OF assms(1)] by (auto simp: version_ok_def split: option.split)
  have b: "optional_with read_hash (if v_blob v = [] then None else Some (hex_encode (v_blob v))) = Some (if v_blob v = [] then None else Some (v_blob v))"
    using assms(2) read_hash_encode by (auto simp: version_ok_def optional_with_def)
  show ?thesis
    using assms(2) canonical_v7 [OF assms(1)] canonical_object [OF assms(1)] p b
    by (simp add: read_change_def change_reply_of_def version_ok_def kind_back type_back client_change_of_def Let_def)
qed

lemma read_pull_changes:
  assumes "wire_law x w" and "\<forall>v\<in>set vs. version_ok x v"
  shows "read_elements (read_struct change_fields) no_change_reply (map (change_json x) vs) [] = Some (map (change_reply_of x) vs)"
    "read_changes x w (map (change_reply_of x) vs) = Some (map client_change_of vs)"
  using assms(2) by (induction vs) (simp_all add: read_change_json read_change_reply [OF assms(1)])

text \<open>The client reads the page the server answered with, unless the body exceeds its limit; then it never does.\<close>

lemma client_reads_page:
  assumes "wire_law x w" and "uuid_string_law x" and "rq_method rq \<noteq> ''HEAD''"
    and ok: "\<forall>v\<in>set (p_changes r). version_ok x v" and "int (length (p_changes r)) \<le> limit" "p_next r \<le> MaxInt64"
  shows "read_pull x w limit (writeJSON rq 200 (pull_json x r)) =
    (if length (json_line (pull_json x r)) \<le> maxJSONBytes
     then Inr \<lparr>pg_changes = map client_change_of (p_changes r), pg_more = p_more r, pg_next = p_next r\<rparr>
     else Inl ErrInvalidResponse)"
proof (cases "length (json_line (pull_json x r)) \<le> maxJSONBytes")
  case True
  note decodes = client_decodes [OF assms(1) _ assms(3) pull_json_ok [OF assms(2) ok] True, of "[]"]
  have req: "required_fields [''changes'', ''has_more'', ''next_cursor''] [''changes'', ''has_more'', ''next_cursor''] (pull_json x r)"
    by (simp add: required_fields_def pull_json_def wire_simps)
  have "p_next r < 2 ^ 64" using assms(6) by (simp add: MaxInt64_def)
  then have "read_struct pull_fields (pull_json x r) no_pull_reply =
      Some \<lparr>pp_changes = Some (map (change_reply_of x) (p_changes r)), pp_more = Some (p_more r), pp_next = Some (p_next r)\<rparr>"
    using read_pull_changes(1) [OF assms(1) ok]
    by (simp add: read_object pull_json_def pull_fields_def field_named_def into_def no_pull_reply_def read_slice_def read_pointer_def wire_simps)
  then show ?thesis
    using True assms(5,6) read_pull_changes(2) [OF assms(1) ok]
    by (simp add: read_pull_def writes decodeJSON_def decodes req pull_page_of_def)
next
  case False
  then show ?thesis using assms(3)
    by (simp add: read_pull_def decodeJSON_def decodeJSONNullableLimit_def decode_strict_def writeJSON_def writeJSON_with_def)
qed

section \<open>Calls through the handler\<close>

text \<open>
  Calls of the client through the server's handler: the answer the client reads is the result of the
  operation of the synchronization core, or the error that stands for it.
\<close>

subsection \<open>Tokens\<close>

lemma b64_encode_values: "c \<in> set (b64_encode s) \<Longrightarrow> b64_value c \<noteq> None"
  by (induction s rule: b64_encode.induct) (auto simp: b64_value_char b64_parts)

lemma token_chars:
  assumes "parseAndHash x token domain = Inr h"
  shows "length token = 43" "list_ex (\<lambda>c. c \<in> set [CHR '' '', CHR 0x09, CHR 0x0D, CHR 0x0A, CHR '','']) token = False"
proof -
  obtain raw where raw: "token = b64_encode raw" "length token = 43"
    using assms by (auto simp: parseAndHash_def split: if_splits option.splits)
  have "b64_value c = None" if "c \<in> set [CHR '' '', CHR 0x09, CHR 0x0D, CHR 0x0A, CHR '','']" for c
    using that by (auto simp: b64_value_def in_range_def code_def)
  then have "c \<notin> set [CHR '' '', CHR 0x09, CHR 0x0D, CHR 0x0A, CHR '','']" if "c \<in> set token" for c
    using that b64_encode_values [of c raw] unfolding raw(1) by metis
  then show "list_ex (\<lambda>c. c \<in> set [CHR '' '', CHR 0x09, CHR 0x0D, CHR 0x0A, CHR '','']) token = False"
    unfolding list_ex_iff by blast
  show "length token = 43" by (rule raw(2))
qed

text \<open>The session of a request that carries a token.\<close>

lemma authenticate_token:
  assumes "header_values (rq_headers rq) ''Authorization'' = [''Bearer '' @ token]"
  shows "authenticate c cl rq d =
    (case AuthenticateAccess (cfg_ext c) (cl_now cl) token d of
       Inl ErrUnauthenticated \<Rightarrow> Inl (writeAPIError rq 401 ''invalid_session'')
     | Inl _ \<Rightarrow> Inl (internal_error rq)
     | Inr p \<Rightarrow> Inr (token, p))"
proof (cases "parseAndHash (cfg_ext c) token accessDomain")
  case (Inl e)
  then have "AuthenticateAccess (cfg_ext c) (cl_now cl) token d = Inl ErrUnauthenticated"
    by (auto simp: AuthenticateAccess_def parseAndHash_def split: if_splits option.splits)
  then show ?thesis using assms by (auto simp: authenticate_def bearerToken_def has_prefix_def Let_def)
next
  case (Inr h)
  from token_chars [OF Inr] have "bearerToken rq = Some token"
    using assms by (simp add: bearerToken_def has_prefix_def)
  then show ?thesis by (simp add: authenticate_def)
qed

subsection \<open>Calls\<close>

text \<open>A call of the client: the request, the server's step, the answer as it is read.\<close>

definition call :: "api_config \<Rightarrow> api_call \<Rightarrow> (http_response \<Rightarrow> remote_error + 'a) \<Rightarrow> remote_error + http_request \<Rightarrow> api_state \<Rightarrow> (remote_error + 'a) \<times> api_state" where
  "call c cl read request s =
     (case request of
        Inl e \<Rightarrow> (Inl e, s)
      | Inr rq \<Rightarrow> (case ServeHTTP c cl rq s of (a, s') \<Rightarrow> (rbind (remote_response (Some a)) read, s')))"

text \<open>What a call of the synchronization core amounts to for the holder of a token.\<close>

definition core_call ::
  "api_config \<Rightarrow> api_call \<Rightarrow> string \<Rightarrow> (actor \<Rightarrow> db \<Rightarrow> (sync_error + 'a) \<times> db) \<Rightarrow> api_state \<Rightarrow> (remote_error + 'a) \<times> api_state" where
  "core_call c cl token operation s =
     (case AuthenticateAccess (cfg_ext c) (cl_now cl) token (as_db s) of
        Inl e \<Rightarrow> (Inl (if e = ErrUnauthenticated then ErrReauthRequired else ErrRetryable), s)
      | Inr p \<Rightarrow>
          (case ForActor (cfg_ext c) (pr_user p) (pr_device p) of
             Inl _ \<Rightarrow> (Inl ErrRetryable, s)
           | Inr a \<Rightarrow>
               if \<not> cl_slot cl then (Inl ErrRetryable, s)
               else (case operation a (as_db s) of
                 (Inl e, d) \<Rightarrow> (Inl (client_error_of e), s\<lparr>as_db := d\<rparr>)
               | (Inr r, d) \<Rightarrow> (Inr r, s\<lparr>as_db := d\<rparr>))))"

lemma core_call_read:
  assumes "wire_law x w" "rq_method rq \<noteq> ''HEAD''" and x: "x = cfg_ext c" "w = ac_wire c"
    and errors: "\<And>a. rs_status a \<noteq> 200 \<Longrightarrow> read a = Inl (classify w a)"
    and results: "\<And>p a r d. AuthenticateAccess x (cl_now cl) token (as_db s) = Inr p \<Longrightarrow> ForActor x (pr_user p) (pr_device p) = Inr a \<Longrightarrow>
      operation a (as_db s) = (Inr r, d) \<Longrightarrow> read (writeJSON rq 200 (f r)) = Inr (g r)"
    and token: "header_values (rq_headers rq) ''Authorization'' = [''Bearer '' @ token]"
    and serves: "ServeHTTP c cl rq s =
      (case authenticate c cl rq (as_db s) of
         Inl a \<Rightarrow> (a, s)
       | Inr (_, p) \<Rightarrow> sync_call c cl rq p (\<lambda>a d. answer_with f (operation a d)) s)"
  shows "call c cl read (Inr rq) s = core_call c cl token (\<lambda>a d. case operation a d of (r, d') \<Rightarrow> (map_sum id g r, d')) s"
proof -
  note cls = classify_error [OF assms(1,2)]
  have st: "rs_status (writeAPIError rq n e) = n" "rs_status (writeRateLimited rq t) = 429" "rs_status (writeJSON rq n j) = n" for n e t j
    by (simp_all add: writes writeRateLimited_def)
  have sync: "rs_status (writeSyncError rq e) \<noteq> 200" "\<not> rs_status (writeSyncError rq e) < 400" for e
    by (cases e; simp add: writeSyncError_def st)+
  show ?thesis
  proof (cases "AuthenticateAccess (cfg_ext c) (cl_now cl) token (as_db s)")
    case (Inl e)
    then show ?thesis using errors cls
      by (cases e) (simp_all add: call_def serves authenticate_token [OF token] core_call_def remote_response_def st)
  next
    case (Inr p)
    show ?thesis
    proof (cases "ForActor (cfg_ext c) (pr_user p) (pr_device p)")
      case Inl': (Inl e)
      then show ?thesis using Inr errors cls
        by (simp add: call_def serves authenticate_token [OF token] core_call_def remote_response_def st sync_call_def)
    next
      case Inr': (Inr a)
      obtain r d where run: "operation a (as_db s) = (r, d)" by fastforce
      show ?thesis
        using Inr Inr' run errors cls sync results [of p a] x(1)
        by (cases r) (simp_all add: call_def serves authenticate_token [OF token] core_call_def remote_response_def st sync_call_def answer_with_def)
    qed
  qed
qed

lemma request_fields:
  assumes "remote_request token rmethod path query body media = Inr rq"
  shows "rq_method rq = rmethod" "rq_path rq = path" "rq_query rq = query" "rq_body rq = body" "rq_length rq = int (length body)"
    "header_values (rq_headers rq) ''Authorization'' = [''Bearer '' @ token]"
    "header_values (rq_headers rq) ''Content-Type'' = (if media = [] then [] else [media])"
  using assms by (auto simp: remote_request_def header_values_def split: if_splits)

lemma submit_call:
  assumes x: "x = cfg_ext c" "w = ac_wire c" and laws: "wire_law x w" "uuid_string_law x" and request: "submit_request x token m = Inr rq"
    and results: "\<And>p a r d. AuthenticateAccess x (cl_now cl) token (as_db s) = Inr p \<Longrightarrow> ForActor x (pr_user p) (pr_device p) = Inr a \<Longrightarrow>
      Submit x a (cl_now cl) (cl_fresh cl) (sent_mutation m) (as_db s) = (Inr r, d) \<Longrightarrow> result_ok x r"
  shows "call c cl (read_submit x w) (submit_request x token m) s =
    core_call c cl token (\<lambda>a d. case Submit x a (cl_now cl) (cl_fresh cl) (sent_mutation m) d of (r, d') \<Rightarrow> (map_sum id client_result_of r, d')) s"
proof -
  from request have "remote_request token ''POST'' ''/v1/sync/operations'' [] (json_text (mutation_json x m)) ''application/json'' = Inr rq"
    by (auto simp: submit_request_def split: sum.splits)
  note rq = request_fields [OF this]
  from server_reads_mutation [OF laws request] obtain r where
    r: "decodeStrictJSONFields w [''operation_id'', ''mutation'', ''object_id'', ''object_type'', ''base_revision'', ''parent_id'', ''name'', ''blob_hash'']
        (read_struct sync_fields) no_sync_request rq = Some r" "mapSyncMutation x w r = Some (sent_mutation m)" by blast
  have "ServeHTTP c cl rq s = submitSync c cl rq s"
    using rq(2,3) by (simp add: ServeHTTP_def Let_def onePathSegment_def has_prefix_def)
  then have "ServeHTTP c cl rq s =
      (case authenticate c cl rq (as_db s) of
         Inl a \<Rightarrow> (a, s)
       | Inr (_, p) \<Rightarrow> sync_call c cl rq p (\<lambda>a d. answer_with (submit_json x) (Submit x a (cl_now cl) (cl_fresh cl) (sent_mutation m) d)) s)"
    using rq(1) r by (simp add: submitSync_def x split: sum.split)
  from core_call_read [OF laws(1) _ x _ _ rq(6) this, where read = "read_submit x w" and g = client_result_of] request
  show ?thesis using rq(1) client_reads_result [OF laws, of rq] results by (simp add: read_submit_def)
qed

subsection \<open>Pulling\<close>

lemma decimal_plain: "CHR ''&'' \<notin> set (decimal n)" "CHR ''='' \<notin> set (decimal n)"
  using decimal_code [of "CHR ''&''" n] decimal_code [of "CHR ''=''" n] by (auto simp: code_def)

lemma pull_query_read:
  assumes "after \<le> MaxInt64" "0 < limit" "limit \<le> 500"
  shows "parseSyncQuery (''after='' @ decimal after @ ''&limit='' @ decimal (nat limit)) = Some (after, limit)"
proof -
  have amp: "CHR ''&'' \<notin> set (''after='' @ decimal after)" "CHR ''&'' \<notin> set (''limit='' @ decimal (nat limit))" using decimal_plain by auto
  have split: "split_on (CHR ''&'') (''after='' @ decimal after @ ''&limit='' @ decimal (nat limit)) = [''after='' @ decimal after, ''limit='' @ decimal (nat limit)]"
    using split_on_append [OF amp(1), of "''limit='' @ decimal (nat limit)"] split_on_no_sep [OF amp(2)] by simp
  have canon: "parseCanonicalUint (decimal after) = Some after" "parseCanonicalUint (decimal (nat limit)) = Some (nat limit)"
    using assms by (simp_all add: parseCanonicalUint_def ParseUint64_decimal MaxInt64_def)
  have "query_values [''after='' @ decimal after, ''limit='' @ decimal (nat limit)] [] = Some [(''limit'', decimal (nat limit)), (''after'', decimal after)]"
    by (simp add: cut_before_def decimal_not_Nil Let_def)
  then show ?thesis using assms canon unfolding parseSyncQuery_def split by (simp add: int64_def MaxInt64_def maxSyncPullLimit_def)
qed

lemma pull_page_bounds:
  assumes "after \<le> MaxInt64" and "\<forall>v\<in>set (change_feed d u). cursor_valid (v_cursor v)"
  shows "set (p_changes (pull_page d u after l)) \<subseteq> set (change_feed d u)" "length (p_changes (pull_page d u after l)) \<le> l"
    "p_next (pull_page d u after l) \<le> MaxInt64"
proof -
  show sub: "set (p_changes (pull_page d u after l)) \<subseteq> set (change_feed d u)"
    by (auto simp: pull_page_def Let_def dest!: in_set_takeD split: if_splits)
  show "length (p_changes (pull_page d u after l)) \<le> l" by (auto simp: pull_page_def Let_def)
  have "p_next (pull_page d u after l) = after \<or> p_next (pull_page d u after l) \<in> v_cursor ` set (p_changes (pull_page d u after l))"
    by (auto simp: pull_page_def Let_def)
  then show "p_next (pull_page d u after l) \<le> MaxInt64" using assms sub by (auto simp: cursor_valid_def)
qed

definition page_of :: "pull_result \<Rightarrow> pull_page" where
  "page_of r = \<lparr>pg_changes = map client_change_of (p_changes r), pg_more = p_more r, pg_next = p_next r\<rparr>"

definition fits :: "ext \<Rightarrow> pull_result \<Rightarrow> bool" where
  "fits x r \<longleftrightarrow> length (json_line (pull_json x r)) \<le> maxJSONBytes"

lemma pull_serves:
  assumes "w = ac_wire c" "x = cfg_ext c" and request: "pull_request token after limit = Inr rq"
  shows "rq_method rq = ''GET''" "header_values (rq_headers rq) ''Authorization'' = [''Bearer '' @ token]"
    "ServeHTTP c cl rq s =
      (case authenticate c cl rq (as_db s) of
         Inl a \<Rightarrow> (a, s)
       | Inr (_, p) \<Rightarrow> sync_call c cl rq p (\<lambda>a d. answer_with (pull_json x) (Pull a after limit d, d)) s)"
    "after \<le> MaxInt64" "0 < limit"
proof -
  from request have bounds: "after \<le> MaxInt64" "0 < limit" "limit \<le> 500"
    and rq': "remote_request token ''GET'' ''/v1/sync/changes'' (''after='' @ decimal after @ ''&limit='' @ decimal (nat limit)) [] [] = Inr rq"
    by (auto simp: pull_request_def split: if_splits)
  note rq = request_fields [OF rq']
  show "rq_method rq = ''GET''" "header_values (rq_headers rq) ''Authorization'' = [''Bearer '' @ token]" "after \<le> MaxInt64" "0 < limit"
    using rq bounds by simp_all
  have "ServeHTTP c cl rq s = pullSync c cl rq s"
    using rq(2,3) by (simp add: ServeHTTP_def Let_def onePathSegment_def has_prefix_def)
  then show "ServeHTTP c cl rq s =
      (case authenticate c cl rq (as_db s) of
         Inl a \<Rightarrow> (a, s)
       | Inr (_, p) \<Rightarrow> sync_call c cl rq p (\<lambda>a d. answer_with (pull_json x) (Pull a after limit d, d)) s)"
    using rq(1) pull_query_read [OF bounds] unfolding pullSync_def rq(3)
    by (simp add: rq(4) requireEmptyBody_def assms(2) split: sum.split)
qed

lemma pull_call:
  assumes x: "x = cfg_ext c" "w = ac_wire c" and laws: "wire_law x w" "uuid_string_law x" and request: "pull_request token after limit = Inr rq"
    and feed: "\<And>p v. AuthenticateAccess x (cl_now cl) token (as_db s) = Inr p \<Longrightarrow> v \<in> set (change_feed (as_db s) (pr_user p)) \<Longrightarrow> version_ok x v"
    and fit: "\<And>p a r. AuthenticateAccess x (cl_now cl) token (as_db s) = Inr p \<Longrightarrow> ForActor x (pr_user p) (pr_device p) = Inr a \<Longrightarrow>
      Pull a after limit (as_db s) = Inr r \<Longrightarrow> fits x r"
  shows "call c cl (read_pull x w limit) (pull_request token after limit) s =
    core_call c cl token (\<lambda>a d. (map_sum id page_of (Pull a after limit d), d)) s"
proof -
  note rq = pull_serves [OF x(2,1) request]
  have reads: "read_pull x w limit (writeJSON rq 200 (pull_json x r)) = Inr (page_of r)" 
    if p: "AuthenticateAccess x (cl_now cl) token (as_db s) = Inr p" "ForActor x (pr_user p) (pr_device p) = Inr a" "Pull a after limit (as_db s) = Inr r" for p a r
  proof -
    from p(2) have u: "a_user a = pr_user p" by (auto simp: ForActor_def split: if_splits)
    from p(3) have r: "r = pull_page (as_db s) (a_user a) after (nat limit)" using rq(5) by (auto simp: Pull_def rbind_Inr_iff Let_def split: if_splits)
    have cursors: "\<forall>v\<in>set (change_feed (as_db s) (a_user a)). cursor_valid (v_cursor v)" using feed [OF p(1)] u by (auto simp: version_ok_def)
    note b = pull_page_bounds [OF rq(4) cursors]
    have "\<forall>v\<in>set (p_changes r). version_ok x v" using b(1) [of "nat limit"] feed [OF p(1)] u by (auto simp: r)
    moreover have "int (length (p_changes r)) \<le> limit" "p_next r \<le> MaxInt64" using b(2,3) [of "nat limit"] rq(5) by (simp_all add: r nat_le_iff)
    ultimately show ?thesis using client_reads_page [OF laws, of rq r limit] fit [OF p] rq(1) by (simp add: fits_def page_of_def)
  qed
  from core_call_read [OF laws(1) _ x _ _ rq(2,3), where read = "read_pull x w limit" and g = page_of] request
  show ?thesis using rq(1) reads by (simp add: read_pull_def)
qed

subsection \<open>Pages beyond the limit\<close>

text \<open>A page whose text is longer than the client's limit is never read, however often it is asked for.\<close>

lemma length_page:
  assumes "\<forall>v\<in>set vs. n \<le> length (json_chars (v_name v))"
  shows "n * length vs \<le> length (commas (map json_text (map (change_json x) vs)))"
  using assms
proof (induction vs)
  case (Cons v vs)
  have "n \<le> length (json_text (change_json x v))" using Cons.prems by (simp add: change_json_def json_string_def)
  then show ?case using Cons by (cases vs) auto
qed simp

lemma json_ampersands: "length (json_chars (replicate n (CHR ''&''))) = 6 * n"
  by (induction n) (simp_all add: json_byte_def Let_def code_def)

lemma page_too_long:
  assumes x: "x = cfg_ext c" "w = ac_wire c" and request: "pull_request token after 100 = Inr rq"
    and session: "AuthenticateAccess x (cl_now cl) token (as_db s) = Inr p" "ForActor x (pr_user p) (pr_device p) = Inr a" "cl_slot cl"
    and page: "Pull a after 100 (as_db s) = Inr r" "length (p_changes r) = 100" "\<forall>v\<in>set (p_changes r). v_name v = replicate 180 (CHR ''&'')"
  shows "call c cl (read_pull x w 100) (pull_request token after 100) s = (Inl ErrInvalidResponse, s)"
proof -
  note rq = pull_serves [OF x(2,1) request]
  have "1080 \<le> length (json_chars (v_name v))" if "v \<in> set (p_changes r)" for v
    using page(3) that by (simp add: json_ampersands)
  then have "1080 * 100 \<le> length (commas (map json_text (map (change_json x) (p_changes r))))"
    using length_page [of "p_changes r" 1080 x] page(2) by simp
  then have "maxJSONBytes < length (json_line (pull_json x r))"
    by (simp add: length_json_line pull_json_def maxJSONBytes_def)
  then have "read_pull x w 100 (writeJSON rq 200 (pull_json x r)) = Inl ErrInvalidResponse"
    using rq(1) by (simp add: read_pull_def decodeJSON_def decodeJSONNullableLimit_def decode_strict_def writeJSON_def writeJSON_with_def)
  moreover have "rs_status (writeJSON rq 200 j) = 200" for j by (simp add: writes)
  ultimately show ?thesis
    using session page(1) request x
    by (simp add: call_def rq(3) authenticate_token [OF rq(2)] sync_call_def answer_with_def remote_response_def)
qed

end
