(* ===== verification/Blob_Safety.thy ===== *)
theory Blob_Safety
  imports Blob_Store
begin

text \<open>
  The store of contents stays sound: uploads leave nothing staged, never exceed a quota, every registered
  blob has its file, and an audit finds nothing wrong, whatever order of uploads, failures included.
\<close>

section \<open>An upload taken apart\<close>

lemma Put_cases:
  assumes "Put x quota u tokens source hash s d = (r, s', d')"
  obtains (refused) e where "r = Inl e" "bs_root s' = bs_root s" "d' = d"
  | (unpublished) e n content s1 where "r = Inl e" "createStage tokens s = Inr n" "x_sha256 x content = hash"
      "publish x n content hash (write_stage n content s) = (Some e, s1)" "s' = remove_stage n s1" "d' = d"
  | (unregistered) e n content where "r = Inl e" "createStage tokens s = Inr n" "x_sha256 x content = hash" "length content \<le> MaxBlobBytes"
      "publish x n content hash (write_stage n content s) = (None, s')" "d' = d"
  | (stored) n content d1 where "r = Inr (length content)" "createStage tokens s = Inr n" "\<not> bs_closed s" "read_source source = Inr content"
      "x_sha256 x content = hash" "length content \<le> MaxBlobBytes" "user_active d u"
      "\<not> quota_exceeded quota u hash (length content) d" "publish x n content hash (write_stage n content s) = (None, s')"
      "register_blob hash (length content) d = Inr d1" "d' = grant_blob u hash d1"
proof (cases "bs_closed s")
  case True
  then show thesis using assms by (intro refused [of BlobClosed]) (auto simp: Put_def)
next
  case usable: False
  show thesis
  proof (cases "createStage tokens s")
    case (Inl e)
    then show thesis using assms usable by (intro refused [of e]) (auto simp: Put_def)
  next
    case n: (Inr n)
    show thesis
    proof (cases "read_source source")
      case (Inl e)
      then have "bs_root s' = bs_root s" "d' = d" "r = Inl e"
        using assms usable n by (auto simp: Put_def remove_stage_def write_stage_def)
      then show thesis using refused by blast
    next
      case content: (Inr content)
      let ?s = "write_stage n content s"
      show thesis
      proof (cases "MaxBlobBytes < length content \<or> x_sha256 x content \<noteq> hash")
        case True
        then have "bs_root s' = bs_root s \<and> d' = d \<and> (\<exists>e. r = Inl e)"
          using assms usable n content by (auto simp: Put_def Let_def remove_stage_def write_stage_def split: if_splits)
        then show thesis using refused by blast
      next
        case False
        then have tx: "put_tx x quota u n content hash ?s d = (r, s', d')" using assms usable n content by (simp add: Put_def Let_def)
        show thesis
        proof (cases "\<not> user_active d u \<or> quota_exceeded quota u hash (length content) d")
          case True
          then have "bs_root s' = bs_root s \<and> d' = d \<and> (\<exists>e. r = Inl e)"
            using tx by (auto simp: put_tx_def remove_stage_def write_stage_def split: if_splits)
          then show thesis using refused by blast
        next
          case allowed: False
          obtain f s1 where p: "publish x n content hash ?s = (f, s1)" by fastforce
          show thesis
          proof (cases f)
            case (Some e)
            then show thesis using tx allowed p n False by (intro unpublished [of e n content s1]) (simp_all add: put_tx_def)
          next
            case None
            show thesis
            proof (cases "register_blob hash (length content) d")
              case (Inl e)
              then show thesis using tx allowed p n None False by (intro unregistered [of e n content]) (simp_all add: put_tx_def)
            next
              case (Inr d1)
              then show thesis using tx allowed p n None False usable content by (intro stored [of content n d1]) (simp_all add: put_tx_def)
            qed
          qed
        qed
      qed
    qed
  qed
qed

section \<open>Nothing stays staged\<close>

lemma createStage_fresh: "createStage tokens s = Inr n \<Longrightarrow> map_of (bs_staging s) n = None"
  by (auto simp: createStage_def find_Some_iff split: option.splits)

lemma unstaged: "map_of (bs_staging s) n = None \<Longrightarrow> filter (\<lambda>(k, _). k \<noteq> n) (bs_staging (write_stage n content s)) = bs_staging s"
  by (force simp: write_stage_def map_of_eq_None_iff intro!: filter_True)

lemma publish_staging:
  "publish x n content hash s = (r, s') \<Longrightarrow>
     bs_staging s' = (if r = None then filter (\<lambda>(k, _). k \<noteq> n) (bs_staging s) else bs_staging s) \<and> bs_closed s' = bs_closed s"
  by (auto simp: publish_def remove_stage_def split: prod.splits bool.splits if_splits sum.splits)

lemma Put_staging:
  assumes "Put x quota u tokens source hash s d = (r, s', d')"
  shows "bs_staging s' = bs_staging s \<and> bs_closed s' = bs_closed s"
proof -
  have "bs_staging (remove_stage n (write_stage n content s)) = bs_staging s" if "createStage tokens s = Inr n" for n content
    using unstaged [OF createStage_fresh [OF that]] by (simp add: remove_stage_def)
  moreover have "bs_closed (remove_stage n (write_stage n content s)) = bs_closed s" for n content
    by (simp add: remove_stage_def write_stage_def)
  moreover have "bs_staging s'' = bs_staging s \<and> bs_closed s'' = bs_closed s"
    if "createStage tokens s = Inr n" "put_tx x quota u n content hash (write_stage n content s) d = (r', s'', d'')" for n content r' s'' d''
  proof -
    obtain f s1 where p: "publish x n content hash (write_stage n content s) = (f, s1)" by fastforce
    have c: "bs_closed (write_stage n content s) = bs_closed s" by (simp add: write_stage_def)
    show ?thesis
      using that publish_staging [OF p] unstaged [OF createStage_fresh [OF that(1)]] p c calculation
      by (cases f) (auto simp: put_tx_def remove_stage_def split: if_splits sum.splits)
  qed
  ultimately show ?thesis
    using assms by (auto simp: Put_def Let_def split: if_splits sum.splits)
qed

section \<open>Every available blob has its file\<close>

definition blob_row_ok :: "ext \<Rightarrow> blob_store \<Rightarrow> blob_row \<Rightarrow> bool" where
  "blob_row_ok x s r \<longleftrightarrow>
     length (blb_hash r) = 32 \<and> blb_size r \<le> MaxBlobBytes \<and>
     (blb_available r \<longrightarrow> (\<exists>c. readBlob (bs_root s) (blb_hash r) = Inr c \<and> length c = blb_size r \<and> x_sha256 x c = blb_hash r))"

definition blobs_ok :: "ext \<Rightarrow> blob_store \<Rightarrow> db \<Rightarrow> bool" where
  "blobs_ok x s d \<longleftrightarrow> is_dir (bs_root s) \<and> distinct (map blb_hash (blobs d)) \<and> (\<forall>r\<in>set (blobs d). blob_row_ok x s r)"

lemma blob_row_keeps: "keeps_files (bs_root s) (bs_root s') \<Longrightarrow> blob_row_ok x s r \<Longrightarrow> blob_row_ok x s' r"
  using readBlob_keeps by (fastforce simp: blob_row_ok_def)

lemma blobs_keeps: "keeps_files (bs_root s) (bs_root s') \<Longrightarrow> is_dir (bs_root s') \<Longrightarrow> blobs_ok x s d \<Longrightarrow> blobs_ok x s' d"
  using blob_row_keeps by (auto simp: blobs_ok_def)

lemma register_cases:
  assumes "register_blob hash n d = Inr d1"
  obtains (new) "blob_at d hash = None" "d1 = d\<lparr>blobs := blobs d @ [\<lparr>blb_hash = hash, blb_size = n, blb_available = True\<rparr>]\<rparr>"
  | (known) r where "blob_at d hash = Some r" "blb_size r = n" "blb_available r" "d1 = d"
  | (promoted) r where "blob_at d hash = Some r" "blb_size r = n" "\<not> blb_available r"
      "d1 = d\<lparr>blobs := update_rows (\<lambda>r. blb_hash r = hash \<and> blb_size r = n \<and> \<not> blb_available r) (\<lambda>r. r\<lparr>blb_available := True\<rparr>) (blobs d)\<rparr>"
  using assms by (cases "blob_at d hash") (auto simp: register_blob_def Let_def blob_at_def row_at_append split: if_splits)

text \<open>Where a row of the registered blob comes from, and that sizes stay.\<close>

lemma register_row:
  assumes "register_blob hash n d = Inr d1" and "r \<in> set (blobs d1)" and "distinct (map blb_hash (blobs d))"
  shows "r \<in> set (blobs d) \<and> blb_hash r \<noteq> hash \<or> blb_hash r = hash \<and> blb_size r = n"
  using assms(1)
proof (cases rule: register_cases)
  case new
  then show ?thesis using assms(2) by (auto simp: blob_at_def row_at_None_iff)
next
  case (known q)
  then show ?thesis using assms(2,3) row_at_unique [of blb_hash "blobs d" r] by (auto simp: blob_at_def)
next
  case (promoted q)
  then obtain r0 where r0: "r0 \<in> set (blobs d)" "blb_hash r = blb_hash r0" "blb_size r = blb_size r0" "r = r0 \<or> blb_hash r0 = hash"
    using assms(2) by (auto simp: update_rows_def split: if_splits)
  then show ?thesis using promoted(1,2) assms(3) row_at_unique [of blb_hash "blobs d" r0] by (auto simp: blob_at_def)
qed

lemma register_size:
  assumes "register_blob hash n d = Inr d1" and "h \<noteq> hash \<or> blob_at d h \<noteq> None"
  shows "map_option blb_size (blob_at d1 h) = map_option blb_size (blob_at d h)"
  using assms(1)
proof (cases rule: register_cases)
  case new
  then show ?thesis using assms(2) by (auto simp: blob_at_def row_at_append split: option.split)
next
  case (promoted q)
  show ?thesis unfolding promoted(4) by (cases "row_at blb_hash (blobs d) h") (simp_all add: blob_at_def row_at_update)
qed simp


lemma register_distinct: "register_blob hash n d = Inr d1 \<Longrightarrow> distinct (map blb_hash (blobs d)) \<Longrightarrow> distinct (map blb_hash (blobs d1))"
  by (erule register_cases) (auto simp: blob_at_def row_at_None_iff map_update_rows)

lemma register_available:
  "register_blob hash n d = Inr d1 \<Longrightarrow> distinct (map blb_hash (blobs d)) \<Longrightarrow>
     \<exists>r. blob_at d1 hash = Some r \<and> blb_size r = n \<and> blb_available r"
  by (erule register_cases) (auto simp: blob_at_def row_at_append row_at_update dest: row_at_SomeD)

lemma register_other: "register_blob hash n d = Inr d1 \<Longrightarrow> entitlements d1 = entitlements d \<and> users d1 = users d"
  by (erule register_cases) auto

lemma register_stored:
  assumes run: "register_blob hash n d = Inr d1" and ok: "blobs_ok x s d" and "length hash = 32" "n \<le> MaxBlobBytes"
    and content: "\<exists>c. readBlob (bs_root s) hash = Inr c \<and> length c = n \<and> x_sha256 x c = hash"
  shows "blobs_ok x s d1"
proof -
  have dist: "distinct (map blb_hash (blobs d))" using ok by (simp add: blobs_ok_def)
  have "blob_row_ok x s r" if r: "r \<in> set (blobs d1)" for r
    using register_row [OF run r dist]
  proof
    assume "r \<in> set (blobs d) \<and> blb_hash r \<noteq> hash"
    then show ?thesis using ok by (simp add: blobs_ok_def)
  next
    assume "blb_hash r = hash \<and> blb_size r = n"
    then show ?thesis using assms(3,4) content by (simp add: blob_row_ok_def)
  qed
  then show ?thesis using ok register_distinct [OF run dist] by (simp add: blobs_ok_def)
qed

lemma blobs_ok_root: "bs_root s' = bs_root s \<Longrightarrow> blobs_ok x s' d \<longleftrightarrow> blobs_ok x s d"
  by (simp add: blobs_ok_def blob_row_ok_def)

lemma Put_blobs_ok:
  assumes "blobs_ok x s d" and "digest_law x" and run: "Put x quota u tokens source hash s d = (r, s', d')"
  shows "blobs_ok x s' d'"
proof -
  have root: "bs_root (write_stage n content s) = bs_root s" "bs_root (remove_stage n t) = bs_root t" for n content t
    by (simp_all add: write_stage_def remove_stage_def)
  have keep: "blobs_ok x t d" if "publish x n content hash (write_stage n content s) = (e, t)" for e n content t
  proof (rule blobs_keeps [OF _ _ assms(1)])
    show "keeps_files (bs_root s) (bs_root t)" using publish_keeps [OF that] by (simp add: root)
    show "is_dir (bs_root t)" by (rule publish_dir [OF that]) (use assms(1) in \<open>simp add: root blobs_ok_def\<close>)
  qed
  from run show ?thesis
  proof (cases rule: Put_cases)
    case (refused e)
    show ?thesis unfolding refused(3) blobs_ok_root [OF refused(2)] by (rule assms(1))
  next
    case (unpublished e n content s1)
    have "bs_root s' = bs_root s1" using unpublished(5) root by simp
    from blobs_ok_root [OF this] keep [OF unpublished(4)] show ?thesis unfolding unpublished(6) by blast
  next
    case (unregistered e n content)
    then show ?thesis using keep [OF unregistered(5)] by simp
  next
    case (stored n content d1)
    have "blobs_ok x s' d1"
    proof (rule register_stored [OF stored(10) keep [OF stored(9)]])
      show "length hash = 32" using assms(2) stored(5) by (auto simp: digest_law_def)
      show "\<exists>c. readBlob (bs_root s') hash = Inr c \<and> length c = length content \<and> x_sha256 x c = hash"
        using publish_there [OF stored(9)] assms(1) stored(5,6) by (simp add: root blobs_ok_def)
    qed (rule stored(6))
    then show ?thesis unfolding stored(11) by (simp add: blobs_ok_def grant_blob_def)
  qed
qed

text \<open>A stored upload can be read by its user.\<close>

lemma Put_then_Get:
  assumes "blobs_ok x s d" and run: "Put x quota u tokens source hash s d = (Inr n, s', d')"
  shows "\<exists>c. Get x u hash s' d' = Inr c \<and> length c = n \<and> x_sha256 x c = hash"
  using run
proof (cases rule: Put_cases)
  case (stored m content d1)
  have dist: "distinct (map blb_hash (blobs d))" using assms(1) by (simp add: blobs_ok_def)
  from register_available [OF stored(10) dist] obtain r where r: "blob_at d1 hash = Some r" "blb_size r = n" "blb_available r"
    using stored(1) by auto
  have "is_dir (bs_root (write_stage m content s))" using assms(1) by (simp add: blobs_ok_def write_stage_def)
  with publish_there [OF stored(9) _ stored(5,6)] obtain c where c: "readBlob (bs_root s') hash = Inr c" "length c = n" "x_sha256 x c = hash"
    using stored(1) by auto
  have "user_active d' u" "entitled d' u hash" "blob_at d' hash = Some r" "\<not> bs_closed s'" "n \<le> MaxBlobBytes"
    using register_other [OF stored(10)] stored r Put_staging [OF run] by (auto simp: grant_blob_def user_active_def entitled_def blob_at_def)
  then show ?thesis using r c by (simp add: Get_def)
qed auto

text \<open>What can be read stays readable, whoever uploads whatever afterwards.\<close>

lemma register_keeps_row:
  assumes "register_blob hash n d = Inr d1" and "blob_at d h = Some r"
  shows "\<exists>r'. blob_at d1 h = Some r' \<and> blb_size r' = blb_size r \<and> (blb_available r \<longrightarrow> blb_available r')"
  using assms(1)
proof (cases rule: register_cases)
  case (promoted q)
  then show ?thesis using assms(2) by (auto simp: blob_at_def row_at_update)
qed (use assms(2) in \<open>auto simp: blob_at_def row_at_append\<close>)

lemma Put_keeps_files:
  assumes "Put x quota u tokens source hash s d = (r, s', d')"
  shows "keeps_files (bs_root s) (bs_root s')"
proof -
  have root: "bs_root (write_stage n content s) = bs_root s" "bs_root (remove_stage n t) = bs_root t" for n content t
    by (simp_all add: write_stage_def remove_stage_def)
  from assms show ?thesis
  proof (cases rule: Put_cases)
    case (unpublished e n content s1)
    then show ?thesis using publish_keeps [OF unpublished(4)] by (simp add: root)
  next
    case (unregistered e n content)
    then show ?thesis using publish_keeps [OF unregistered(5)] by (simp add: root)
  next
    case (stored n content d1)
    then show ?thesis using publish_keeps [OF stored(9)] by (simp add: root)
  qed simp
qed

lemma Put_keeps_Get:
  assumes read: "Get x v h s d = Inr c" and run: "Put x quota u tokens source hash s d = (r, s', d')"
  shows "Get x v h s' d' = Inr c"
proof -
  from read obtain row where row: "\<not> bs_closed s" "user_active d v" "entitled d v h" "blob_at d h = Some row" "blb_available row"
    "blb_size row \<le> MaxBlobBytes" "readBlob (bs_root s) h = Inr c" "length c = blb_size row" "x_sha256 x c = h"
    by (auto simp: Get_def split: if_splits option.splits sum.splits)
  have content: "readBlob (bs_root s') h = Inr c" using readBlob_keeps [OF Put_keeps_files [OF run] row(7)] .
  have "user_active d' v \<and> entitled d' v h \<and> (\<exists>row'. blob_at d' h = Some row' \<and> blb_size row' = blb_size row \<and> blb_available row')"
    using run
  proof (cases rule: Put_cases)
    case (stored n content d1)
    have "user_active d1 v" "entitled d1 v h" using row(2,3) register_other [OF stored(10)] by (simp_all add: user_active_def entitled_def)
    then show ?thesis using register_keeps_row [OF stored(10) row(4)] row(5)
      by (auto simp: stored(11) grant_blob_def user_active_def entitled_def blob_at_def)
  qed (use row in auto)
  then show ?thesis using row content Put_staging [OF run] by (auto simp: Get_def)
qed

section \<open>Quotas\<close>

definition quota_ok :: "nat \<Rightarrow> db \<Rightarrow> bool" where
  "quota_ok quota d \<longleftrightarrow>
     (\<forall>u. blob_usage d u \<le> quota) \<and> (\<forall>(u, h)\<in>set (entitlements d). blob_at d h \<noteq> None)"

lemma blob_usage_same:
  assumes "entitlements d' = entitlements d" and "\<And>u h. (u, h) \<in> set (entitlements d) \<Longrightarrow> map_option blb_size (blob_at d' h) = map_option blb_size (blob_at d h)"
  shows "blob_usage d' u = blob_usage d u"
proof -
  have "(case blob_at d' h of Some r \<Rightarrow> if v = u then blb_size r else 0 | None \<Rightarrow> 0) =
      (case blob_at d h of Some r \<Rightarrow> if v = u then blb_size r else 0 | None \<Rightarrow> 0)" if "(v, h) \<in> set (entitlements d)" for v h
    using assms(2) [OF that] by (auto split: option.splits)
  then show ?thesis unfolding blob_usage_def assms(1) by (intro arg_cong [of _ _ sum_list] map_cong) auto
qed

lemma Put_quota:
  assumes ok: "quota_ok quota d" and dist: "distinct (map blb_hash (blobs d))" and run: "Put x quota u tokens source hash s d = (r, s', d')"
  shows "quota_ok quota d'"
  using run
proof (cases rule: Put_cases)
  case (stored n content d1)
  have known: "blob_at d h \<noteq> None" if "(v, h) \<in> set (entitlements d)" for v h using ok that by (auto simp: quota_ok_def)
  have size: "map_option blb_size (blob_at d1 h) = map_option blb_size (blob_at d h)" if "(v, h) \<in> set (entitlements d)" for v h
    using register_size [OF stored(10)] known [OF that] by blast
  have ent: "entitlements d1 = entitlements d" using register_other [OF stored(10)] by simp
  have usage: "blob_usage d1 v = blob_usage d v" for v by (rule blob_usage_same [OF ent size])
  have there: "blob_at d1 h \<noteq> None" if "(v, h) \<in> set (entitlements d)" for v h
    using size [OF that] known [OF that] by (cases "blob_at d1 h") auto
  obtain q where q: "blob_at d1 hash = Some q" "blb_size q = length content" using register_available [OF stored(10) dist] by blast
  show ?thesis
  proof (cases "entitled d u hash")
    case True
    then have "d' = d1" using stored(11) ent by (simp add: grant_blob_def entitled_def)
    then show ?thesis using ok usage there ent by (auto simp: quota_ok_def)
  next
    case False
    then have d': "d' = d1\<lparr>entitlements := entitlements d @ [(u, hash)]\<rparr>" using stored(11) ent by (simp add: grant_blob_def entitled_def)
    have at: "blob_at d' h = blob_at d1 h" for h by (simp add: d' blob_at_def)
    have "blob_usage d' v = blob_usage d1 v + (if v = u then length content else 0)" for v
      unfolding blob_usage_def at by (simp add: d' ent q)
    moreover have "blob_usage d u + length content \<le> quota" using stored(8) False by (auto simp: quota_exceeded_def)
    ultimately show ?thesis using ok usage there q(1) unfolding quota_ok_def at by (auto simp: d')
  qed
qed (use ok in simp_all)


section \<open>An audit finds nothing wrong\<close>

definition clean :: "ext \<Rightarrow> nat \<Rightarrow> string \<Rightarrow> (string \<times> entry) list \<Rightarrow> bool" where
  "clean x depth prefix es \<longleftrightarrow> fst (scan_dir x depth prefix es) = 0 \<and> fst (snd (scan_dir x depth prefix es)) = 0"

definition dir_name :: "ext \<Rightarrow> nat \<Rightarrow> string \<Rightarrow> bool" where
  "dir_name x depth name \<longleftrightarrow> depth = 0 \<and> name = ''sha256'' \<or> depth = 1 \<and> validHex x name 2 \<or> depth = 2 \<and> validHex x name 2"

definition dir_prefix :: "nat \<Rightarrow> string \<Rightarrow> string \<Rightarrow> string" where
  "dir_prefix depth prefix name = (if depth = 1 \<or> depth = 2 then prefix @ name else prefix)"

lemma clean_Nil [simp]: "clean x depth prefix []"
  by (simp add: clean_def)

lemma clean_Cons: "clean x depth prefix (e # es) \<longleftrightarrow> clean x depth prefix [e] \<and> clean x depth prefix es"
proof -
  obtain n f where e: "e = (n, f)" by fastforce
  have "scan_dir x depth prefix (e # es) = add_scan (scan_dir x depth prefix [e]) (scan_dir x depth prefix es)"
    unfolding e scan_dir.simps by (simp only: add_scan_def fst_conv snd_conv add_0_right append_Nil2)
  then show ?thesis by (auto simp: clean_def add_scan_def)
qed

lemma clean_all: "clean x depth prefix es \<longleftrightarrow> (\<forall>e\<in>set es. clean x depth prefix [e])"
proof (induction es)
  case (Cons e es)
  show ?case unfolding clean_Cons [of x depth prefix e es] Cons.IH by simp
qed simp

lemma clean_dir:
  "clean x depth prefix [(n, Directory m sub)] \<longleftrightarrow> dir_name x depth n \<and> m \<and> clean x (Suc depth) (dir_prefix depth prefix n) sub"
  by (auto simp: clean_def dir_name_def dir_prefix_def add_scan_def)

lemma clean_file: "depth = 3 \<Longrightarrow> validHex x n 64 \<Longrightarrow> length prefix = 4 \<Longrightarrow> take 4 n = prefix \<Longrightarrow> clean x depth prefix [(n, Regular True c)]"
  by (simp add: clean_def add_scan_def)

lemma clean_append: "clean x depth prefix (es @ es') \<longleftrightarrow> clean x depth prefix es \<and> clean x depth prefix es'"
  unfolding clean_all [of x depth prefix es] clean_all [of x depth prefix es'] clean_all [of x depth prefix "es @ es'"] by auto

lemma set_AList_update: "set (AList.update k v es) \<subseteq> insert (k, v) (set es)"
  by (induction es) auto

lemma clean_update: "clean x depth prefix es \<Longrightarrow> clean x depth prefix [(n, e)] \<Longrightarrow> clean x depth prefix (AList.update n e es)"
  unfolding clean_all [of x depth prefix es] clean_all [of x depth prefix "AList.update n e es"] using set_AList_update [of n e es] by auto

lemma clean_member: "clean x depth prefix es \<Longrightarrow> map_of es n = Some e \<Longrightarrow> clean x depth prefix [(n, e)]"
  unfolding clean_all [of x depth prefix es] by (auto dest: map_of_SomeD)

fun dir_names :: "ext \<Rightarrow> nat \<Rightarrow> string list \<Rightarrow> bool" where
  "dir_names x depth [] \<longleftrightarrow> True"
| "dir_names x depth (n # ns) \<longleftrightarrow> dir_name x depth n \<and> dir_names x (Suc depth) ns"

fun prefix_after :: "nat \<Rightarrow> string \<Rightarrow> string list \<Rightarrow> string" where
  "prefix_after depth prefix [] = prefix"
| "prefix_after depth prefix (n # ns) = prefix_after (Suc depth) (dir_prefix depth prefix n) ns"

lemma ensure_dirs_clean:
  "dir_names x depth ns \<Longrightarrow> clean x depth prefix es \<Longrightarrow>
     \<exists>es'. snd (ensure_dirs ns (Directory m es)) = Directory m es' \<and> clean x depth prefix es'"
proof (induction ns arbitrary: depth prefix m es)
  case (Cons n ns)
  then have n: "dir_name x depth n" "dir_names x (Suc depth) ns" by simp_all
  show ?case
  proof (cases "map_of es n")
    case None
    from Cons.IH [OF n(2) clean_Nil [of x "Suc depth" "dir_prefix depth prefix n"], of True] obtain sub
      where sub: "snd (ensure_dirs ns (Directory True [])) = Directory True sub" "clean x (Suc depth) (dir_prefix depth prefix n) sub" by blast
    then have "clean x depth prefix (es @ [(n, Directory True sub)])" using Cons.prems(2) n(1) by (simp add: clean_append clean_dir)
    then show ?thesis using None sub(1) by (auto split: prod.split)
  next
    case (Some f)
    then have f: "clean x depth prefix [(n, f)]" by (rule clean_member [OF Cons.prems(2)])
    show ?thesis
    proof (cases f)
      case (Directory k old)
      from f have "clean x (Suc depth) (dir_prefix depth prefix n) old" by (simp add: Directory clean_dir)
      from Cons.IH [OF n(2) this, of True] obtain sub
        where sub: "snd (ensure_dirs ns (Directory True old)) = Directory True sub" "clean x (Suc depth) (dir_prefix depth prefix n) sub" by blast
      then have "clean x depth prefix [(n, Directory True sub)]" using n(1) by (simp add: clean_dir)
      then have "clean x depth prefix (AList.update n (Directory True sub) es)" by (rule clean_update [OF Cons.prems(2)])
      then show ?thesis using Some Directory sub(1) by (auto split: prod.split)
    qed (use Some Cons.prems in auto)
  qed
qed simp

lemma add_at_clean:
  assumes "dir_names x depth ns" and "clean x depth prefix es" and "open_path (Directory m es) ns = Inr (Directory m' es')"
    and "depth + length ns = 3" "validHex x n 64" "prefix_after depth prefix ns = take 4 n" "length (take 4 n) = 4"
  shows "\<exists>es''. add_at (ns @ [n]) (Regular True c) (Directory m es) = Directory m es'' \<and> clean x depth prefix es''"
  using assms
proof (induction ns arbitrary: depth prefix m es)
  case Nil
  then have "clean x depth prefix [(n, Regular True c)]" by (intro clean_file) auto
  then show ?case using Nil by (simp add: clean_append)
next
  case (Cons k ns)
  then obtain f where f: "map_of es k = Some f" "open_path f ns = Inr (Directory m' es')" by (auto split: option.splits)
  then obtain mf sub where sub: "f = Directory mf sub" by (cases ns; cases f) auto
  have c: "clean x depth prefix [(k, f)]" by (rule clean_member [OF Cons.prems(2) f(1)])
  then have old: "mf" "clean x (Suc depth) (dir_prefix depth prefix k) sub" by (simp_all add: sub clean_dir)
  from Cons.IH [OF _ old(2) f(2) [unfolded sub]] Cons.prems obtain new
    where new: "add_at (ns @ [n]) (Regular True c) (Directory mf sub) = Directory mf new" "clean x (Suc depth) (dir_prefix depth prefix k) new"
    by auto
  have "clean x depth prefix [(k, Directory mf new)]" using c old(1) new(2) by (simp add: sub clean_dir)
  then have "clean x depth prefix (AList.update k (Directory mf new) es)" by (rule clean_update [OF Cons.prems(2)])
  then show ?case using f(1) sub new(1) by (cases "ns @ [n]") auto
qed

lemma validHex_encode: "validHex x (hex_encode s) (2 * length s)"
  by (simp add: validHex_def to_lower_hex hex_decode_encode)

lemma blob_names:
  assumes "length hash = 32"
  shows "dir_names x 0 (blob_dirs hash)" "prefix_after 0 [] (blob_dirs hash) = take 4 (hex_encode hash)" "validHex x (hex_encode hash) 64"
proof -
  obtain a b t where hash: "hash = a # b # t" using assms by (cases hash; cases "tl hash") auto
  have enc: "hex_encode hash = hex_encode [a] @ hex_encode [b] @ hex_encode t" by (simp add: hex_encode_def hash)
  have dirs: "blob_dirs hash = [''sha256'', hex_encode [a], hex_encode [b]]" unfolding blob_dirs_def Let_def enc by simp
  have hex: "validHex x (hex_encode [c]) 2" for c using validHex_encode [of x "[c]"] by simp
  show "dir_names x 0 (blob_dirs hash)" using hex by (simp add: dirs dir_name_def)
  show "prefix_after 0 [] (blob_dirs hash) = take 4 (hex_encode hash)" unfolding dirs enc by (simp add: dir_prefix_def)
  show "validHex x (hex_encode hash) 64" using validHex_encode [of x hash] assms by simp
qed

definition tree_clean :: "ext \<Rightarrow> blob_store \<Rightarrow> bool" where
  "tree_clean x s \<longleftrightarrow> (case bs_root s of Directory _ es \<Rightarrow> clean x 0 [] es | _ \<Rightarrow> False)"

lemma publish_clean:
  assumes "tree_clean x s" and "length hash = 32" and run: "publish y n content hash s = (r, s')"
  shows "tree_clean x s'"
proof -
  from assms(1) obtain m es where root: "bs_root s = Directory m es" "clean x 0 [] es" by (auto simp: tree_clean_def split: entry.splits)
  note names = blob_names [OF assms(2)]
  obtain ok root' where e: "ensure_dirs (blob_dirs hash) (bs_root s) = (ok, root')" by fastforce
  from ensure_dirs_clean [OF names(1) root(2), of m] e root(1) obtain es' where root': "root' = Directory m es'" "clean x 0 [] es'" by auto
  show ?thesis
  proof (cases "ok \<and> open_path root' (blob_path hash) = Inl BlobNotExist")
    case True
    then have "ensure_dirs (blob_dirs hash) (bs_root s) = (True, root')" using e by simp
    from ensure_dirs_path [OF this root(1)] obtain m2 es2 where "open_path root' (blob_dirs hash) = Inr (Directory m2 es2)" by blast
    moreover have "0 + length (blob_dirs hash) = 3" "length (take 4 (hex_encode hash)) = 4" using assms(2) by (simp_all add: blob_dirs_def Let_def)
    ultimately obtain es3
      where "add_at (blob_path hash) (Regular True content) root' = Directory m es3" "clean x 0 [] es3"
      using add_at_clean [OF names(1) root'(2) _ _ names(3,2), of m m2 es2 content] by (auto simp: root'(1) blob_path_def)
    then show ?thesis using run e True by (auto simp: publish_def remove_stage_def tree_clean_def)
  next
    case False
    then have "bs_root s' = root'" using run e by (auto simp: publish_def remove_stage_def split: bool.splits if_splits sum.splits)
    then show ?thesis using root' by (simp add: tree_clean_def)
  qed
qed

lemma Put_clean:
  assumes "tree_clean x s" and "digest_law x" and run: "Put x quota u tokens source hash s d = (r, s', d')"
  shows "tree_clean x s'"
proof -
  have same: "tree_clean x t = tree_clean x t'" if "bs_root t = bs_root t'" for t t' using that by (simp add: tree_clean_def)
  have published: "tree_clean x t" if "publish x n content hash (write_stage n content s) = (e, t)" "length hash = 32" for e n content t
    by (rule publish_clean [OF _ that(2,1)]) (use assms(1) same [of "write_stage n content s" s] in \<open>simp add: write_stage_def\<close>)
  from run show ?thesis
  proof (cases rule: Put_cases)
    case (refused e)
    then show ?thesis using assms(1) same by blast
  next
    case (unpublished e n content s1)
    then have "length hash = 32" using assms(2) by (auto simp: digest_law_def)
    with published [OF unpublished(4)] same [of s' s1] unpublished(5) show ?thesis by (simp add: remove_stage_def)
  next
    case (unregistered e n content)
    then have "length hash = 32" using assms(2) by (auto simp: digest_law_def)
    then show ?thesis using published unregistered by blast
  next
    case (stored n content d1)
    then have "length hash = 32" using assms(2) by (auto simp: digest_law_def)
    then show ?thesis using published stored by blast
  qed
qed


text \<open>What an audit answers for a sound store.\<close>

definition blob_sound :: "ext \<Rightarrow> blob_store \<Rightarrow> db \<Rightarrow> bool" where
  "blob_sound x s d \<longleftrightarrow> blobs_ok x s d \<and> tree_clean x s \<and> bs_staging s = [] \<and> \<not> bs_closed s"

lemma Audit_sound:
  assumes "blob_sound x s d"
  shows "\<exists>r. Audit x s d = Inr r \<and> Healthy r \<and> au_registered r = length (blobs d)"
proof -
  have rows: "blobs_ok x s d" using assms by (simp add: blob_sound_def)
  from assms obtain m es where root: "bs_root s = Directory m es" "clean x 0 [] es"
    by (auto simp: blob_sound_def tree_clean_def split: entry.splits)
  obtain a b seen where scan: "scan_dir x 0 [] es = (a, b, seen)" by (cases "scan_dir x 0 [] es") auto
  with root(2) have zero: "a = 0" "b = 0" by (simp_all add: clean_def)
  have "\<not> audit_missing s r \<and> \<not> audit_corrupt x s r" if "r \<in> set (filter blb_available (blobs d))" for r
    using rows that by (auto simp: blobs_ok_def blob_row_ok_def audit_missing_def audit_corrupt_def)
  then have none: "filter (audit_missing s) (filter blb_available (blobs d)) = []" "filter (audit_corrupt x s) (filter blb_available (blobs d)) = []"
    unfolding filter_empty_conv by blast+
  have "inj hex_encode" by (simp add: inj_on_def hex_encode_inj)
  then have "distinct (map hex_encode (map blb_hash (blobs d)))" using rows by (simp only: distinct_map blobs_ok_def) (auto intro: inj_on_subset)
  then have "length (remdups (map (\<lambda>r. hex_encode (blb_hash r)) (blobs d))) = length (blobs d)" by (simp add: comp_def distinct_remdups_id)
  moreover have "list_all (\<lambda>r. length (blb_hash r) = 32) (blobs d)" using rows by (auto simp: list_all_iff blobs_ok_def blob_row_ok_def)
  ultimately show ?thesis
    using assms none zero scan by (simp add: Audit_def root(1) Healthy_def blob_sound_def Let_def)
qed

lemma Put_sound: "blob_sound x s d \<Longrightarrow> digest_law x \<Longrightarrow> Put x quota u tokens source hash s d = (r, s', d') \<Longrightarrow> blob_sound x s' d'"
  unfolding blob_sound_def using Put_blobs_ok Put_clean Put_staging by metis

section \<open>Runs\<close>

text \<open>One attempted upload: who, the random names, what was sent, the announced digest.\<close>

type_synonym upload = "uuid \<times> string list \<times> (string \<times> blob_error option) \<times> string"

definition upload_step :: "ext \<Rightarrow> nat \<Rightarrow> upload \<Rightarrow> blob_store \<times> db \<Rightarrow> blob_store \<times> db" where
  "upload_step x quota a w = (case a of (u, tokens, source, hash) \<Rightarrow> snd (Put x quota u tokens source hash (fst w) (snd w)))"

lemma uploads_sound:
  assumes "digest_law x" and "blob_sound x (fst w) (snd w)" and "quota_ok quota (snd w)"
  shows "blob_sound x (fst (fold (upload_step x quota) as w)) (snd (fold (upload_step x quota) as w)) \<and>
    quota_ok quota (snd (fold (upload_step x quota) as w))"
  using assms(2,3)
proof (induction as arbitrary: w)
  case (Cons a as)
  obtain u tokens source hash where a: "a = (u, tokens, source, hash)" by (cases a) auto
  obtain r s' d' where p: "Put x quota u tokens source hash (fst w) (snd w) = (r, s', d')" by (cases "Put x quota u tokens source hash (fst w) (snd w)") auto
  have "distinct (map blb_hash (blobs (snd w)))" using Cons.prems(1) by (simp add: blob_sound_def blobs_ok_def)
  then have "blob_sound x s' d'" "quota_ok quota d'" using Put_sound [OF Cons.prems(1) assms(1) p] Put_quota [OF Cons.prems(2) _ p] by blast+
  then show ?case using Cons.IH [of "upload_step x quota a w"] by (simp add: upload_step_def a p)
qed simp

lemma uploads_keep_Get:
  "Get x v h (fst w) (snd w) = Inr c \<Longrightarrow>
     Get x v h (fst (fold (upload_step x quota) as w)) (snd (fold (upload_step x quota) as w)) = Inr c"
proof (induction as arbitrary: w)
  case (Cons a as)
  obtain u tokens source hash where a: "a = (u, tokens, source, hash)" by (cases a) auto
  obtain r s' d' where p: "Put x quota u tokens source hash (fst w) (snd w) = (r, s', d')"
    by (cases "Put x quota u tokens source hash (fst w) (snd w)") auto
  from Put_keeps_Get [OF Cons.prems p] have "Get x v h (fst (upload_step x quota a w)) (snd (upload_step x quota a w)) = Inr c"
    by (simp add: upload_step_def a p)
  from Cons.IH [OF this] show ?case by simp
qed simp

lemma new_store_sound:
  assumes "openWithQuota quota [] [] = Inr s" and "blobs d = []" "entitlements d = []"
  shows "blob_sound x s d" "quota_ok quota d"
proof -
  have "s = \<lparr>bs_root = Directory True [(''sha256'', Directory True [])], bs_staging = [], bs_closed = False\<rparr>"
    using assms(1) by (auto simp: openWithQuota_def split: if_splits)
  then show "blob_sound x s d" using assms(2) by (simp add: blob_sound_def blobs_ok_def is_dir_def tree_clean_def clean_dir dir_name_def)
  show "quota_ok quota d" using assms(3) by (simp add: quota_ok_def blob_usage_def)
qed

text \<open>Leftovers of a process that died while uploading are removed, and nothing else changes.\<close>

lemma recover_interrupted:
  assumes "blob_sound x s d" and "length tokens = length contents" "\<forall>t\<in>set tokens. length t = 16"
  shows "RecoverStaging x (s\<lparr>bs_staging := zip (map stage_name tokens) (map (Regular True) contents)\<rparr>) = (Inr (length tokens), s)"
proof -
  have "stage_entry_ok x (stage_name t, Regular True c)" if "length t = 16" for t c
    using that validHex_encode [of x t] by (simp add: stage_entry_ok_def stage_name_def has_prefix_def)
  then have "list_all (stage_entry_ok x) (zip (map stage_name tokens) (map (Regular True) contents))"
    using assms(3) by (force simp: list_all_iff set_zip)
  moreover have "s\<lparr>bs_staging := []\<rparr> = s" using assms(1) by (simp add: blob_sound_def)
  ultimately show ?thesis using assms(1,2) by (simp add: RecoverStaging_def blob_sound_def)
qed

end
