(* ===== verification/Example_Wire.thy ===== *)
theory Example_Wire
  imports Wire Blob_Safety Example_System Example_Client
begin

text \<open>
  The example account on the wire: a parser of identifiers, a server with the account's first folder and an
  open session, and requests of a client that holds its token.
\<close>

section \<open>Identifiers and media types\<close>

definition sample_uuid_value :: "string \<Rightarrow> nat" where
  "sample_uuid_value = foldl (\<lambda>n c. case hex_value c of None \<Rightarrow> n | Some v \<Rightarrow> n * 16 + v) 0"

definition sample_uuid_parse :: "string \<Rightarrow> uuid option" where
  "sample_uuid_parse s = (let u = word_of_nat (sample_uuid_value s) in if sample_uuid_string u = s then Some u else None)"

lemma sample_digits_value:
  assumes "i \<le> j" "j \<le> 32"
  shows "foldl (\<lambda>n c. case hex_value c of None \<Rightarrow> n | Some v \<Rightarrow> n * 16 + v) (unat (drop_bit (128 - 4 * i) u)) (map (uuid_digit u) [i..<j]) =
    unat (drop_bit (128 - 4 * j) u)"
  using assms
proof (induction j rule: dec_induct)
  case (step j)
  then have "128 - 4 * Suc j = 124 - 4 * j" "124 - 4 * j + 4 = 128 - 4 * j" by simp_all
  then show ?case using step drop_nibble [of "124 - 4 * j" u] by (simp add: uuid_digit_def hex_digit_back)
qed simp

lemma sample_uuid_value: "sample_uuid_value (sample_uuid_string u) = unat u"
proof -
  have "unat (drop_bit 128 u) = 0"
    using unsigned_less [of u, where ?'a = nat] unfolding unat_drop_bit_eq by (simp add: drop_bit_eq_div)
  moreover have "hex_value (CHR ''-'') = None" by (simp add: hex_value_def in_range_def code_def)
  ultimately show ?thesis
    using sample_digits_value [of 0 8 u] sample_digits_value [of 8 12 u] sample_digits_value [of 12 16 u]
      sample_digits_value [of 16 20 u] sample_digits_value [of 20 32 u]
    by (simp add: sample_uuid_value_def sample_uuid_string_def del: upt_Suc upt_rec_numeral)
qed

definition demo_wire :: wire where
  "demo_wire = \<lparr>w_uuid_parse = sample_uuid_parse,
     w_media = (\<lambda>s. if s = json_media then Some (''application/json'', [(''charset'', ''utf-8'')])
       else if s = ''application/json'' \<or> s = ''application/octet-stream'' then Some (s, []) else None),
     w_time = (\<lambda>_. ''2026-01-01T00:00:00Z'')\<rparr>"

lemma demo_wire_law: "wire_law demo_ext demo_wire"
proof -
  have "hex_value (CHR ''/'') = None" by (simp add: hex_value_def in_range_def code_def)
  moreover have "hex_value (uuid_digit u k) \<noteq> None" for u k by (simp add: uuid_digit_def hex_digit_back)
  ultimately have digit: "uuid_digit u k \<noteq> CHR ''/''" for u k by metis
  then have "CHR ''/'' \<notin> set (sample_uuid_string u)" for u by (auto simp: sample_uuid_string_def dest: sym)
  moreover have "valid_utf8 ''2026-01-01T00:00:00Z''" by (simp add: valid_utf8_ascii is_ascii_def code_def del: valid_utf8.simps)
  ultimately show ?thesis by (simp add: wire_law_def demo_wire_def sample_uuid_parse_def sample_uuid_value Let_def json_media_def)
qed

section \<open>A server with an open session\<close>

definition demo_token43 :: string where
  "demo_token43 = b64_encode (fill (CHR ''a''))"

definition online_db :: db where
  "online_db = demo_db1\<lparr>
     sessions := [\<lparr>ses_user = alice, ses_id = 3, ses_device = phone, ses_status = Active, ses_created = 5, ses_expires = 5 + RefreshTTL,
       ses_revoked = None\<rparr>],
     access_tokens := [\<lparr>acc_hash = rev (fill (CHR ''a'')), acc_user = alice, acc_session = 3, acc_device = phone, acc_issued = 5,
       acc_expires = 5 + AccessTTL, acc_revoked = None\<rparr>]\<rparr>"

definition phone_principal :: principal where
  "phone_principal = \<lparr>pr_user = alice, pr_device = phone, pr_session = 3\<rparr>"

definition demo_config :: api_config where
  "demo_config = \<lparr>ac_world = demo_world, ac_wire = demo_wire, ac_quota = 1000, ac_identity = True, ac_registration = True\<rparr>"

definition online_state :: api_state where
  "online_state = \<lparr>as_db = online_db, as_limits = newAbuseLimiters,
     as_blobs = \<lparr>bs_root = Directory True [(''sha256'', Directory True [])], bs_staging = [], bs_closed = False\<rparr>, as_ready = True\<rparr>"

definition demo_call :: api_call where
  "demo_call = \<lparr>cl_now = 6, cl_nanos = 0, cl_random = [], cl_fresh = [], cl_slot = True, cl_database = True, cl_stages = [replicate 16 (CHR ''s'')]\<rparr>"

lemma online_simps [simp]:
  "cfg_ext demo_config = demo_ext" "ac_wire demo_config = demo_wire" "ac_world demo_config = demo_world" "cl_now demo_call = 6"
  "cl_fresh demo_call = []" "cl_slot demo_call = True" "as_db online_state = online_db"
  by (simp_all add: demo_config_def demo_call_def online_state_def)

lemma online_session_with: "AuthenticateAccess demo_ext 6 demo_token43 (online_db\<lparr>versions := vs, changes := cs\<rparr>) = Inr phone_principal"
proof -
  have "parseAndHash demo_ext demo_token43 accessDomain = Inr (rev (fill (CHR ''a'')))"
    by (simp add: demo_token43_def parse_issued hashToken_def)
  then show ?thesis
    by (simp add: AuthenticateAccess_def online_db_def demo_db1_def access_at_def session_of_def session_at_def seskey_def device_active_def
        user_active_def AccessTTL_def RefreshTTL_def phone_principal_def)
qed

lemma online_session: "AuthenticateAccess demo_ext 6 demo_token43 online_db = Inr phone_principal"
  using online_session_with [where vs = "versions online_db" and cs = "changes online_db"] by simp

lemma online_actor: "ForActor demo_ext (pr_user phone_principal) (pr_device phone_principal) = Inr demo_actor"
  by (simp add: ForActor_def phone_principal_def validV7_def validObjectID_def demo_actor_def alice_def phone_def uuid_nil_def)

lemma online_active: "requireActiveActor demo_actor online_db = Inr ()"
  by (simp add: requireActiveActor_def user_active_def device_active_def online_db_def demo_db1_def)

section \<open>Its first operation sent again\<close>

definition client_create_a :: client_mutation where
  "client_create_a = \<lparr>cm_operation = 17, cm_kind = MutationCreate, cm_object = 33, cm_type = ObjectFolder, cm_base = 0, cm_parent = None,
     cm_name = ''A'', cm_blob = [], cm_dependency = None, cm_additional = [], cm_source = [], cm_device = 0, cm_inode = 0\<rparr>"

lemma sent_create_a: "sent_mutation client_create_a = create_a"
  by (simp add: sent_mutation_def client_create_a_def create_a_def)

lemma online_submit: "Submit demo_ext demo_actor 6 [] create_a online_db = (Inr (accepted_result 1 1), online_db)"
proof -
  have "stores_result demo_actor intent_a hash_a (accepted_result 1 1) online_db"
    by (simp add: stores_result_def online_db_def demo_db1_def operation_at_def opkey_def stored_result_def)
  from submit_tx_replays [OF canonicalize_a this online_active refl] show ?thesis by (simp add: Submit_def run_tx_def)
qed

lemma request_token: "remote_request demo_token43 rmethod path query body media =
    Inr \<lparr>rq_method = rmethod, rq_path = path, rq_query = query,
      rq_headers = [(''Authorization'', [''Bearer '' @ demo_token43]), (''Accept'', [''application/json''])] @ (if media = [] then [] else [(''Content-Type'', [media])]),
      rq_body = body, rq_length = int (length body)\<rparr>"
proof -
  have parse: "parseAndHash demo_ext demo_token43 accessDomain = Inr (rev (fill (CHR ''a'')))"
    by (simp add: demo_token43_def parse_issued hashToken_def)
  have "b64_value c = None" if "c \<in> set [CHR 0x0D, CHR 0x0A, CHR 0x00]" for c
    using that by (auto simp: b64_value_def in_range_def code_def)
  then have "c \<notin> set [CHR 0x0D, CHR 0x0A, CHR 0x00]" if "c \<in> set demo_token43" for c
    using that b64_encode_values [of c "fill (CHR ''a'')"] unfolding demo_token43_def by metis
  then have plain: "list_ex (\<lambda>c. c \<in> set [CHR 0x0D, CHR 0x0A, CHR 0x00]) demo_token43 = False"
    unfolding list_ex_iff by blast
  have len: "length demo_token43 = 43" by (rule token_chars(1) [OF parse])
  then have "demo_token43 \<noteq> []" by auto
  with len plain show ?thesis unfolding remote_request_def by simp
qed

lemma online_submit_request: "\<exists>rq. submit_request demo_ext demo_token43 client_create_a = Inr rq"
proof -
  have "validateMutation demo_ext client_create_a = Inr ()"
    by (simp add: validateMutation_def client_create_a_def validOperationID_def validObjectID_def uuid_nil_def known_object_type_def known_mutation_def
        MaxInt64_def mutation_shape_valid_def valid_component_def component_a has_folder_binding_def)
  then show ?thesis by (simp add: submit_request_def request_token)
qed

section \<open>Its feed\<close>

definition change_a :: version_state where
  "change_a = \<lparr>v_cursor = 1, v_mutation = MutationCreate, v_operation = 17, v_object = 33, v_type = ObjectFolder, v_revision = 1,
     v_parent = None, v_name = ''A'', v_blob = [], v_deleted = False\<rparr>"

lemma online_feed: "change_feed online_db alice = [change_a]"
  by (simp add: change_feed_def online_db_def demo_db1_def version_at_def version_of_def verkey_def Sync_Service.change_of_def version_state_of_def change_a_def clone_bytes_def)

lemma change_a_ok: "version_ok demo_ext change_a"
proof -
  have "valid_utf8 ''A''" by (simp add: valid_utf8_ascii is_ascii_def code_def del: valid_utf8.simps)
  then show ?thesis
    by (simp add: version_ok_def change_a_def cursor_valid_def MaxInt64_def validOperationID_def validObjectID_def uuid_nil_def known_mutation_def known_object_type_def
        del: valid_utf8.simps)
qed

definition page_a :: pull_result where
  "page_a = \<lparr>p_changes = [change_a], p_more = False, p_next = 1\<rparr>"

lemma online_pull: "Pull demo_actor 0 100 online_db = Inr page_a"
  by (simp add: Pull_def online_active maxPullLimit_def int64_def pull_page_def online_feed page_a_def change_a_def)

lemma page_a_fits: "fits demo_ext page_a"
proof -
  have key: "length (json_string k) \<le> 98" if "length k \<le> 16" for k using length_json_string [of k] that by simp
  have uuid: "length (json_text (json_uuid demo_ext v)) \<le> 218" for v by (rule length_json_uuid [OF sample_uuid_law])
  have one: "length (json_text (json_nat 1)) \<le> 19" using length_json_cursor [of 1] by (simp add: cursor_valid_def MaxInt64_def)
  have "length (json_text (change_json demo_ext change_a)) \<le> 3000"
    using key [of "''operation_id''"] key [of "''mutation''"] key [of "''object_id''"] key [of "''object_type''"] key [of "''cursor''"] key [of "''revision''"]
      key [of "''parent_id''"] key [of "''name''"] key [of "''blob_hash''"] key [of "''deleted''"] key [of "''create''"] key [of "''folder''"] key [of "''A''"]
      uuid [of 17] uuid [of 33] one
    by (simp add: change_json_def change_a_def json_option_def json_blob_def)
  then show ?thesis
    using key [of "''changes''"] key [of "''has_more''"] key [of "''next_cursor''"] one
    by (simp add: fits_def page_a_def pull_json_def length_json_line maxJSONBytes_def)
qed

section \<open>A hundred long names\<close>

definition long_name :: string where
  "long_name = replicate 180 (CHR ''&'')"

lemma long_name_valid: "ValidateComponent demo_ext long_name = Inr ()"
proof -
  have ascii: "is_ascii long_name" by (simp add: long_name_def is_ascii_def code_def list_all_iff)
  have dot: "cut_before (CHR ''.'') long_name = long_name" by (simp add: cut_before_def long_name_def)
  have trim: "trim_right '' .'' long_name = long_name"
    by (simp add: trim_right_def long_name_def)
  have "\<not> isReservedWindowsDevice demo_ext long_name"
    by (simp add: isReservedWindowsDevice_def dot trim to_upper_def ascii Let_def)
      (auto simp: long_name_def superscript_digits_def dest!: arg_cong [where f = length])
  moreover have "\<not> list_ex forbidden_rune (runes long_name)"
    by (simp add: runes_ascii [OF ascii]) (auto simp: long_name_def list_ex_iff forbidden_rune_def forbidden_chars_def code_def)
  moreover have "\<not> has_suffix long_name '' ''" "\<not> has_suffix long_name ''.''" by (simp_all add: has_suffix_def long_name_def)
  ultimately show ?thesis
    by (simp add: ValidateComponent_def valid_utf8_ascii ascii del: valid_utf8.simps) (simp add: long_name_def MaxComponentBytes_def)
qed

definition long_version :: "nat \<Rightarrow> ver_row" where
  "long_version n = (version_of object_a 17 5)\<lparr>ver_rev := n, ver_name := long_name\<rparr>"

definition long_change :: "nat \<Rightarrow> chg_row" where
  "long_change n = (Sync_Service.change_of object_a n 17 MutationMove 5)\<lparr>chg_rev := n\<rparr>"

definition long_state :: api_state where
  "long_state = online_state\<lparr>as_db := online_db\<lparr>versions := map long_version [1..<101], changes := map long_change [1..<101]\<rparr>\<rparr>"

definition long_page :: pull_result where
  "long_page = \<lparr>p_changes = map (\<lambda>n. version_state_of (long_change n) (long_version n)) [1..<101], p_more = False, p_next = 100\<rparr>"

lemma long_feed: "change_feed (as_db long_state) alice = p_changes long_page"
proof -
  have keys: "map (verkey \<circ> long_version) [1..<101] = map (\<lambda>n. (alice, 33, n)) [1..<101]"
    by (simp add: verkey_def long_version_def version_of_def)
  have "version_at (as_db long_state) alice 33 n = Some (long_version n)" if "n \<in> {1..<101}" for n
  proof -
    have "distinct (map verkey (map long_version [1..<101]))" using keys by (simp add: distinct_map inj_on_def del: upt_Suc upt_rec_numeral)
    moreover have "verkey (long_version n) = (alice, 33, n)" by (simp add: verkey_def long_version_def version_of_def)
    ultimately show ?thesis using row_at_unique [of verkey "map long_version [1..<101]" "long_version n"] that
      by (simp add: version_at_def long_state_def del: upt_Suc upt_rec_numeral)
  qed
  note versions = this
  have sorted: "sort_key chg_cursor (map long_change [1..<101]) = map long_change [1..<101]"
    by (rule sort_key_id_if_sorted) (simp add: comp_def long_change_def Sync_Service.change_of_def del: upt_Suc upt_rec_numeral)
  have mine: "filter (\<lambda>c. chg_user c = alice) (changes (as_db long_state)) = map long_change [1..<101]"
    by (simp add: long_state_def filter_map comp_def long_change_def Sync_Service.change_of_def del: upt_Suc upt_rec_numeral)
  have join: "concat (map (\<lambda>c. case version_at d alice (chg_object c) (chg_rev c) of None \<Rightarrow> [] | Some v \<Rightarrow> [version_state_of c v]) (map long_change ns)) =
      map (\<lambda>n. version_state_of (long_change n) (long_version n)) ns"
    if "\<And>n. n \<in> set ns \<Longrightarrow> version_at d alice 33 n = Some (long_version n)" for d ns
    using that by (induction ns) (simp_all add: long_change_def Sync_Service.change_of_def)
  have "change_feed (as_db long_state) alice = map (\<lambda>n. version_state_of (long_change n) (long_version n)) [1..<101]"
    unfolding change_feed_def mine sorted by (rule join) (rule versions, simp only: set_upt)
  then show ?thesis unfolding long_page_def by simp
qed

lemma long_pull: "Pull demo_actor 0 100 (as_db long_state) = Inr long_page"
proof -
  have len: "length (p_changes long_page) = 100" by (simp add: long_page_def del: upt_Suc upt_rec_numeral)
  have "v_cursor v = n" if "v = version_state_of (long_change n) (long_version n)" for n v
    by (simp add: that version_state_of_def long_change_def Sync_Service.change_of_def)
  then have pos: "filter (\<lambda>v. 0 < v_cursor v) (p_changes long_page) = p_changes long_page"
    by (intro filter_True) (auto simp: long_page_def)
  have "last [1..<101] = (100 :: nat)" by simp
  then have "v_cursor (last (p_changes long_page)) = 100"
    by (simp add: long_page_def last_map version_state_of_def long_change_def Sync_Service.change_of_def del: upt_Suc upt_rec_numeral)
  moreover have "requireActiveActor demo_actor (as_db long_state) = Inr ()"
    using online_active by (simp add: requireActiveActor_def user_active_def device_active_def long_state_def)
  moreover have "p_changes long_page \<noteq> []" using len by auto
  ultimately have "pull_page (as_db long_state) alice 0 100 = long_page"
    using len pos by (simp add: pull_page_def long_feed Let_def) (simp add: long_page_def)
  with \<open>requireActiveActor demo_actor (as_db long_state) = Inr ()\<close> show ?thesis by (simp add: Pull_def maxPullLimit_def int64_def)
qed

section \<open>Its first content\<close>

definition empty_store :: blob_store where
  "empty_store = \<lparr>bs_root = Directory True [(''sha256'', Directory True [])], bs_staging = [], bs_closed = False\<rparr>"

definition content_a :: string where
  "content_a = replicate 40 (CHR ''x'')"

definition upload_a :: upload where
  "upload_a = (alice, [replicate 16 (CHR ''s'')], (content_a, None), demo_digest content_a)"

lemma empty_store_sound: "blob_sound demo_ext empty_store demo_db" "quota_ok 1000 demo_db"
  using new_store_sound [where quota = 1000 and s = empty_store and d = demo_db]
  by (simp_all add: openWithQuota_def valid_quota_def MaxUserQuotaBytes_def empty_store_def demo_db_def empty_db_def)

lemma first_publish:
  assumes "bs_root s = Directory True [(''sha256'', Directory True [])]"
  shows "fst (publish x n content hash s) = None"
  using assms by (simp add: publish_def blob_dirs_def blob_path_def Let_def)

lemma upload_a_put: "fst (Put demo_ext 1000 alice [replicate 16 (CHR ''s'')] (content_a, None) (demo_digest content_a) empty_store demo_db) = Inr 40"
proof -
  let ?n = "stage_name (replicate 16 (CHR ''s''))"
  obtain s1 where p: "publish demo_ext ?n content_a (demo_digest content_a) (write_stage ?n content_a empty_store) = (None, s1)"
    using first_publish [of "write_stage ?n content_a empty_store" demo_ext ?n content_a "demo_digest content_a"]
    by (cases "publish demo_ext ?n content_a (demo_digest content_a) (write_stage ?n content_a empty_store)")
      (simp add: write_stage_def empty_store_def)
  have len: "length content_a = 40" by (simp add: content_a_def)
  have "user_active demo_db alice" by (simp add: user_active_def)
  moreover have "\<not> quota_exceeded 1000 alice (demo_digest content_a) 40 demo_db" by (simp add: quota_exceeded_def blob_usage_def)
  moreover have "register_blob (demo_digest content_a) 40 demo_db =
      Inr (demo_db\<lparr>blobs := [\<lparr>blb_hash = demo_digest content_a, blb_size = 40, blb_available = True\<rparr>]\<rparr>)"
    by (simp add: register_blob_def blob_at_def demo_db_def empty_db_def)
  moreover have "createStage [replicate 16 (CHR ''s'')] empty_store = Inr ?n" by (simp add: createStage_def empty_store_def)
  ultimately show ?thesis
    using p len by (simp add: Put_def put_tx_def read_source_def MaxBlobBytes_def Let_def) (simp add: empty_store_def)
qed

end
