(* ===== verification/Api_Safety.thy ===== *)
theory Api_Safety
  imports Api Blob_Safety System_Safety
begin

text \<open>
  The HTTP interface against the system behind it: every request is at most one step of the system, a request
  without a session changes nothing on the routes that need one, and a synchronization request acts for the
  account of its token alone.
\<close>

section \<open>Requests are steps\<close>

lemma Put_uploads:
  assumes "Put x quota u tokens source hash s d = (r, s', d')"
  shows "\<exists>bs es. d' = d\<lparr>blobs := bs, entitlements := entitlements d @ es\<rparr>"
proof -
  have same: ?thesis if "d' = d" using that by (intro exI [of _ "blobs d"] exI [of _ "[]"]) simp
  from assms show ?thesis
  proof (cases rule: Put_cases)
    case (stored n content d1)
    have "\<exists>bs. d1 = d\<lparr>blobs := bs\<rparr>" using stored(10) by (cases rule: register_cases) (auto intro: exI [of _ "blobs d"])
    then obtain bs where "d1 = d\<lparr>blobs := bs\<rparr>" ..
    then have "d' = d\<lparr>blobs := bs, entitlements := entitlements d @ (if entitled d u hash then [] else [(u, hash)])\<rparr>"
      using stored(11) by (simp add: grant_blob_def entitled_def)
    then show ?thesis by blast
  qed (use same in blast)+
qed

definition at_most_step :: "world \<Rightarrow> db \<Rightarrow> db \<Rightarrow> bool" where
  "at_most_step w d d' \<longleftrightarrow> d' = d \<or> server_step w d d'"

lemma at_most_same [simp]: "at_most_step w d d"
  by (simp add: at_most_step_def)

lemma at_most_stepI: "server_step w d d' \<Longrightarrow> at_most_step w d d'"
  by (simp add: at_most_step_def)

named_theorems handler_steps "each handler takes at most one step of the system"

lemma probe_steps [handler_steps]: "at_most_step w (as_db s) (as_db (snd (probe c cl rq ready s)))"
  by (simp add: probe_def)

lemma step_result: "f = (res, d') \<Longrightarrow> server_step w d (snd f) \<Longrightarrow> at_most_step w d d'"
  by (simp add: at_most_step_def)

lemma register_steps [handler_steps]: "at_most_step (ac_world c) (as_db s) (as_db (snd (register_handler c cl rq s)))"
  by (auto simp: register_handler_def split: option.split prod.split bool.split elim!: step_result intro: server_step.registers)

lemma verifyEmail_steps [handler_steps]: "at_most_step (ac_world c) (as_db s) (as_db (snd (verifyEmail_handler c cl rq s)))"
  by (auto simp: verifyEmail_handler_def split: option.split prod.split bool.split elim!: step_result intro: server_step.verifies)

lemma login_steps [handler_steps]: "at_most_step (ac_world c) (as_db s) (as_db (snd (login_handler c cl rq s)))"
  by (auto simp: login_handler_def split: option.split prod.split bool.split elim!: step_result intro: server_step.logs_in)

lemma refresh_steps [handler_steps]: "at_most_step (ac_world c) (as_db s) (as_db (snd (refresh_handler c cl rq s)))"
  by (auto simp: refresh_handler_def split: option.split prod.split bool.split elim!: step_result intro: server_step.refreshes)

lemma logout_steps [handler_steps]: "at_most_step (ac_world c) (as_db s) (as_db (snd (logout_handler c cl rq s)))"
  by (auto simp: logout_handler_def split: sum.split prod.split elim!: step_result intro: server_step.revokes_session)

lemma listSessions_steps [handler_steps]: "at_most_step w (as_db s) (as_db (snd (listSessions_handler c cl rq s)))"
  by (auto simp: listSessions_handler_def split: sum.split)

lemma device_steps [handler_steps]: "at_most_step (ac_world c) (as_db s) (as_db (snd (device_handler c cl rq rawID s)))"
  by (auto simp: device_handler_def split: sum.split prod.split option.split elim!: step_result intro: server_step.renames server_step.revokes_device)

lemma session_steps [handler_steps]: "at_most_step (ac_world c) (as_db s) (as_db (snd (session_handler c cl rq rawID s)))"
  by (auto simp: session_handler_def split: sum.split prod.split option.split elim!: step_result intro: server_step.revokes_session)

lemma snd_answer_with [simp]: "snd (answer_with f r) = snd r"
  by (auto simp: answer_with_def split: prod.split sum.split)

lemma sync_call_db:
  assumes "\<And>a d. P a d (snd (call a d))" and "\<And>a d. P a d d"
  shows "\<exists>a. P a (as_db s) (as_db (snd (sync_call c cl rq p call s)))"
proof (cases "ForActor (cfg_ext c) (pr_user p) (pr_device p)")
  case (Inr a)
  then show ?thesis using assms(1) [of a "as_db s"] assms(2) [of a "as_db s"]
    by (auto simp: sync_call_def split: prod.split intro!: exI [of _ a])
qed (use assms(2) in \<open>auto simp: sync_call_def\<close>)

lemma sync_call_steps:
  "(\<And>a d. at_most_step w d (snd (call a d))) \<Longrightarrow> at_most_step w (as_db s) (as_db (snd (sync_call c cl rq p call s)))"
  using sync_call_db [of "\<lambda>a d d'. at_most_step w d d'" call] by auto

lemma submitSync_steps [handler_steps]: "at_most_step (ac_world c) (as_db s) (as_db (snd (submitSync c cl rq s)))"
  unfolding submitSync_def
  by (auto simp: at_most_stepI [OF server_step.submits] intro!: sync_call_steps split: sum.split prod.split option.split)


lemma preserve_handler_steps [handler_steps]: "at_most_step (ac_world c) (as_db s) (as_db (snd (preserveDeleteFolder c cl rq s)))"
  unfolding preserveDeleteFolder_def
  by (auto simp: at_most_stepI [OF server_step.preserves] intro!: sync_call_steps split: sum.split prod.split option.split)

lemma pullSync_steps [handler_steps]: "at_most_step w (as_db s) (as_db (snd (pullSync c cl rq s)))"
  unfolding pullSync_def by (auto intro!: sync_call_steps split: sum.split prod.split option.split)

lemma blob_put_steps: "at_most_step w (as_db s) (as_db (snd (blob_put c cl rq u hash s)))"
proof -
  obtain r bs d where p: "Put (cfg_ext c) (ac_quota c) u (cl_stages cl) (exact_body rq) hash (as_blobs s) (as_db s) = (r, bs, d)"
    by (cases "Put (cfg_ext c) (ac_quota c) u (cl_stages cl) (exact_body rq) hash (as_blobs s) (as_db s)") auto
  from Put_uploads [OF p] obtain rows es where d: "d = (as_db s)\<lparr>blobs := rows, entitlements := entitlements (as_db s) @ es\<rparr>" by blast
  have "at_most_step w (as_db s) d" unfolding d at_most_step_def using server_step.uploads by blast
  then show ?thesis using p by (auto simp: blob_put_def split: list.split)
qed

lemma blob_steps [handler_steps]: "at_most_step w (as_db s) (as_db (snd (blob_handler c cl rq rawHash s)))"
  using blob_put_steps [of w s c cl rq] by (auto simp: blob_handler_def split: sum.split option.split)

lemma ServeHTTP_steps: "at_most_step (ac_world c) (as_db s) (as_db (snd (ServeHTTP c cl rq s)))"
  unfolding ServeHTTP_def Let_def by (simp add: handler_steps)

section \<open>Sessions\<close>

text \<open>The routes that ask for a session.\<close>

definition session_route :: "string \<Rightarrow> bool" where
  "session_route path \<longleftrightarrow>
     path \<in> set [''/v1/auth/logout'', ''/v1/sessions'', ''/v1/sync/operations'', ''/v1/sync/folder-preserve-delete'', ''/v1/sync/changes''] \<or>
     onePathSegment path ''/v1/devices/'' \<or> onePathSegment path ''/v1/sessions/'' \<or> onePathSegment path ''/v1/blobs/''"

definition denies :: "http_response \<Rightarrow> bool" where
  "denies a \<longleftrightarrow> rs_status a \<in> {400, 401, 405, 500}"

lemma denies_errors [simp]: "denies (methodNotAllowed rq m)" "denies (invalid_request rq)" "denies (internal_error rq)" "denies (writeAPIError rq 401 e)"
  by (simp_all add: denies_def methodNotAllowed_def writeAPIError_def writeJSON_def writeJSON_with_def)

lemma authenticate_denies: "authenticate c cl rq d = Inl a \<Longrightarrow> denies a"
  by (auto simp: authenticate_def split: option.splits sum.splits session_error.splits)

lemma segment_path: "onePathSegment p pre \<Longrightarrow> \<exists>seg. p = pre @ seg \<and> seg \<noteq> [] \<and> CHR ''/'' \<notin> set seg"
  unfolding onePathSegment_def has_prefix_def by (metis append_take_drop_id)

named_theorems denying "handlers that refuse a request without a session"

lemma handlers_deny [denying]:
  assumes "authenticate c cl rq (as_db s) = Inl a"
  shows "snd (logout_handler c cl rq s) = s \<and> denies (fst (logout_handler c cl rq s))"
    "snd (listSessions_handler c cl rq s) = s \<and> denies (fst (listSessions_handler c cl rq s))"
    "snd (device_handler c cl rq raw s) = s \<and> denies (fst (device_handler c cl rq raw s))"
    "snd (session_handler c cl rq raw s) = s \<and> denies (fst (session_handler c cl rq raw s))"
    "snd (blob_handler c cl rq raw s) = s \<and> denies (fst (blob_handler c cl rq raw s))"
    "snd (submitSync c cl rq s) = s \<and> denies (fst (submitSync c cl rq s))"
    "snd (preserveDeleteFolder c cl rq s) = s \<and> denies (fst (preserveDeleteFolder c cl rq s))"
    "snd (pullSync c cl rq s) = s \<and> denies (fst (pullSync c cl rq s))"
  using assms authenticate_denies [OF assms]
  by (simp_all add: logout_handler_def listSessions_handler_def device_handler_def session_handler_def blob_handler_def
      submitSync_def preserveDeleteFolder_def pullSync_def)

lemma session_routes:
  assumes route: "session_route (rq_path rq)"
  shows "ServeHTTP c cl rq s \<in> {(invalid_request rq, s), logout_handler c cl rq s, listSessions_handler c cl rq s, submitSync c cl rq s,
      preserveDeleteFolder c cl rq s, pullSync c cl rq s} \<or>
    (\<exists>raw. ServeHTTP c cl rq s \<in> {device_handler c cl rq raw s, session_handler c cl rq raw s, blob_handler c cl rq raw s})"
proof -
  let ?p = "rq_path rq"
  from route consider "?p = ''/v1/auth/logout''" | "?p = ''/v1/sessions''" | "?p = ''/v1/sync/operations''"
    | "?p = ''/v1/sync/folder-preserve-delete''" | "?p = ''/v1/sync/changes''"
    | "onePathSegment ?p ''/v1/devices/''" | "onePathSegment ?p ''/v1/sessions/''" | "onePathSegment ?p ''/v1/blobs/''"
    by (auto simp: session_route_def)
  then show ?thesis
  proof cases
    case 6
    then obtain seg where "?p = ''/v1/devices/'' @ seg" using segment_path by blast
    then show ?thesis using 6 by (simp add: ServeHTTP_def Let_def) blast
  next
    case 7
    then obtain seg where "?p = ''/v1/sessions/'' @ seg" "seg \<noteq> []" using segment_path by blast
    then show ?thesis using 7 by (simp add: ServeHTTP_def Let_def) blast
  next
    case 8
    then obtain seg where "?p = ''/v1/blobs/'' @ seg" using segment_path by blast
    then show ?thesis using 8 by (simp add: ServeHTTP_def Let_def) blast
  qed (simp_all add: ServeHTTP_def Let_def onePathSegment_def has_prefix_def)
qed

lemma no_session:
  assumes route: "session_route (rq_path rq)" and none: "authenticate c cl rq (as_db s) = Inl a"
  shows "snd (ServeHTTP c cl rq s) = s \<and> denies (fst (ServeHTTP c cl rq s))"
  using session_routes [OF route, of c cl s] handlers_deny [OF none] by auto

section \<open>Accounts\<close>

text \<open>What the synchronization state of an account is: its rows, its cursor and its entitlements.\<close>

definition account_view ::
  "db \<Rightarrow> uuid \<Rightarrow> (obj_row list \<times> op_row list \<times> ver_row list \<times> chg_row list \<times> nat) \<times> (uuid \<times> string) list" where
  "account_view d v = (user_view d v, filter (\<lambda>(u, h). u = v) (entitlements d))"

lemma account_view_acts: "acts_for u d d' \<Longrightarrow> v \<noteq> u \<Longrightarrow> account_view d' v = account_view d v"
  using same_accounts_same [of d d'] by (simp add: acts_for_def account_view_def)

lemma account_view_same: "same_history d d' \<Longrightarrow> entitlements d' = entitlements d \<Longrightarrow> account_view d' v = account_view d v"
  by (simp add: account_view_def user_view_def same_history_def last_cursor_def)

lemma account_view_preserve:
  assumes "sync_inv d" and "v \<noteq> a_user a"
  shows "account_view (snd (PreserveAndDeleteEmptyFolder x a now fresh r d)) v = account_view d v"
proof -
  from preserve_acts [OF assms(1)] obtain d1 where d1: "acts_for (a_user a) d d1" "same_sync d1 (snd (PreserveAndDeleteEmptyFolder x a now fresh r d))" by blast
  from account_view_same [of d1] same_sync_same [OF d1(2)] account_view_acts [OF d1(1) assms(2)] show ?thesis by metis
qed

lemma account_view_Put:
  assumes "Put x quota u tokens source hash s d = (r, s', d')" and "v \<noteq> u"
  shows "account_view d' v = account_view d v"
  using assms(1)
proof (cases rule: Put_cases)
  case (stored n content d1)
  have "\<exists>bs. d1 = d\<lparr>blobs := bs\<rparr>" using stored(10) by (cases rule: register_cases) (auto intro: exI [of _ "blobs d"])
  then show ?thesis using stored(11) assms(2) by (auto simp: grant_blob_def account_view_def user_view_def last_cursor_def)
qed simp_all

lemma sync_call_isolates:
  assumes "\<And>a d. sync_inv d \<Longrightarrow> v \<noteq> a_user a \<Longrightarrow> account_view (snd (call a d)) v = account_view d v"
    and "sync_inv (as_db s)" "v \<noteq> pr_user p"
  shows "account_view (as_db (snd (sync_call c cl rq p call s))) v = account_view (as_db s) v"
proof (cases "ForActor (cfg_ext c) (pr_user p) (pr_device p)")
  case (Inr a)
  then have "a_user a = pr_user p" by (auto simp: ForActor_def split: if_splits)
  then show ?thesis using Inr assms(1) [of "as_db s" a] assms(2,3) by (auto simp: sync_call_def split: prod.split)
qed (simp add: sync_call_def)

lemma account_view_only_sessions: "only_sessions d d' \<Longrightarrow> account_view d' v = account_view d v"
  using only_sessions_same account_view_same by blast

lemma only_result: "f = (res, d') \<Longrightarrow> only_sessions d (snd f) \<Longrightarrow> only_sessions d d'"
  by simp

lemma session_handlers_only:
  "only_sessions (as_db s) (as_db (snd (logout_handler c cl rq s)))"
  "only_sessions (as_db s) (as_db (snd (listSessions_handler c cl rq s)))"
  "only_sessions (as_db s) (as_db (snd (session_handler c cl rq raw s)))"
  "only_sessions (as_db s) (as_db (snd (device_handler c cl rq raw s)))"
  by (auto simp: logout_handler_def listSessions_handler_def session_handler_def device_handler_def split: sum.split option.split prod.split
      elim!: only_result intro: RevokeSession_only RevokeDevice_only RenameDevice_only)

text \<open>A request with a session touches the synchronization state of no other account.\<close>

lemma sync_handlers_isolate:
  assumes inv: "sync_inv (as_db s)" and token: "authenticate c cl rq (as_db s) = Inr (access, p)" and other: "v \<noteq> pr_user p"
  shows "account_view (as_db (snd (submitSync c cl rq s))) v = account_view (as_db s) v"
    "account_view (as_db (snd (preserveDeleteFolder c cl rq s))) v = account_view (as_db s) v"
    "account_view (as_db (snd (pullSync c cl rq s))) v = account_view (as_db s) v"
proof -
  note isolates = sync_call_isolates [OF _ inv other]
  show "account_view (as_db (snd (submitSync c cl rq s))) v = account_view (as_db s) v"
    using token by (auto simp: submitSync_def account_view_acts [OF Submit_acts] intro!: isolates split: option.split)
  show "account_view (as_db (snd (preserveDeleteFolder c cl rq s))) v = account_view (as_db s) v"
    using token by (auto simp: preserveDeleteFolder_def account_view_preserve intro!: isolates split: option.split)
  show "account_view (as_db (snd (pullSync c cl rq s))) v = account_view (as_db s) v"
    using token by (auto simp: pullSync_def intro!: isolates split: option.split prod.split)
qed

lemma blob_handler_isolates:
  assumes token: "authenticate c cl rq (as_db s) = Inr (access, p)" and other: "v \<noteq> pr_user p"
  shows "account_view (as_db (snd (blob_handler c cl rq raw s))) v = account_view (as_db s) v"
proof -
  have "account_view (as_db (snd (blob_put c cl rq (pr_user p) hash s))) v = account_view (as_db s) v" for hash
    using account_view_Put [OF _ other] by (auto simp: blob_put_def split: list.split prod.split)
  moreover have "u = pr_user p" if "blob_for_user x (pr_user p) bs = Inr u" for u x bs
    using that by (auto simp: blob_for_user_def split: if_splits)
  ultimately show ?thesis using token by (auto simp: blob_handler_def split: option.split sum.split)
qed

lemma session_isolates:
  assumes "sync_inv (as_db s)" and route: "session_route (rq_path rq)"
    and "authenticate c cl rq (as_db s) = Inr (access, p)" and "v \<noteq> pr_user p"
  shows "account_view (as_db (snd (ServeHTTP c cl rq s))) v = account_view (as_db s) v"
  using session_routes [OF route, of c cl s] sync_handlers_isolate [OF assms(1,3,4)] blob_handler_isolates [OF assms(3,4)]
    session_handlers_only [THEN account_view_only_sessions]
  by auto

end
