(* ===== verification/Exchange.thy ===== *)
theory Exchange
  imports System_Safety Wire Client_Converge
begin

text \<open>
  The server and a client over a network that delays, repeats and drops messages. The feed of an account
  over runs of the server: no step changes an entry, an accepted operation answers with an entry, and the
  entries of an object carry its revisions. The client, which gets pages and answers at any time and in any
  order, follows it.
\<close>

section \<open>Entries stay\<close>

definition keeps_history :: "uuid set \<Rightarrow> db \<Rightarrow> db \<Rightarrow> bool" where
  "keeps_history U d d' \<longleftrightarrow>
     (\<forall>u\<in>U. prefix (changes_of_user d u) (changes_of_user d' u) \<and>
        (\<forall>i n v. version_at d u i n = Some v \<longrightarrow> version_at d' u i n = Some v)) \<and>
     (answers_recorded d \<longrightarrow> answers_recorded d')"

lemma keeps_history_refl [simp]: "keeps_history U d d"
  by (simp add: keeps_history_def)

lemma keeps_history_trans: "keeps_history U d d' \<Longrightarrow> keeps_history U d' d'' \<Longrightarrow> keeps_history U d d''"
  unfolding keeps_history_def using prefix_order.trans by blast

lemma keeps_history_same: "same_history d d' \<Longrightarrow> keeps_history U d d'"
  using answers_recorded_same [of d' d] by (simp add: same_history_def keeps_history_def changes_of_user_def version_at_def)

lemma keeps_history_acts:
  assumes "acts_for v d d'"
  shows "keeps_history U d d'"
proof -
  have g: "prefix (versions d) (versions d')" "prefix (changes d) (changes d')" "answers_recorded d \<longrightarrow> answers_recorded d'"
    using assms by (simp_all add: acts_for_def Sync_Outcome.grows_def)
  from g(1) obtain vs where vs: "versions d' = versions d @ vs" by (auto simp: prefix_def)
  from g(2) obtain cs where cs: "changes d' = changes d @ cs" by (auto simp: prefix_def)
  show ?thesis using g(3) by (simp add: keeps_history_def changes_of_user_def version_at_def vs cs row_at_append)
qed

lemma purge_version_at: "version_at (purge_users P d) u i n = (if P u then None else version_at d u i n)"
  by (simp add: version_at_def purge_users_def row_at_filter_user [of ver_user verkey] verkey_def)

lemma keeps_history_purge:
  assumes "\<And>u. u \<in> U \<Longrightarrow> \<not> P u"
  shows "keeps_history U d (purge_users P d)"
proof -
  have "answered (purge_users P d) p" if "answered d p" "\<not> P (op_user p)" for p
    using that by (auto simp: answered_def purge_tables)
  then show ?thesis using assms by (simp add: keeps_history_def purge_changes purge_version_at answers_recorded_def purge_tables)
qed

lemma step_keeps_history:
  assumes world: "world_ok w" and inv: "system_inv w d" and known: "\<And>u. u \<in> U \<Longrightarrow> user_known d u" and step: "server_step w d d'"
  shows "keeps_history U d d'"
  using step
proof cases
  case (submits a now fresh q)
  then show ?thesis using keeps_history_acts [OF Submit_acts] by blast
next
  case (preserves a now fresh r)
  have "sync_inv d" using inv by (simp add: system_inv_def)
  from preserve_acts [OF this, of a "w_ext w" now fresh r] preserves obtain d1
    where *: "acts_for (a_user a) d d1" "same_sync d1 d'" by auto
  then show ?thesis
    using keeps_history_acts keeps_history_same same_sync_same keeps_history_trans by blast
next
  case (logs_in now random email pw name)
  then show ?thesis using only_sessions_same [OF Login_only] keeps_history_same by auto
next
  case (refreshes now random token)
  then show ?thesis using only_sessions_same [OF Refresh_only] keeps_history_same by auto
next
  case (renames now token i name)
  then show ?thesis using only_sessions_same [OF RenameDevice_only] keeps_history_same by auto
next
  case (revokes_session now token s)
  then show ?thesis using only_sessions_same [OF RevokeSession_only] keeps_history_same by auto
next
  case (revokes_device now token i)
  then show ?thesis using only_sessions_same [OF RevokeDevice_only] keeps_history_same by auto
next
  case (registers now random email pw)
  then have "only_accounts d d'" using Register_only world by (auto simp: world_ok_def)
  then show ?thesis using only_accounts_same keeps_history_same by blast
next
  case (verifies now token)
  then show ?thesis using only_accounts_same [OF VerifyEmail_only] keeps_history_same by auto
next
  case (dispatches send now)
  then obtain r where run: "DispatchOne (w_codec w) send now d = (r, d')" by (metis prod.exhaust_sel)
  have purge: "keeps_history U d (purge_users (expired_pending now d) d)"
    by (rule keeps_history_purge) (rule known_not_expired [OF inv known])
  have "keeps_history U e (reschedule now m e)" "keeps_history U e (complete_delivery m e)" for e m
    by (rule keeps_history_same; simp)+
  with run purge show ?thesis
    by (cases rule: dispatch_cases) (auto intro: keeps_history_trans)
next
  case (uploads bs es)
  then show ?thesis by (intro keeps_history_same) (simp add: same_history_def)
qed

lemma feed_prefix:
  assumes "sync_inv d" and "sync_inv d'" and keeps: "keeps_history {u} d d'"
  shows "prefix (change_feed d u) (change_feed d' u)"
proof -
  from keeps obtain cs where cs: "changes_of_user d' u = changes_of_user d u @ cs"
    by (auto simp: keeps_history_def prefix_def)
  have "change_version_of d' c = change_version_of d c" if "c \<in> set (changes_of_user d u)" for c
  proof -
    from that have c: "c \<in> set (changes d)" "chg_user c = u" by (auto simp: changes_of_user_def)
    from change_version [OF assms(1) c(1)] obtain v where "version_at d u (chg_object c) (chg_rev c) = Some v"
      unfolding c(2) by metis
    with keeps c(2) show ?thesis by (simp add: change_version_of_def keeps_history_def)
  qed
  then have "map (\<lambda>c. version_state_of c (change_version_of d' c)) (changes_of_user d u) = change_feed d u"
    using change_feed_eq [OF assms(1)] by simp
  then show ?thesis unfolding change_feed_eq [OF assms(2)] cs by (simp add: prefix_def)
qed

section \<open>Revisions\<close>

text \<open>A list in which the entries of every key are numbered from 1.\<close>

lemma numbered_entry:
  assumes "\<And>i. \<exists>k. map num (filter (\<lambda>x. key x = i) xs) = [1..<Suc k]" and "n < length xs"
  shows "num (xs ! n) = Suc (length (filter (\<lambda>x. key x = key (xs ! n)) (take n xs)))"
proof -
  let ?i = "key (xs ! n)"
  let ?before = "filter (\<lambda>x. key x = ?i) (take n xs)" and ?after = "filter (\<lambda>x. key x = ?i) (drop (Suc n) xs)"
  from assms(1) [of ?i] obtain k where k: "map num (filter (\<lambda>x. key x = ?i) xs) = [1..<Suc k]" by blast
  have "xs = take n xs @ xs ! n # drop (Suc n) xs" by (rule id_take_nth_drop [OF assms(2)])
  then have "filter (\<lambda>x. key x = ?i) xs = ?before @ filter (\<lambda>x. key x = ?i) (xs ! n # drop (Suc n) xs)"
    by (metis filter_append)
  then have split: "map num (filter (\<lambda>x. key x = ?i) xs) = map num ?before @ num (xs ! n) # map num ?after" by simp
  have "length (map num (filter (\<lambda>x. key x = ?i) xs)) = length ?before + Suc (length ?after)" unfolding split by simp
  then have "length ?before < k" unfolding k by (simp del: upt_Suc)
  moreover have "(map num (filter (\<lambda>x. key x = ?i) xs)) ! length ?before = num (xs ! n)"
    unfolding split by (simp add: nth_append)
  ultimately show ?thesis unfolding k by (simp del: upt_Suc)
qed

lemma feed_numbered:
  assumes inv: "sync_inv d"
  shows "map v_revision (filter (\<lambda>v. v_object v = i) (change_feed d u)) =
    [1..<Suc (case loadObject d u i of None \<Rightarrow> 0 | Some r \<Rightarrow> o_rev r)]"
proof -
  have feed: "filter (\<lambda>v. v_object v = i) (change_feed d u) = map (\<lambda>c. version_state_of c (change_version_of d c)) (changes_of_object d u i)"
    by (rule feed_of_object [OF inv])
  have rev: "v_revision (version_state_of c (change_version_of d c)) = chg_rev c" if "c \<in> set (changes_of_object d u i)" for c
  proof -
    from that have "c \<in> set (changes d)" by (auto simp: changes_of_object_def)
    from change_version [OF inv this] obtain v where "version_at d (chg_user c) (chg_object c) (chg_rev c) = Some v"
      "verkey v = (chg_user c, chg_object c, chg_rev c)" by metis
    then show ?thesis by (simp add: change_version_of_def version_state_of_def verkey_def)
  qed
  then have revs: "map v_revision (filter (\<lambda>v. v_object v = i) (change_feed d u)) = map chg_rev (changes_of_object d u i)"
    unfolding feed by simp
  show ?thesis
  proof (cases "loadObject d u i")
    case None
    then have "replica (change_feed d u) i = None" by (rule replica_feed_None [OF inv])
    then have "filter (\<lambda>v. v_object v = i) (change_feed d u) = []" by (simp add: replica_eq Let_def split: if_splits)
    then show ?thesis by (simp add: None)
  next
    case (Some r)
    then have "r \<in> set (objects d)" "o_user r = u" "o_id r = i" by (auto dest: loadObject_SomeD)
    with inv have "map chg_rev (changes_of_object d u i) = [1..<Suc (o_rev r)]"
      by (auto simp: sync_inv_def history_ok_def object_recorded_def simp del: upt_Suc)
    then show ?thesis unfolding revs by (simp add: Some del: upt_Suc)
  qed
qed

section \<open>Answers\<close>

text \<open>The entry at a cursor is the one of the change with that cursor.\<close>

lemma feed_at:
  assumes inv: "sync_inv d" and c: "c \<in> set (changes d)" "chg_user c = u"
  shows "0 < chg_cursor c \<and> chg_cursor c \<le> length (change_feed d u) \<and>
    v_object (change_feed d u ! (chg_cursor c - 1)) = chg_object c \<and> v_revision (change_feed d u ! (chg_cursor c - 1)) = chg_rev c"
proof -
  have cursors: "map chg_cursor (changes_of_user d u) = [1..<Suc (last_cursor d u)]"
    using inv by (auto simp: sync_inv_def history_ok_def simp del: upt_Suc)
  from c obtain n where n: "n < length (changes_of_user d u)" "changes_of_user d u ! n = c"
    unfolding changes_of_user_def by (metis (mono_tags, lifting) in_set_conv_nth mem_Collect_eq set_filter)
  have len: "length (changes_of_user d u) = last_cursor d u" using arg_cong [OF cursors, of length] by simp
  have "chg_cursor c = map chg_cursor (changes_of_user d u) ! n" using n by simp
  also have "\<dots> = Suc n" unfolding cursors using n(1) len by (simp del: upt_Suc)
  finally have cursor: "chg_cursor c = Suc n" .
  from change_version [OF inv c(1)] obtain v where "version_at d u (chg_object c) (chg_rev c) = Some v"
    "verkey v = (u, chg_object c, chg_rev c)" unfolding c(2) by metis
  then show ?thesis
    using n len cursor by (simp add: change_feed_eq [OF inv] c(2) change_version_of_def version_state_of_def verkey_def)
qed

text \<open>An accepted submission answers with an entry of the feed, fresh or replayed.\<close>

lemma accepted_answer:
  assumes inv: "sync_inv d'" and rec: "answers_recorded d'" and run: "submit_tx x a now fresh q d = Inr (res, d')" and "r_accepted res"
    and same: "\<And>p. operation_at d' (a_user a) (m_operation q) = Some p \<Longrightarrow> op_object p = m_object q"
  shows "0 < r_cursor res \<and> r_cursor res \<le> length (change_feed d' (a_user a)) \<and>
    v_object (change_feed d' (a_user a) ! (r_cursor res - 1)) = m_object q \<and>
    v_revision (change_feed d' (a_user a) ! (r_cursor res - 1)) = r_revision res"
proof -
  from run obtain m hash where canon: "canonicalize x q = Inr (m, hash)" by (cases rule: submit_tx_cases) auto
  then have "m_operation m = m_operation q" using canonicalize_InrD(1) mutation_shape_InrD by blast
  with submit_tx_stores [OF run canon] obtain p where p: "operation_at d' (a_user a) (m_operation q) = Some p" "stored_result p = res"
    by (auto simp: stores_result_def)
  then have mem: "p \<in> set (operations d')" "op_user p = a_user a" by (auto simp: operation_at_def opkey_def dest!: row_at_SomeD)
  have acc: "op_accepted p" "op_cursor p = Some n \<Longrightarrow> r_cursor res = n" "op_revision p = Some n \<Longrightarrow> r_revision res = n" for n
    using p(2) \<open>r_accepted res\<close> by (auto simp: stored_result_def accepted_result_def split: if_splits)
  with rec mem(1) obtain c where c: "c \<in> set (changes d')" "chg_user c = op_user p" "chg_object c = op_object p"
    "op_cursor p = Some (chg_cursor c)" "op_revision p = Some (chg_rev c)" by (auto simp: answers_recorded_def answered_def)
  then show ?thesis using feed_at [OF inv c(1)] mem(2) acc(2,3) same [OF p(1)] by simp
qed

text \<open>Every state the server can reach has its answers recorded.\<close>

lemma step_answers_recorded:
  assumes "system_inv w d \<and> answers_recorded d" and "run_step w d d'"
  shows "system_inv w d' \<and> answers_recorded d'"
proof -
  have "keeps_history {} d d'" by (rule step_keeps_history) (use assms in \<open>auto simp: run_step_def\<close>)
  then show ?thesis using assms system_inv_step by (auto simp: keeps_history_def run_step_def)
qed

interpretation answered_server: system_invariant "run_step w" "\<lambda>d. system_inv w d \<and> answers_recorded d" empty_db
proof unfold_locales
  show "system_inv w empty_db \<and> answers_recorded empty_db" using system_inv_empty by (simp add: answers_recorded_def empty_db_def)
qed (rule step_answers_recorded)

lemma reachable_answers: "reachable w d \<Longrightarrow> system_inv w d \<and> answers_recorded d"
  unfolding reachable_def by (rule answered_server.reachable)

section \<open>The feed as the client sees it\<close>

definition client_feed :: "db \<Rightarrow> uuid \<Rightarrow> client_change list" where
  "client_feed d u = map client_change_of (change_feed d u)"

definition server_revision :: "db \<Rightarrow> uuid \<Rightarrow> uuid \<Rightarrow> nat" where
  "server_revision d u i = (case loadObject d u i of None \<Rightarrow> 0 | Some r \<Rightarrow> o_rev r)"

lemma client_change_of_simps [simp]:
  "ch_cursor (client_change_of v) = v_cursor v" "ch_object (client_change_of v) = v_object v" "ch_revision (client_change_of v) = v_revision v"
  by (simp_all add: client_change_of_def)

lemma length_client_feed: "sync_inv d \<Longrightarrow> length (client_feed d u) = last_cursor d u"
  by (simp add: client_feed_def length_change_feed)

lemma feed_numbers: "sync_inv d \<Longrightarrow> map v_revision (filter (\<lambda>v. v_object v = i) (change_feed d u)) = [1..<Suc (server_revision d u i)]"
  unfolding server_revision_def by (rule feed_numbered)

lemma latest_client_feed:
  assumes "sync_inv d"
  shows "latest (client_feed d u) i = server_revision d u i"
  using arg_cong [OF feed_numbers [OF assms, of i u], of length]
  by (simp add: latest_def client_feed_def filter_map comp_def del: upt_Suc)

lemma change_cursor_nth:
  assumes "sync_inv d" and "n < length (change_feed d u)"
  shows "v_cursor (change_feed d u ! n) = Suc n"
proof -
  have "map v_cursor (change_feed d u) ! n = Suc n"
    unfolding change_feed_cursors [OF assms(1)] using assms length_change_feed [OF assms(1), of u] by (simp del: upt_Suc)
  then show ?thesis using assms(2) by simp
qed

lemma client_feed_ok:
  assumes "sync_inv d"
  shows "feed_ok (client_feed d u)"
proof -
  have "v_revision (change_feed d u ! n) = Suc (length (filter (\<lambda>v. v_object v = v_object (change_feed d u ! n)) (take n (change_feed d u))))"
    if "n < length (change_feed d u)" for n
    by (rule numbered_entry [OF _ that]) (use feed_numbers [OF assms] in blast)
  then show ?thesis
    using change_cursor_nth [OF assms] by (simp add: feed_ok_def client_feed_def latest_def take_map filter_map comp_def)
qed

lemma feed_change_from:
  assumes "sync_inv d" and "v \<in> set (change_feed d u)"
  shows "from_feed (client_feed d u) (client_change_of v)"
proof -
  from assms(2) obtain n where "n < length (change_feed d u)" "v = change_feed d u ! n" by (auto simp: in_set_conv_nth)
  then show ?thesis using change_cursor_nth [OF assms(1)] by (simp add: from_feed_def client_feed_def)
qed

text \<open>What holds of a feed holds of every feed that continues it.\<close>

lemma continued_nth: "prefix F F' \<Longrightarrow> n < length F \<Longrightarrow> n < length F' \<and> F' ! n = F ! n"
  by (auto simp: prefix_def nth_append)

lemma from_feed_continued: "prefix F F' \<Longrightarrow> from_feed F c \<Longrightarrow> from_feed F' c"
  using continued_nth [of F F' "ch_cursor c - 1"] prefix_length_le [of F F'] by (auto simp: from_feed_def)

lemma feed_entry_continued: "prefix F F' \<Longrightarrow> feed_entry F c i n \<Longrightarrow> feed_entry F' c i n"
  using continued_nth [of F F' "c - 1"] prefix_length_le [of F F'] by (auto simp: feed_entry_def)

lemma matches_continued:
  assumes p: "prefix F F'" and m: "matches F k"
  shows "matches F' k"
proof -
  have "known_to F' k (confirmed_of k)"
    using matchesD(5) [OF m] prefix_length_le [OF p] continued_nth [OF p] by (auto simp: known_to_def)
  then show ?thesis
    using m feed_entry_continued [OF p] unfolding matches_def row_in_def step_in_def baseline_in_def by blast
qed

lemma client_feed_grows:
  assumes "system_inv w d" "user_known d u" and step: "run_step w d d'"
  shows "prefix (client_feed d u) (client_feed d' u)"
proof -
  have "system_inv w d'" using assms system_inv_step by (auto simp: run_step_def)
  moreover have "keeps_history {u} d d'" by (rule step_keeps_history) (use assms in \<open>auto simp: run_step_def\<close>)
  ultimately show ?thesis
    using assms(1) unfolding client_feed_def by (intro map_mono_prefix feed_prefix) (simp_all add: system_inv_def)
qed

section \<open>The exchange\<close>

text \<open>
  A server, the store of one client of an account and every message the server ever sent it. A message is
  not used up: it can arrive late, out of order, more than once, or never. The server goes on with the requests
  of everybody in between, other devices of the account included.
\<close>

datatype message =
    PageSent nat pull_result
  | AnswerSent uuid submit_result

record exchange =
  ex_server :: db
  ex_client :: client_db
  ex_sent :: "message list"

definition request_of :: "outbox_op \<Rightarrow> mutation" where
  "request_of q = sent_mutation (oi_mutation (item_of q))"

text \<open>The operation of a request, if it is stored with the digest of the request, is stored for its object.\<close>

definition no_collision :: "ext \<Rightarrow> db \<Rightarrow> uuid \<Rightarrow> mutation \<Rightarrow> bool" where
  "no_collision x d u q \<longleftrightarrow>
     (\<forall>p m. operation_at d u (m_operation q) = Some p \<longrightarrow> canonicalize x q = Inr (m, op_hash p) \<longrightarrow> op_object p = m_object q)"

definition changes_sent :: "exchange \<Rightarrow> client_change set" where
  "changes_sent s = {c. \<exists>after r. PageSent after r \<in> set (ex_sent s) \<and> c \<in> set (pg_changes (page_of r))}"

text \<open>What the client does on its own: neither messages nor the statements that nothing in the client calls.\<close>

fun own_event :: "client_event \<Rightarrow> bool" where
  "own_event (Ingested now a b cs) \<longleftrightarrow> False"
| "own_event (Planned now plan) \<longleftrightarrow> False"
| "own_event (Answered i r) \<longleftrightarrow> False"
| "own_event (Confirmed n) \<longleftrightarrow> False"
| "own_event (RowApplying now c) \<longleftrightarrow> False"
| "own_event (RowApplied now c) \<longleftrightarrow> False"
| "own_event e \<longleftrightarrow> True"

inductive exchange_step :: "world \<Rightarrow> uuid \<Rightarrow> exchange \<Rightarrow> exchange \<Rightarrow> bool" for w u where
  serves: "run_step w (ex_server s) d \<Longrightarrow> exchange_step w u s (s\<lparr>ex_server := d\<rparr>)"
| pulls: "Pull a after limit (ex_server s) = Inr r \<Longrightarrow> a_user a = u \<Longrightarrow>
    exchange_step w u s (s\<lparr>ex_sent := PageSent after r # ex_sent s\<rparr>)"
| submits: "q \<in> set (cd_outbox (ex_client s)) \<Longrightarrow> a_user a = u \<Longrightarrow> world_ok w \<Longrightarrow> no_collision (w_ext w) (ex_server s) u (request_of q) \<Longrightarrow>
    Submit (w_ext w) a now fresh (request_of q) (ex_server s) = (Inr r, d) \<Longrightarrow>
    exchange_step w u s (s\<lparr>ex_server := d, ex_sent := AnswerSent (ob_op q) r # ex_sent s\<rparr>)"
| ingests: "PageSent after r \<in> set (ex_sent s) \<Longrightarrow>
    exchange_step w u s (s\<lparr>ex_client := client_step (w_ext w) (Ingested now after (p_next r) (pg_changes (page_of r))) (ex_client s)\<rparr>)"
| records: "AnswerSent i r \<in> set (ex_sent s) \<Longrightarrow>
    exchange_step w u s (s\<lparr>ex_client := client_step (w_ext w) (Answered i (client_result_of r)) (ex_client s)\<rparr>)"
| plans: "set (pl_steps plan) \<subseteq> changes_sent s \<Longrightarrow>
    exchange_step w u s (s\<lparr>ex_client := client_step (w_ext w) (Planned now plan) (ex_client s)\<rparr>)"
| works: "own_event e \<Longrightarrow> exchange_step w u s (s\<lparr>ex_client := client_step (w_ext w) e (ex_client s)\<rparr>)"

inductive_cases exchange_stepE: "exchange_step w u s s'"

section \<open>What the exchange keeps\<close>

text \<open>The messages tell of the feed.\<close>

fun message_true :: "client_change list \<Rightarrow> client_db \<Rightarrow> message \<Rightarrow> bool" where
  "message_true F k (PageSent after r) \<longleftrightarrow> list_all (from_feed F) (pg_changes (page_of r))"
| "message_true F k (AnswerSent i r) \<longleftrightarrow>
     (\<exists>q\<in>set (cd_outbox k). ob_op q = i \<and> (r_accepted r \<longrightarrow> feed_entry F (r_cursor r) (ob_object q) (r_revision r)))"

definition exchange_ok :: "world \<Rightarrow> uuid \<Rightarrow> exchange \<Rightarrow> bool" where
  "exchange_ok w u s \<longleftrightarrow>
     system_inv w (ex_server s) \<and> answers_recorded (ex_server s) \<and> user_known (ex_server s) u \<and>
     client_inv (w_ext w) (ex_client s) \<and> matches (client_feed (ex_server s) u) (ex_client s) \<and>
     list_all (message_true (client_feed (ex_server s) u) (ex_client s)) (ex_sent s)"

lemma exchange_okD:
  assumes "exchange_ok w u s"
  shows "system_inv w (ex_server s)" "answers_recorded (ex_server s)" "user_known (ex_server s) u" "client_inv (w_ext w) (ex_client s)"
    "matches (client_feed (ex_server s) u) (ex_client s)"
    "m \<in> set (ex_sent s) \<Longrightarrow> message_true (client_feed (ex_server s) u) (ex_client s) m"
  using assms by (simp_all add: exchange_ok_def list_all_iff)

lemma message_continued: "prefix F F' \<Longrightarrow> message_true F k m \<Longrightarrow> message_true F' k m"
  using from_feed_continued feed_entry_continued by (cases m) (auto simp: list_all_iff)

lemma message_later:
  assumes "client_later k k'" and "message_true F k m"
  shows "message_true F k' m"
proof (cases m)
  case (AnswerSent i r)
  with assms(2) obtain q where q: "q \<in> set (cd_outbox k)" "ob_op q = i" "r_accepted r \<longrightarrow> feed_entry F (r_cursor r) (ob_object q) (r_revision r)"
    by auto
  from assms(1) have "grown op_later (cd_outbox k) (cd_outbox k')" by (simp add: client_later_def outbox_later_def)
  from grown_member [OF this q(1)] obtain q' where "q' \<in> set (cd_outbox k')" "op_later q q'" by blast
  then show ?thesis using q AnswerSent by (auto simp: op_later_def op_payload_def)
qed (use assms(2) in simp)

text \<open>The server's part.\<close>

lemma server_moves:
  assumes ok: "exchange_ok w u s" and step: "run_step w (ex_server s) d"
  shows "exchange_ok w u (s\<lparr>ex_server := d\<rparr>)"
proof -
  note old = exchange_okD [OF ok]
  have p: "prefix (client_feed (ex_server s) u) (client_feed d u)" by (rule client_feed_grows [OF old(1,3) step])
  have "system_inv w d \<and> answers_recorded d" using step_answers_recorded old(1,2) step by blast
  moreover have "user_known d u"
    using step_persists [of w "ex_server s" u d] old(1,3) step by (simp add: run_step_def persists_def)
  ultimately show ?thesis
    using old(4) matches_continued [OF p old(5)] message_continued [OF p] old(6) by (simp add: exchange_ok_def list_all_iff)
qed

text \<open>The client's part.\<close>

lemma client_moves:
  assumes ok: "exchange_ok w u s" and honest: "honest (client_feed (ex_server s) u) (ex_client s) e"
  shows "exchange_ok w u (s\<lparr>ex_client := client_step (w_ext w) e (ex_client s)\<rparr>)"
proof -
  note old = exchange_okD [OF ok]
  have "client_inv (w_ext w) (client_step (w_ext w) e (ex_client s))" "client_later (ex_client s) (client_step (w_ext w) e (ex_client s))"
    using good_client_step [OF old(4), of e] by (simp_all add: good_step_def)
  then show ?thesis
    using old honest_step [OF old(4,5) honest] message_later by (simp add: exchange_ok_def list_all_iff)
qed

lemma own_honest: "own_event e \<Longrightarrow> honest F k e"
  by (cases e) simp_all

lemma answer_honest:
  assumes "client_inv x k" and "message_true F k (AnswerSent i r)"
  shows "honest F k (Answered i (client_result_of r))"
proof -
  from assms(2) obtain q where q: "q \<in> set (cd_outbox k)" "ob_op q = i" "r_accepted r \<longrightarrow> feed_entry F (r_cursor r) (ob_object q) (r_revision r)"
    by auto
  have "distinct (map ob_op (cd_outbox k))" using client_invD(1) [OF assms(1)] by (simp add: outbox_ok_def)
  then have "q' = q" if "q' \<in> set (cd_outbox k)" "ob_op q' = i" for q'
    using that q(1,2) by (auto simp: distinct_map inj_on_def)
  then show ?thesis using q(3) by (auto simp: list_all_iff client_result_of_def)
qed

lemma changes_sent_from:
  assumes "exchange_ok w u s" and "c \<in> changes_sent s"
  shows "from_feed (client_feed (ex_server s) u) c"
proof -
  from assms(2) obtain after r where r: "PageSent after r \<in> set (ex_sent s)" "c \<in> set (pg_changes (page_of r))"
    by (auto simp: changes_sent_def)
  then show ?thesis using exchange_okD(6) [OF assms(1) r(1)] by (simp add: list_all_iff)
qed

text \<open>What the server sends is true.\<close>

lemma page_true:
  assumes "sync_inv d" and "Pull a after limit d = Inr r"
  shows "message_true (client_feed d (a_user a)) k (PageSent after r)"
proof -
  from assms(2) obtain l where r: "r = pull_page d (a_user a) after l"
    by (auto simp: Pull_def rbind_Inr_iff Let_def split: if_splits)
  have "set (p_changes r) \<subseteq> set (change_feed d (a_user a))"
    by (auto simp: r pull_page_def Let_def dest!: in_set_takeD split: if_splits)
  then show ?thesis using feed_change_from [OF assms(1)] by (auto simp: page_of_def list_all_iff)
qed

lemma inserted_operation:
  "insertOperation a m hash now res d = Inr d' \<Longrightarrow> operation_at d' (a_user a) (m_operation m) = Some (operation_row a m hash now res)"
  by (auto simp: insertOperation_def statement_iffs operation_at_append operation_row_ok_def operation_row_def opkey_def)

lemma accepted_operation:
  assumes run: "submit_tx x a now fresh q d = Inr (r, d')" and "r_accepted r" and "no_collision x d (a_user a) q"
    and at: "operation_at d' (a_user a) (m_operation q) = Some p"
  shows "op_object p = m_object q"
  using run
proof (cases rule: submit_tx_cases)
  case (replayed m hash)
  have "m_operation m = m_operation q" using replayed(1) canonicalize_InrD(1) mutation_shape_InrD by blast
  then have "op_hash p = hash" using replayed(3,4) at by (auto simp: replay_def split: if_splits)
  then show ?thesis using replayed(1,4) at assms(3) by (simp add: no_collision_def)
next
  case (conflict m hash c)
  then show ?thesis using \<open>r_accepted r\<close> by (auto simp: submit_conflict_Inr_iff conflict_result_def)
next
  case (accepted m hash)
  then have m: "m_operation m = m_operation q \<and> m_object m = m_object q" using canonicalize_InrD(1) mutation_shape_InrD by blast
  from accepted(5) obtain res e e' where ins: "insertOperation a m hash now res e = Inr e'" and same: "operations d' = operations e'"
    by (auto simp: submit_accepted_Inr_iff write_history_def rbind_Inr_iff statement_iffs)
  then have "operation_at d' (a_user a) (m_operation q) = Some (operation_row a m hash now res)"
    using inserted_operation [OF ins] m by (simp add: operation_at_def same)
  then show ?thesis using at m by (simp add: operation_row_def)
qed

lemma request_of_simps: "m_operation (request_of q) = ob_op q" "m_object (request_of q) = ob_object q"
  by (simp_all add: request_of_def sent_mutation_def item_of_def Let_def)

lemma answer_true:
  assumes ok: "exchange_ok w u s" and q: "q \<in> set (cd_outbox (ex_client s))" and user: "a_user a = u" and "world_ok w"
    and fresh_hash: "no_collision (w_ext w) (ex_server s) u (request_of q)"
    and run: "Submit (w_ext w) a now fresh (request_of q) (ex_server s) = (Inr r, d)"
  shows "exchange_ok w u (s\<lparr>ex_server := d\<rparr>)" "message_true (client_feed d u) (ex_client s) (AnswerSent (ob_op q) r)"
proof -
  have "server_step w (ex_server s) d" using server_step.submits [of w "ex_server s" a now fresh "request_of q"] run by simp
  then show kept: "exchange_ok w u (s\<lparr>ex_server := d\<rparr>)" using server_moves [OF ok] \<open>world_ok w\<close> by (simp add: run_step_def)
  have tx: "submit_tx (w_ext w) a now fresh (request_of q) (ex_server s) = Inr (r, d)"
    using run by (auto simp: Submit_def run_tx_def split: sum.splits)
  have inv: "sync_inv d" "answers_recorded d" using exchange_okD(1,2) [OF kept] by (simp_all add: system_inv_def)
  have "feed_entry (client_feed d u) (r_cursor r) (ob_object q) (r_revision r)" if "r_accepted r"
  proof -
    have "op_object p = m_object (request_of q)" if "operation_at d (a_user a) (m_operation (request_of q)) = Some p" for p
      using accepted_operation [OF tx \<open>r_accepted r\<close> _ that] fresh_hash user by simp
    from accepted_answer [OF inv tx that this]
    show ?thesis by (auto simp: feed_entry_def client_feed_def user request_of_simps)
  qed
  then show "message_true (client_feed d u) (ex_client s) (AnswerSent (ob_op q) r)" using q by auto
qed

lemma exchange_keeps:
  assumes "exchange_step w u s s'" and "exchange_ok w u s"
  shows "exchange_ok w u s'"
  using assms(1)
proof cases
  case (serves d)
  then show ?thesis using server_moves [OF assms(2)] by simp
next
  case (pulls a limit r after)
  have "sync_inv (ex_server s)" using exchange_okD(1) [OF assms(2)] by (simp add: system_inv_def)
  from page_true [OF this] pulls show ?thesis using assms(2) by (auto simp: exchange_ok_def)
next
  case (submits q a now fresh r d)
  then show ?thesis using answer_true [OF assms(2) submits(2-6)] by (simp add: exchange_ok_def)
next
  case (ingests after r now)
  then show ?thesis using client_moves [OF assms(2), of "Ingested now after (p_next r) (pg_changes (page_of r))"] exchange_okD(6) [OF assms(2) ingests(2)] by simp
next
  case (records i r)
  then show ?thesis
    using client_moves [OF assms(2), of "Answered i (client_result_of r)"] answer_honest exchange_okD(4) [OF assms(2)] exchange_okD(6) [OF assms(2) records(2)] by blast
next
  case (plans plan now)
  then show ?thesis
    using client_moves [OF assms(2), of "Planned now plan"] changes_sent_from [OF assms(2)] by (auto simp: list_all_iff)
next
  case (works e)
  then show ?thesis using client_moves [OF assms(2) own_honest] by simp
qed

interpretation exchange: stable_fact "exchange_step w u" "exchange_ok w u" for w u
  by unfold_locales (rule exchange_keeps)

lemma exchange_begins:
  assumes "system_inv w d" "answers_recorded d" "user_known d u"
  shows "exchange_ok w u \<lparr>ex_server = d, ex_client = no_client, ex_sent = []\<rparr>"
  using assms no_client_inv no_client_matches by (simp add: exchange_ok_def)

text \<open>In every state of the exchange the client is between its confirmed cursor and the server.\<close>

lemma exchange_agrees:
  assumes "exchange_ok w u s"
  shows "latest (take (confirmed_of (ex_client s)) (client_feed (ex_server s) u)) i \<le> baseline_revision (ex_client s) i \<and>
    baseline_revision (ex_client s) i \<le> server_revision (ex_server s) u i \<and>
    confirmed_of (ex_client s) \<le> last_cursor (ex_server s) u \<and>
    (confirmed_of (ex_client s) = last_cursor (ex_server s) u \<longrightarrow> baseline_revision (ex_client s) i = server_revision (ex_server s) u i)"
proof -
  note ok = exchange_okD [OF assms]
  have inv: "sync_inv (ex_server s)" using ok(1) by (simp add: system_inv_def)
  note bounds = matches_bounds [OF client_feed_ok [OF inv] ok(5), of i]
  have "confirmed_of (ex_client s) \<le> length (client_feed (ex_server s) u)" using matchesD(5) [OF ok(5)] by (simp add: known_to_def)
  then show ?thesis using bounds by (auto simp: latest_client_feed [OF inv] length_client_feed [OF inv])
qed

end
