(* ===== verification/Properties_Wire.thy ===== *)
theory Properties_Wire
  imports Example_Wire Api_Safety Exchange
begin

text \<open>
  The properties of the HTTP interface, of the contents it stores and of the client's access to it, each
  with a closed example.
\<close>

section \<open>Messages\<close>



text \<open>Keys are compared exactly where duplicates are looked for and up to case where fields are: of two such keys
  the later one counts.\<close>

lemma folded_key_overrides:
  assumes "valid_utf8 a" "valid_utf8 b" and "length (json_text (JObject [(''token'', JString a), (''TOKEN'', JString b)])) \<le> maxJSONBodyBytes"
  shows "decode_strict maxJSONBodyBytes [] [] (read_struct (token_field ''token'')) [] (json_text (JObject [(''token'', JString a), (''TOKEN'', JString b)])) = Some b"
proof -
  have ascii: "is_ascii ''token''" "is_ascii ''TOKEN''" by (simp_all add: is_ascii_def code_def)
  have "fold_key ''token'' = fold_key ''TOKEN''"
    unfolding fold_key_def runes_ascii [OF ascii(1)] runes_ascii [OF ascii(2)] by (simp add: fold_rune_def code_def)
  moreover have "json_ok (JObject [(''token'', JString a), (''TOKEN'', JString b)])"
    using assms(1,2) valid_utf8_ascii [OF ascii(1)] valid_utf8_ascii [OF ascii(2)] by (simp del: valid_utf8.simps)
  ultimately show ?thesis
    using assms(3) by (simp add: decode_strict_body maxNestingDepth_def required_fields_def read_object token_field_def field_named_def del: json_text.simps json_ok.simps)
qed

section \<open>The interface\<close>


text \<open>C9: on every route that asks for a session, a request whose token does not authenticate is refused and
  leaves the whole state, limiters and stored contents included, as it was.\<close>

theorem no_session_no_effect:
  assumes "session_route (rq_path rq)" and "\<forall>token. bearerToken rq = Some token \<longrightarrow> (\<exists>e. AuthenticateAccess (cfg_ext c) (cl_now cl) token (as_db s) = Inl e)"
  shows "snd (ServeHTTP c cl rq s) = s \<and> rs_status (fst (ServeHTTP c cl rq s)) \<in> {400, 401, 405, 500}"
proof -
  have "\<exists>a. authenticate c cl rq (as_db s) = Inl a"
    using assms(2) by (auto simp: authenticate_def split: option.split sum.split session_error.split)
  then show ?thesis using no_session [OF assms(1)] by (auto simp: denies_def)
qed

definition anonymous_request :: http_request where
  "anonymous_request = \<lparr>rq_method = ''GET'', rq_path = ''/v1/sync/changes'', rq_query = [], rq_headers = [], rq_body = [], rq_length = 0\<rparr>"

theorem no_session_no_effect_witness: "snd (ServeHTTP demo_config demo_call anonymous_request online_state) = online_state"
proof -
  have "bearerToken anonymous_request = None" by (simp add: bearerToken_def header_values_def anonymous_request_def)
  moreover have "session_route (rq_path anonymous_request)" by (simp add: session_route_def anonymous_request_def)
  ultimately show ?thesis using no_session_no_effect [of anonymous_request demo_config demo_call online_state] by simp
qed

text \<open>C10: a request with a session acts for the account of its token alone: every other account has the same
  objects, operations, versions, changes, cursor and entitlements as before.\<close>

theorem requests_isolate_accounts:
  assumes "sync_inv (as_db s)" and "session_route (rq_path rq)"
    and "authenticate c cl rq (as_db s) = Inr (access, p)" and "v \<noteq> pr_user p"
  shows "account_view (as_db (snd (ServeHTTP c cl rq s))) v = account_view (as_db s) v"
  using assms by (rule session_isolates)

definition online_request :: http_request where
  "online_request = anonymous_request\<lparr>rq_headers := [(''Authorization'', [''Bearer '' @ demo_token43])]\<rparr>"

theorem requests_isolate_accounts_witness:
  "account_view (as_db (snd (ServeHTTP demo_config demo_call online_request online_state))) 7 = account_view online_db 7"
proof -
  have "same_history demo_db1 online_db" "entitlements online_db = entitlements demo_db1" "user_exists online_db = user_exists demo_db1"
    by (simp_all add: online_db_def same_history_def user_exists_def fun_eq_iff)
  then have inv: "sync_inv (as_db online_state)" using sync_inv_cong [of demo_db1 online_db] demo_sync_inv1 by simp
  have "header_values (rq_headers online_request) ''Authorization'' = [''Bearer '' @ demo_token43]"
    by (simp add: online_request_def header_values_def)
  from authenticate_token [OF this, of demo_config demo_call online_db] online_session
  have token: "authenticate demo_config demo_call online_request (as_db online_state) = Inr (demo_token43, phone_principal)" by simp
  have "session_route (rq_path online_request)" by (simp add: session_route_def online_request_def anonymous_request_def)
  from requests_isolate_accounts [OF inv this token, of 7] show ?thesis by (simp add: phone_principal_def alice_def)
qed

section \<open>The client's calls\<close>





text \<open>C13: the limit is too small for the pages the client asks for: a hundred changes whose names are allowed by
  both programs make a page the client refuses as an invalid response. Nothing changes, so the same
  page is refused again whenever it is asked for, and the client never gets past it.\<close>

theorem allowed_page_is_refused:
  assumes "pull_request token after 100 = Inr rq"
    and "AuthenticateAccess (cfg_ext c) (cl_now cl) token (as_db s) = Inr p" "ForActor (cfg_ext c) (pr_user p) (pr_device p) = Inr a" "cl_slot cl"
    and "Pull a after 100 (as_db s) = Inr r" "length (p_changes r) = 100" "\<forall>v\<in>set (p_changes r). v_name v = long_name"
  shows "call c cl (read_pull (cfg_ext c) (ac_wire c) 100) (pull_request token after 100) s = (Inl ErrInvalidResponse, s)"
  using page_too_long [OF refl refl assms(1-6)] assms(7) by (simp add: long_name_def)

theorem allowed_page_is_refused_witness:
  "ValidateComponent demo_ext long_name = Inr () \<and>
   call demo_config demo_call (read_pull demo_ext demo_wire 100) (pull_request demo_token43 0 100) long_state = (Inl ErrInvalidResponse, long_state)"
proof
  show "ValidateComponent demo_ext long_name = Inr ()" by (rule long_name_valid)
  obtain rq where rq: "pull_request demo_token43 0 100 = Inr rq" by (simp add: pull_request_def request_token)
  have "AuthenticateAccess demo_ext 6 demo_token43 (as_db long_state) = Inr phone_principal"
    using online_session_with by (simp add: long_state_def)
  moreover have "length (p_changes long_page) = 100" by (simp add: long_page_def del: upt_Suc upt_rec_numeral)
  moreover have "\<forall>v\<in>set (p_changes long_page). v_name v = long_name" by (auto simp: long_page_def version_state_of_def long_version_def)
  ultimately show "call demo_config demo_call (read_pull demo_ext demo_wire 100) (pull_request demo_token43 0 100) long_state = (Inl ErrInvalidResponse, long_state)"
    using allowed_page_is_refused [OF rq, of demo_config demo_call long_state phone_principal demo_actor long_page] online_actor long_pull by simp
qed

section \<open>Stored contents\<close>

text \<open>C11: the store of contents stays sound under uploads of any users in any order, the failing ones included:
  an audit afterwards finds every registered content on disk with its digest and length and no foreign
  file, nothing is left staged, and no account has more stored than its quota.\<close>

theorem uploads_keep_store_sound:
  assumes "digest_law x" and "blob_sound x s d" and "quota_ok quota d"
    and "fold (upload_step x quota) uploads (s, d) = (s', d')"
  shows "(\<exists>r. Audit x s' d' = Inr r \<and> Healthy r \<and> au_registered r = length (blobs d')) \<and> bs_staging s' = [] \<and> (\<forall>u. blob_usage d' u \<le> quota)"
proof -
  have "blob_sound x s' d'" "quota_ok quota d'"
    using uploads_sound [OF assms(1), of "(s, d)" quota uploads] assms(2-4) by simp_all
  then show ?thesis using Audit_sound by (simp add: blob_sound_def quota_ok_def)
qed

theorem uploads_keep_store_sound_witness:
  "\<exists>r. Audit demo_ext (fst (upload_step demo_ext 1000 upload_a (empty_store, demo_db))) (snd (upload_step demo_ext 1000 upload_a (empty_store, demo_db))) = Inr r \<and> Healthy r"
proof -
  have "digest_law demo_ext" by (simp add: digest_law_def)
  from uploads_keep_store_sound [OF this empty_store_sound, of "[upload_a]" "fst (upload_step demo_ext 1000 upload_a (empty_store, demo_db))"
      "snd (upload_step demo_ext 1000 upload_a (empty_store, demo_db))"]
  show ?thesis by auto
qed

text \<open>C12: an accepted upload can be read back by its user, with the announced digest and length, at once and
  after any further uploads of anybody.\<close>

theorem upload_stays_readable:
  assumes "blobs_ok x s d" and "Put x quota u tokens source hash s d = (Inr n, s', d')"
    and "fold (upload_step x quota') uploads (s', d') = (s'', d'')"
  shows "\<exists>c. Get x u hash s'' d'' = Inr c \<and> length c = n \<and> x_sha256 x c = hash"
proof -
  from Put_then_Get [OF assms(1,2)] obtain c where c: "Get x u hash s' d' = Inr c" "length c = n" "x_sha256 x c = hash" by blast
  then show ?thesis using uploads_keep_Get [of x u hash "(s', d')" c quota' uploads] assms(3) by auto
qed

theorem upload_stays_readable_witness:
  "\<exists>c. Get demo_ext alice (demo_digest content_a) (fst (upload_step demo_ext 1000 upload_a (empty_store, demo_db)))
      (snd (upload_step demo_ext 1000 upload_a (empty_store, demo_db))) = Inr c \<and> length c = 40"
proof -
  obtain s d where p: "Put demo_ext 1000 alice [replicate 16 (CHR ''s'')] (content_a, None) (demo_digest content_a) empty_store demo_db = (Inr 40, s, d)"
    using upload_a_put by (metis prod.exhaust_sel)
  have "blobs_ok demo_ext empty_store demo_db" using empty_store_sound by (simp add: blob_sound_def)
  from upload_stays_readable [OF this p, of 1000 "[]" s d] obtain c
    where "Get demo_ext alice (demo_digest content_a) s d = Inr c" "length c = 40" by auto
  then show ?thesis using p by (auto simp: upload_step_def upload_a_def)
qed

section \<open>Client and server\<close>

text \<open>C3: over any network a client stays between its confirmed cursor and the server. Pages and answers of the
  server may arrive late, repeatedly, out of order or never, the server serves everybody else in between, and
  the client does what it likes with its store: at every moment each baseline is at least the latest
  revision below the confirmed cursor and at most the revision of the object at the server, the confirmed
  cursor is at most the account's last cursor, and where they are equal the client knows exactly the server's
  revisions. Every state a server can reach is one to begin from; what the client submits does not share its
  digest with a request for another object under the same operation.\<close>

theorem client_and_server_agree:
  assumes "system_inv w d" "answers_recorded d" "user_known d u"
    and "(exchange_step w u)\<^sup>*\<^sup>* \<lparr>ex_server = d, ex_client = no_client, ex_sent = []\<rparr> s"
  shows "latest (take (confirmed_of (ex_client s)) (client_feed (ex_server s) u)) i \<le> baseline_revision (ex_client s) i \<and>
    baseline_revision (ex_client s) i \<le> server_revision (ex_server s) u i \<and>
    confirmed_of (ex_client s) \<le> last_cursor (ex_server s) u \<and>
    (confirmed_of (ex_client s) = last_cursor (ex_server s) u \<longrightarrow> baseline_revision (ex_client s) i = server_revision (ex_server s) u i)"
  by (rule exchange_agrees) (rule exchange.kept_run [OF assms(4) exchange_begins [OF assms(1-3)]])

definition exchange_a :: "client_db \<Rightarrow> message list \<Rightarrow> exchange" where
  "exchange_a k ms = \<lparr>ex_server = demo_db1, ex_client = k, ex_sent = ms\<rparr>"

lemma exchange_a_works:
  assumes "own_event e" and "client_step demo_ext e k = k'"
  shows "exchange_step demo_world u (exchange_a k ms) (exchange_a k' ms)"
  using exchange_step.works [OF assms(1), of demo_world u "exchange_a k ms"] assms(2) by (simp add: exchange_a_def demo_world_simps)

lemma exchange_a_run: "(exchange_step demo_world alice)\<^sup>*\<^sup>* (exchange_a no_client []) (exchange_a client_done [PageSent 0 page_a])"
proof -
  let ?ms = "[PageSent 0 page_a]"
  have pulled: "client_change_of change_a = pulled_a" by (simp add: client_change_of_def change_a_def pulled_a_def)
  have page: "p_next page_a = 1" "pg_changes (page_of page_a) = [pulled_a]" by (simp_all add: page_a_def page_of_def pulled)
  have "change_feed demo_db1 alice = [change_a]"
    by (simp add: change_feed_def demo_db1_def version_at_def version_of_def verkey_def Sync_Service.change_of_def version_state_of_def change_a_def clone_bytes_def)
  then have pull: "Pull demo_actor 0 100 demo_db1 = Inr page_a"
    by (simp add: Pull_def demo_active1 maxPullLimit_def int64_def pull_page_def page_a_def change_a_def)
  have s1: "exchange_step demo_world alice (exchange_a no_client []) (exchange_a no_client ?ms)"
    using exchange_step.pulls [of demo_actor 0 100 "exchange_a no_client []" page_a alice demo_world] pull by (simp add: exchange_a_def demo_actor_def)
  have s2: "exchange_step demo_world alice (exchange_a no_client ?ms) (exchange_a client_ingested ?ms)"
    using exchange_step.ingests [of 0 page_a "exchange_a no_client ?ms" demo_world alice 5] by (simp add: exchange_a_def demo_world_simps page ingest_a del: One_nat_def)
  have s3: "exchange_step demo_world alice (exchange_a client_ingested ?ms) (exchange_a client_planned ?ms)"
    using exchange_step.plans [of plan_a "exchange_a client_ingested ?ms" demo_world alice 6]
    by (simp add: exchange_a_def demo_world_simps changes_sent_def page plan_a_created)
  have s4: "exchange_step demo_world alice (exchange_a client_planned ?ms) (exchange_a client_begun ?ms)"
    by (rule exchange_a_works [of "Begun 7 71"]) (simp_all add: begin_a)
  have s5: "exchange_step demo_world alice (exchange_a client_begun ?ms) (exchange_a client_stepped ?ms)"
    by (rule exchange_a_works [of "StepApplied 71 0"]) (simp_all add: step_a_applied)
  have s6: "exchange_step demo_world alice (exchange_a client_stepped ?ms) (exchange_a client_done ?ms)"
    by (rule exchange_a_works [of "Completed 8 71"]) (simp_all add: complete_a)
  note more = converse_rtranclp_into_rtranclp
  show ?thesis by (rule more [OF s1 more [OF s2 more [OF s3 more [OF s4 more [OF s5 r_into_rtranclp [of "exchange_step demo_world alice", OF s6]]]]]])
qed

theorem client_and_server_agree_witness:
  "baseline_revision client_done 33 = server_revision demo_db1 alice 33 \<and> server_revision demo_db1 alice 33 = 1"
proof -
  have recorded: "answers_recorded demo_db1"
    by (simp add: answers_recorded_def answered_def demo_db1_def operation_a_def operation_row_def demo_actor_def intent_a_def create_a_def
      accepted_result_def Sync_Service.change_of_def)
  have known: "user_known demo_db1 alice" using active_known [OF demo_system_inv1] demo_active1 by (simp add: requireActiveActor_Inr demo_actor_def)
  have "cursor_is client_done ''confirmed_cursor'' 1" by (simp add: cursor_is_def client_done_def MaxInt64_def)
  then have "confirmed_of client_done = 1" using cursor_reads(2) by blast
  moreover have "server_revision demo_db1 alice 33 = 1" by (simp add: server_revision_def demo_load1 object_a_def created_row_def)
  ultimately show ?thesis
    using client_and_server_agree [OF demo_system_inv1 recorded known exchange_a_run [unfolded exchange_a_def], of 33] by simp
qed

end
