(* ===== verification/Spec2Isabelle.thy ===== *)
theory Spec2Isabelle
  imports Properties_Sync Properties_Accounts Properties_Notes Example_System Properties_Client Properties_Wire Exchange
begin

text \<open>
  Remember is a note application: a server keeps, per account, a tree of folders and notes with a gap-free
  change log, and clients synchronize their copies with it. This development models the server's
  services and the client's synchronization store and states what makes them correct.

  \<^bold>\<open>The parts and how they interact.\<close> All services of the server share one SQLite database; the theory
  \<open>Database\<close> is that database as one record of tables (\<open>server/internal/database/migrations\<close>). The
  identity service registers and verifies accounts and checks credentials, the session service issues
  and rotates tokens for devices, the delivery loop mails verification tokens, and the sync service takes
  mutations from an authenticated device and hands out the change log. The blob store keeps the contents of
  notes as files. The theory \<open>System\<close> makes every operation a step on the shared record, and the HTTP handler
  (\<open>Api\<close>) turns requests into these steps. The client keeps its own SQLite database (\<open>Client_Database\<close>): local
  edits queue operations in an outbox, results and pulled pages come back, and plans apply the pulled changes.
  What travels between the two is text: \<open>Remote\<close> writes the client's requests and reads the answers.

  \<^bold>\<open>Which theory models what.\<close>
  \<open>Prelude\<close>, \<open>Go_Text\<close>, \<open>Go_Codec\<close>: results as sums, tables as lists of rows, and the standard library the
  source uses (UTF-8 decoding, trimming, base64, JSON strings, decimal numbers).
  \<open>External\<close>: code that is not part of the repository as the record \<open>ext\<close> of functions (SHA-256, Unicode
  normalisation and folding, UUID fields) with its laws.
  \<open>Sync_Types\<close>, \<open>Sync_Naming\<close>, \<open>Sync_Store\<close>, \<open>Sync_Service\<close>: \<open>sync/types.go\<close>, \<open>reserved.go\<close>, \<open>naming.go\<close>, the SQL statements
  and \<open>service.go\<close> (\<open>Submit\<close>, \<open>Pull\<close> and everything they call).
  \<open>Sync_Resolution\<close>, \<open>Sync_Preserve\<close>, \<open>Sync_Preserve_Run\<close>: \<open>sync/preserve_delete.go\<close> with the triggers of migration 10.
  \<open>Session\<close>: \<open>session/service.go\<close>. \<open>Email\<close>, \<open>Password\<close>, \<open>Identity\<close>: \<open>identity\<close>. \<open>Verification_Token\<close>:
  \<open>verificationtoken/codec.go\<close>. \<open>Delivery\<close>: \<open>emaildelivery/dispatcher.go\<close>. \<open>Limiter\<close>: \<open>httpapi/limiter.go\<close>.
  \<open>Blob_Store\<close>: \<open>server/internal/blob\<close>, with a tree of entries as the file system. \<open>Json\<close>, \<open>Http\<close>: the
  parts of \<open>encoding/hex\<close> and \<open>encoding/json\<close> the programs use, the strict decoding both wrap around it, and
  messages; parsing identifiers and media types and printing times are the parameter \<open>wire\<close>. \<open>Api\<close>:
  \<open>httpapi/handler.go\<close>. \<open>Remote\<close>: \<open>client/internal/remotehttp/client.go\<close>.
  On the client, \<open>Client_Naming\<close> is \<open>client/internal/naming\<close> and \<open>Front_Matter\<close> is \<open>client/internal/frontmatter\<close>, with
  the YAML library as a parameter (\<open>fm_ext\<close>). \<open>Client_Database\<close> is the schema of \<open>client/internal/localindex\<close>,
  \<open>Client_Index\<close> its \<open>index.go\<close>, and \<open>client/internal/clientsync\<close> is \<open>Client_Outbox\<close>, \<open>Client_Store\<close>, \<open>Client_Apply\<close> and
  \<open>Client_Folders\<close> (\<open>store.go\<close>, \<open>folder_intents.go\<close>, \<open>integrity.go\<close>, \<open>reserved.go\<close>) and \<open>Client_Inbox\<close>, \<open>Client_Frontier\<close>
  (\<open>inbox.go\<close> with the triggers of migrations 25 to 39).
  Functions of the source keep their names; a branch that has a definition of its own is named after what
  it decides (\<open>place_conflict\<close>, \<open>submit_accepted\<close>, \<open>replay_recursive\<close>).

  \<^bold>\<open>What the lemmas show.\<close> \<open>Sync_Tree\<close>, \<open>Sync_Invariant\<close>, \<open>Sync_Submit\<close>: the synchronization invariant and that a
  submission keeps it. \<open>Sync_Outcome\<close>: results, replays and what a submission leaves alone. \<open>Sync_Feed\<close>: the
  feed has no gap, paging collects it, and its replay is the object table. \<open>Sync_Preserve_Keeps\<close>, \<open>_Plan\<close>,
  \<open>_Safe\<close>, \<open>_Scan\<close>, \<open>_Result\<close>, \<open>_Outcome\<close>: preserve-and-delete keeps the invariant, loses no note and reports exact
  cursors. \<open>Session_Invariant\<close>, \<open>Session_Safety\<close>, \<open>Identity_Invariant\<close>, \<open>Identity_Safety\<close>: the same for tokens and
  accounts. \<open>System_Frame\<close>, \<open>System_Purge\<close>, \<open>System\<close>, \<open>System_Safety\<close>: every step keeps all invariants, and the
  facts no later step takes back. \<open>Front_Matter_Safety\<close>, \<open>Front_Matter_Edits\<close>: what an edit of a note's metadata
  wrote is read back. \<open>Client_Outbox_Keeps\<close>, \<open>Client_Inbox_Keeps\<close>, \<open>Client_Plan_Keeps\<close>, \<open>Client_Transactions\<close>: the invariant of
  the client's store and that its statements and transactions keep it. \<open>Client_Events\<close>, \<open>Client_Runs\<close>, \<open>Client_Steps\<close>:
  the store as a state machine of 29 events, and that runs keep the invariant and never take back what is
  settled. \<open>Client_Order\<close>: one queued operation after the other can be sent. \<open>Client_Converge\<close>: the baselines follow
  the feed the client is given. \<open>Exchange\<close>: no step of the server changes an entry of a feed, and a
  server and a client over a network that delays, repeats and loses messages. \<open>Blob_Safety\<close>: the
  store of contents stays sound. \<open>Api_Safety\<close>: every request is at most one step, and for its own account only.
  \<open>Wire\<close>: what one program writes the other reads, so that a call over HTTP is the operation called. \<open>Example\<close>, \<open>Example_Accounts\<close>, \<open>Example_System\<close>, \<open>Example_Notes\<close>, \<open>Example_Client\<close>, \<open>Example_Wire\<close>: concrete
  states and texts for the closed examples. The properties are in \<open>Properties_Sync\<close>,
  \<open>Properties_Accounts\<close>, \<open>Properties_Notes\<close>, \<open>Properties_Client\<close>, \<open>Properties_Wire\<close> and here.

  \<^bold>\<open>Conventions.\<close> A \<open>uint64\<close> is a natural number; where SQLite binds it, a value of 2^63 or more does not bind
  and is a database error (\<open>int64\<close>). An error is the left of a sum. A transaction is a function into a sum
  of the new tables; \<open>run_tx\<close> keeps the old ones on an error. One request reads the clock once (\<open>now\<close>);
  identifiers from \<open>uuid.NewV7\<close> come from the list \<open>fresh\<close>, whose end is a failure of the generator; other
  randomness is a byte string read in order. Queries without a total order answer in insertion order.
  Strings and byte slices are HOL strings of bytes. The single writer of SQLite makes a request atomic, so
  concurrent clients are interleavings of steps; the limiter's mutex makes \<open>allow\<close> one step.

  \<^bold>\<open>Bounds and fuel.\<close> The loops over ancestors and descendants have the bounds of the source (10000 ancestors,
  100000 descendants, 1000 recovery names, depth 257 and 10001 rows of the recursive query) and answer with
  the error of the source when they are exceeded, so the numbers are not fuel but behaviour. The closures
  over the history run as many rounds as there are rows, after which nothing is added. \<open>drain\<close> runs
  with one more round than there are messages, which is enough (\<open>Properties_Accounts\<close>); paging with one more
  page than there are changes (\<open>Properties_Sync\<close>).

  \<^bold>\<open>Not modelled.\<close> Failures of SQL input and output and cancelled contexts: only constraint and trigger
  failures are. SMTP, configuration, migrations and process start are input and output around the modelled
  services. Of the blob store, fsync, directory handles and the preparation of its roots are left to the
  operating system; of the handler, logging and the request identifier; a body is there at once or too long.
  Of the client, the file system, the transport and the graphical shell are not modelled. The recovery of
  conflicts is the event \<open>Recovered\<close>, which adds its records and takes queued operations back; the
  application's cycle and the capture of local edits are not modelled yet.
\<close>

section \<open>The server as a whole\<close>

text \<open>C1: in every state the server can reach, by requests of any clients in any order, all invariants hold
  together: the schema's constraints, the folder hierarchy, the agreement of objects, versions,
  operations and change log, the shape of devices, sessions and tokens, and the shape of accounts,
  verifications and mail.\<close>

theorem reachable_states_keep_invariants:
  assumes "reachable w d"
  shows "sync_inv d \<and> session_inv d \<and> identity_inv (w_ext w) (w_codec w) d"
  using reachable_inv [OF assms] by (simp add: system_inv_def)

theorem reachable_states_keep_invariants_witness:
  "sync_inv demo_registered \<and> session_inv demo_registered \<and> identity_inv demo_ext sample_aead demo_registered"
  using reachable_states_keep_invariants [OF demo_reachable_registered] by simp

text \<open>C33: a submission that was answered is answered the same for ever. However many requests of whatever
  kind the server has handled since, the same request, from any active device of the account, gets the
  stored result and changes nothing.\<close>

theorem submission_replayed_for_ever:
  assumes "system_inv w d" and "world_ok w"
    and "Submit (w_ext w) a now fresh q d = (Inr res, d1)" and "(run_step w)\<^sup>*\<^sup>* d1 d2"
    and "a_user a' = a_user a" and "requireActiveActor a' d2 = Inr ()"
  shows "Submit (w_ext w) a' now' fresh' q d2 = (Inr res, d2)"
  using assms by (rule submit_replayed_later)

theorem submission_replayed_for_ever_witness:
  "Submit demo_ext demo_actor 9 [7] create_a (demo_db1\<lparr>blobs := [], entitlements := [(alice, hash_a)]\<rparr>) =
     (Inr (accepted_result 1 1), demo_db1\<lparr>blobs := [], entitlements := [(alice, hash_a)]\<rparr>)"
proof -
  let ?d = "demo_db1\<lparr>blobs := [], entitlements := [(alice, hash_a)]\<rparr>"
  have "(run_step demo_world)\<^sup>*\<^sup>* demo_db1 ?d"
    using demo_upload [where d = demo_db1 and bs = "[]" and es = "[(alice, hash_a)]"] by (simp add: demo_db1_def)
  moreover have "requireActiveActor demo_actor ?d = Inr ()"
    using demo_active1 by (simp add: requireActiveActor_def user_active_def device_active_def)
  ultimately show ?thesis
    using submission_replayed_for_ever [OF demo_system_inv demo_world_ok, of demo_actor 5 "[]" create_a _ demo_db1]
      submit_a by simp
qed

text \<open>C34: once a device is revoked it is locked out for ever: after any further requests it can neither
  submit nor preserve-and-delete nor pull, and no token, not even one issued to it before, authenticates
  it.\<close>

theorem revoked_device_locked_out:
  assumes "system_inv w d" and "world_ok w"
    and "RevokeDevice (w_ext w) now token i d = (Inr (), d1)"
    and "AuthenticateAccess (w_ext w) now token d = Inr p" and "(run_step w)\<^sup>*\<^sup>* d1 d2"
  shows "locked_out w (pr_user p) i d2"
  using assms by (rule revoked_for_ever)

theorem revoked_device_locked_out_witness:
  "locked_out demo_world alice demo_id (revoked_db\<lparr>blobs := [], entitlements := entitlements revoked_db @ []\<rparr>)"
proof -
  let ?d = "revoked_db\<lparr>blobs := [], entitlements := entitlements revoked_db @ []\<rparr>"
  have "(run_step demo_world)\<^sup>*\<^sup>* revoked_db ?d" by (rule r_into_rtranclp) (rule demo_upload)
  from revoked_device_locked_out [OF logged_in_system demo_world_ok _ _ this, of 6 demo_access demo_id demo_principal]
  show ?thesis using demo_revoke demo_authenticated by (simp add: demo_principal_def)
qed



end
